(* ===== verification/Prelude.thy ===== *)
theory Prelude
  imports Main "HOL-Library.Word" "HOL-Library.Char_ord" "HOL-Library.List_Lexorder"
    "HOL-Library.Product_Lexorder"
begin

text \<open>
  Vocabulary shared by every component: names for Rust's integer types, the saturating and
  checked operations of the standard library on them, little-endian byte encodings, and the
  generic list lemmas the components use. Plain \<open>+\<close>, \<open>-\<close>, \<open>*\<close> on words wrap, which is what
  the release profile of the workspace (overflow checks off) does; a \<open>usize\<close> that counts the
  elements of a container is a \<open>nat\<close>.
\<close>

unbundle bit_operations_syntax

named_theorems state_defs \<open>definitions of the operations of a component\<close>
named_theorems inv_intros \<open>an operation preserves its component's invariant\<close>

type_synonym u8 = "8 word"
type_synonym u16 = "16 word"
type_synonym u32 = "32 word"
type_synonym u64 = "64 word"
type_synonym bytes = "u8 list"
type_synonym Blake3Hash = bytes

section \<open>Saturating and checked arithmetic\<close>

definition saturating_add :: "'a::len word \<Rightarrow> 'a word \<Rightarrow> 'a word" where
  "saturating_add a b = (if unat a + unat b < 2 ^ LENGTH('a) then a + b else - 1)"

definition saturating_sub :: "'a::len word \<Rightarrow> 'a word \<Rightarrow> 'a word" where
  "saturating_sub a b = (if b \<le> a then a - b else 0)"

definition checked_add :: "'a::len word \<Rightarrow> 'a word \<Rightarrow> 'a word option" where
  "checked_add a b = (if unat a + unat b < 2 ^ LENGTH('a) then Some (a + b) else None)"

lemma unat_saturating_sub [simp]: "unat (saturating_sub a b) = unat a - unat b"
  by (auto simp: saturating_sub_def unat_sub_if_size word_le_nat_alt word_size)

lemma unat_saturating_add:
  "unat (saturating_add a b) = min (unat a + unat b) (2 ^ LENGTH('a) - 1)"
  for a b :: "'a::len word"
  by (auto simp: saturating_add_def unat_word_ariths unsigned_minus_1_eq_mask mask_eq_exp_minus_1)

lemma saturating_add_ge: "a \<le> saturating_add a b" for a b :: "'a::len word"
proof -
  have "unat a \<le> 2 ^ LENGTH('a) - 1"
    using unsigned_less [of a, where ?'a = nat] by linarith
  then show ?thesis by (simp add: word_le_nat_alt unat_saturating_add)
qed

lemma unat_checked_add: "checked_add a b = Some c \<Longrightarrow> unat c = unat a + unat b"
  by (auto simp: checked_add_def unat_word_ariths split: if_splits)

lemma unat_plus_1: "unat (a + 1) = Suc (unat a)" if "a \<noteq> - 1" for a :: "'a::len word"
proof -
  have "a + 1 \<noteq> 0" using that by (simp add: eq_neg_iff_add_eq_0)
  then have "0 < unat (a + 1)" by (simp add: unat_gt_0)
  with \<open>a + 1 \<noteq> 0\<close> show ?thesis using unat_minus_one [of "a + 1"] by simp
qed

lemma word_inc_less: "a < a + 1" if "a \<noteq> - 1" for a :: "'a::len word"
  using unat_plus_1 [OF that] by (simp add: word_less_nat_alt)

section \<open>Little-endian bytes\<close>

primrec le_bytes :: "nat \<Rightarrow> 'a::len word \<Rightarrow> bytes" where
  "le_bytes 0 w = []"
| "le_bytes (Suc n) w = ucast w # le_bytes n (drop_bit 8 w)"

primrec from_le_bytes :: "bytes \<Rightarrow> 'a::len word" where
  "from_le_bytes [] = 0"
| "from_le_bytes (b # bs) = ucast b OR push_bit 8 (from_le_bytes bs)"

lemma length_le_bytes [simp]: "length (le_bytes n w) = n"
  by (induction n arbitrary: w) auto

lemma from_le_bytes_le_bytes: "from_le_bytes (le_bytes n w) = take_bit (8 * n) w"
proof (induction n arbitrary: w)
  case (Suc n)
  have "bit (ucast (ucast w :: u8) OR push_bit 8 (take_bit (8 * n) (drop_bit 8 w)) :: 'a word) i
      = bit (take_bit (8 * Suc n) w) i" if "i < LENGTH('a)" for i
    using that by (auto simp: bit_simps bit_or_iff)
  then show ?case by (auto simp: Suc intro: bit_word_eqI)
qed simp

lemma from_le_bytes_id [simp]:
  "LENGTH('a) \<le> 8 * n \<Longrightarrow> from_le_bytes (le_bytes n w) = w" for w :: "'a::len word"
  by (simp add: from_le_bytes_le_bytes take_bit_word_eq_self)

lemma le_bytes_inj: "le_bytes n v = le_bytes n w \<Longrightarrow> LENGTH('a) \<le> 8 * n \<Longrightarrow> v = w"
  for v w :: "'a::len word"
  by (metis from_le_bytes_id)

lemma le_bytes_eq_Nil [simp]: "le_bytes n w = [] \<longleftrightarrow> n = 0"
  by (cases n) auto

lemma le_bytes_eq_iff [simp]:
  "LENGTH('a) \<le> 8 * n \<Longrightarrow> le_bytes n v = le_bytes n w \<longleftrightarrow> v = w" for v w :: "'a::len word"
  by (auto dest: le_bytes_inj)

lemma le_bytes_from_le_bytes:
  "length bs = n \<Longrightarrow> 8 * n \<le> LENGTH('a) \<Longrightarrow> le_bytes n (from_le_bytes bs :: 'a::len word) = bs"
proof (induction bs arbitrary: n)
  case (Cons b bs)
  then obtain m where m: "n = Suc m" "length bs = m" "8 * m + 8 \<le> LENGTH('a)" by auto
  let ?w = "from_le_bytes bs :: 'a word"
  have "ucast (ucast b OR push_bit 8 ?w :: 'a word) = b"
    using m by (auto intro!: bit_word_eqI simp: bit_simps)
  moreover have "drop_bit 8 (ucast b OR push_bit 8 ?w) = ?w"
  proof (rule bit_word_eqI)
    fix i assume i: "i < LENGTH('a)"
    have hi: "\<not> bit ?w i" if "8 * m \<le> i"
    proof -
      have "take_bit (8 * m) ?w = ?w"
        using Cons.IH [of m] m from_le_bytes_le_bytes [of m ?w] by simp
      then have "bit ?w i = bit (take_bit (8 * m) ?w) i" by simp
      with that show ?thesis by (simp add: bit_take_bit_iff)
    qed
    have "\<not> bit b (i + 8)" using bit_imp_le_length [of b "i + 8"] by auto
    with i m hi show "bit (drop_bit 8 (ucast b OR push_bit 8 ?w)) i = bit ?w i"
      by (cases "8 * m \<le> i") (auto simp: bit_simps ac_simps)
  qed
  ultimately show ?case using m Cons.IH [of m] by simp
qed simp

section \<open>Lists\<close>

definition last_n :: "nat \<Rightarrow> 'a list \<Rightarrow> 'a list" where
  "last_n n xs = drop (length xs - n) xs"

lemma length_last_n [simp]: "length (last_n n xs) = min n (length xs)"
  by (auto simp: last_n_def)

lemma set_last_n_subset: "set (last_n n xs) \<subseteq> set xs"
  by (simp add: last_n_def set_drop_subset)

lemma last_n_all: "length xs \<le> n \<Longrightarrow> last_n n xs = xs"
  by (simp add: last_n_def)

lemma last_n_last_n_append: "last_n n (last_n n ys @ xs) = last_n n (ys @ xs)"
  by (cases "length ys \<le> n") (auto simp: last_n_def add.commute)

lemma find_None_all: "List.find P xs = None \<longleftrightarrow> (\<forall>x \<in> set xs. \<not> P x)"
  by (induction xs) auto

lemma find_append:
  "List.find P (xs @ ys) = (case List.find P xs of None \<Rightarrow> List.find P ys | Some x \<Rightarrow> Some x)"
  by (induction xs) auto

lemma find_SomeD: "List.find P xs = Some x \<Longrightarrow> P x \<and> x \<in> set xs"
  by (induction xs) (auto split: if_splits)

lemma concat_messages_Nil: "concat (map (\<lambda>x. if P x then [f x] else []) xs) = [] \<longleftrightarrow> (\<forall>x \<in> set xs. \<not> P x)"
  by (induction xs) auto

lemma append_inj_len: "length a = length b \<Longrightarrow> a @ xs = b @ ys \<longleftrightarrow> a = b \<and> xs = ys"
  by (rule append_eq_append_conv) auto

lemma split_at_eq: "zs = xs @ ys \<Longrightarrow> length xs = k \<Longrightarrow> take k zs = xs \<and> drop k zs = ys"
  by auto

section \<open>Strings\<close>

text \<open>A \<open>char\<close> of a string is one UTF-8 byte; \<open>utf8\<close> writes the literals that are not ASCII.\<close>

definition utf8 :: "nat list \<Rightarrow> string" where
  "utf8 bs = map char_of bs"

fun decimal :: "nat \<Rightarrow> string" where
  "decimal n = (if n < 10 then [char_of (48 + n)] else decimal (n div 10) @ [char_of (48 + n mod 10)])"

declare decimal.simps [simp del]

text \<open>The byte sequences \<open>String::from_utf8\<close> accepts.\<close>

definition utf8_cont :: "u8 \<Rightarrow> bool" where
  "utf8_cont b \<longleftrightarrow> 0x80 \<le> b \<and> b \<le> 0xBF"

fun utf8_valid :: "bytes \<Rightarrow> bool" where
  "utf8_valid [] = True"
| "utf8_valid (a # bs) =
     (if a < 0x80 then utf8_valid bs
      else case bs of
        [] \<Rightarrow> False
      | b # cs \<Rightarrow>
          if 0xC2 \<le> a \<and> a \<le> 0xDF then utf8_cont b \<and> utf8_valid cs
          else case cs of
            [] \<Rightarrow> False
          | c # ds \<Rightarrow>
              if 0xE0 \<le> a \<and> a \<le> 0xEF
              then utf8_cont b \<and> utf8_cont c \<and> (a = 0xE0 \<longrightarrow> 0xA0 \<le> b) \<and> (a = 0xED \<longrightarrow> b \<le> 0x9F) \<and> utf8_valid ds
              else case ds of
                [] \<Rightarrow> False
              | d # es \<Rightarrow> 0xF0 \<le> a \<and> a \<le> 0xF4 \<and> utf8_cont b \<and> utf8_cont c \<and> utf8_cont d
                  \<and> (a = 0xF0 \<longrightarrow> 0x90 \<le> b) \<and> (a = 0xF4 \<longrightarrow> b \<le> 0x8F) \<and> utf8_valid es)"

definition from_utf8 :: "bytes \<Rightarrow> string option" where
  "from_utf8 bs = (if utf8_valid bs then Some (map (\<lambda>b. char_of (unat b)) bs) else None)"

section \<open>Sums\<close>

definition map_inl :: "('e \<Rightarrow> 'f) \<Rightarrow> 'e + 'a \<Rightarrow> 'f + 'a" where
  "map_inl f r = (case r of Inl e \<Rightarrow> Inl (f e) | Inr a \<Rightarrow> Inr a)"

lemma map_inl_eq_Inr [simp]: "map_inl f x = Inr y \<longleftrightarrow> x = Inr y"
  by (cases x) (auto simp: map_inl_def)

lemma map_sum_Inr: "map_sum f g z = Inr y \<longleftrightarrow> (\<exists>x. z = Inr x \<and> y = g x)"
  by (cases z) auto

definition bind_sum :: "'e + 'a \<Rightarrow> ('a \<Rightarrow> 'e + 'b) \<Rightarrow> 'e + 'b" where
  "bind_sum r f = (case r of Inl e \<Rightarrow> Inl e | Inr a \<Rightarrow> f a)"

lemma map_inl_simps [simp]: "map_inl f (Inl e) = Inl (f e)" "map_inl f (Inr a) = Inr a"
  by (simp_all add: map_inl_def)

lemma bind_sum_simps [simp]: "bind_sum (Inl e) f = Inl e" "bind_sum (Inr a) f = f a"
  by (simp_all add: bind_sum_def)

end
