(* ===== verification/Ordered_Map.thy ===== *)
theory Ordered_Map
  imports Prelude
begin

text \<open>
  Rust's \<open>BTreeMap\<close>: an association list in ascending key order. Lookup is \<open>map_of\<close>; insertion,
  removal and retention keep the order, so iteration (\<open>iter\<close>, \<open>keys\<close>, \<open>values\<close>) is the list
  itself. The locale \<open>keyed_store\<close> is the interface the components rely on; this theory
  interprets it on the association lists.
\<close>

type_synonym ('k, 'v) btree = "('k \<times> 'v) list"

abbreviation bm_get :: "('k, 'v) btree \<Rightarrow> 'k \<Rightarrow> 'v option" where
  "bm_get \<equiv> map_of"

fun bm_insert :: "'k::linorder \<Rightarrow> 'v \<Rightarrow> ('k, 'v) btree \<Rightarrow> ('k, 'v) btree" where
  "bm_insert k v [] = [(k, v)]"
| "bm_insert k v (p # m) =
     (if k < fst p then (k, v) # p # m
      else if fst p < k then p # bm_insert k v m
      else (k, v) # m)"

definition bm_remove :: "'k \<Rightarrow> ('k, 'v) btree \<Rightarrow> ('k, 'v) btree" where
  "bm_remove k m = filter (\<lambda>p. fst p \<noteq> k) m"

definition bm_retain :: "('k \<Rightarrow> 'v \<Rightarrow> bool) \<Rightarrow> ('k, 'v) btree \<Rightarrow> ('k, 'v) btree" where
  "bm_retain f m = filter (\<lambda>p. f (fst p) (snd p)) m"

definition bm_update :: "'k \<Rightarrow> ('v \<Rightarrow> 'v) \<Rightarrow> ('k, 'v) btree \<Rightarrow> ('k, 'v) btree" where
  "bm_update k f m = map (\<lambda>p. if fst p = k then (k, f (snd p)) else p) m"

definition bm_wf :: "('k::linorder, 'v) btree \<Rightarrow> bool" where
  "bm_wf m \<longleftrightarrow> sorted_wrt (<) (map fst m)"

lemma bm_get_insert: "bm_get (bm_insert k v m) = (bm_get m)(k \<mapsto> v)"
  by (induction k v m rule: bm_insert.induct) (auto simp: fun_eq_iff)

lemma bm_get_remove: "bm_get (bm_remove k m) = (bm_get m)(k := None)"
  by (induction m) (auto simp: bm_remove_def fun_eq_iff)

lemma bm_get_update: "bm_get (bm_update k f m) = (bm_get m)(k := map_option f (bm_get m k))"
  by (induction m) (auto simp: bm_update_def fun_eq_iff)

lemma keys_insert: "fst ` set (bm_insert k v m) = insert k (fst ` set m)"
  by (induction k v m rule: bm_insert.induct) auto

lemma keys_update [simp]: "map fst (bm_update k f m) = map fst m"
  by (induction m) (auto simp: bm_update_def)

lemma bm_wf_Nil [simp]: "bm_wf []"
  by (simp add: bm_wf_def)

lemma bm_wf_single [simp]: "bm_wf [p]"
  by (simp add: bm_wf_def)

lemma bm_wf_insert: "bm_wf m \<Longrightarrow> bm_wf (bm_insert k v m)"
proof (induction k v m rule: bm_insert.induct)
  case (2 k v p m)
  then show ?case
    using keys_insert [of k v m] by (fastforce simp: bm_wf_def)
qed simp

lemma bm_wf_filter: "bm_wf m \<Longrightarrow> bm_wf (filter P m)"
  by (auto simp: bm_wf_def sorted_wrt_map sorted_wrt_filter)

lemma bm_wf_remove: "bm_wf m \<Longrightarrow> bm_wf (bm_remove k m)"
  by (simp add: bm_remove_def bm_wf_filter)

lemma bm_wf_retain: "bm_wf m \<Longrightarrow> bm_wf (bm_retain f m)"
  by (simp add: bm_retain_def bm_wf_filter)

lemma bm_wf_update: "bm_wf m \<Longrightarrow> bm_wf (bm_update k f m)"
  by (simp add: bm_wf_def)

lemmas bm_wf_intros [intro] = bm_wf_insert bm_wf_remove bm_wf_retain bm_wf_update

lemma bm_wf_distinct: "bm_wf m \<Longrightarrow> distinct (map fst m)"
  by (auto simp: bm_wf_def strict_sorted_iff)

lemma bm_get_iff: "bm_wf m \<Longrightarrow> bm_get m k = Some v \<longleftrightarrow> (k, v) \<in> set m"
  using bm_wf_distinct [of m] by (auto dest: map_of_SomeD)

lemma bm_get_retain:
  "bm_wf m \<Longrightarrow> bm_get (bm_retain f m) k =
     (case bm_get m k of None \<Rightarrow> None | Some v \<Rightarrow> if f k v then Some v else None)"
proof (induction m)
  case (Cons p m)
  then have "bm_wf m" and "\<forall>q \<in> set m. fst q \<noteq> fst p" by (auto simp: bm_wf_def)
  then show ?case
    using Cons.IH
    by (auto simp: bm_retain_def map_of_eq_None_iff split: option.splits dest: map_of_SomeD)
qed (simp add: bm_retain_def)

lemma bm_ext:
  assumes "bm_wf m" "bm_wf n" "bm_get m = bm_get n"
  shows "m = n"
proof (rule map_sorted_distinct_set_unique [where f = fst])
  show eq: "set m = set n"
    using assms bm_get_iff [OF assms(1)] bm_get_iff [OF assms(2)] by auto
  show "inj_on fst (set m \<union> set n)"
    using bm_wf_distinct [OF assms(1)] eq by (simp add: distinct_map)
qed (use assms in \<open>auto simp: bm_wf_def strict_sorted_iff\<close>)

locale keyed_store =
  fixes get :: "'m \<Rightarrow> 'k \<Rightarrow> 'v option"
    and ins :: "'k \<Rightarrow> 'v \<Rightarrow> 'm \<Rightarrow> 'm"
    and rem :: "'k \<Rightarrow> 'm \<Rightarrow> 'm"
    and entries :: "'m \<Rightarrow> ('k \<times> 'v) list"
    and wf :: "'m \<Rightarrow> bool"
  assumes get_ins: "get (ins k v m) = (get m)(k \<mapsto> v)"
    and get_rem: "get (rem k m) = (get m)(k := None)"
    and wf_ins: "wf m \<Longrightarrow> wf (ins k v m)"
    and wf_rem: "wf m \<Longrightarrow> wf (rem k m)"
    and entries_iff: "wf m \<Longrightarrow> (k, v) \<in> set (entries m) \<longleftrightarrow> get m k = Some v"
    and distinct_entries: "wf m \<Longrightarrow> distinct (map fst (entries m))"
begin

lemma get_ins_same [simp]: "get (ins k v m) k = Some v"
  by (simp add: get_ins)

lemma get_rem_same [simp]: "get (rem k m) k = None"
  by (simp add: get_rem)

lemma get_rem_ins: "k \<noteq> l \<Longrightarrow> get (rem k (ins l v m)) l = Some v"
  by (simp add: get_rem get_ins)

lemma entries_key_unique:
  "wf m \<Longrightarrow> (k, v) \<in> set (entries m) \<Longrightarrow> (k, w) \<in> set (entries m) \<Longrightarrow> v = w"
  by (simp add: entries_iff)

lemma card_dom_get: "wf m \<Longrightarrow> card (dom (get m)) = length (entries m)"
proof -
  assume wf: "wf m"
  have "dom (get m) = fst ` set (entries m)"
    using entries_iff [OF wf] by (force simp: dom_def)
  then show ?thesis
    using distinct_card [OF distinct_entries [OF wf]] by simp
qed

lemma dom_eq_entries: "wf m \<Longrightarrow> dom (get m) = fst ` set (entries m)"
  using entries_iff by (force simp: dom_def)

lemma length_entries_ins_new:
  assumes "wf m" "get m k = None"
  shows "length (entries (ins k v m)) = Suc (length (entries m))"
proof -
  have "finite (dom (get m))" using dom_eq_entries [OF assms(1)] by simp
  moreover have "dom (get (ins k v m)) = insert k (dom (get m))" by (auto simp: get_ins)
  moreover have "k \<notin> dom (get m)" using assms(2) by auto
  ultimately show ?thesis
    using card_dom_get [OF assms(1)] card_dom_get [OF wf_ins [OF assms(1)], of k v] by simp
qed

end

interpretation bmap: keyed_store bm_get bm_insert bm_remove "\<lambda>m. m" bm_wf
  by unfold_locales
    (auto simp: bm_get_insert bm_get_remove bm_wf_insert bm_wf_remove bm_get_iff bm_wf_distinct)

lemmas bm_simps = bm_get_insert bm_get_remove bm_get_update

end
