(* ===== verification/Deterministic.thy ===== *)
theory Deterministic
  imports Prelude
begin

text \<open>
  The determinism primitives of \<^verbatim>\<open>engine/deterministic\<close>: the PCG-XSH-RR generator with its
  byte serialisation and rejection sampling, the simulation tick counter, and the bit-level part
  of \<open>SoftF32\<close>. The arithmetic of the \<open>softfloat\<close> crate is a parameter (\<open>softfloat_ops\<close>).
\<close>

section \<open>PCG-XSH-RR\<close>

record DeterministicRng =
  rng_st :: u64
  rng_inc :: u64

definition PCG_MULTIPLIER :: u64 where
  "PCG_MULTIPLIER = 6364136223846793005"

definition advance :: "DeterministicRng \<Rightarrow> DeterministicRng" where
  "advance r = r\<lparr>rng_st := rng_st r * PCG_MULTIPLIER + rng_inc r\<rparr>"

definition seed_from_u64 :: "u64 \<Rightarrow> DeterministicRng" where
  "seed_from_u64 seed =
     (let r = advance \<lparr>rng_st = 0, rng_inc = 1 * 2 + 1\<rparr>
      in advance (r\<lparr>rng_st := rng_st r + seed\<rparr>))"

definition next_u32 :: "DeterministicRng \<Rightarrow> u32 \<times> DeterministicRng" where
  "next_u32 r =
     (let old_state = rng_st r;
          r' = advance r;
          xorshifted = ucast (drop_bit 27 (drop_bit 18 old_state XOR old_state)) :: u32;
          rot = unat (drop_bit 59 old_state)
      in (word_rotr rot xorshifted, r'))"

definition state_bytes :: "DeterministicRng \<Rightarrow> bytes" where
  "state_bytes r = le_bytes 8 (rng_st r) @ le_bytes 8 (rng_inc r)"

definition from_state_bytes :: "bytes \<Rightarrow> DeterministicRng" where
  "from_state_bytes bs =
     \<lparr>rng_st = from_le_bytes (take 8 bs), rng_inc = from_le_bytes (take 8 (drop 8 bs))\<rparr>"

lemma length_state_bytes [simp]: "length (state_bytes r) = 16"
  by (simp add: state_bytes_def)

lemma from_state_bytes_state_bytes [simp]: "from_state_bytes (state_bytes r) = r"
  by (simp add: from_state_bytes_def state_bytes_def)

lemma state_bytes_from_state_bytes:
  "length bs = 16 \<Longrightarrow> state_bytes (from_state_bytes bs) = bs"
  by (simp add: from_state_bytes_def state_bytes_def le_bytes_from_le_bytes)

lemma state_bytes_inj: "state_bytes r = state_bytes r' \<longleftrightarrow> r = r'"
  by (metis from_state_bytes_state_bytes)

lemma rng_inc_advance [simp]: "rng_inc (advance r) = rng_inc r"
  by (simp add: advance_def)

lemma rng_inc_next_u32 [simp]: "rng_inc (snd (next_u32 r)) = rng_inc r"
  by (simp add: next_u32_def Let_def)

lemma snd_next_u32: "snd (next_u32 r) = advance r"
  by (simp add: next_u32_def Let_def)

lemma rng_inc_seed [simp]: "rng_inc (seed_from_u64 seed) = 3"
  by (simp add: seed_from_u64_def advance_def Let_def)

subsection \<open>The generator has full period\<close>

text \<open>
  The multiplier is 1 modulo 4. For such \<open>a\<close> the sum \<open>1 + a + \<dots> + a^(k-1)\<close> has exactly as many
  factors 2 as \<open>k\<close>: doubling \<open>k\<close> multiplies the sum by \<open>1 + a^m\<close>, which is 2 modulo 4.
\<close>

lemma geom_double: "(\<Sum>i<2 * m. a ^ i) = (\<Sum>i<m. a ^ i) * (1 + a ^ m)" for a :: nat
proof -
  have "(\<Sum>i<2 * m. a ^ i) = (\<Sum>i<m. a ^ i) + (\<Sum>i = m..<m + m. a ^ i)"
    by (simp add: lessThan_atLeast0 sum.atLeastLessThan_concat mult_2)
  also have "(\<Sum>i = m..<m + m. a ^ i) = (\<Sum>i<m. a ^ i) * a ^ m"
    using sum.shift_bounds_nat_ivl [of "\<lambda>i. a ^ i" 0 m m]
    by (simp add: lessThan_atLeast0 power_add sum_distrib_right)
  finally show ?thesis by (simp add: algebra_simps)
qed

lemma geom_odd: "odd (a :: nat) \<Longrightarrow> odd (\<Sum>i<k. a ^ i) \<longleftrightarrow> odd k"
  by (induction k) auto

lemma pow_mod4: "a mod 4 = 1 \<Longrightarrow> (a :: nat) ^ m mod 4 = 1"
  using power_mod [of a 4 m] by simp

lemma geom_dvd:
  fixes a :: nat
  assumes a: "a mod 4 = 1"
  shows "2 ^ n dvd (\<Sum>i<k. a ^ i) \<longleftrightarrow> 2 ^ n dvd k"
proof (induction n arbitrary: k)
  case (Suc n)
  have odd_a: "odd a" using a by presburger
  show ?case
  proof (cases "even k")
    case False
    then show ?thesis using geom_odd [OF odd_a, of k] by (auto dest: dvd_mult_left)
  next
    case True
    then obtain m where k: "k = 2 * m" by (auto elim: evenE)
    have "(1 + a ^ m) mod 4 = 2"
      using pow_mod4 [OF a, of m] by presburger
    moreover define q where "q = (1 + a ^ m) div 2"
    ultimately have q: "1 + a ^ m = 2 * q" "odd q" by presburger+
    have "(\<Sum>i<k. a ^ i) = 2 * ((\<Sum>i<m. a ^ i) * q)"
      by (simp only: k geom_double q(1) mult.left_commute)
    then have "2 ^ Suc n dvd (\<Sum>i<k. a ^ i) \<longleftrightarrow> 2 ^ n dvd (\<Sum>i<m. a ^ i) * q"
      by simp
    also have "\<dots> \<longleftrightarrow> 2 ^ n dvd (\<Sum>i<m. a ^ i)"
      using q(2) by (intro coprime_dvd_mult_left_iff) simp
    also have "\<dots> \<longleftrightarrow> 2 ^ Suc n dvd k" by (simp add: Suc.IH k)
    finally show ?thesis .
  qed
qed simp

lemma rng_st_advance [simp]: "rng_st (advance r) = rng_st r * PCG_MULTIPLIER + rng_inc r"
  by (simp add: advance_def)

lemma advance_pow_inc [simp]: "rng_inc ((advance ^^ k) r) = rng_inc r"
  by (induction k) auto

lemma advance_pow_zero:
  "rng_st r = 0 \<Longrightarrow>
   rng_st ((advance ^^ k) r) = rng_inc r * of_nat (\<Sum>i<k. unat PCG_MULTIPLIER ^ i)"
proof (induction k)
  case (Suc k)
  let ?S = "\<lambda>k. (\<Sum>i<k. unat PCG_MULTIPLIER ^ i)"
  have "?S (Suc k) = 1 + unat PCG_MULTIPLIER * ?S k"
    by (simp only: sum.lessThan_Suc_shift power_0 power_Suc sum_distrib_left)
  then have "(of_nat (?S (Suc k)) :: u64) = 1 + PCG_MULTIPLIER * of_nat (?S k)"
    by simp
  then show ?case
    using Suc by (simp add: algebra_simps del: sum.lessThan_Suc of_nat_sum)
qed simp

lemma odd_mult_zero_iff:
  "odd c \<Longrightarrow> c * of_nat n = 0 \<longleftrightarrow> 2 ^ 64 dvd n" for c :: u64
proof -
  assume c: "odd c"
  have "c * of_nat n = of_nat (unat c * n)" by simp
  then have "c * of_nat n = 0 \<longleftrightarrow> 2 ^ 64 dvd unat c * n"
    by (simp only: word_of_nat_eq_0_iff) simp
  moreover have "odd (unat c)"
    using c by (simp add: bit_unsigned_iff flip: bit_0)
  then have "coprime (2 ^ 64) (unat c)"
    by (simp only: coprime_power_left_iff coprime_left_2_iff_odd simp_thms)
  ultimately show ?thesis by (simp only: coprime_dvd_mult_right_iff)
qed

lemma advance_inj: "advance r = advance r' \<Longrightarrow> r = r'"
proof -
  have inv: "PCG_MULTIPLIER * 13877824140714322085 = 1" by (simp add: PCG_MULTIPLIER_def)
  assume eq: "advance r = advance r'"
  then have inc: "rng_inc r = rng_inc r'" by (metis rng_inc_advance)
  with eq have "rng_st r * PCG_MULTIPLIER = rng_st r' * PCG_MULTIPLIER"
    by (cases r; cases r') (simp add: advance_def)
  then have "rng_st r * (PCG_MULTIPLIER * 13877824140714322085)
      = rng_st r' * (PCG_MULTIPLIER * 13877824140714322085)"
    by (simp only: mult.assoc [symmetric])
  with inv inc show "r = r'" by simp
qed

lemma advance_pow_inj: "(advance ^^ k) r = (advance ^^ k) r' \<Longrightarrow> r = r'"
  by (induction k) (auto dest: advance_inj)

lemma advance_period_zero:
  "rng_st r = 0 \<Longrightarrow> odd (rng_inc r) \<Longrightarrow> rng_st ((advance ^^ k) r) = 0 \<longleftrightarrow> 2 ^ 64 dvd k"
proof -
  assume "rng_st r = 0" "odd (rng_inc r)"
  then have "rng_st ((advance ^^ k) r) = 0 \<longleftrightarrow> 2 ^ 64 dvd (\<Sum>i<k. unat PCG_MULTIPLIER ^ i)"
    by (metis advance_pow_zero odd_mult_zero_iff)
  moreover have "unat PCG_MULTIPLIER mod 4 = 1" by (simp add: PCG_MULTIPLIER_def)
  ultimately show ?thesis by (simp only: geom_dvd)
qed

lemma funpow_apply: "(f ^^ i) ((f ^^ j) x) = (f ^^ (i + j)) x"
  by (simp add: funpow_add)

lemma rng_eq_iff: "r = r' \<longleftrightarrow> rng_st r = rng_st r' \<and> rng_inc r = rng_inc r'" for r r' :: DeterministicRng
  by auto

lemma advance_pow_reaches:
  assumes odd: "odd (rng_inc r)" and N: "N = 2 ^ 64"
  shows "\<exists>k<N. (advance ^^ k) (r\<lparr>rng_st := 0\<rparr>) = r"
proof -
  let ?z = "r\<lparr>rng_st := 0\<rparr>"
  let ?f = "\<lambda>k. rng_st ((advance ^^ k) ?z)"
  have step: "j = i" if ij: "i \<le> j" "j < N" and eq: "?f i = ?f j" for i j
  proof -
    have "(advance ^^ i) ?z = (advance ^^ i) ((advance ^^ (j - i)) ?z)"
      using ij(1) eq by (simp add: rng_eq_iff funpow_apply)
    then have "(advance ^^ (j - i)) ?z = ?z" by (metis advance_pow_inj)
    then have "?f (j - i) = 0" by simp
    then have "N dvd j - i" using advance_period_zero [of ?z "j - i"] odd by (simp only: N) simp
    with ij show ?thesis by (auto dest: dvd_imp_le)
  qed
  have inj: "inj_on ?f {..<N}"
    by (rule inj_onI) (metis lessThan_iff nat_le_linear step)
  have "card (?f ` {..<N}) = N" by (simp only: card_image [OF inj] card_lessThan)
  moreover have "card (UNIV :: u64 set) = N" by (simp add: card_word N)
  ultimately have "card (?f ` {..<N}) = card (UNIV :: u64 set)" by (rule trans [OF _ sym])
  then have "?f ` {..<N} = UNIV" by (rule card_subset_eq [OF finite subset_UNIV])
  then have "rng_st r \<in> ?f ` {..<N}" by (rule ssubst) (rule UNIV_I)
  then obtain k where "k \<in> {..<N}" "rng_st r = ?f k" by (rule imageE)
  then have "k < N" "?f k = rng_st r" by (simp_all only: lessThan_iff)
  then show ?thesis by (intro exI [of _ k]) (simp add: rng_eq_iff)
qed

lemma advance_full_period:
  assumes odd: "odd (rng_inc r)"
  shows "(advance ^^ k) r = r \<longleftrightarrow> 2 ^ 64 dvd k"
proof -
  define z where "z = r\<lparr>rng_st := 0\<rparr>"
  then have z: "rng_st z = 0" "rng_inc z = rng_inc r" by simp_all
  obtain j where j: "(advance ^^ j) z = r"
    using advance_pow_reaches [OF odd refl] z_def by blast
  have "(advance ^^ k) r = (advance ^^ j) ((advance ^^ k) z)"
    by (metis j funpow_apply add.commute)
  then have "(advance ^^ k) r = r \<longleftrightarrow> (advance ^^ k) z = z"
    by (metis advance_pow_inj j)
  also have "\<dots> \<longleftrightarrow> rng_st ((advance ^^ k) z) = 0" by (simp add: rng_eq_iff z)
  also have "\<dots> \<longleftrightarrow> 2 ^ 64 dvd k"
    by (rule advance_period_zero) (use odd z in simp_all)
  finally show ?thesis .
qed

lemma advance_reaches_zero:
  assumes odd: "odd (rng_inc r)" and N: "N = 2 ^ 64"
  shows "\<exists>k<N. rng_st ((advance ^^ k) r) = 0"
proof -
  define z where "z = r\<lparr>rng_st := 0\<rparr>"
  then have z: "rng_st z = 0" "rng_inc z = rng_inc r" by simp_all
  obtain j where j: "j < N" "(advance ^^ j) z = r"
    using advance_pow_reaches [OF odd N] z_def by blast
  show ?thesis
  proof (cases "j = 0")
    case True
    with j z show ?thesis by (intro exI [of _ 0]) auto
  next
    case False
    have "(advance ^^ (N - j)) r = (advance ^^ N) z"
      using j by (metis funpow_apply le_add_diff_inverse2 less_imp_le)
    moreover have "rng_st ((advance ^^ N) z) = 0"
      using advance_period_zero [of z N] odd z by (simp only: N) simp
    ultimately show ?thesis using False j by (intro exI [of _ "N - j"]) auto
  qed
qed

section \<open>Ranges and fractions\<close>

text \<open>
  The rejection loop of \<open>gen_range_i32\<close>: a loop with no bound of its own, so it is a partial
  function (\<open>None\<close> would be a loop that never returns) over the 64-bit values it computes with.
\<close>

type_synonym i32 = "32 word"

datatype panic = Panic

definition range_of :: "i32 \<Rightarrow> i32 \<Rightarrow> u64" where
  "range_of low high = word_of_int (sint high - sint low + 1)"

definition range_threshold :: "u64 \<Rightarrow> u64" where
  "range_threshold rg = 0x100000000 - 0x100000000 mod rg"

definition gen_range_draw :: "u64 \<Rightarrow> u64 \<Rightarrow> i32 \<Rightarrow> u32 \<Rightarrow> i32 option" where
  "gen_range_draw rg threshold low x =
     (let v = ucast x :: u64
      in if v < threshold then Some (low + ucast (v mod rg)) else None)"

partial_function (option) gen_range_loop ::
  "u64 \<Rightarrow> u64 \<Rightarrow> i32 \<Rightarrow> DeterministicRng \<Rightarrow> (i32 \<times> DeterministicRng) option" where
  "gen_range_loop rg threshold low r =
     (case next_u32 r of (x, r') \<Rightarrow>
        case gen_range_draw rg threshold low x of
          Some v \<Rightarrow> Some (v, r')
        | None \<Rightarrow> gen_range_loop rg threshold low r')"

definition gen_range_i32 ::
  "DeterministicRng \<Rightarrow> i32 \<Rightarrow> i32 \<Rightarrow> (panic + i32 \<times> DeterministicRng) option" where
  "gen_range_i32 r low high =
     (if sint low \<le> sint high
      then map_option Inr (gen_range_loop (range_of low high) (range_threshold (range_of low high)) low r)
      else Some (Inl Panic))"

lemma unat_range_of:
  assumes "sint low \<le> sint high"
  shows "unat (range_of low high) = nat (sint high - sint low + 1)"
    and "0 < unat (range_of low high)" and "unat (range_of low high) \<le> 2 ^ 32"
proof -
  have b: "- 2147483648 \<le> sint low" "sint high < 2147483648"
    using sint_ge [of low] sint_lt [of high] by simp_all
  then have "0 \<le> sint high - sint low + 1" "sint high - sint low + 1 < 18446744073709551616"
    using assms by linarith+
  then have "uint (range_of low high) = sint high - sint low + 1"
    by (simp only: range_of_def unsigned_of_int) (simp add: take_bit_int_eq_self)
  then show u: "unat (range_of low high) = nat (sint high - sint low + 1)"
    by (simp add: unat_eq_nat_uint)
  from u b assms show "0 < unat (range_of low high)" "unat (range_of low high) \<le> 2 ^ 32"
    by simp_all
qed

lemma unat_range_threshold:
  assumes "0 < unat rg" "unat rg \<le> 2 ^ 32"
  shows "unat (range_threshold rg) = 2 ^ 32 div unat rg * unat rg"
    and "0 < unat (range_threshold rg)"
proof -
  have "unat (0x100000000 :: u64) = 2 ^ 32" by simp
  then have m: "unat (0x100000000 mod rg) = 2 ^ 32 mod unat rg" by (simp add: unat_mod)
  have "2 ^ 32 mod unat rg \<le> (2 :: nat) ^ 32" by simp
  then have "unat (range_threshold rg) = 2 ^ 32 - 2 ^ 32 mod unat rg"
    using m by (simp add: range_threshold_def unat_sub word_le_nat_alt)
  then show t: "unat (range_threshold rg) = 2 ^ 32 div unat rg * unat rg"
    by (simp only: minus_mod_eq_div_mult)
  have "0 < (2 :: nat) ^ 32 div unat rg" using assms by (simp only: div_greater_zero_iff)
  with t assms show "0 < unat (range_threshold rg)" by simp
qed

text \<open>Some iterate of the state is 0, whose output 0 lies below every threshold.\<close>

lemma next_u32_zero: "rng_st r = 0 \<Longrightarrow> fst (next_u32 r) = 0"
  by (simp add: next_u32_def Let_def)

lemma gen_range_loop_returns_aux:
  assumes "0 < threshold"
  shows "rng_st ((advance ^^ k) r) = 0 \<Longrightarrow> \<exists>v r'. gen_range_loop rg threshold low r = Some (v, r')"
proof (induction k arbitrary: r)
  case 0
  then have "fst (next_u32 r) = 0" by (simp add: next_u32_zero)
  then show ?case
    using assms by (subst gen_range_loop.simps) (auto simp: gen_range_draw_def split: prod.split)
next
  case (Suc k)
  then have "rng_st ((advance ^^ k) (snd (next_u32 r))) = 0"
    by (simp add: snd_next_u32 funpow_swap1)
  then have "\<exists>v r'. gen_range_loop rg threshold low (snd (next_u32 r)) = Some (v, r')"
    by (rule Suc.IH)
  then show ?case
    by (subst gen_range_loop.simps) (auto split: prod.split option.split)
qed

lemma gen_range_loop_returns:
  "odd (rng_inc r) \<Longrightarrow> 0 < threshold \<Longrightarrow> \<exists>v r'. gen_range_loop rg threshold low r = Some (v, r')"
  using advance_reaches_zero [OF _ refl] gen_range_loop_returns_aux by blast

lemma gen_range_loop_mod:
  assumes ret: "gen_range_loop rg threshold low r = Some (v, r')"
  shows "\<exists>x. v = low + ucast (x mod rg) \<and> x < threshold"
proof -
  have "case vr of (v, r') \<Rightarrow> \<exists>x. v = low + ucast (x mod rg) \<and> x < threshold"
    if "gen_range_loop rg threshold low r = Some vr" for vr
  proof (rule gen_range_loop.raw_induct [where P = "\<lambda>rg threshold low r (v, r').
      \<exists>x. v = low + ucast (x mod rg) \<and> x < threshold", OF _ that])
  qed (auto simp: gen_range_draw_def Let_def split: prod.splits option.splits if_splits)
  with ret show ?thesis by fastforce
qed

lemma sint_low_plus_ucast:
  fixes low high :: i32 and m :: u64
  assumes "sint low \<le> sint high" "unat m < unat (range_of low high)"
  shows "sint (low + ucast m) = sint low + int (unat m)"
proof -
  have m: "int (unat m) \<le> sint high - sint low"
    using assms unat_range_of(1) [OF assms(1)] by linarith
  have "low + ucast m = word_of_int (sint low + int (unat m))"
    by simp
  then have "sint (low + ucast m) = signed_take_bit 31 (sint low + int (unat m))"
    by (simp only: signed_of_int) simp
  also have "\<dots> = sint low + int (unat m)"
  proof (rule signed_take_bit_int_eq_self)
    show "- (2 ^ 31) \<le> sint low + int (unat m)" "sint low + int (unat m) < 2 ^ 31"
      using m of_nat_0_le_iff [of "unat m"] sint_ge [of low] sint_lt [of high]
      by (simp_all del: of_nat_unat of_nat_0_le_iff)
  qed
  finally show ?thesis .
qed

lemma gen_range_draw_card:
  assumes le: "sint low \<le> sint high" and v: "sint low \<le> sint v" "sint v \<le> sint high"
  shows "card {x. gen_range_draw (range_of low high) (range_threshold (range_of low high)) low x = Some v}
       = 2 ^ 32 div nat (sint high - sint low + 1)"
proof -
  define rg where "rg = range_of low high"
  define n where "n = unat rg"
  define q where "q = 2 ^ 32 div n"
  define t where "t = nat (sint v - sint low)"
  have n: "n = nat (sint high - sint low + 1)" "0 < n" "n \<le> 2 ^ 32"
    using unat_range_of [OF le] by (simp_all add: n_def rg_def)
  have t: "t < n" using v le by (simp add: n(1) t_def nat_less_iff)
  have qn: "q * n \<le> 2 ^ 32" by (simp only: q_def div_times_less_eq_dividend)
  have th: "unat (range_threshold rg) = q * n"
    using unat_range_threshold(1) [of rg] n by (simp add: n_def q_def)
  have draw: "gen_range_draw rg (range_threshold rg) low x = Some v \<longleftrightarrow>
      unat x < q * n \<and> unat x mod n = t" for x :: u32
  proof -
    let ?m = "ucast x mod rg :: u64"
    have x: "unat (ucast x :: u64) = unat x"
      using unsigned_less [of x, where ?'a = nat]
      by (simp add: unsigned_ucast_eq take_bit_nat_eq_self del: unsigned_less)
    then have m: "unat ?m = unat x mod n" by (simp add: unat_mod n_def)
    then have "unat ?m < unat rg" using n(2) by (simp add: n_def)
    then have s: "sint (low + ucast ?m) = sint low + int (unat x mod n)"
      using sint_low_plus_ucast [OF le, of ?m] by (simp only: m rg_def [symmetric])
    have "low + ucast ?m = v \<longleftrightarrow> sint low + int (unat x mod n) = sint v"
      by (metis s signed_word_eqI)
    also have "\<dots> \<longleftrightarrow> unat x mod n = t" using v(1) by (auto simp: t_def)
    finally show ?thesis
      by (simp add: gen_range_draw_def Let_def word_less_nat_alt th x)
  qed
  let ?g = "\<lambda>i. of_nat (i * n + t) :: u32"
  have small: "i * n + t < 2 ^ 32 \<and> i * n + t < q * n" if "i < q" for i
  proof -
    have "i * n + t < Suc i * n" using t by simp
    also have "Suc i * n \<le> q * n" using that by (intro mult_right_mono) simp_all
    finally show ?thesis using qn by simp
  qed
  have u: "unat (?g i) = i * n + t" if "i < q" for i
    using small [OF that] by (simp only: unat_of_nat) simp
  have "{x. unat x < q * n \<and> unat x mod n = t} = ?g ` {..<q}"
  proof (intro equalityI subsetI)
    fix x :: u32 assume "x \<in> {x. unat x < q * n \<and> unat x mod n = t}"
    then have "unat x div n < q" "unat x = unat x div n * n + t"
      using div_mult_mod_eq [of "unat x" n] by (simp_all add: less_mult_imp_div_less)
    then have "?g (unat x div n) = of_nat (unat x)" by simp
    then have "x = ?g (unat x div n)" by simp
    with \<open>unat x div n < q\<close> show "x \<in> ?g ` {..<q}" by blast
  next
    fix x assume "x \<in> ?g ` {..<q}"
    then obtain i where i: "i < q" "x = ?g i" by blast
    then have "unat x = i * n + t" using u by simp
    then show "x \<in> {x. unat x < q * n \<and> unat x mod n = t}"
      using small [OF i(1)] t by simp
  qed
  moreover have "inj_on ?g {..<q}"
  proof (rule inj_onI)
    fix i j assume "i \<in> {..<q}" "j \<in> {..<q}" and eq: "?g i = ?g j"
    then have "i * n + t = unat (?g i)" "unat (?g j) = j * n + t"
      by (metis lessThan_iff u)+
    with eq have "i * n + t = j * n + t" by (metis (no_types))
    then show "i = j" using n(2) by simp
  qed
  ultimately have "card {x :: u32. unat x < q * n \<and> unat x mod n = t} = q"
    by (simp add: card_image)
  then show ?thesis by (simp add: draw q_def n(1) flip: rg_def)
qed

section \<open>SoftF32\<close>

text \<open>
  \<open>SoftF32\<close> stores the IEEE 754 bits. Sign, absolute value and the classification of NaN and
  infinity are bit operations of the source; the arithmetic, the square root and the comparison
  belong to the \<open>softfloat\<close> crate and are the fields of \<open>softfloat_ops\<close>.
\<close>

datatype SoftF32 = SoftF32 (to_bits: u32)

datatype ordering = Less | Equal | Greater

record softfloat_ops =
  f32_add :: "u32 \<Rightarrow> u32 \<Rightarrow> u32"
  f32_sub :: "u32 \<Rightarrow> u32 \<Rightarrow> u32"
  f32_mul :: "u32 \<Rightarrow> u32 \<Rightarrow> u32"
  f32_div :: "u32 \<Rightarrow> u32 \<Rightarrow> u32"
  f32_sqrt :: "u32 \<Rightarrow> u32"
  f32_cmp :: "u32 \<Rightarrow> u32 \<Rightarrow> ordering option"

definition sf_zero :: SoftF32 where "sf_zero = SoftF32 0"
definition sf_one :: SoftF32 where "sf_one = SoftF32 0x3F800000"
definition sf_neg_one :: SoftF32 where "sf_neg_one = SoftF32 0xBF800000"

definition is_nan :: "SoftF32 \<Rightarrow> bool" where
  "is_nan x \<longleftrightarrow> to_bits x AND 0x7F800000 = 0x7F800000 \<and> to_bits x AND 0x007FFFFF \<noteq> 0"

definition is_inf :: "SoftF32 \<Rightarrow> bool" where
  "is_inf x \<longleftrightarrow> to_bits x AND 0x7FFFFFFF = 0x7F800000"

definition sf_abs :: "SoftF32 \<Rightarrow> SoftF32" where
  "sf_abs x = SoftF32 (to_bits x AND 0x7FFFFFFF)"

definition sf_neg :: "SoftF32 \<Rightarrow> SoftF32" where
  "sf_neg x = SoftF32 (to_bits x XOR 0x80000000)"

definition sf_add :: "softfloat_ops \<Rightarrow> SoftF32 \<Rightarrow> SoftF32 \<Rightarrow> SoftF32" where
  "sf_add ops a b = SoftF32 (f32_add ops (to_bits a) (to_bits b))"

definition sf_sub :: "softfloat_ops \<Rightarrow> SoftF32 \<Rightarrow> SoftF32 \<Rightarrow> SoftF32" where
  "sf_sub ops a b = SoftF32 (f32_sub ops (to_bits a) (to_bits b))"

definition sf_mul :: "softfloat_ops \<Rightarrow> SoftF32 \<Rightarrow> SoftF32 \<Rightarrow> SoftF32" where
  "sf_mul ops a b = SoftF32 (f32_mul ops (to_bits a) (to_bits b))"

definition sf_div :: "softfloat_ops \<Rightarrow> SoftF32 \<Rightarrow> SoftF32 \<Rightarrow> SoftF32" where
  "sf_div ops a b = SoftF32 (f32_div ops (to_bits a) (to_bits b))"

definition sf_sqrt :: "softfloat_ops \<Rightarrow> SoftF32 \<Rightarrow> SoftF32" where
  "sf_sqrt ops a = SoftF32 (f32_sqrt ops (to_bits a))"

definition sf_partial_cmp :: "softfloat_ops \<Rightarrow> SoftF32 \<Rightarrow> SoftF32 \<Rightarrow> ordering option" where
  "sf_partial_cmp ops a b = f32_cmp ops (to_bits a) (to_bits b)"

definition sf_lt :: "softfloat_ops \<Rightarrow> SoftF32 \<Rightarrow> SoftF32 \<Rightarrow> bool" where
  "sf_lt ops a b \<longleftrightarrow> sf_partial_cmp ops a b = Some Less"

definition sf_gt :: "softfloat_ops \<Rightarrow> SoftF32 \<Rightarrow> SoftF32 \<Rightarrow> bool" where
  "sf_gt ops a b \<longleftrightarrow> sf_partial_cmp ops a b = Some Greater"

definition sf_le :: "softfloat_ops \<Rightarrow> SoftF32 \<Rightarrow> SoftF32 \<Rightarrow> bool" where
  "sf_le ops a b \<longleftrightarrow> sf_partial_cmp ops a b \<in> {Some Less, Some Equal}"

definition sf_ge :: "softfloat_ops \<Rightarrow> SoftF32 \<Rightarrow> SoftF32 \<Rightarrow> bool" where
  "sf_ge ops a b \<longleftrightarrow> sf_partial_cmp ops a b \<in> {Some Greater, Some Equal}"

definition gen_soft_f32 :: "softfloat_ops \<Rightarrow> DeterministicRng \<Rightarrow> SoftF32 \<times> DeterministicRng" where
  "gen_soft_f32 ops r =
     (case next_u32 r of (x, r') \<Rightarrow>
        let mantissa = drop_bit 9 x;
            bits = mantissa OR 0x3F800000
        in (sf_sub ops (SoftF32 bits) sf_one, r'))"

lemma sf_neg_neg [simp]: "sf_neg (sf_neg x) = x"
  by (cases x) (simp add: sf_neg_def xor.assoc)

lemma sf_class_neg: "is_nan (sf_neg x) = is_nan x" "is_inf (sf_neg x) = is_inf x"
  by (simp_all add: is_nan_def is_inf_def sf_neg_def bit.conj_xor_distrib2)

lemma sf_class_abs: "is_nan (sf_abs x) = is_nan x" "is_inf (sf_abs x) = is_inf x"
  by (simp_all add: is_nan_def is_inf_def sf_abs_def and.assoc)

lemma sf_abs_neg: "sf_abs (sf_neg x) = sf_abs x" "sf_abs (sf_abs x) = sf_abs x"
  by (simp_all add: sf_neg_def sf_abs_def and.assoc bit.conj_xor_distrib2)

lemma not_nan_and_inf: "is_nan x \<Longrightarrow> \<not> is_inf x"
proof
  assume "is_nan x" "is_inf x"
  then have "(to_bits x AND 0x7FFFFFFF) AND 0x007FFFFF \<noteq> 0"
    by (simp add: is_nan_def and.assoc)
  with \<open>is_inf x\<close> show False by (simp add: is_inf_def)
qed

text \<open>
  The dividend of \<open>gen_soft_f32\<close> is a number of \<open>[1, 2)\<close>: its sign is clear and its exponent is
  that of 1, so neither NaN nor an infinity ever reaches the subtraction.
\<close>

lemma gen_soft_f32_operand:
  "(drop_bit 9 x OR 0x3F800000) AND 0xFF800000 = (0x3F800000 :: u32)"
proof -
  have "take_bit 23 (drop_bit 9 x) = drop_bit 9 x"
    by (simp add: take_bit_drop_bit take_bit_word_eq_self)
  moreover have "take_bit 23 (drop_bit 9 x) = drop_bit 9 x AND 0x007FFFFF"
  proof -
    have "mask 23 = (0x007FFFFF :: u32)" by (simp add: mask_eq_exp_minus_1)
    then show ?thesis by (simp only: take_bit_eq_mask)
  qed
  ultimately have "drop_bit 9 x AND 0x007FFFFF = drop_bit 9 x" by metis
  then have "drop_bit 9 x AND 0xFF800000 = (drop_bit 9 x AND 0x007FFFFF) AND 0xFF800000"
    by (simp only:)
  also have "\<dots> = drop_bit 9 x AND (0x007FFFFF AND 0xFF800000)" by (rule and.assoc)
  finally have "drop_bit 9 x AND 0xFF800000 = drop_bit 9 x AND (0x007FFFFF AND 0xFF800000)" .
  then have "drop_bit 9 x AND 0xFF800000 = 0" by simp
  then show ?thesis by (simp add: bit.conj_disj_distrib2)
qed

section \<open>The simulation clock\<close>

record SimulationClock = clk_tick :: u64

definition TICK_INTERVAL_MICROS :: u64 where "TICK_INTERVAL_MICROS = 16667"

definition clock_new :: SimulationClock where "clock_new = \<lparr>clk_tick = 0\<rparr>"

definition clock_advance :: "SimulationClock \<Rightarrow> SimulationClock" where
  "clock_advance c = c\<lparr>clk_tick := saturating_add (clk_tick c) 1\<rparr>"

definition clock_elapsed_micros :: "SimulationClock \<Rightarrow> u64" where
  "clock_elapsed_micros c = clk_tick c * TICK_INTERVAL_MICROS"

definition clock_reset :: "SimulationClock \<Rightarrow> SimulationClock" where
  "clock_reset c = c\<lparr>clk_tick := 0\<rparr>"

definition clock_state_bytes :: "SimulationClock \<Rightarrow> bytes" where
  "clock_state_bytes c = le_bytes 8 (clk_tick c)"

lemma clock_advance_pow:
  "unat (clk_tick ((clock_advance ^^ n) c)) = min (unat (clk_tick c) + n) (2 ^ 64 - 1)"
proof (induction n)
  case 0
  show ?case using unsigned_less [of "clk_tick c", where ?'a = nat] by (simp del: unsigned_less)
qed (simp add: clock_advance_def unat_saturating_add min_def)

lemma clock_bytes_inj: "clock_state_bytes c = clock_state_bytes c' \<longleftrightarrow> clk_tick c = clk_tick c'"
  by (auto simp: clock_state_bytes_def dest: le_bytes_inj)

section \<open>Properties\<close>

text \<open>C16: the rejection loop of \<open>gen_range_i32\<close> always ends (the generator's state runs through every
  64-bit value, so an accepted draw comes), and its result lies in the closed range that was asked
  for.\<close>
theorem gen_range_i32_returns_in_range:
  assumes "odd (rng_inc r)" "sint low \<le> sint high"
  shows "\<exists>v r'. gen_range_i32 r low high = Some (Inr (v, r')) \<and> sint low \<le> sint v \<and> sint v \<le> sint high"
proof -
  let ?rg = "range_of low high"
  have rg: "0 < unat ?rg" "unat ?rg \<le> 2 ^ 32" "unat ?rg = nat (sint high - sint low + 1)"
    using unat_range_of [OF assms(2)] by simp_all
  then have "0 < range_threshold ?rg"
    using unat_range_threshold(2) [OF rg(1,2)] by (simp add: word_less_nat_alt)
  then obtain v r' where loop: "gen_range_loop ?rg (range_threshold ?rg) low r = Some (v, r')"
    using gen_range_loop_returns [OF assms(1)] by blast
  then obtain x where v: "v = low + ucast (x mod ?rg)" using gen_range_loop_mod by blast
  have "unat (x mod ?rg) < unat ?rg" using rg(1) by (simp add: unat_mod)
  then have "sint v = sint low + int (unat (x mod ?rg))" "int (unat (x mod ?rg)) \<le> sint high - sint low"
    using sint_low_plus_ucast [OF assms(2)] rg(3) v by (simp, linarith)
  then have "sint low \<le> sint v \<and> sint v \<le> sint high" by linarith
  with loop assms(2) show ?thesis by (simp add: gen_range_i32_def)
qed

theorem gen_range_i32_returns_in_range_witness:
  "\<exists>v r'. gen_range_i32 (seed_from_u64 42) 1 6 = Some (Inr (v, r')) \<and> 1 \<le> sint v \<and> sint v \<le> 6"
  using gen_range_i32_returns_in_range [of "seed_from_u64 42" 1 6] by simp

text \<open>rejection sampling removes the modulo bias: of the \<open>2^32\<close> values of a draw, each value of the
  requested range is produced by the same number, \<open>2^32 div (high - low + 1)\<close>.\<close>
lemma gen_range_draw_unbiased:
  assumes "sint low \<le> sint v" "sint v \<le> sint high"
  shows "card {x. gen_range_draw (range_of low high) (range_threshold (range_of low high)) low x = Some v}
       = 2 ^ 32 div nat (sint high - sint low + 1)"
  using gen_range_draw_card [OF order_trans [OF assms] assms] .

lemma gen_range_draw_unbiased_example:
  "card {x. gen_range_draw (range_of 1 6) (range_threshold (range_of 1 6)) 1 x = Some 4} = 715827882"
  using gen_range_draw_unbiased [of 1 4 6] by simp

text \<open>C17: a seeded generator has full period: iterating \<open>advance\<close> comes back to the same state
  exactly at the multiples of \<open>2^64\<close> steps.\<close>
theorem seeded_rng_full_period:
  "(advance ^^ k) (seed_from_u64 seed) = seed_from_u64 seed \<longleftrightarrow> 2 ^ 64 dvd k"
  by (rule advance_full_period) simp

text \<open>The 16-byte serialisation of the generator loses nothing: restoring the bytes of a state gives
  that state (hence the same sequence of outputs), and the bytes of a restored state are those it was
  restored from.\<close>
lemma rng_state_bytes_roundtrip:
  "from_state_bytes (state_bytes r) = r \<and> (length bs = 16 \<longrightarrow> state_bytes (from_state_bytes bs) = bs)"
  by (simp add: state_bytes_from_state_bytes)

theorem rng_state_bytes_roundtrip_witness:
  "state_bytes (from_state_bytes [1,2,3,4,5,6,7,8,3,0,0,0,0,0,0,0]) = [1,2,3,4,5,6,7,8,3,0,0,0,0,0,0,0]"
  using rng_state_bytes_roundtrip [of undefined "[1,2,3,4,5,6,7,8,3,0,0,0,0,0,0,0]"] by simp

end
