(* ===== verification/Bridge_Types.thy ===== *)
theory Bridge_Types
  imports Ordered_Map Deterministic
begin

text \<open>
  The data that crosses component boundaries (\<^verbatim>\<open>engine/bridge_types\<close>): entity identifiers and
  mirrored entities, deterministic values, player inputs, replay frames and the messages of the
  shadow VM. A Rust \<open>String\<close> is its UTF-8 byte sequence, here a \<open>string\<close> (a \<open>char\<close> is a byte), so
  lengths count bytes and the order is the byte order of Rust's \<open>Ord\<close>.
\<close>

datatype EntityId = EntityId (eid_raw: u64)

instantiation EntityId :: linorder
begin

definition less_eq_EntityId :: "EntityId \<Rightarrow> EntityId \<Rightarrow> bool" where
  "less_eq_EntityId a b \<longleftrightarrow> eid_raw a \<le> eid_raw b"

definition less_EntityId :: "EntityId \<Rightarrow> EntityId \<Rightarrow> bool" where
  "less_EntityId a b \<longleftrightarrow> eid_raw a < eid_raw b"

instance
  by intro_classes (auto simp: less_eq_EntityId_def less_EntityId_def EntityId.expand)

end

lemma EntityId_less [simp]: "EntityId a < EntityId b \<longleftrightarrow> a < b"
  by (simp add: less_EntityId_def)

lemma EntityId_le [simp]: "EntityId a \<le> EntityId b \<longleftrightarrow> a \<le> b"
  by (simp add: less_eq_EntityId_def)

datatype EntityState = EntityState (es_raw: u32)

definition IDLE :: EntityState where "IDLE = EntityState 0"
definition MOVING :: EntityState where "MOVING = EntityState 1"
definition ATTACKING :: EntityState where "ATTACKING = EntityState 2"
definition DEAD :: EntityState where "DEAD = EntityState 3"

record SoftVec3 =
  v3_x :: SoftF32
  v3_y :: SoftF32
  v3_z :: SoftF32

definition vec3_zero :: SoftVec3 where
  "vec3_zero = \<lparr>v3_x = sf_zero, v3_y = sf_zero, v3_z = sf_zero\<rparr>"

section \<open>Deterministic values\<close>

datatype DeterministicValue =
    DInt u64 \<comment> \<open>the bits of an \<open>i64\<close>\<close>
  | DFloat SoftF32
  | DBool bool
  | DUnit
  | DStr string

datatype BridgeError =
    EntityNotFound EntityId
  | InvalidHandle
  | InvalidParameter string
  | ScriptDisabledError
  | StringTooLong nat nat

definition DETERMINISTIC_STR_MAX_BYTES :: nat where "DETERMINISTIC_STR_MAX_BYTES = 4096"

definition validated_str :: "string \<Rightarrow> BridgeError + DeterministicValue" where
  "validated_str s =
     (if length s > DETERMINISTIC_STR_MAX_BYTES
      then Inl (StringTooLong (length s) DETERMINISTIC_STR_MAX_BYTES)
      else Inr (DStr s))"

section \<open>The mirror of the game state\<close>

record MirroredEntity =
  me_position :: SoftVec3
  me_rotation :: SoftVec3
  me_scale :: SoftVec3
  me_hp :: u64
  me_max_hp :: u64
  me_state :: EntityState
  me_animation_id :: "u32 option"
  me_custom :: "(string, DeterministicValue) btree"

record EcsMirror =
  em_entities :: "(EntityId, MirroredEntity) btree"
  em_local_player_id :: EntityId
  em_frame_number :: u64
  em_delta_time :: SoftF32

record PlayerInput =
  pi_player_id :: EntityId
  pi_input_type :: u64
  pi_data :: DeterministicValue
  pi_tick :: u64

record ReplayFrame =
  rf_tick :: u64
  rf_inputs :: "PlayerInput list"
  rf_rng_state :: bytes
  rf_state_hash :: Blake3Hash

section \<open>Shadow VM messages\<close>

record ShadowFrame =
  sh_tick :: u64
  sh_inputs :: "PlayerInput list"
  sh_rng_state :: bytes
  sh_ecs_mirror_hash :: Blake3Hash

datatype ShadowStatus =
    AllMatch
  | Mismatch u64 Blake3Hash Blake3Hash
  | Error string

record ShadowResponse =
  sr_status :: ShadowStatus
  sr_checked_ticks :: "u64 list"

end
