(* ===== verification/State_Hash.thy ===== *)
theory State_Hash
  imports Bridge_Types
begin

text \<open>
  \<^verbatim>\<open>engine/state_hash\<close>: the byte stream that a game state feeds to blake3. The incremental
  hasher is the bytes it has been given so far; \<open>blake3\<close>, of the crate of that name, is a parameter
  applied to them at the end. The lemmas show when that stream determines the state.
\<close>

type_synonym Hasher = bytes

definition as_bytes :: "string \<Rightarrow> bytes" where
  "as_bytes s = map of_char s"

fun hash_deterministic_value :: "Hasher \<Rightarrow> DeterministicValue \<Rightarrow> Hasher" where
  "hash_deterministic_value h (DInt v) = (h @ [0]) @ le_bytes 8 v"
| "hash_deterministic_value h (DFloat v) = (h @ [1]) @ le_bytes 4 (to_bits v)"
| "hash_deterministic_value h (DBool v) = (h @ [2]) @ [if v then 1 else 0]"
| "hash_deterministic_value h DUnit = h @ [3]"
| "hash_deterministic_value h (DStr v) =
     ((h @ [4]) @ le_bytes 4 (of_nat (length v) :: u32)) @ as_bytes v"

definition hash_vec3 :: "Hasher \<Rightarrow> SoftVec3 \<Rightarrow> Hasher" where
  "hash_vec3 h v = h @ le_bytes 4 (to_bits (v3_x v)) @ le_bytes 4 (to_bits (v3_y v))
     @ le_bytes 4 (to_bits (v3_z v))"

definition hash_entity :: "Hasher \<Rightarrow> EntityId \<Rightarrow> MirroredEntity \<Rightarrow> Hasher" where
  "hash_entity h eid e =
     (let h = h @ le_bytes 8 (eid_raw eid);
          h = hash_vec3 h (me_position e);
          h = hash_vec3 h (me_rotation e);
          h = hash_vec3 h (me_scale e);
          h = h @ le_bytes 8 (me_hp e);
          h = h @ le_bytes 8 (me_max_hp e);
          h = h @ le_bytes 4 (es_raw (me_state e));
          h = (case me_animation_id e of
                 None \<Rightarrow> h @ [0]
               | Some aid \<Rightarrow> (h @ [1]) @ le_bytes 4 aid)
      in foldl (\<lambda>h (key, value). hash_deterministic_value (h @ as_bytes key) value) h (me_custom e))"

definition state_stream :: "(EntityId, MirroredEntity) btree \<Rightarrow> bytes \<Rightarrow> u64 \<Rightarrow> bytes" where
  "state_stream entities rng_state_bytes tick =
     foldl (\<lambda>h (eid, e). hash_entity h eid e) (le_bytes 8 tick @ rng_state_bytes) entities"

definition compute_state_hash ::
  "(bytes \<Rightarrow> Blake3Hash) \<Rightarrow> (EntityId, MirroredEntity) btree \<Rightarrow> bytes \<Rightarrow> u64 \<Rightarrow> Blake3Hash" where
  "compute_state_hash blake3 entities rng_state_bytes tick =
     blake3 (state_stream entities rng_state_bytes tick)"

section \<open>What each encoder appends\<close>

definition value_bytes :: "DeterministicValue \<Rightarrow> bytes" where
  "value_bytes v = hash_deterministic_value [] v"

definition vec3_bytes :: "SoftVec3 \<Rightarrow> bytes" where
  "vec3_bytes v = hash_vec3 [] v"

definition custom_bytes :: "(string, DeterministicValue) btree \<Rightarrow> bytes" where
  "custom_bytes c = concat (map (\<lambda>(k, v). as_bytes k @ value_bytes v) c)"

definition head_bytes :: "EntityId \<Rightarrow> MirroredEntity \<Rightarrow> bytes" where
  "head_bytes eid e =
     le_bytes 8 (eid_raw eid) @ vec3_bytes (me_position e) @ vec3_bytes (me_rotation e)
     @ vec3_bytes (me_scale e) @ le_bytes 8 (me_hp e) @ le_bytes 8 (me_max_hp e)
     @ le_bytes 4 (es_raw (me_state e))"

definition anim_bytes :: "u32 option \<Rightarrow> bytes" where
  "anim_bytes a = (case a of None \<Rightarrow> [0] | Some aid \<Rightarrow> 1 # le_bytes 4 aid)"

lemma hash_value_append: "hash_deterministic_value h v = h @ value_bytes v"
  by (cases v) (simp_all add: value_bytes_def)

lemma hash_vec3_append: "hash_vec3 h v = h @ vec3_bytes v"
  by (simp add: vec3_bytes_def hash_vec3_def)

lemma foldl_append_concat: "(\<And>h x. f h x = h @ g x) \<Longrightarrow> foldl f h xs = h @ concat (map g xs)"
  by (induction xs arbitrary: h) auto

lemma hash_entity_append:
  "hash_entity h eid e = h @ head_bytes eid e @ anim_bytes (me_animation_id e) @ custom_bytes (me_custom e)"
proof -
  have "foldl (\<lambda>h (key, value). hash_deterministic_value (h @ as_bytes key) value) h' c = h' @ custom_bytes c"
    for h' c
    unfolding custom_bytes_def
    by (rule foldl_append_concat) (auto simp: hash_value_append)
  then show ?thesis
    by (simp add: hash_entity_def Let_def hash_vec3_append head_bytes_def anim_bytes_def
        split: option.split)
qed

lemma state_stream_eq:
  "state_stream entities rng tick =
     le_bytes 8 tick @ rng @ concat (map (\<lambda>(eid, e). head_bytes eid e
       @ anim_bytes (me_animation_id e) @ custom_bytes (me_custom e)) entities)"
  unfolding state_stream_def
  by (subst foldl_append_concat) (auto simp: hash_entity_append)

section \<open>The encoders are self-delimiting\<close>

text \<open>
  \<open>encodes f P\<close>: two values with property \<open>P\<close> whose encodings start two equal streams are equal, and
  so are the rests of the streams.
\<close>

definition value_ok :: "DeterministicValue \<Rightarrow> bool" where
  "value_ok v \<longleftrightarrow> (case v of DStr s \<Rightarrow> length s < 2 ^ 32 | _ \<Rightarrow> True)"

lemma validated_str_ok: "validated_str s = Inr v \<Longrightarrow> value_ok v"
  by (auto simp: validated_str_def value_ok_def DETERMINISTIC_STR_MAX_BYTES_def split: if_splits)

lemma byte_of_char_inj: "(of_char c :: u8) = of_char d \<Longrightarrow> c = d"
proof -
  assume "(of_char c :: u8) = of_char d"
  then have "(of_nat (of_char c) :: u8) = of_nat (of_char d)" by (simp only: of_nat_of_char)
  then have "(of_char c mod 256 :: nat) = of_char d mod 256"
    by (simp add: word_of_nat_eq_iff take_bit_eq_mod del: of_char_mod_256)
  then show "c = d" by (simp only: of_char_mod_256 of_char_eq_iff)
qed

lemma as_bytes_inj: "as_bytes s = as_bytes t \<longleftrightarrow> s = t"
  unfolding as_bytes_def by (rule inj_map_eq_map [OF injI]) (rule byte_of_char_inj)

lemma le_bytes_append_eq:
  "LENGTH('a) \<le> 8 * n \<Longrightarrow> le_bytes n v @ xs = le_bytes n w @ ys \<longleftrightarrow> v = w \<and> xs = ys"
  for v w :: "'a::len word"
  by (auto simp: append_inj_len dest: le_bytes_inj)

lemma value_bytes_prefix:
  assumes "value_ok v" "value_ok w" "value_bytes v @ xs = value_bytes w @ ys"
  shows "v = w \<and> xs = ys"
proof (cases v; cases w)
  fix s t assume v: "v = DStr s" "w = DStr t"
  then have "of_nat (length s) = (of_nat (length t) :: u32)"
    "as_bytes s @ xs = as_bytes t @ ys"
    using assms(3) by (auto simp: value_bytes_def le_bytes_append_eq)
  moreover from this(1) have "length s = length t"
    using assms(1,2) v by (simp add: value_ok_def word_of_nat_eq_iff take_bit_nat_eq_self)
  ultimately show ?thesis using v by (simp add: append_inj_len as_bytes_def flip: as_bytes_inj)
qed (use assms(3) in \<open>auto simp: value_bytes_def le_bytes_append_eq SoftF32.expand split: if_splits\<close>)

lemma custom_bytes_prefix:
  assumes "map fst c = map fst d" "\<forall>p \<in> set c \<union> set d. value_ok (snd p)"
    and "custom_bytes c @ xs = custom_bytes d @ ys"
  shows "c = d \<and> xs = ys"
  using assms
proof (induction c arbitrary: d)
  case (Cons p c)
  then obtain q d' where d: "d = q # d'" "fst q = fst p" "map fst c = map fst d'"
    by (cases d) auto
  have "value_bytes (snd p) @ custom_bytes c @ xs = value_bytes (snd q) @ custom_bytes d' @ ys"
    using Cons.prems(3) d by (simp add: custom_bytes_def case_prod_unfold append_inj_len)
  then have "snd p = snd q \<and> custom_bytes c @ xs = custom_bytes d' @ ys"
    using Cons.prems(2) d by (intro value_bytes_prefix) auto
  then show ?case
    using Cons.IH [OF d(3)] Cons.prems(2) d by (auto simp: prod_eq_iff)
qed simp

lemma vec3_bytes_prefix: "vec3_bytes v @ xs = vec3_bytes w @ ys \<longleftrightarrow> v = w \<and> xs = ys"
  by (cases v; cases w) (auto simp: vec3_bytes_def hash_vec3_def le_bytes_append_eq SoftF32.expand)

lemma anim_bytes_prefix: "anim_bytes a @ xs = anim_bytes b @ ys \<longleftrightarrow> a = b \<and> xs = ys"
  by (auto simp: anim_bytes_def le_bytes_append_eq split: option.splits)

lemma head_bytes_prefix:
  "head_bytes i e @ xs = head_bytes j f @ ys \<longleftrightarrow>
     i = j \<and> me_position e = me_position f \<and> me_rotation e = me_rotation f \<and> me_scale e = me_scale f
     \<and> me_hp e = me_hp f \<and> me_max_hp e = me_max_hp f \<and> me_state e = me_state f \<and> xs = ys"
  by (auto simp: head_bytes_def le_bytes_append_eq vec3_bytes_prefix EntityId.expand EntityState.expand)

lemma head_bytes_nonempty [simp]: "head_bytes i e \<noteq> []"
  by (simp add: head_bytes_def)

text \<open>
  A schema gives the custom field names of each entity; \<open>follows\<close> says that a list of entities has
  exactly these fields, with strings short enough for their 32-bit length.
\<close>

definition follows :: "(EntityId \<Rightarrow> string list) \<Rightarrow> (EntityId, MirroredEntity) btree \<Rightarrow> bool" where
  "follows keys es \<longleftrightarrow> (\<forall>(eid, e) \<in> set es. map fst (me_custom e) = keys eid
     \<and> (\<forall>p \<in> set (me_custom e). value_ok (snd p)))"

lemma follows_Cons:
  "follows keys (p # es) \<longleftrightarrow> map fst (me_custom (snd p)) = keys (fst p)
     \<and> (\<forall>q \<in> set (me_custom (snd p)). value_ok (snd q)) \<and> follows keys es"
  by (auto simp: follows_def split_beta)

definition entities_bytes :: "(EntityId, MirroredEntity) btree \<Rightarrow> bytes" where
  "entities_bytes es = concat (map (\<lambda>(eid, e). head_bytes eid e
     @ anim_bytes (me_animation_id e) @ custom_bytes (me_custom e)) es)"

lemma entities_bytes_inj:
  assumes "follows keys es" "follows keys fs" "entities_bytes es = entities_bytes fs"
  shows "es = fs"
  using assms
proof (induction es arbitrary: fs)
  case Nil
  then show ?case by (cases fs) (auto simp: entities_bytes_def split_beta)
next
  case (Cons p es)
  obtain i e where p: "p = (i, e)" by force
  from Cons.prems(3) obtain j f fs' where fs: "fs = (j, f) # fs'"
    by (cases fs) (auto simp: entities_bytes_def p)
  have eq: "head_bytes i e @ anim_bytes (me_animation_id e) @ custom_bytes (me_custom e) @ entities_bytes es
      = head_bytes j f @ anim_bytes (me_animation_id f) @ custom_bytes (me_custom f) @ entities_bytes fs'"
    using Cons.prems(3) by (simp add: entities_bytes_def p fs)
  have fields: "i = j" "me_animation_id e = me_animation_id f"
    "custom_bytes (me_custom e) @ entities_bytes es = custom_bytes (me_custom f) @ entities_bytes fs'"
    using head_bytes_prefix [THEN iffD1, OF eq] by (simp_all add: anim_bytes_prefix)
  have "me_custom e = me_custom f \<and> entities_bytes es = entities_bytes fs'"
    using Cons.prems(1,2) fields by (intro custom_bytes_prefix) (auto simp: follows_Cons p fs)
  then have "e = f" "entities_bytes es = entities_bytes fs'"
    using head_bytes_prefix [THEN iffD1, OF eq] fields by (auto intro: MirroredEntity.equality)
  with fields Cons.IH [of fs'] Cons.prems(1,2) show ?case by (simp add: follows_Cons p fs)
qed

lemma state_stream_inj:
  assumes "follows keys es" "follows keys fs" "length r = 16" "length s = 16"
    and "state_stream es r t = state_stream fs s u"
  shows "es = fs \<and> r = s \<and> t = u"
  using assms entities_bytes_inj [of keys es fs]
  by (simp add: state_stream_eq entities_bytes_def append_inj_len le_bytes_append_eq)

text \<open>
  Without a schema the stream is ambiguous: a custom field's name is written without its length.
  A unit field is the name followed by the tag 3, so two unit fields named \<open>p\<close> and \<open>q\<close> leave the same bytes
  as one unit field whose name is \<open>p\<close>, the byte 3, \<open>q\<close>.
\<close>

definition blank_entity :: "(string, DeterministicValue) btree \<Rightarrow> MirroredEntity" where
  "blank_entity c =
     \<lparr>me_position = vec3_zero, me_rotation = vec3_zero, me_scale = vec3_zero, me_hp = 100,
      me_max_hp = 100, me_state = IDLE, me_animation_id = None, me_custom = c\<rparr>"

lemma value_bytes_unit: "value_bytes DUnit = [3]"
  by (simp add: value_bytes_def)

lemma custom_bytes_merge:
  "custom_bytes [(k @ CHR 0x03 # l, DUnit)] = custom_bytes [(k, DUnit), (l, DUnit)]"
  by (simp add: custom_bytes_def value_bytes_unit as_bytes_def)

section \<open>Properties\<close>

text \<open>C7: when two states follow the same schema (each entity has the custom fields its id prescribes,
  with strings shorter than 2^32 bytes), equal byte streams mean equal states: the same entities with
  the same fields, the same RNG state and the same tick. So the state hash can only agree on two such
  states if they are equal or blake3 collides.\<close>
theorem state_hash_determines_state:
  assumes "follows keys es" "follows keys fs" "length r = 16" "length s = 16"
    and "inj_on hash {state_stream es r t, state_stream fs s u}"
    and "compute_state_hash hash es r t = compute_state_hash hash fs s u"
  shows "es = fs \<and> r = s \<and> t = u"
proof -
  have "state_stream es r t = state_stream fs s u"
    by (rule inj_onD [OF assms(5) assms(6) [unfolded compute_state_hash_def]]) simp_all
  with assms(1-4) show ?thesis by (rule state_stream_inj)
qed

theorem state_hash_determines_state_witness:
  "compute_state_hash (\<lambda>x. x) [(EntityId 1, blank_entity [])] (replicate 16 0) 7
     \<noteq> compute_state_hash (\<lambda>x. x) [(EntityId 2, blank_entity [])] (replicate 16 0) 7"
  using state_hash_determines_state [where keys = "\<lambda>_. []" and es = "[(EntityId 1, blank_entity [])]"
      and fs = "[(EntityId 2, blank_entity [])]" and r = "replicate 16 0" and s = "replicate 16 0"
      and t = 7 and u = 7 and hash = "\<lambda>x. x"]
  by (auto simp: follows_def blank_entity_def)

text \<open>custom field names are hashed without their length, so the stream is not injective in
  general: for every entity, tick and RNG state, two different (well-formed) sets of custom fields
  give the same state hash, whatever the hash function.\<close>
lemma state_hash_custom_key_collision:
  "\<exists>c d. bm_wf c \<and> bm_wf d \<and> c \<noteq> d \<and>
     compute_state_hash hash [(eid, blank_entity c)] rng tick
       = compute_state_hash hash [(eid, blank_entity d)] rng tick"
proof (intro exI conjI)
  let ?c = "[(''a'' @ CHR 0x03 # ''b'', DUnit)]" and ?d = "[(''a'', DUnit), (''b'', DUnit)]"
  show "bm_wf ?c" "bm_wf ?d" "?c \<noteq> ?d" by (simp_all add: bm_wf_def)
  show "compute_state_hash hash [(eid, blank_entity ?c)] rng tick
      = compute_state_hash hash [(eid, blank_entity ?d)] rng tick"
    using custom_bytes_merge [of "''a''" "''b''"]
    by (simp add: compute_state_hash_def state_stream_eq blank_entity_def head_bytes_def)
qed

end
