(* ===== verification/Fifo_Window.thy ===== *)
theory Fifo_Window
  imports Prelude
begin

text \<open>
  The interface of the bounded queues of the program (snapshot ring buffer, shadow trace window,
  operation history): a new element goes to the back, and when the queue is full the oldest element
  leaves first. The clients' facts follow from these laws; the providers interpret the locale in
  their own theories.
\<close>

locale bounded_window =
  fixes items :: "'q \<Rightarrow> 'a list"
    and cap :: "'q \<Rightarrow> nat"
    and put :: "'a \<Rightarrow> 'q \<Rightarrow> 'q"
    and ok :: "'q \<Rightarrow> bool"
  assumes ok_bounds: "ok q \<Longrightarrow> 0 < cap q \<and> length (items q) \<le> cap q"
    and items_put: "ok q \<Longrightarrow>
      items (put x q) = (if length (items q) < cap q then items q else tl (items q)) @ [x]"
    and cap_put: "cap (put x q) = cap q"
    and ok_put: "ok q \<Longrightarrow> ok (put x q)"
begin

lemma length_put: "ok q \<Longrightarrow> length (items (put x q)) = min (Suc (length (items q))) (cap q)"
  using ok_bounds [of q] by (auto simp: items_put)

lemma items_put_last_n: "ok q \<Longrightarrow> items (put x q) = last_n (cap q) (items q @ [x])"
  using ok_bounds [of q] by (auto simp: items_put last_n_def drop_Suc Suc_diff_le)

lemma ok_fold: "ok q \<Longrightarrow> ok (fold put xs q)"
  by (induction xs arbitrary: q) (auto simp: ok_put)

lemma cap_fold: "cap (fold put xs q) = cap q"
  by (induction xs arbitrary: q) (auto simp: cap_put)

lemma items_fold: "ok q \<Longrightarrow> items (fold put xs q) = last_n (cap q) (items q @ xs)"
proof (induction xs arbitrary: q)
  case Nil
  then show ?case using ok_bounds [of q] by (simp add: last_n_all)
next
  case (Cons x xs)
  have "items (fold put (x # xs) q) = last_n (cap q) (last_n (cap q) (items q @ [x]) @ xs)"
    using Cons by (simp add: ok_put cap_put items_put_last_n)
  also have "\<dots> = last_n (cap q) (items q @ x # xs)"
    by (simp add: last_n_last_n_append)
  finally show ?case .
qed

lemma items_fold_within:
  "ok q \<Longrightarrow> length (items q) + length xs \<le> cap q \<Longrightarrow> items (fold put xs q) = items q @ xs"
  by (simp add: items_fold last_n_all)

end

end
