(* ===== verification/Netcode_Rollback.thy ===== *)
theory Netcode_Rollback
  imports State_Hash Fifo_Window
begin

text \<open>
  Client-side prediction and rollback (\<^verbatim>\<open>engine/netcode\<close>: \<open>snapshot.rs\<close>, \<open>prediction.rs\<close>,
  \<open>rollback.rs\<close>). A method that takes \<open>&mut\<close> arguments returns them updated; the injected
  \<open>SimulationStep\<close> is a function from the state and the inputs of a tick to the next state.
\<close>

datatype NetcodeError =
    SnapshotNotFound u64
  | InputBufferGap u64 u64
  | ResyncHashMismatch
  | RollbackDepthExceeded u64

section \<open>Buffers\<close>

record 'a SnapshotBuffer =
  sb_buffer :: "(u64 \<times> 'a) list"
  sb_capacity :: nat

definition SNAPSHOT_CAPACITY :: nat where "SNAPSHOT_CAPACITY = 10"

definition snapshot_new :: "'a SnapshotBuffer" where
  "snapshot_new = \<lparr>sb_buffer = [], sb_capacity = SNAPSHOT_CAPACITY\<rparr>"

definition snapshot_push :: "u64 \<Rightarrow> 'a \<Rightarrow> 'a SnapshotBuffer \<Rightarrow> 'a SnapshotBuffer" where
  "snapshot_push tick s b =
     (let b = (if length (sb_buffer b) = sb_capacity b then b\<lparr>sb_buffer := tl (sb_buffer b)\<rparr> else b)
      in b\<lparr>sb_buffer := sb_buffer b @ [(tick, s)]\<rparr>)"

definition snapshot_get :: "u64 \<Rightarrow> 'a SnapshotBuffer \<Rightarrow> 'a option" where
  "snapshot_get tick b = map_option snd (List.find (\<lambda>(t, _). t = tick) (sb_buffer b))"

definition snapshot_clear :: "'a SnapshotBuffer \<Rightarrow> 'a SnapshotBuffer" where
  "snapshot_clear b = b\<lparr>sb_buffer := []\<rparr>"

definition snapshot_ok :: "'a SnapshotBuffer \<Rightarrow> bool" where
  "snapshot_ok b \<longleftrightarrow> 0 < sb_capacity b \<and> length (sb_buffer b) \<le> sb_capacity b"

interpretation snap: bounded_window sb_buffer sb_capacity "\<lambda>(t, s). snapshot_push t s" snapshot_ok
  by unfold_locales (auto simp: snapshot_ok_def snapshot_push_def Let_def)

lemma snapshot_ok_new [simp]: "snapshot_ok snapshot_new"
  by (simp add: snapshot_ok_def snapshot_new_def SNAPSHOT_CAPACITY_def)

lemma snapshot_ok_clear: "snapshot_ok b \<Longrightarrow> snapshot_ok (snapshot_clear b)"
  by (simp add: snapshot_ok_def snapshot_clear_def)

lemma snapshot_ok_push: "snapshot_ok b \<Longrightarrow> snapshot_ok (snapshot_push t s b)"
  using snap.ok_put [of b "(t, s)"] by simp

record GameSnapshot =
  gs_tick :: u64
  gs_ecs_mirror :: EcsMirror
  gs_rng_state :: bytes

record InputBuffer =
  ib_inner :: "(u64, PlayerInput list) btree"
  ib_window :: u64

definition input_new :: InputBuffer where
  "input_new = \<lparr>ib_inner = [], ib_window = of_nat SNAPSHOT_CAPACITY\<rparr>"

definition input_insert :: "u64 \<Rightarrow> PlayerInput list \<Rightarrow> InputBuffer \<Rightarrow> InputBuffer" where
  "input_insert tick inputs b = b\<lparr>ib_inner := bm_insert tick inputs (ib_inner b)\<rparr>"

definition input_get :: "u64 \<Rightarrow> InputBuffer \<Rightarrow> PlayerInput list option" where
  "input_get tick b = bm_get (ib_inner b) tick"

definition input_retain_recent :: "u64 \<Rightarrow> InputBuffer \<Rightarrow> InputBuffer" where
  "input_retain_recent current_tick b =
     (if current_tick \<ge> ib_window b
      then let cutoff = current_tick - ib_window b
           in b\<lparr>ib_inner := bm_retain (\<lambda>t _. t > cutoff) (ib_inner b)\<rparr>
      else b)"

section \<open>Prediction\<close>

definition MAX_ROLLBACK_DEPTH :: u64 where "MAX_ROLLBACK_DEPTH = 8"

record PredictionManager =
  pm_pending_rollback :: "u64 option"
  pm_last_confirmed_tick :: u64

definition prediction_new :: PredictionManager where
  "prediction_new = \<lparr>pm_pending_rollback = None, pm_last_confirmed_tick = 0\<rparr>"

definition apply_input ::
  "PlayerInput list \<Rightarrow> u64 \<Rightarrow> GameSnapshot SnapshotBuffer \<Rightarrow> InputBuffer \<Rightarrow> GameSnapshot
     \<Rightarrow> GameSnapshot SnapshotBuffer \<times> InputBuffer" where
  "apply_input input tick snapshot_buffer input_buffer current_snapshot =
     (let input_buffer = input_insert tick input input_buffer;
          snapshot_buffer = snapshot_push tick current_snapshot snapshot_buffer;
          input_buffer = input_retain_recent tick input_buffer
      in (snapshot_buffer, input_buffer))"

definition receive_server_state ::
  "PredictionManager \<Rightarrow> u64 \<Rightarrow> Blake3Hash \<Rightarrow> Blake3Hash \<Rightarrow> u64
     \<Rightarrow> NetcodeError + PredictionManager" where
  "receive_server_state pm server_tick server_hash local_hash current_tick =
     (if current_tick > server_tick \<and> current_tick - server_tick > MAX_ROLLBACK_DEPTH
      then Inl (RollbackDepthExceeded (current_tick - server_tick))
      else if server_hash \<noteq> local_hash
      then Inr (pm\<lparr>pm_pending_rollback := Some server_tick\<rparr>)
      else Inr (pm\<lparr>pm_last_confirmed_tick := server_tick, pm_pending_rollback := None\<rparr>))"

definition clear_rollback :: "PredictionManager \<Rightarrow> PredictionManager" where
  "clear_rollback pm = pm\<lparr>pm_pending_rollback := None\<rparr>"

section \<open>Rollback\<close>

type_synonym sim_step = "GameSnapshot \<Rightarrow> PlayerInput list \<Rightarrow> GameSnapshot"

record RollbackManager = rm_full_resync_requested :: bool

definition request_full_resync :: "RollbackManager \<Rightarrow> RollbackManager" where
  "request_full_resync rm = rm\<lparr>rm_full_resync_requested := True\<rparr>"

definition clear_full_resync :: "RollbackManager \<Rightarrow> RollbackManager" where
  "clear_full_resync rm = rm\<lparr>rm_full_resync_requested := False\<rparr>"

definition ticks_incl :: "u64 \<Rightarrow> u64 \<Rightarrow> u64 list" where
  "ticks_incl a b = map of_nat [unat a..<Suc (unat b)]"

definition resim_tick :: "sim_step \<Rightarrow> InputBuffer \<Rightarrow> GameSnapshot \<Rightarrow> u64 \<Rightarrow> GameSnapshot" where
  "resim_tick step ib state tick =
     (step state (case input_get tick ib of None \<Rightarrow> [] | Some v \<Rightarrow> v))\<lparr>gs_tick := tick\<rparr>"

fun resimulate ::
  "sim_step \<Rightarrow> InputBuffer \<Rightarrow> u64 list \<Rightarrow> GameSnapshot \<Rightarrow> GameSnapshot SnapshotBuffer
     \<Rightarrow> GameSnapshot \<times> GameSnapshot SnapshotBuffer" where
  "resimulate step ib [] state buf = (state, buf)"
| "resimulate step ib (tick # ticks) state buf =
     (let state = resim_tick step ib state tick
      in resimulate step ib ticks state (snapshot_push tick state buf))"

definition rollback_to ::
  "sim_step \<Rightarrow> u64 \<Rightarrow> u64 \<Rightarrow> GameSnapshot SnapshotBuffer \<Rightarrow> InputBuffer
     \<Rightarrow> (NetcodeError + GameSnapshot) \<times> GameSnapshot SnapshotBuffer" where
  "rollback_to step rollback_tick current_tick buf ib =
     (if current_tick > rollback_tick \<and> current_tick - rollback_tick > MAX_ROLLBACK_DEPTH
      then (Inl (RollbackDepthExceeded (current_tick - rollback_tick)), buf)
      else case snapshot_get rollback_tick buf of
        None \<Rightarrow> (Inl (SnapshotNotFound rollback_tick), buf)
      | Some base \<Rightarrow>
          (case resimulate step ib (ticks_incl (rollback_tick + 1) current_tick) base buf of
             (state, buf') \<Rightarrow> (Inr state, buf')))"

record NetcodeState =
  ns_snapshot_buffer :: "GameSnapshot SnapshotBuffer"
  ns_input_buffer :: InputBuffer
  ns_prediction :: PredictionManager
  ns_rollback :: RollbackManager

definition netcode_new :: NetcodeState where
  "netcode_new = \<lparr>ns_snapshot_buffer = snapshot_new, ns_input_buffer = input_new,
     ns_prediction = prediction_new, ns_rollback = \<lparr>rm_full_resync_requested = False\<rparr>\<rparr>"

definition snapshot_hash :: "(bytes \<Rightarrow> Blake3Hash) \<Rightarrow> GameSnapshot \<Rightarrow> Blake3Hash" where
  "snapshot_hash blake3 s =
     compute_state_hash blake3 (em_entities (gs_ecs_mirror s)) (gs_rng_state s) (gs_tick s)"

definition handle_server_state ::
  "(bytes \<Rightarrow> Blake3Hash) \<Rightarrow> sim_step \<Rightarrow> NetcodeState \<Rightarrow> u64 \<Rightarrow> Blake3Hash \<Rightarrow> u64
     \<Rightarrow> (NetcodeError + GameSnapshot option) \<times> NetcodeState" where
  "handle_server_state blake3 step ns server_tick server_hash current_tick =
     (case snapshot_get server_tick (ns_snapshot_buffer ns) of
        None \<Rightarrow> (Inl (SnapshotNotFound server_tick), ns)
      | Some local_snapshot \<Rightarrow>
          let local_hash = snapshot_hash blake3 local_snapshot
          in case receive_server_state (ns_prediction ns) server_tick server_hash local_hash current_tick of
               Inl e \<Rightarrow> (Inl e, ns)
             | Inr pm \<Rightarrow>
                 (let ns = ns\<lparr>ns_prediction := pm\<rparr>
                  in case pm_pending_rollback pm of
                       None \<Rightarrow> (Inr None, ns)
                     | Some rollback_tick \<Rightarrow>
                         (case rollback_to step rollback_tick current_tick
                                 (ns_snapshot_buffer ns) (ns_input_buffer ns) of
                            (Inl e, buf) \<Rightarrow> (Inl e, ns\<lparr>ns_snapshot_buffer := buf\<rparr>)
                          | (Inr result, buf) \<Rightarrow>
                              (Inr (Some result),
                               ns\<lparr>ns_snapshot_buffer := buf, ns_prediction := clear_rollback pm\<rparr>))))"

section \<open>Lemmas\<close>

lemma snapshot_get_push:
  "length (sb_buffer b) < sb_capacity b \<Longrightarrow>
     snapshot_get t (snapshot_push u s b) =
       (case snapshot_get t b of Some v \<Rightarrow> Some v | None \<Rightarrow> if t = u then Some s else None)"
  by (auto simp: snapshot_get_def snapshot_push_def Let_def find_append split: option.splits)

lemma resimulate_state [simp]: "fst (resimulate step ib ts st buf) = foldl (resim_tick step ib) st ts"
  by (induction ts arbitrary: st buf) (simp_all add: Let_def)

lemma resimulate_buffer:
  "\<exists>ys. length ys = length ts \<and> map fst ys = ts \<and>
        snd (resimulate step ib ts st buf) = fold (\<lambda>(t, s). snapshot_push t s) ys buf"
proof (induction ts arbitrary: st buf)
  case (Cons t ts)
  let ?st = "resim_tick step ib st t"
  from Cons [of ?st "snapshot_push t ?st buf"] obtain ys
    where "length ys = length ts" "map fst ys = ts"
      "snd (resimulate step ib ts ?st (snapshot_push t ?st buf))
        = fold (\<lambda>(t, s). snapshot_push t s) ys (snapshot_push t ?st buf)" by auto
  then show ?case by (intro exI [of _ "(t, ?st) # ys"]) (simp add: Let_def)
qed simp

lemma snapshot_ok_resimulate:
  "snapshot_ok buf \<Longrightarrow> snapshot_ok (snd (resimulate step ib ts st buf))"
  by (metis resimulate_buffer snap.ok_fold)

lemma rollback_to_eq:
  "rollback_to step rt ct buf ib =
     (if ct > rt \<and> ct - rt > MAX_ROLLBACK_DEPTH then (Inl (RollbackDepthExceeded (ct - rt)), buf)
      else case snapshot_get rt buf of
        None \<Rightarrow> (Inl (SnapshotNotFound rt), buf)
      | Some base \<Rightarrow>
          (Inr (foldl (resim_tick step ib) base (ticks_incl (rt + 1) ct)),
           snd (resimulate step ib (ticks_incl (rt + 1) ct) base buf)))"
proof (cases "snapshot_get rt buf")
  case (Some base)
  show ?thesis
    by (cases "resimulate step ib (ticks_incl (rt + 1) ct) base buf")
      (use resimulate_state [of step ib "ticks_incl (rt + 1) ct" base buf] Some
        in \<open>simp add: rollback_to_def\<close>)
qed (simp add: rollback_to_def)

lemma snapshot_ok_rollback_to:
  "snapshot_ok buf \<Longrightarrow> snapshot_ok (snd (rollback_to step rt ct buf ib))"
  by (simp add: rollback_to_eq snapshot_ok_resimulate split: option.split)

lemma ticks_incl_after:
  assumes "r \<le> c" "c \<noteq> - 1"
  shows "ticks_incl (r + 1) c = map of_nat [Suc (unat r)..<Suc (unat c)]"
proof -
  have "r \<noteq> - 1" using assms by (metis word_n1_ge order_antisym)
  then show ?thesis by (simp add: ticks_incl_def unat_plus_1)
qed

lemma foldl_history:
  assumes "\<And>i. i < n \<Longrightarrow> h (Suc (r + i)) = f (h (r + i)) (of_nat (Suc (r + i)))"
  shows "foldl f (h r) (map of_nat [Suc r..<Suc (r + n)]) = h (r + n)"
  using assms by (induction n) (simp_all del: upt_Suc add: upt_Suc_append)

text \<open>C4: Rolling back over a window in which every buffered snapshot is the successor of the one
  before it on the recorded inputs ends in exactly the snapshot already buffered for the current
  tick: re-simulation is deterministic replay of the local history. (So a rollback triggered by a
  server hash that differs from the local one reproduces the local state.)\<close>

theorem rollback_reproduces_history:
  assumes window: "rt \<le> ct" "ct \<noteq> - 1" "ct - rt \<le> MAX_ROLLBACK_DEPTH"
    and hist: "\<And>i. i \<le> unat (ct - rt) \<Longrightarrow>
      snapshot_get (rt + of_nat i) buf = Some (h i)"
    and steps: "\<And>i. i < unat (ct - rt) \<Longrightarrow>
      h (Suc i) = resim_tick step ib (h i) (rt + of_nat (Suc i))"
  shows "fst (rollback_to step rt ct buf ib) = Inr (h (unat (ct - rt)))"
proof -
  let ?n = "unat (ct - rt)"
  have n: "unat ct = unat rt + ?n"
    using window(1) by (simp add: unat_sub word_le_nat_alt)
  have "foldl (resim_tick step ib) (h 0) (map of_nat [Suc (unat rt)..<Suc (unat rt + ?n)])
      = h (unat rt + ?n - unat rt)"
    using foldl_history [of ?n "\<lambda>j. h (j - unat rt)" "unat rt" "resim_tick step ib"] steps
    by (simp add: Suc_diff_le ac_simps del: upt_Suc)
  moreover have "snapshot_get rt buf = Some (h 0)" using hist [of 0] by simp
  ultimately show ?thesis
    using window by (simp add: rollback_to_eq ticks_incl_after n linorder_not_less del: upt_Suc)
qed

text \<open>As long as the ring buffer still has room, a rollback does not replace the snapshots it
  re-simulates: looking one up afterwards returns the entry from before the rollback, because the
  lookup takes the oldest entry of a tick and the re-simulated one is appended behind it.\<close>

lemma rollback_keeps_stale_snapshots:
  assumes "snapshot_ok buf" and "snapshot_get t buf = Some old"
    and "length (sb_buffer buf) + length (ticks_incl (rt + 1) ct) \<le> sb_capacity buf"
  shows "snapshot_get t (snd (rollback_to step rt ct buf ib)) = Some old"
proof (cases "snapshot_get rt buf")
  case (Some base)
  obtain ys where "length ys = length (ticks_incl (rt + 1) ct)"
    "snd (resimulate step ib (ticks_incl (rt + 1) ct) base buf)
      = fold (\<lambda>(t, s). snapshot_push t s) ys buf"
    using resimulate_buffer by metis
  with assms Some show ?thesis
    by (auto simp: rollback_to_eq snapshot_get_def snap.items_fold_within find_append)
qed (use assms in \<open>simp add: rollback_to_eq\<close>)

text \<open>C19: The server-state handler is atomic and decides as the protocol says: it fails exactly when
  the tick has no snapshot (checked first) or lies more than eight ticks back, and then nothing
  changes; it reports ``no rollback'' exactly when the hashes agree, recording the confirmed tick;
  otherwise it returns the re-simulated state; and no success leaves a rollback pending.\<close>

theorem handle_server_state_outcome:
  "handle_server_state hash step ns st sh ct =
     (case snapshot_get st (ns_snapshot_buffer ns) of
        None \<Rightarrow> (Inl (SnapshotNotFound st), ns)
      | Some s \<Rightarrow>
          if unat st + unat MAX_ROLLBACK_DEPTH < unat ct
          then (Inl (RollbackDepthExceeded (ct - st)), ns)
          else if sh = snapshot_hash hash s
          then (Inr None, ns\<lparr>ns_prediction := \<lparr>pm_pending_rollback = None, pm_last_confirmed_tick = st\<rparr>\<rparr>)
          else (Inr (Some (foldl (resim_tick step (ns_input_buffer ns)) s (ticks_incl (st + 1) ct))),
                ns\<lparr>ns_snapshot_buffer := snd (rollback_to step st ct (ns_snapshot_buffer ns) (ns_input_buffer ns)),
                   ns_prediction := (ns_prediction ns)\<lparr>pm_pending_rollback := None\<rparr>\<rparr>))"
proof (cases "snapshot_get st (ns_snapshot_buffer ns)")
  case (Some s)
  have deep: "(st < ct \<and> MAX_ROLLBACK_DEPTH < ct - st) \<longleftrightarrow> unat st + unat MAX_ROLLBACK_DEPTH < unat ct"
    by (auto simp: word_less_nat_alt unat_sub_if_size)
  show ?thesis
    unfolding handle_server_state_def receive_server_state_def
    by (cases "ns_prediction ns")
      (simp add: Some Let_def deep rollback_to_eq clear_rollback_def)
qed (simp add: handle_server_state_def)

section \<open>Witnesses\<close>

text \<open>A step function that counts frames, and a buffer with one wrongly predicted tick.\<close>

definition blank_mirror :: "u64 \<Rightarrow> EcsMirror" where
  "blank_mirror f = \<lparr>em_entities = [], em_local_player_id = EntityId 0, em_frame_number = f,
     em_delta_time = sf_zero\<rparr>"

definition blank_snapshot :: "u64 \<Rightarrow> GameSnapshot" where
  "blank_snapshot t = \<lparr>gs_tick = t, gs_ecs_mirror = blank_mirror 0, gs_rng_state = []\<rparr>"

definition count_inputs :: sim_step where
  "count_inputs s inputs = s\<lparr>gs_ecs_mirror := (gs_ecs_mirror s)\<lparr>em_frame_number :=
     em_frame_number (gs_ecs_mirror s) + of_nat (length inputs)\<rparr>\<rparr>"

definition two_ticks :: "GameSnapshot SnapshotBuffer" where
  "two_ticks = snapshot_push 2 (blank_snapshot 2) (snapshot_push 1 (blank_snapshot 1) snapshot_new)"

definition late_input :: InputBuffer where
  "late_input = input_insert 2 [\<lparr>pi_player_id = EntityId 1, pi_input_type = 0, pi_data = DUnit, pi_tick = 2\<rparr>] input_new"

lemmas rollback_example_defs = two_ticks_def late_input_def blank_snapshot_def blank_mirror_def
  count_inputs_def snapshot_push_def snapshot_new_def SNAPSHOT_CAPACITY_def snapshot_get_def
  input_insert_def input_new_def input_get_def MAX_ROLLBACK_DEPTH_def Let_def

theorem rollback_reproduces_history_witness:
  "fst (rollback_to count_inputs 1 2 two_ticks input_new) = Inr (blank_snapshot 2)"
proof -
  have "fst (rollback_to count_inputs 1 2 two_ticks input_new)
      = Inr ((\<lambda>i. blank_snapshot (1 + of_nat i)) (unat (2 - 1 :: u64)))"
    by (rule rollback_reproduces_history)
      (auto simp: rollback_example_defs resim_tick_def le_Suc_eq)
  then show ?thesis by simp
qed

lemma rollback_keeps_stale_snapshots_example:
  "snapshot_get 2 (snd (rollback_to count_inputs 1 2 two_ticks late_input)) = Some (blank_snapshot 2)
   \<and> fst (rollback_to count_inputs 1 2 two_ticks late_input) \<noteq> Inr (blank_snapshot 2)"
proof
  show "snapshot_get 2 (snd (rollback_to count_inputs 1 2 two_ticks late_input)) = Some (blank_snapshot 2)"
    by (rule rollback_keeps_stale_snapshots)
      (simp_all add: rollback_example_defs snapshot_ok_def ticks_incl_def)
  show "fst (rollback_to count_inputs 1 2 two_ticks late_input) \<noteq> Inr (blank_snapshot 2)"
    by (simp add: rollback_to_eq rollback_example_defs ticks_incl_def resim_tick_def)
qed

end
