(* ===== verification/Machines.thy ===== *)
theory Machines
  imports Prelude
begin

text \<open>
  Interfaces of the state machines of the program. An \<open>event_machine\<close> has an invariant that every
  event keeps; an \<open>absorbing_machine\<close> also has terminal states no event leaves. The connection
  managers, the worker lifecycle and the id allocators interpret them on their own operations.
\<close>

locale event_machine =
  fixes step :: "'e \<Rightarrow> 's \<Rightarrow> 's"
    and inv :: "'s \<Rightarrow> bool"
  assumes inv_step: "inv s \<Longrightarrow> inv (step e s)"
begin

lemma inv_fold: "inv s \<Longrightarrow> inv (fold step es s)"
  by (induction es arbitrary: s) (auto simp: inv_step)

end

locale absorbing_machine = event_machine +
  fixes dead :: "'b \<Rightarrow> bool"
  assumes dead_step: "inv s \<Longrightarrow> dead s \<Longrightarrow> dead (step e s)"

sublocale absorbing_machine \<subseteq> absorbed: event_machine step "\<lambda>s. inv s \<and> dead s"
  by unfold_locales (auto simp: inv_step dead_step)

context absorbing_machine
begin

lemma dead_fold: "inv s \<Longrightarrow> dead s \<Longrightarrow> dead (fold step es s)"
  using absorbed.inv_fold [of s es] by simp

lemma dead_suffix:
  "inv s \<Longrightarrow> dead (fold step es s) \<Longrightarrow> dead (fold step (es @ fs) s)"
  by (simp add: dead_fold inv_fold)

end

end
