(* ===== verification/Netcode_Connection.thy ===== *)
theory Netcode_Connection
  imports Netcode_Rollback Machines
begin

text \<open>
  Connection loss and resynchronisation (\<^verbatim>\<open>engine/netcode/src/connection.rs\<close>) and the client's
  hash report bookkeeping (\<^verbatim>\<open>hash_validation.rs\<close>). The lemmas bound the retries of an outage.
\<close>

section \<open>The connection manager\<close>

definition FROZEN_TIMEOUT_TICKS :: u64 where "FROZEN_TIMEOUT_TICKS = 1800"
definition RETRY_INTERVAL_TICKS :: u64 where "RETRY_INTERVAL_TICKS = 120"
definition MAX_RESYNC_RETRIES :: u32 where "MAX_RESYNC_RETRIES = 3"

datatype ConnectionState =
    Connected
  | Frozen u64
  | Resync u32 u64
  | Disconnected

datatype ReconnectAction = AttemptReconnect | Timeout

record FullSyncPacket =
  fs_tick :: u64
  fs_ecs_mirror :: EcsMirror
  fs_rng_state :: bytes

record ConnectionManager =
  cm_state :: ConnectionState
  cm_last_retry_tick :: u64
  cm_force_reload :: bool

definition connection_new :: ConnectionManager where
  "connection_new = \<lparr>cm_state = Connected, cm_last_retry_tick = 0, cm_force_reload = False\<rparr>"

definition on_disconnect :: "u64 \<Rightarrow> ConnectionManager \<Rightarrow> ConnectionManager" where
  "on_disconnect current_tick cm =
     (if cm_state cm = Connected then cm\<lparr>cm_state := Frozen current_tick\<rparr> else cm)"

definition on_reconnect ::
  "FullSyncPacket \<Rightarrow> Blake3Hash \<Rightarrow> GameSnapshot SnapshotBuffer \<Rightarrow> Blake3Hash \<Rightarrow> ConnectionManager
     \<Rightarrow> (NetcodeError + unit) \<times> GameSnapshot SnapshotBuffer \<times> ConnectionManager" where
  "on_reconnect packet expected_hash buf computed_hash cm =
     (if computed_hash \<noteq> expected_hash then (Inl ResyncHashMismatch, buf, cm)
      else let snapshot = \<lparr>gs_tick = fs_tick packet, gs_ecs_mirror = fs_ecs_mirror packet,
                           gs_rng_state = fs_rng_state packet\<rparr>;
               buf = snapshot_push (fs_tick packet) snapshot (snapshot_clear buf)
           in (Inr (), buf, cm\<lparr>cm_state := Connected\<rparr>))"

definition on_version_mismatch :: "ConnectionManager \<Rightarrow> ConnectionManager" where
  "on_version_mismatch cm = cm\<lparr>cm_force_reload := True, cm_state := Disconnected\<rparr>"

definition conn_tick :: "u64 \<Rightarrow> ConnectionManager \<Rightarrow> ReconnectAction option \<times> ConnectionManager" where
  "conn_tick current_tick cm =
     (case cm_state cm of
        Frozen frozen_since_tick \<Rightarrow>
          if saturating_sub current_tick frozen_since_tick \<ge> FROZEN_TIMEOUT_TICKS
          then (Some Timeout, cm\<lparr>cm_state := Disconnected\<rparr>)
          else (Some AttemptReconnect,
                cm\<lparr>cm_state := Resync 0 frozen_since_tick, cm_last_retry_tick := current_tick\<rparr>)
      | Resync retry_count frozen_since_tick \<Rightarrow>
          if saturating_sub current_tick frozen_since_tick \<ge> FROZEN_TIMEOUT_TICKS
          then (Some Timeout, cm\<lparr>cm_state := Disconnected\<rparr>)
          else if saturating_sub current_tick (cm_last_retry_tick cm) \<ge> RETRY_INTERVAL_TICKS
          then if retry_count + 1 > MAX_RESYNC_RETRIES
               then (Some Timeout, cm\<lparr>cm_state := Disconnected\<rparr>)
               else (Some AttemptReconnect,
                     cm\<lparr>cm_state := Resync (retry_count + 1) frozen_since_tick,
                        cm_last_retry_tick := current_tick\<rparr>)
          else (None, cm)
      | _ \<Rightarrow> (None, cm))"

section \<open>Events and reachable states\<close>

datatype conn_event =
    EvTick u64
  | EvDisconnect u64
  | EvReconnect FullSyncPacket Blake3Hash "GameSnapshot SnapshotBuffer" Blake3Hash
  | EvVersionMismatch

fun conn_step :: "conn_event \<Rightarrow> ConnectionManager \<Rightarrow> ConnectionManager" where
  "conn_step (EvTick t) cm = snd (conn_tick t cm)"
| "conn_step (EvDisconnect t) cm = on_disconnect t cm"
| "conn_step (EvReconnect p e b c) cm = snd (snd (on_reconnect p e b c cm))"
| "conn_step EvVersionMismatch cm = on_version_mismatch cm"

definition conn_ok :: "ConnectionManager \<Rightarrow> bool" where
  "conn_ok cm \<longleftrightarrow> (case cm_state cm of Resync rc _ \<Rightarrow> rc \<le> MAX_RESYNC_RETRIES | _ \<Rightarrow> True)"

lemma conn_tick_ok: "conn_ok cm \<Longrightarrow> conn_ok (snd (conn_tick t cm))"
  by (auto simp: conn_tick_def conn_ok_def linorder_not_less split: ConnectionState.split)

interpretation conn: event_machine conn_step conn_ok
proof unfold_locales
  fix cm e
  assume "conn_ok cm"
  then show "conn_ok (conn_step e cm)"
    by (cases e)
      (simp_all add: conn_tick_ok, auto simp: conn_ok_def on_disconnect_def
        on_reconnect_def on_version_mismatch_def Let_def split: ConnectionState.splits)
qed

interpretation conn_ticks: absorbing_machine "\<lambda>t cm. snd (conn_tick t cm)" conn_ok
    "\<lambda>cm. cm_state cm = Disconnected"
  by unfold_locales (simp_all add: conn_tick_ok, simp add: conn_tick_def)

fun run_ticks ::
  "u64 list \<Rightarrow> ConnectionManager \<Rightarrow> ReconnectAction option list \<times> ConnectionManager" where
  "run_ticks [] cm = ([], cm)"
| "run_ticks (t # ts) cm =
     (case conn_tick t cm of
        (a, cm) \<Rightarrow> (case run_ticks ts cm of (as, cm) \<Rightarrow> (a # as, cm)))"

lemma run_ticks_Cons [simp]:
  "fst (run_ticks (t # ts) cm) = fst (conn_tick t cm) # fst (run_ticks ts (snd (conn_tick t cm)))"
  "snd (run_ticks (t # ts) cm) = snd (run_ticks ts (snd (conn_tick t cm)))"
  by (simp_all split: prod.split)

declare run_ticks.simps(2) [simp del]

lemma run_ticks_state: "snd (run_ticks ts cm) = fold (\<lambda>t cm. snd (conn_tick t cm)) ts cm"
  by (induction ts arbitrary: cm) simp_all

fun attempts_left :: "ConnectionState \<Rightarrow> nat" where
  "attempts_left (Frozen _) = Suc (unat MAX_RESYNC_RETRIES)"
| "attempts_left (Resync rc _) = unat MAX_RESYNC_RETRIES - unat rc"
| "attempts_left _ = 0"

fun frozen_since :: "ConnectionState \<Rightarrow> u64 option" where
  "frozen_since (Frozen f) = Some f"
| "frozen_since (Resync _ f) = Some f"
| "frozen_since _ = None"

lemma tick_attempts:
  assumes "conn_ok cm"
  shows "(if fst (conn_tick t cm) = Some AttemptReconnect then 1 else 0)
      + attempts_left (cm_state (snd (conn_tick t cm))) \<le> attempts_left (cm_state cm)"
proof -
  have "unat rc \<le> 3 \<and> unat (rc + 1) = Suc (unat rc)" if "rc \<le> 3" for rc :: u32
  proof -
    have "unat rc \<le> 3" using that by (simp add: word_le_nat_alt)
    moreover have "rc \<noteq> - 1"
      using calculation by (auto simp: unsigned_minus_1_eq_mask mask_eq_exp_minus_1)
    ultimately show ?thesis using unat_plus_1 [of rc] by simp
  qed
  with assms show ?thesis
    by (auto simp: conn_tick_def conn_ok_def MAX_RESYNC_RETRIES_def word_less_nat_alt
        split: ConnectionState.split)
qed

lemma tick_frozen_since:
  "(if fst (conn_tick t cm) = Some Timeout then 1 else 0)
     + (if frozen_since (cm_state (snd (conn_tick t cm))) = None then 0 else 1)
   = (if frozen_since (cm_state cm) = None then 0 else (1::nat))"
  by (simp add: conn_tick_def split: ConnectionState.split)

lemma tick_timeout:
  "frozen_since (cm_state cm) = Some f \<Longrightarrow> unat f + unat FROZEN_TIMEOUT_TICKS \<le> unat t
     \<Longrightarrow> cm_state (snd (conn_tick t cm)) = Disconnected"
  by (auto simp: conn_tick_def word_le_nat_alt split: ConnectionState.splits)

lemma tick_keeps_since:
  "frozen_since (cm_state cm) = Some f
     \<Longrightarrow> cm_state (snd (conn_tick t cm)) = Disconnected
       \<or> frozen_since (cm_state (snd (conn_tick t cm))) = Some f"
  by (auto simp: conn_tick_def split: ConnectionState.splits)

lemma run_ticks_attempts:
  "conn_ok cm \<Longrightarrow> count_list (fst (run_ticks ts cm)) (Some AttemptReconnect) \<le> attempts_left (cm_state cm)"
proof (induction ts arbitrary: cm)
  case (Cons t ts)
  then have "count_list (fst (run_ticks ts (snd (conn_tick t cm)))) (Some AttemptReconnect)
      \<le> attempts_left (cm_state (snd (conn_tick t cm)))" by (simp add: conn_tick_ok)
  with tick_attempts [OF Cons.prems, of t] show ?case by (simp split: if_splits)
qed simp

lemma run_ticks_timeouts:
  "count_list (fst (run_ticks ts cm)) (Some Timeout)
     + (if frozen_since (cm_state (snd (run_ticks ts cm))) = None then 0 else 1)
   = (if frozen_since (cm_state cm) = None then 0 else (1::nat))"
proof (induction ts arbitrary: cm)
  case (Cons t ts)
  from Cons.IH [of "snd (conn_tick t cm)"] tick_frozen_since [of t cm]
  show ?case by (simp split: if_splits)
qed simp

lemma run_ticks_deadline:
  "conn_ok cm \<Longrightarrow> frozen_since (cm_state cm) = Some f \<Longrightarrow> t \<in> set ts
     \<Longrightarrow> unat f + unat FROZEN_TIMEOUT_TICKS \<le> unat t
     \<Longrightarrow> cm_state (snd (run_ticks ts cm)) = Disconnected"
proof (induction ts arbitrary: cm)
  case (Cons u ts)
  let ?c = "snd (conn_tick u cm)"
  have ok: "conn_ok ?c" using Cons.prems(1) by (rule conn_tick_ok)
  have state: "snd (run_ticks (u # ts) cm) = snd (run_ticks ts ?c)"
    by simp
  show ?case
  proof (cases "cm_state ?c = Disconnected")
    case True
    then show ?thesis
      using conn_ticks.dead_fold [OF ok] by (simp add: state run_ticks_state)
  next
    case False
    then have "u \<noteq> t" using tick_timeout Cons.prems by blast
    with False show ?thesis
      using Cons.IH [OF ok] Cons.prems tick_keeps_since [of cm f u] by (simp add: state)
  qed
qed simp


text \<open>C9: An outage is bounded. From the moment the connection is frozen, whatever the tick numbers
  are, the manager asks for at most four reconnection attempts (the first and three retries), reports
  the timeout at most once, and is disconnected with exactly one timeout reported after any run that
  includes a tick at least 1800 ticks after the freeze.\<close>

theorem outage_bounded:
  assumes "cm_state cm = Frozen f"
  shows "count_list (fst (run_ticks ts cm)) (Some AttemptReconnect) \<le> 4
    \<and> count_list (fst (run_ticks ts cm)) (Some Timeout) \<le> 1
    \<and> ((\<exists>t \<in> set ts. unat f + 1800 \<le> unat t) \<longrightarrow>
      cm_state (snd (run_ticks ts cm)) = Disconnected
      \<and> count_list (fst (run_ticks ts cm)) (Some Timeout) = 1)"
proof -
  have ok: "conn_ok cm" and f: "frozen_since (cm_state cm) = Some f"
    using assms by (simp_all add: conn_ok_def)
  have "count_list (fst (run_ticks ts cm)) (Some AttemptReconnect) \<le> 4"
    using run_ticks_attempts [OF ok, of ts] assms by (simp add: MAX_RESYNC_RETRIES_def)
  moreover have "count_list (fst (run_ticks ts cm)) (Some Timeout) \<le> 1"
    using run_ticks_timeouts [of ts cm] by (simp split: if_splits)
  moreover have "cm_state (snd (run_ticks ts cm)) = Disconnected"
    if "\<exists>t \<in> set ts. unat f + 1800 \<le> unat t"
    using that run_ticks_deadline [OF ok f] by (auto simp: FROZEN_TIMEOUT_TICKS_def)
  moreover have "count_list (fst (run_ticks ts cm)) (Some Timeout) = 1"
    if "cm_state (snd (run_ticks ts cm)) = Disconnected"
    using that run_ticks_timeouts [of ts cm] f by simp
  ultimately show ?thesis by blast
qed

theorem outage_bounded_witness:
  "cm_state (snd (run_ticks [11, 131, 1810] (on_disconnect 10 connection_new))) = Disconnected
   \<and> count_list (fst (run_ticks [11, 131, 1810] (on_disconnect 10 connection_new))) (Some Timeout) = 1"
  using outage_bounded [of "on_disconnect 10 connection_new" 10 "[11, 131, 1810]"]
  by (simp add: on_disconnect_def connection_new_def)

section \<open>Hash reports\<close>

definition SUSPICIOUS_THRESHOLD :: u64 where "SUSPICIOUS_THRESHOLD = 3"
definition HASH_REPORT_INTERVAL :: u64 where "HASH_REPORT_INTERVAL = 4"

datatype HashValidationResult = Match | HashMismatch | Suspicious

record HashValidator =
  hv_mismatch_count :: u64
  hv_consecutive_mismatches :: u64

definition hash_validator_new :: HashValidator where
  "hash_validator_new = \<lparr>hv_mismatch_count = 0, hv_consecutive_mismatches = 0\<rparr>"

definition should_report :: "u64 \<Rightarrow> bool" where
  "should_report tick \<longleftrightarrow> tick mod HASH_REPORT_INTERVAL = 0"

definition hv_validate ::
  "Blake3Hash \<Rightarrow> Blake3Hash \<Rightarrow> HashValidator \<Rightarrow> HashValidationResult \<times> HashValidator" where
  "hv_validate local_hash server_hash hv =
     (if local_hash = server_hash
      then (Match, hv\<lparr>hv_consecutive_mismatches := 0\<rparr>)
      else let hv = hv\<lparr>hv_mismatch_count := hv_mismatch_count hv + 1,
                       hv_consecutive_mismatches := hv_consecutive_mismatches hv + 1\<rparr>
           in if hv_consecutive_mismatches hv \<ge> SUSPICIOUS_THRESHOLD
              then (Suspicious, hv) else (HashMismatch, hv))"

definition hv_reset_consecutive :: "HashValidator \<Rightarrow> HashValidator" where
  "hv_reset_consecutive hv = hv\<lparr>hv_consecutive_mismatches := 0\<rparr>"

fun hv_run ::
  "(Blake3Hash \<times> Blake3Hash) list \<Rightarrow> HashValidator \<Rightarrow> HashValidationResult list \<times> HashValidator" where
  "hv_run [] hv = ([], hv)"
| "hv_run ((l, s) # rs) hv =
     (case hv_validate l s hv of
        (r, hv) \<Rightarrow> (case hv_run rs hv of (out, hv) \<Rightarrow> (r # out, hv)))"

definition mismatch_streak :: "(Blake3Hash \<times> Blake3Hash) list \<Rightarrow> nat" where
  "mismatch_streak rs = length (takeWhile (\<lambda>(l, s). l \<noteq> s) (rev rs))"

lemma hv_run_snoc:
  "hv_run (rs @ [(l, s)]) hv =
     (fst (hv_run rs hv) @ [fst (hv_validate l s (snd (hv_run rs hv)))],
      snd (hv_validate l s (snd (hv_run rs hv))))"
  by (induction rs hv rule: hv_run.induct) (simp_all split: prod.split)

lemma mismatch_streak_snoc [simp]:
  "mismatch_streak (rs @ [(l, s)]) = (if l = s then 0 else Suc (mismatch_streak rs))"
  by (simp add: mismatch_streak_def)

lemma mismatch_streak_le: "mismatch_streak rs \<le> length rs"
  unfolding mismatch_streak_def by (metis length_rev length_takeWhile_le)

lemma hv_run_counts:
  "length rs < 2 ^ 64 \<Longrightarrow>
     unat (hv_consecutive_mismatches (snd (hv_run rs hash_validator_new))) = mismatch_streak rs
     \<and> unat (hv_mismatch_count (snd (hv_run rs hash_validator_new)))
        = length (filter (\<lambda>(l, s). l \<noteq> s) rs)"
proof (induction rs rule: rev_induct)
  case Nil
  then show ?case by (simp add: hash_validator_new_def mismatch_streak_def)
next
  case (snoc p rs)
  obtain l s where p: "p = (l, s)" by (cases p)
  have "length rs < 2 ^ 64 - 1" using snoc.prems by simp
  then have "mismatch_streak rs < 2 ^ 64 - 1" "length (filter (\<lambda>(l, s). l \<noteq> s) rs) < 2 ^ 64 - 1"
    using mismatch_streak_le [of rs] length_filter_le [of "\<lambda>(l, s). l \<noteq> s" rs] by linarith+
  moreover have "w \<noteq> - 1" if "unat w < 2 ^ 64 - 1" for w :: u64
    using that by (auto simp: unsigned_minus_1_eq_mask mask_eq_exp_minus_1)
  ultimately show ?case
    using snoc by (auto simp: p hv_run_snoc hv_validate_def Let_def unat_plus_1)
qed

text \<open>The client's validator reports \<open>Suspicious\<close> exactly when the report just checked is at least
  the third mismatch in a row, \<open>Match\<close> exactly when the hashes agree, and its total counts every
  mismatch seen, for any history shorter than the counters can count.\<close>

lemma hash_validator_reports:
  assumes "length rs < 2 ^ 64 - 1"
  shows "fst (hv_validate l s (snd (hv_run rs hash_validator_new))) =
      (if l = s then Match
       else if mismatch_streak (rs @ [(l, s)]) \<ge> 3 then Suspicious else HashMismatch)
    \<and> unat (hv_mismatch_count (snd (hv_run rs hash_validator_new)))
      = length (filter (\<lambda>(l, s). l \<noteq> s) rs)"
proof -
  let ?hv = "snd (hv_run rs hash_validator_new)"
  have len: "length (rs @ [(l, s)]) < 2 ^ 64" using assms by simp
  then have "unat (hv_consecutive_mismatches (snd (hv_validate l s ?hv))) = mismatch_streak (rs @ [(l, s)])"
    using hv_run_counts [of "rs @ [(l, s)]"] by (simp add: hv_run_snoc del: mismatch_streak_snoc)
  then have "fst (hv_validate l s ?hv) =
      (if l = s then Match
       else if mismatch_streak (rs @ [(l, s)]) \<ge> 3 then Suspicious else HashMismatch)"
    by (cases "l = s")
      (auto simp: hv_validate_def Let_def SUSPICIOUS_THRESHOLD_def word_le_nat_alt
        simp del: mismatch_streak_snoc split: if_splits)
  moreover have "unat (hv_mismatch_count ?hv) = length (filter (\<lambda>(l, s). l \<noteq> s) rs)"
    using hv_run_counts [of rs] len by simp
  ultimately show ?thesis by blast
qed

lemma hash_validator_reports_example:
  "fst (hv_validate [1] [2] (snd (hv_run [([1], [2]), ([3], [4])] hash_validator_new))) = Suspicious"
  using hash_validator_reports [of "[([1], [2]), ([3], [4])]" "[1]" "[2]"]
  by (simp add: mismatch_streak_def)

end
