(* ===== verification/Replay.thy ===== *)
theory Replay
  imports Bridge_Types
begin

text \<open>
  Recording and replaying sessions (\<^verbatim>\<open>server/replay_engine\<close> and the simulation trait of
  \<^verbatim>\<open>server/server_types\<close>). The trait \<open>DeterministicSimulation\<close> is a record of its methods; the
  player works for every such record, and the locale \<open>replayable_simulation\<close> states what a
  simulation must satisfy for recordings of it to replay.
\<close>

section \<open>The simulation trait\<close>

type_synonym input_map = "(EntityId, PlayerInput list) btree"

record ('s, 'e) DeterministicSimulation =
  ds_restore_rng :: "bytes \<Rightarrow> 's \<Rightarrow> 's"
  ds_step :: "input_map \<Rightarrow> 's \<Rightarrow> ('e + unit) \<times> 's"
  ds_compute_state_hash :: "'s \<Rightarrow> Blake3Hash"
  ds_display :: "'e \<Rightarrow> string"

section \<open>Recorder\<close>

definition REPLAY_FORMAT_VERSION :: u16 where "REPLAY_FORMAT_VERSION = 1"

record ReplayFile =
  rp_version :: u16
  rp_session_id :: u64
  rp_seed :: u64
  rp_player_count :: u8
  rp_frames :: "ReplayFrame list"

record ReplayRecorder =
  rr_frames :: "ReplayFrame list"
  rr_session_id :: u64
  rr_seed :: u64
  rr_player_count :: u8

datatype ('b, 'i) ReplayError =
    UnsupportedVersion u16
  | SerializationFailed 'b
  | DeserializationFailed 'b
  | DecompressionFailed 'i
  | EmptyReplay

definition recorder_new :: "u64 \<Rightarrow> u64 \<Rightarrow> u8 \<Rightarrow> ReplayRecorder" where
  "recorder_new session_id seed player_count =
     \<lparr>rr_frames = [], rr_session_id = session_id, rr_seed = seed, rr_player_count = player_count\<rparr>"

definition record_frame ::
  "u64 \<Rightarrow> PlayerInput list \<Rightarrow> bytes \<Rightarrow> Blake3Hash \<Rightarrow> ReplayRecorder \<Rightarrow> ReplayRecorder" where
  "record_frame tick inputs rng_state state_hash r =
     r\<lparr>rr_frames := rr_frames r @ [\<lparr>rf_tick = tick, rf_inputs = inputs, rf_rng_state = rng_state,
        rf_state_hash = state_hash\<rparr>]\<rparr>"

definition replay_save ::
  "(ReplayFile \<Rightarrow> 'b + bytes) \<Rightarrow> (bytes \<Rightarrow> 'i + bytes) \<Rightarrow> ReplayRecorder \<Rightarrow> ('b, 'i) ReplayError + bytes" where
  "replay_save ser gz r =
     (let file = \<lparr>rp_version = REPLAY_FORMAT_VERSION, rp_session_id = rr_session_id r,
                  rp_seed = rr_seed r, rp_player_count = rr_player_count r, rp_frames = rr_frames r\<rparr>
      in bind_sum (map_inl SerializationFailed (ser file))
           (\<lambda>data. map_inl DecompressionFailed (gz data)))"

definition replay_load ::
  "(bytes \<Rightarrow> 'b + ReplayFile) \<Rightarrow> (bytes \<Rightarrow> 'i + bytes) \<Rightarrow> bytes \<Rightarrow> ('b, 'i) ReplayError + ReplayFile" where
  "replay_load de gunz input =
     bind_sum (map_inl DecompressionFailed (gunz input)) (\<lambda>data.
       bind_sum (map_inl DeserializationFailed (de data)) (\<lambda>file.
         if rp_version file \<noteq> REPLAY_FORMAT_VERSION then Inl (UnsupportedVersion (rp_version file))
         else Inr file))"

lemma replay_load_version: "replay_load de gunz input = Inr file \<Longrightarrow> rp_version file = REPLAY_FORMAT_VERSION"
  by (auto simp: replay_load_def bind_sum_def map_inl_def split: sum.splits if_splits)

lemma replay_save_load:
  assumes "replay_save ser gz r = Inr out"
    and "\<And>f d. ser f = Inr d \<Longrightarrow> de d = Inr f" and "\<And>d z. gz d = Inr z \<Longrightarrow> gunz z = Inr d"
  shows "\<exists>file. replay_load de gunz out = Inr file \<and> rp_frames file = rr_frames r"
  using assms
  by (fastforce simp: replay_save_def replay_load_def bind_sum_def map_inl_def Let_def
      split: sum.splits)

section \<open>Player\<close>

text \<open>The speed of \<open>Spectator\<close> is the bit pattern of an \<open>f32\<close>; nothing computes with it.\<close>

datatype PlaybackMode = Validation | Debug | Spectator u32

record FrameStepResult =
  fr_tick :: u64
  fr_hash_match :: bool
  fr_expected_hash :: Blake3Hash
  fr_actual_hash :: Blake3Hash
  fr_is_last_frame :: bool

datatype ReplayValidationResult =
    ReplayOk nat
  | Desync u64 Blake3Hash Blake3Hash
  | SimulationFailed u64 string

record ReplayPlayer =
  pl_replay :: ReplayFile
  pl_current_frame_idx :: nat
  pl_mode :: PlaybackMode

definition player_new :: "ReplayFile \<Rightarrow> PlaybackMode \<Rightarrow> ReplayPlayer" where
  "player_new replay mode = \<lparr>pl_replay = replay, pl_current_frame_idx = 0, pl_mode = mode\<rparr>"

definition push_input :: "PlayerInput \<Rightarrow> input_map \<Rightarrow> input_map" where
  "push_input input m =
     bm_insert (pi_player_id input)
       ((case bm_get m (pi_player_id input) of None \<Rightarrow> [] | Some v \<Rightarrow> v) @ [input]) m"

definition inputs_to_map :: "PlayerInput list \<Rightarrow> input_map" where
  "inputs_to_map inputs = fold push_input inputs []"

fun run_frames ::
  "('s, 'e) DeterministicSimulation \<Rightarrow> ReplayFrame list \<Rightarrow> nat \<Rightarrow> 's \<Rightarrow> ReplayValidationResult \<times> 's" where
  "run_frames sim [] verified s = (ReplayOk verified, s)"
| "run_frames sim (frame # frames) verified s =
     (case ds_step sim (inputs_to_map (rf_inputs frame)) (ds_restore_rng sim (rf_rng_state frame) s) of
        (Inl e, s') \<Rightarrow> (SimulationFailed (rf_tick frame) (ds_display sim e), s')
      | (Inr _, s') \<Rightarrow>
          let actual_hash = ds_compute_state_hash sim s'
          in if actual_hash \<noteq> rf_state_hash frame
             then (Desync (rf_tick frame) (rf_state_hash frame) actual_hash, s')
             else run_frames sim frames (verified + 1) s')"

definition run_full ::
  "('s, 'e) DeterministicSimulation \<Rightarrow> ReplayPlayer \<Rightarrow> 's \<Rightarrow> ReplayValidationResult \<times> ReplayPlayer \<times> 's" where
  "run_full sim p s =
     (let p = p\<lparr>pl_current_frame_idx := 0\<rparr>
      in if rp_frames (pl_replay p) = [] then (ReplayOk 0, p, s)
         else case run_frames sim (rp_frames (pl_replay p)) 0 s of
                (ReplayOk n, s') \<Rightarrow>
                  (ReplayOk n, p\<lparr>pl_current_frame_idx := length (rp_frames (pl_replay p))\<rparr>, s')
              | (r, s') \<Rightarrow> (r, p, s'))"

definition step_frame ::
  "('s, 'e) DeterministicSimulation \<Rightarrow> ReplayPlayer \<Rightarrow> 's \<Rightarrow> FrameStepResult option \<times> ReplayPlayer \<times> 's" where
  "step_frame sim p s =
     (if pl_current_frame_idx p \<ge> length (rp_frames (pl_replay p)) then (None, p, s)
      else let frame = rp_frames (pl_replay p) ! pl_current_frame_idx p
           in case ds_step sim (inputs_to_map (rf_inputs frame)) (ds_restore_rng sim (rf_rng_state frame) s) of
                (Inl e, s') \<Rightarrow> (None, p, s')
              | (Inr _, s') \<Rightarrow>
                  let actual_hash = ds_compute_state_hash sim s';
                      is_last = pl_current_frame_idx p + 1 \<ge> length (rp_frames (pl_replay p))
                  in (Some \<lparr>fr_tick = rf_tick frame, fr_hash_match = (actual_hash = rf_state_hash frame),
                            fr_expected_hash = rf_state_hash frame, fr_actual_hash = actual_hash,
                            fr_is_last_frame = is_last\<rparr>,
                      p\<lparr>pl_current_frame_idx := pl_current_frame_idx p + 1\<rparr>, s'))"

section \<open>Grouping inputs by player\<close>

lemma bm_wf_push_input: "bm_wf m \<Longrightarrow> bm_wf (push_input i m)"
  by (auto simp: push_input_def)

lemma inputs_to_map_snoc: "inputs_to_map (is @ [i]) = push_input i (inputs_to_map is)"
  by (simp add: inputs_to_map_def)

lemma bm_wf_inputs_to_map: "bm_wf (inputs_to_map is)"
  by (induction "is" rule: rev_induct) (auto simp: inputs_to_map_snoc bm_wf_push_input, simp add: inputs_to_map_def)

text \<open>Turning a frame's flat input list into the map the simulation consumes loses and reorders
  nothing: players come in ascending order, a player without inputs has no entry, and a player's
  entry is their inputs in recorded order.\<close>

lemma inputs_to_map_groups:
  "bm_wf (inputs_to_map is) \<and>
   bm_get (inputs_to_map is) p =
     (let own = filter (\<lambda>i. pi_player_id i = p) is in if own = [] then None else Some own)"
proof (induction "is" rule: rev_induct)
  case (snoc i js)
  then show ?case
    by (auto simp: inputs_to_map_snoc push_input_def bm_get_insert Let_def
        simp flip: filter_empty_conv)
qed (simp add: inputs_to_map_def)

section \<open>Validation\<close>

text \<open>The frames a run verifies, with the state each leaves.\<close>

inductive verifies :: "('s, 'e) DeterministicSimulation \<Rightarrow> 's \<Rightarrow> ReplayFrame list \<Rightarrow> 's \<Rightarrow> bool"
  for sim where
  verifies_Nil: "verifies sim s [] s"
| verifies_Cons: "ds_step sim (inputs_to_map (rf_inputs f)) (ds_restore_rng sim (rf_rng_state f) s) = (Inr (), s')
    \<Longrightarrow> ds_compute_state_hash sim s' = rf_state_hash f
    \<Longrightarrow> verifies sim s' fs s'' \<Longrightarrow> verifies sim s (f # fs) s''"

inductive_cases verifies_ConsE: "verifies sim s (f # fs) s''"
inductive_simps verifies_Nil_iff: "verifies sim s [] s'"

lemma run_frames_verified:
  "verifies sim s fs s' \<Longrightarrow> run_frames sim (fs @ gs) n s = run_frames sim gs (n + length fs) s'"
  by (induction arbitrary: n rule: verifies.induct) auto

lemma run_frames_ok_iff:
  "(\<exists>n'. run_frames sim fs n s = (ReplayOk n', s')) \<longleftrightarrow> verifies sim s fs s'"
proof
  show "\<exists>n'. run_frames sim fs n s = (ReplayOk n', s') \<Longrightarrow> verifies sim s fs s'"
    by (induction sim fs n s rule: run_frames.induct)
      (auto simp: verifies_Nil_iff Let_def intro: verifies_Cons split: prod.splits sum.splits if_splits)
next
  assume "verifies sim s fs s'"
  from run_frames_verified [OF this, of "[]" n]
  show "\<exists>n'. run_frames sim fs n s = (ReplayOk n', s')" by simp
qed

definition desyncs_at :: "('s, 'e) DeterministicSimulation \<Rightarrow> 's \<Rightarrow> ReplayFrame \<Rightarrow> 's \<Rightarrow> bool" where
  "desyncs_at sim u f v \<longleftrightarrow>
     ds_step sim (inputs_to_map (rf_inputs f)) (ds_restore_rng sim (rf_rng_state f) u) = (Inr (), v)
     \<and> ds_compute_state_hash sim v \<noteq> rf_state_hash f"

lemma run_frames_desync:
  "run_frames sim fs n s = (Desync t e a, v) \<Longrightarrow>
     \<exists>pre f post u. fs = pre @ f # post \<and> verifies sim s pre u \<and> desyncs_at sim u f v
       \<and> t = rf_tick f \<and> e = rf_state_hash f \<and> a = ds_compute_state_hash sim v"
proof (induction sim fs n s rule: run_frames.induct)
  case (2 sim f fs n s)
  obtain r u where step: "ds_step sim (inputs_to_map (rf_inputs f)) (ds_restore_rng sim (rf_rng_state f) s) = (r, u)"
    by (cases "ds_step sim (inputs_to_map (rf_inputs f)) (ds_restore_rng sim (rf_rng_state f) s)")
  show ?case
  proof (cases r)
    case (Inr x)
    show ?thesis
    proof (cases "ds_compute_state_hash sim u = rf_state_hash f")
      case True
      with 2 step Inr obtain pre g post w where "fs = pre @ g # post" "verifies sim u pre w"
        "desyncs_at sim w g v" "t = rf_tick g \<and> e = rf_state_hash g \<and> a = ds_compute_state_hash sim v"
        by force
      with True step Inr show ?thesis
        by (intro exI [of _ "f # pre"] exI [of _ g] exI [of _ post] exI [of _ w])
          (auto intro: verifies_Cons)
    next
      case False
      with 2 step Inr show ?thesis
        by (intro exI [of _ "[]"] exI [of _ f] exI [of _ fs] exI [of _ s])
          (auto intro: verifies_Nil simp: Let_def desyncs_at_def)
    qed
  qed (use 2 step in simp)
qed simp

lemma fst_run_full:
  "fst (run_full sim p s) = fst (run_frames sim (rp_frames (pl_replay p)) 0 s)
   \<and> snd (snd (run_full sim p s)) = snd (run_frames sim (rp_frames (pl_replay p)) 0 s)"
  by (auto simp: run_full_def Let_def split: prod.split ReplayValidationResult.split)

text \<open>C5: Validation is exact. A full run accepts, with the number of frames, exactly when every frame
  verifies from the state its predecessors leave; it reports a desync exactly for the first frame
  whose hash differs, every frame before it having verified, with the recorded and the computed
  hash.\<close>

theorem run_full_exact:
  "(fst (run_full sim p s) = ReplayOk n \<longleftrightarrow>
     (\<exists>s'. verifies sim s (rp_frames (pl_replay p)) s') \<and> n = length (rp_frames (pl_replay p)))
   \<and> (fst (run_full sim p s) = Desync t e a \<longleftrightarrow>
     (\<exists>pre f post u v. rp_frames (pl_replay p) = pre @ f # post \<and> verifies sim s pre u
       \<and> desyncs_at sim u f v
       \<and> t = rf_tick f \<and> e = rf_state_hash f \<and> a = ds_compute_state_hash sim v))"
    (is "(_ \<longleftrightarrow> ?ok) \<and> (_ \<longleftrightarrow> ?bad)")
proof -
  let ?fs = "rp_frames (pl_replay p)"
  have "fst (run_frames sim ?fs 0 s) = ReplayOk n \<longleftrightarrow> ?ok"
  proof
    assume "fst (run_frames sim ?fs 0 s) = ReplayOk n"
    then obtain s' where s': "run_frames sim ?fs 0 s = (ReplayOk n, s')" by (metis prod.collapse)
    then have "verifies sim s ?fs s'" by (rule run_frames_ok_iff [THEN iffD1, OF exI])
    with s' run_frames_verified [OF this, of "[]" 0] show ?ok by auto
  next
    assume ?ok
    then show "fst (run_frames sim ?fs 0 s) = ReplayOk n"
      using run_frames_verified [of sim s ?fs _ "[]" 0] by auto
  qed
  moreover have "fst (run_frames sim ?fs 0 s) = Desync t e a \<longleftrightarrow> ?bad"
  proof
    assume "fst (run_frames sim ?fs 0 s) = Desync t e a"
    then obtain v where "run_frames sim ?fs 0 s = (Desync t e a, v)" by (metis prod.collapse)
    from run_frames_desync [OF this] show ?bad by blast
  next
    assume ?bad
    then obtain pre f post u v where "?fs = pre @ f # post" "verifies sim s pre u" "desyncs_at sim u f v"
      "t = rf_tick f \<and> e = rf_state_hash f \<and> a = ds_compute_state_hash sim v" by blast
    then show "fst (run_frames sim ?fs 0 s) = Desync t e a"
      using run_frames_verified [of sim s pre u "f # post" 0] by (auto simp: desyncs_at_def Let_def)
  qed
  ultimately show ?thesis by (simp add: fst_run_full)
qed

section \<open>Recordings\<close>

text \<open>The frames a recorder receives while it watches a run: per frame the generator state before the
  step, the inputs, and the hash after it.\<close>

inductive recording ::
  "('s, 'e) DeterministicSimulation \<Rightarrow> ('s \<Rightarrow> bytes) \<Rightarrow> 's \<Rightarrow> ReplayFrame list \<Rightarrow> 's \<Rightarrow> bool"
  for sim rng_bytes where
  recording_Nil: "recording sim rng_bytes s [] s"
| recording_Cons: "ds_step sim (inputs_to_map (rf_inputs f)) s = (Inr (), s')
    \<Longrightarrow> rf_rng_state f = rng_bytes s \<Longrightarrow> rf_state_hash f = ds_compute_state_hash sim s'
    \<Longrightarrow> recording sim rng_bytes s' fs s'' \<Longrightarrow> recording sim rng_bytes s (f # fs) s''"

locale replayable_simulation =
  fixes sim :: "('s, 'e) DeterministicSimulation"
    and rng_bytes :: "'s \<Rightarrow> bytes"
    and ok :: "'s \<Rightarrow> bool"
  assumes restore_own: "ok s \<Longrightarrow> ds_restore_rng sim (rng_bytes s) s = s"
    and ok_step: "ok s \<Longrightarrow> ds_step sim m s = (Inr (), s') \<Longrightarrow> ok s'"
begin

lemma recording_verifies:
  "recording sim rng_bytes s fs s' \<Longrightarrow> ok s \<Longrightarrow> verifies sim s fs s'"
  by (induction rule: recording.induct)
    (auto intro: verifies.intros simp: restore_own ok_step)

lemma recording_replays:
  "recording sim rng_bytes s (rp_frames (pl_replay p)) s' \<Longrightarrow> ok s \<Longrightarrow>
     fst (run_full sim p s) = ReplayOk (length (rp_frames (pl_replay p)))
     \<and> snd (snd (run_full sim p s)) = s'"
  using run_frames_verified [OF recording_verifies, of s "rp_frames (pl_replay p)" s' "[]" 0]
  by (simp add: fst_run_full)

end

end
