(* ===== verification/Server_Simulation.thy ===== *)
theory Server_Simulation
  imports Netcode_Connection Replay
begin

text \<open>
  The authoritative simulation (\<^verbatim>\<open>server/simulation/src/authoritative.rs\<close>): ticks, players,
  snapshots, full synchronisation, and its implementation of the simulation trait. The hash function
  is a parameter, as everywhere. A \<open>StepResult\<close> carries no events: \<open>GameEvent\<close> has no variants, so
  that vector is always empty.
\<close>

record PlayerInfo =
  pn_connection_state :: ConnectionState
  pn_joined_at_tick :: u64

record ServerSnapshot =
  ss_game :: GameSnapshot
  ss_players :: "(EntityId, PlayerInfo) btree"

record StepResult =
  st_tick :: u64
  st_state_hash :: Blake3Hash

datatype SimulationError = TickMismatch u64 u64 | InvalidRngState

definition display_simulation_error :: "SimulationError \<Rightarrow> string" where
  "display_simulation_error e =
     (case e of
        TickMismatch expected got \<Rightarrow>
          ''tick '' @ utf8 [0xE4, 0xB8, 0x8D, 0xE7, 0xAC, 0xA6, 0xEF, 0xBC, 0x9A, 0xE9, 0xA0, 0x90, 0xE6, 0x9C, 0x9F, 0x20] @ decimal (unat expected)
          @ utf8 [0xEF, 0xBC, 0x8C, 0xE5, 0xAF, 0xA6, 0xE9, 0x9A, 0x9B, 0x20] @ decimal (unat got)
      | InvalidRngState \<Rightarrow>
          ''RNG '' @ utf8 [0xE7, 0x8B, 0x80, 0xE6, 0x85, 0x8B, 0xE9, 0x82, 0x84, 0xE5, 0x8E, 0x9F, 0xE5, 0xA4, 0xB1, 0xE6, 0x95, 0x97, 0xEF, 0xBC, 0x9A]
          @ ''bytes '' @ utf8 [0xE6, 0xA0, 0xBC, 0xE5, 0xBC, 0x8F, 0xE9, 0x8C, 0xAF, 0xE8, 0xAA, 0xA4])"

record AuthoritativeSimulation =
  au_session_id :: u64
  au_state :: GameSnapshot
  au_rng :: DeterministicRng
  au_current_tick :: u64
  au_players :: "(EntityId, PlayerInfo) btree"

definition auth_new :: "u64 \<Rightarrow> GameSnapshot \<Rightarrow> u64 \<Rightarrow> AuthoritativeSimulation" where
  "auth_new session_id initial_state seed =
     (let current_tick = gs_tick initial_state;
          rng = seed_from_u64 seed;
          state = initial_state\<lparr>gs_rng_state := state_bytes rng\<rparr>
      in \<lparr>au_session_id = session_id, au_state = state, au_rng = rng,
          au_current_tick = current_tick, au_players = []\<rparr>)"

definition add_player :: "EntityId \<Rightarrow> AuthoritativeSimulation \<Rightarrow> AuthoritativeSimulation" where
  "add_player e a = a\<lparr>au_players := bm_insert e
     \<lparr>pn_connection_state = Connected, pn_joined_at_tick = au_current_tick a\<rparr> (au_players a)\<rparr>"

definition remove_player :: "EntityId \<Rightarrow> AuthoritativeSimulation \<Rightarrow> AuthoritativeSimulation" where
  "remove_player e a = a\<lparr>au_players := bm_remove e (au_players a)\<rparr>"

definition player_info :: "EntityId \<Rightarrow> AuthoritativeSimulation \<Rightarrow> PlayerInfo option" where
  "player_info e a = bm_get (au_players a) e"

definition step_full ::
  "(bytes \<Rightarrow> Blake3Hash) \<Rightarrow> input_map \<Rightarrow> AuthoritativeSimulation
     \<Rightarrow> (SimulationError + StepResult) \<times> AuthoritativeSimulation" where
  "step_full blake3 inputs a =
     (case List.find (\<lambda>i. pi_tick i \<noteq> au_current_tick a) (concat (map snd inputs)) of
        Some input \<Rightarrow> (Inl (TickMismatch (au_current_tick a) (pi_tick input)), a)
      | None \<Rightarrow>
          let tick = au_current_tick a + 1;
              state = au_state a;
              state = state\<lparr>gs_tick := tick,
                            gs_ecs_mirror := (gs_ecs_mirror state)\<lparr>em_frame_number := tick\<rparr>,
                            gs_rng_state := state_bytes (au_rng a)\<rparr>;
              state_hash = compute_state_hash blake3 (em_entities (gs_ecs_mirror state))
                             (gs_rng_state state) tick
          in (Inr \<lparr>st_tick = tick, st_state_hash = state_hash\<rparr>,
              a\<lparr>au_current_tick := tick, au_state := state\<rparr>))"

definition make_snapshot :: "AuthoritativeSimulation \<Rightarrow> ServerSnapshot" where
  "make_snapshot a = \<lparr>ss_game = au_state a, ss_players = au_players a\<rparr>"

definition restore_snapshot :: "ServerSnapshot \<Rightarrow> AuthoritativeSimulation \<Rightarrow> AuthoritativeSimulation" where
  "restore_snapshot snapshot a =
     a\<lparr>au_state := ss_game snapshot, au_current_tick := gs_tick (ss_game snapshot),
       au_rng := from_state_bytes (gs_rng_state (ss_game snapshot)),
       au_players := ss_players snapshot\<rparr>"

definition create_full_sync_packet :: "AuthoritativeSimulation \<Rightarrow> FullSyncPacket" where
  "create_full_sync_packet a =
     \<lparr>fs_tick = gs_tick (au_state a), fs_ecs_mirror = gs_ecs_mirror (au_state a),
      fs_rng_state = gs_rng_state (au_state a)\<rparr>"

section \<open>The simulation trait\<close>

definition auth_restore_rng :: "bytes \<Rightarrow> AuthoritativeSimulation \<Rightarrow> AuthoritativeSimulation" where
  "auth_restore_rng rng_state a =
     a\<lparr>au_rng := from_state_bytes rng_state, au_state := (au_state a)\<lparr>gs_rng_state := rng_state\<rparr>\<rparr>"

definition auth_step ::
  "(bytes \<Rightarrow> Blake3Hash) \<Rightarrow> input_map \<Rightarrow> AuthoritativeSimulation
     \<Rightarrow> (SimulationError + unit) \<times> AuthoritativeSimulation" where
  "auth_step blake3 inputs a =
     (case step_full blake3 inputs a of (r, a) \<Rightarrow> (bind_sum r (\<lambda>_. Inr ()), a))"

definition auth_compute_state_hash ::
  "(bytes \<Rightarrow> Blake3Hash) \<Rightarrow> AuthoritativeSimulation \<Rightarrow> Blake3Hash" where
  "auth_compute_state_hash blake3 a =
     compute_state_hash blake3 (em_entities (gs_ecs_mirror (au_state a)))
       (state_bytes (au_rng a)) (au_current_tick a)"

definition auth_sim ::
  "(bytes \<Rightarrow> Blake3Hash) \<Rightarrow> (AuthoritativeSimulation, SimulationError) DeterministicSimulation" where
  "auth_sim blake3 =
     \<lparr>ds_restore_rng = auth_restore_rng, ds_step = auth_step blake3,
      ds_compute_state_hash = auth_compute_state_hash blake3, ds_display = display_simulation_error\<rparr>"

section \<open>Invariant\<close>

definition auth_ok :: "AuthoritativeSimulation \<Rightarrow> bool" where
  "auth_ok a \<longleftrightarrow> gs_tick (au_state a) = au_current_tick a
     \<and> gs_rng_state (au_state a) = state_bytes (au_rng a) \<and> bm_wf (au_players a)"

lemma auth_ok_new: "auth_ok (auth_new sid st seed)"
  by (simp add: auth_ok_def auth_new_def Let_def)

lemma auth_ok_add: "auth_ok a \<Longrightarrow> auth_ok (add_player e a)"
  and auth_ok_remove: "auth_ok a \<Longrightarrow> auth_ok (remove_player e a)"
  by (auto simp: auth_ok_def add_player_def remove_player_def)

lemma auth_ok_step_full: "auth_ok a \<Longrightarrow> auth_ok (snd (step_full h inputs a))"
  by (simp add: auth_ok_def step_full_def Let_def split: option.split)

lemma auth_ok_restore_rng:
  "auth_ok a \<Longrightarrow> length bs = 16 \<Longrightarrow> auth_ok (auth_restore_rng bs a)"
  by (simp add: auth_ok_def auth_restore_rng_def state_bytes_from_state_bytes)

lemma auth_ok_restore_snapshot:
  "length (gs_rng_state (ss_game sn)) = 16 \<Longrightarrow> bm_wf (ss_players sn) \<Longrightarrow> auth_ok (restore_snapshot sn a)"
  by (simp add: auth_ok_def restore_snapshot_def state_bytes_from_state_bytes)

lemmas auth_ok_intros [inv_intros] =
  auth_ok_new auth_ok_add auth_ok_remove auth_ok_step_full auth_ok_restore_rng auth_ok_restore_snapshot

interpretation auth: replayable_simulation "auth_sim h" "\<lambda>a. state_bytes (au_rng a)" auth_ok
  for h
proof unfold_locales
  show "auth_ok s \<Longrightarrow> ds_restore_rng (auth_sim h) (state_bytes (au_rng s)) s = s" for s
    by (simp add: auth_sim_def auth_restore_rng_def auth_ok_def)
next
  fix s m s'
  assume "auth_ok s" and step: "ds_step (auth_sim h) m s = (Inr (), s')"
  then have "s' = snd (step_full h m s)"
    by (auto simp: auth_sim_def auth_step_def split: prod.splits)
  with \<open>auth_ok s\<close> show "auth_ok s'" by (simp add: auth_ok_step_full)
qed

section \<open>Properties\<close>

text \<open>A server step is atomic and exact. It fails exactly when some input is for another tick, then
  reports the first such input in player order and changes nothing; otherwise the tick advances by
  one, the mirror's frame number follows, entities, players and generator are untouched, and the
  returned hash is the one the trait computes for the new state.\<close>

lemma step_full_exact:
  "case step_full h inputs a of
     (Inl e, a') \<Rightarrow> a' = a \<and> (\<exists>pre i post. concat (map snd inputs) = pre @ i # post
        \<and> (\<forall>j \<in> set pre. pi_tick j = au_current_tick a) \<and> pi_tick i \<noteq> au_current_tick a
        \<and> e = TickMismatch (au_current_tick a) (pi_tick i))
   | (Inr r, a') \<Rightarrow>
        (\<forall>is \<in> snd ` set inputs. \<forall>i \<in> set is. pi_tick i = au_current_tick a)
      \<and> st_tick r = au_current_tick a + 1 \<and> st_state_hash r = auth_compute_state_hash h a'
      \<and> a' = a\<lparr>au_current_tick := st_tick r, au_state := (au_state a)\<lparr>gs_tick := st_tick r,
          gs_ecs_mirror := (gs_ecs_mirror (au_state a))\<lparr>em_frame_number := st_tick r\<rparr>,
          gs_rng_state := state_bytes (au_rng a)\<rparr>\<rparr>"
proof (cases "List.find (\<lambda>i. pi_tick i \<noteq> au_current_tick a) (concat (map snd inputs))")
  case None
  then have "\<forall>is \<in> snd ` set inputs. \<forall>i \<in> set is. pi_tick i = au_current_tick a"
    by (auto simp: find_None_all)
  then show ?thesis
    unfolding step_full_def Let_def None by (simp add: auth_compute_state_hash_def)
next
  case (Some i)
  then obtain k where "k < length (concat (map snd inputs))" "concat (map snd inputs) ! k = i"
    "pi_tick i \<noteq> au_current_tick a" "\<forall>j < k. pi_tick (concat (map snd inputs) ! j) = au_current_tick a"
    by (auto simp: find_Some_iff)
  then have "concat (map snd inputs) = take k (concat (map snd inputs)) @ i # drop (Suc k) (concat (map snd inputs))
    \<and> (\<forall>j \<in> set (take k (concat (map snd inputs))). pi_tick j = au_current_tick a)"
    by (auto simp: in_set_conv_nth id_take_nth_drop)
  with \<open>pi_tick i \<noteq> _\<close> show ?thesis unfolding step_full_def Some by auto
qed

lemma step_full_exact_example:
  "step_full (\<lambda>b. b) [(EntityId 1, [\<lparr>pi_player_id = EntityId 1, pi_input_type = 0, pi_data = DUnit, pi_tick = 3\<rparr>])]
     (auth_new 5 (blank_snapshot 7) 42) = (Inl (TickMismatch 7 3), auth_new 5 (blank_snapshot 7) 42)"
    (is "?s = (_, ?a)")
proof -
  obtain r a' where s: "?s = (r, a')" by (cases ?s)
  have tick: "au_current_tick ?a = 7"
    by (simp add: auth_new_def Let_def blank_snapshot_def)
  show ?thesis
    using step_full_exact [where h = "\<lambda>b. b" and a = ?a and inputs = "[(EntityId 1, [\<lparr>pi_player_id = EntityId 1, pi_input_type = 0, pi_data = DUnit, pi_tick = 3\<rparr>])]"]
    unfolding s by (cases r) (auto simp: tick Cons_eq_append_conv)
qed

text \<open>Rolling back is exact. From any state the simulation can be in, restoring a snapshot taken
  earlier into the same session, whatever happened in between, gives back that earlier state in
  full, generator and players included.\<close>

lemma restore_snapshot_roundtrip:
  assumes "auth_ok a" and "au_session_id b = au_session_id a"
  shows "restore_snapshot (make_snapshot a) b = a"
  using assms by (simp add: restore_snapshot_def make_snapshot_def auth_ok_def)

lemma restore_snapshot_roundtrip_example:
  "restore_snapshot (make_snapshot (auth_new 5 (blank_snapshot 7) 42))
     (add_player (EntityId 1) (auth_new 5 (blank_snapshot 3) 1)) = auth_new 5 (blank_snapshot 7) 42"
  by (rule restore_snapshot_roundtrip) (rule auth_ok_new, simp add: add_player_def auth_new_def Let_def)

text \<open>C6: Recordings of the authoritative simulation replay. If the frames were recorded while a
  simulation ran from a valid state, with the generator state before each step and the hash after it,
  then replaying them from that state verifies every frame and ends in the recorded run's final
  state.\<close>

theorem recorded_session_replays:
  assumes "auth_ok a"
    and "recording (auth_sim h) (\<lambda>a. state_bytes (au_rng a)) a (rp_frames (pl_replay p)) a'"
  shows "fst (run_full (auth_sim h) p a) = ReplayOk (length (rp_frames (pl_replay p)))
    \<and> snd (snd (run_full (auth_sim h) p a)) = a'"
  using assms by (intro auth.recording_replays)

definition one_frame :: "(bytes \<Rightarrow> Blake3Hash) \<Rightarrow> ReplayPlayer" where
  "one_frame h =
     (let a = auth_new 5 (blank_snapshot 7) 42
      in player_new \<lparr>rp_version = REPLAY_FORMAT_VERSION, rp_session_id = 5, rp_seed = 42, rp_player_count = 1,
           rp_frames = [\<lparr>rf_tick = 8, rf_inputs = [], rf_rng_state = state_bytes (au_rng a),
             rf_state_hash = auth_compute_state_hash h (snd (step_full h [] a))\<rparr>]\<rparr> Validation)"

theorem recorded_session_replays_witness:
  "fst (run_full (auth_sim (\<lambda>b. b)) (one_frame (\<lambda>b. b)) (auth_new 5 (blank_snapshot 7) 42)) = ReplayOk 1"
proof -
  let ?a = "auth_new 5 (blank_snapshot 7) 42"
  have "recording (auth_sim (\<lambda>b. b)) (\<lambda>a. state_bytes (au_rng a)) ?a (rp_frames (pl_replay (one_frame (\<lambda>b. b))))
      (snd (step_full (\<lambda>b. b) [] ?a))"
    by (auto simp: one_frame_def player_new_def Let_def auth_sim_def auth_step_def inputs_to_map_def
        step_full_def intro!: recording.intros)
  from recorded_session_replays [OF auth_ok_new this]
  show ?thesis by (simp add: one_frame_def player_new_def Let_def)
qed

end
