(* ===== verification/Anti_Cheat.thy ===== *)
theory Anti_Cheat
  imports Replay
begin

text \<open>
  The server's cheat detection: the per-client hash checker and the replay sampler
  (\<^verbatim>\<open>server/validator\<close>) and the escalation rules on shadow results (\<^verbatim>\<open>server/anti_cheat\<close>). The
  lemmas describe each decision by the history of reports, independent of the counters that
  implement it. Counters keep their 32-bit width; a \<open>BTreeSet\<close> is a set.
\<close>

section \<open>Hash checker\<close>

datatype HashCheckResult =
    CheckMatch
  | CheckMismatch u64 Blake3Hash Blake3Hash
  | SuspiciousUpgrade EntityId u32 Blake3Hash Blake3Hash

record HashChecker =
  hc_mismatch_counts :: "(EntityId, u32) btree"
  hc_suspicious_clients :: "EntityId set"
  hc_pass_count :: u64
  hc_fail_count :: u64
  hc_suspicious_threshold :: u32

definition checker_with_threshold :: "u32 \<Rightarrow> HashChecker" where
  "checker_with_threshold suspicious_threshold =
     \<lparr>hc_mismatch_counts = [], hc_suspicious_clients = {}, hc_pass_count = 0, hc_fail_count = 0,
      hc_suspicious_threshold = suspicious_threshold\<rparr>"

definition checker_new :: HashChecker where
  "checker_new = checker_with_threshold 3"

definition or_zero :: "'a::zero option \<Rightarrow> 'a" where
  "or_zero x = (case x of None \<Rightarrow> 0 | Some v \<Rightarrow> v)"

definition hc_check ::
  "EntityId \<Rightarrow> Blake3Hash \<Rightarrow> Blake3Hash \<Rightarrow> u64 \<Rightarrow> HashChecker \<Rightarrow> HashCheckResult \<times> HashChecker" where
  "hc_check client_id reported_hash authoritative_hash tick c =
     (if reported_hash = authoritative_hash
      then (CheckMatch, c\<lparr>hc_pass_count := hc_pass_count c + 1\<rparr>)
      else let consecutive = or_zero (bm_get (hc_mismatch_counts c) client_id) + 1;
               c = c\<lparr>hc_fail_count := hc_fail_count c + 1,
                     hc_mismatch_counts := bm_insert client_id consecutive (hc_mismatch_counts c)\<rparr>
           in if consecutive = hc_suspicious_threshold c
              then (SuspiciousUpgrade client_id consecutive reported_hash authoritative_hash,
                    c\<lparr>hc_suspicious_clients := insert client_id (hc_suspicious_clients c)\<rparr>)
              else (CheckMismatch tick reported_hash authoritative_hash, c))"

definition reset_client :: "EntityId \<Rightarrow> HashChecker \<Rightarrow> HashChecker" where
  "reset_client client_id c =
     c\<lparr>hc_mismatch_counts := bm_remove client_id (hc_mismatch_counts c),
       hc_suspicious_clients := hc_suspicious_clients c - {client_id}\<rparr>"

definition is_suspicious :: "EntityId \<Rightarrow> HashChecker \<Rightarrow> bool" where
  "is_suspicious client_id c \<longleftrightarrow> client_id \<in> hc_suspicious_clients c"

text \<open>Histories of reports and resets.\<close>

datatype check_event = Report EntityId Blake3Hash Blake3Hash u64 | ResetClient EntityId

fun check_apply :: "check_event \<Rightarrow> HashChecker \<Rightarrow> HashChecker" where
  "check_apply (Report i r a t) c = snd (hc_check i r a t c)"
| "check_apply (ResetClient i) c = reset_client i c"

fun mismatches_of :: "EntityId \<Rightarrow> check_event list \<Rightarrow> nat" where
  "mismatches_of i [] = 0"
| "mismatches_of i (Report j r a t # older) =
     mismatches_of i older + (if i = j \<and> r \<noteq> a then 1 else 0)"
| "mismatches_of i (ResetClient j # older) = (if i = j then 0 else mismatches_of i older)"

lemma mismatches_of_le: "mismatches_of i es \<le> length es"
  by (induction i es rule: mismatches_of.induct) auto

lemma unat_or_zero_Suc:
  "unat (or_zero x) = n \<Longrightarrow> Suc n < 2 ^ LENGTH('a) \<Longrightarrow> unat (or_zero x + 1) = Suc n"
  for x :: "'a::len word option"
  by (subst unat_plus_1) (auto simp: unsigned_minus_1_eq_mask mask_eq_exp_minus_1)

lemma checker_history:
  fixes es :: "check_event list" and th :: u32
  assumes "length es < 2 ^ 32 - 1"
  defines "c \<equiv> fold check_apply es (checker_with_threshold th)"
  shows "hc_suspicious_threshold c = th
    \<and> unat (or_zero (bm_get (hc_mismatch_counts c) i)) = mismatches_of i (rev es)
    \<and> (is_suspicious i c \<longleftrightarrow> 0 < unat th \<and> unat th \<le> mismatches_of i (rev es))"
  using assms(1) unfolding c_def
proof (induction es arbitrary: i rule: rev_induct)
  case Nil
  then show ?case by (auto simp: checker_with_threshold_def is_suspicious_def or_zero_def)
next
  case (snoc e es)
  let ?c = "fold check_apply es (checker_with_threshold th)"
  have len: "length es < 2 ^ 32 - 1" using snoc.prems by simp
  note IH = snoc.IH [OF len]
  show ?case
  proof (cases e)
    case (ResetClient j)
    then show ?thesis
      using IH [of i] by (auto simp: reset_client_def is_suspicious_def bm_get_remove or_zero_def)
  next
    case (Report j r a t)
    have "Suc (mismatches_of j (rev es)) < 2 ^ 32"
      using mismatches_of_le [of j "rev es"] snoc.prems by simp
    then have n: "unat (or_zero (bm_get (hc_mismatch_counts ?c) j) + 1) = Suc (mismatches_of j (rev es))"
      using IH [of j] by (intro unat_or_zero_Suc) auto
    have eq: "or_zero (bm_get (hc_mismatch_counts ?c) j) + 1 = th \<longleftrightarrow> Suc (mismatches_of j (rev es)) = unat th"
      using n by (metis word_unat_eq_iff)
    show ?thesis
    proof (cases "r = a")
      case True
      then show ?thesis using IH [of i] Report by (simp add: hc_check_def is_suspicious_def)
    next
      case False
      then show ?thesis
        using IH [of i] IH [of j] n eq Report
        by (auto simp: hc_check_def is_suspicious_def Let_def bm_get_insert or_zero_def [of "Some _"])
    qed
  qed
qed

text \<open>The server flags a client exactly by its record: after any history of reports and resets, a
  client is suspicious if and only if escalation is enabled (threshold above zero) and the client has
  mismatched at least threshold times since its last reset; matches in between do not clear it, and
  other clients' reports do not matter. The upgrade itself is reported once, on the report that
  reaches the threshold.\<close>

lemma suspicious_by_history:
  assumes "length es < 2 ^ 32 - 1"
  shows "let c = fold check_apply es (checker_with_threshold th) in
    (is_suspicious i c \<longleftrightarrow> 0 < unat th \<and> unat th \<le> mismatches_of i (rev es))
    \<and> (fst (hc_check i r a t c) =
        (if r = a then CheckMatch
         else if Suc (mismatches_of i (rev es)) = unat th
         then SuspiciousUpgrade i th r a else CheckMismatch t r a))"
proof -
  let ?c = "fold check_apply es (checker_with_threshold th)"
  have hist: "hc_suspicious_threshold ?c = th"
    "unat (or_zero (bm_get (hc_mismatch_counts ?c) i)) = mismatches_of i (rev es)"
    using checker_history [OF assms, of th i] by simp_all
  have "Suc (mismatches_of i (rev es)) < 2 ^ 32"
    using mismatches_of_le [of i "rev es"] assms by simp
  then have "unat (or_zero (bm_get (hc_mismatch_counts ?c) i) + 1) = Suc (mismatches_of i (rev es))"
    using hist(2) by (intro unat_or_zero_Suc) auto
  then have "or_zero (bm_get (hc_mismatch_counts ?c) i) + 1 = th \<longleftrightarrow> Suc (mismatches_of i (rev es)) = unat th"
    by (metis word_unat_eq_iff)
  with hist checker_history [OF assms, of th i] show ?thesis
    by (auto simp: hc_check_def Let_def)
qed

lemma suspicious_by_history_example:
  "let c = fold check_apply [Report (EntityId 1) [1] [2] 4, Report (EntityId 1) [2] [2] 5,
       Report (EntityId 1) [3] [4] 6] (checker_with_threshold 2)
   in is_suspicious (EntityId 1) c"
  using suspicious_by_history [where th = 2 and i = "EntityId 1" and es = "[Report (EntityId 1) [1] [2] 4,
     Report (EntityId 1) [2] [2] 5, Report (EntityId 1) [3] [4] 6]"]
  by (simp add: Let_def)

section \<open>Replay sampler\<close>

record ReplaySampler =
  sm_rng :: DeterministicRng
  sm_full_validation_sessions :: "u64 set"
  sm_sample_rate :: u32

definition sampler_new :: "u64 \<Rightarrow> u32 \<Rightarrow> ReplaySampler" where
  "sampler_new seed sample_rate =
     \<lparr>sm_rng = seed_from_u64 seed, sm_full_validation_sessions = {}, sm_sample_rate = sample_rate\<rparr>"

definition should_validate :: "u64 \<Rightarrow> ReplaySampler \<Rightarrow> bool \<times> ReplaySampler" where
  "should_validate session_id s =
     (let (roll, rng) = next_u32 (sm_rng s); s = s\<lparr>sm_rng := rng\<rparr>
      in if session_id \<in> sm_full_validation_sessions s then (True, s)
         else if sm_sample_rate s = 0 then (False, s)
         else (roll mod sm_sample_rate s = 0, s))"

definition upgrade_to_full_validation :: "u64 \<Rightarrow> ReplaySampler \<Rightarrow> ReplaySampler" where
  "upgrade_to_full_validation session_id s =
     s\<lparr>sm_full_validation_sessions := insert session_id (sm_full_validation_sessions s)\<rparr>"

definition validate_replay ::
  "ReplayFile \<Rightarrow> ('s, 'e) DeterministicSimulation \<Rightarrow> 's \<Rightarrow> ReplayValidationResult \<times> 's" where
  "validate_replay replay sim s =
     (case run_full sim (player_new replay Validation) s of (r, _, s') \<Rightarrow> (r, s'))"

fun sample_all :: "u64 list \<Rightarrow> ReplaySampler \<Rightarrow> bool list" where
  "sample_all [] s = []"
| "sample_all (q # qs) s = fst (should_validate q s) # sample_all qs (snd (should_validate q s))"

lemma should_validate_eq:
  "should_validate q s =
     (q \<in> sm_full_validation_sessions s
        \<or> sm_sample_rate s \<noteq> 0 \<and> fst (next_u32 (sm_rng s)) mod sm_sample_rate s = 0,
      s\<lparr>sm_rng := snd (next_u32 (sm_rng s))\<rparr>)"
  by (auto simp: should_validate_def Let_def split: prod.split)

lemma sample_all_upgrade:
  "sample_all qs (upgrade_to_full_validation x s)
     = map2 (\<lambda>q d. q = x \<or> d) qs (sample_all qs s)"
proof (induction qs arbitrary: s)
  case (Cons q qs)
  have "snd (should_validate q (upgrade_to_full_validation x s))
      = upgrade_to_full_validation x (snd (should_validate q s))"
    by (simp add: should_validate_eq upgrade_to_full_validation_def)
  moreover have "fst (should_validate q (upgrade_to_full_validation x s))
      = (q = x \<or> fst (should_validate q s))"
    by (auto simp: should_validate_eq upgrade_to_full_validation_def)
  ultimately show ?case by (simp add: Cons)
qed simp

text \<open>Upgrading a session to full validation changes that session's answers to ``yes'' and nothing
  else: over any sequence of queries, the sampler gives every other session the answer it would have
  given without the upgrade, because the generator is consumed once per query in either case.\<close>

lemma upgrade_only_affects_session:
  "sample_all qs (upgrade_to_full_validation x s)
     = map2 (\<lambda>q d. q = x \<or> d) qs (sample_all qs s)"
  by (simp add: sample_all_upgrade)

section \<open>Escalation on shadow results\<close>

datatype CheatStatus = Clean | Warned | Flagged | CheatDisconnected

datatype CheatAction =
    NoAction
  | Resync
  | Flag string
  | DisconnectPlayer string

record PlayerCheatRecord =
  cr_mismatch_count :: u32
  cr_last_mismatch_tick :: u64
  cr_status :: CheatStatus

type_synonym CheatDetector = "(u64, PlayerCheatRecord) btree"

definition total_reason :: "nat \<Rightarrow> string" where
  "total_reason count =
     utf8 [0xE7, 0xB4, 0xAF, 0xE8, 0xA8, 0x88, 0x20] @ decimal count @ utf8 [0x20, 0xE6, 0xAC, 0xA1] @ '' mismatch''"

definition on_shadow_result :: "u64 \<Rightarrow> ShadowResponse \<Rightarrow> CheatDetector \<Rightarrow> CheatAction \<times> CheatDetector" where
  "on_shadow_result session_id result d =
     (case sr_status result of
        Mismatch tick _ _ \<Rightarrow>
          let record = (case bm_get d session_id of Some r \<Rightarrow> r
                        | None \<Rightarrow> \<lparr>cr_mismatch_count = 0, cr_last_mismatch_tick = 0, cr_status = Clean\<rparr>);
              record = record\<lparr>cr_mismatch_count := cr_mismatch_count record + 1,
                              cr_last_mismatch_tick := tick\<rparr>;
              count = cr_mismatch_count record
          in if count \<ge> 6
             then (DisconnectPlayer (total_reason (unat count)
                     @ utf8 [0xEF, 0xBC, 0x8C, 0xE8, 0xB6, 0x85, 0xE9, 0x81, 0x8E, 0xE9, 0x96, 0xBE, 0xE5, 0x80, 0xBC]),
                   bm_insert session_id (record\<lparr>cr_status := CheatDisconnected\<rparr>) d)
             else if count \<ge> 3
             then (Flag (total_reason (unat count)), bm_insert session_id (record\<lparr>cr_status := Flagged\<rparr>) d)
             else if count = 2
             then (Resync, bm_insert session_id (record\<lparr>cr_status := Warned\<rparr>) d)
             else (NoAction, bm_insert session_id record d)
      | AllMatch \<Rightarrow> (NoAction, d)
      | Error _ \<Rightarrow> (NoAction, d))"

definition cheat_mismatch_count :: "u64 \<Rightarrow> CheatDetector \<Rightarrow> u32" where
  "cheat_mismatch_count session_id d =
     (case bm_get d session_id of None \<Rightarrow> 0 | Some r \<Rightarrow> cr_mismatch_count r)"

definition remove_session :: "u64 \<Rightarrow> CheatDetector \<Rightarrow> CheatDetector" where
  "remove_session session_id d = bm_remove session_id d"

definition is_mismatch :: "ShadowResponse \<Rightarrow> bool" where
  "is_mismatch r \<longleftrightarrow> (case sr_status r of Mismatch _ _ _ \<Rightarrow> True | _ \<Rightarrow> False)"

definition shadow_results :: "(u64 \<times> ShadowResponse) list \<Rightarrow> CheatDetector" where
  "shadow_results rs = fold (\<lambda>(s, r) d. snd (on_shadow_result s r d)) rs []"

lemma cheat_count_step:
  "cheat_mismatch_count s (snd (on_shadow_result s' r d)) =
     cheat_mismatch_count s d + (if s = s' \<and> is_mismatch r then 1 else 0)"
  by (auto simp: on_shadow_result_def cheat_mismatch_count_def is_mismatch_def Let_def bm_get_insert
      split: ShadowStatus.split option.split)

lemma cheat_count_history:
  "cheat_mismatch_count s (shadow_results rs)
     = of_nat (length (filter (\<lambda>(s', r). s' = s \<and> is_mismatch r) rs))"
proof (induction rs rule: rev_induct)
  case (snoc x rs)
  then show ?case
    by (cases x) (auto simp: shadow_results_def cheat_count_step)
qed (simp add: shadow_results_def cheat_mismatch_count_def)

lemma on_shadow_result_action:
  "fst (on_shadow_result s r d) =
     (if is_mismatch r then
        (let count = cheat_mismatch_count s d + 1 in
         if count \<ge> 6 then DisconnectPlayer (total_reason (unat count) @ utf8 [0xEF, 0xBC, 0x8C, 0xE8, 0xB6, 0x85, 0xE9, 0x81, 0x8E, 0xE9, 0x96, 0xBE, 0xE5, 0x80, 0xBC])
         else if count \<ge> 3 then Flag (total_reason (unat count))
         else if count = 2 then Resync else NoAction)
      else NoAction)"
  by (auto simp: on_shadow_result_def cheat_mismatch_count_def is_mismatch_def Let_def
      split: ShadowStatus.split option.split)

text \<open>The escalation table. The answer to a shadow result depends only on how many mismatches the
  session has had, this one included: the first is only recorded, the second asks for a resync, the
  third to fifth flag the account, from the sixth on the player is disconnected. Matches, worker
  errors and other sessions never count.\<close>

lemma escalation_by_count:
  fixes rs :: "(u64 \<times> ShadowResponse) list" and s :: u64
  assumes "length rs < 2 ^ 32 - 1"
  defines "n \<equiv> Suc (length (filter (\<lambda>(s', r). s' = s \<and> is_mismatch r) rs))"
  shows "case fst (on_shadow_result s r (shadow_results rs)) of
      NoAction \<Rightarrow> \<not> is_mismatch r \<or> n = 1
    | Resync \<Rightarrow> is_mismatch r \<and> n = 2
    | Flag reason \<Rightarrow> is_mismatch r \<and> 3 \<le> n \<and> n \<le> 5 \<and> reason = total_reason n
    | DisconnectPlayer reason \<Rightarrow> is_mismatch r \<and> 6 \<le> n"
proof -
  let ?w = "cheat_mismatch_count s (shadow_results rs) + 1"
  have "n < 2 ^ 32"
    using assms(1) length_filter_le [of "\<lambda>(s', r). s' = s \<and> is_mismatch r" rs] unfolding n_def by linarith
  moreover have w: "?w = of_nat n" by (simp add: cheat_count_history n_def)
  ultimately have u: "unat ?w = n" by (simp only: w unat_of_nat) simp
  have "?w = 2 \<longleftrightarrow> unat ?w = unat (2 :: u32)" by (simp only: word_unat_eq_iff)
  with u have c: "?w \<ge> 6 \<longleftrightarrow> n \<ge> 6" "?w \<ge> 3 \<longleftrightarrow> n \<ge> 3" "?w = 2 \<longleftrightarrow> n = 2"
    by (simp_all add: word_le_nat_alt)
  have "n \<ge> 1" by (simp add: n_def)
  with c u show ?thesis by (auto simp: on_shadow_result_action Let_def)
qed

lemma escalation_by_count_example:
  "fst (on_shadow_result 7 \<lparr>sr_status = Mismatch 9 [1] [2], sr_checked_ticks = [9]\<rparr>
     (shadow_results [(7, \<lparr>sr_status = Mismatch 8 [1] [2], sr_checked_ticks = [8]\<rparr>)])) = Resync"
  using escalation_by_count [where s = 7 and r = "\<lparr>sr_status = Mismatch 9 [1] [2], sr_checked_ticks = [9]\<rparr>"
      and rs = "[(7, \<lparr>sr_status = Mismatch 8 [1] [2], sr_checked_ticks = [8]\<rparr>)]"]
  by (simp add: is_mismatch_def split: CheatAction.splits)

end
