(* ===== verification/Shadow_VM.thy ===== *)
theory Shadow_VM
  imports State_Hash Fifo_Window Machines
begin

text \<open>
  The shadow VM (\<^verbatim>\<open>engine/shadow_vm\<close>): the sampling scheduler, the trace window, back pressure and
  cleanup counters, the worker's lifecycle, and the worker itself, which replays frames with a script
  and compares hashes. The script engine (rhai), the serialiser and blake3 are parameters.
\<close>

section \<open>Messages and errors\<close>

record ShadowRequest = sq_frames :: "ShadowFrame list"

record ShadowInit =
  si_bytecode :: bytes
  si_bytecode_hash :: Blake3Hash

datatype ShadowCommand = Init ShadowInit | Validate ShadowRequest | Cleanup

datatype ShadowVmError =
    BytecodeLoadFailed string
  | EngineInitFailed string
  | RngStateInvalid nat nat
  | ReplayTimeout u64 u64
  | ScriptError u64 string
  | ShadowDeserializationFailed string
  | ShadowSerializationFailed string
  | CommunicationFailed string
  | QueueFull
  | TooManyRestarts

fun display_shadow_error :: "ShadowVmError \<Rightarrow> string" where
  "display_shadow_error (BytecodeLoadFailed msg) = ''Bytecode '' @ utf8 [0xE8, 0xBC, 0x89, 0xE5, 0x85, 0xA5, 0xE5, 0xA4, 0xB1, 0xE6, 0x95, 0x97, 0xEF, 0xBC, 0x9A] @ msg"
| "display_shadow_error (EngineInitFailed msg) = ''Rhai Engine '' @ utf8 [0xE5, 0x88, 0x9D, 0xE5, 0xA7, 0x8B, 0xE5, 0x8C, 0x96, 0xE5, 0xA4, 0xB1, 0xE6, 0x95, 0x97, 0xEF, 0xBC, 0x9A] @ msg"
| "display_shadow_error (RngStateInvalid expected_len actual_len) =
     ''RNG state '' @ utf8 [0xE9, 0x95, 0xB7, 0xE5, 0xBA, 0xA6, 0xE7, 0x84, 0xA1, 0xE6, 0x95, 0x88, 0xEF, 0xBC, 0x9A, 0xE9, 0xA0, 0x90, 0xE6, 0x9C, 0x9F] @ '' '' @ decimal expected_len
     @ '' bytes'' @ utf8 [0xEF, 0xBC, 0x8C, 0xE5, 0xAF, 0xA6, 0xE9, 0x9A, 0x9B] @ '' '' @ decimal actual_len @ '' bytes''"
| "display_shadow_error (ReplayTimeout tick elapsed_ms) =
     ''Tick '' @ decimal (unat tick) @ '' '' @ utf8 [0xE9, 0x87, 0x8D, 0xE6, 0x92, 0xAD, 0xE8, 0xB6, 0x85, 0xE6, 0x99, 0x82, 0xEF, 0xBC, 0x9A] @ decimal (unat elapsed_ms) @ ''ms''"
| "display_shadow_error (ScriptError tick detail) =
     ''Tick '' @ decimal (unat tick) @ '' Script '' @ utf8 [0xE5, 0x9F, 0xB7, 0xE8, 0xA1, 0x8C, 0xE9, 0x8C, 0xAF, 0xE8, 0xAA, 0xA4, 0xEF, 0xBC, 0x9A] @ detail"
| "display_shadow_error (ShadowDeserializationFailed msg) = utf8 [0xE5, 0x8F, 0x8D, 0xE5, 0xBA, 0x8F, 0xE5, 0x88, 0x97, 0xE5, 0x8C, 0x96, 0xE5, 0xA4, 0xB1, 0xE6, 0x95, 0x97, 0xEF, 0xBC, 0x9A] @ msg"
| "display_shadow_error (ShadowSerializationFailed msg) = utf8 [0xE5, 0xBA, 0x8F, 0xE5, 0x88, 0x97, 0xE5, 0x8C, 0x96, 0xE5, 0xA4, 0xB1, 0xE6, 0x95, 0x97, 0xEF, 0xBC, 0x9A] @ msg"
| "display_shadow_error (CommunicationFailed msg) = utf8 [0xE9, 0x80, 0x9A, 0xE8, 0xA8, 0x8A, 0xE5, 0xA4, 0xB1, 0xE6, 0x95, 0x97, 0xEF, 0xBC, 0x9A] @ msg"
| "display_shadow_error QueueFull = ''Shadow VM '' @ utf8 [0xE5, 0x8F, 0x8D, 0xE5, 0xA3, 0x93, 0xE4, 0xBD, 0x87, 0xE5, 0x88, 0x97, 0xE5, 0xB7, 0xB2, 0xE6, 0xBB, 0xBF]"
| "display_shadow_error TooManyRestarts = ''Worker '' @ utf8 [0xE9, 0x87, 0x8D, 0xE5, 0x95, 0x9F, 0xE6, 0xAC, 0xA1, 0xE6, 0x95, 0xB8, 0xE8, 0xB6, 0x85, 0xE9, 0x81, 0x8E, 0xE9, 0x80, 0x9F, 0xE7, 0x8E, 0x87, 0xE9, 0x99, 0x90, 0xE5, 0x88, 0xB6]"

section \<open>Back pressure and cleanup\<close>

definition MAX_PENDING_REQUESTS :: nat where "MAX_PENDING_REQUESTS = 4"

record ShadowRequestQueue = qu_pending_count :: nat

definition queue_new :: ShadowRequestQueue where "queue_new = \<lparr>qu_pending_count = 0\<rparr>"

definition try_send :: "ShadowRequestQueue \<Rightarrow> (ShadowVmError + unit) \<times> ShadowRequestQueue" where
  "try_send q =
     (if qu_pending_count q \<ge> MAX_PENDING_REQUESTS then (Inl QueueFull, q)
      else (Inr (), q\<lparr>qu_pending_count := qu_pending_count q + 1\<rparr>))"

definition on_response_received :: "ShadowRequestQueue \<Rightarrow> ShadowRequestQueue" where
  "on_response_received q = q\<lparr>qu_pending_count := qu_pending_count q - 1\<rparr>"

definition queue_reset :: "ShadowRequestQueue \<Rightarrow> ShadowRequestQueue" where
  "queue_reset q = q\<lparr>qu_pending_count := 0\<rparr>"

datatype queue_event = Send | Response | QueueReset

fun queue_step :: "queue_event \<Rightarrow> ShadowRequestQueue \<Rightarrow> ShadowRequestQueue" where
  "queue_step Send q = snd (try_send q)"
| "queue_step Response q = on_response_received q"
| "queue_step QueueReset q = queue_reset q"

interpretation pending: event_machine queue_step "\<lambda>q. qu_pending_count q \<le> MAX_PENDING_REQUESTS"
proof unfold_locales
  fix q :: ShadowRequestQueue and e
  assume "qu_pending_count q \<le> MAX_PENDING_REQUESTS"
  then show "qu_pending_count (queue_step e q) \<le> MAX_PENDING_REQUESTS"
    by (cases e) (auto simp: try_send_def on_response_received_def queue_reset_def)
qed

record CleanupScheduler =
  cl_validation_count :: u64
  cl_cleanup_interval :: u64

definition cleanup_new_with_interval :: "u64 \<Rightarrow> panic + CleanupScheduler" where
  "cleanup_new_with_interval interval =
     (if interval > 0 then Inr \<lparr>cl_validation_count = 0, cl_cleanup_interval = interval\<rparr> else Inl Panic)"

definition cleanup_new :: "panic + CleanupScheduler" where
  "cleanup_new = cleanup_new_with_interval 60"

definition on_validation_completed :: "CleanupScheduler \<Rightarrow> bool \<times> CleanupScheduler" where
  "on_validation_completed c =
     (let c = c\<lparr>cl_validation_count := cl_validation_count c + 1\<rparr>
      in if cl_validation_count c \<ge> cl_cleanup_interval c
         then (True, c\<lparr>cl_validation_count := 0\<rparr>) else (False, c))"

definition cleanup_reset :: "CleanupScheduler \<Rightarrow> CleanupScheduler" where
  "cleanup_reset c = c\<lparr>cl_validation_count := 0\<rparr>"

section \<open>Sampling\<close>

record SamplingScheduler =
  sp_rng :: DeterministicRng
  sp_next_sample_tick :: u64

definition next_interval :: "DeterministicRng \<Rightarrow> u64 \<times> DeterministicRng" where
  "next_interval rng = (case next_u32 rng of (r, rng) \<Rightarrow> (30 + ucast (r mod 31), rng))"

definition scheduler_new :: "u64 \<Rightarrow> SamplingScheduler" where
  "scheduler_new seed =
     (case next_interval (seed_from_u64 seed) of
        (next, rng) \<Rightarrow> \<lparr>sp_rng = rng, sp_next_sample_tick = next\<rparr>)"

definition should_sample :: "u64 \<Rightarrow> SamplingScheduler \<Rightarrow> bool \<times> SamplingScheduler" where
  "should_sample tick s =
     (if tick \<ge> sp_next_sample_tick s
      then case next_interval (sp_rng s) of
             (interval, rng) \<Rightarrow>
               (True, s\<lparr>sp_rng := rng, sp_next_sample_tick := saturating_add tick interval\<rparr>)
      else (False, s))"

lemma next_interval_bounds: "30 \<le> unat (fst (next_interval rng)) \<and> unat (fst (next_interval rng)) \<le> 60"
proof -
  have r: "unat (r mod 31) \<le> 30" for r :: u32
    using mod_less_divisor [of 31 "unat r"] by (simp add: unat_mod)
  have "unat (30 + ucast (r mod 31) :: u64) = 30 + unat (r mod 31)" for r :: u32
  proof -
    have "unat (ucast (r mod 31) :: u64) = unat (r mod 31)"
      using r [of r] by (simp add: unsigned_ucast_eq take_bit_nat_eq_self)
    then show ?thesis using r [of r] by (simp add: unat_word_ariths)
  qed
  then show ?thesis using r by (auto simp: next_interval_def split: prod.split)
qed

fun sample_run :: "u64 list \<Rightarrow> SamplingScheduler \<Rightarrow> bool list \<times> SamplingScheduler" where
  "sample_run [] s = ([], s)"
| "sample_run (t # ts) s =
     (case should_sample t s of (b, s) \<Rightarrow> (case sample_run ts s of (bs, s) \<Rightarrow> (b # bs, s)))"

lemma sample_run_Cons [simp]:
  "fst (sample_run (t # ts) s) = fst (should_sample t s) # fst (sample_run ts (snd (should_sample t s)))"
  "snd (sample_run (t # ts) s) = snd (sample_run ts (snd (should_sample t s)))"
  by (simp_all split: prod.split)

lemma should_sample_before: "t < sp_next_sample_tick s \<Longrightarrow> should_sample t s = (False, s)"
  by (auto simp: should_sample_def dest: leD)

lemma should_sample_due: "sp_next_sample_tick s \<le> t \<Longrightarrow> fst (should_sample t s)"
  by (simp add: should_sample_def split: prod.split)

lemma should_sample_fires:
  assumes "fst (should_sample t s)" "unat t + 60 < 2 ^ 64"
  shows "unat t + 30 \<le> unat (sp_next_sample_tick (snd (should_sample t s)))
    \<and> unat (sp_next_sample_tick (snd (should_sample t s))) \<le> unat t + 60"
  using assms next_interval_bounds [of "sp_rng s"]
  by (auto simp: should_sample_def unat_saturating_add split: prod.splits if_splits)

lemma sample_run_append:
  "fst (sample_run (ts @ us) s) = fst (sample_run ts s) @ fst (sample_run us (snd (sample_run ts s)))"
  by (induction ts arbitrary: s) (simp_all del: sample_run.simps(2))

lemma sample_run_quiet:
  "\<forall>t \<in> set ts. t < sp_next_sample_tick s \<Longrightarrow> sample_run ts s = (replicate (length ts) False, s)"
  by (induction ts) (simp_all add: should_sample_before)

text \<open>After the scheduler fires at a tick it stays quiet for the next 29 ticks, whatever is asked in
  between, and fires at the first query that lies 60 ticks or more later (as long as the tick counter
  is not within 60 of its maximum): the sampling interval is between 30 and 60 ticks.\<close>

lemma sampling_interval_bounds:
  assumes "fst (should_sample t s)" "unat t + 60 < 2 ^ 64"
    and "\<forall>u \<in> set ts. unat u < unat t + 30" and "unat t + 60 \<le> unat v"
  shows "fst (sample_run (ts @ [v]) (snd (should_sample t s))) = replicate (length ts) False @ [True]"
proof -
  let ?s = "snd (should_sample t s)"
  note b = should_sample_fires [OF assms(1,2)]
  have "\<forall>u \<in> set ts. u < sp_next_sample_tick ?s"
    using assms(3) b by (fastforce simp: word_less_nat_alt)
  moreover have "fst (should_sample v ?s)"
    using assms(4) b by (intro should_sample_due) (simp add: word_le_nat_alt)
  ultimately show ?thesis
    by (simp add: sample_run_append sample_run_quiet del: sample_run.simps(2))
qed

definition quiet_scheduler :: SamplingScheduler where
  "quiet_scheduler = \<lparr>sp_rng = seed_from_u64 1, sp_next_sample_tick = 10\<rparr>"

lemma sampling_interval_bounds_example:
  "fst (sample_run [11, 39, 70] (snd (should_sample 10 quiet_scheduler))) = [False, False, True]"
proof -
  have "fst (sample_run ([11, 39] @ [70]) (snd (should_sample 10 quiet_scheduler)))
      = replicate (length [11 :: u64, 39]) False @ [True]"
    by (rule sampling_interval_bounds) (simp_all add: quiet_scheduler_def should_sample_due)
  then show ?thesis by (simp add: numeral_2_eq_2 del: sample_run.simps(2))
qed

section \<open>Trace window\<close>

record TraceCollector =
  tc_window :: "ShadowFrame list"
  tc_window_size :: nat

definition collector_new :: "nat \<Rightarrow> TraceCollector" where
  "collector_new window_size = \<lparr>tc_window = [], tc_window_size = window_size\<rparr>"

definition trace_record :: "ShadowFrame \<Rightarrow> TraceCollector \<Rightarrow> TraceCollector" where
  "trace_record frame c =
     (let c = (if length (tc_window c) \<ge> tc_window_size c then c\<lparr>tc_window := tl (tc_window c)\<rparr> else c)
      in c\<lparr>tc_window := tc_window c @ [frame]\<rparr>)"

definition take_request :: "TraceCollector \<Rightarrow> ShadowRequest option" where
  "take_request c =
     (if length (tc_window c) \<ge> tc_window_size c then Some \<lparr>sq_frames = tc_window c\<rparr> else None)"

definition collector_clear :: "TraceCollector \<Rightarrow> TraceCollector" where
  "collector_clear c = c\<lparr>tc_window := []\<rparr>"

definition collector_ok :: "TraceCollector \<Rightarrow> bool" where
  "collector_ok c \<longleftrightarrow> 0 < tc_window_size c \<and> length (tc_window c) \<le> tc_window_size c"

interpretation trace: bounded_window tc_window tc_window_size trace_record collector_ok
  by unfold_locales (auto simp: collector_ok_def trace_record_def Let_def)

text \<open>What the main thread sends for validation: a request is available exactly when at least a full
  window of frames has been recorded since the window was last empty, and it then holds exactly the
  last window of recorded frames, oldest first.\<close>

lemma take_request_last_frames:
  assumes "0 < n"
  shows "take_request (fold trace_record fs (collector_new n)) =
    (if n \<le> length fs then Some \<lparr>sq_frames = last_n n fs\<rparr> else None)"
proof -
  have ok: "collector_ok (collector_new n)" using assms by (simp add: collector_ok_def collector_new_def)
  show ?thesis
    using trace.items_fold [OF ok, of fs] trace.cap_fold [of fs "collector_new n"]
    by (simp add: take_request_def collector_new_def)
qed

definition frame_at :: "u64 \<Rightarrow> ShadowFrame" where
  "frame_at t = \<lparr>sh_tick = t, sh_inputs = [], sh_rng_state = [], sh_ecs_mirror_hash = []\<rparr>"

lemma take_request_last_frames_example:
  "take_request (fold trace_record [(frame_at 1), (frame_at 2), (frame_at 3)] (collector_new 2)) = Some \<lparr>sq_frames = [(frame_at 2), (frame_at 3)]\<rparr>"
  using take_request_last_frames [of 2 "[(frame_at 1), (frame_at 2), (frame_at 3)]"] by (simp add: last_n_def)

section \<open>Replay and validation\<close>

text \<open>What the executor uses of the script engine: running a script once, compiling it, and calling
  \<open>on_tick\<close>. An error is its printed text.\<close>

record shadow_scope =
  sc_input_type :: u64
  sc_input_data_int :: u64
  sc_rng_state :: bytes
  sc_tick :: u64

record 'ast script_engine =
  eng_execute :: "string \<Rightarrow> string + unit"
  eng_compile :: "string \<Rightarrow> string + 'ast"
  eng_on_tick :: "'ast \<Rightarrow> shadow_scope \<Rightarrow> string + shadow_scope"

record 'ast ShadowExecutor =
  ex_engine :: "'ast script_engine"
  ex_ast :: 'ast

definition executor_new :: "'ast script_engine \<Rightarrow> string \<Rightarrow> ShadowVmError + 'ast ShadowExecutor" where
  "executor_new engine script =
     (case eng_execute engine script of
        Inl e \<Rightarrow> Inl (BytecodeLoadFailed e)
      | Inr _ \<Rightarrow>
          (case eng_compile engine script of
             Inl e \<Rightarrow> Inl (BytecodeLoadFailed e)
           | Inr ast \<Rightarrow> Inr \<lparr>ex_engine = engine, ex_ast = ast\<rparr>))"

definition frame_scope :: "ShadowFrame \<Rightarrow> shadow_scope" where
  "frame_scope frame =
     (let rng = from_state_bytes (sh_rng_state frame);
          input = (case sh_inputs frame of i # _ \<Rightarrow> i
                   | [] \<Rightarrow> \<lparr>pi_player_id = EntityId 0, pi_input_type = 0, pi_data = DInt 0,
                           pi_tick = sh_tick frame\<rparr>);
          input_data_int = (case pi_data input of DInt v \<Rightarrow> v | DBool True \<Rightarrow> 1 | _ \<Rightarrow> 0)
      in \<lparr>sc_input_type = pi_input_type input, sc_input_data_int = input_data_int,
          sc_rng_state = state_bytes rng, sc_tick = sh_tick frame\<rparr>)"

text \<open>The bits of \<open>1.0 / 60.0\<close> as an \<open>f32\<close>.\<close>

definition FIXED_DELTA_TIME_60HZ_F32 :: SoftF32 where
  "FIXED_DELTA_TIME_60HZ_F32 = SoftF32 0x3C888889"

definition extract_ecs_mirror_from_scope :: "shadow_scope \<Rightarrow> EcsMirror" where
  "extract_ecs_mirror_from_scope scope =
     \<lparr>em_entities = [], em_local_player_id = EntityId 0, em_frame_number = 0,
      em_delta_time = FIXED_DELTA_TIME_60HZ_F32\<rparr>"

fun replay_frames ::
  "(bytes \<Rightarrow> Blake3Hash) \<Rightarrow> 'ast ShadowExecutor \<Rightarrow> ShadowFrame list \<Rightarrow> ShadowVmError + Blake3Hash list" where
  "replay_frames blake3 ex [] = Inr []"
| "replay_frames blake3 ex (frame # frames) =
     (case eng_on_tick (ex_engine ex) (ex_ast ex) (frame_scope frame) of
        Inl e \<Rightarrow> Inl (ScriptError (sh_tick frame) e)
      | Inr scope \<Rightarrow>
          let actual_hash = compute_state_hash blake3 (em_entities (extract_ecs_mirror_from_scope scope))
                (sh_rng_state frame) (sh_tick frame)
          in (case replay_frames blake3 ex frames of
                Inl e \<Rightarrow> Inl e
              | Inr hashes \<Rightarrow> Inr (actual_hash # hashes)))"

fun compare_frames ::
  "(ShadowFrame \<times> Blake3Hash) list \<Rightarrow> u64 list \<Rightarrow> ShadowResponse" where
  "compare_frames [] checked_ticks = \<lparr>sr_status = AllMatch, sr_checked_ticks = checked_ticks\<rparr>"
| "compare_frames ((frame, actual_hash) # rest) checked_ticks =
     (let checked_ticks = checked_ticks @ [sh_tick frame]
      in if actual_hash \<noteq> sh_ecs_mirror_hash frame
         then \<lparr>sr_status = Mismatch (sh_tick frame) (sh_ecs_mirror_hash frame) actual_hash,
               sr_checked_ticks = checked_ticks\<rparr>
         else compare_frames rest checked_ticks)"

definition validate_sync ::
  "(bytes \<Rightarrow> Blake3Hash) \<Rightarrow> 'ast ShadowExecutor \<Rightarrow> ShadowRequest \<Rightarrow> ShadowVmError + ShadowResponse" where
  "validate_sync blake3 ex request =
     (case replay_frames blake3 ex (sq_frames request) of
        Inl e \<Rightarrow> Inl e
      | Inr hashes \<Rightarrow> Inr (compare_frames (zip (sq_frames request) hashes) []))"

definition shadow_hash :: "(bytes \<Rightarrow> Blake3Hash) \<Rightarrow> ShadowFrame \<Rightarrow> Blake3Hash" where
  "shadow_hash hash f = compute_state_hash hash [] (sh_rng_state f) (sh_tick f)"

definition script_runs :: "'ast ShadowExecutor \<Rightarrow> ShadowFrame \<Rightarrow> bool" where
  "script_runs ex f \<longleftrightarrow> (\<exists>s. eng_on_tick (ex_engine ex) (ex_ast ex) (frame_scope f) = Inr s)"

lemma replay_frames_ok:
  "\<forall>f \<in> set fs. script_runs ex f \<Longrightarrow> replay_frames hash ex fs = Inr (map (shadow_hash hash) fs)"
  by (induction fs) (auto simp: script_runs_def shadow_hash_def extract_ecs_mirror_from_scope_def Let_def)

lemma compare_frames_eq:
  "compare_frames (zip fs (map h fs)) ts =
     (case dropWhile (\<lambda>f. h f = sh_ecs_mirror_hash f) fs of
        [] \<Rightarrow> \<lparr>sr_status = AllMatch, sr_checked_ticks = ts @ map sh_tick fs\<rparr>
      | f # _ \<Rightarrow> \<lparr>sr_status = Mismatch (sh_tick f) (sh_ecs_mirror_hash f) (h f),
          sr_checked_ticks = ts @ map sh_tick (takeWhile (\<lambda>f. h f = sh_ecs_mirror_hash f) fs) @ [sh_tick f]\<rparr>)"
proof (induction fs arbitrary: ts)
  case (Cons f fs)
  show ?case
    by (cases "dropWhile (\<lambda>f. h f = sh_ecs_mirror_hash f) fs") (use Cons in \<open>simp_all add: Let_def del: dropWhile_eq_Nil_conv\<close>)
qed simp

text \<open>The verdict of the shadow VM, when the script runs on every frame: it is decided by each frame's
  tick, generator state and claimed hash alone. The request matches exactly when every claimed hash is
  the hash of a state without entities; otherwise the first frame that claims another hash is
  reported, with the ticks checked up to and including it. Neither the inputs nor what the script did
  enter the verdict.\<close>

lemma shadow_verdict:
  assumes "\<forall>f \<in> set (sq_frames req). script_runs ex f"
  shows "validate_sync hash ex req = Inr
    (case dropWhile (\<lambda>f. shadow_hash hash f = sh_ecs_mirror_hash f) (sq_frames req) of
       [] \<Rightarrow> \<lparr>sr_status = AllMatch, sr_checked_ticks = map sh_tick (sq_frames req)\<rparr>
     | f # _ \<Rightarrow> \<lparr>sr_status = Mismatch (sh_tick f) (sh_ecs_mirror_hash f) (shadow_hash hash f),
         sr_checked_ticks = map sh_tick (takeWhile (\<lambda>f. shadow_hash hash f = sh_ecs_mirror_hash f) (sq_frames req))
           @ [sh_tick f]\<rparr>)"
  unfolding validate_sync_def replay_frames_ok [OF assms] sum.case compare_frames_eq append_Nil by (rule refl)

text \<open>An honest frame of a game with entities is reported as a mismatch: if the main thread claims the
  true hash of a state with at least one entity, the script runs, and blake3 does not collide on the
  two states, the shadow VM answers that the frame mismatches.\<close>

lemma honest_frame_with_entities_mismatches:
  assumes "script_runs ex f" and "sh_ecs_mirror_hash f = compute_state_hash hash es (sh_rng_state f) (sh_tick f)"
    and "es \<noteq> []" and "inj hash"
  shows "\<exists>a. validate_sync hash ex \<lparr>sq_frames = [f]\<rparr> =
    Inr \<lparr>sr_status = Mismatch (sh_tick f) (sh_ecs_mirror_hash f) a, sr_checked_ticks = [sh_tick f]\<rparr>"
proof -
  have "state_stream es (sh_rng_state f) (sh_tick f) \<noteq> state_stream [] (sh_rng_state f) (sh_tick f)"
    using assms(3) by (cases es) (auto simp: state_stream_eq head_bytes_def)
  then have "sh_ecs_mirror_hash f \<noteq> shadow_hash hash f"
    unfolding shadow_hash_def compute_state_hash_def assms(2) inj_eq [OF assms(4)] .
  then show ?thesis
    using replay_frames_ok [of "[f]" ex hash] assms(1)
    by (simp add: validate_sync_def Let_def)
qed

definition idle_executor :: "unit ShadowExecutor" where
  "idle_executor = \<lparr>ex_engine = \<lparr>eng_execute = \<lambda>_. Inr (), eng_compile = \<lambda>_. Inr (),
     eng_on_tick = \<lambda>_ s. Inr s\<rparr>, ex_ast = ()\<rparr>"

definition frame_claiming :: "Blake3Hash \<Rightarrow> ShadowFrame" where
  "frame_claiming h = \<lparr>sh_tick = 3, sh_inputs = [], sh_rng_state = replicate 16 0, sh_ecs_mirror_hash = h\<rparr>"

lemma shadow_verdict_example:
  "validate_sync (\<lambda>b. b) idle_executor \<lparr>sq_frames = [frame_claiming []]\<rparr> =
     Inr \<lparr>sr_status = Mismatch 3 [] (le_bytes 8 (3 :: u64) @ replicate 16 0), sr_checked_ticks = [3]\<rparr>"
  using shadow_verdict [of "\<lparr>sq_frames = [frame_claiming []]\<rparr>" idle_executor "\<lambda>b. b"]
  by (simp add: idle_executor_def script_runs_def frame_claiming_def shadow_hash_def
      compute_state_hash_def state_stream_eq)

lemma honest_frame_with_entities_mismatches_example:
  "\<exists>h a. h = compute_state_hash (\<lambda>b. b) [(EntityId 1, blank_entity [])] (replicate 16 0) 3
     \<and> validate_sync (\<lambda>b. b) idle_executor \<lparr>sq_frames = [frame_claiming h]\<rparr> =
         Inr \<lparr>sr_status = Mismatch 3 h a, sr_checked_ticks = [3]\<rparr>"
proof -
  let ?h = "compute_state_hash (\<lambda>b. b) [(EntityId 1, blank_entity [])] (replicate 16 0) 3"
  have "\<exists>a. validate_sync (\<lambda>b. b) idle_executor \<lparr>sq_frames = [frame_claiming ?h]\<rparr> =
     Inr \<lparr>sr_status = Mismatch (sh_tick (frame_claiming ?h)) (sh_ecs_mirror_hash (frame_claiming ?h)) a,
          sr_checked_ticks = [sh_tick (frame_claiming ?h)]\<rparr>"
    by (rule honest_frame_with_entities_mismatches [where es = "[(EntityId 1, blank_entity [])]"])
      (simp_all add: idle_executor_def script_runs_def frame_claiming_def inj_def)
  then show ?thesis by (auto simp: frame_claiming_def)
qed

section \<open>Worker lifecycle\<close>

definition MAX_RESTARTS_PER_WINDOW :: u32 where "MAX_RESTARTS_PER_WINDOW = 3"
definition RESTART_WINDOW_FRAMES :: u64 where "RESTART_WINDOW_FRAMES = 3600"

datatype WorkerState = Alive | Crashed | Restarting | Dead

record WorkerLifecycle =
  wl_state :: WorkerState
  wl_restart_count :: u32
  wl_last_restart_window_start :: u64
  wl_worker_url :: string

definition lifecycle_new :: "string \<Rightarrow> WorkerLifecycle" where
  "lifecycle_new url = \<lparr>wl_state = Alive, wl_restart_count = 0, wl_last_restart_window_start = 0,
     wl_worker_url = url\<rparr>"

definition on_error :: "u64 \<Rightarrow> WorkerLifecycle \<Rightarrow> WorkerLifecycle" where
  "on_error current_frame w = (if wl_state w = Dead then w else w\<lparr>wl_state := Crashed\<rparr>)"

definition start_restart :: "u64 \<Rightarrow> WorkerLifecycle \<Rightarrow> (ShadowVmError + unit) \<times> WorkerLifecycle" where
  "start_restart current_frame w =
     (if wl_state w = Dead then (Inl TooManyRestarts, w)
      else
        let w = (if saturating_sub current_frame (wl_last_restart_window_start w) \<ge> RESTART_WINDOW_FRAMES
                 then w\<lparr>wl_restart_count := 0, wl_last_restart_window_start := current_frame\<rparr> else w);
            w = w\<lparr>wl_restart_count := wl_restart_count w + 1\<rparr>
        in if wl_restart_count w \<ge> MAX_RESTARTS_PER_WINDOW
           then (Inl TooManyRestarts, w\<lparr>wl_state := Dead\<rparr>)
           else (Inr (), w\<lparr>wl_state := Restarting\<rparr>))"

definition on_init_ack :: "WorkerLifecycle \<Rightarrow> WorkerLifecycle" where
  "on_init_ack w = (if wl_state w = Restarting then w\<lparr>wl_state := Alive\<rparr> else w)"

datatype life_event = Crash u64 | Restart u64 | InitAck

fun life_step :: "life_event \<Rightarrow> WorkerLifecycle \<Rightarrow> WorkerLifecycle" where
  "life_step (Crash f) w = on_error f w"
| "life_step (Restart f) w = snd (start_restart f w)"
| "life_step InitAck w = on_init_ack w"

definition life_ok :: "WorkerLifecycle \<Rightarrow> bool" where
  "life_ok w \<longleftrightarrow> wl_state w \<noteq> Dead \<longrightarrow> unat (wl_restart_count w) \<le> 2"

lemma start_restart_count:
  fixes f :: u64
  assumes "life_ok w" "wl_state w \<noteq> Dead"
  defines "c \<equiv> (if unat (wl_last_restart_window_start w) + 3600 \<le> unat f then 0 else unat (wl_restart_count w))"
  shows "fst (start_restart f w) = (if c < 2 then Inr () else Inl TooManyRestarts)"
    and "c < 2 \<Longrightarrow> unat (wl_restart_count (snd (start_restart f w))) = Suc c"
    and "wl_state (snd (start_restart f w)) = (if c < 2 then Restarting else Dead)"
    and "wl_last_restart_window_start (snd (start_restart f w)) =
      (if unat (wl_last_restart_window_start w) + 3600 \<le> unat f then f else wl_last_restart_window_start w)"
proof -
  have le: "unat (wl_restart_count w) \<le> 2" using assms(1,2) by (simp add: life_ok_def)
  then have "wl_restart_count w \<noteq> - 1" by (auto simp: unsigned_minus_1_eq_mask mask_eq_exp_minus_1)
  then have suc: "unat (wl_restart_count w + 1) = Suc (unat (wl_restart_count w))" by (rule unat_plus_1)
  note defs = start_restart_def Let_def RESTART_WINDOW_FRAMES_def c_def MAX_RESTARTS_PER_WINDOW_def word_le_nat_alt suc
  show "fst (start_restart f w) = (if c < 2 then Inr () else Inl TooManyRestarts)"
    and "c < 2 \<Longrightarrow> unat (wl_restart_count (snd (start_restart f w))) = Suc c"
    and "wl_state (snd (start_restart f w)) = (if c < 2 then Restarting else Dead)"
    and "wl_last_restart_window_start (snd (start_restart f w)) =
      (if unat (wl_last_restart_window_start w) + 3600 \<le> unat f then f else wl_last_restart_window_start w)"
    using assms(2) by (auto simp: defs)
qed

lemma life_ok_step: "life_ok w \<Longrightarrow> life_ok (life_step e w)"
proof (cases e)
  case (Restart f)
  assume ok: "life_ok w"
  show ?thesis
  proof (cases "wl_state w = Dead")
    case True
    with ok Restart show ?thesis by (simp add: start_restart_def)
  next
    case False
    with ok Restart start_restart_count [OF ok False, of f] show ?thesis
      by (auto simp: life_ok_def split: if_splits)
  qed
qed (auto simp: life_ok_def on_error_def on_init_ack_def)

interpretation life: absorbing_machine life_step life_ok "\<lambda>w. wl_state w = Dead"
proof unfold_locales
  show "life_ok w \<Longrightarrow> life_ok (life_step e w)" for w e by (rule life_ok_step)
  show "wl_state w = Dead \<Longrightarrow> wl_state (life_step e w) = Dead" for w e
    by (cases e) (simp_all add: on_error_def start_restart_def on_init_ack_def)
qed

text \<open>The successful restarts of a history.\<close>

fun restarts :: "life_event list \<Rightarrow> WorkerLifecycle \<Rightarrow> nat" where
  "restarts [] w = 0"
| "restarts (e # es) w =
     (case e of Restart f \<Rightarrow> (if fst (start_restart f w) = Inr () then 1 else 0) | _ \<Rightarrow> 0)
     + restarts es (life_step e w)"

definition restarts_left :: "WorkerLifecycle \<Rightarrow> nat" where
  "restarts_left w = (if wl_state w = Dead then 0 else 2 - unat (wl_restart_count w))"

lemma restarts_dead: "wl_state w = Dead \<Longrightarrow> restarts es w = 0"
proof (induction es arbitrary: w)
  case (Cons e es)
  then show ?case by (cases e) (simp_all add: on_error_def start_restart_def on_init_ack_def)
qed simp

lemma quiet_step:
  "\<forall>f. e \<noteq> Restart f \<Longrightarrow> restarts_left (life_step e w) = restarts_left w
     \<and> wl_last_restart_window_start (life_step e w) = wl_last_restart_window_start w"
  by (cases e) (auto simp: on_error_def on_init_ack_def restarts_left_def)

lemma restarts_same_window:
  assumes "life_ok w"
    and "\<forall>f. Restart f \<in> set es \<longrightarrow> unat f < unat (wl_last_restart_window_start w) + 3600"
  shows "restarts es w \<le> restarts_left w"
  using assms
proof (induction es arbitrary: w)
  case (Cons e es)
  show ?case
  proof (cases "wl_state w = Dead")
    case False
    show ?thesis
    proof (cases "\<exists>f. e = Restart f")
      case True
      then obtain f where e: "e = Restart f" by blast
      then have "unat f < unat (wl_last_restart_window_start w) + 3600" using Cons.prems(2) by simp
      with False start_restart_count [OF Cons.prems(1) False, of f]
        Cons.IH [of "life_step e w"] life_ok_step [OF Cons.prems(1), of e] Cons.prems(2)
        restarts_dead [of "life_step e w" es]
      show ?thesis
        by (auto simp: e restarts_left_def split: if_splits)
    next
      case False
      then have q: "\<forall>f. e \<noteq> Restart f" by blast
      then have e: "restarts (e # es) w = restarts es (life_step e w)" by (cases e) auto
      show ?thesis
        using Cons.IH [OF life_ok_step [OF Cons.prems(1), of e]] Cons.prems(2) quiet_step [OF q, of w]
        by (simp add: e del: restarts.simps(2))
    qed
  qed (simp add: restarts_dead del: restarts.simps(2))
qed simp

lemma restarts_any_window:
  assumes "life_ok w" and "\<forall>f. Restart f \<in> set es \<longrightarrow> n \<le> unat f \<and> unat f < n + 3600"
  shows "restarts es w \<le> restarts_left w + 2"
  using assms
proof (induction es arbitrary: w)
  case (Cons e es)
  note ok = life_ok_step [OF Cons.prems(1), of e]
  show ?case
  proof (cases "wl_state w = Dead")
    case False
    show ?thesis
    proof (cases "\<exists>f. e = Restart f")
      case True
      then obtain f where e: "e = Restart f" by blast
      then have f: "n \<le> unat f" "unat f < n + 3600" using Cons.prems(2) by simp_all
      note count = start_restart_count [OF Cons.prems(1) False, of f]
      show ?thesis
      proof (cases "unat (wl_last_restart_window_start w) + 3600 \<le> unat f")
        case True
        have "\<forall>g. Restart g \<in> set es \<longrightarrow> unat g < unat (wl_last_restart_window_start (life_step e w)) + 3600"
          using Cons.prems(2) f True count(4) by (auto simp: e intro: less_le_trans)
        then have "restarts es (life_step e w) \<le> restarts_left (life_step e w)"
          using ok by (intro restarts_same_window)
        with True count show ?thesis by (simp add: e restarts_left_def split: if_splits)
      next
        case no_reset: False
        have IH: "restarts es (life_step e w) \<le> restarts_left (life_step e w) + 2"
          using Cons.IH [OF ok] Cons.prems(2) by simp
        show ?thesis
        proof (cases "unat (wl_restart_count w) < 2")
          case True
          with no_reset count IH False show ?thesis by (simp add: e restarts_left_def split: if_splits)
        next
          case full: False
          with no_reset count(3) have "wl_state (life_step e w) = Dead" by (simp add: e)
          with full no_reset count(1) show ?thesis by (simp add: e restarts_dead)
        qed
      qed
    next
      case False
      then have q: "\<forall>f. e \<noteq> Restart f" by blast
      then have e: "restarts (e # es) w = restarts es (life_step e w)" by (cases e) auto
      show ?thesis
        using Cons.IH [OF life_ok_step [OF Cons.prems(1), of e]] Cons.prems(2) quiet_step [OF q, of w]
        by (simp add: e del: restarts.simps(2))
    qed
  qed (simp add: restarts_dead del: restarts.simps(2))
qed simp

lemma life_ok_new: "life_ok (lifecycle_new url)"
  by (simp add: life_ok_def lifecycle_new_def)

text \<open>C29: Restarts are rate limited and death is final: whatever the worker has been through before,
  within any stretch of events whose restart requests all fall into 3600 consecutive frames at most
  four of them succeed (two before the counting window moves and two after it); and a worker that is
  dead stays dead through any further events, none of which restarts it.\<close>

theorem restarts_bounded:
  assumes "\<forall>f. Restart f \<in> set es \<longrightarrow> n \<le> unat f \<and> unat f < n + 3600"
  shows "let w = fold life_step before (lifecycle_new url) in
    restarts es w \<le> 4
    \<and> (wl_state w = Dead \<longrightarrow> wl_state (fold life_step es w) = Dead \<and> restarts es w = 0)"
proof -
  let ?w = "fold life_step before (lifecycle_new url)"
  have ok: "life_ok ?w" by (rule life.inv_fold [OF life_ok_new])
  have "restarts_left ?w \<le> 2" by (simp add: restarts_left_def)
  with restarts_any_window [OF ok assms] have "restarts es ?w \<le> 4" by simp
  then show ?thesis using life.dead_fold [OF ok] by (simp add: Let_def restarts_dead)
qed

theorem restarts_bounded_witness:
  "restarts [Restart 3598, Restart 3599, Restart 3600, Restart 3601] (lifecycle_new ''worker.js'') = 4"
proof -
  have "restarts [Restart 3598, Restart 3599, Restart 3600, Restart 3601] (fold life_step [] (lifecycle_new ''worker.js'')) \<le> 4"
    using restarts_bounded [of "[Restart 3598, Restart 3599, Restart 3600, Restart 3601]" 3598 "[]" "''worker.js''"]
    by (simp add: Let_def)
  moreover have "restarts [Restart 3598, Restart 3599, Restart 3600, Restart 3601] (lifecycle_new ''worker.js'') \<ge> 4"
    by (simp add: lifecycle_new_def start_restart_def Let_def RESTART_WINDOW_FRAMES_def
        MAX_RESTARTS_PER_WINDOW_def saturating_sub_def word_le_nat_alt)
  ultimately show ?thesis by simp
qed

section \<open>The worker\<close>

datatype 'ast WorkerSlot = Uninitialized | ReadyWorker "'ast ShadowExecutor"

text \<open>The serialiser of the worker's messages. An \<open>Inl\<close> is a serialisation error.\<close>

record 'e worker_codec =
  wc_de_init :: "bytes \<Rightarrow> 'e + ShadowInit"
  wc_de_request :: "bytes \<Rightarrow> 'e + ShadowRequest"
  wc_ser_ack :: "'e + bytes"
  wc_ser_response :: "ShadowResponse \<Rightarrow> 'e + bytes"

definition post_init_ack :: "'e worker_codec \<Rightarrow> panic + bytes" where
  "post_init_ack c = (case wc_ser_ack c of Inl _ \<Rightarrow> Inl Panic | Inr bytes \<Rightarrow> Inr bytes)"

definition post_error_response :: "'e worker_codec \<Rightarrow> string \<Rightarrow> panic + bytes" where
  "post_error_response c msg =
     (case wc_ser_response c \<lparr>sr_status = Error msg, sr_checked_ticks = []\<rparr> of
        Inl _ \<Rightarrow> Inl Panic | Inr bytes \<Rightarrow> Inr bytes)"

definition handle_init ::
  "(bytes \<Rightarrow> Blake3Hash) \<Rightarrow> 'ast script_engine \<Rightarrow> 'e worker_codec \<Rightarrow> bytes \<Rightarrow> 'ast WorkerSlot
     \<Rightarrow> (panic + bytes) \<times> 'ast WorkerSlot" where
  "handle_init blake3 engine c data slot =
     (case wc_de_init c data of
        Inl _ \<Rightarrow> (post_error_response c (utf8 [0xE5, 0x8F, 0x8D, 0xE5, 0xBA, 0x8F, 0xE5, 0x88, 0x97, 0xE5, 0x8C, 0x96] @ '' ShadowInit '' @ utf8 [0xE5, 0xA4, 0xB1, 0xE6, 0x95, 0x97]), slot)
      | Inr init \<Rightarrow>
          if blake3 (si_bytecode init) \<noteq> si_bytecode_hash init
          then (post_error_response c (''bytecode hash '' @ utf8 [0xE9, 0xA9, 0x97, 0xE8, 0xAD, 0x89, 0xE5, 0xA4, 0xB1, 0xE6, 0x95, 0x97]), slot)
          else case from_utf8 (si_bytecode init) of
            None \<Rightarrow> (post_error_response c (''bytecode UTF-8 '' @ utf8 [0xE8, 0xA7, 0xA3, 0xE7, 0xA2, 0xBC, 0xE5, 0xA4, 0xB1, 0xE6, 0x95, 0x97]), slot)
          | Some script_text \<Rightarrow>
              (case executor_new engine script_text of
                 Inr validator \<Rightarrow> (post_init_ack c, ReadyWorker validator)
               | Inl e \<Rightarrow> (post_error_response c (display_shadow_error e), slot)))"

definition handle_message ::
  "(bytes \<Rightarrow> Blake3Hash) \<Rightarrow> 'e worker_codec \<Rightarrow> bytes \<Rightarrow> 'ast WorkerSlot \<Rightarrow> panic + bytes" where
  "handle_message blake3 c data slot =
     (case wc_de_request c data of
        Inl _ \<Rightarrow> post_error_response c (utf8 [0xE5, 0x8F, 0x8D, 0xE5, 0xBA, 0x8F, 0xE5, 0x88, 0x97, 0xE5, 0x8C, 0x96] @ '' ShadowRequest '' @ utf8 [0xE5, 0xA4, 0xB1, 0xE6, 0x95, 0x97])
      | Inr request \<Rightarrow>
          (case slot of
             Uninitialized \<Rightarrow> post_error_response c (''Worker '' @ utf8 [0xE5, 0xB0, 0x9A, 0xE6, 0x9C, 0xAA, 0xE5, 0x88, 0x9D, 0xE5, 0xA7, 0x8B, 0xE5, 0x8C, 0x96])
           | ReadyWorker validator \<Rightarrow>
               let response = (case validate_sync blake3 validator request of
                     Inr r \<Rightarrow> r
                   | Inl e \<Rightarrow> \<lparr>sr_status = Error (display_shadow_error e), sr_checked_ticks = []\<rparr>)
               in case wc_ser_response c response of
                    Inr b \<Rightarrow> Inr b
                  | Inl _ \<Rightarrow>
                      (case wc_ser_response c \<lparr>sr_status = Error (utf8 [0xE5, 0xBA, 0x8F, 0xE5, 0x88, 0x97, 0xE5, 0x8C, 0x96, 0xE5, 0x9B, 0x9E, 0xE6, 0x87, 0x89, 0xE5, 0xA4, 0xB1, 0xE6, 0x95, 0x97]),
                              sr_checked_ticks = []\<rparr> of
                         Inr b \<Rightarrow> Inr b | Inl _ \<Rightarrow> Inr [])))"

text \<open>A worker only becomes ready on bytecode whose hash was verified, and only then acknowledges.\<close>

lemma handle_init_ready:
  "handle_init hash engine c data slot = (out, ReadyWorker ex) \<Longrightarrow> slot = Uninitialized \<Longrightarrow>
     \<exists>init script. wc_de_init c data = Inr init \<and> hash (si_bytecode init) = si_bytecode_hash init
       \<and> from_utf8 (si_bytecode init) = Some script \<and> executor_new engine script = Inr ex
       \<and> out = post_init_ack c"
  by (auto simp: handle_init_def split: sum.splits option.splits if_splits)

end
