(* ===== verification/Protocol.thy ===== *)
theory Protocol
  imports Bridge_Types Machines
begin

text \<open>
  The wire protocol (\<^verbatim>\<open>engine/protocol\<close>): messages, the length-prefixed frame codec, the
  connection state machine with its message filter, and the choice of channel. The serialiser
  (bincode) is a parameter: \<open>ser\<close> and \<open>de\<close>, each of which may fail.
\<close>

section \<open>Messages\<close>

datatype AckStatus = AckOk | AckRollback | AckUnknown

datatype DisconnectReason =
  ReasonNormal | ReasonTimeout | ReasonVersionMismatch | ReasonCheatDetected | ReasonServerShutdown

datatype NetMessage =
    ClientHello bytes
  | ServerHello bytes bytes bytes
  | KeyConfirm bytes bytes
  | GameInput u64 "PlayerInput list"
  | StateSnapshot u64 bytes bytes
  | HashCheck u64 bytes
  | FullSync u64 bytes bytes
  | OtaChunk u64 u16 u16 bytes
  | OtaAck u64 AckStatus bytes u64
  | VersionMismatch
  | Ping u64
  | Pong u64
  | Disconnect DisconnectReason

section \<open>Frames\<close>

definition MAX_MESSAGE_SIZE :: u32 where "MAX_MESSAGE_SIZE = 4 * 1024 * 1024"

datatype 'e CodecError =
    InsufficientData
  | MessageTooLarge u32 u32
  | Serialize 'e
  | Deserialize 'e

definition encode :: "(NetMessage \<Rightarrow> 'e + bytes) \<Rightarrow> NetMessage \<Rightarrow> 'e CodecError + bytes" where
  "encode ser msg =
     (case ser msg of
        Inl e \<Rightarrow> Inl (Serialize e)
      | Inr payload \<Rightarrow>
          if \<not> length payload < 2 ^ 32 then Inl (MessageTooLarge (- 1) MAX_MESSAGE_SIZE)
          else let len = of_nat (length payload) :: u32
               in if len > MAX_MESSAGE_SIZE then Inl (MessageTooLarge len MAX_MESSAGE_SIZE)
                  else Inr (le_bytes 4 len @ payload))"

definition decode :: "(bytes \<Rightarrow> 'e + NetMessage) \<Rightarrow> bytes \<Rightarrow> 'e CodecError + NetMessage" where
  "decode de frame =
     (if length frame < 4 then Inl InsufficientData
      else let len = from_le_bytes (take 4 frame) :: u32
           in if len > MAX_MESSAGE_SIZE then Inl (MessageTooLarge len MAX_MESSAGE_SIZE)
              else let len = unat len
                   in if length frame < 4 + len then Inl InsufficientData
                      else case de (take len (drop 4 frame)) of
                             Inl e \<Rightarrow> Inl (Deserialize e)
                           | Inr m \<Rightarrow> Inr m)"

lemma encode_InrD:
  assumes "encode ser m = Inr f"
  obtains payload where "ser m = Inr payload" "length payload \<le> unat MAX_MESSAGE_SIZE"
    "f = le_bytes 4 (of_nat (length payload) :: u32) @ payload"
    "unat (of_nat (length payload) :: u32) = length payload"
proof -
  from assms obtain payload where p: "ser m = Inr payload" "length payload < 2 ^ 32"
    "\<not> of_nat (length payload) > MAX_MESSAGE_SIZE"
    "f = le_bytes 4 (of_nat (length payload) :: u32) @ payload"
    by (auto simp: encode_def Let_def split: sum.splits if_splits)
  have u: "unat (of_nat (length payload) :: u32) = length payload"
    using p(2) by (simp only: unat_of_nat) simp
  with p(3) have "length payload \<le> unat MAX_MESSAGE_SIZE"
    by (simp add: word_le_nat_alt linorder_not_less)
  with p u show ?thesis by (intro that)
qed

text \<open>C8: The frame codec round-trips and delimits. Whatever follows an encoded frame in the stream,
  decoding returns the message; every proper prefix of the frame is reported as insufficient data
  (never decoded to something else); and a frame is at most 4 MB plus its four length bytes.\<close>

theorem frame_roundtrip:
  assumes "encode ser m = Inr f" and "\<And>payload. ser m = Inr payload \<Longrightarrow> de payload = Inr m"
  shows "decode de (f @ rest) = Inr m
    \<and> (\<forall>n < length f. decode de (take n f) = Inl InsufficientData)
    \<and> length f \<le> 4 + unat MAX_MESSAGE_SIZE"
proof -
  from assms(1) obtain payload where p: "ser m = Inr payload"
    and le: "length payload \<le> unat MAX_MESSAGE_SIZE"
    and f: "f = le_bytes 4 (of_nat (length payload) :: u32) @ payload"
    and u: "unat (of_nat (length payload) :: u32) = length payload"
    by (rule encode_InrD)
  have small: "\<not> of_nat (length payload) > MAX_MESSAGE_SIZE"
    using le u by (simp add: word_less_nat_alt)
  have "decode de (f @ rest) = Inr m"
    using assms(2) [OF p] small by (simp add: decode_def f u Let_def)
  moreover have "decode de (take n f) = Inl InsufficientData" if "n < length f" for n
    using that small by (auto simp: decode_def f u Let_def)
  ultimately show ?thesis using le by (simp add: f)
qed

definition ping_ser :: "NetMessage \<Rightarrow> unit + bytes" where
  "ping_ser m = (case m of Ping t \<Rightarrow> Inr (le_bytes 8 t) | _ \<Rightarrow> Inl ())"

definition ping_de :: "bytes \<Rightarrow> unit + NetMessage" where
  "ping_de bs = (if length bs = 8 then Inr (Ping (from_le_bytes bs)) else Inl ())"

theorem frame_roundtrip_witness:
  "decode ping_de (le_bytes 4 (8 :: u32) @ le_bytes 8 (7 :: u64) @ [1, 2]) = Inr (Ping 7)"
  using frame_roundtrip [of ping_ser "Ping 7" "le_bytes 4 (8 :: u32) @ le_bytes 8 (7 :: u64)" ping_de "[1, 2]"]
  by (simp add: encode_def ping_ser_def ping_de_def MAX_MESSAGE_SIZE_def)

lemma oversized_frame_rejected:
  "from_le_bytes (take 4 frame) > MAX_MESSAGE_SIZE \<Longrightarrow> 4 \<le> length frame \<Longrightarrow>
     decode de frame = Inl (MessageTooLarge (from_le_bytes (take 4 frame)) MAX_MESSAGE_SIZE)"
  by (simp add: decode_def Let_def)

section \<open>Connection state machine\<close>

datatype State =
    Connecting
  | Handshaking
  | Ready
  | Playing
  | Reconnecting
  | DisconnectedState DisconnectReason

datatype StateEvent =
    HelloReceived
  | KeyConfirmed
  | JoinedRoom
  | LeftRoom
  | ConnectionLost
  | DisconnectedEvent DisconnectReason

fun debug_reason :: "DisconnectReason \<Rightarrow> string" where
  "debug_reason ReasonNormal = ''Normal''"
| "debug_reason ReasonTimeout = ''Timeout''"
| "debug_reason ReasonVersionMismatch = ''VersionMismatch''"
| "debug_reason ReasonCheatDetected = ''CheatDetected''"
| "debug_reason ReasonServerShutdown = ''ServerShutdown''"

fun debug_event :: "StateEvent \<Rightarrow> string" where
  "debug_event HelloReceived = ''HelloReceived''"
| "debug_event KeyConfirmed = ''KeyConfirmed''"
| "debug_event JoinedRoom = ''JoinedRoom''"
| "debug_event LeftRoom = ''LeftRoom''"
| "debug_event ConnectionLost = ''ConnectionLost''"
| "debug_event (DisconnectedEvent r) = ''Disconnected('' @ debug_reason r @ '')''"

record InvalidTransition =
  it_from :: State
  it_event :: string

definition invalid :: "State \<Rightarrow> StateEvent \<Rightarrow> InvalidTransition" where
  "invalid s e = \<lparr>it_from = s, it_event = debug_event e\<rparr>"

fun transition :: "StateEvent \<Rightarrow> State \<Rightarrow> InvalidTransition + State" where
  "transition e (DisconnectedState r) = Inl (invalid (DisconnectedState r) e)"
| "transition (DisconnectedEvent r) s = Inr (DisconnectedState r)"
| "transition HelloReceived Connecting = Inr Handshaking"
| "transition KeyConfirmed Handshaking = Inr Ready"
| "transition JoinedRoom Ready = Inr Playing"
| "transition LeftRoom Playing = Inr Ready"
| "transition ConnectionLost Playing = Inr Reconnecting"
| "transition HelloReceived Reconnecting = Inr Handshaking"
| "transition e s = Inl (invalid s e)"

definition proto_step :: "StateEvent \<Rightarrow> State \<Rightarrow> State" where
  "proto_step e s = (case transition e s of Inl _ \<Rightarrow> s | Inr s' \<Rightarrow> s')"

fun is_message_allowed :: "State \<Rightarrow> NetMessage \<Rightarrow> bool" where
  "is_message_allowed Connecting m = (case m of ClientHello _ \<Rightarrow> True | _ \<Rightarrow> False)"
| "is_message_allowed Handshaking m = (case m of KeyConfirm _ _ \<Rightarrow> True | _ \<Rightarrow> False)"
| "is_message_allowed Ready m =
     (case m of Ping _ \<Rightarrow> True | Pong _ \<Rightarrow> True | Disconnect _ \<Rightarrow> True | _ \<Rightarrow> False)"
| "is_message_allowed Playing m =
     (case m of GameInput _ _ \<Rightarrow> True | HashCheck _ _ \<Rightarrow> True | OtaAck _ _ _ _ \<Rightarrow> True
      | Ping _ \<Rightarrow> True | Pong _ \<Rightarrow> True | Disconnect _ \<Rightarrow> True | _ \<Rightarrow> False)"
| "is_message_allowed Reconnecting m = (case m of ClientHello _ \<Rightarrow> True | _ \<Rightarrow> False)"
| "is_message_allowed (DisconnectedState _) m = False"

interpretation proto: absorbing_machine proto_step "\<lambda>_. True" "\<lambda>s. \<exists>r. s = DisconnectedState r"
  by unfold_locales (auto simp: proto_step_def)

text \<open>The accepted events of a connection, oldest first.\<close>

inductive accepts :: "State \<Rightarrow> StateEvent list \<Rightarrow> State \<Rightarrow> bool" where
  accepts_Nil: "accepts s [] s"
| accepts_snoc: "accepts s es t \<Longrightarrow> transition e t = Inr u \<Longrightarrow> accepts s (es @ [e]) u"

lemma transition_cases:
  "transition e s = Inr u \<Longrightarrow>
     (\<exists>r. e = DisconnectedEvent r \<and> u = DisconnectedState r)
   \<or> (e, u) = (HelloReceived, Handshaking) \<and> s \<in> {Connecting, Reconnecting}
   \<or> (s, e, u) \<in> {(Handshaking, KeyConfirmed, Ready), (Ready, JoinedRoom, Playing),
       (Playing, LeftRoom, Ready), (Playing, ConnectionLost, Reconnecting)}"
  by (cases "(e, s)" rule: transition.cases) auto

lemma accepts_history:
  "accepts Connecting es s \<Longrightarrow>
     (s = Handshaking \<longrightarrow> (\<exists>pre. es = pre @ [HelloReceived]))
   \<and> (s = Ready \<longrightarrow> (\<exists>pre n. es = pre @ [HelloReceived, KeyConfirmed]
        @ concat (replicate n [JoinedRoom, LeftRoom])))
   \<and> (s = Playing \<longrightarrow> (\<exists>pre n. es = pre @ [HelloReceived, KeyConfirmed]
        @ concat (replicate n [JoinedRoom, LeftRoom]) @ [JoinedRoom]))"
proof (induction Connecting es s rule: accepts.induct)
  case (accepts_snoc es t e u)
  have rot: "concat (replicate n [JoinedRoom, LeftRoom]) @ [JoinedRoom, LeftRoom]
      = concat (replicate (Suc n) [JoinedRoom, LeftRoom])" for n
    by (induction n) simp_all
  from transition_cases [OF accepts_snoc.hyps(3)] show ?case
  proof (elim disjE)
    assume "(t, e, u) \<in> {(Handshaking, KeyConfirmed, Ready), (Ready, JoinedRoom, Playing),
       (Playing, LeftRoom, Ready), (Playing, ConnectionLost, Reconnecting)}"
    then consider "t = Handshaking" "e = KeyConfirmed" "u = Ready"
      | "t = Ready" "e = JoinedRoom" "u = Playing"
      | "t = Playing" "e = LeftRoom" "u = Ready"
      | "u = Reconnecting" by blast
    then show ?thesis
    proof cases
      case 1
      then obtain pre where "es = pre @ [HelloReceived]" using accepts_snoc.hyps(2) by blast
      with 1 show ?thesis by (auto intro!: exI [of _ pre] exI [of _ 0])
    next
      case 2
      with accepts_snoc.hyps(2) show ?thesis by auto
    next
      case 3
      then obtain pre n where "es = pre @ [HelloReceived, KeyConfirmed]
        @ concat (replicate n [JoinedRoom, LeftRoom]) @ [JoinedRoom]"
        using accepts_snoc.hyps(2) by blast
      with 3 rot [of n] show ?thesis by (auto intro!: exI [of _ pre] exI [of _ "Suc n"])
    qed simp
  qed auto
qed simp

text \<open>C18: Game traffic is only accepted from an authenticated player. Whatever events a connection has
  seen, if its state lets a game input, a hash report or an OTA acknowledgement through, then its
  accepted events end with a hello, the key confirmation that followed it, and an alternation of
  joining and leaving rooms that ends inside one.\<close>

theorem game_messages_need_handshake:
  assumes "accepts Connecting es s" and "is_message_allowed s m"
    and "(\<exists>t inputs. m = GameInput t inputs) \<or> (\<exists>t h. m = HashCheck t h)
      \<or> (\<exists>u st v t. m = OtaAck u st v t)"
  shows "\<exists>pre n. es = pre @ [HelloReceived, KeyConfirmed]
    @ concat (replicate n [JoinedRoom, LeftRoom]) @ [JoinedRoom]"
proof -
  have "s = Playing" using assms(2,3) by (cases s) auto
  with accepts_history [OF assms(1)] show ?thesis by blast
qed

theorem game_messages_need_handshake_witness:
  "\<exists>pre n. [HelloReceived, KeyConfirmed, JoinedRoom] = pre @ [HelloReceived, KeyConfirmed]
    @ concat (replicate n [JoinedRoom, LeftRoom]) @ [JoinedRoom]"
proof (rule game_messages_need_handshake)
  have "accepts Connecting ((([] @ [HelloReceived]) @ [KeyConfirmed]) @ [JoinedRoom]) Playing"
    by (rule accepts_snoc accepts_Nil | simp)+
  then show "accepts Connecting [HelloReceived, KeyConfirmed, JoinedRoom] Playing" by simp
  show "is_message_allowed Playing (GameInput 1 [])" by simp
  show "(\<exists>t inputs. GameInput 1 [] = GameInput t inputs) \<or> (\<exists>t h. GameInput 1 [] = HashCheck t h)
      \<or> (\<exists>u st v t. GameInput 1 [] = OtaAck u st v t)" by blast
qed

section \<open>Channels\<close>

datatype Channel = Reliable | Unreliable

definition channel_for :: "NetMessage \<Rightarrow> Channel" where
  "channel_for msg =
     (case msg of GameInput _ _ \<Rightarrow> Unreliable | HashCheck _ _ \<Rightarrow> Unreliable
      | Ping _ \<Rightarrow> Unreliable | Pong _ \<Rightarrow> Unreliable | _ \<Rightarrow> Reliable)"

text \<open>Every message a client may send before it plays, other than ping and pong, is sent reliably.\<close>

lemma handshake_messages_reliable:
  "is_message_allowed s m \<Longrightarrow> s \<noteq> Playing \<Longrightarrow> channel_for m = Unreliable
     \<Longrightarrow> s = Ready \<and> ((\<exists>t. m = Ping t) \<or> (\<exists>t. m = Pong t))"
  by (cases s; cases m) (auto simp: channel_for_def)

end
