(* ===== verification/Crypto_Frames.thy ===== *)
theory Crypto_Frames
  imports Protocol
begin

text \<open>
  Encrypted frames (\<^verbatim>\<open>engine/crypto/src/aes.rs\<close>, \<^verbatim>\<open>frame.rs\<close>, \<^verbatim>\<open>kdf.rs\<close>), the server side of the key
  exchange (\<^verbatim>\<open>server/key_exchange\<close>) and the gateway's encrypted message loop
  (\<^verbatim>\<open>server/gateway/src/listener.rs\<close>). AES-256-GCM, X25519, HKDF and the serialiser are parameters;
  random nonces are arguments.
\<close>

section \<open>AES-GCM\<close>

datatype CryptoError =
    InvalidPublicKey
  | AuthTagMismatch
  | HkdfError string
  | CiphertextTooShort
  | CryptoSignatureVerificationFailed

fun display_crypto_error :: "CryptoError \<Rightarrow> string" where
  "display_crypto_error InvalidPublicKey = utf8 [0xE5, 0x85, 0xAC, 0xE9, 0x91, 0xB0, 0xE7, 0x84, 0xA1, 0xE6, 0x95, 0x88]"
| "display_crypto_error AuthTagMismatch = ''AES-GCM '' @ utf8 [0xE8, 0xAA, 0x8D, 0xE8, 0xAD, 0x89, 0xE6, 0xA8, 0x99, 0xE7, 0xB1, 0xA4, 0xE9, 0xA9, 0x97, 0xE8, 0xAD, 0x89, 0xE5, 0xA4, 0xB1, 0xE6, 0x95, 0x97]"
| "display_crypto_error (HkdfError msg) = ''HKDF '' @ utf8 [0xE8, 0xA1, 0x8D, 0xE7, 0x94, 0x9F, 0xE5, 0xA4, 0xB1, 0xE6, 0x95, 0x97, 0xEF, 0xBC, 0x9A] @ msg"
| "display_crypto_error CiphertextTooShort = utf8 [0xE5, 0x8A, 0xA0, 0xE5, 0xAF, 0x86, 0xE8, 0xB3, 0x87, 0xE6, 0x96, 0x99, 0xE9, 0x95, 0xB7, 0xE5, 0xBA, 0xA6, 0xE4, 0xB8, 0x8D, 0xE8, 0xB6, 0xB3]"
| "display_crypto_error CryptoSignatureVerificationFailed = utf8 [0xE7, 0xB0, 0xBD, 0xE7, 0xAB, 0xA0, 0xE9, 0xA9, 0x97, 0xE8, 0xAD, 0x89, 0xE5, 0xA4, 0xB1, 0xE6, 0x95, 0x97]"

text \<open>The cipher: key, nonce, message and associated data to the ciphertext with its tag, and back.\<close>

record aead =
  aead_encrypt :: "bytes \<Rightarrow> bytes \<Rightarrow> bytes \<Rightarrow> bytes \<Rightarrow> bytes option"
  aead_decrypt :: "bytes \<Rightarrow> bytes \<Rightarrow> bytes \<Rightarrow> bytes \<Rightarrow> bytes option"

definition aes_gcm_encrypt :: "aead \<Rightarrow> bytes \<Rightarrow> bytes \<Rightarrow> bytes \<Rightarrow> bytes \<Rightarrow> CryptoError + bytes" where
  "aes_gcm_encrypt C key nonce plaintext aad =
     (case aead_encrypt C key nonce plaintext aad of None \<Rightarrow> Inl AuthTagMismatch | Some c \<Rightarrow> Inr c)"

definition aes_gcm_decrypt :: "aead \<Rightarrow> bytes \<Rightarrow> bytes \<Rightarrow> bytes \<Rightarrow> bytes \<Rightarrow> CryptoError + bytes" where
  "aes_gcm_decrypt C key nonce ciphertext_with_tag aad =
     (case aead_decrypt C key nonce ciphertext_with_tag aad of None \<Rightarrow> Inl AuthTagMismatch | Some m \<Rightarrow> Inr m)"

record AesEncryptedParts =
  ap_nonce :: bytes
  ap_ciphertext :: bytes
  ap_tag :: bytes

definition aes_encrypt_parts :: "aead \<Rightarrow> bytes \<Rightarrow> bytes \<Rightarrow> bytes \<Rightarrow> CryptoError + AesEncryptedParts" where
  "aes_encrypt_parts C nonce key plaintext =
     (case aead_encrypt C key nonce plaintext [] of
        None \<Rightarrow> Inl AuthTagMismatch
      | Some encrypted \<Rightarrow>
          let split_point = length encrypted - 16
          in Inr \<lparr>ap_nonce = nonce, ap_ciphertext = take split_point encrypted,
                  ap_tag = drop split_point encrypted\<rparr>)"

definition aes_decrypt_parts :: "aead \<Rightarrow> bytes \<Rightarrow> AesEncryptedParts \<Rightarrow> CryptoError + bytes" where
  "aes_decrypt_parts C key parts =
     (case aead_decrypt C key (ap_nonce parts) (ap_ciphertext parts @ ap_tag parts) [] of
        None \<Rightarrow> Inl AuthTagMismatch | Some m \<Rightarrow> Inr m)"

definition aes_encrypt :: "aead \<Rightarrow> bytes \<Rightarrow> bytes \<Rightarrow> bytes \<Rightarrow> CryptoError + bytes" where
  "aes_encrypt C nonce key plaintext =
     bind_sum (aes_gcm_encrypt C key nonce plaintext []) (\<lambda>ciphertext_with_tag. Inr (nonce @ ciphertext_with_tag))"

definition aes_decrypt :: "aead \<Rightarrow> bytes \<Rightarrow> bytes \<Rightarrow> CryptoError + bytes" where
  "aes_decrypt C key ciphertext_with_nonce =
     (if length ciphertext_with_nonce < 12 then Inl CiphertextTooShort
      else aes_gcm_decrypt C key (take 12 ciphertext_with_nonce) (drop 12 ciphertext_with_nonce) [])"

text \<open>What is used of the cipher: decryption inverts encryption, and a ciphertext is its message and a
  16-byte tag long.\<close>

definition aead_correct :: "aead \<Rightarrow> bool" where
  "aead_correct C \<longleftrightarrow> (\<forall>k n m a c. aead_encrypt C k n m a = Some c \<longrightarrow>
     aead_decrypt C k n c a = Some m \<and> length c = length m + 16)"

text \<open>Authenticity, as far as it is used: a ciphertext made for one sequence number does not decrypt for
  another.\<close>

definition aead_binds_seq :: "aead \<Rightarrow> bool" where
  "aead_binds_seq C \<longleftrightarrow> (\<forall>k n m c s t. aead_encrypt C k n m (le_bytes 8 (s :: u64)) = Some c \<longrightarrow>
     s \<noteq> t \<longrightarrow> aead_decrypt C k n c (le_bytes 8 (t :: u64)) = None)"

lemma aead_correctD:
  "aead_correct C \<Longrightarrow> aead_encrypt C k n m a = Some c \<Longrightarrow> aead_decrypt C k n c a = Some m"
  "aead_correct C \<Longrightarrow> aead_encrypt C k n m a = Some c \<Longrightarrow> length c = length m + 16"
  by (auto simp: aead_correct_def)

lemma aes_parts_roundtrip:
  "aead_correct C \<Longrightarrow> aes_encrypt_parts C nonce key m = Inr parts \<Longrightarrow> aes_decrypt_parts C key parts = Inr m"
  by (auto simp: aes_encrypt_parts_def aes_decrypt_parts_def Let_def aead_correctD split: option.splits)

lemma aes_roundtrip:
  "aead_correct C \<Longrightarrow> length nonce = 12 \<Longrightarrow> aes_encrypt C nonce key m = Inr c \<Longrightarrow> aes_decrypt C key c = Inr m"
  by (auto simp: aes_encrypt_def aes_decrypt_def aes_gcm_encrypt_def aes_gcm_decrypt_def aead_correctD
      bind_sum_def split: option.splits sum.splits)

lemma aes_parts_length:
  "aead_correct C \<Longrightarrow> aes_encrypt_parts C nonce key m = Inr parts \<Longrightarrow>
     length (ap_tag parts) = 16 \<and> ap_nonce parts = nonce \<and> length (ap_ciphertext parts) = length m"
  by (auto simp: aes_encrypt_parts_def Let_def aead_correctD split: option.splits)

section \<open>Frames\<close>

datatype FrameError = AuthFailed | TooShort nat nat

definition seal_frame :: "aead \<Rightarrow> bytes \<Rightarrow> bytes \<Rightarrow> bytes \<Rightarrow> bytes \<Rightarrow> FrameError + bytes" where
  "seal_frame C nonce plaintext key aad =
     (case aes_gcm_encrypt C key nonce plaintext aad of
        Inl _ \<Rightarrow> Inl AuthFailed
      | Inr ciphertext \<Rightarrow>
          let payload_len = 12 + length ciphertext
          in Inr (le_bytes 4 (of_nat payload_len :: u32) @ nonce @ ciphertext))"

definition open_frame :: "aead \<Rightarrow> bytes \<Rightarrow> bytes \<Rightarrow> bytes \<Rightarrow> FrameError + bytes" where
  "open_frame C data key aad =
     (if length data < 4 then Inl (TooShort 4 (length data))
      else let payload_len = unat (from_le_bytes (take 4 data) :: u32)
           in if payload_len < 12 then Inl (TooShort 12 payload_len)
              else if length data < 4 + payload_len then Inl (TooShort (4 + payload_len) (length data))
              else case aes_gcm_decrypt C key (take 12 (drop 4 data)) (drop 16 (take (4 + payload_len) data)) aad of
                     Inl _ \<Rightarrow> Inl AuthFailed
                   | Inr m \<Rightarrow> Inr m)"

definition encrypt_frame :: "aead \<Rightarrow> bytes \<Rightarrow> bytes \<Rightarrow> bytes \<Rightarrow> FrameError + bytes" where
  "encrypt_frame C nonce plaintext key = seal_frame C nonce plaintext key []"

definition decrypt_frame :: "aead \<Rightarrow> bytes \<Rightarrow> bytes \<Rightarrow> FrameError + bytes" where
  "decrypt_frame C data key = open_frame C data key []"

definition encrypt_frame_aad :: "aead \<Rightarrow> bytes \<Rightarrow> bytes \<Rightarrow> bytes \<Rightarrow> u64 \<Rightarrow> FrameError + bytes" where
  "encrypt_frame_aad C nonce plaintext key seq = seal_frame C nonce plaintext key (le_bytes 8 seq)"

definition decrypt_frame_aad :: "aead \<Rightarrow> bytes \<Rightarrow> bytes \<Rightarrow> u64 \<Rightarrow> FrameError + bytes" where
  "decrypt_frame_aad C data key seq = open_frame C data key (le_bytes 8 seq)"

lemma open_sealed:
  assumes "aead_correct C" "length nonce = 12" "length m + 28 < 2 ^ 32"
    and "seal_frame C nonce m key aad = Inr f"
  shows "open_frame C (f @ rest) key aad' =
    (case aead_decrypt C key nonce (drop 16 f) aad' of None \<Rightarrow> Inl AuthFailed | Some m' \<Rightarrow> Inr m')"
    and "aead_encrypt C key nonce m aad = Some (drop 16 f)"
proof -
  from assms(4) obtain c where c: "aead_encrypt C key nonce m aad = Some c"
    "f = le_bytes 4 (of_nat (12 + length c) :: u32) @ nonce @ c"
    by (auto simp: seal_frame_def aes_gcm_encrypt_def Let_def split: option.splits)
  have len: "length c = length m + 16" using c(1) assms(1) by (simp add: aead_correctD)
  have "unat (of_nat (12 + length c) :: u32) = 12 + length c"
    using assms(3) len by (simp only: unat_of_nat) simp
  then show "open_frame C (f @ rest) key aad' =
    (case aead_decrypt C key nonce (drop 16 f) aad' of None \<Rightarrow> Inl AuthFailed | Some m' \<Rightarrow> Inr m')"
    using assms(2) by (simp add: open_frame_def c(2) Let_def aes_gcm_decrypt_def split: option.split)
  show "aead_encrypt C key nonce m aad = Some (drop 16 f)" using c assms(2) by simp
qed

text \<open>Encrypted frames round-trip and cannot be replayed. A frame sealed for a sequence number opens,
  whatever follows it, to its plaintext under that sequence number; under every other sequence number
  it is rejected as unauthentic, as far as the cipher authenticates the associated data.\<close>

lemma sealed_frame_opens_once:
  assumes "aead_correct C" "aead_binds_seq C" "length nonce = 12" "length m + 28 < 2 ^ 32"
    and "encrypt_frame_aad C nonce m key s = Inr f"
  shows "decrypt_frame_aad C (f @ rest) key t = (if t = s then Inr m else Inl AuthFailed)"
proof -
  note s = open_sealed [OF assms(1,3,4) assms(5) [unfolded encrypt_frame_aad_def]]
  show ?thesis
    using s(1) [of rest "le_bytes 8 t"] s(2) assms(1,2)
    by (auto simp: decrypt_frame_aad_def aead_correctD aead_binds_seq_def)
qed

text \<open>A cipher that only appends the associated data satisfies the laws.\<close>

definition toy_aead :: aead where
  "toy_aead = \<lparr>aead_encrypt = \<lambda>k n m a. if length a \<le> 16 then Some (m @ a @ replicate (16 - length a) 0) else None,
     aead_decrypt = \<lambda>k n c a. if 16 \<le> length c \<and> drop (length c - 16) c = a @ replicate (16 - length a) 0
       then Some (take (length c - 16) c) else None\<rparr>"

lemma toy_aead_correct: "aead_correct toy_aead"
  by (auto simp: aead_correct_def toy_aead_def split: if_splits)

lemma toy_aead_binds: "aead_binds_seq toy_aead"
  by (auto simp: aead_binds_seq_def toy_aead_def split: if_splits)

lemma sealed_frame_opens_once_example:
  "\<exists>f. encrypt_frame_aad toy_aead (replicate 12 0) [5, 6] [1] 3 = Inr f
     \<and> decrypt_frame_aad toy_aead f [1] 3 = Inr [5, 6] \<and> decrypt_frame_aad toy_aead f [1] 4 = Inl AuthFailed"
proof -
  obtain f where f: "encrypt_frame_aad toy_aead (replicate 12 0) [5, 6] [1] 3 = Inr f"
    by (simp add: encrypt_frame_aad_def seal_frame_def aes_gcm_encrypt_def toy_aead_def Let_def)
  have "decrypt_frame_aad toy_aead (f @ []) [1] t = (if t = 3 then Inr [5, 6] else Inl AuthFailed)" for t
    by (rule sealed_frame_opens_once [OF toy_aead_correct toy_aead_binds _ _ f]) simp_all
  from f this [of 3] this [of 4] show ?thesis by auto
qed

section \<open>Key exchange\<close>

definition build_hkdf_salt :: "bytes \<Rightarrow> bytes \<Rightarrow> bytes" where
  "build_hkdf_salt client_public_key server_public_key = client_public_key @ server_public_key"

definition HKDF_INFO :: bytes where "HKDF_INFO = map (\<lambda>c. of_nat (of_char c)) ''aes-key''"

definition derive_session_key ::
  "(bytes \<Rightarrow> bytes \<Rightarrow> bytes \<Rightarrow> string + bytes) \<Rightarrow> bytes \<Rightarrow> bytes \<Rightarrow> bytes \<Rightarrow> CryptoError + bytes" where
  "derive_session_key hkdf input_key_material salt info = map_inl HkdfError (hkdf input_key_material salt info)"

record SessionInfo =
  sf_session_id :: u64
  sf_server_tick :: u64
  sf_asset_manifest_hash :: bytes

record ServerHelloPayload =
  sh_server_public_key :: bytes
  sh_nonce :: bytes
  sh_encrypted_session_info :: bytes

datatype KeyExchangeError =
  InvalidClientKey | CryptoErrorKx CryptoError | DecodeErrorKx string | SerializationErrorKx string

text \<open>The external primitives of a handshake: the public key and the shared secret of a secret key, the
  key derivation and the serialiser.\<close>

record kx_env =
  kx_public :: "bytes \<Rightarrow> bytes"
  kx_shared :: "bytes \<Rightarrow> bytes \<Rightarrow> CryptoError + bytes"
  kx_hkdf :: "bytes \<Rightarrow> bytes \<Rightarrow> bytes \<Rightarrow> string + bytes"
  kx_ser :: "SessionInfo \<Rightarrow> string + bytes"
  kx_aead :: aead

definition begin_handshake ::
  "kx_env \<Rightarrow> bytes \<Rightarrow> bytes \<Rightarrow> bytes \<Rightarrow> SessionInfo \<Rightarrow> KeyExchangeError + (ServerHelloPayload \<times> bytes)" where
  "begin_handshake E server_secret nonce client_public_key session_info =
     (if \<forall>b \<in> set client_public_key. b = 0 then Inl InvalidClientKey
      else
        let server_public_key = kx_public E server_secret
        in bind_sum (map_inl CryptoErrorKx (kx_shared E server_secret client_public_key)) (\<lambda>shared_secret.
             let salt = build_hkdf_salt client_public_key server_public_key
             in bind_sum (map_inl CryptoErrorKx (derive_session_key (kx_hkdf E) shared_secret salt HKDF_INFO))
                  (\<lambda>session_key.
                    bind_sum (map_inl SerializationErrorKx (kx_ser E session_info)) (\<lambda>plaintext.
                      bind_sum (map_inl CryptoErrorKx (aes_gcm_encrypt (kx_aead E) session_key nonce plaintext []))
                        (\<lambda>encrypted_session_info.
                          Inr (\<lparr>sh_server_public_key = server_public_key, sh_nonce = nonce,
                                sh_encrypted_session_info = encrypted_session_info\<rparr>, session_key))))))"

text \<open>The key table of the key exchange service.\<close>

record SessionKeyEntry =
  ke_session_key :: bytes
  ke_created_at :: u64

type_synonym SessionRegistry = "(u64, SessionKeyEntry) btree"

definition registry_register :: "u64 \<Rightarrow> bytes \<Rightarrow> u64 \<Rightarrow> SessionRegistry \<Rightarrow> SessionRegistry" where
  "registry_register conn_id session_key now r =
     bm_insert conn_id \<lparr>ke_session_key = session_key, ke_created_at = now\<rparr> r"

definition registry_get :: "u64 \<Rightarrow> SessionRegistry \<Rightarrow> bytes option" where
  "registry_get conn_id r = map_option ke_session_key (bm_get r conn_id)"

definition registry_remove :: "u64 \<Rightarrow> SessionRegistry \<Rightarrow> SessionRegistry" where
  "registry_remove conn_id r = bm_remove conn_id r"

section \<open>The gateway's message loop\<close>

record gateway_conn =
  gc_recv_seq :: u64
  gc_send_seq :: u64
  gc_sent :: "bytes list"

text \<open>One binary message: \<open>None\<close> closes the connection. The nonce is the one a reply would use; sealing a
  reply is \<open>expect\<close>ed to succeed, and its failure is the panic.\<close>

definition gateway_message ::
  "aead \<Rightarrow> (NetMessage \<Rightarrow> bytes) \<Rightarrow> (bytes \<Rightarrow> NetMessage option) \<Rightarrow> bytes \<Rightarrow> bytes \<Rightarrow> bytes \<Rightarrow> gateway_conn
     \<Rightarrow> panic + gateway_conn option" where
  "gateway_message C ser de key nonce data g =
     (case decrypt_frame_aad C data key (gc_recv_seq g) of
        Inl _ \<Rightarrow> Inr None
      | Inr plaintext \<Rightarrow>
          let g = g\<lparr>gc_recv_seq := gc_recv_seq g + 1\<rparr>
          in case de plaintext of
               Some (Ping timestamp) \<Rightarrow>
                 (case encrypt_frame_aad C nonce (ser (Pong timestamp)) key (gc_send_seq g) of
                    Inl _ \<Rightarrow> Inl Panic
                  | Inr pong_frame \<Rightarrow>
                      Inr (Some (g\<lparr>gc_send_seq := gc_send_seq g + 1, gc_sent := gc_sent g @ [pong_frame]\<rparr>)))
             | _ \<Rightarrow> Inr (Some g))"

text \<open>How many of a sequence of messages are accepted before the connection closes; each comes with the random nonce a reply
  to it would use.\<close>

fun gateway_accepted ::
  "aead \<Rightarrow> (NetMessage \<Rightarrow> bytes) \<Rightarrow> (bytes \<Rightarrow> NetMessage option) \<Rightarrow> bytes \<Rightarrow> (bytes \<times> bytes) list \<Rightarrow> gateway_conn \<Rightarrow> nat" where
  "gateway_accepted C ser de key [] g = 0"
| "gateway_accepted C ser de key ((reply_nonce, d) # ds) g =
     (case gateway_message C ser de key reply_nonce d g of
        Inr (Some g') \<Rightarrow> Suc (gateway_accepted C ser de key ds g')
      | _ \<Rightarrow> 0)"

definition new_conn :: gateway_conn where
  "new_conn = \<lparr>gc_recv_seq = 0, gc_send_seq = 0, gc_sent = []\<rparr>"

text \<open>A frame as its sender made it: its own random nonce, plaintext and sequence number; and the nonce of a reply to it.\<close>

record sealed_message =
  sl_nonce :: bytes
  sl_plaintext :: bytes
  sl_seq :: u64
  sl_frame :: bytes
  sl_reply_nonce :: bytes

definition authentic_frame :: "aead \<Rightarrow> bytes \<Rightarrow> sealed_message \<Rightarrow> bool" where
  "authentic_frame C key x \<longleftrightarrow> length (sl_nonce x) = 12 \<and> length (sl_reply_nonce x) = 12 \<and> length (sl_plaintext x) + 28 < 2 ^ 32
     \<and> encrypt_frame_aad C (sl_nonce x) (sl_plaintext x) key (sl_seq x) = Inr (sl_frame x)"

definition as_received :: "sealed_message \<Rightarrow> bytes \<times> bytes" where
  "as_received x = (sl_reply_nonce x, sl_frame x)"

lemma gateway_message_accepts:
  assumes "aead_correct C" "aead_binds_seq C" "authentic_frame C key x"
    and "\<And>n ts t. length n = 12 \<Longrightarrow> aead_encrypt C key n (ser (Pong ts)) (le_bytes 8 (t :: u64)) \<noteq> None"
  shows "if sl_seq x = gc_recv_seq g
    then \<exists>g'. gateway_message C ser de key (sl_reply_nonce x) (sl_frame x) g = Inr (Some g') \<and> gc_recv_seq g' = gc_recv_seq g + 1
    else gateway_message C ser de key (sl_reply_nonce x) (sl_frame x) g = Inr None"
proof -
  note x = assms(3) [unfolded authentic_frame_def, THEN conjunct1]
    assms(3) [unfolded authentic_frame_def, THEN conjunct2, THEN conjunct1]
    assms(3) [unfolded authentic_frame_def, THEN conjunct2, THEN conjunct2, THEN conjunct1]
    assms(3) [unfolded authentic_frame_def, THEN conjunct2, THEN conjunct2, THEN conjunct2]
  have d: "decrypt_frame_aad C (sl_frame x) key t = (if t = sl_seq x then Inr (sl_plaintext x) else Inl AuthFailed)" for t
    using open_sealed(1) [OF assms(1) x(1,3) x(4) [unfolded encrypt_frame_aad_def], of "[]" "le_bytes 8 t"]
      open_sealed(2) [OF assms(1) x(1,3) x(4) [unfolded encrypt_frame_aad_def]] assms(1,2)
    by (auto simp: decrypt_frame_aad_def aead_correctD aead_binds_seq_def)
  have "\<exists>f. encrypt_frame_aad C (sl_reply_nonce x) (ser (Pong ts)) key t = Inr f" for ts t
    using assms(4) [OF x(2), of ts t]
    by (auto simp: encrypt_frame_aad_def seal_frame_def aes_gcm_encrypt_def Let_def)
  then show ?thesis
    by (auto simp: gateway_message_def d Let_def split: option.split NetMessage.split sum.split)
      (metis sum.distinct(1))
qed

lemma gateway_accepted_from:
  assumes "aead_correct C" "aead_binds_seq C" "\<forall>x \<in> set xs. authentic_frame C key x"
    and "\<And>n ts t. length n = 12 \<Longrightarrow> aead_encrypt C key n (ser (Pong ts)) (le_bytes 8 (t :: u64)) \<noteq> None"
    and "gc_recv_seq g = of_nat k"
  shows "gateway_accepted C ser de key (map as_received xs) g =
    length (takeWhile (\<lambda>(i, x). sl_seq x = of_nat i) (enumerate k xs))"
  using assms(3,5)
proof (induction xs arbitrary: g k)
  case (Cons x xs)
  then have "authentic_frame C key x" by simp
  note step = gateway_message_accepts [where ser = ser and g = g and de = de, OF assms(1,2) this assms(4)]
  show ?case
  proof (cases "sl_seq x = of_nat k")
    case True
    with step Cons.prems(2) obtain g' where "gateway_message C ser de key (sl_reply_nonce x) (sl_frame x) g = Inr (Some g')"
      "gc_recv_seq g' = of_nat (Suc k)" by auto
    with True Cons.IH [of g' "Suc k"] Cons.prems(1) show ?thesis by (simp add: as_received_def)
  next
    case False
    with step Cons.prems(2) show ?thesis by (simp add: as_received_def)
  qed
qed simp

text \<open>C40: The gateway accepts the messages of a connection strictly in order. Of any sequence of authentic
  frames of the session, each sealed with a nonce of its own, it accepts exactly the longest prefix in which the i-th frame
  carries sequence number i; the first replayed, dropped, reordered or repeated frame closes the connection. (Sealing a
  reply does not fail.)\<close>

theorem gateway_accepts_in_order:
  assumes "aead_correct C" "aead_binds_seq C" "\<forall>x \<in> set xs. authentic_frame C key x"
    and "\<And>n ts t. length n = 12 \<Longrightarrow> aead_encrypt C key n (ser (Pong ts)) (le_bytes 8 (t :: u64)) \<noteq> None"
  shows "gateway_accepted C ser de key (map as_received xs) new_conn =
    length (takeWhile (\<lambda>(i, x). sl_seq x = of_nat i) (enumerate 0 xs))"
  by (rule gateway_accepted_from [where ser = ser, OF assms]) (simp_all add: new_conn_def)

text \<open>Two frames sealed with different nonces, the second sent twice.\<close>

theorem gateway_accepts_in_order_witness:
  "\<exists>f0 f1. encrypt_frame_aad toy_aead (replicate 12 4) [9] [1] 0 = Inr f0
     \<and> encrypt_frame_aad toy_aead (replicate 12 5) [9] [1] 1 = Inr f1
     \<and> gateway_accepted toy_aead (\<lambda>_. []) (\<lambda>_. None) [1]
         [(replicate 12 6, f0), (replicate 12 7, f1), (replicate 12 8, f1)] new_conn = 2"
proof -
  have ok: "\<exists>f. encrypt_frame_aad toy_aead (replicate 12 n) [9] [1] t = Inr f" for n t
    by (simp add: encrypt_frame_aad_def seal_frame_def aes_gcm_encrypt_def toy_aead_def Let_def)
  obtain f0 f1 where f: "encrypt_frame_aad toy_aead (replicate 12 4) [9] [1] 0 = Inr f0"
    "encrypt_frame_aad toy_aead (replicate 12 5) [9] [1] 1 = Inr f1" using ok by blast
  let ?x = "\<lambda>n t f r. \<lparr>sl_nonce = replicate 12 n, sl_plaintext = [9], sl_seq = t, sl_frame = f, sl_reply_nonce = replicate 12 r\<rparr>"
  let ?xs = "[?x 4 0 f0 6, ?x 5 1 f1 7, ?x 5 1 f1 8]"
  have "gateway_accepted toy_aead (\<lambda>_. []) (\<lambda>_. None) [1] (map as_received ?xs) new_conn
      = length (takeWhile (\<lambda>(i, x). sl_seq x = of_nat i) (enumerate 0 ?xs))"
    by (rule gateway_accepts_in_order [OF toy_aead_correct toy_aead_binds])
      (simp_all add: f authentic_frame_def, simp add: toy_aead_def)
  with f show ?thesis by (auto simp: as_received_def)
qed

end
