(* ===== verification/Bytecode_Format.thy ===== *)
theory Bytecode_Format
  imports State_Hash Crypto_Frames
begin

text \<open>
  The container of compiled scripts (\<^verbatim>\<open>build/bytecode_compiler\<close>): the byte layout, compiling a script
  into a signed and encrypted file, and loading one. Cipher, signature scheme, blake3, bincode and the
  script parser (rhai) are parameters; the build time and the nonce are arguments.
\<close>

section \<open>Layout\<close>

definition MAGIC :: bytes where "MAGIC = [0x52, 0x48, 0x42, 0x43]"
definition FORMAT_VERSION_MAJOR :: u8 where "FORMAT_VERSION_MAJOR = 1"
definition FORMAT_VERSION_MINOR :: u8 where "FORMAT_VERSION_MINOR = 0"
definition DEBUG_VERSION_MINOR :: u8 where "DEBUG_VERSION_MINOR = 0xFF"
definition HEADER_FIXED_SIZE :: nat where "HEADER_FIXED_SIZE = 4 + 2 + 2"
definition NONCE_SIZE :: nat where "NONCE_SIZE = 12"
definition AUTH_TAG_SIZE :: nat where "AUTH_TAG_SIZE = 16"
definition SIGNATURE_SIZE :: nat where "SIGNATURE_SIZE = 64"

lemmas sizes = HEADER_FIXED_SIZE_def NONCE_SIZE_def AUTH_TAG_SIZE_def SIGNATURE_SIZE_def

record ScriptMetadata =
  md_script_id :: string
  md_priority :: u8
  md_source_hash :: Blake3Hash
  md_build_timestamp :: u64

datatype FormatError =
    InvalidMagic bytes
  | TruncatedData nat nat
  | MetadataDeserializationFailed string
  | MetadataLengthOutOfRange

datatype CompileError =
    RhaiParseFailed string
  | EncryptionFailed CryptoError
  | EmptySource

datatype LoadError =
    Format FormatError
  | IncompatibleVersion u8 u8
  | DecryptionFailed CryptoError
  | SignatureVerificationFailedLoad
  | SourceDecodeFailed
  | RhaiCompileFailed string
  | DebugBuildBytecode

definition assemble_bytecode :: "bytes \<Rightarrow> bytes \<Rightarrow> bytes \<Rightarrow> bytes \<Rightarrow> bytes \<Rightarrow> u8 \<Rightarrow> u8 \<Rightarrow> bytes" where
  "assemble_bytecode metadata_bytes nonce ciphertext auth_tag signature version_major version_minor =
     MAGIC @ [version_major, version_minor] @ le_bytes 2 (of_nat (length metadata_bytes) :: u16)
     @ metadata_bytes @ nonce @ ciphertext @ auth_tag @ signature"

record BytecodeHeader =
  bh_version_major :: u8
  bh_version_minor :: u8
  bh_metadata_bytes :: bytes
  bh_remaining :: bytes

definition header_metadata_len :: "bytes \<Rightarrow> nat" where
  "header_metadata_len data = unat (from_le_bytes (take 2 (drop 6 data)) :: u16)"

definition parse_header :: "bytes \<Rightarrow> FormatError + BytecodeHeader" where
  "parse_header data =
     (if length data < HEADER_FIXED_SIZE then Inl (TruncatedData HEADER_FIXED_SIZE (length data))
      else if take 4 data \<noteq> MAGIC then Inl (InvalidMagic (take 4 data))
      else let metadata_len = header_metadata_len data
           in if HEADER_FIXED_SIZE + metadata_len > length data then Inl MetadataLengthOutOfRange
              else Inr \<lparr>bh_version_major = data ! 4, bh_version_minor = data ! 5,
                        bh_metadata_bytes = take metadata_len (drop HEADER_FIXED_SIZE data),
                        bh_remaining = drop (HEADER_FIXED_SIZE + metadata_len) data\<rparr>)"

text \<open>The external functions of compiling and loading.\<close>

record 'ast bytecode_env =
  be_blake3 :: "bytes \<Rightarrow> Blake3Hash"
  be_parse :: "string \<Rightarrow> string + 'ast"
  be_ser :: "ScriptMetadata \<Rightarrow> string + bytes"
  be_de :: "bytes \<Rightarrow> string + ScriptMetadata"
  be_aead :: aead
  be_verify :: "bytes \<Rightarrow> bytes \<Rightarrow> bytes \<Rightarrow> bool"

definition deserialize_metadata :: "'ast bytecode_env \<Rightarrow> BytecodeHeader \<Rightarrow> FormatError + ScriptMetadata" where
  "deserialize_metadata E header = map_inl MetadataDeserializationFailed (be_de E (bh_metadata_bytes header))"

definition read_metadata :: "'ast bytecode_env \<Rightarrow> bytes \<Rightarrow> FormatError + ScriptMetadata" where
  "read_metadata E data = bind_sum (parse_header data) (deserialize_metadata E)"

section \<open>Compiling and loading\<close>

definition compile ::
  "'ast bytecode_env \<Rightarrow> (bytes \<Rightarrow> bytes) \<Rightarrow> bytes \<Rightarrow> u64 \<Rightarrow> string \<Rightarrow> string \<Rightarrow> u8 \<Rightarrow> bytes
     \<Rightarrow> panic + (CompileError + bytes)" where
  "compile E sign nonce build_timestamp source script_id priority encryption_key =
     (if source = [] then Inr (Inl EmptySource)
      else
        let source_hash = be_blake3 E (as_bytes source)
        in case be_parse E source of
             Inl e \<Rightarrow> Inr (Inl (RhaiParseFailed e))
           | Inr _ \<Rightarrow>
               let plaintext_payload = as_bytes source;
                   metadata = \<lparr>md_script_id = script_id, md_priority = priority,
                               md_source_hash = source_hash, md_build_timestamp = build_timestamp\<rparr>
               in case be_ser E metadata of
                    Inl _ \<Rightarrow> Inl Panic
                  | Inr metadata_bytes \<Rightarrow>
                      if \<not> length metadata_bytes \<le> 65535 then Inl Panic
                      else
                        let signature = sign (metadata_bytes @ plaintext_payload)
                        in case aes_encrypt_parts (be_aead E) nonce encryption_key plaintext_payload of
                             Inl e \<Rightarrow> Inr (Inl (EncryptionFailed e))
                           | Inr enc \<Rightarrow>
                               Inr (Inr (assemble_bytecode metadata_bytes (ap_nonce enc) (ap_ciphertext enc)
                                 (ap_tag enc) signature FORMAT_VERSION_MAJOR FORMAT_VERSION_MINOR)))"

text \<open>The body both loaders share: the bytes between the header and the payload.\<close>

definition check_header :: "bytes \<Rightarrow> LoadError + unit" where
  "check_header data =
     (if length data < HEADER_FIXED_SIZE then Inl (Format (TruncatedData HEADER_FIXED_SIZE (length data)))
      else if take 4 data \<noteq> MAGIC then Inl (Format (InvalidMagic (take 4 data)))
      else Inr ())"

definition load ::
  "'ast bytecode_env \<Rightarrow> bytes \<Rightarrow> bytes \<Rightarrow> bytes \<Rightarrow> LoadError + (ScriptMetadata \<times> 'ast)" where
  "load E data verifying_key decryption_key =
     bind_sum (check_header data) (\<lambda>_.
       let major = data ! 4; minor = data ! 5
       in if minor = DEBUG_VERSION_MINOR then Inl DebugBuildBytecode
          else if major \<noteq> FORMAT_VERSION_MAJOR then Inl (IncompatibleVersion FORMAT_VERSION_MAJOR major)
          else
            let metadata_len = header_metadata_len data;
                min_total = HEADER_FIXED_SIZE + metadata_len + NONCE_SIZE + AUTH_TAG_SIZE + SIGNATURE_SIZE
            in if min_total > length data then Inl (Format MetadataLengthOutOfRange)
               else
                 let metadata_bytes = take metadata_len (drop HEADER_FIXED_SIZE data)
                 in bind_sum (map_inl (\<lambda>e. Format (MetadataDeserializationFailed e)) (be_de E metadata_bytes))
                    (\<lambda>metadata.
                      let metadata_end = HEADER_FIXED_SIZE + metadata_len;
                          nonce_bytes = take NONCE_SIZE (drop metadata_end data);
                          signature = drop (length data - SIGNATURE_SIZE) data;
                          tag_start = length data - SIGNATURE_SIZE - AUTH_TAG_SIZE;
                          auth_tag = take AUTH_TAG_SIZE (drop tag_start data);
                          ciphertext = drop (metadata_end + NONCE_SIZE) (take tag_start data);
                          parts = \<lparr>ap_nonce = nonce_bytes, ap_ciphertext = ciphertext, ap_tag = auth_tag\<rparr>
                      in bind_sum (map_inl DecryptionFailed (aes_decrypt_parts (be_aead E) decryption_key parts))
                         (\<lambda>plaintext.
                           if \<not> be_verify E verifying_key (metadata_bytes @ plaintext) signature
                           then Inl SignatureVerificationFailedLoad
                           else case from_utf8 plaintext of
                                  None \<Rightarrow> Inl SourceDecodeFailed
                                | Some source \<Rightarrow>
                                    bind_sum (map_inl RhaiCompileFailed (be_parse E source))
                                      (\<lambda>ast. Inr (metadata, ast)))))"

definition compile_debug ::
  "'ast bytecode_env \<Rightarrow> u64 \<Rightarrow> string \<Rightarrow> string \<Rightarrow> u8 \<Rightarrow> panic + (CompileError + bytes)" where
  "compile_debug E build_timestamp source script_id priority =
     (if source = [] then Inr (Inl EmptySource)
      else
        let source_hash = be_blake3 E (as_bytes source)
        in case be_parse E source of
             Inl e \<Rightarrow> Inr (Inl (RhaiParseFailed e))
           | Inr _ \<Rightarrow>
               let metadata = \<lparr>md_script_id = script_id, md_priority = priority,
                               md_source_hash = source_hash, md_build_timestamp = build_timestamp\<rparr>
               in case be_ser E metadata of
                    Inl _ \<Rightarrow> Inl Panic
                  | Inr metadata_bytes \<Rightarrow>
                      if \<not> length metadata_bytes \<le> 65535 then Inl Panic
                      else Inr (Inr (assemble_bytecode metadata_bytes (replicate 12 0) (as_bytes source)
                             (replicate 16 0) (replicate 64 0) FORMAT_VERSION_MAJOR DEBUG_VERSION_MINOR)))"

definition load_debug :: "'ast bytecode_env \<Rightarrow> bytes \<Rightarrow> LoadError + (ScriptMetadata \<times> 'ast)" where
  "load_debug E data =
     bind_sum (check_header data) (\<lambda>_.
       let major = data ! 4; minor = data ! 5
       in if minor \<noteq> DEBUG_VERSION_MINOR then Inl (IncompatibleVersion FORMAT_VERSION_MAJOR major)
          else if major \<noteq> FORMAT_VERSION_MAJOR then Inl (IncompatibleVersion FORMAT_VERSION_MAJOR major)
          else
            let metadata_len = header_metadata_len data;
                min_total = HEADER_FIXED_SIZE + metadata_len + NONCE_SIZE + AUTH_TAG_SIZE + SIGNATURE_SIZE
            in if min_total > length data then Inl (Format MetadataLengthOutOfRange)
               else
                 let metadata_bytes = take metadata_len (drop HEADER_FIXED_SIZE data)
                 in bind_sum (map_inl (\<lambda>e. Format (MetadataDeserializationFailed e)) (be_de E metadata_bytes))
                    (\<lambda>metadata.
                      let metadata_end = HEADER_FIXED_SIZE + metadata_len;
                          tag_start = length data - SIGNATURE_SIZE - AUTH_TAG_SIZE;
                          payload = drop (metadata_end + NONCE_SIZE) (take tag_start data)
                      in case from_utf8 payload of
                           None \<Rightarrow> Inl SourceDecodeFailed
                         | Some source \<Rightarrow>
                             bind_sum (map_inl RhaiCompileFailed (be_parse E source))
                               (\<lambda>ast. Inr (metadata, ast))))"

section \<open>Lemmas\<close>

lemma char_of_byte: "char_of (unat (of_char c :: u8)) = c"
proof -
  have eq: "(of_char c :: u8) = of_nat (of_char c)" by (simp only: of_nat_of_char)
  show ?thesis unfolding eq by (simp only: unat_of_nat) simp
qed

lemma from_utf8_as_bytes: "utf8_valid (as_bytes s) \<Longrightarrow> from_utf8 (as_bytes s) = Some s"
  by (simp add: from_utf8_def as_bytes_def comp_def char_of_byte)

lemma metadata_len_assembled:
  assumes "length mb \<le> 65535"
  shows "header_metadata_len (assemble_bytecode mb n c t s j i) = length mb"
proof -
  have "take 2 (drop 6 (assemble_bytecode mb n c t s j i)) = le_bytes 2 (of_nat (length mb) :: u16)"
    by (simp add: assemble_bytecode_def MAGIC_def)
  moreover have "unat (of_nat (length mb) :: u16) = length mb"
    using assms by (simp only: unat_of_nat) simp
  ultimately show ?thesis by (simp add: header_metadata_len_def)
qed

lemma assembled_parts:
  fixes mb n c t s j i
  defines "data \<equiv> assemble_bytecode mb n c t s j i"
  assumes "length n = 12" "length t = 16" "length s = 64"
  shows "length data = 8 + length mb + 12 + length c + 16 + 64"
    and "take 4 data = MAGIC" "data ! 4 = j" "data ! 5 = i"
    and "take (length mb) (drop 8 data) = mb"
    and "take 12 (drop (8 + length mb) data) = n"
    and "drop (20 + length mb) (take (20 + length mb + length c) data) = c"
    and "take 16 (drop (20 + length mb + length c) data) = t"
    and "drop (36 + length mb + length c) data = s"
proof -
  let ?h = "MAGIC @ [j, i] @ le_bytes 2 (of_nat (length mb) :: u16)"
  have h: "length ?h = 8" by (simp add: MAGIC_def)
  have data: "data = ?h @ mb @ n @ c @ t @ s" by (simp add: data_def assemble_bytecode_def)
  show "length data = 8 + length mb + 12 + length c + 16 + 64"
    using h assms(2-) by (simp add: data)
  show "take 4 data = MAGIC" "data ! 4 = j" "data ! 5 = i"
    by (simp_all add: data MAGIC_def)
  show "take (length mb) (drop 8 data) = mb"
    using split_at_eq [OF data h] by simp
  have "data = (?h @ mb) @ n @ c @ t @ s" by (simp add: data)
  from split_at_eq [OF this, of "8 + length mb"] h assms(2)
  show "take 12 (drop (8 + length mb) data) = n" by simp
  have 1: "data = (?h @ mb @ n) @ c @ t @ s" by (simp add: data)
  have 2: "data = (?h @ mb @ n @ c) @ t @ s" by (simp add: data)
  have "take (20 + length mb + length c) data = (?h @ mb @ n) @ c"
    using split_at_eq [OF 2, of "20 + length mb + length c"] h assms(2) by simp
  from split_at_eq [OF this, of "20 + length mb"] h assms(2)
  show "drop (20 + length mb) (take (20 + length mb + length c) data) = c" by simp
  show "take 16 (drop (20 + length mb + length c) data) = t"
    using split_at_eq [OF 2, of "20 + length mb + length c"] h assms(2,3) by simp
  have 3: "data = (?h @ mb @ n @ c @ t) @ s" by (simp add: data)
  show "drop (36 + length mb + length c) data = s"
    using split_at_eq [OF 3, of "36 + length mb + length c"] h assms(2,3) by simp
qed

lemma load_assembled:
  assumes "length nonce = 12" "length t = 16" "length sg = 64" "length mb \<le> 65535"
    and de: "be_de E mb = Inr md"
    and dec: "aes_decrypt_parts (be_aead E) key \<lparr>ap_nonce = nonce, ap_ciphertext = c, ap_tag = t\<rparr> = Inr pt"
    and ver: "be_verify E pub (mb @ pt) sg" and src: "from_utf8 pt = Some source" "be_parse E source = Inr ast"
  shows "load E (assemble_bytecode mb nonce c t sg FORMAT_VERSION_MAJOR FORMAT_VERSION_MINOR) pub key = Inr (md, ast)"
    (is "load E ?out pub key = _")
proof -
  note layout = assembled_parts [OF assms(1-3), of mb c FORMAT_VERSION_MAJOR FORMAT_VERSION_MINOR]
  have hl: "header_metadata_len ?out = length mb" by (rule metadata_len_assembled [OF assms(4)])
  have ends: "length ?out - 64 = 36 + length mb + length c" "length ?out - 64 - 16 = 20 + length mb + length c"
    "length ?out - 80 = 20 + length mb + length c" using layout(1) by simp_all
  have "check_header ?out = Inr ()" using layout(1,2) by (simp add: check_header_def sizes)
  then show ?thesis
    unfolding load_def Let_def hl sizes
    using layout(1,3-9) [unfolded add.assoc] ends [unfolded add.assoc] de dec ver src
    by (simp add: FORMAT_VERSION_MAJOR_def FORMAT_VERSION_MINOR_def DEBUG_VERSION_MINOR_def add.assoc)
qed

lemma compile_then_load:
  fixes source :: string
  assumes "compile E sign nonce now source script_id priority key = Inr (Inr out)"
    and "aead_correct (be_aead E)" "length nonce = 12" "\<And>m. length (sign m) = 64"
    and "\<And>m. be_verify E pub m (sign m)"
    and "\<And>md b. be_ser E md = Inr b \<Longrightarrow> be_de E b = Inr md"
    and "utf8_valid (as_bytes source)"
  shows "\<exists>ast. be_parse E source = Inr ast \<and> load E out pub key =
    Inr (\<lparr>md_script_id = script_id, md_priority = priority,
          md_source_hash = be_blake3 E (as_bytes source), md_build_timestamp = now\<rparr>, ast)"
proof -
  let ?md = "\<lparr>md_script_id = script_id, md_priority = priority,
          md_source_hash = be_blake3 E (as_bytes source), md_build_timestamp = now\<rparr>"
  from assms(1) obtain ast mb enc where ast: "be_parse E source = Inr ast" and mb: "be_ser E ?md = Inr mb"
    and len: "length mb \<le> 65535"
    and enc: "aes_encrypt_parts (be_aead E) nonce key (as_bytes source) = Inr enc"
    and out: "out = assemble_bytecode mb (ap_nonce enc) (ap_ciphertext enc) (ap_tag enc)
      (sign (mb @ as_bytes source)) FORMAT_VERSION_MAJOR FORMAT_VERSION_MINOR"
    by (auto simp: compile_def Let_def split: if_splits sum.splits)
  obtain c t where parts: "enc = \<lparr>ap_nonce = nonce, ap_ciphertext = c, ap_tag = t\<rparr>" and t: "length t = 16"
    using aes_parts_length [OF assms(2) enc] by (cases enc) simp
  have "load E out pub key = Inr (?md, ast)"
    unfolding out parts AesEncryptedParts.simps
    using aes_parts_roundtrip [OF assms(2) enc] assms(3-5) t len assms(6) [OF mb] ast
      from_utf8_as_bytes [OF assms(7)]
    by (intro load_assembled) (simp_all add: parts)
  with ast show ?thesis by blast
qed

text \<open>What the compiler writes the loader reads. If compiling a source succeeds, with a signature key
  and an encryption key whose counterparts the loader holds, then loading the file succeeds and gives
  back the script's metadata (identifier, priority, source hash and build time) and the parsed
  source.\<close>

lemma compile_load_roundtrip:
  fixes source :: string
  assumes "compile E sign nonce now source script_id priority key = Inr (Inr out)"
    and "aead_correct (be_aead E)" "length nonce = 12" "\<And>m. length (sign m) = 64"
    and "\<And>m. be_verify E pub m (sign m)"
    and "\<And>md b. be_ser E md = Inr b \<Longrightarrow> be_de E b = Inr md"
    and "utf8_valid (as_bytes source)"
  shows "\<exists>ast. be_parse E source = Inr ast \<and> load E out pub key =
    Inr (\<lparr>md_script_id = script_id, md_priority = priority,
          md_source_hash = be_blake3 E (as_bytes source), md_build_timestamp = now\<rparr>, ast)"
  using assms by (rule compile_then_load)

text \<open>Nothing unsigned runs. Whatever bytes a loader is given, a script is only returned if the
  release format was checked and the signature at the end of the file verifies, under the loader's
  key, for the metadata of the file followed by the decrypted source; the returned script is that
  source, parsed.\<close>

lemma load_sound:
  assumes "load E data pub key = Inr (md, ast)"
  shows "\<exists>mb plaintext source. take 4 data = MAGIC \<and> data ! 4 = FORMAT_VERSION_MAJOR \<and> data ! 5 \<noteq> DEBUG_VERSION_MINOR
    \<and> be_de E mb = Inr md \<and> be_verify E pub (mb @ plaintext) (drop (length data - 64) data)
    \<and> from_utf8 plaintext = Some source \<and> be_parse E source = Inr ast"
  using assms
  by (auto simp: load_def check_header_def Let_def bind_sum_def map_inl_def sizes
      split: sum.splits if_splits option.splits)

text \<open>Release and debug files exclude each other.\<close>

lemma debug_not_loadable: "load E data pub key = Inr x \<Longrightarrow> load_debug E data = Inr y \<Longrightarrow> False"
  by (auto simp: load_def load_debug_def check_header_def Let_def bind_sum_def
      split: sum.splits if_splits)

section \<open>Witnesses\<close>

definition toy_metadata :: ScriptMetadata where
  "toy_metadata = \<lparr>md_script_id = ''s'', md_priority = 1, md_source_hash = [], md_build_timestamp = 9\<rparr>"

definition toy_env :: "string bytecode_env" where
  "toy_env = \<lparr>be_blake3 = \<lambda>_. [], be_parse = Inr, be_ser = \<lambda>md. if md = toy_metadata then Inr [1] else Inl [],
     be_de = \<lambda>b. if b = [1] then Inr toy_metadata else Inl [], be_aead = toy_aead,
     be_verify = \<lambda>k m s. s = replicate 64 7\<rparr>"

lemma compile_load_roundtrip_example:
  "\<exists>out. compile toy_env (\<lambda>_. replicate 64 7) (replicate 12 0) 9 ''a'' ''s'' 1 [3] = Inr (Inr out)
     \<and> load toy_env out [4] [3] = Inr (toy_metadata, ''a'')"
proof -
  obtain enc where "aes_encrypt_parts toy_aead (replicate 12 0) [3] (as_bytes ''a'') = Inr enc"
    by (simp add: aes_encrypt_parts_def toy_aead_def Let_def)
  then obtain out where out: "compile toy_env (\<lambda>_. replicate 64 7) (replicate 12 0) 9 ''a'' ''s'' 1 [3] = Inr (Inr out)"
    by (simp add: compile_def toy_env_def toy_metadata_def Let_def)
  have "\<exists>ast. be_parse toy_env ''a'' = Inr ast \<and> load toy_env out [4] [3] =
    Inr (\<lparr>md_script_id = ''s'', md_priority = 1,
          md_source_hash = be_blake3 toy_env (as_bytes ''a''), md_build_timestamp = 9\<rparr>, ast)"
    by (rule compile_load_roundtrip [OF out])
      (simp_all add: toy_env_def toy_aead_correct as_bytes_def split: if_splits)
  with out show ?thesis by (simp add: toy_env_def toy_metadata_def)
qed

lemma load_sound_example:
  "\<exists>data mb plaintext. load toy_env data [4] [3] = Inr (toy_metadata, [])
     \<and> be_verify toy_env [4] (mb @ plaintext) (drop (length data - 64) data)"
proof -
  let ?data = "assemble_bytecode [1] (replicate 12 0) [] (replicate 16 0) (replicate 64 7)
    FORMAT_VERSION_MAJOR FORMAT_VERSION_MINOR"
  have "aes_decrypt_parts (be_aead toy_env) [3] \<lparr>ap_nonce = replicate 12 0, ap_ciphertext = [], ap_tag = replicate 16 0\<rparr>
      = Inr []"
    by (simp add: toy_env_def toy_aead_def aes_decrypt_parts_def)
  then have "load toy_env ?data [4] [3] = Inr (toy_metadata, [])"
    by (rule load_assembled [rotated 5]) (simp_all add: toy_env_def from_utf8_def)
  with load_sound [OF this] show ?thesis by blast
qed

end
