(* ===== verification/Script_Runtime.thy ===== *)
theory Script_Runtime
  imports Bytecode_Format
begin

text \<open>
  One script (\<^verbatim>\<open>engine/vm_runtime/src\<close>: \<open>scope_limiter.rs\<close>, \<open>lifecycle.rs\<close>). The
  script engine (rhai) is a parameter: what evaluating a script and calling one of its functions does
  to its variables and to the state all scripts share (the clock, and through the bridge the operation counters, entity
  identifiers and event queue), and how long it takes. The shared state is part of the engine and passed from call to call. The frame budget is an \<open>f64\<close>;
  its three operations are parameters. Times in errors are kept in microseconds (the code stores them
  divided by 1000 as an \<open>f64\<close>).
\<close>

section \<open>Variables of a script\<close>

datatype Dynamic =
    DynInt u64
  | DynFloat u64
  | DynBool bool
  | DynString string
  | DynArray "Dynamic list"
  | DynMap "(string \<times> Dynamic) list"
  | DynOther

type_synonym Scope = "(string \<times> Dynamic) list"

definition SCOPE_MAX_VARS :: nat where "SCOPE_MAX_VARS = 256"
definition SCOPE_MAX_VAR_BYTES :: nat where "SCOPE_MAX_VAR_BYTES = 64 * 1024"

datatype ScopeLimitError =
    TooManyVariables nat nat
  | VariableTooLarge string nat nat

fun display_scope_error :: "ScopeLimitError \<Rightarrow> string" where
  "display_scope_error (TooManyVariables current limit) =
     utf8 [0xE8, 0xAE, 0x8A, 0xE6, 0x95, 0xB8, 0xE6, 0x95, 0xB8, 0xE9, 0x87, 0x8F, 0xE8, 0xB6, 0x85, 0xE9, 0x81, 0x8E, 0xE4, 0xB8, 0x8A, 0xE9, 0x99, 0x90] @ '': current='' @ decimal current @ '', limit='' @ decimal limit"
| "display_scope_error (VariableTooLarge var_name current_bytes limit) =
     utf8 [0xE8, 0xAE, 0x8A, 0xE6, 0x95, 0xB8] @ '' '' @ utf8 [0x27] @ var_name @ utf8 [0x27] @ '' '' @ utf8 [0xE5, 0xA4, 0xA7, 0xE5, 0xB0, 0x8F, 0xE8, 0xB6, 0x85, 0xE9, 0x81, 0x8E, 0xE4, 0xB8, 0x8A, 0xE9, 0x99, 0x90] @ '': current_bytes='' @ decimal current_bytes @ '', limit='' @ decimal limit"

fun estimate_dynamic_size_inner :: "Dynamic \<Rightarrow> nat \<Rightarrow> nat" where
  "estimate_dynamic_size_inner v depth =
     (if depth > 8 then 0
      else case v of
        DynInt _ \<Rightarrow> 8
      | DynFloat _ \<Rightarrow> 8
      | DynBool _ \<Rightarrow> 1
      | DynString s \<Rightarrow> length s
      | DynArray vs \<Rightarrow> sum_list (map (\<lambda>v. estimate_dynamic_size_inner v (depth + 1)) vs)
      | DynMap kvs \<Rightarrow>
          sum_list (map (\<lambda>kv. length (fst kv) + estimate_dynamic_size_inner (snd kv) (depth + 1)) kvs)
      | DynOther \<Rightarrow> 0)"

declare estimate_dynamic_size_inner.simps [simp del]

definition estimate_dynamic_size :: "Dynamic \<Rightarrow> nat" where
  "estimate_dynamic_size v = estimate_dynamic_size_inner v 0"

fun check_sizes :: "Scope \<Rightarrow> nat \<Rightarrow> ScopeLimitError + nat" where
  "check_sizes [] var_count = Inr var_count"
| "check_sizes ((name, value) # rest) var_count =
     (let size = estimate_dynamic_size value
      in if size > SCOPE_MAX_VAR_BYTES then Inl (VariableTooLarge name size SCOPE_MAX_VAR_BYTES)
         else check_sizes rest (var_count + 1))"

definition check_scope_sizes :: "Scope \<Rightarrow> ScopeLimitError + unit" where
  "check_scope_sizes scope =
     bind_sum (check_sizes scope 0) (\<lambda>var_count.
       if var_count > SCOPE_MAX_VARS then Inl (TooManyVariables var_count SCOPE_MAX_VARS) else Inr ())"

text \<open>The run-time limiter counts definitions with one atomic counter, and refuses from the 257th on.\<close>

definition on_def_var :: "bool \<Rightarrow> nat \<Rightarrow> bool \<times> nat" where
  "on_def_var is_runtime var_count =
     (if \<not> is_runtime then (True, var_count)
      else if var_count \<ge> SCOPE_MAX_VARS then (False, var_count + 1) else (True, var_count + 1))"

lemma check_sizes_ok:
  "check_sizes sc n = Inr m \<longleftrightarrow>
     m = n + length sc \<and> (\<forall>(k, v) \<in> set sc. estimate_dynamic_size v \<le> SCOPE_MAX_VAR_BYTES)"
  by (induction sc n rule: check_sizes.induct) (auto simp: Let_def)

lemma check_scope_sizes_ok:
  "check_scope_sizes sc = Inr () \<longleftrightarrow>
     length sc \<le> SCOPE_MAX_VARS \<and> (\<forall>(k, v) \<in> set sc. estimate_dynamic_size v \<le> SCOPE_MAX_VAR_BYTES)"
proof (cases "check_sizes sc 0")
  case (Inl e)
  then have "\<not> (\<forall>(k, v) \<in> set sc. estimate_dynamic_size v \<le> SCOPE_MAX_VAR_BYTES)"
    using check_sizes_ok [of sc 0 "length sc"] by auto
  with Inl show ?thesis by (simp add: check_scope_sizes_def)
next
  case (Inr m)
  with check_sizes_ok [of sc 0 m] show ?thesis by (auto simp: check_scope_sizes_def)
qed

section \<open>The engine and one script\<close>

datatype ScriptError =
    ScriptTimeout string u64 u64
  | OperationLimit string u64 u64
  | RuntimeError string string u64
  | ScriptCompileError string
  | BudgetExhausted
  | ScopeLimitExceeded string string u64

datatype EvalError =
    ErrorTooManyOperations
  | ErrorTerminated u64 \<comment> \<open>the value the progress callback returned, 0 if it is no integer\<close>
  | ErrorFunctionNotFound string
  | OtherEvalError string

datatype 'd hook_args = NoArgs | OneArg 'd | TwoArgs string 'd

text \<open>Evaluating a script and calling one of its functions may change what all scripts share: the clock, and the state of
  the bridge with its operation counters, entity identifiers and event queue. This is \<open>sb_shared\<close>, which every call
  reads and replaces.\<close>

record ('ast, 'd, 'b, 'w) SandboxedEngine =
  sb_timeout_micros :: u64
  sb_shared :: 'w
  sb_functions :: "'ast \<Rightarrow> string list"
  sb_eval_ast :: "u64 \<Rightarrow> 'w \<Rightarrow> Scope \<Rightarrow> 'ast \<Rightarrow> (EvalError + unit) \<times> 'w \<times> Scope"
  sb_call_fn :: "u64 \<Rightarrow> 'w \<Rightarrow> Scope \<Rightarrow> 'ast \<Rightarrow> string \<Rightarrow> 'd hook_args \<Rightarrow> (EvalError + unit) \<times> 'w \<times> Scope \<times> u64"
  sb_show_error :: "EvalError \<Rightarrow> string"
  sb_dt :: "SoftF32 \<Rightarrow> 'd"
  sb_budget_new :: 'b
  sb_budget_exhausted :: "'b \<Rightarrow> bool"
  sb_budget_deduct :: "u64 \<Rightarrow> 'b \<Rightarrow> 'b"

datatype LifecycleHookName = HookInit | HookTick | HookEvent | HookInput | HookUnload

definition UNLOAD_TIMEOUT_MICROS :: u64 where "UNLOAD_TIMEOUT_MICROS = 3000"
definition DEFAULT_TIMEOUT_MICROS :: u64 where "DEFAULT_TIMEOUT_MICROS = 2000"

record 'ast ScriptInstance =
  in_script_id :: string
  in_ast :: 'ast
  in_scope :: Scope
  in_priority :: u8
  in_initialized :: bool

definition instance_new :: "string \<Rightarrow> 'ast \<Rightarrow> u8 \<Rightarrow> 'ast ScriptInstance" where
  "instance_new script_id ast priority =
     \<lparr>in_script_id = script_id, in_ast = ast, in_scope = [], in_priority = priority, in_initialized = False\<rparr>"

definition has_function :: "('ast, 'd, 'b, 'w) SandboxedEngine \<Rightarrow> string \<Rightarrow> 'ast ScriptInstance \<Rightarrow> bool" where
  "has_function E name i \<longleftrightarrow> name \<in> set (sb_functions E (in_ast i))"

definition replace_ast :: "'ast \<Rightarrow> 'ast ScriptInstance \<Rightarrow> 'ast \<times> 'ast ScriptInstance" where
  "replace_ast new_ast i = (in_ast i, i\<lparr>in_ast := new_ast, in_scope := [], in_initialized := False\<rparr>)"

definition map_hook_error ::
  "('ast, 'd, 'b, 'w) SandboxedEngine \<Rightarrow> 'ast ScriptInstance \<Rightarrow> EvalError \<Rightarrow> ScriptError" where
  "map_hook_error E i error =
     (case error of
        ErrorTooManyOperations \<Rightarrow> OperationLimit (in_script_id i) 50000 0
      | ErrorTerminated elapsed_micros \<Rightarrow> ScriptTimeout (in_script_id i) elapsed_micros 0
      | _ \<Rightarrow> RuntimeError (in_script_id i) (sb_show_error E error) 0)"

text \<open>The first evaluation of the script's body, once per instance.\<close>

definition ensure_initialized ::
  "('ast, 'd, 'b, 'w) SandboxedEngine \<Rightarrow> 'ast ScriptInstance
     \<Rightarrow> (ScriptError + unit) \<times> 'ast ScriptInstance \<times> ('ast, 'd, 'b, 'w) SandboxedEngine" where
  "ensure_initialized E i =
     (if in_initialized i then (Inr (), i, E)
      else let i = i\<lparr>in_initialized := True\<rparr>
           in case sb_eval_ast E (sb_timeout_micros E) (sb_shared E) (in_scope i) (in_ast i) of
                (r, w, scope) \<Rightarrow>
                  let i = i\<lparr>in_scope := scope\<rparr> in (map_inl (map_hook_error E i) r, i, E\<lparr>sb_shared := w\<rparr>))"

definition call_lifecycle_fn ::
  "('ast, 'd, 'b, 'w) SandboxedEngine \<Rightarrow> string \<Rightarrow> 'd hook_args \<Rightarrow> 'b option \<Rightarrow> 'ast ScriptInstance
     \<Rightarrow> (ScriptError + unit) \<times> 'b option \<times> 'ast ScriptInstance \<times> ('ast, 'd, 'b, 'w) SandboxedEngine" where
  "call_lifecycle_fn E fn_name args budget i =
     (case ensure_initialized E i of
        (Inl e, i, E) \<Rightarrow> (Inl e, budget, i, E)
      | (Inr _, i, E) \<Rightarrow>
          if \<not> has_function E fn_name i then (Inr (), budget, i, E)
          else if (case budget of Some b \<Rightarrow> sb_budget_exhausted E b | None \<Rightarrow> False)
          then (Inl BudgetExhausted, budget, i, E)
          else
            (case sb_call_fn E (sb_timeout_micros E) (sb_shared E) (in_scope i) (in_ast i) fn_name args of
               (r, w, scope, elapsed_micros) \<Rightarrow>
                 let i = i\<lparr>in_scope := scope\<rparr>;
                     E = E\<lparr>sb_shared := w\<rparr>;
                     result = (case r of
                         Inr _ \<Rightarrow> Inr ()
                       | Inl (ErrorFunctionNotFound _) \<Rightarrow> Inr ()
                       | Inl e \<Rightarrow> Inl (map_hook_error E i e));
                     budget = map_option (sb_budget_deduct E elapsed_micros) budget
                 in case result of
                      Inl e \<Rightarrow> (Inl e, budget, i, E)
                    | Inr _ \<Rightarrow>
                        (map_inl (\<lambda>e. ScopeLimitExceeded (in_script_id i) (display_scope_error e) 0)
                           (check_scope_sizes (in_scope i)), budget, i, E)))"

text \<open>The calls of a frame share its budget and the engine.\<close>

type_synonym ('ast, 'd, 'b, 'w) frame_state = "'b \<times> ('ast, 'd, 'b, 'w) SandboxedEngine"

definition frame_exhausted :: "('ast, 'd, 'b, 'w) frame_state \<Rightarrow> bool" where
  "frame_exhausted c \<longleftrightarrow> sb_budget_exhausted (snd c) (fst c)"

definition call_with_budget ::
  "string \<Rightarrow> 'd hook_args \<Rightarrow> ('ast, 'd, 'b, 'w) frame_state \<Rightarrow> 'ast ScriptInstance
     \<Rightarrow> (ScriptError + unit) \<times> ('ast, 'd, 'b, 'w) frame_state \<times> 'ast ScriptInstance" where
  "call_with_budget fn_name args c i =
     (case call_lifecycle_fn (snd c) fn_name args (Some (fst c)) i of
        (r, b, i, E) \<Rightarrow> (r, (case b of Some b \<Rightarrow> b | None \<Rightarrow> fst c, E), i))"

definition call_on_init where
  "call_on_init c i = call_with_budget ''on_init'' NoArgs c i"

definition call_on_event where
  "call_on_event event_type event_data c i = call_with_budget ''on_event'' (TwoArgs event_type event_data) c i"

definition call_on_input where
  "call_on_input input_type input_data c i = call_with_budget ''on_input'' (TwoArgs input_type input_data) c i"

definition call_on_tick where
  "call_on_tick dt c i = call_with_budget ''on_tick'' (OneArg (sb_dt (snd c) dt)) c i"

text \<open>The unload hook runs without a budget under its own timeout; the guard restores the default.\<close>

definition call_on_unload ::
  "('ast, 'd, 'b, 'w) SandboxedEngine \<Rightarrow> 'ast ScriptInstance
     \<Rightarrow> (ScriptError + unit) \<times> 'ast ScriptInstance \<times> ('ast, 'd, 'b, 'w) SandboxedEngine" where
  "call_on_unload E i =
     (case call_lifecycle_fn (E\<lparr>sb_timeout_micros := UNLOAD_TIMEOUT_MICROS\<rparr>) ''on_unload'' NoArgs None i of
        (r, _, i, E) \<Rightarrow> (r, i, E\<lparr>sb_timeout_micros := DEFAULT_TIMEOUT_MICROS\<rparr>))"

section \<open>What a call keeps and what it promises\<close>

text \<open>A call changes nothing of an instance but its variables and its initialisation mark, and uses the
  budget only to decide whether to call.\<close>

definition same_script :: "'ast ScriptInstance \<Rightarrow> 'ast ScriptInstance \<Rightarrow> bool" where
  "same_script i j \<longleftrightarrow>
     in_script_id j = in_script_id i \<and> in_priority j = in_priority i \<and> in_ast j = in_ast i"

lemma same_script_refl [simp]: "same_script i i"
  by (simp add: same_script_def)

lemma same_script_trans: "same_script i j \<Longrightarrow> same_script j k \<Longrightarrow> same_script i k"
  by (simp add: same_script_def)

lemma ensure_initialized_same: "same_script i (fst (snd (ensure_initialized E i)))"
  by (simp add: ensure_initialized_def same_script_def Let_def split: prod.split)

lemma call_lifecycle_fn_same: "same_script i (fst (snd (snd (call_lifecycle_fn E f args b i))))"
  using ensure_initialized_same [of i E]
  by (auto simp: call_lifecycle_fn_def Let_def same_script_def split: prod.splits sum.splits)

lemma call_with_budget_same: "same_script i (snd (snd (call_with_budget f args c i)))"
  using call_lifecycle_fn_same [of i "snd c" f args "Some (fst c)"]
  by (auto simp: call_with_budget_def split: prod.splits)

lemma call_on_unload_same: "same_script i (fst (snd (call_on_unload E i)))"
  using call_lifecycle_fn_same [of i "E\<lparr>sb_timeout_micros := UNLOAD_TIMEOUT_MICROS\<rparr>" "''on_unload''" NoArgs None]
  by (auto simp: call_on_unload_def split: prod.splits)

lemmas call_defs = call_on_init_def call_on_event_def call_on_input_def call_on_tick_def

lemma call_on_tick_same: "same_script i (snd (snd (call_on_tick dt c i)))"
  and call_on_event_same: "same_script i (snd (snd (call_on_event ty d c i)))"
  and call_on_input_same: "same_script i (snd (snd (call_on_input ty d c i)))"
  and call_on_init_same: "same_script i (snd (snd (call_on_init c i)))"
  by (simp_all add: call_defs call_with_budget_same)

text \<open>Of the engine a call changes only what is shared; the unload hook leaves the default timeout.\<close>

lemma ensure_initialized_engine: "\<exists>w. snd (snd (ensure_initialized E i)) = E\<lparr>sb_shared := w\<rparr>"
  by (cases E) (auto simp: ensure_initialized_def Let_def split: prod.split)

lemma call_lifecycle_fn_engine: "\<exists>w. snd (snd (snd (call_lifecycle_fn E f args b i))) = E\<lparr>sb_shared := w\<rparr>"
proof -
  obtain r j w where "ensure_initialized E i = (r, j, E\<lparr>sb_shared := w\<rparr>)"
    using ensure_initialized_engine [of E i] by (metis prod.collapse)
  then show ?thesis
    by (auto simp: call_lifecycle_fn_def Let_def split: prod.split sum.split)
qed

lemma call_with_budget_engine: "\<exists>w. snd (fst (snd (call_with_budget f args c i))) = (snd c)\<lparr>sb_shared := w\<rparr>"
  using call_lifecycle_fn_engine [of "snd c" f args "Some (fst c)" i]
  by (auto simp: call_with_budget_def split: prod.split)

lemma call_on_unload_engine:
  "\<exists>w. snd (snd (call_on_unload E i)) = E\<lparr>sb_shared := w, sb_timeout_micros := DEFAULT_TIMEOUT_MICROS\<rparr>"
  using call_lifecycle_fn_engine [of "E\<lparr>sb_timeout_micros := UNLOAD_TIMEOUT_MICROS\<rparr>" "''on_unload''" NoArgs None i]
  by (auto simp: call_on_unload_def split: prod.split)

text \<open>After a successful call of a hook the script has, its variables are within the limits.\<close>

lemma call_lifecycle_fn_scope_ok:
  assumes "fst (call_lifecycle_fn E f args b i) = Inr ()" and "has_function E f i"
  shows "check_scope_sizes (in_scope (fst (snd (snd (call_lifecycle_fn E f args b i))))) = Inr ()"
proof -
  obtain r j w where j: "ensure_initialized E i = (r, j, E\<lparr>sb_shared := w\<rparr>)"
    using ensure_initialized_engine [of E i] by (metis prod.collapse)
  with ensure_initialized_same [of i E] assms(2) have "has_function (E\<lparr>sb_shared := w\<rparr>) f j"
    by (simp add: has_function_def same_script_def)
  with assms(1) j show ?thesis
    by (auto simp: call_lifecycle_fn_def Let_def split: prod.splits sum.splits if_splits option.splits)
qed

text \<open>With budget left, the outcome of a call does not depend on how much is left.\<close>

lemma call_with_budget_indep:
  assumes "\<not> sb_budget_exhausted E b" "\<not> sb_budget_exhausted E b'"
  shows "fst (call_with_budget f args (b, E) i) = fst (call_with_budget f args (b', E) i)
    \<and> snd (snd (call_with_budget f args (b, E) i)) = snd (snd (call_with_budget f args (b', E) i))
    \<and> snd (fst (snd (call_with_budget f args (b, E) i))) = snd (fst (snd (call_with_budget f args (b', E) i)))"
proof -
  obtain r j w where "ensure_initialized E i = (r, j, E\<lparr>sb_shared := w\<rparr>)"
    using ensure_initialized_engine [of E i] by (metis prod.collapse)
  then show ?thesis
    using assms by (auto simp: call_with_budget_def call_lifecycle_fn_def Let_def split: prod.splits sum.splits)
qed

end
