(* ===== verification/Script_Manager.thy ===== *)
theory Script_Manager
  imports Script_Runtime
begin

text \<open>
  Many scripts (\<^verbatim>\<open>engine/vm_runtime/src\<close>: \<open>script_manager.rs\<close>, \<open>bytecode_loader.rs\<close>): loading,
  unloading and replacing scripts, running them every frame in priority order under a budget, and
  disabling the ones that keep failing. The script engine is the parameter of
  \<^verbatim>\<open>Script_Runtime\<close>; every call returns it with its shared state as the call left it.
\<close>

section \<open>The script manager\<close>

type_synonym ScriptId = string

record ScriptErrorContext =
  ec_error :: ScriptError
  ec_script_id :: ScriptId
  ec_tick :: u64
  ec_hook :: LifecycleHookName

datatype DisableReason = ReasonTimeoutDisable | ReasonOperationLimit | ReasonScopeLimitExceeded | ReasonInitFailed

datatype ScriptState = Active | Disabled DisableReason | Initializing

record 'ast ManagedScript =
  ms_instance :: "'ast ScriptInstance"
  ms_state :: ScriptState
  ms_consecutive_error_count :: u32

record 'ast ScriptManager =
  sm_scripts :: "(u8 \<times> ScriptId, 'ast ManagedScript) btree"
  sm_tick :: u64

definition AUTO_DISABLE_THRESHOLD :: u32 where "AUTO_DISABLE_THRESHOLD = 10"

definition is_disabled_state :: "ScriptState \<Rightarrow> bool" where
  "is_disabled_state s \<longleftrightarrow> (case s of Disabled _ \<Rightarrow> True | _ \<Rightarrow> False)"

definition script_manager_new :: "'ast ScriptManager" where
  "script_manager_new = \<lparr>sm_scripts = [], sm_tick = 0\<rparr>"

definition wrap_error ::
  "'ast ScriptManager \<Rightarrow> ScriptError \<Rightarrow> ScriptId \<Rightarrow> LifecycleHookName \<Rightarrow> ScriptErrorContext" where
  "wrap_error m error script_id hook =
     \<lparr>ec_error = error, ec_script_id = script_id, ec_tick = sm_tick m, ec_hook = hook\<rparr>"

definition drop_id :: "ScriptId \<Rightarrow> 'ast ScriptManager \<Rightarrow> 'ast ScriptManager" where
  "drop_id sid m = m\<lparr>sm_scripts := bm_retain (\<lambda>k _. snd k \<noteq> sid) (sm_scripts m)\<rparr>"

definition put_script :: "u8 \<times> ScriptId \<Rightarrow> 'ast ManagedScript \<Rightarrow> 'ast ScriptManager \<Rightarrow> 'ast ScriptManager" where
  "put_script key s m = m\<lparr>sm_scripts := bm_insert key s (sm_scripts m)\<rparr>"

definition load_script ::
  "ScriptId \<Rightarrow> 'ast \<Rightarrow> u8 \<Rightarrow> ('ast, 'd, 'b, 'w) SandboxedEngine \<Rightarrow> 'ast ScriptManager
     \<Rightarrow> (ScriptErrorContext + unit) \<times> 'ast ScriptManager \<times> ('ast, 'd, 'b, 'w) SandboxedEngine" where
  "load_script sid ast priority E m =
     (let m = drop_id sid m
      in case call_on_init (sb_budget_new E, E) (instance_new sid ast priority) of
           (Inr _, (_, E), i) \<Rightarrow>
             (Inr (), put_script (priority, sid)
               \<lparr>ms_instance = i, ms_state = Active, ms_consecutive_error_count = 0\<rparr> m, E)
         | (Inl error, (_, E), i) \<Rightarrow>
             let disable_reason = (case error of ScopeLimitExceeded _ _ _ \<Rightarrow> ReasonScopeLimitExceeded
                                   | _ \<Rightarrow> ReasonInitFailed);
                 m = put_script (priority, sid)
                   \<lparr>ms_instance = i, ms_state = Disabled disable_reason, ms_consecutive_error_count = 0\<rparr> m
             in (Inl (wrap_error m error sid HookInit), m, E))"

definition find_key :: "ScriptId \<Rightarrow> 'ast ScriptManager \<Rightarrow> (u8 \<times> ScriptId) option" where
  "find_key sid m = List.find (\<lambda>k. snd k = sid) (map fst (sm_scripts m))"

definition not_found :: "ScriptId \<Rightarrow> LifecycleHookName \<Rightarrow> 'ast ScriptManager \<Rightarrow> ScriptErrorContext" where
  "not_found sid hook m = wrap_error m (RuntimeError sid ''ScriptNotFound'' (sm_tick m)) sid hook"

definition unload_script ::
  "ScriptId \<Rightarrow> ('ast, 'd, 'b, 'w) SandboxedEngine \<Rightarrow> 'ast ScriptManager
     \<Rightarrow> (ScriptErrorContext + unit) \<times> 'ast ScriptManager \<times> ('ast, 'd, 'b, 'w) SandboxedEngine" where
  "unload_script sid E m =
     (case find_key sid m of
        None \<Rightarrow> (Inl (not_found sid HookUnload m), m, E)
      | Some key \<Rightarrow>
          (case bm_get (sm_scripts m) key of
             None \<Rightarrow> (Inr (), m, E)
           | Some managed \<Rightarrow>
               (case call_on_unload E (ms_instance managed) of
                  (_, _, E) \<Rightarrow> (Inr (), m\<lparr>sm_scripts := bm_remove key (sm_scripts m)\<rparr>, E))))"

definition handle_callback_error ::
  "u8 \<times> ScriptId \<Rightarrow> ScriptError \<Rightarrow> LifecycleHookName \<Rightarrow> 'ast ScriptManager
     \<Rightarrow> ScriptErrorContext list \<times> 'ast ScriptManager" where
  "handle_callback_error key error hook m =
     (let disable = (\<lambda>managed. case error of
            ScriptTimeout _ _ _ \<Rightarrow>
              (let managed = managed\<lparr>ms_consecutive_error_count := ms_consecutive_error_count managed + 1\<rparr>
               in if ms_consecutive_error_count managed \<ge> AUTO_DISABLE_THRESHOLD
                  then managed\<lparr>ms_state := Disabled ReasonTimeoutDisable\<rparr> else managed)
          | OperationLimit _ _ _ \<Rightarrow>
              (let managed = managed\<lparr>ms_consecutive_error_count := ms_consecutive_error_count managed + 1\<rparr>
               in if ms_consecutive_error_count managed \<ge> AUTO_DISABLE_THRESHOLD
                  then managed\<lparr>ms_state := Disabled ReasonTimeoutDisable\<rparr> else managed)
          | ScopeLimitExceeded _ _ _ \<Rightarrow> managed\<lparr>ms_state := Disabled ReasonScopeLimitExceeded\<rparr>
          | _ \<Rightarrow> managed)
      in if error = BudgetExhausted then ([], m)
         else let m = m\<lparr>sm_scripts := bm_update key disable (sm_scripts m)\<rparr>
              in ([wrap_error m error (snd key) hook], m))"

text \<open>The loop that ticks, events and inputs share: every script that is not disabled, in key order,
  until the frame budget is used up. What the calls share (the budget and the engine) is passed on
  from script to script.\<close>

fun run_scripts ::
  "('c \<Rightarrow> bool) \<Rightarrow> ('c \<Rightarrow> 'ast ScriptInstance \<Rightarrow> (ScriptError + unit) \<times> 'c \<times> 'ast ScriptInstance)
     \<Rightarrow> LifecycleHookName \<Rightarrow> (u8 \<times> ScriptId) list \<Rightarrow> 'c \<Rightarrow> 'ast ScriptManager
     \<Rightarrow> ScriptErrorContext list \<times> 'c \<times> 'ast ScriptManager" where
  "run_scripts exhausted call hook [] c m = ([], c, m)"
| "run_scripts exhausted call hook (key # keys) c m =
     (case bm_get (sm_scripts m) key of
        None \<Rightarrow> run_scripts exhausted call hook keys c m
      | Some managed \<Rightarrow>
          if is_disabled_state (ms_state managed) then run_scripts exhausted call hook keys c m
          else if exhausted c then ([], c, m)
          else case call c (ms_instance managed) of
            (Inr _, c, i) \<Rightarrow>
              run_scripts exhausted call hook keys c
                (m\<lparr>sm_scripts := bm_update key
                   (\<lambda>s. s\<lparr>ms_instance := i, ms_consecutive_error_count := 0\<rparr>) (sm_scripts m)\<rparr>)
          | (Inl error, c, i) \<Rightarrow>
              (case handle_callback_error key error hook
                      (m\<lparr>sm_scripts := bm_update key (\<lambda>s. s\<lparr>ms_instance := i\<rparr>) (sm_scripts m)\<rparr>) of
                 (errs, m) \<Rightarrow>
                   (case run_scripts exhausted call hook keys c m of
                      (errors, c, m) \<Rightarrow> (errs @ errors, c, m))))"

definition script_keys :: "'ast ScriptManager \<Rightarrow> (u8 \<times> ScriptId) list" where
  "script_keys m = map fst (sm_scripts m)"

definition tick_all where
  "tick_all dt c m = run_scripts frame_exhausted (call_on_tick dt) HookTick (script_keys m) c m"

definition dispatch_event where
  "dispatch_event event_type event_data c m =
     run_scripts frame_exhausted (call_on_event event_type event_data) HookEvent (script_keys m) c m"

definition dispatch_input where
  "dispatch_input input_type input_data c m =
     run_scripts frame_exhausted (call_on_input input_type input_data) HookInput (script_keys m) c m"

fun dispatch_all ::
  "(string \<Rightarrow> 'd \<Rightarrow> 'c \<Rightarrow> 'ast ScriptManager \<Rightarrow> ScriptErrorContext list \<times> 'c \<times> 'ast ScriptManager)
     \<Rightarrow> (string \<times> 'd) list \<Rightarrow> 'c \<Rightarrow> 'ast ScriptManager \<Rightarrow> ScriptErrorContext list \<times> 'c \<times> 'ast ScriptManager" where
  "dispatch_all f [] c m = ([], c, m)"
| "dispatch_all f ((ty, data) # rest) c m =
     (case f ty data c m of
        (e1, c, m) \<Rightarrow>
          (case dispatch_all f rest c m of (e2, c, m) \<Rightarrow> (e1 @ e2, c, m)))"

definition run_frame ::
  "SoftF32 \<Rightarrow> ('ast, 'd, 'b, 'w) frame_state \<Rightarrow> (string \<times> 'd) list \<Rightarrow> (string \<times> 'd) list \<Rightarrow> 'ast ScriptManager
     \<Rightarrow> ScriptErrorContext list \<times> ('ast, 'd, 'b, 'w) frame_state \<times> 'ast ScriptManager" where
  "run_frame dt c events inputs m =
     (let m = m\<lparr>sm_tick := sm_tick m + 1\<rparr>
      in case dispatch_all dispatch_event events c m of
           (e1, c, m) \<Rightarrow>
             (case dispatch_all dispatch_input inputs c m of
                (e2, c, m) \<Rightarrow>
                  (case tick_all dt c m of
                     (e3, c, m) \<Rightarrow> (e1 @ e2 @ e3, c, m))))"

definition active_script_count :: "'ast ScriptManager \<Rightarrow> nat" where
  "active_script_count m = length (filter (\<lambda>(_, s). \<not> is_disabled_state (ms_state s)) (sm_scripts m))"

definition script_count :: "'ast ScriptManager \<Rightarrow> nat" where
  "script_count m = length (sm_scripts m)"

definition is_disabled :: "ScriptId \<Rightarrow> 'ast ScriptManager \<Rightarrow> bool" where
  "is_disabled sid m \<longleftrightarrow> (\<exists>(k, s) \<in> set (sm_scripts m). snd k = sid \<and> is_disabled_state (ms_state s))"

definition replace_script ::
  "ScriptId \<Rightarrow> 'ast \<Rightarrow> ('ast, 'd, 'b, 'w) SandboxedEngine \<Rightarrow> 'ast ScriptManager
     \<Rightarrow> (ScriptErrorContext + unit) \<times> 'ast ScriptManager \<times> ('ast, 'd, 'b, 'w) SandboxedEngine" where
  "replace_script sid new_ast E m =
     (case find_key sid m of
        None \<Rightarrow> (Inl (not_found sid HookInit m), m, E)
      | Some key \<Rightarrow>
          (case bm_get (sm_scripts m) key of
             None \<Rightarrow> (Inl (not_found sid HookInit m), m, E)
           | Some managed \<Rightarrow>
               (case call_on_unload E (ms_instance managed) of
                  (_, i, E) \<Rightarrow>
                    (case replace_ast new_ast i of
                       (old_ast, i) \<Rightarrow>
                         (case call_on_init (sb_budget_new E, E) i of
                            (Inl init_error, (_, E), i) \<Rightarrow>
                              (case replace_ast old_ast i of
                                 (_, i) \<Rightarrow>
                                   (case call_on_init (sb_budget_new E, E) i of
                                      (_, (_, E), i) \<Rightarrow>
                                        let m = m\<lparr>sm_scripts := bm_update key (\<lambda>s. s\<lparr>ms_instance := i\<rparr>) (sm_scripts m)\<rparr>
                                        in (Inl (wrap_error m init_error sid HookInit), m, E)))
                          | (Inr _, (_, E), i) \<Rightarrow>
                              (Inr (), m\<lparr>sm_scripts := bm_update key
                                 (\<lambda>s. s\<lparr>ms_instance := i, ms_state := Active, ms_consecutive_error_count := 0\<rparr>)
                                 (sm_scripts m)\<rparr>, E))))))"

definition script_states :: "'ast ScriptManager \<Rightarrow> (ScriptId \<times> ScriptState) list" where
  "script_states m = map (\<lambda>(k, s). (snd k, ms_state s)) (sm_scripts m)"

section \<open>Loading bytecode\<close>

datatype RuntimeLoadError =
    FormatRt FormatError
  | IncompatibleVersionRt u8 u8
  | DecryptionFailedRt string
  | SignatureVerificationFailedRt
  | AstDeserializationFailed
  | DebugBuildBytecodeRt
  | CompileErrorRt string
  | EmptyScriptId

fun map_load_error :: "(CryptoError \<Rightarrow> string) \<Rightarrow> LoadError \<Rightarrow> RuntimeLoadError" where
  "map_load_error show_crypto (Format e) = FormatRt e"
| "map_load_error show_crypto (IncompatibleVersion expected got) = IncompatibleVersionRt expected got"
| "map_load_error show_crypto (DecryptionFailed e) = DecryptionFailedRt (show_crypto e)"
| "map_load_error show_crypto SignatureVerificationFailedLoad = SignatureVerificationFailedRt"
| "map_load_error show_crypto SourceDecodeFailed = AstDeserializationFailed"
| "map_load_error show_crypto (RhaiCompileFailed _) = AstDeserializationFailed"
| "map_load_error show_crypto DebugBuildBytecode = DebugBuildBytecodeRt"

definition loader_load ::
  "'ast bytecode_env \<Rightarrow> bytes \<Rightarrow> bytes \<Rightarrow> bytes \<Rightarrow> RuntimeLoadError + 'ast ScriptInstance" where
  "loader_load B data verifying_key decryption_key =
     bind_sum (map_inl (map_load_error display_crypto_error) (load B data verifying_key decryption_key))
       (\<lambda>(metadata, ast). Inr (instance_new (md_script_id metadata) ast (md_priority metadata)))"

fun load_instances ::
  "'ast bytecode_env \<Rightarrow> (bytes \<times> bytes) list \<Rightarrow> bytes \<Rightarrow> RuntimeLoadError + 'ast ScriptInstance list" where
  "load_instances B [] verifying_key = Inr []"
| "load_instances B ((data, key) # scripts) verifying_key =
     bind_sum (loader_load B data verifying_key key) (\<lambda>i.
       bind_sum (load_instances B scripts verifying_key) (\<lambda>is. Inr (i # is)))"

text \<open>\<open>load_debug\<close> gets the compiler of a \<open>rhai\<close> engine.\<close>

definition loader_load_debug ::
  "(string \<Rightarrow> string + 'ast) \<Rightarrow> string \<Rightarrow> string \<Rightarrow> u8 \<Rightarrow> RuntimeLoadError + 'ast ScriptInstance" where
  "loader_load_debug rhai_compile src script_id priority =
     (if script_id = [] then Inl EmptyScriptId
      else case rhai_compile src of
        Inl e \<Rightarrow> Inl (CompileErrorRt e)
      | Inr ast \<Rightarrow> Inr (instance_new script_id ast priority))"

definition add_instance :: "'ast ScriptInstance \<Rightarrow> 'ast ScriptManager \<Rightarrow> 'ast ScriptManager" where
  "add_instance i m =
     put_script (in_priority i, in_script_id i)
       \<lparr>ms_instance = i, ms_state = Active, ms_consecutive_error_count = 0\<rparr> (drop_id (in_script_id i) m)"

definition load_scripts ::
  "'ast bytecode_env \<Rightarrow> (bytes \<times> bytes) list \<Rightarrow> bytes \<Rightarrow> 'ast ScriptManager
     \<Rightarrow> (RuntimeLoadError + unit) \<times> 'ast ScriptManager" where
  "load_scripts B scripts verifying_key m =
     (case load_instances B scripts verifying_key of
        Inl e \<Rightarrow> (Inl e, m)
      | Inr instances \<Rightarrow> (Inr (), fold add_instance (sort_key in_priority instances) m))"

section \<open>The manager's invariant\<close>

text \<open>Each script is stored under its own priority and identifier, and no identifier occurs twice.\<close>

definition entry_ok :: "u8 \<times> ScriptId \<Rightarrow> 'ast ManagedScript \<Rightarrow> bool" where
  "entry_ok k s \<longleftrightarrow> in_priority (ms_instance s) = fst k \<and> in_script_id (ms_instance s) = snd k"

definition scripts_ok :: "(u8 \<times> ScriptId, 'ast ManagedScript) btree \<Rightarrow> bool" where
  "scripts_ok t \<longleftrightarrow> bm_wf t \<and> distinct (map (snd \<circ> fst) t) \<and> (\<forall>(k, s) \<in> set t. entry_ok k s)"

definition manager_ok :: "'ast ScriptManager \<Rightarrow> bool" where
  "manager_ok m \<longleftrightarrow> scripts_ok (sm_scripts m)"

lemma scripts_ok_filter: "scripts_ok t \<Longrightarrow> scripts_ok (filter P t)"
  by (auto simp: scripts_ok_def bm_wf_filter distinct_map_filter)

lemma scripts_ok_update:
  assumes "scripts_ok t" and "\<And>s. bm_get t k = Some s \<Longrightarrow> entry_ok k s \<Longrightarrow> entry_ok k (f s)"
  shows "scripts_ok (bm_update k f t)"
proof -
  have "map (snd \<circ> fst) (bm_update k f t) = map (snd \<circ> fst) t"
    by (simp add: bm_update_def)
  moreover have "entry_ok l s" if "(l, s) \<in> set (bm_update k f t)" for l s
    using that assms by (auto simp: bm_update_def scripts_ok_def bm_get_iff split: if_splits)
  ultimately show ?thesis using assms(1) by (auto simp: scripts_ok_def)
qed

lemma ids_insert:
  "set (map (snd \<circ> fst) (bm_insert k v t)) \<subseteq> insert (snd k) (set (map (snd \<circ> fst) t))"
  by (induction k v t rule: bm_insert.induct) auto

lemma distinct_ids_insert:
  "snd k \<notin> snd ` fst ` set t \<Longrightarrow> distinct (map (snd \<circ> fst) t) \<Longrightarrow>
     distinct (map (snd \<circ> fst) (bm_insert k v t))"
proof (induction k v t rule: bm_insert.induct)
  case (2 k v p t)
  then have "k \<noteq> fst p" by auto
  show ?case
  proof (cases "k < fst p")
    case True
    with 2 show ?thesis by (auto simp: image_iff)
  next
    case False
    have "distinct (map (snd \<circ> fst) (bm_insert k v t))"
      using 2(2,3) False \<open>k \<noteq> fst p\<close> less_linear [of k "fst p"] by (intro "2.IH") auto
    moreover have "snd (fst p) \<notin> insert (snd k) (set (map (snd \<circ> fst) t))"
      using 2(2,3) by auto
    then have "snd (fst p) \<notin> set (map (snd \<circ> fst) (bm_insert k v t))"
      using ids_insert [of k v t] by (meson subsetD)
    ultimately show ?thesis using False \<open>k \<noteq> fst p\<close> by (simp add: comp_def)
  qed
qed simp

lemma scripts_ok_insert:
  assumes "scripts_ok t" "snd k \<notin> snd ` fst ` set t" "entry_ok k v"
  shows "scripts_ok (bm_insert k v t)"
proof -
  have "distinct (map (snd \<circ> fst) (bm_insert k v t))"
    using assms by (simp add: scripts_ok_def distinct_ids_insert)
  moreover have "entry_ok l s" if "(l, s) \<in> set (bm_insert k v t)" for l s
  proof -
    have "bm_get (bm_insert k v t) l = Some s"
      using that assms(1) by (simp add: bm_get_iff bm_wf_insert scripts_ok_def)
    then show ?thesis
      using assms(1,3) by (auto simp: bm_get_insert scripts_ok_def bm_get_iff split: if_splits)
  qed
  ultimately show ?thesis using assms(1) by (auto simp: scripts_ok_def)
qed

lemma manager_ok_drop: "manager_ok m \<Longrightarrow> manager_ok (drop_id sid m)"
  by (simp add: manager_ok_def drop_id_def bm_retain_def scripts_ok_filter)

lemma manager_ok_put:
  "manager_ok m \<Longrightarrow> entry_ok (p, sid) s \<Longrightarrow> manager_ok (put_script (p, sid) s (drop_id sid m))"
  unfolding put_script_def manager_ok_def
  by (auto intro!: scripts_ok_insert simp: drop_id_def bm_retain_def scripts_ok_filter)

lemma manager_ok_update:
  "manager_ok m \<Longrightarrow> (\<And>s. bm_get (sm_scripts m) k = Some s \<Longrightarrow> entry_ok k s \<Longrightarrow> entry_ok k (f s)) \<Longrightarrow>
     manager_ok (m\<lparr>sm_scripts := bm_update k f (sm_scripts m)\<rparr>)"
  by (simp add: manager_ok_def scripts_ok_update)

lemma entry_ok_same:
  "same_script i j \<Longrightarrow> entry_ok k s \<Longrightarrow> i = ms_instance s \<Longrightarrow> entry_ok k (s\<lparr>ms_instance := j\<rparr>)"
  by (simp add: entry_ok_def same_script_def)

lemma entry_ok_more [simp]:
  "entry_ok k (s\<lparr>ms_state := x\<rparr>) = entry_ok k s" "entry_ok k (s\<lparr>ms_consecutive_error_count := n\<rparr>) = entry_ok k s"
  by (simp_all add: entry_ok_def)

lemma manager_ok_load_script:
  assumes "manager_ok m" shows "manager_ok (fst (snd (load_script sid ast p E m)))"
proof -
  obtain r b E' i where c: "call_on_init (sb_budget_new E, E) (instance_new sid ast p) = (r, (b, E'), i)"
    by (metis prod.collapse)
  have "same_script (instance_new sid ast p) i"
    using call_on_init_same [of "instance_new sid ast p" "(sb_budget_new E, E)"] by (simp add: c)
  then have "in_priority i = p \<and> in_script_id i = sid"
    by (simp add: same_script_def instance_new_def)
  then show ?thesis
    using assms by (cases r) (simp_all add: load_script_def Let_def c entry_ok_def manager_ok_put)
qed

lemma manager_ok_unload_script: "manager_ok m \<Longrightarrow> manager_ok (fst (snd (unload_script sid E m)))"
  by (auto simp: unload_script_def manager_ok_def bm_remove_def scripts_ok_filter
      split: option.split prod.split)

text \<open>The loops over the scripts: what a single call does to its script (\<open>settled\<close>), and that nothing
  else changes.\<close>

definition settled ::
  "LifecycleHookName \<Rightarrow> u8 \<times> ScriptId \<Rightarrow> (ScriptError + unit) \<times> 'b \<times> 'ast ScriptInstance \<Rightarrow> 'ast ScriptManager
     \<Rightarrow> ScriptErrorContext list \<times> 'b \<times> 'ast ScriptManager" where
  "settled hook key out m =
     (case out of
        (Inr _, b, i) \<Rightarrow>
          ([], b, m\<lparr>sm_scripts := bm_update key
             (\<lambda>s. s\<lparr>ms_instance := i, ms_consecutive_error_count := 0\<rparr>) (sm_scripts m)\<rparr>)
      | (Inl e, b, i) \<Rightarrow>
          (case handle_callback_error key e hook
                  (m\<lparr>sm_scripts := bm_update key (\<lambda>s. s\<lparr>ms_instance := i\<rparr>) (sm_scripts m)\<rparr>) of
             (errs, m) \<Rightarrow> (errs, b, m)))"

lemma run_scripts_call:
  assumes "bm_get (sm_scripts m) key = Some s" "\<not> is_disabled_state (ms_state s)" "\<not> exhausted b"
    and "settled hook key (call b (ms_instance s)) m = (errs, b', m')"
  shows "run_scripts exhausted call hook (key # keys) b m =
     (case run_scripts exhausted call hook keys b' m' of (errors, b, m) \<Rightarrow> (errs @ errors, b, m))"
  using assms by (auto simp: settled_def split: prod.splits sum.splits)

lemma run_scripts_skip:
  "(case bm_get (sm_scripts m) key of None \<Rightarrow> True | Some s \<Rightarrow> is_disabled_state (ms_state s)) \<Longrightarrow>
     run_scripts exhausted call hook (key # keys) b m = run_scripts exhausted call hook keys b m"
  by (auto split: option.splits)

lemma run_scripts_stop:
  "bm_get (sm_scripts m) key = Some s \<Longrightarrow> \<not> is_disabled_state (ms_state s) \<Longrightarrow> exhausted b \<Longrightarrow>
     run_scripts exhausted call hook (key # keys) b m = ([], b, m)"
  by simp

declare run_scripts.simps(2) [simp del]

text \<open>Induction over the loop: a property that every call keeps is kept by the loop.\<close>

lemma run_scripts_keeps:
  assumes "P m"
    and step: "\<And>key s b m. P m \<Longrightarrow> bm_get (sm_scripts m) key = Some s \<Longrightarrow> \<not> is_disabled_state (ms_state s) \<Longrightarrow>
      P (snd (snd (settled hook key (call b (ms_instance s)) m)))"
  shows "P (snd (snd (run_scripts exhausted call hook keys b m)))"
  using assms(1)
proof (induction keys arbitrary: b m)
  case (Cons key keys)
  show ?case
  proof (cases "bm_get (sm_scripts m) key")
    case None
    then show ?thesis using Cons by (simp add: run_scripts_skip)
  next
    case (Some s)
    obtain errs b' m' where o: "settled hook key (call b (ms_instance s)) m = (errs, b', m')"
      by (metis prod_cases3)
    show ?thesis
    proof (cases "is_disabled_state (ms_state s) \<or> exhausted b")
      case True
      then show ?thesis using Cons Some
        by (cases "is_disabled_state (ms_state s)") (simp_all add: run_scripts_skip run_scripts_stop)
    next
      case False
      have "P m'" using step [OF Cons.prems Some, of b] False o by simp
      moreover have "run_scripts exhausted call hook (key # keys) b m =
          (case run_scripts exhausted call hook keys b' m' of (errors, b, m) \<Rightarrow> (errs @ errors, b, m))"
        by (rule run_scripts_call) (use Some False o in auto)
      ultimately show ?thesis
        using Cons.IH [of m' b'] by (simp add: case_prod_unfold)
    qed
  qed
qed simp

lemma run_frame_keeps:
  fixes b :: "('ast, 'd, 'b, 'w) frame_state"
  assumes "P (m\<lparr>sm_tick := sm_tick m + 1\<rparr>)"
    and step: "\<And>f args hook key s (b :: ('ast, 'd, 'b, 'w) frame_state) m. P m \<Longrightarrow> bm_get (sm_scripts m) key = Some s \<Longrightarrow>
      \<not> is_disabled_state (ms_state s) \<Longrightarrow>
      P (snd (snd (settled hook key (call_with_budget f args b (ms_instance s)) m)))"
  shows "P (snd (snd (run_frame dt b events inputs m)))"
proof -
  have loop: "P (snd (snd (dispatch_all f evs b m)))"
    if "P m" and "\<And>ty d b m. P m \<Longrightarrow> P (snd (snd (f ty d b m)))" for f evs b m
    using that
  proof (induction f evs b m rule: dispatch_all.induct)
    case (2 f ty d rest b m)
    obtain e b' m' where o: "f ty d b m = (e, b', m')" by (metis prod_cases3)
    have "P m'" using 2(3) [OF 2(2), of ty d b] by (simp add: o)
    then have "P (snd (snd (dispatch_all f rest b' m')))"
      using 2(1) [OF o [symmetric] refl] 2(3) by blast
    then show ?case by (simp add: o case_prod_unfold)
  qed simp
  have ev: "P m \<Longrightarrow> P (snd (snd (dispatch_event ty d b m)))"
    and inp: "P m \<Longrightarrow> P (snd (snd (dispatch_input ty d b m)))"
    and tick: "P m \<Longrightarrow> P (snd (snd (tick_all dt b m)))"
    for ty d m and b :: "('ast, 'd, 'b, 'w) frame_state"
    unfolding dispatch_event_def dispatch_input_def tick_all_def call_defs
    by (rule run_scripts_keeps; simp add: step)+
  obtain e1 c1 m1 where 1: "dispatch_all dispatch_event events b (m\<lparr>sm_tick := sm_tick m + 1\<rparr>) = (e1, c1, m1)"
    by (metis prod_cases3)
  obtain e2 c2 m2 where 2: "dispatch_all dispatch_input inputs c1 m1 = (e2, c2, m2)" by (metis prod_cases3)
  have "P m1" using loop [OF assms(1), of dispatch_event events b] ev by (simp add: 1)
  then have "P m2" using loop [of m1 dispatch_input inputs c1] inp by (simp add: 2)
  then show ?thesis using tick by (simp add: run_frame_def 1 2 case_prod_unfold)
qed

text \<open>What one outcome does to the entry of its script.\<close>

definition charge :: "'ast ManagedScript \<Rightarrow> 'ast ManagedScript" where
  "charge s =
     (let s = s\<lparr>ms_consecutive_error_count := ms_consecutive_error_count s + 1\<rparr>
      in if ms_consecutive_error_count s \<ge> AUTO_DISABLE_THRESHOLD
         then s\<lparr>ms_state := Disabled ReasonTimeoutDisable\<rparr> else s)"

definition settle :: "ScriptError + unit \<Rightarrow> 'ast ScriptInstance \<Rightarrow> 'ast ManagedScript \<Rightarrow> 'ast ManagedScript" where
  "settle r i s =
     (let s = s\<lparr>ms_instance := i\<rparr>
      in case r of
           Inr _ \<Rightarrow> s\<lparr>ms_consecutive_error_count := 0\<rparr>
         | Inl (ScriptTimeout _ _ _) \<Rightarrow> charge s
         | Inl (OperationLimit _ _ _) \<Rightarrow> charge s
         | Inl (ScopeLimitExceeded _ _ _) \<Rightarrow> s\<lparr>ms_state := Disabled ReasonScopeLimitExceeded\<rparr>
         | Inl _ \<Rightarrow> s)"

lemma bm_update_update: "bm_update k f (bm_update k g t) = bm_update k (\<lambda>v. f (g v)) t"
  by (simp add: bm_update_def)

lemma bm_update_ident: "bm_update k (\<lambda>v. v) t = t"
  unfolding bm_update_def by (rule map_idI) auto

lemma bm_update_ext: "(\<And>v. f v = g v) \<Longrightarrow> bm_update k f t = bm_update k g t"
  by (simp add: bm_update_def)

lemma settled_manager:
  "snd (snd (settled hook key (r, b, i) m)) = m\<lparr>sm_scripts := bm_update key (settle r i) (sm_scripts m)\<rparr>"
proof (cases r)
  case (Inl e)
  have "settle (Inl e) i = (\<lambda>v. (case e of ScriptTimeout _ _ _ \<Rightarrow> charge | OperationLimit _ _ _ \<Rightarrow> charge
      | ScopeLimitExceeded _ _ _ \<Rightarrow> (\<lambda>v. v\<lparr>ms_state := Disabled ReasonScopeLimitExceeded\<rparr>)
      | _ \<Rightarrow> (\<lambda>v. v)) (v\<lparr>ms_instance := i\<rparr>))"
    by (simp add: settle_def fun_eq_iff Let_def split: ScriptError.split)
  then show ?thesis
    by (cases e) (simp_all add: Inl settled_def handle_callback_error_def Let_def bm_update_update
        bm_update_ident charge_def [abs_def])
next
  case (Inr u)
  then show ?thesis by (simp add: settled_def settle_def [abs_def])
qed

lemma settled_budget: "fst (snd (settled hook key (r, b, i) m)) = b"
  by (simp add: settled_def split: sum.split prod.split)

lemma settled_errors:
  "fst (settled hook key (r, b, i) m) =
     (case r of Inr _ \<Rightarrow> [] | Inl e \<Rightarrow> if e = BudgetExhausted then [] else [wrap_error m e (snd key) hook])"
  by (simp add: settled_def handle_callback_error_def Let_def wrap_error_def split: sum.split)

lemma settled_eq:
  "settled hook key (r, b, i) m =
     (case r of Inr _ \<Rightarrow> [] | Inl e \<Rightarrow> if e = BudgetExhausted then [] else [wrap_error m e (snd key) hook],
      b, m\<lparr>sm_scripts := bm_update key (settle r i) (sm_scripts m)\<rparr>)"
  by (simp only: prod_eq_iff fst_conv snd_conv settled_errors settled_budget settled_manager simp_thms)

lemma charge_instance [simp]: "ms_instance (charge s) = ms_instance s"
  by (simp add: charge_def Let_def)

lemma settle_instance [simp]: "ms_instance (settle r i s) = i"
  by (simp add: settle_def Let_def split: sum.split ScriptError.split)

lemma manager_ok_settled:
  assumes "manager_ok m" "bm_get (sm_scripts m) key = Some s" "same_script (ms_instance s) (snd (snd out))"
  shows "manager_ok (snd (snd (settled hook key out m)))"
proof -
  obtain r b i where o: "out = (r, b, i)" by (metis prod_cases3)
  show ?thesis
    unfolding o settled_manager
    by (rule manager_ok_update [OF assms(1)]) (use assms(2,3) o in \<open>auto simp: entry_ok_def same_script_def\<close>)
qed

lemma manager_ok_run_frame: "manager_ok m \<Longrightarrow> manager_ok (snd (snd (run_frame dt b events inputs m)))"
  by (rule run_frame_keeps [where P = manager_ok])
    (auto simp: manager_ok_def [of "_\<lparr>sm_tick := _\<rparr>"] manager_ok_def [symmetric]
      intro!: manager_ok_settled call_with_budget_same)

lemma manager_ok_replace_script:
  assumes "manager_ok m" shows "manager_ok (fst (snd (replace_script sid new_ast E m)))"
proof (cases "find_key sid m")
  case None
  then show ?thesis using assms by (simp add: replace_script_def)
next
  case (Some key)
  show ?thesis
  proof (cases "bm_get (sm_scripts m) key")
    case None
    then show ?thesis using assms Some by (simp add: replace_script_def)
  next
    case (Some s)
    obtain r0 i0 E' where u: "call_on_unload E (ms_instance s) = (r0, i0, E')" by (metis prod_cases3)
    obtain r b E1 i where c: "call_on_init (sb_budget_new E', E') (snd (replace_ast new_ast i0)) = (r, (b, E1), i)"
      by (metis prod.collapse)
    obtain r' b' E2 i' where d: "call_on_init (sb_budget_new E1, E1) (snd (replace_ast (in_ast i0) i)) = (r', (b', E2), i')"
      by (metis prod.collapse)
    have "in_priority i0 = in_priority (ms_instance s)" "in_script_id i0 = in_script_id (ms_instance s)"
      using call_on_unload_same [of "ms_instance s" E] u by (simp_all add: same_script_def)
    moreover have "in_priority i = in_priority i0" "in_script_id i = in_script_id i0"
      using call_on_init_same [of "snd (replace_ast new_ast i0)" "(sb_budget_new E', E')"] c
      by (simp_all add: same_script_def replace_ast_def)
    moreover have "in_priority i' = in_priority i" "in_script_id i' = in_script_id i"
      using call_on_init_same [of "snd (replace_ast (in_ast i0) i)" "(sb_budget_new E1, E1)"] d
      by (simp_all add: same_script_def replace_ast_def)
    ultimately show ?thesis
      using \<open>find_key sid m = Some key\<close> Some u c d assms
      by (cases r) (auto simp: replace_script_def replace_ast_def Let_def entry_ok_def
          intro!: manager_ok_update)
  qed
qed

lemma manager_ok_add: "manager_ok m \<Longrightarrow> manager_ok (add_instance i m)"
  unfolding add_instance_def by (rule manager_ok_put) (simp_all add: entry_ok_def)

lemma manager_ok_load_scripts: "manager_ok m \<Longrightarrow> manager_ok (snd (load_scripts B scripts vk m))"
proof -
  have "manager_ok (fold add_instance is m)" if "manager_ok m" for "is" and m :: "'a ScriptManager"
    using that by (induction "is" arbitrary: m) (simp_all add: manager_ok_add)
  then show "manager_ok m \<Longrightarrow> ?thesis" by (simp add: load_scripts_def split: sum.split)
qed

text \<open>The operations of the manager as one machine. The engine goes along: every call changes what the scripts
  share, and unloading sets its timeout.\<close>

datatype ('ast, 'd, 'b) manager_op =
    OpLoad ScriptId 'ast u8
  | OpUnload ScriptId
  | OpReplace ScriptId 'ast
  | OpFrame SoftF32 'b "(string \<times> 'd) list" "(string \<times> 'd) list"
  | OpBytecode "'ast bytecode_env" "(bytes \<times> bytes) list" bytes

type_synonym ('ast, 'd, 'b, 'w) runtime = "'ast ScriptManager \<times> ('ast, 'd, 'b, 'w) SandboxedEngine"

fun manager_step :: "('ast, 'd, 'b) manager_op \<Rightarrow> ('ast, 'd, 'b, 'w) runtime \<Rightarrow> ('ast, 'd, 'b, 'w) runtime" where
  "manager_step (OpLoad sid ast p) (m, E) = snd (load_script sid ast p E m)"
| "manager_step (OpUnload sid) (m, E) = snd (unload_script sid E m)"
| "manager_step (OpReplace sid ast) (m, E) = snd (replace_script sid ast E m)"
| "manager_step (OpFrame dt b events inputs) (m, E) =
     (case run_frame dt (b, E) events inputs m of (_, c, m) \<Rightarrow> (m, snd c))"
| "manager_step (OpBytecode B scripts vk) (m, E) = (snd (load_scripts B scripts vk m), E)"

interpretation manager: event_machine manager_step "\<lambda>s. manager_ok (fst s)"
proof unfold_locales
  show "manager_ok (fst (manager_step e s))" if "manager_ok (fst s)"
    for s :: "('a, 'b, 'c, 'd) runtime" and e
    using that by (cases e; cases s) (simp_all add: case_prod_unfold manager_ok_load_script manager_ok_unload_script
        manager_ok_replace_script manager_ok_run_frame manager_ok_load_scripts)
qed

text \<open>C21: The script table stays consistent. Whatever sequence of loads, unloads, replacements, frames and
  bytecode batches a manager goes through, and whatever the scripts and the engine do meanwhile, its
  entries are in strictly increasing order of priority and identifier (the order they run in), no
  script identifier occurs twice, and each script is stored under its own priority and identifier.\<close>

theorem script_table_consistent:
  "let m = fst (fold manager_step ops (script_manager_new, E))
   in sorted_wrt (<) (script_keys m) \<and> distinct (map snd (script_keys m))
     \<and> list_all (\<lambda>(k, s). in_priority (ms_instance s) = fst k \<and> in_script_id (ms_instance s) = snd k)
          (sm_scripts m)"
proof -
  have "manager_ok (fst (fold manager_step ops (script_manager_new, E)))"
    by (rule manager.inv_fold) (simp add: manager_ok_def scripts_ok_def script_manager_new_def)
  then show ?thesis
    by (simp add: Let_def manager_ok_def scripts_ok_def bm_wf_def script_keys_def entry_ok_def comp_def
        list_all_iff)
qed

section \<open>Replacing a script\<close>

lemma find_key_iff:
  assumes "manager_ok m"
  shows "find_key sid m = Some k \<longleftrightarrow> snd k = sid \<and> bm_get (sm_scripts m) k \<noteq> None"
proof -
  have d: "inj_on snd (set (map fst (sm_scripts m)))"
    using assms distinct_map [of snd "map fst (sm_scripts m)"] by (simp add: manager_ok_def scripts_ok_def)
  have "find_key sid m = Some k \<longleftrightarrow> k \<in> set (map fst (sm_scripts m)) \<and> snd k = sid"
  proof
    assume "find_key sid m = Some k"
    then show "k \<in> set (map fst (sm_scripts m)) \<and> snd k = sid"
      by (auto simp: find_key_def find_Some_iff set_conv_nth)
  next
    assume k: "k \<in> set (map fst (sm_scripts m)) \<and> snd k = sid"
    then obtain l where l: "find_key sid m = Some l"
      by (cases "find_key sid m") (auto simp: find_key_def find_None_iff)
    then have "l \<in> set (map fst (sm_scripts m)) \<and> snd l = sid"
      by (auto simp: find_key_def find_Some_iff set_conv_nth)
    with k d l show "find_key sid m = Some k" by (auto simp: inj_on_def)
  qed
  moreover have "k \<in> set (map fst (sm_scripts m)) \<longleftrightarrow> bm_get (sm_scripts m) k \<noteq> None"
    by (simp add: map_of_eq_None_iff)
  ultimately show ?thesis by auto
qed

lemma find_key_None:
  "manager_ok m \<Longrightarrow> find_key sid m = None \<longleftrightarrow> (\<forall>p. bm_get (sm_scripts m) (p, sid) = None)"
proof (cases "find_key sid m")
  case (Some k)
  moreover assume "manager_ok m"
  ultimately show ?thesis using find_key_iff [of m sid k] by (cases k) auto
next
  case None
  moreover assume "manager_ok m"
  ultimately show ?thesis using find_key_iff [of m sid "(p, sid)" for p] by auto
qed

lemma wrap_error_scripts [simp]: "wrap_error (m\<lparr>sm_scripts := t\<rparr>) = wrap_error m"
  by (simp add: wrap_error_def [abs_def])

text \<open>What a replacement makes of the entry: the outcome of the new script's first call, and the entry
  after it.\<close>

lemma replace_script_cases:
  assumes "manager_ok m" and "bm_get (sm_scripts m) (p, sid) = Some s"
  obtains (swapped) i where "in_ast i = new_ast" "in_initialized i"
      "fst (replace_script sid new_ast E m) = Inr ()"
      "sm_scripts (fst (snd (replace_script sid new_ast E m))) = bm_update (p, sid)
         (\<lambda>s. s\<lparr>ms_instance := i, ms_state := Active, ms_consecutive_error_count := 0\<rparr>) (sm_scripts m)"
  | (rolled_back) i e where "in_ast i = in_ast (ms_instance s)" "in_initialized i"
      "fst (replace_script sid new_ast E m) = Inl (wrap_error m e sid HookInit)"
      "sm_scripts (fst (snd (replace_script sid new_ast E m))) = bm_update (p, sid)
         (\<lambda>s. s\<lparr>ms_instance := i\<rparr>) (sm_scripts m)"
proof -
  have k: "find_key sid m = Some (p, sid)" using assms by (simp add: find_key_iff)
  obtain r0 i0 E' where u: "call_on_unload E (ms_instance s) = (r0, i0, E')" by (metis prod_cases3)
  obtain r b E1 i where c: "call_on_init (sb_budget_new E', E') (snd (replace_ast new_ast i0)) = (r, (b, E1), i)"
    by (metis prod.collapse)
  obtain r' b' E2 i' where d: "call_on_init (sb_budget_new E1, E1) (snd (replace_ast (in_ast i0) i)) = (r', (b', E2), i')"
    by (metis prod.collapse)
  have "in_initialized (snd (snd (call_on_init c i)))" for c :: "('a, 'b, 'c, 'd) frame_state" and i
    by (auto simp: call_on_init_def call_with_budget_def call_lifecycle_fn_def ensure_initialized_def
        Let_def split: prod.splits sum.splits if_splits)
  from this [of "(sb_budget_new E', E')"] this [of "(sb_budget_new E1, E1)"] have init: "in_initialized i" "in_initialized i'"
    using c d by (metis snd_conv)+
  have same: "in_ast i0 = in_ast (ms_instance s)" "in_ast i = new_ast" "in_ast i' = in_ast i0"
    using call_on_unload_same [of "ms_instance s" E] u
      call_on_init_same [of "snd (replace_ast new_ast i0)" "(sb_budget_new E', E')"] c
      call_on_init_same [of "snd (replace_ast (in_ast i0) i)" "(sb_budget_new E1, E1)"] d
    by (simp_all add: same_script_def replace_ast_def)
  show ?thesis
  proof (cases r)
    case (Inr u')
    show ?thesis
      by (rule swapped [of i]) (use k assms(2) u c same init Inr in
          \<open>auto simp: replace_script_def replace_ast_def\<close>)
  next
    case (Inl e)
    show ?thesis
      by (rule rolled_back [of i' e]) (use k assms(2) u c d same init Inl in
          \<open>auto simp: replace_script_def replace_ast_def Let_def\<close>)
  qed
qed

lemma replace_script_tick: "sm_tick (fst (snd (replace_script sid ast E m))) = sm_tick m"
  by (auto simp: replace_script_def Let_def split: option.split prod.split sum.split)

lemma replace_script_entry:
  assumes "manager_ok m" and "bm_get (sm_scripts m) (p, sid) = Some s"
  shows "\<exists>r m' E' s'. replace_script sid new_ast E m = (r, m', E')
    \<and> bm_get (sm_scripts m') = (bm_get (sm_scripts m))((p, sid) \<mapsto> s') \<and> sm_tick m' = sm_tick m
    \<and> in_initialized (ms_instance s')
    \<and> (case r of
         Inr _ \<Rightarrow> in_ast (ms_instance s') = new_ast \<and> ms_state s' = Active \<and> ms_consecutive_error_count s' = 0
       | Inl err \<Rightarrow> ec_script_id err = sid \<and> in_ast (ms_instance s') = in_ast (ms_instance s)
           \<and> ms_state s' = ms_state s
           \<and> ms_consecutive_error_count s' = ms_consecutive_error_count s)"
proof -
  obtain r m' E' where r: "replace_script sid new_ast E m = (r, m', E')" by (metis prod_cases3)
  then have t: "sm_tick m' = sm_tick m" using replace_script_tick [of sid new_ast E m] by simp
  from assms show ?thesis
  proof (cases rule: replace_script_cases [where new_ast = new_ast and E = E])
    case (swapped i)
    with r t assms(2) show ?thesis
      by (simp add: bm_get_update) (rule exI [of _ "s\<lparr>ms_instance := i, ms_state := Active,
        ms_consecutive_error_count := 0\<rparr>"], simp)
  next
    case (rolled_back i e)
    with r t assms(2) show ?thesis
      by (simp add: bm_get_update wrap_error_def) (rule exI [of _ "s\<lparr>ms_instance := i\<rparr>"], simp)
  qed
qed

text \<open>Whether a replacement succeeds is decided by the first call of the new script, on a fresh instance, after the old
  script was unloaded; its error is the one reported.\<close>

definition first_call ::
  "('ast, 'd, 'b, 'w) SandboxedEngine \<Rightarrow> 'ast ManagedScript \<Rightarrow> u8 \<times> ScriptId \<Rightarrow> 'ast \<Rightarrow> ScriptError + unit" where
  "first_call E s key new_ast =
     (case call_on_unload E (ms_instance s) of
        (_, _, E) \<Rightarrow> fst (call_on_init (sb_budget_new E, E) (instance_new (snd key) new_ast (fst key))))"

lemma replace_script_result:
  assumes "manager_ok m" and "bm_get (sm_scripts m) (p, sid) = Some s"
  shows "fst (replace_script sid new_ast E m) =
    map_inl (\<lambda>e. wrap_error m e sid HookInit) (first_call E s (p, sid) new_ast)"
proof -
  have k: "find_key sid m = Some (p, sid)" using assms by (simp add: find_key_iff)
  have "entry_ok (p, sid) s" using assms by (auto simp: manager_ok_def scripts_ok_def bm_get_iff)
  obtain r0 i0 E0 where u: "call_on_unload E (ms_instance s) = (r0, i0, E0)" by (metis prod_cases3)
  then have i0: "i0\<lparr>in_ast := new_ast, in_scope := [], in_initialized := False\<rparr> = instance_new sid new_ast p"
    using call_on_unload_same [of "ms_instance s" E] \<open>entry_ok (p, sid) s\<close>
    by (cases i0) (simp add: instance_new_def same_script_def entry_ok_def)
  show ?thesis
    using k assms(2) u
    by (auto simp: replace_script_def first_call_def replace_ast_def i0 Let_def split: prod.split sum.split)
qed

lemma replace_script_unknown:
  assumes "manager_ok m" and "\<And>p. bm_get (sm_scripts m) (p, sid) = None"
  shows "replace_script sid new_ast E m = (Inl (not_found sid HookInit m), m, E)"
  using find_key_None [OF assms(1), of sid] assms(2) by (simp add: replace_script_def)

text \<open>C2: Replacing a script at run time is all or nothing for that script, and concerns no other. If the
  new script's first call succeeds, the entry holds the new script, is active again and its error count
  is cleared. If it fails, the error is reported and the entry holds the old script, initialised afresh,
  with its state and error count as they were. Every other entry and the tick are untouched, whatever
  the scripts do.\<close>

theorem replace_script_atomic:
  assumes "manager_ok m" and "bm_get (sm_scripts m) (p, sid) = Some s"
  shows "\<exists>r m' E' s'. replace_script sid new_ast E m = (r, m', E')
    \<and> bm_get (sm_scripts m') = (bm_get (sm_scripts m))((p, sid) \<mapsto> s') \<and> sm_tick m' = sm_tick m
    \<and> in_initialized (ms_instance s')
    \<and> (case r of
         Inr _ \<Rightarrow> in_ast (ms_instance s') = new_ast \<and> ms_state s' = Active \<and> ms_consecutive_error_count s' = 0
       | Inl err \<Rightarrow> ec_script_id err = sid \<and> in_ast (ms_instance s') = in_ast (ms_instance s)
           \<and> ms_state s' = ms_state s
           \<and> ms_consecutive_error_count s' = ms_consecutive_error_count s)"
  using assms by (rule replace_script_entry)

text \<open>An engine for the examples: a script is a number; every script has all hooks; calling script 2
  fails and script 3 always runs out of time. What is shared counts the calls.\<close>

definition toy_engine :: "(nat, unit, nat, nat) SandboxedEngine" where
  "toy_engine =
     \<lparr>sb_timeout_micros = 2000, sb_shared = 0, sb_functions = (\<lambda>_. [''on_init'', ''on_tick'']),
      sb_eval_ast = (\<lambda>_ w scope _. (Inr (), w, scope)),
      sb_call_fn = (\<lambda>_ w scope ast f _.
        (if ast = 2 then Inl (OtherEvalError ''no'')
         else if ast = 3 \<and> f = ''on_tick'' then Inl (ErrorTerminated 2001) else Inr (), w + 1, scope, 10)),
      sb_show_error = (\<lambda>_. ''error''), sb_dt = (\<lambda>_. ()), sb_budget_new = 1,
      sb_budget_exhausted = (\<lambda>b. b = 0), sb_budget_deduct = (\<lambda>_ b. b)\<rparr>"

definition toy_script :: "nat \<Rightarrow> nat ManagedScript" where
  "toy_script ast = \<lparr>ms_instance = instance_new ''a'' ast 5, ms_state = Active, ms_consecutive_error_count = 0\<rparr>"

definition toy_manager :: "nat \<Rightarrow> nat ScriptManager" where
  "toy_manager ast = \<lparr>sm_scripts = [((5, ''a''), toy_script ast)], sm_tick = 0\<rparr>"

lemma toy_manager_ok: "manager_ok (toy_manager ast)"
  by (simp add: manager_ok_def scripts_ok_def toy_manager_def toy_script_def entry_ok_def instance_new_def)

theorem replace_script_atomic_witness:
  "\<exists>err m' E' s'. replace_script ''a'' 2 toy_engine (toy_manager 1) = (Inl err, m', E')
     \<and> bm_get (sm_scripts m') (5, ''a'') = Some s' \<and> in_ast (ms_instance s') = 1"
proof -
  have f: "fst (replace_script ''a'' 2 toy_engine (toy_manager 1)) = Inl (wrap_error (toy_manager 1)
      (RuntimeError ''a'' ''error'' 0) ''a'' HookInit)"
    by (simp add: replace_script_def find_key_def toy_manager_def toy_script_def call_on_unload_def
        call_lifecycle_fn_def call_with_budget_def call_defs toy_engine_def ensure_initialized_def has_function_def
        instance_new_def replace_ast_def map_hook_error_def check_scope_sizes_def wrap_error_def Let_def)
  have "bm_get (sm_scripts (toy_manager 1)) (5, ''a'') = Some (toy_script 1)"
    by (simp add: toy_manager_def)
  from replace_script_atomic [OF toy_manager_ok this, of 2 toy_engine] f
  show ?thesis by (fastforce simp: toy_script_def instance_new_def)
qed

section \<open>Running scripts in a frame\<close>

text \<open>What a call makes of the entry of its script, the errors it leads to, and what the next script finds.\<close>

definition entry_after ::
  "('c \<Rightarrow> 'ast ScriptInstance \<Rightarrow> (ScriptError + unit) \<times> 'c \<times> 'ast ScriptInstance) \<Rightarrow> 'c
     \<Rightarrow> 'ast ManagedScript \<Rightarrow> 'ast ManagedScript" where
  "entry_after call c s =
     (if is_disabled_state (ms_state s) then s
      else case call c (ms_instance s) of (r, _, i) \<Rightarrow> settle r i s)"

definition errors_of ::
  "('c \<Rightarrow> 'ast ScriptInstance \<Rightarrow> (ScriptError + unit) \<times> 'c \<times> 'ast ScriptInstance) \<Rightarrow> LifecycleHookName \<Rightarrow> u64
     \<Rightarrow> 'c \<Rightarrow> (u8 \<times> ScriptId) \<times> 'ast ManagedScript \<Rightarrow> ScriptErrorContext list" where
  "errors_of call hook tick c =
     (\<lambda>(k, s). if is_disabled_state (ms_state s) then []
       else case fst (call c (ms_instance s)) of
              Inr _ \<Rightarrow> []
            | Inl e \<Rightarrow> if e = BudgetExhausted then []
                else [\<lparr>ec_error = e, ec_script_id = snd k, ec_tick = tick, ec_hook = hook\<rparr>])"

definition passes_on ::
  "('c \<Rightarrow> 'ast ScriptInstance \<Rightarrow> (ScriptError + unit) \<times> 'c \<times> 'ast ScriptInstance) \<Rightarrow> ('c \<Rightarrow> bool) \<Rightarrow> 'c
     \<Rightarrow> 'ast ManagedScript \<Rightarrow> 'c \<Rightarrow> bool" where
  "passes_on call exhausted c s c' \<longleftrightarrow>
     (if is_disabled_state (ms_state s) then c' = c
      else \<not> exhausted c \<and> c' = fst (snd (call c (ms_instance s))))"

lemma bm_update_middle:
  "distinct (map fst (xs @ (k, v) # ys)) \<Longrightarrow> bm_update k f (xs @ (k, v) # ys) = xs @ (k, f v) # ys"
  unfolding bm_update_def by (auto intro!: map_idI) force+

lemma run_scripts_prefix:
  assumes "distinct (map fst (pre @ rest))" and "sm_scripts m = pre @ rest"
  shows "\<exists>n cs. n \<le> length rest \<and> length cs = Suc n \<and> cs ! 0 = c
    \<and> (\<forall>i < n. passes_on call exhausted (cs ! i) (snd (rest ! i)) (cs ! Suc i))
    \<and> (n < length rest \<longrightarrow> exhausted (cs ! n) \<and> \<not> is_disabled_state (ms_state (snd (rest ! n))))
    \<and> run_scripts exhausted call hook (map fst rest) c m =
        (concat (map2 (errors_of call hook (sm_tick m)) cs (take n rest)), cs ! n,
         m\<lparr>sm_scripts := pre @ map2 (\<lambda>c (k, s). (k, entry_after call c s)) cs (take n rest) @ drop n rest\<rparr>)"
  using assms
proof (induction rest arbitrary: pre c m)
  case Nil
  then show ?case by (intro exI [of _ 0] exI [of _ "[c]"]) simp
next
  case (Cons e rest)
  obtain k s where e: "e = (k, s)" by (cases e)
  have g: "bm_get (sm_scripts m) k = Some s"
    using Cons.prems e by (simp add: map_add_Some_iff map_of_eq_None_iff)
  have one_more: ?case
    if step: "passes_on call exhausted c s c1"
      and m1: "m1 = m\<lparr>sm_scripts := (pre @ [(k, entry_after call c s)]) @ rest\<rparr>"
      and run: "run_scripts exhausted call hook (map fst (e # rest)) c m =
        (case run_scripts exhausted call hook (map fst rest) c1 m1 of
           (errors, c', m) \<Rightarrow> (errors_of call hook (sm_tick m1) c e @ errors, c', m))" for c1 m1
  proof -
    have "distinct (map fst ((pre @ [(k, entry_after call c s)]) @ rest))" using Cons.prems(1) e by simp
    from Cons.IH [OF this, of m1 c1] m1 obtain n cs where n: "n \<le> length rest" "length cs = Suc n" "cs ! 0 = c1"
      "\<forall>i < n. passes_on call exhausted (cs ! i) (snd (rest ! i)) (cs ! Suc i)"
      "n < length rest \<longrightarrow> exhausted (cs ! n) \<and> \<not> is_disabled_state (ms_state (snd (rest ! n)))"
      "run_scripts exhausted call hook (map fst rest) c1 m1 =
        (concat (map2 (errors_of call hook (sm_tick m1)) cs (take n rest)), cs ! n,
         m1\<lparr>sm_scripts := (pre @ [(k, entry_after call c s)]) @ map2 (\<lambda>c (k, s). (k, entry_after call c s)) cs (take n rest) @ drop n rest\<rparr>)"
      by auto
    have "passes_on call exhausted ((c # cs) ! i) (snd ((e # rest) ! i)) ((c # cs) ! Suc i)" if "i < Suc n" for i
      using that n(3,4) step e by (cases i) auto
    then show ?thesis
      using n m1 run e by (intro exI [of _ "Suc n"] exI [of _ "c # cs"]) simp
  qed
  consider (off) "is_disabled_state (ms_state s)"
    | (stop) "\<not> is_disabled_state (ms_state s)" "exhausted c"
    | (run) "\<not> is_disabled_state (ms_state s)" "\<not> exhausted c" by blast
  then show ?case
  proof cases
    case off
    have "m = m\<lparr>sm_scripts := (pre @ [(k, entry_after call c s)]) @ rest\<rparr>"
      using Cons.prems(2) e off by (simp add: entry_after_def)
    moreover have "run_scripts exhausted call hook (map fst (e # rest)) c m = run_scripts exhausted call hook (map fst rest) c m"
      using off g e by (simp add: run_scripts_skip)
    ultimately show ?thesis
      using off e by (intro one_more [of c m]) (simp_all add: passes_on_def errors_of_def split: prod.split)
  next
    case stop
    then show ?thesis
      using g e Cons.prems by (intro exI [of _ 0] exI [of _ "[c]"]) (simp add: run_scripts_stop)
  next
    case run
    obtain r c1 i where c: "call c (ms_instance s) = (r, c1, i)" by (metis prod_cases3)
    let ?m = "m\<lparr>sm_scripts := (pre @ [(k, entry_after call c s)]) @ rest\<rparr>"
    have entry: "entry_after call c s = settle r i s" using run(1) c by (simp add: entry_after_def)
    have u: "bm_update k (settle r i) (sm_scripts m) = pre @ (k, settle r i s) # rest"
      using Cons.prems e by (simp add: bm_update_middle)
    have errs: "errors_of call hook (sm_tick m) c e = fst (settled hook k (r, c1, i) m)"
      using run(1) c e
      by (auto simp: errors_of_def settled_errors wrap_error_def split: sum.split)
    have "settled hook k (call c (ms_instance s)) m = (errors_of call hook (sm_tick m) c e, c1, ?m)"
      by (simp add: c errs settled_eq u entry)
    from run_scripts_call [where call = call and exhausted = exhausted, OF g run this, of "map fst rest"]
    have "run_scripts exhausted call hook (map fst (e # rest)) c m =
        (case run_scripts exhausted call hook (map fst rest) c1 ?m of
           (errors, b, m) \<Rightarrow> (errors_of call hook (sm_tick ?m) c e @ errors, b, m))"
      by (simp add: e)
    then show ?thesis
      using run c by (intro one_more [of c1 ?m]) (simp_all add: passes_on_def)
  qed
qed

text \<open>C3: A tick runs a prefix of the scripts in the order of their keys, priority first: all of them, unless before one that is not
  disabled the budget is used up, which ends the tick. Every script of the prefix that is not disabled is called
  exactly once, with its own program and variables and with what all scripts share (budget, clock, bridge) as the
  script before it left it; its entry changes by the outcome of this call and by nothing else; its errors are
  reported in that order; a disabled script is passed over, and it and every script after the prefix are left as
  they were.\<close>

theorem tick_all_runs_prefix:
  assumes "manager_ok m"
  shows "\<exists>n cs. n \<le> script_count m \<and> length cs = Suc n \<and> cs ! 0 = c
    \<and> (\<forall>i < n. passes_on (call_on_tick dt) frame_exhausted (cs ! i) (snd (sm_scripts m ! i)) (cs ! Suc i))
    \<and> (n < script_count m \<longrightarrow> frame_exhausted (cs ! n) \<and> \<not> is_disabled_state (ms_state (snd (sm_scripts m ! n))))
    \<and> tick_all dt c m =
        (concat (map2 (errors_of (call_on_tick dt) HookTick (sm_tick m)) cs (take n (sm_scripts m))), cs ! n,
         m\<lparr>sm_scripts := map2 (\<lambda>c (k, s). (k, entry_after (call_on_tick dt) c s)) cs (take n (sm_scripts m))
            @ drop n (sm_scripts m)\<rparr>)
    \<and> sorted_wrt (<) (map fst (sm_scripts m))"
proof -
  have "distinct (map fst ([] @ sm_scripts m))"
    using assms by (simp add: manager_ok_def scripts_ok_def bm_wf_distinct)
  from run_scripts_prefix [OF this, of m c "call_on_tick dt" frame_exhausted HookTick]
  obtain n cs where "n \<le> length (sm_scripts m)" "length cs = Suc n" "cs ! 0 = c"
    "\<forall>i < n. passes_on (call_on_tick dt) frame_exhausted (cs ! i) (snd (sm_scripts m ! i)) (cs ! Suc i)"
    "n < length (sm_scripts m) \<longrightarrow> frame_exhausted (cs ! n) \<and> \<not> is_disabled_state (ms_state (snd (sm_scripts m ! n)))"
    "run_scripts frame_exhausted (call_on_tick dt) HookTick (map fst (sm_scripts m)) c m =
        (concat (map2 (errors_of (call_on_tick dt) HookTick (sm_tick m)) cs (take n (sm_scripts m))), cs ! n,
         m\<lparr>sm_scripts := map2 (\<lambda>c (k, s). (k, entry_after (call_on_tick dt) c s)) cs (take n (sm_scripts m))
            @ drop n (sm_scripts m)\<rparr>)" by auto
  moreover have "sorted_wrt (<) (map fst (sm_scripts m))"
    using assms by (simp add: manager_ok_def scripts_ok_def bm_wf_def)
  ultimately show ?thesis
    by (intro exI [of _ n] exI [of _ cs]) (simp add: tick_all_def script_keys_def script_count_def)
qed

text \<open>A script that fails, called with the budget 1 and the counter of calls at 7.\<close>

theorem tick_all_runs_prefix_witness:
  "fst (tick_all (SoftF32 0) (1, toy_engine\<lparr>sb_shared := 7\<rparr>) (toy_manager 2)) =
     [\<lparr>ec_error = RuntimeError ''a'' ''error'' 0, ec_script_id = ''a'', ec_tick = 0, ec_hook = HookTick\<rparr>]
   \<and> sb_shared (snd (fst (snd (tick_all (SoftF32 0) (1, toy_engine\<lparr>sb_shared := 7\<rparr>) (toy_manager 2))))) = 8"
proof -
  let ?c = "(1, toy_engine\<lparr>sb_shared := 7\<rparr>)"
  have call: "call_on_tick (SoftF32 0) ?c (instance_new ''a'' 2 5) =
      (Inl (RuntimeError ''a'' ''error'' 0), (1, toy_engine\<lparr>sb_shared := 8\<rparr>), (instance_new ''a'' 2 5)\<lparr>in_initialized := True\<rparr>)"
    by (simp add: call_on_tick_def call_with_budget_def call_lifecycle_fn_def ensure_initialized_def
        toy_engine_def has_function_def instance_new_def map_hook_error_def Let_def)
  have live: "\<not> frame_exhausted ?c" by (simp add: frame_exhausted_def toy_engine_def)
  obtain n cs where n: "n \<le> 1" "length cs = Suc n" "cs ! 0 = ?c"
    "\<forall>i < n. passes_on (call_on_tick (SoftF32 0)) frame_exhausted (cs ! i) (snd (sm_scripts (toy_manager 2) ! i)) (cs ! Suc i)"
    "n < 1 \<longrightarrow> frame_exhausted (cs ! n)"
    "fst (tick_all (SoftF32 0) ?c (toy_manager 2)) =
      concat (map2 (errors_of (call_on_tick (SoftF32 0)) HookTick (sm_tick (toy_manager 2))) cs (take n (sm_scripts (toy_manager 2))))"
    "fst (snd (tick_all (SoftF32 0) ?c (toy_manager 2))) = cs ! n"
    using tick_all_runs_prefix [OF toy_manager_ok, of 2 ?c "SoftF32 0"]
    by (auto simp: script_count_def toy_manager_def)
  have one: "n = 1" using n(1,3,5) live by (cases n) auto
  obtain c1 where cs: "cs = [?c, c1]" using n(2,3) one by (cases cs; cases "tl cs") auto
  have "c1 = (1, toy_engine\<lparr>sb_shared := 8\<rparr>)"
    using n(4) one cs call by (simp add: passes_on_def toy_manager_def toy_script_def is_disabled_state_def)
  then show ?thesis
    using n(6,7) one cs call by (simp add: errors_of_def toy_manager_def toy_script_def is_disabled_state_def)
qed

section \<open>Automatic disabling\<close>

text \<open>The results of the calls, in the order of the calls: a loop whose calls also write a log runs as the loop does.\<close>

definition logged ::
  "('c \<Rightarrow> 'ast ScriptInstance \<Rightarrow> (ScriptError + unit) \<times> 'c \<times> 'ast ScriptInstance)
     \<Rightarrow> 'c \<times> (ScriptId \<times> (ScriptError + unit)) list \<Rightarrow> 'ast ScriptInstance
     \<Rightarrow> (ScriptError + unit) \<times> ('c \<times> (ScriptId \<times> (ScriptError + unit)) list) \<times> 'ast ScriptInstance" where
  "logged call cl i = (case call (fst cl) i of (r, c, i') \<Rightarrow> (r, (c, snd cl @ [(in_script_id i, r)]), i'))"

lemma run_scripts_logged:
  "run_scripts exhausted call hook keys c m =
     (case run_scripts (\<lambda>cl. exhausted (fst cl)) (logged call) hook keys (c, log) m of (errs, cl, m) \<Rightarrow> (errs, fst cl, m))"
proof (induction keys arbitrary: c log m)
  case (Cons key keys)
  show ?case
  proof (cases "bm_get (sm_scripts m) key")
    case None
    then show ?thesis using Cons by (simp add: run_scripts_skip)
  next
    case (Some s)
    obtain r c1 i where c: "call c (ms_instance s) = (r, c1, i)" by (metis prod_cases3)
    let ?log = "log @ [(in_script_id (ms_instance s), r)]"
    have l: "logged call (c, log) (ms_instance s) = (r, (c1, ?log), i)" by (simp add: logged_def c)
    consider "is_disabled_state (ms_state s)" | "\<not> is_disabled_state (ms_state s)" "exhausted c"
      | "\<not> is_disabled_state (ms_state s)" "\<not> exhausted c" by blast
    then show ?thesis
    proof cases
      case 1
      then show ?thesis using Cons Some by (simp add: run_scripts_skip)
    next
      case 2
      then show ?thesis using Some by (simp add: run_scripts_stop)
    next
      case 3
      let ?errs = "fst (settled hook key (r, c1, i) m)" and ?m = "m\<lparr>sm_scripts := bm_update key (settle r i) (sm_scripts m)\<rparr>"
      have "settled hook key (r, c1, i) m = (?errs, c1, ?m)" "settled hook key (r, (c1, ?log), i) m = (?errs, (c1, ?log), ?m)"
        by (simp_all add: settled_eq)
      then show ?thesis
        using run_scripts_call [where call = call and exhausted = exhausted, OF Some 3, of hook ?errs c1 ?m keys]
          run_scripts_call [where call = "logged call" and exhausted = "\<lambda>cl. exhausted (fst cl)" and b = "(c, log)",
            OF Some 3(1), of hook ?errs "(c1, ?log)" ?m keys]
          3 c l Cons.IH [of c1 ?m ?log] by (simp add: case_prod_unfold)
    qed
  qed
qed simp

text \<open>The loops of a frame, and a sequence of them.\<close>

datatype 'd script_loop = LoopTick SoftF32 | LoopEvent string 'd | LoopInput string 'd

primrec loop_call where
  "loop_call (LoopTick dt) = call_on_tick dt"
| "loop_call (LoopEvent ty d) = call_on_event ty d"
| "loop_call (LoopInput ty d) = call_on_input ty d"

primrec loop_hook :: "'d script_loop \<Rightarrow> LifecycleHookName" where
  "loop_hook (LoopTick dt) = HookTick"
| "loop_hook (LoopEvent ty d) = HookEvent"
| "loop_hook (LoopInput ty d) = HookInput"

primrec run_loop where
  "run_loop (LoopTick dt) c m = tick_all dt c m"
| "run_loop (LoopEvent ty d) c m = dispatch_event ty d c m"
| "run_loop (LoopInput ty d) c m = dispatch_input ty d c m"

primrec run_loops where
  "run_loops [] c m = (c, m)"
| "run_loops (l # ls) c m = (case run_loop l c m of (_, c, m) \<Rightarrow> run_loops ls c m)"

primrec run_loops_logged where
  "run_loops_logged [] cl m = (cl, m)"
| "run_loops_logged (l # ls) cl m =
     (case run_scripts (\<lambda>cl. frame_exhausted (fst cl)) (logged (loop_call l)) (loop_hook l) (script_keys m) cl m of
        (_, cl, m) \<Rightarrow> run_loops_logged ls cl m)"

lemma run_loop_eq: "run_loop l c m = run_scripts frame_exhausted (loop_call l) (loop_hook l) (script_keys m) c m"
  by (cases l) (simp_all add: tick_all_def dispatch_event_def dispatch_input_def)

lemma run_loops_log: "run_loops ls c m = (case run_loops_logged ls (c, log) m of (cl, m) \<Rightarrow> (fst cl, m))"
proof (induction ls arbitrary: c log m)
  case (Cons l ls)
  obtain errs cl m1 where
    o: "run_scripts (\<lambda>cl. frame_exhausted (fst cl)) (logged (loop_call l)) (loop_hook l) (script_keys m) (c, log) m = (errs, cl, m1)"
    by (metis prod_cases3)
  from run_scripts_logged [of frame_exhausted "loop_call l" "loop_hook l" "script_keys m" c m log]
  have "run_loop l c m = (errs, fst cl, m1)" unfolding run_loop_eq o by simp
  then show ?case using Cons.IH [of "fst cl" m1 "snd cl"] by (simp add: o)
qed simp

text \<open>The results of one script.\<close>

definition results_of :: "ScriptId \<Rightarrow> (ScriptId \<times> (ScriptError + unit)) list \<Rightarrow> (ScriptError + unit) list" where
  "results_of sid log = map snd (filter (\<lambda>e. fst e = sid) log)"

lemma results_of_simps [simp]:
  "results_of sid [] = []" "results_of sid (log @ [(i, r)]) = (if i = sid then results_of sid log @ [r] else results_of sid log)"
  by (simp_all add: results_of_def)

fun is_strike :: "ScriptError + unit \<Rightarrow> bool" where
  "is_strike (Inl (ScriptTimeout _ _ _)) = True"
| "is_strike (Inl (OperationLimit _ _ _)) = True"
| "is_strike _ = False"

fun is_scope_error :: "ScriptError + unit \<Rightarrow> bool" where
  "is_scope_error (Inl (ScopeLimitExceeded _ _ _)) = True"
| "is_scope_error _ = False"

definition strikes :: "(ScriptError + unit) list \<Rightarrow> nat" where
  "strikes rs = length (filter is_strike (takeWhile (\<lambda>r. r \<noteq> Inr ()) (rev rs)))"

lemma strikes_simps [simp]:
  "strikes [] = 0" "strikes (rs @ [Inr u]) = 0"
  "strikes (rs @ [Inl e]) = (if is_strike (Inl e) then Suc (strikes rs) else strikes rs)"
  by (simp_all add: strikes_def)

definition struck_out :: "(ScriptError + unit) list \<Rightarrow> bool" where
  "struck_out rs \<longleftrightarrow> (\<exists>r. r \<in> set rs \<and> is_scope_error r) \<or> (\<exists>n. n \<le> length rs \<and> strikes (take n rs) \<ge> 10)"

lemma struck_out_snoc: "struck_out (rs @ [r]) \<longleftrightarrow> struck_out rs \<or> is_scope_error r \<or> strikes (rs @ [r]) \<ge> 10"
  by (auto simp: struck_out_def le_Suc_eq)

lemma settle_state:
  "is_disabled_state (ms_state (settle r i s)) \<longleftrightarrow>
     is_disabled_state (ms_state s) \<or> is_scope_error r
     \<or> is_strike r \<and> ms_consecutive_error_count s + 1 \<ge> AUTO_DISABLE_THRESHOLD"
  "ms_consecutive_error_count (settle r i s) =
     (if r = Inr () then 0 else if is_strike r then ms_consecutive_error_count s + 1
      else ms_consecutive_error_count s)"
  by (cases r rule: is_strike.cases; simp add: settle_def charge_def Let_def is_disabled_state_def)+

text \<open>The invariant of the loops: the table is consistent, and the count of the script is that of its strikes until it is
  disabled.\<close>

definition counted :: "u8 \<times> ScriptId \<Rightarrow> (ScriptError + unit) list \<Rightarrow> 'ast ScriptManager \<Rightarrow> bool" where
  "counted key rs m \<longleftrightarrow> manager_ok m \<and> (\<exists>s. bm_get (sm_scripts m) key = Some s
     \<and> (is_disabled_state (ms_state s) \<longleftrightarrow> struck_out rs)
     \<and> (\<not> struck_out rs \<longrightarrow> unat (ms_consecutive_error_count s) = strikes rs \<and> strikes rs < 10))"

lemma counted_settle:
  assumes "counted key rs m" "bm_get (sm_scripts m) key' = Some s'" "\<not> is_disabled_state (ms_state s')"
    and "same_script (ms_instance s') i"
  shows "counted key (if snd key' = snd key then rs @ [r] else rs) (m\<lparr>sm_scripts := bm_update key' (settle r i) (sm_scripts m)\<rparr>)"
proof -
  obtain s where s: "bm_get (sm_scripts m) key = Some s" "is_disabled_state (ms_state s) \<longleftrightarrow> struck_out rs"
    "\<not> struck_out rs \<longrightarrow> unat (ms_consecutive_error_count s) = strikes rs \<and> strikes rs < 10"
    and ok: "manager_ok m" using assms(1) by (auto simp: counted_def)
  have ok': "manager_ok (m\<lparr>sm_scripts := bm_update key' (settle r i) (sm_scripts m)\<rparr>)"
    using manager_ok_settled [OF ok assms(2), of "(r, (), i)" HookTick] assms(4) by (simp add: settled_manager)
  show ?thesis
  proof (cases "key' = key")
    case True
    then have "s' = s" using assms(2) s(1) by simp
    then have live: "\<not> struck_out rs" using assms(3) s(2) by simp
    then have n: "unat (ms_consecutive_error_count s) = strikes rs" "strikes rs < 10" using s(3) by auto
    then have next_count: "unat (ms_consecutive_error_count s + 1) = Suc (strikes rs)"
      by (simp add: unat_word_ariths)
    then have ge: "ms_consecutive_error_count s + 1 \<ge> AUTO_DISABLE_THRESHOLD \<longleftrightarrow> Suc (strikes rs) \<ge> 10"
      by (simp add: word_le_nat_alt AUTO_DISABLE_THRESHOLD_def)
    have out: "is_disabled_state (ms_state (settle r i s)) \<longleftrightarrow> struck_out (rs @ [r])"
      using n(2) live assms(3) \<open>s' = s\<close> ge by (cases r) (auto simp: settle_state struck_out_snoc)
    have "unat (ms_consecutive_error_count (settle r i s)) = strikes (rs @ [r])"
      using n(1) next_count by (cases r) (auto simp: settle_state)
    moreover have "\<not> struck_out (rs @ [r]) \<longrightarrow> strikes (rs @ [r]) < 10" by (simp add: struck_out_snoc)
    ultimately show ?thesis
      using True s(1) ok' out by (simp add: counted_def bm_get_update)
  next
    case False
    have "snd key' \<noteq> snd key"
    proof
      assume eq: "snd key' = snd key"
      have "find_key (snd key) m = Some key" "find_key (snd key) m = Some key'"
        using find_key_iff [OF ok, of "snd key"] s(1) assms(2) eq by auto
      with False show False by simp
    qed
    then show ?thesis using False s ok' by (auto simp: counted_def bm_get_update)
  qed
qed

lemma counted_run_scripts:
  assumes "counted key (results_of (snd key) (snd cl)) m" "\<And>c i. same_script i (snd (snd (call c i)))"
  shows "case run_scripts ex (logged call) hook keys cl m of (_, cl, m) \<Rightarrow> counted key (results_of (snd key) (snd cl)) m"
  using assms(1)
proof (induction keys arbitrary: cl m)
  case (Cons k keys)
  show ?case
  proof (cases "bm_get (sm_scripts m) k")
    case None
    then show ?thesis using Cons by (simp add: run_scripts_skip)
  next
    case (Some s)
    show ?thesis
    proof (cases "is_disabled_state (ms_state s) \<or> ex cl")
      case True
      then show ?thesis using Cons Some
        by (cases "is_disabled_state (ms_state s)") (simp_all add: run_scripts_skip run_scripts_stop)
    next
      case False
      obtain r c i where c: "call (fst cl) (ms_instance s) = (r, c, i)" by (metis prod_cases3)
      let ?cl = "(c, snd cl @ [(in_script_id (ms_instance s), r)])"
      let ?m = "m\<lparr>sm_scripts := bm_update k (settle r i) (sm_scripts m)\<rparr>"
      have l: "logged call cl (ms_instance s) = (r, ?cl, i)" by (simp add: logged_def c)
      have "manager_ok m" using Cons.prems by (simp add: counted_def)
      then have id: "in_script_id (ms_instance s) = snd k"
        using Some by (auto simp: manager_ok_def scripts_ok_def entry_ok_def bm_get_iff)
      have "same_script (ms_instance s) i" using assms(2) [of "ms_instance s" "fst cl"] c by simp
      from counted_settle [OF Cons.prems Some _ this, of r] False
      have "counted key (results_of (snd key) (snd ?cl)) ?m" by (simp add: id split: if_splits)
      then have IH: "case run_scripts ex (logged call) hook keys ?cl ?m of (_, cl, m) \<Rightarrow> counted key (results_of (snd key) (snd cl)) m"
        by (rule Cons.IH)
      obtain errs where "settled hook k (r, ?cl, i) m = (errs, ?cl, ?m)" by (simp add: settled_eq)
      from run_scripts_call [where call = "logged call" and exhausted = ex and b = cl, OF Some, of hook errs ?cl ?m keys] this False l IH
      show ?thesis by (simp add: case_prod_unfold)
    qed
  qed
qed simp

lemma loop_call_same: "same_script i (snd (snd (loop_call l c i)))"
  by (cases l) (simp_all add: call_on_tick_same call_on_event_same call_on_input_same)

lemma counted_run_loops:
  "counted key (results_of (snd key) (snd cl)) m \<Longrightarrow>
     case run_loops_logged ls cl m of (cl, m) \<Rightarrow> counted key (results_of (snd key) (snd cl)) m"
proof (induction ls arbitrary: cl m)
  case (Cons l ls)
  obtain errs cl1 m1 where
    o: "run_scripts (\<lambda>cl. frame_exhausted (fst cl)) (logged (loop_call l)) (loop_hook l) (script_keys m) cl m = (errs, cl1, m1)"
    by (metis prod_cases3)
  then have "counted key (results_of (snd key) (snd cl1)) m1"
    using counted_run_scripts [where call = "loop_call l", OF Cons.prems loop_call_same,
      of "\<lambda>cl. frame_exhausted (fst cl)" "loop_hook l" "script_keys m"] by simp
  from Cons.IH [OF this] o show ?case by simp
qed simp

lemma counted_from_start:
  assumes "manager_ok m" "bm_get (sm_scripts m) key = Some s" "ms_state s = Active" "ms_consecutive_error_count s = 0"
  obtains c' log m' where "run_loops_logged ls (c, []) m = ((c', log), m')" "run_loops ls c m = (c', m')"
    "counted key (results_of (snd key) log) m'"
proof -
  obtain c' log m' where r: "run_loops_logged ls (c, []) m = ((c', log), m')" by (metis prod.collapse)
  have "counted key (results_of (snd key) (snd (c, []))) m"
    using assms by (simp add: counted_def struck_out_def is_disabled_state_def)
  from counted_run_loops [OF this, of ls] r
  have "counted key (results_of (snd key) log) m'" by simp
  moreover have "run_loops ls c m = (c', m')" using run_loops_log [of ls c m "[]"] r by simp
  ultimately show ?thesis using r that by blast
qed

text \<open>C22: When a script is disabled. Take an active script with a clear count, and let the loops of any number of frames run: ticks,
  events and inputs, in any order. With the results of the calls of this script in the order of the calls (the log, which does
  not change what runs), it is disabled at the end exactly if one of them broke the variable limits, or at some point ten
  results since its last success were timeouts or operation limits; other errors neither count nor clear the count.
  While it is not disabled, the stored count is the number of strikes since the last success.\<close>

theorem disabled_after_ten_strikes:
  assumes "manager_ok m" "bm_get (sm_scripts m) key = Some s" "ms_state s = Active" "ms_consecutive_error_count s = 0"
  shows "\<exists>c' log m' s'. run_loops_logged ls (c, []) m = ((c', log), m') \<and> run_loops ls c m = (c', m')
    \<and> bm_get (sm_scripts m') key = Some s'
    \<and> (is_disabled_state (ms_state s') \<longleftrightarrow>
         (\<exists>r. r \<in> set (results_of (snd key) log) \<and> is_scope_error r)
         \<or> (\<exists>n. n \<le> length (results_of (snd key) log) \<and> strikes (take n (results_of (snd key) log)) \<ge> 10))
    \<and> (is_disabled_state (ms_state s') \<or> unat (ms_consecutive_error_count s') = strikes (results_of (snd key) log))"
proof -
  from counted_from_start [OF assms, of ls c] obtain c' log m'
    where "run_loops_logged ls (c, []) m = ((c', log), m')" "run_loops ls c m = (c', m')"
      "counted key (results_of (snd key) log) m'" .
  then show ?thesis by (auto simp: counted_def struck_out_def)
qed

text \<open>One tick of the script that always runs out of time: its result goes to the log, and its count goes up.\<close>

definition failing_manager :: "u32 \<Rightarrow> nat ScriptManager" where
  "failing_manager n = (toy_manager 3)\<lparr>sm_scripts := [((5, ''a''),
     (toy_script 3)\<lparr>ms_instance := (instance_new ''a'' 3 5)\<lparr>in_initialized := True\<rparr>, ms_consecutive_error_count := n\<rparr>)]\<rparr>"

lemma failing_tick:
  assumes "m = toy_manager 3 \<and> n = 0 \<or> m = failing_manager n" "n + 1 < 10"
  shows "run_loops_logged (LoopTick (SoftF32 0) # ls) ((1, toy_engine\<lparr>sb_shared := w\<rparr>), log) m =
    run_loops_logged ls ((1, toy_engine\<lparr>sb_shared := w + 1\<rparr>), log @ [(''a'', Inl (ScriptTimeout ''a'' 2001 0))])
      (failing_manager (n + 1))"
  using assms
  by (auto simp: run_scripts.simps(2) script_keys_def toy_manager_def failing_manager_def toy_script_def is_disabled_state_def
      frame_exhausted_def logged_def call_on_tick_def call_with_budget_def call_lifecycle_fn_def ensure_initialized_def
      has_function_def instance_new_def map_hook_error_def handle_callback_error_def bm_update_def toy_engine_def Let_def
      AUTO_DISABLE_THRESHOLD_def not_le [symmetric])

lemma failing_tick_result:
  "fst (run_loops_logged [LoopTick (SoftF32 0)] ((1, toy_engine\<lparr>sb_shared := w\<rparr>), log) (failing_manager n)) =
    ((1, toy_engine\<lparr>sb_shared := w + 1\<rparr>), log @ [(''a'', Inl (ScriptTimeout ''a'' 2001 0))])"
  by (simp add: run_scripts.simps(2) script_keys_def failing_manager_def toy_manager_def toy_script_def is_disabled_state_def
      frame_exhausted_def logged_def call_on_tick_def call_with_budget_def call_lifecycle_fn_def ensure_initialized_def
      has_function_def instance_new_def map_hook_error_def handle_callback_error_def bm_update_def toy_engine_def Let_def
      case_prod_unfold)

lemma failing_ticks:
  assumes "m = toy_manager 3 \<and> n = 0 \<or> m = failing_manager (of_nat n)" "n + k = 9"
  shows "fst (run_loops_logged (replicate k (LoopTick (SoftF32 0)) @ [LoopTick (SoftF32 0)])
      ((1, toy_engine\<lparr>sb_shared := w\<rparr>), log) m) =
    ((1, toy_engine\<lparr>sb_shared := w + k + 1\<rparr>), log @ replicate (Suc k) (''a'', Inl (ScriptTimeout ''a'' 2001 0)))"
  using assms
proof (induction k arbitrary: m n w log)
  case 0
  then have "m = failing_manager (of_nat n)" by auto
  then show ?case by (simp only: failing_tick_result append_Nil replicate.simps add_0_right)
next
  case (Suc k)
  have "unat (of_nat n :: u32) = n" using Suc.prems(2) by (simp add: unat_of_nat)
  then have "(of_nat n :: u32) + 1 < 10" using Suc.prems(2) by (simp add: word_less_nat_alt unat_word_ariths)
  moreover have "m = toy_manager 3 \<and> (of_nat n :: u32) = 0 \<or> m = failing_manager (of_nat n)" using Suc.prems(1) by auto
  ultimately have 1: "run_loops_logged (replicate (Suc k) (LoopTick (SoftF32 0)) @ [LoopTick (SoftF32 0)])
      ((1, toy_engine\<lparr>sb_shared := w\<rparr>), log) m =
    run_loops_logged (replicate k (LoopTick (SoftF32 0)) @ [LoopTick (SoftF32 0)])
      ((1, toy_engine\<lparr>sb_shared := w + 1\<rparr>), log @ [(''a'', Inl (ScriptTimeout ''a'' 2001 0))]) (failing_manager (of_nat (Suc n)))"
    using failing_tick [of m "of_nat n" _ w log] by (simp add: add.commute)
  have 2: "fst (run_loops_logged (replicate k (LoopTick (SoftF32 0)) @ [LoopTick (SoftF32 0)])
      ((1, toy_engine\<lparr>sb_shared := w + 1\<rparr>), log @ [(''a'', Inl (ScriptTimeout ''a'' 2001 0))]) (failing_manager (of_nat (Suc n)))) = ((1, toy_engine\<lparr>sb_shared := w + 1 + k + 1\<rparr>),
      (log @ [(''a'', Inl (ScriptTimeout ''a'' 2001 0))]) @ replicate (Suc k) (''a'', Inl (ScriptTimeout ''a'' 2001 0)))"
    by (rule Suc.IH [of _ "Suc n"]) (use Suc.prems in auto)
  have 3: "w + Suc k + 1 = w + 1 + k + 1"
    "log @ replicate (Suc (Suc k)) x = (log @ [x]) @ replicate (Suc k) x" for x :: "string \<times> (ScriptError + unit)" by simp_all
  show ?case by (simp only: 1 2 3)
qed

theorem disabled_after_ten_strikes_witness:
  "\<exists>s'. bm_get (sm_scripts (snd (run_loops (replicate 10 (LoopTick (SoftF32 0))) (1, toy_engine) (toy_manager 3)))) (5, ''a'')
      = Some s' \<and> is_disabled_state (ms_state s')"
proof -
  let ?ls = "replicate 9 (LoopTick (SoftF32 0)) @ [LoopTick (SoftF32 0)]"
  have e: "toy_engine = toy_engine\<lparr>sb_shared := 0\<rparr>" by (simp add: toy_engine_def)
  have ls: "replicate 10 (LoopTick (SoftF32 0)) = ?ls" by (simp add: eval_nat_numeral)
  have "bm_get (sm_scripts (toy_manager 3)) (5, ''a'') = Some (toy_script 3)" by (simp add: toy_manager_def)
  from disabled_after_ten_strikes [OF toy_manager_ok this, of ?ls "(1, toy_engine\<lparr>sb_shared := 0\<rparr>)"]
    failing_ticks [of "toy_manager 3" 0 9 0 "[]"]
  obtain s' where s': "bm_get (sm_scripts (snd (run_loops ?ls (1, toy_engine\<lparr>sb_shared := 0\<rparr>) (toy_manager 3)))) (5, ''a'') = Some s'"
    "(\<exists>n. n \<le> 10 \<and> strikes (take n (replicate 10 (Inl (ScriptTimeout ''a'' 2001 0)))) \<ge> 10) \<Longrightarrow> is_disabled_state (ms_state s')"
    by (auto simp: toy_script_def results_of_def)
  have "strikes (take 10 (replicate 10 (Inl (ScriptTimeout ''a'' 2001 0)))) \<ge> 10"
    by (simp add: strikes_def)
  then show ?thesis unfolding ls by (subst e) (use s' in blast)
qed

end
