(* ===== verification/Hot_Update.thy ===== *)
theory Hot_Update
  imports Script_Manager
begin

text \<open>
  Over-the-air updates on the client (\<^verbatim>\<open>engine/vm_runtime/src\<close>: \<open>hot_update.rs\<close>,
  \<open>atomic_update.rs\<close>): collecting the chunks of an update, loading the bytecode and swapping it into the
  script manager; batches of several scripts; batches that wait until every script has arrived. The
  clock reading is an argument. How an error of the loader or of a script is printed is a parameter.
\<close>

section \<open>Updates of one script\<close>

definition OTA_REASSEMBLY_TIMEOUT_US :: u64 where "OTA_REASSEMBLY_TIMEOUT_US = 5000000"

datatype UpdateError =
    UpdSignatureVerificationFailed
  | UpdVersionMismatch
  | UpdDecryptionFailed
  | UpdInitFailed string
  | UpdAssemblyIncomplete
  | UpdTimeout

fun display_update_error :: "UpdateError \<Rightarrow> string" where
  "display_update_error UpdSignatureVerificationFailed = ''Ed25519 '' @ utf8 [0xE7, 0xB0, 0xBD, 0xE7, 0xAB, 0xA0, 0xE9, 0xA9, 0x97, 0xE8, 0xAD, 0x89, 0xE5, 0xA4, 0xB1, 0xE6, 0x95, 0x97]"
| "display_update_error UpdVersionMismatch = ''Bytecode '' @ utf8 [0xE7, 0x89, 0x88, 0xE6, 0x9C, 0xAC, 0xE4, 0xB8, 0x8D, 0xE5, 0x8C, 0xB9, 0xE9, 0x85, 0x8D]"
| "display_update_error UpdDecryptionFailed = ''AES-256-GCM '' @ utf8 [0xE8, 0xA7, 0xA3, 0xE5, 0xAF, 0x86, 0xE5, 0xA4, 0xB1, 0xE6, 0x95, 0x97]"
| "display_update_error (UpdInitFailed msg) = ''on_init() '' @ utf8 [0xE5, 0x9F, 0xB7, 0xE8, 0xA1, 0x8C, 0xE5, 0xA4, 0xB1, 0xE6, 0x95, 0x97, 0xEF, 0xBC, 0x9A] @ msg"
| "display_update_error UpdAssemblyIncomplete = utf8 [0xE5, 0x88, 0x86, 0xE7, 0x89, 0x87, 0xE5, 0xB0, 0x9A, 0xE6, 0x9C, 0xAA, 0xE5, 0xAE, 0x8C, 0xE5, 0x85, 0xA8, 0xE5, 0x88, 0xB0, 0xE9, 0xBD, 0x8A]"
| "display_update_error UpdTimeout = utf8 [0xE5, 0x88, 0x86, 0xE7, 0x89, 0x87, 0xE8, 0xB6, 0x85, 0xE6, 0x99, 0x82, 0xEF, 0xBC, 0x88] @ ''5 '' @ utf8 [0xE7, 0xA7, 0x92, 0xEF, 0xBC, 0x89]"

record UpdateBuffer =
  ub_update_id :: u64
  ub_total :: u16
  ub_fragments :: "(u16, bytes) btree"
  ub_created_at_us :: u64

definition update_buffer_new :: "u64 \<Rightarrow> u16 \<Rightarrow> u64 \<Rightarrow> UpdateBuffer" where
  "update_buffer_new update_id total_chunks now_us =
     \<lparr>ub_update_id = update_id, ub_total = total_chunks, ub_fragments = [], ub_created_at_us = now_us\<rparr>"

definition receive_fragment :: "u16 \<Rightarrow> bytes \<Rightarrow> UpdateBuffer \<Rightarrow> UpdateBuffer" where
  "receive_fragment seq data b = b\<lparr>ub_fragments := bm_insert seq data (ub_fragments b)\<rparr>"

definition buffer_is_complete :: "UpdateBuffer \<Rightarrow> bool" where
  "buffer_is_complete b \<longleftrightarrow> length (ub_fragments b) = unat (ub_total b)"

definition buffer_assemble :: "UpdateBuffer \<Rightarrow> UpdateError + bytes" where
  "buffer_assemble b =
     (if \<not> buffer_is_complete b then Inl UpdAssemblyIncomplete
      else Inr (concat (map snd (ub_fragments b))))"

definition buffer_is_expired :: "u64 \<Rightarrow> UpdateBuffer \<Rightarrow> bool" where
  "buffer_is_expired now_us b \<longleftrightarrow> saturating_sub now_us (ub_created_at_us b) > OTA_REASSEMBLY_TIMEOUT_US"

record UpdateAck =
  ua_update_id :: u64
  ua_status :: string
  ua_new_version_hash :: Blake3Hash
  ua_tick :: u64

section \<open>Batches of scripts\<close>

record MultiScriptFragment =
  mf_update_id :: u64
  mf_script_id :: ScriptId
  mf_seq :: u16
  mf_total :: u16
  mf_data :: bytes

record 'ast ScriptFragmentBuffer =
  sf_fragments :: "(u16, bytes) btree"
  sf_expected_total :: u16
  sf_is_staged :: bool
  sf_staged_ast :: "('ast \<times> ScriptMetadata) option"

definition fragment_buffer_new :: "u16 \<Rightarrow> 'ast ScriptFragmentBuffer" where
  "fragment_buffer_new expected_total =
     \<lparr>sf_fragments = [], sf_expected_total = expected_total, sf_is_staged = False, sf_staged_ast = None\<rparr>"

definition fragment_buffer_receive :: "u16 \<Rightarrow> bytes \<Rightarrow> 'ast ScriptFragmentBuffer \<Rightarrow> 'ast ScriptFragmentBuffer" where
  "fragment_buffer_receive seq data b =
     (if \<not> sf_is_staged b then b\<lparr>sf_fragments := bm_insert seq data (sf_fragments b)\<rparr> else b)"

definition fragment_buffer_is_complete :: "'ast ScriptFragmentBuffer \<Rightarrow> bool" where
  "fragment_buffer_is_complete b \<longleftrightarrow> length (sf_fragments b) = unat (sf_expected_total b)"

definition fragment_buffer_assemble :: "'ast ScriptFragmentBuffer \<Rightarrow> UpdateError + bytes" where
  "fragment_buffer_assemble b =
     (if \<not> fragment_buffer_is_complete b then Inl UpdAssemblyIncomplete
      else Inr (concat (map snd (sf_fragments b))))"

datatype BatchStatus = BatchPending nat nat | AllStaged

record 'ast MultiScriptUpdateBatch =
  mb_update_id :: u64
  mb_pending_scripts :: "(ScriptId, 'ast ScriptFragmentBuffer) btree"
  mb_staged_count :: nat
  mb_total_scripts :: nat
  mb_created_at_us :: u64

definition batch_new :: "u64 \<Rightarrow> (ScriptId, u16) btree \<Rightarrow> u64 \<Rightarrow> 'ast MultiScriptUpdateBatch" where
  "batch_new update_id script_totals now_us =
     \<lparr>mb_update_id = update_id,
      mb_pending_scripts = map (\<lambda>(sid, total). (sid, fragment_buffer_new total)) script_totals,
      mb_staged_count = 0, mb_total_scripts = length script_totals, mb_created_at_us = now_us\<rparr>"

definition batch_status :: "'ast MultiScriptUpdateBatch \<Rightarrow> BatchStatus" where
  "batch_status b =
     (if mb_staged_count b \<ge> mb_total_scripts b then AllStaged
      else BatchPending (mb_staged_count b) (mb_total_scripts b))"

definition batch_is_expired :: "u64 \<Rightarrow> 'ast MultiScriptUpdateBatch \<Rightarrow> bool" where
  "batch_is_expired now_us b \<longleftrightarrow> saturating_sub now_us (mb_created_at_us b) > OTA_REASSEMBLY_TIMEOUT_US"

definition map_batch_error :: "(LoadError \<Rightarrow> string) \<Rightarrow> LoadError \<Rightarrow> UpdateError" where
  "map_batch_error show_load e =
     (case e of
        SignatureVerificationFailedLoad \<Rightarrow> UpdSignatureVerificationFailed
      | DecryptionFailed _ \<Rightarrow> UpdDecryptionFailed
      | IncompatibleVersion _ _ \<Rightarrow> UpdVersionMismatch
      | _ \<Rightarrow> UpdInitFailed (''Bytecode '' @ utf8 [0xE8, 0xBC, 0x89, 0xE5, 0x85, 0xA5, 0xE5, 0xA4, 0xB1, 0xE6, 0x95, 0x97, 0xEF, 0xBC, 0x9A] @ show_load e))"

definition batch_receive_fragment ::
  "(LoadError \<Rightarrow> string) \<Rightarrow> 'ast bytecode_env \<Rightarrow> MultiScriptFragment \<Rightarrow> bytes \<Rightarrow> bytes \<Rightarrow> 'ast MultiScriptUpdateBatch
     \<Rightarrow> (UpdateError + BatchStatus) \<times> 'ast MultiScriptUpdateBatch" where
  "batch_receive_fragment show_load B fragment pub_key aes_key batch =
     (let script_key = mf_script_id fragment;
          put = (\<lambda>buf batch. batch\<lparr>mb_pending_scripts :=
                   bm_update script_key (\<lambda>_. buf) (mb_pending_scripts batch)\<rparr>)
      in case bm_get (mb_pending_scripts batch) script_key of
           None \<Rightarrow> (Inr (batch_status batch), batch)
         | Some buf \<Rightarrow>
             let buf = (if sf_expected_total buf = 0 then buf\<lparr>sf_expected_total := mf_total fragment\<rparr> else buf);
                 buf = fragment_buffer_receive (mf_seq fragment) (mf_data fragment) buf
             in if fragment_buffer_is_complete buf \<and> \<not> sf_is_staged buf
                then (case bind_sum (fragment_buffer_assemble buf)
                             (\<lambda>raw. map_inl (map_batch_error show_load) (load B raw pub_key aes_key)) of
                        Inl e \<Rightarrow> (Inl e, put buf batch)
                      | Inr (metadata, ast) \<Rightarrow>
                          let buf = buf\<lparr>sf_is_staged := True, sf_staged_ast := Some (ast, metadata)\<rparr>;
                              batch = put buf (batch\<lparr>mb_staged_count := mb_staged_count batch + 1\<rparr>)
                          in (Inr (batch_status batch), batch))
                else (let batch = put buf batch in (Inr (batch_status batch), batch)))"

text \<open>The swaps of a commit: the first failing script ends it; the scripts before it stay replaced.\<close>

definition swap_plan :: "'ast MultiScriptUpdateBatch \<Rightarrow> (ScriptId \<times> 'ast \<times> Blake3Hash) list" where
  "swap_plan batch = concat (map (\<lambda>(sid, buf).
     case sf_staged_ast buf of None \<Rightarrow> [] | Some (ast, metadata) \<Rightarrow> [(sid, ast, md_source_hash metadata)])
     (mb_pending_scripts batch))"

fun commit_swaps ::
  "(ScriptError \<Rightarrow> string) \<Rightarrow> u64 \<Rightarrow> u64 \<Rightarrow> (ScriptId \<times> 'ast \<times> Blake3Hash) list \<Rightarrow> ('ast, 'd, 'b, 'w) runtime
     \<Rightarrow> (UpdateError + UpdateAck list) \<times> ('ast, 'd, 'b, 'w) runtime" where
  "commit_swaps show_err update_id current_tick [] (m, E) = (Inr [], m, E)"
| "commit_swaps show_err update_id current_tick ((sid, new_ast, hash) # plan) (m, E) =
     (case replace_script sid new_ast E m of
        (Inr _, m, E) \<Rightarrow>
          (case commit_swaps show_err update_id current_tick plan (m, E) of
             (r, rt) \<Rightarrow>
               (map_sum id (\<lambda>acks. \<lparr>ua_update_id = update_id, ua_status = ''ok'',
                   ua_new_version_hash = hash, ua_tick = current_tick\<rparr> # acks) r, rt))
      | (Inl e, m, E) \<Rightarrow>
          (Inl (UpdInitFailed (utf8 [0xE5, 0xA4, 0x9A, 0xE8, 0x85, 0xB3, 0xE6, 0x9C, 0xAC, 0xE6, 0x89, 0xB9, 0xE6, 0xAC, 0xA1] @ '' '' @ decimal (unat update_id) @ '' '' @ utf8 [0xE8, 0x85, 0xB3, 0xE6, 0x9C, 0xAC] @ '' '' @ ec_script_id e
             @ '' '' @ utf8 [0xE5, 0xA4, 0xB1, 0xE6, 0x95, 0x97, 0xEF, 0xBC, 0x9A] @ show_err (ec_error e))), m, E))"

definition batch_commit ::
  "(ScriptError \<Rightarrow> string) \<Rightarrow> u64 \<Rightarrow> 'ast MultiScriptUpdateBatch \<Rightarrow> ('ast, 'd, 'b, 'w) runtime
     \<Rightarrow> (UpdateError + UpdateAck list) \<times> 'ast MultiScriptUpdateBatch \<times> ('ast, 'd, 'b, 'w) runtime" where
  "batch_commit show_err current_tick batch rt =
     (if batch_status batch \<noteq> AllStaged then (Inl UpdAssemblyIncomplete, batch, rt)
      else let plan = swap_plan batch;
               batch = batch\<lparr>mb_pending_scripts :=
                 map (\<lambda>(sid, buf). (sid, buf\<lparr>sf_staged_ast := None\<rparr>)) (mb_pending_scripts batch)\<rparr>
           in case commit_swaps show_err (mb_update_id batch) current_tick plan rt of
                (r, rt) \<Rightarrow> (r, batch, rt))"

section \<open>The update manager\<close>

record 'ast HotUpdateManager =
  hu_pending :: "(u64, UpdateBuffer) btree"
  hu_multi_batches :: "(u64, 'ast MultiScriptUpdateBatch) btree"
  hu_aes_key :: bytes
  hu_pub_key :: bytes

definition update_manager_new :: "bytes \<Rightarrow> bytes \<Rightarrow> 'ast HotUpdateManager" where
  "update_manager_new aes_key pub_key =
     \<lparr>hu_pending = [], hu_multi_batches = [], hu_aes_key = aes_key, hu_pub_key = pub_key\<rparr>"

definition start_update :: "u64 \<Rightarrow> u16 \<Rightarrow> u64 \<Rightarrow> 'ast HotUpdateManager \<Rightarrow> 'ast HotUpdateManager" where
  "start_update update_id total_chunks now_us h =
     h\<lparr>hu_pending := bm_insert update_id (update_buffer_new update_id total_chunks now_us) (hu_pending h)\<rparr>"

definition receive_chunk :: "u64 \<Rightarrow> u16 \<Rightarrow> bytes \<Rightarrow> 'ast HotUpdateManager \<Rightarrow> 'ast HotUpdateManager" where
  "receive_chunk update_id seq data h =
     h\<lparr>hu_pending := bm_update update_id (receive_fragment seq data) (hu_pending h)\<rparr>"

definition map_apply_error :: "LoadError \<Rightarrow> UpdateError" where
  "map_apply_error e =
     (case e of
        SignatureVerificationFailedLoad \<Rightarrow> UpdSignatureVerificationFailed
      | DecryptionFailed _ \<Rightarrow> UpdDecryptionFailed
      | IncompatibleVersion _ _ \<Rightarrow> UpdVersionMismatch
      | Format _ \<Rightarrow> UpdDecryptionFailed
      | SourceDecodeFailed \<Rightarrow> UpdDecryptionFailed
      | RhaiCompileFailed _ \<Rightarrow> UpdInitFailed (''Rhai '' @ utf8 [0xE7, 0xB7, 0xA8, 0xE8, 0xAD, 0xAF, 0xE5, 0xA4, 0xB1, 0xE6, 0x95, 0x97])
      | DebugBuildBytecode \<Rightarrow> UpdVersionMismatch)"

definition try_apply ::
  "(ScriptError \<Rightarrow> string) \<Rightarrow> 'ast bytecode_env \<Rightarrow> u64 \<Rightarrow> 'ast HotUpdateManager \<Rightarrow> ('ast, 'd, 'b, 'w) runtime
     \<Rightarrow> (UpdateError + UpdateAck) \<times> 'ast HotUpdateManager \<times> ('ast, 'd, 'b, 'w) runtime" where
  "try_apply show_err B current_tick h rt =
     (case List.find (\<lambda>(_, buf). buffer_is_complete buf) (hu_pending h) of
        None \<Rightarrow> (Inl UpdAssemblyIncomplete, h, rt)
      | Some (update_id, buf) \<Rightarrow>
          let h = h\<lparr>hu_pending := bm_remove update_id (hu_pending h)\<rparr>
          in case bind_sum (buffer_assemble buf)
                    (\<lambda>raw. map_inl map_apply_error (load B raw (hu_pub_key h) (hu_aes_key h))) of
               Inl e \<Rightarrow> (Inl e, h, rt)
             | Inr (metadata, ast) \<Rightarrow>
                 (case replace_script (md_script_id metadata) ast (snd rt) (fst rt) of
                    (Inl e, rt) \<Rightarrow> (Inl (UpdInitFailed (show_err (ec_error e))), h, rt)
                  | (Inr _, rt) \<Rightarrow>
                      (Inr \<lparr>ua_update_id = update_id, ua_status = ''ok'',
                            ua_new_version_hash = md_source_hash metadata, ua_tick = current_tick\<rparr>, h, rt)))"

definition purge_timed_out :: "u64 \<Rightarrow> 'ast HotUpdateManager \<Rightarrow> u64 list \<times> 'ast HotUpdateManager" where
  "purge_timed_out now_us h =
     (let expired = map fst (filter (\<lambda>(_, buf). buffer_is_expired now_us buf) (hu_pending h))
      in (expired, h\<lparr>hu_pending := fold bm_remove expired (hu_pending h)\<rparr>))"

definition pending_count :: "'ast HotUpdateManager \<Rightarrow> nat" where
  "pending_count h = length (hu_pending h)"

definition start_multi_script_update ::
  "u64 \<Rightarrow> (ScriptId, u16) btree \<Rightarrow> u64 \<Rightarrow> 'ast HotUpdateManager \<Rightarrow> 'ast HotUpdateManager" where
  "start_multi_script_update update_id script_totals now_us h =
     h\<lparr>hu_multi_batches := bm_insert update_id (batch_new update_id script_totals now_us) (hu_multi_batches h)\<rparr>"

definition receive_multi_script_fragment ::
  "(LoadError \<Rightarrow> string) \<Rightarrow> 'ast bytecode_env \<Rightarrow> MultiScriptFragment \<Rightarrow> 'ast HotUpdateManager
     \<Rightarrow> (UpdateError + BatchStatus) \<times> 'ast HotUpdateManager" where
  "receive_multi_script_fragment show_load B fragment h =
     (case bm_get (hu_multi_batches h) (mf_update_id fragment) of
        None \<Rightarrow> (Inr (BatchPending 0 0), h)
      | Some batch \<Rightarrow>
          (case batch_receive_fragment show_load B fragment (hu_pub_key h) (hu_aes_key h) batch of
             (r, batch) \<Rightarrow>
               (r, h\<lparr>hu_multi_batches := bm_update (mf_update_id fragment) (\<lambda>_. batch) (hu_multi_batches h)\<rparr>)))"

definition try_commit_multi_script ::
  "(ScriptError \<Rightarrow> string) \<Rightarrow> u64 \<Rightarrow> u64 \<Rightarrow> 'ast HotUpdateManager \<Rightarrow> ('ast, 'd, 'b, 'w) runtime
     \<Rightarrow> (UpdateError + UpdateAck list) \<times> 'ast HotUpdateManager \<times> ('ast, 'd, 'b, 'w) runtime" where
  "try_commit_multi_script show_err update_id current_tick h rt =
     (case bm_get (hu_multi_batches h) update_id of
        None \<Rightarrow> (Inl UpdAssemblyIncomplete, h, rt)
      | Some batch \<Rightarrow>
          let h = h\<lparr>hu_multi_batches := bm_remove update_id (hu_multi_batches h)\<rparr>
          in case batch_commit show_err current_tick batch rt of (r, _, rt) \<Rightarrow> (r, h, rt))"

definition purge_timed_out_multi :: "u64 \<Rightarrow> 'ast HotUpdateManager \<Rightarrow> u64 list \<times> 'ast HotUpdateManager" where
  "purge_timed_out_multi now_us h =
     (let expired = map fst (filter (\<lambda>(_, batch). batch_is_expired now_us batch) (hu_multi_batches h))
      in (expired, h\<lparr>hu_multi_batches := fold bm_remove expired (hu_multi_batches h)\<rparr>))"

section \<open>Batches that wait for every script\<close>

definition BATCH_TIMEOUT_FRAMES :: u64 where "BATCH_TIMEOUT_FRAMES = 300"

datatype AtomicBatchStatus = AtomicPending | AtomicReady "(ScriptId \<times> bytes) list"

text \<open>The expected identifiers are kept as the sorted list of a \<open>BTreeSet\<close>.\<close>

record PendingBatch =
  pb_expected_scripts :: "ScriptId list"
  pb_received :: "(ScriptId, bytes) btree"
  pb_created_at_frame :: u64

type_synonym AtomicUpdateManager = "(u64, PendingBatch) btree"

definition register_batch :: "u64 \<Rightarrow> ScriptId list \<Rightarrow> u64 \<Rightarrow> AtomicUpdateManager \<Rightarrow> AtomicUpdateManager" where
  "register_batch update_id script_ids current_frame a =
     (if script_ids = [] then a
      else bm_insert update_id
             \<lparr>pb_expected_scripts = sort (remdups script_ids), pb_received = [], pb_created_at_frame = current_frame\<rparr> a)"

definition on_script_ready ::
  "u64 \<Rightarrow> ScriptId \<Rightarrow> bytes \<Rightarrow> AtomicUpdateManager \<Rightarrow> AtomicBatchStatus \<times> AtomicUpdateManager" where
  "on_script_ready update_id script_id bytecode a =
     (case bm_get a update_id of
        None \<Rightarrow> (AtomicPending, a)
      | Some batch \<Rightarrow>
          if script_id \<notin> set (pb_expected_scripts batch) then (AtomicPending, a)
          else
            let batch = batch\<lparr>pb_received := bm_insert script_id bytecode (pb_received batch)\<rparr>
            in if list_all (\<lambda>id. bm_get (pb_received batch) id \<noteq> None) (pb_expected_scripts batch)
               then (AtomicReady (pb_received batch), bm_remove update_id a)
               else (AtomicPending, bm_update update_id (\<lambda>_. batch) a))"

definition batch_timed_out :: "u64 \<Rightarrow> PendingBatch \<Rightarrow> bool" where
  "batch_timed_out current_frame batch \<longleftrightarrow>
     saturating_sub current_frame (pb_created_at_frame batch) \<ge> BATCH_TIMEOUT_FRAMES"

definition check_timeouts :: "u64 \<Rightarrow> AtomicUpdateManager \<Rightarrow> u64 list \<times> AtomicUpdateManager" where
  "check_timeouts current_frame a =
     (map fst (filter (\<lambda>(_, batch). batch_timed_out current_frame batch) a),
      bm_retain (\<lambda>_ batch. \<not> batch_timed_out current_frame batch) a)"

section \<open>Reassembly\<close>

lemma bm_get_fold_insert:
  "bm_get (fold (\<lambda>(k, v). bm_insert k v) xs t) = bm_get t ++ map_of (rev xs)"
  by (induction xs arbitrary: t) (auto simp: bm_get_insert map_add_def fun_eq_iff split: option.splits)

lemma bm_wf_fold_insert: "bm_wf t \<Longrightarrow> bm_wf (fold (\<lambda>(k, v). bm_insert k v) xs t)"
  by (induction xs arbitrary: t) (auto intro: bm_wf_insert)

lemma map_of_same_set:
  assumes "set xs = set ys" "distinct (map fst ys)"
  shows "map_of xs = map_of ys"
proof
  fix k
  show "map_of xs k = map_of ys k"
  proof (cases "map_of xs k")
    case None
    then have "map_of ys k = None"
      using assms(1) by (simp add: map_of_eq_None_iff)
    with None show ?thesis by simp
  next
    case (Some v)
    then have "(k, v) \<in> set ys" using assms(1) map_of_SomeD by fastforce
    with assms(2) Some show ?thesis by simp
  qed
qed

text \<open>Insertions in any order and any number make the map that lists the entries in order.\<close>

lemma fold_insert_sorted:
  assumes "set xs = set ys" "sorted_wrt (<) (map fst ys)"
  shows "fold (\<lambda>(k, v). bm_insert k v) xs [] = ys"
proof (rule bm_ext)
  show "bm_wf (fold (\<lambda>(k, v). bm_insert k v) xs [])" by (simp add: bm_wf_fold_insert)
  show "bm_wf ys" using assms(2) by (simp add: bm_wf_def)
  have "distinct (map fst ys)" using assms(2) strict_sorted_iff by blast
  then show "bm_get (fold (\<lambda>(k, v). bm_insert k v) xs []) = bm_get ys"
    using map_of_same_set [of "rev xs" ys] assms(1) by (simp add: bm_get_fold_insert)
qed

lemma fragments_fold:
  "ub_fragments (fold (\<lambda>(seq, data). receive_fragment seq data) xs b)
     = fold (\<lambda>(k, v). bm_insert k v) xs (ub_fragments b)
   \<and> ub_total (fold (\<lambda>(seq, data). receive_fragment seq data) xs b) = ub_total b"
  by (induction xs arbitrary: b) (auto simp: receive_fragment_def)

definition numbered :: "bytes list \<Rightarrow> (u16 \<times> bytes) list" where
  "numbered ds = map (\<lambda>(i, d). (of_nat i, d)) (enumerate 0 ds)"

lemma numbered_sorted:
  assumes "length ds < 65536" shows "sorted_wrt (<) (map fst (numbered ds))"
proof -
  have "(of_nat i :: u16) < of_nat j" if "i < j" "j < length ds" for i j
    using that assms by (simp add: word_less_nat_alt unat_of_nat)
  then show ?thesis
    by (auto simp: numbered_def sorted_wrt_iff_nth_less nth_enumerate_eq)
qed

text \<open>However the chunks of an update arrive, late, out of order or repeatedly, once each of them has
  arrived the buffer is complete and assembles to their concatenation.\<close>

lemma buffer_reassembles:
  fixes uid now :: u64
  assumes "set xs = set (numbered ds)" "length ds < 65536"
  defines "b \<equiv> fold (\<lambda>(seq, data). receive_fragment seq data) xs (update_buffer_new uid (of_nat (length ds)) now)"
  shows "buffer_is_complete b \<and> buffer_assemble b = Inr (concat ds)"
proof -
  have "ub_fragments b = numbered ds"
    using fold_insert_sorted [OF assms(1) numbered_sorted [OF assms(2)]]
    by (simp add: b_def fragments_fold update_buffer_new_def)
  moreover have "ub_total b = of_nat (length ds)"
    by (simp add: b_def fragments_fold update_buffer_new_def)
  moreover have "map snd (numbered ds) = ds"
    by (simp add: numbered_def comp_def case_prod_unfold)
  moreover have "length (numbered ds) = length ds" by (simp add: numbered_def)
  ultimately show ?thesis
    using assms(2) by (simp add: buffer_assemble_def buffer_is_complete_def unat_of_nat)
qed

text \<open>The check counts fragments, whatever their numbers: two fragments numbered 0 and 5 complete an update
  of two.\<close>

lemma stray_fragment_completes:
  "buffer_is_complete (receive_fragment 5 y (receive_fragment 0 x (update_buffer_new uid 2 now)))"
  by (simp add: buffer_is_complete_def receive_fragment_def update_buffer_new_def)

section \<open>Committing a batch\<close>

text \<open>The program each script identifier runs.\<close>

definition current_ast :: "'ast ScriptManager \<Rightarrow> ScriptId \<Rightarrow> 'ast option" where
  "current_ast m sid =
     map_option (\<lambda>s. in_ast (ms_instance s)) (Option.bind (find_key sid m) (bm_get (sm_scripts m)))"

lemma current_ast_iff:
  assumes "manager_ok m"
  shows "current_ast m sid = Some ast \<longleftrightarrow>
    (\<exists>p s. bm_get (sm_scripts m) (p, sid) = Some s \<and> in_ast (ms_instance s) = ast)"
proof
  assume "current_ast m sid = Some ast"
  then obtain k s where k: "find_key sid m = Some k" "bm_get (sm_scripts m) k = Some s" "in_ast (ms_instance s) = ast"
    by (auto simp: current_ast_def bind_eq_Some_conv)
  with assms have "snd k = sid" by (simp add: find_key_iff)
  with k show "\<exists>p s. bm_get (sm_scripts m) (p, sid) = Some s \<and> in_ast (ms_instance s) = ast"
    by (metis prod.collapse)
next
  assume "\<exists>p s. bm_get (sm_scripts m) (p, sid) = Some s \<and> in_ast (ms_instance s) = ast"
  then obtain p s where s: "bm_get (sm_scripts m) (p, sid) = Some s" "in_ast (ms_instance s) = ast" by auto
  with assms have "find_key sid m = Some (p, sid)" by (simp add: find_key_iff)
  with s show "current_ast m sid = Some ast" by (simp add: current_ast_def)
qed

lemma option_ext: "(\<And>a. x = Some a \<longleftrightarrow> y = Some a) \<Longrightarrow> x = y"
  by (cases x; cases y) auto

lemma current_ast_update:
  assumes "manager_ok m" "bm_get (sm_scripts m) (p, sid) = Some s"
    and "manager_ok m'" "bm_get (sm_scripts m') = (bm_get (sm_scripts m))((p, sid) \<mapsto> s')"
  shows "current_ast m' = (current_ast m)(sid \<mapsto> in_ast (ms_instance s'))"
proof
  fix i
  show "current_ast m' i = ((current_ast m)(sid \<mapsto> in_ast (ms_instance s'))) i"
  proof (cases "i = sid")
    case True
    have "bm_get (sm_scripts m') (p, sid) = Some s'" by (simp add: assms(4))
    then have "current_ast m' sid = Some (in_ast (ms_instance s'))"
      unfolding current_ast_iff [OF assms(3)] by blast
    with True show ?thesis by simp
  next
    case False
    then have "bm_get (sm_scripts m') (q, i) = bm_get (sm_scripts m) (q, i)" for q
      by (simp add: assms(4))
    then have "current_ast m' i = current_ast m i"
      by (intro option_ext) (simp only: current_ast_iff [OF assms(3)] current_ast_iff [OF assms(1)])
    with False show ?thesis by simp
  qed
qed

lemma replace_script_current_ast:
  assumes "manager_ok m"
  shows "case replace_script sid new_ast E m of
      (Inr _, m', _) \<Rightarrow> manager_ok m' \<and> current_ast m' = (current_ast m)(sid \<mapsto> new_ast)
    | (Inl _, m', _) \<Rightarrow> manager_ok m' \<and> current_ast m' = current_ast m"
proof -
  obtain r m' E' where r: "replace_script sid new_ast E m = (r, m', E')" by (metis prod_cases3)
  have ok: "manager_ok m'" using manager_ok_replace_script [OF assms, of sid new_ast E] r by simp
  show ?thesis
  proof (cases "find_key sid m")
    case None
    then show ?thesis using assms by (simp add: replace_script_def)
  next
    case (Some k)
    then obtain p s where s: "bm_get (sm_scripts m) (p, sid) = Some s"
      using assms by (metis find_key_iff not_None_eq prod.collapse)
    from s assms have same: "current_ast m sid = Some (in_ast (ms_instance s))"
      by (auto simp: current_ast_iff)
    from replace_script_entry [OF assms s, of new_ast E] r
    obtain s' where s': "bm_get (sm_scripts m') = (bm_get (sm_scripts m))((p, sid) \<mapsto> s')"
      "in_ast (ms_instance s') = (case r of Inr _ \<Rightarrow> new_ast | Inl _ \<Rightarrow> in_ast (ms_instance s))"
      by (cases r) (auto simp del: fun_upd_apply)
    from current_ast_update [OF assms s ok s'(1)] s'(2) ok r same show ?thesis
      by (cases r) (auto simp: fun_upd_idem)
  qed
qed

lemma commit_swaps_prefix:
  assumes "manager_ok m"
  shows "\<exists>k. k \<le> length plan
    \<and> current_ast (fst (snd (commit_swaps show_err uid tick plan (m, E))))
        = current_ast m ++ map_of (rev (map (\<lambda>(sid, ast, _). (sid, ast)) (take k plan)))
    \<and> manager_ok (fst (snd (commit_swaps show_err uid tick plan (m, E))))
    \<and> (case fst (commit_swaps show_err uid tick plan (m, E)) of
         Inr acks \<Rightarrow> k = length plan
           \<and> acks = map (\<lambda>(_, _, hash). \<lparr>ua_update_id = uid, ua_status = ''ok'', ua_new_version_hash = hash,
               ua_tick = tick\<rparr>) plan
       | Inl _ \<Rightarrow> k < length plan)"
  using assms
proof (induction plan arbitrary: m E)
  case (Cons e plan)
  obtain sid ast hash where e: "e = (sid, ast, hash)" by (metis prod_cases3)
  obtain r m' E' where r: "replace_script sid ast E m = (r, m', E')" by (metis prod_cases3)
  show ?case
  proof (cases r)
    case (Inl err)
    then show ?thesis
      using replace_script_current_ast [OF Cons.prems, of sid ast E] r e by (intro exI [of _ 0]) simp
  next
    case (Inr u)
    with replace_script_current_ast [OF Cons.prems, of sid ast E] r
    have m': "manager_ok m'" "current_ast m' = (current_ast m)(sid \<mapsto> ast)" by auto
    obtain k where k: "k \<le> length plan"
      "current_ast (fst (snd (commit_swaps show_err uid tick plan (m', E'))))
        = current_ast m' ++ map_of (rev (map (\<lambda>(sid, ast, _). (sid, ast)) (take k plan)))"
      "manager_ok (fst (snd (commit_swaps show_err uid tick plan (m', E'))))"
      "case fst (commit_swaps show_err uid tick plan (m', E')) of
         Inr acks \<Rightarrow> k = length plan
           \<and> acks = map (\<lambda>(_, _, hash). \<lparr>ua_update_id = uid, ua_status = ''ok'', ua_new_version_hash = hash,
               ua_tick = tick\<rparr>) plan
       | Inl _ \<Rightarrow> k < length plan"
      using Cons.IH [OF m'(1), of E'] by (elim exE conjE) (rule that)
    have step: "commit_swaps show_err uid tick (e # plan) (m, E) =
        (map_sum id (\<lambda>acks. \<lparr>ua_update_id = uid, ua_status = ''ok'', ua_new_version_hash = hash, ua_tick = tick\<rparr> # acks)
           (fst (commit_swaps show_err uid tick plan (m', E'))), snd (commit_swaps show_err uid tick plan (m', E')))"
      using r e Inr by (simp add: case_prod_unfold)
    show ?thesis
      unfolding step using k m' e
      by (intro exI [of _ "Suc k"]) (cases "fst (commit_swaps show_err uid tick plan (m', E'))", auto)
  qed
qed simp

definition staged :: "'ast ScriptFragmentBuffer \<Rightarrow> bool" where
  "staged b \<longleftrightarrow> sf_staged_ast b \<noteq> None"

text \<open>While fragments are received, the count of a batch is the number of scripts that are staged.\<close>

definition batch_ok :: "'ast MultiScriptUpdateBatch \<Rightarrow> bool" where
  "batch_ok b \<longleftrightarrow> bm_wf (mb_pending_scripts b) \<and> mb_total_scripts b = length (mb_pending_scripts b)
     \<and> list_all (\<lambda>(_, buf). sf_is_staged buf \<longleftrightarrow> staged buf) (mb_pending_scripts b)
     \<and> mb_staged_count b = length (filter (\<lambda>(_, buf). staged buf) (mb_pending_scripts b))"

lemma batch_ok_new: "bm_wf totals \<Longrightarrow> batch_ok (batch_new uid totals now)"
  by (auto simp: batch_ok_def batch_new_def bm_wf_def comp_def case_prod_unfold list_all_iff
      fragment_buffer_new_def staged_def filter_empty_conv)

lemma list_all_update:
  assumes "list_all P t" "\<And>v. bm_get t k = Some v \<Longrightarrow> P (k, f v)" "bm_wf t"
  shows "list_all P (bm_update k f t)"
  using assms by (auto simp: list_all_iff bm_update_def bm_get_iff)

lemma count_update:
  assumes "bm_wf t" "bm_get t k = Some v"
  shows "length (filter (\<lambda>(_, v). P v) (bm_update k f t)) + (if P v then 1 else 0)
    = length (filter (\<lambda>(_, v). P v) t) + (if P (f v) then 1 else 0)"
proof -
  from assms have "(k, v) \<in> set t" by (simp add: bm_get_iff)
  then obtain xs ys where t: "t = xs @ (k, v) # ys" by (metis in_set_conv_decomp)
  with bm_wf_distinct [OF assms(1)] have "distinct (map fst (xs @ (k, v) # ys))" by simp
  from bm_update_middle [OF this, of f] show ?thesis unfolding t by auto
qed

lemma batch_ok_receive:
  fixes b :: "'ast MultiScriptUpdateBatch"
  assumes "batch_ok b"
  shows "batch_ok (snd (batch_receive_fragment show_load B fr pk ak b))"
proof (cases "bm_get (mb_pending_scripts b) (mf_script_id fr)")
  case None
  then show ?thesis using assms by (simp add: batch_receive_fragment_def)
next
  case (Some buf)
  define buf' where "buf' = fragment_buffer_receive (mf_seq fr) (mf_data fr)
    (if sf_expected_total buf = 0 then buf\<lparr>sf_expected_total := mf_total fr\<rparr> else buf)"
  have buf: "sf_is_staged buf \<longleftrightarrow> staged buf"
    using assms Some by (auto simp: batch_ok_def list_all_iff bm_get_iff)
  have buf': "sf_is_staged buf' = sf_is_staged buf" "sf_staged_ast buf' = sf_staged_ast buf"
    by (simp_all add: buf'_def fragment_buffer_receive_def)
  have put: "batch_ok (b\<lparr>mb_staged_count := mb_staged_count b + (if staged nb then 1 else 0) - (if staged buf then 1 else 0),
      mb_pending_scripts := bm_update (mf_script_id fr) (\<lambda>_. nb) (mb_pending_scripts b)\<rparr>)"
    if "sf_is_staged nb \<longleftrightarrow> staged nb" for nb
    using assms Some that count_update [of "mb_pending_scripts b" "mf_script_id fr" buf staged "\<lambda>_. nb"]
    by (auto simp: batch_ok_def bm_wf_update intro!: list_all_update) (simp_all add: bm_update_def)
  define put_buf :: "'ast ScriptFragmentBuffer \<Rightarrow> 'ast MultiScriptUpdateBatch \<Rightarrow> 'ast MultiScriptUpdateBatch"
    where "put_buf = (\<lambda>nb b. b\<lparr>mb_pending_scripts :=
    bm_update (mf_script_id fr) (\<lambda>_. nb) (mb_pending_scripts b)\<rparr>)"
  have step: "batch_receive_fragment show_load B fr pk ak b =
     (if fragment_buffer_is_complete buf' \<and> \<not> sf_is_staged buf'
      then (case bind_sum (fragment_buffer_assemble buf')
                   (\<lambda>raw. map_inl (map_batch_error show_load) (load B raw pk ak)) of
              Inl e \<Rightarrow> (Inl e, put_buf buf' b)
            | Inr (metadata, ast) \<Rightarrow>
                let b = put_buf (buf'\<lparr>sf_is_staged := True, sf_staged_ast := Some (ast, metadata)\<rparr>)
                  (b\<lparr>mb_staged_count := mb_staged_count b + 1\<rparr>)
                in (Inr (batch_status b), b))
      else (Inr (batch_status (put_buf buf' b)), put_buf buf' b))"
    unfolding batch_receive_fragment_def Let_def Some option.case buf'_def put_buf_def by (rule refl)
  have keep: "batch_ok (put_buf buf' b)"
    using put [of buf'] buf buf' by (simp add: staged_def put_buf_def)
  have stage: "batch_ok (put_buf (buf'\<lparr>sf_is_staged := True, sf_staged_ast := Some x\<rparr>)
      (b\<lparr>mb_staged_count := mb_staged_count b + 1\<rparr>))" if "\<not> sf_is_staged buf'" for x
    using put [of "buf'\<lparr>sf_is_staged := True, sf_staged_ast := Some x\<rparr>"] buf buf' that
    by (simp add: staged_def put_buf_def)
  show ?thesis
    unfolding step using keep stage by (auto simp: Let_def split: sum.split prod.split)
qed

interpretation batch: event_machine
  "\<lambda>(show_load, B, fr, pk, ak) b. snd (batch_receive_fragment show_load B fr pk ak b)" batch_ok
  by unfold_locales (auto simp: batch_ok_receive)

lemma batch_all_staged:
  assumes "batch_ok b" "batch_status b = AllStaged"
  shows "list_all (\<lambda>(_, buf). staged buf) (mb_pending_scripts b)"
proof -
  have "length (mb_pending_scripts b) \<le> length (filter (\<lambda>(_, buf). staged buf) (mb_pending_scripts b))"
    using assms by (auto simp: batch_ok_def batch_status_def split: if_splits)
  then show ?thesis
    by (metis (no_types, lifting) filter_id_conv length_filter_le length_filter_less list_all_iff nle_le not_less)
qed

lemma swap_plan_all_staged:
  "list_all (\<lambda>(_, buf). staged buf) t \<Longrightarrow>
     map fst (concat (map (\<lambda>(sid, buf).
       case sf_staged_ast buf of None \<Rightarrow> [] | Some (ast, metadata) \<Rightarrow> [(sid, ast, md_source_hash metadata)]) t))
       = map fst t"
  by (induction t) (auto simp: staged_def split: prod.split option.split)

text \<open>C20: What committing a batch of scripts does. A batch that received its fragments in any order commits
  only once every script of it is staged. The scripts are then replaced in identifier order: either all of
  them, with one acknowledgement each, or a proper prefix, after which the commit reports the failure; then
  the scripts of the prefix run their new program, and the failed script and every later one their old one.
  No script outside the batch changes its program.\<close>

theorem batch_commit_outcome:
  assumes "batch_ok b" "manager_ok m"
  shows "let (r, b', m', E') = batch_commit show_err tick b (m, E); plan = swap_plan b in
    if batch_status b \<noteq> AllStaged then r = Inl UpdAssemblyIncomplete \<and> m' = m
    else map fst plan = map fst (mb_pending_scripts b) \<and> distinct (map fst plan)
      \<and> (\<exists>k. k \<le> length plan \<and> (k = length plan \<longleftrightarrow> (\<exists>acks. r = Inr acks))
          \<and> current_ast m' = current_ast m ++ map_of (rev (map (\<lambda>(sid, ast, _). (sid, ast)) (take k plan)))
          \<and> (case r of Inl _ \<Rightarrow> True | Inr acks \<Rightarrow>
               map ua_new_version_hash acks = map (\<lambda>(_, _, hash). hash) plan))"
proof (cases "batch_status b = AllStaged")
  case False
  then show ?thesis by (simp add: batch_commit_def)
next
  case True
  let ?c = "commit_swaps show_err (mb_update_id b) tick (swap_plan b) (m, E)"
  have ids: "map fst (swap_plan b) = map fst (mb_pending_scripts b)"
    unfolding swap_plan_def by (rule swap_plan_all_staged [OF batch_all_staged [OF assms(1) True]])
  then have dist: "distinct (map fst (swap_plan b))"
    using assms(1) by (simp add: batch_ok_def bm_wf_distinct)
  from commit_swaps_prefix [OF assms(2), of "swap_plan b" show_err "mb_update_id b" tick E]
  obtain k where k: "k \<le> length (swap_plan b)"
    "current_ast (fst (snd ?c)) = current_ast m ++ map_of (rev (map (\<lambda>(sid, ast, _). (sid, ast)) (take k (swap_plan b))))"
    "case fst ?c of
         Inr acks \<Rightarrow> k = length (swap_plan b)
           \<and> acks = map (\<lambda>(_, _, hash). \<lparr>ua_update_id = mb_update_id b, ua_status = ''ok'',
               ua_new_version_hash = hash, ua_tick = tick\<rparr>) (swap_plan b)
       | Inl _ \<Rightarrow> k < length (swap_plan b)"
    by blast
  have "batch_commit show_err tick b (m, E) = (fst ?c, b\<lparr>mb_pending_scripts :=
      map (\<lambda>(sid, buf). (sid, buf\<lparr>sf_staged_ast := None\<rparr>)) (mb_pending_scripts b)\<rparr>, snd ?c)"
    using True by (simp add: batch_commit_def Let_def case_prod_unfold)
  then show ?thesis
    using ids dist k True
    by (cases "fst ?c") (auto simp: Let_def case_prod_unfold comp_def intro!: exI [of _ k])
qed

section \<open>Waiting for every script\<close>

lemma on_script_ready_other: "k \<noteq> uid \<Longrightarrow> bm_get (snd (on_script_ready uid sid bc a)) k = bm_get a k"
  by (auto simp: on_script_ready_def Let_def bm_get_remove bm_get_update split: option.split)

fun arrive :: "u64 \<Rightarrow> ScriptId \<times> bytes \<Rightarrow> AtomicUpdateManager \<Rightarrow> AtomicUpdateManager" where
  "arrive uid (sid, bc) a = snd (on_script_ready uid sid bc a)"

definition arrived_so_far :: "ScriptId list \<Rightarrow> (ScriptId \<times> bytes) list \<Rightarrow> (ScriptId, bytes) btree" where
  "arrived_so_far ids xs = fold (\<lambda>(k, v). bm_insert k v) (filter (\<lambda>(sid, _). sid \<in> set ids) xs) []"

lemma arrived_so_far_get:
  "bm_get (arrived_so_far ids xs) i = (if i \<in> set ids then map_of (rev xs) i else None)"
proof -
  have "map_of (filter (\<lambda>(sid, _). sid \<in> set ids) ys) i = (if i \<in> set ids then map_of ys i else None)"
    for ys :: "(ScriptId \<times> bytes) list"
    by (induction ys) auto
  then show ?thesis by (simp add: arrived_so_far_def bm_get_fold_insert rev_filter)
qed

lemma batch_after_arrivals:
  assumes "ids \<noteq> []"
  shows "bm_get (fold (arrive uid) xs (register_batch uid ids now a)) uid =
    (if set ids \<subseteq> fst ` set xs then None
     else Some \<lparr>pb_expected_scripts = sort (remdups ids), pb_received = arrived_so_far ids xs,
            pb_created_at_frame = now\<rparr>)"
proof (induction xs rule: rev_induct)
  case Nil
  then show ?case using assms by (simp add: register_batch_def bm_get_insert arrived_so_far_def)
next
  case (snoc x xs)
  obtain sid bc where x: "x = (sid, bc)" by (cases x)
  have all: "list_all (\<lambda>id. bm_get (arrived_so_far ids (xs @ [x])) id \<noteq> None) (sort (remdups ids))
      \<longleftrightarrow> set ids \<subseteq> fst ` set (xs @ [x])"
    by (auto simp: list_all_iff arrived_so_far_get map_of_eq_None_iff subset_eq simp del: not_None_eq)
  have ins: "arrived_so_far ids (xs @ [x]) =
      (if sid \<in> set ids then bm_insert sid bc (arrived_so_far ids xs) else arrived_so_far ids xs)"
    by (simp add: arrived_so_far_def x)
  show ?case
  proof (cases "set ids \<subseteq> fst ` set xs")
    case True
    then show ?thesis using snoc by (auto simp: x on_script_ready_def)
  next
    case False
    then show ?thesis
      using snoc all unfolding ins
      by (auto simp: x on_script_ready_def Let_def bm_get_remove bm_get_update)
  qed
qed

text \<open>A batch that waits for all its scripts fires exactly once. Scripts of the batch may arrive in any
  order and repeatedly, with unknown ones in between: the batch is handed over on the arrival that makes it
  complete, not before and not again, and what is handed over lists exactly its scripts in identifier order,
  each with the bytecode that arrived last.\<close>

lemma atomic_batch_fires_once:
  fixes uid now :: u64 and xs :: "(ScriptId \<times> bytes) list" and a :: AtomicUpdateManager
  assumes "ids \<noteq> []"
  defines "a' \<equiv> fold (arrive uid) xs (register_batch uid ids now a)"
  shows "fst (on_script_ready uid sid bc a') =
    (if sid \<in> set ids \<and> \<not> set ids \<subseteq> fst ` set xs \<and> set ids \<subseteq> insert sid (fst ` set xs)
     then AtomicReady (arrived_so_far ids (xs @ [(sid, bc)])) else AtomicPending)
   \<and> (\<forall>i. bm_get (arrived_so_far ids (xs @ [(sid, bc)])) i =
        (if i \<in> set ids then map_of (rev (xs @ [(sid, bc)])) i else None))
   \<and> sorted_wrt (<) (map fst (arrived_so_far ids (xs @ [(sid, bc)])))"
proof (intro conjI allI)
  show "bm_get (arrived_so_far ids (xs @ [(sid, bc)])) i =
        (if i \<in> set ids then map_of (rev (xs @ [(sid, bc)])) i else None)" for i
    by (rule arrived_so_far_get)
  show "sorted_wrt (<) (map fst (arrived_so_far ids (xs @ [(sid, bc)])))"
    using bm_wf_fold_insert [OF bm_wf_Nil] unfolding arrived_so_far_def bm_wf_def .
  have all: "list_all (\<lambda>id. bm_get (arrived_so_far ids (xs @ [(sid, bc)])) id \<noteq> None) (sort (remdups ids))
      \<longleftrightarrow> set ids \<subseteq> insert sid (fst ` set xs)"
    by (auto simp: list_all_iff arrived_so_far_get map_of_eq_None_iff subset_eq simp del: not_None_eq)
  have "arrived_so_far ids (xs @ [(sid, bc)]) = bm_insert sid bc (arrived_so_far ids xs)" if "sid \<in> set ids"
    using that by (simp add: arrived_so_far_def)
  then show "fst (on_script_ready uid sid bc a') =
    (if sid \<in> set ids \<and> \<not> set ids \<subseteq> fst ` set xs \<and> set ids \<subseteq> insert sid (fst ` set xs)
     then AtomicReady (arrived_so_far ids (xs @ [(sid, bc)])) else AtomicPending)"
    using batch_after_arrivals [OF assms(1), of uid xs now a, folded a'_def] all
    by (auto simp: on_script_ready_def Let_def)
qed

lemma atomic_batch_fires_once_example:
  "fst (on_script_ready 4 ''b'' [2] (fold (arrive 4) [(''a'', [1]), (''x'', [9]), (''a'', [3])]
     (register_batch 4 [''b'', ''a''] 0 []))) = AtomicReady [(''a'', [3]), (''b'', [2])]"
proof -
  have "[''b'', ''a''] \<noteq> ([] :: ScriptId list)" by simp
  from atomic_batch_fires_once [OF this, of 4 "''b''" "[2]" "[(''a'', [1]), (''x'', [9]), (''a'', [3])]" 0 "[]"]
  show ?thesis by (simp add: arrived_so_far_def)
qed

text \<open>A batch is given up after 300 frames, together with what it received; a younger one is kept.\<close>

lemma check_timeouts_get:
  "bm_wf a \<Longrightarrow> bm_get (snd (check_timeouts now a)) uid =
     (case bm_get a uid of Some b \<Rightarrow> if batch_timed_out now b then None else Some b | None \<Rightarrow> None)"
  by (auto simp: check_timeouts_def bm_get_retain split: option.split)

lemma check_timeouts_reports:
  "bm_wf a \<Longrightarrow> uid \<in> set (fst (check_timeouts now a)) \<longleftrightarrow>
     (\<exists>b. bm_get a uid = Some b \<and> batch_timed_out now b)"
  by (auto simp: check_timeouts_def bm_get_iff image_iff)

section \<open>An example commit\<close>

definition two_scripts :: "nat ScriptManager" where
  "two_scripts =
     \<lparr>sm_scripts = [((5, ''a''), toy_script 1),
        ((6, ''b''), (toy_script 1)\<lparr>ms_instance := instance_new ''b'' 1 6\<rparr>)], sm_tick = 0\<rparr>"

definition staged_buffer :: "nat \<Rightarrow> nat ScriptFragmentBuffer" where
  "staged_buffer ast = \<lparr>sf_fragments = [], sf_expected_total = 0, sf_is_staged = True,
     sf_staged_ast = Some (ast, toy_metadata)\<rparr>"

definition two_staged :: "nat MultiScriptUpdateBatch" where
  "two_staged = \<lparr>mb_update_id = 7, mb_pending_scripts = [(''a'', staged_buffer 4), (''b'', staged_buffer 2)],
     mb_staged_count = 2, mb_total_scripts = 2, mb_created_at_us = 0\<rparr>"

lemma two_ok: "manager_ok two_scripts" "batch_ok two_staged"
  by (simp_all add: two_scripts_def two_staged_def manager_ok_def scripts_ok_def entry_ok_def toy_script_def
      instance_new_def batch_ok_def staged_buffer_def staged_def bm_wf_def)

lemmas call_eval = replace_script_def find_key_def call_on_unload_def call_lifecycle_fn_def
  call_with_budget_def call_defs toy_engine_def ensure_initialized_def has_function_def instance_new_def
  replace_ast_def map_hook_error_def check_scope_sizes_def wrap_error_def Let_def

theorem batch_commit_outcome_witness:
  "\<exists>r b' m' E'. batch_commit (\<lambda>_. []) 0 two_staged (two_scripts, toy_engine) = (r, b', m', E')
     \<and> isl r \<and> current_ast m' ''b'' = Some 1"
proof -
  obtain r b' m' E' where c: "batch_commit (\<lambda>_. []) 0 two_staged (two_scripts, toy_engine) = (r, b', m', E')"
    by (metis prod_cases4)
  have all: "batch_status two_staged = AllStaged" by (simp add: batch_status_def two_staged_def)
  have plan: "swap_plan two_staged = [(''a'', 4, []), (''b'', 2, [])]"
    by (simp add: swap_plan_def two_staged_def staged_buffer_def toy_metadata_def)
  have "isl (fst (batch_commit (\<lambda>_. []) 0 two_staged (two_scripts, toy_engine)))"
    by (simp add: batch_commit_def all plan case_prod_unfold Let_def)
      (simp add: two_scripts_def two_staged_def toy_script_def call_eval bm_update_def)
  then have isl: "isl r" by (simp add: c)
  have "\<exists>k. k \<le> length (swap_plan two_staged) \<and> (k = length (swap_plan two_staged) \<longleftrightarrow> (\<exists>acks. r = Inr acks))
      \<and> current_ast m' = current_ast two_scripts ++
          map_of (rev (map (\<lambda>(sid, ast, _). (sid, ast)) (take k (swap_plan two_staged))))"
    using batch_commit_outcome [OF two_ok(2,1), of "\<lambda>_. []" 0 toy_engine] all c by (auto simp: Let_def)
  with isl obtain k where k: "k \<le> 2" "k \<noteq> 2"
    "current_ast m' = current_ast two_scripts ++
       map_of (rev (map (\<lambda>(sid, ast, _). (sid, ast)) (take k [(''a'', 4, [] :: bytes), (''b'', 2, [])])))"
    unfolding plan by (elim exE conjE) (rule that, auto simp: isl_def numeral_2_eq_2)
  have b: "current_ast two_scripts ''b'' = Some 1"
    by (simp add: current_ast_def find_key_def two_scripts_def instance_new_def)
  have "k = 0 \<or> k = 1" using k(1,2) by linarith
  then have "current_ast m' ''b'' = Some 1"
    using k(3) b by (auto simp: map_add_def)
  with c isl show ?thesis by blast
qed

end
