(* ===== verification/Hot_Update_Cdn.thy ===== *)
theory Hot_Update_Cdn
  imports Ordered_Map "HOL-Library.Multiset"
begin

text \<open>
  Over-the-air updates on the server (\<^verbatim>\<open>server/hot_update_cdn\<close>): splitting signed bytecode into
  chunks, reassembling them in any order of arrival, and the broadcast bookkeeping. The signature
  scheme (Ed25519) is a parameter: \<open>sign\<close> with the signing key applied, and \<open>verify\<close>.
  A \<open>HashMap\<close> is represented by its entries in key order; where the code iterates over one, the
  iteration order is a parameter that permutes them.
\<close>

section \<open>Chunks\<close>

definition CHUNK_SIZE :: nat where "CHUNK_SIZE = 64 * 1024"
definition MAX_BYTECODE_SIZE :: nat where "MAX_BYTECODE_SIZE = 32 * 1024 * 1024"

record UpdateChunk =
  ck_update_id :: u64
  ck_seq :: u16
  ck_total :: u16
  ck_data :: bytes
  ck_signature :: bytes

datatype HotUpdateError =
    EmptyBytecode
  | MissingChunks u16 u16
  | SignatureVerificationFailed
  | BytecodeTooLarge nat

text \<open>The slices \<open>[T]::chunks\<close> yields.\<close>

function chunks_of :: "nat \<Rightarrow> 'a list \<Rightarrow> 'a list list" where
  "chunks_of n xs = (if n = 0 \<or> xs = [] then [] else take n xs # chunks_of n (drop n xs))"
  by pat_completeness auto
termination by (relation "measure (\<lambda>(n, xs). length xs)") auto

declare chunks_of.simps [simp del]

definition split_into_chunks ::
  "(bytes \<Rightarrow> bytes) \<Rightarrow> u64 \<Rightarrow> bytes \<Rightarrow> HotUpdateError + UpdateChunk list" where
  "split_into_chunks sign update_id bytecode =
     (if bytecode = [] then Inl EmptyBytecode
      else let signature = sign bytecode;
               chunks_data = chunks_of CHUNK_SIZE bytecode;
               total = of_nat (length chunks_data)
           in Inr (map (\<lambda>(seq, data).
                     \<lparr>ck_update_id = update_id, ck_seq = of_nat seq, ck_total = total, ck_data = data,
                      ck_signature = (if seq = 0 then signature else [])\<rparr>)
                (enumerate 0 chunks_data)))"

definition reassemble_chunks ::
  "('k \<Rightarrow> bytes \<Rightarrow> bytes \<Rightarrow> bool) \<Rightarrow> UpdateChunk list \<Rightarrow> 'k \<Rightarrow> HotUpdateError + bytes" where
  "reassemble_chunks verify chunks verify_key =
     (if chunks = [] then Inl (MissingChunks 1 0)
      else
        let total = ck_total (hd chunks);
            sorted = sort_key ck_seq chunks
        in case List.find (\<lambda>(i, c). ck_seq c \<noteq> of_nat i) (enumerate 0 sorted) of
             Some (i, c) \<Rightarrow> Inl (MissingChunks (of_nat i) (ck_seq c))
           | None \<Rightarrow>
               if of_nat (length sorted) \<noteq> total then Inl (MissingChunks total (of_nat (length sorted)))
               else
                 let data = concat (map ck_data sorted)
                 in if length data > MAX_BYTECODE_SIZE then Inl (BytecodeTooLarge (length data))
                    else if length (ck_signature (hd sorted)) \<noteq> 64 then Inl SignatureVerificationFailed
                    else if verify verify_key data (ck_signature (hd sorted)) then Inr data
                    else Inl SignatureVerificationFailed)"

lemma concat_chunks_of [simp]: "0 < n \<Longrightarrow> concat (chunks_of n xs) = xs"
  by (induction n xs rule: chunks_of.induct) (subst chunks_of.simps, simp)

lemma length_chunks_of: "0 < n \<Longrightarrow> length (chunks_of n xs) = (length xs + n - 1) div n"
proof (induction n xs rule: chunks_of.induct)
  case (1 n xs)
  show ?case
  proof (cases "xs = []")
    case True
    then show ?thesis using 1 by (subst chunks_of.simps) simp
  next
    case False
    then have "length (chunks_of n xs) = Suc ((length xs - n + n - 1) div n)"
      using 1 by (subst chunks_of.simps) simp
    also have "\<dots> = (length xs + n - 1) div n"
    proof (cases "length xs \<le> n")
      case True
      with False 1(2) have "(length xs + n - 1) div n = 1"
        by (cases xs) (auto intro!: div_nat_eqI)
      moreover have "(length xs - n + n - 1) div n = 0" using True 1(2) by simp
      ultimately show ?thesis by simp
    next
      case False
      then have eq: "length xs + n - 1 = (length xs - n + n - 1) + n" using 1(2) by simp
      show ?thesis using div_add_self2 [of n "length xs - n + n - 1"] 1(2) unfolding eq by simp
    qed
    finally show ?thesis .
  qed
qed

lemma chunks_bound:
  "length bs \<le> MAX_BYTECODE_SIZE \<Longrightarrow> length (chunks_of CHUNK_SIZE bs) \<le> 512"
proof -
  assume "length bs \<le> MAX_BYTECODE_SIZE"
  then have "(length bs + CHUNK_SIZE - 1) div CHUNK_SIZE \<le> (MAX_BYTECODE_SIZE + CHUNK_SIZE - 1) div CHUNK_SIZE"
    by (intro div_le_mono) simp
  then show ?thesis by (simp add: length_chunks_of CHUNK_SIZE_def MAX_BYTECODE_SIZE_def)
qed

lemma of_nat_u16_inj: "i < 65536 \<Longrightarrow> j < 65536 \<Longrightarrow> (of_nat i :: u16) = of_nat j \<longleftrightarrow> i = j"
  by (simp add: word_of_nat_eq_iff take_bit_nat_eq_self)

lemma of_nat_u16_le: "i < 65536 \<Longrightarrow> j < 65536 \<Longrightarrow> (of_nat i :: u16) \<le> of_nat j \<longleftrightarrow> i \<le> j"
  by (simp add: word_le_nat_alt unat_of_nat)

lemma sort_key_permuted:
  assumes "mset ys = mset xs" "sorted_wrt (\<lambda>a b. f a < f b) xs"
  shows "sort_key f ys = xs"
proof (rule map_sorted_distinct_set_unique [where f = f])
  have "sorted_wrt (<) (map f xs)" using assms(2) by (simp add: sorted_wrt_map)
  then have xs: "sorted (map f xs)" "distinct (map f xs)" by (simp_all add: strict_sorted_iff)
  show "sorted (map f xs)" "distinct (map f xs)" by (fact xs)+
  have "mset (map f (sort_key f ys)) = mset (map f xs)" using assms(1) by simp
  then show "distinct (map f (sort_key f ys))" using xs(2) mset_eq_imp_distinct_iff by blast
  show "set (sort_key f ys) = set xs" using assms(1) by (metis set_mset_mset set_sort)
  then show "inj_on f (set (sort_key f ys) \<union> set xs)" using xs(2) by (simp add: distinct_map)
qed simp

definition split_list :: "(bytes \<Rightarrow> bytes) \<Rightarrow> u64 \<Rightarrow> bytes \<Rightarrow> UpdateChunk list" where
  "split_list sign update_id bytecode =
     map (\<lambda>(seq, data).
       \<lparr>ck_update_id = update_id, ck_seq = of_nat seq, ck_total = of_nat (length (chunks_of CHUNK_SIZE bytecode)),
        ck_data = data, ck_signature = (if seq = 0 then sign bytecode else [])\<rparr>)
     (enumerate 0 (chunks_of CHUNK_SIZE bytecode))"

lemma split_eq: "bytecode \<noteq> [] \<Longrightarrow> split_into_chunks sign uid bytecode = Inr (split_list sign uid bytecode)"
  by (simp add: split_into_chunks_def split_list_def Let_def)

lemma split_list_nth:
  "i < length (split_list sign uid bc) \<Longrightarrow>
     split_list sign uid bc ! i =
       \<lparr>ck_update_id = uid, ck_seq = of_nat i, ck_total = of_nat (length (chunks_of CHUNK_SIZE bc)),
        ck_data = chunks_of CHUNK_SIZE bc ! i, ck_signature = (if i = 0 then sign bc else [])\<rparr>"
  by (simp add: split_list_def nth_enumerate_eq)

lemma length_split_list [simp]: "length (split_list sign uid bc) = length (chunks_of CHUNK_SIZE bc)"
  by (simp add: split_list_def)

lemma data_split_list: "map ck_data (split_list sign uid bc) = chunks_of CHUNK_SIZE bc"
  by (rule nth_equalityI) (simp_all add: split_list_nth)

lemma seqs_split_list:
  assumes "length (chunks_of CHUNK_SIZE bc) \<le> 512"
  shows "sorted_wrt (\<lambda>a b. ck_seq a < ck_seq b) (split_list sign uid bc)"
  using assms by (auto simp: sorted_wrt_iff_nth_less split_list_nth word_less_nat_alt unat_of_nat)

lemma find_enumerate_None:
  "(\<And>i. i < length xs \<Longrightarrow> \<not> P (i, xs ! i)) \<Longrightarrow> List.find P (enumerate 0 xs) = None"
  by (auto simp: find_None_all in_set_enumerate_eq)

lemma find_enumerate_NoneD:
  "List.find P (enumerate 0 xs) = None \<Longrightarrow> i < length xs \<Longrightarrow> \<not> P (i, xs ! i)"
  by (auto simp: find_None_all in_set_enumerate_eq)

text \<open>C30: A signed update survives the network. For every bytecode up to 32 MB whose signature verifies,
  the chunks it is split into reassemble to exactly that bytecode in whatever order they arrive.\<close>

theorem chunks_roundtrip:
  assumes "split_into_chunks sign uid bytecode = Inr chunks" and "mset arrived = mset chunks"
    and "length bytecode \<le> MAX_BYTECODE_SIZE"
    and "length (sign bytecode) = 64" and "verify key bytecode (sign bytecode)"
  shows "reassemble_chunks verify arrived key = Inr bytecode"
proof -
  let ?cs = "split_list sign uid bytecode"
  have ne: "bytecode \<noteq> []" using assms(1) by (auto simp: split_into_chunks_def)
  then have cs: "chunks = ?cs" using assms(1) by (simp add: split_eq)
  have len: "length (chunks_of CHUNK_SIZE bytecode) \<le> 512" by (rule chunks_bound [OF assms(3)])
  have sorted: "sort_key ck_seq arrived = ?cs"
    using assms(2) seqs_split_list [OF len] by (intro sort_key_permuted) (simp_all add: cs)
  have data: "concat (map ck_data ?cs) = bytecode"
    by (simp add: data_split_list CHUNK_SIZE_def)
  have cs_ne: "?cs \<noteq> []" using data ne by auto
  then have arrived: "arrived \<noteq> []" using assms(2) by (metis cs mset_zero_iff mset_zero_iff_right)
  have hd: "hd ?cs = ?cs ! 0" using cs_ne by (rule hd_conv_nth)
  have "hd arrived \<in> set ?cs" using arrived assms(2) cs by (metis hd_in_set mset_eq_setD)
  then obtain i where "i < length ?cs" "hd arrived = ?cs ! i" by (metis in_set_conv_nth)
  then have total: "ck_total (hd arrived) = of_nat (length ?cs)" by (simp add: split_list_nth)
  have "List.find (\<lambda>(i, c). ck_seq c \<noteq> of_nat i) (enumerate 0 ?cs) = None"
    by (rule find_enumerate_None) (simp add: split_list_nth)
  moreover have "ck_signature (?cs ! 0) = sign bytecode"
    using cs_ne by (subst split_list_nth) (auto simp flip: length_greater_0_conv)
  ultimately show ?thesis
    using arrived sorted total data hd cs_ne assms(3-5)
    by (simp add: reassemble_chunks_def Let_def)
qed

text \<open>Reassembly only ever returns authenticated data: whatever chunks arrive, a successful result is
  the concatenation of the chunks in sequence order, at most 32 MB, numbered from zero without gap or
  duplicate, with a signature in the first chunk that verifies for it.\<close>

lemma reassemble_sound:
  assumes "reassemble_chunks verify arrived key = Inr data"
  shows "let sorted = sort_key ck_seq arrived in
    data = concat (map ck_data sorted) \<and> length data \<le> MAX_BYTECODE_SIZE
    \<and> verify key data (ck_signature (hd sorted))
    \<and> (\<forall>i < length sorted. ck_seq (sorted ! i) = of_nat i)
    \<and> ck_total (hd arrived) = of_nat (length arrived)"
  using assms
  by (auto simp: reassemble_chunks_def Let_def dest: find_enumerate_NoneD
      split: if_splits option.splits prod.splits)

definition seven_sign :: "bytes \<Rightarrow> bytes" where "seven_sign _ = replicate 64 7"

definition seven_verify :: "unit \<Rightarrow> bytes \<Rightarrow> bytes \<Rightarrow> bool" where
  "seven_verify _ _ s \<longleftrightarrow> s = replicate 64 7"

theorem chunks_roundtrip_witness:
  "reassemble_chunks seven_verify (rev (split_list seven_sign 5 [1, 2, 3])) () = Inr [1, 2, 3]"
  by (rule chunks_roundtrip [where sign = seven_sign and uid = 5])
    (simp_all add: split_eq seven_sign_def seven_verify_def MAX_BYTECODE_SIZE_def)

lemma reassemble_sound_example:
  "reassemble_chunks seven_verify
       [\<lparr>ck_update_id = 5, ck_seq = 0, ck_total = 1, ck_data = [9], ck_signature = replicate 64 7\<rparr>] () = Inr [9]
   \<and> seven_verify () [9] (replicate 64 7)"
proof -
  let ?c = "\<lparr>ck_update_id = 5, ck_seq = 0, ck_total = 1, ck_data = [9], ck_signature = replicate 64 7\<rparr> :: UpdateChunk"
  have r: "reassemble_chunks seven_verify [?c] () = Inr [9]"
    by (simp add: reassemble_chunks_def seven_verify_def MAX_BYTECODE_SIZE_def)
  with reassemble_sound [OF r] show ?thesis by (simp add: Let_def)
qed

section \<open>Broadcasts\<close>

datatype CdnAckStatus = CdnOk | CdnRollback | CdnUnknown

record OtaAckMessage =
  oa_update_id :: u64
  oa_status :: CdnAckStatus
  oa_new_version_hash :: Blake3Hash
  oa_tick :: u64

record ClientAckState =
  ca_status :: CdnAckStatus
  ca_version_hash :: "Blake3Hash option"

record BroadcastSession =
  bs_chunks :: "UpdateChunk list"
  bs_client_states :: "(u64, ClientAckState) btree"

record BroadcastStatus =
  bt_update_id :: u64
  bt_total_clients :: nat
  bt_acked_clients :: nat
  bt_unknown_clients :: "u64 list"
  bt_rollback_clients :: "u64 list"

type_synonym BroadcastManager = "(u64, BroadcastSession) btree"

definition unknown_client :: ClientAckState where
  "unknown_client = \<lparr>ca_status = CdnUnknown, ca_version_hash = None\<rparr>"

definition start_broadcast ::
  "u64 \<Rightarrow> UpdateChunk list \<Rightarrow> u64 list \<Rightarrow> BroadcastManager \<Rightarrow> BroadcastManager" where
  "start_broadcast update_id chunks client_ids b =
     (let client_states = fold (\<lambda>i m. bm_insert i unknown_client m) client_ids []
      in bm_insert update_id \<lparr>bs_chunks = chunks, bs_client_states = client_states\<rparr> b)"

definition apply_ack :: "OtaAckMessage \<Rightarrow> ClientAckState \<Rightarrow> ClientAckState" where
  "apply_ack ack state =
     (let state = (if oa_status ack = CdnOk then state\<lparr>ca_version_hash := Some (oa_new_version_hash ack)\<rparr>
                   else state)
      in state\<lparr>ca_status := oa_status ack\<rparr>)"

definition on_ack :: "u64 \<Rightarrow> u64 \<Rightarrow> OtaAckMessage \<Rightarrow> BroadcastManager \<Rightarrow> BroadcastManager" where
  "on_ack update_id client_id ack b =
     bm_update update_id
       (\<lambda>session. session\<lparr>bs_client_states := bm_update client_id (apply_ack ack) (bs_client_states session)\<rparr>) b"

definition session_complete :: "BroadcastSession \<Rightarrow> bool" where
  "session_complete session \<longleftrightarrow> (\<forall>s \<in> set (map snd (bs_client_states session)). ca_status s \<noteq> CdnUnknown)"

definition broadcast_is_complete :: "u64 \<Rightarrow> BroadcastManager \<Rightarrow> bool" where
  "broadcast_is_complete update_id b =
     (case bm_get b update_id of Some session \<Rightarrow> session_complete session | None \<Rightarrow> False)"

definition broadcast_remove_session :: "u64 \<Rightarrow> BroadcastManager \<Rightarrow> bool \<times> BroadcastManager" where
  "broadcast_remove_session update_id b = (bm_get b update_id \<noteq> None, bm_remove update_id b)"

definition cleanup_completed ::
  "((u64 \<times> BroadcastSession) list \<Rightarrow> (u64 \<times> BroadcastSession) list) \<Rightarrow> BroadcastManager
     \<Rightarrow> u64 list \<times> BroadcastManager" where
  "cleanup_completed iter b =
     (let completed_ids = map fst (filter (\<lambda>(_, session). session_complete session) (iter b))
      in (completed_ids, fold bm_remove completed_ids b))"

fun tally ::
  "(u64 \<times> ClientAckState) list \<Rightarrow> nat \<times> u64 list \<times> u64 list \<Rightarrow> nat \<times> u64 list \<times> u64 list" where
  "tally [] acc = acc"
| "tally ((conn_id, state) # rest) (acked, unknown, rollback) =
     (case ca_status state of
        CdnUnknown \<Rightarrow> tally rest (acked, unknown @ [conn_id], rollback)
      | CdnOk \<Rightarrow> tally rest (acked + 1, unknown, rollback)
      | CdnRollback \<Rightarrow> tally rest (acked + 1, unknown, rollback @ [conn_id]))"

definition get_status ::
  "((u64 \<times> ClientAckState) list \<Rightarrow> (u64 \<times> ClientAckState) list) \<Rightarrow> u64 \<Rightarrow> BroadcastManager
     \<Rightarrow> BroadcastStatus option" where
  "get_status iter update_id b =
     (case bm_get b update_id of
        None \<Rightarrow> None
      | Some session \<Rightarrow>
          (case tally (iter (bs_client_states session)) (0, [], []) of
             (acked_clients, unknown_clients, rollback_clients) \<Rightarrow>
               Some \<lparr>bt_update_id = update_id, bt_total_clients = length (bs_client_states session),
                     bt_acked_clients = acked_clients, bt_unknown_clients = sort unknown_clients,
                     bt_rollback_clients = sort rollback_clients\<rparr>))"

type_synonym VersionRegistry = "(u64, Blake3Hash) btree"

definition update_version :: "u64 \<Rightarrow> Blake3Hash \<Rightarrow> VersionRegistry \<Rightarrow> VersionRegistry" where
  "update_version client_id version_hash r = bm_insert client_id version_hash r"

definition get_version :: "u64 \<Rightarrow> VersionRegistry \<Rightarrow> Blake3Hash option" where
  "get_version client_id r = bm_get r client_id"

lemma tally_eq:
  "tally cs (a, u, r) =
     (a + length (filter (\<lambda>(_, s). ca_status s \<noteq> CdnUnknown) cs),
      u @ map fst (filter (\<lambda>(_, s). ca_status s = CdnUnknown) cs),
      r @ map fst (filter (\<lambda>(_, s). ca_status s = CdnRollback) cs))"
  by (induction cs "(a, u, r)" arbitrary: a u r rule: tally.induct) (auto split: CdnAckStatus.split)

text \<open>The acknowledgements a broadcast has received, oldest first.\<close>

definition acks :: "u64 \<Rightarrow> (u64 \<times> OtaAckMessage) list \<Rightarrow> BroadcastManager \<Rightarrow> BroadcastManager" where
  "acks uid as b = fold (\<lambda>(c, a). on_ack uid c a) as b"

lemma fresh_client_states:
  "bm_get (fold (\<lambda>i m. bm_insert i unknown_client m) is m) c
     = (if c \<in> set is then Some unknown_client else bm_get m c)"
  by (induction "is" arbitrary: m) (auto simp: bm_get_insert)

lemma fresh_client_states_wf:
  "bm_wf m \<Longrightarrow> bm_wf (fold (\<lambda>i m. bm_insert i unknown_client m) is m)"
  by (induction "is" arbitrary: m) auto

lemma acks_state:
  assumes "bm_get b uid = Some s" "bm_wf (bs_client_states s)"
  shows "\<exists>s'. bm_get (acks uid as b) uid = Some s' \<and> bm_wf (bs_client_states s')
    \<and> (\<forall>c. bm_get (bs_client_states s') c
        = map_option (fold apply_ack (map snd (filter (\<lambda>(d, _). d = c) as))) (bm_get (bs_client_states s) c))"
proof (induction "as" rule: rev_induct)
  case Nil
  then show ?case using assms by (simp add: acks_def option.map_ident)
next
  case (snoc x as)
  then obtain s' where s': "bm_get (acks uid as b) uid = Some s'" "bm_wf (bs_client_states s')"
    "\<And>c. bm_get (bs_client_states s') c
        = map_option (fold apply_ack (map snd (filter (\<lambda>(d, _). d = c) as))) (bm_get (bs_client_states s) c)"
    by blast
  obtain d a where x: "x = (d, a)" by (cases x)
  have "acks uid (as @ [x]) b = on_ack uid d a (acks uid as b)" by (simp add: acks_def x)
  with s' show ?case
    by (auto simp: x on_ack_def bm_get_update option.map_comp comp_def)
qed

lemma session_complete_iff:
  "bm_wf (bs_client_states s) \<Longrightarrow>
     session_complete s \<longleftrightarrow> (\<forall>c st. bm_get (bs_client_states s) c = Some st \<longrightarrow> ca_status st \<noteq> CdnUnknown)"
  by (auto simp: session_complete_def bm_get_iff)

lemma ca_status_fold:
  "ca_status (fold apply_ack as st) = (if as = [] then ca_status st else oa_status (last as))"
  by (induction "as" arbitrary: st) (auto simp: apply_ack_def Let_def)

text \<open>A broadcast is complete exactly when every client it was started for has answered. Clients that
  were not addressed do not count, repeated answers do not confuse it, and it relies only on clients
  never sending the server's own marker \<open>Unknown\<close>.\<close>

lemma broadcast_complete_iff:
  assumes "\<forall>(c, a) \<in> set as. oa_status a \<noteq> CdnUnknown"
  shows "broadcast_is_complete uid (acks uid as (start_broadcast uid chunks clients b))
    \<longleftrightarrow> set clients \<subseteq> fst ` set as"
proof -
  let ?b = "start_broadcast uid chunks clients b"
  let ?cs = "fold (\<lambda>i m. bm_insert i unknown_client m) clients []"
  let ?own = "\<lambda>c. map snd (filter (\<lambda>(d, _). d = c) as)"
  have "bm_get ?b uid = Some \<lparr>bs_chunks = chunks, bs_client_states = ?cs\<rparr>"
    by (simp add: start_broadcast_def Let_def bm_get_insert)
  from acks_state [OF this, of "as"] obtain s where s: "bm_get (acks uid as ?b) uid = Some s"
    "bm_wf (bs_client_states s)"
    "\<And>c. bm_get (bs_client_states s) c = map_option (fold apply_ack (?own c)) (bm_get ?cs c)"
    by (auto simp: fresh_client_states_wf)
  have known: "oa_status (last (?own c)) \<noteq> CdnUnknown" if "?own c \<noteq> []" for c
    using last_in_set [OF that] assms by auto
  have "ca_status (fold apply_ack (?own c) unknown_client) \<noteq> CdnUnknown \<longleftrightarrow> c \<in> fst ` set as" for c
  proof (cases "?own c = []")
    case True
    then show ?thesis by (force simp: unknown_client_def filter_empty_conv)
  next
    case False
    then have "c \<in> fst ` set as" by (force simp: filter_empty_conv)
    with False known [of c] show ?thesis by (simp add: ca_status_fold)
  qed
  then have "session_complete s \<longleftrightarrow> (\<forall>c \<in> set clients. c \<in> fst ` set as)"
    by (auto simp: session_complete_iff [OF s(2)] s(3) fresh_client_states)
  with s(1) show ?thesis by (auto simp: broadcast_is_complete_def)
qed

lemma broadcast_complete_iff_example:
  "broadcast_is_complete 1 (acks 1 [(7, \<lparr>oa_update_id = 1, oa_status = CdnRollback, oa_new_version_hash = [], oa_tick = 0\<rparr>)]
     (start_broadcast 1 [] [7] []))"
  using broadcast_complete_iff [of "[(7, \<lparr>oa_update_id = 1, oa_status = CdnRollback, oa_new_version_hash = [], oa_tick = 0\<rparr>)]"
      1 "[]" "[7]" "[]"]
  by simp

text \<open>The documented identity of the status report.\<close>

lemma status_accounts_for_all:
  assumes "get_status iter uid b = Some st" "\<And>xs. mset (iter xs) = mset xs"
  shows "bt_acked_clients st + length (bt_unknown_clients st) = bt_total_clients st"
proof -
  obtain s where s: "bm_get b uid = Some s" using assms(1) by (auto simp: get_status_def split: option.splits)
  let ?cs = "iter (bs_client_states s)"
  have "length ?cs = length (bs_client_states s)" using assms(2) by (metis size_mset)
  moreover have "length (filter (\<lambda>(_, s). ca_status s \<noteq> CdnUnknown) ?cs)
      + length (filter (\<lambda>(_, s). ca_status s = CdnUnknown) ?cs) = length ?cs"
    using sum_length_filter_compl [of "\<lambda>(_, s). ca_status s \<noteq> CdnUnknown" ?cs]
    by (simp add: case_prod_unfold)
  ultimately show ?thesis using assms(1) s by (auto simp: get_status_def tally_eq)
qed

end
