(* ===== verification/Update_Pipeline.thy ===== *)
theory Update_Pipeline
  imports Hot_Update Hot_Update_Cdn
begin

text \<open>
  The path of a script update through the whole system: the compiler
  (\<^verbatim>\<open>build/bytecode_compiler\<close>) writes the signed and encrypted file, the update server
  (\<^verbatim>\<open>server/hot_update_cdn\<close>) cuts it into chunks, the client (\<^verbatim>\<open>engine/vm_runtime\<close>) collects the
  chunks in whatever order they come, loads the file and swaps the script.
\<close>

definition receive_update_chunk :: "UpdateChunk \<Rightarrow> 'ast HotUpdateManager \<Rightarrow> 'ast HotUpdateManager" where
  "receive_update_chunk c = receive_chunk (ck_update_id c) (ck_seq c) (ck_data c)"

definition chunk_pair :: "UpdateChunk \<Rightarrow> u16 \<times> bytes" where
  "chunk_pair c = (ck_seq c, ck_data c)"

lemma receive_all_chunks:
  assumes "\<forall>c \<in> set cs. ck_update_id c = uid" "hu_pending h = [(uid, b)]"
  shows "fold receive_update_chunk cs h =
    h\<lparr>hu_pending := [(uid, fold (\<lambda>(seq, data). receive_fragment seq data) (map chunk_pair cs) b)]\<rparr>"
  using assms
proof (induction cs arbitrary: h b)
  case (Cons c cs)
  then have "hu_pending (receive_update_chunk c h) = [(uid, receive_fragment (ck_seq c) (ck_data c) b)]"
    by (simp add: receive_update_chunk_def receive_chunk_def bm_update_def)
  from Cons.IH [OF _ this] Cons.prems show ?case
    by (simp add: receive_update_chunk_def receive_chunk_def chunk_pair_def)
qed simp

lemma chunk_pairs: "map chunk_pair (split_list sign uid bc) = numbered (chunks_of CHUNK_SIZE bc)"
  by (rule nth_equalityI) (simp_all add: numbered_def chunk_pair_def split_list_nth nth_enumerate_eq)

lemma try_apply_single:
  assumes "hu_pending h = [(uid, b)]" "buffer_is_complete b" "buffer_assemble b = Inr raw"
    and "load B raw (hu_pub_key h) (hu_aes_key h) = Inr (md, ast)"
  shows "try_apply show_err B tick h rt =
    (case replace_script (md_script_id md) ast (snd rt) (fst rt) of
       (r, rt') \<Rightarrow> (case r of
           Inl e \<Rightarrow> Inl (UpdInitFailed (show_err (ec_error e)))
         | Inr _ \<Rightarrow> Inr \<lparr>ua_update_id = uid, ua_status = ''ok'', ua_new_version_hash = md_source_hash md, ua_tick = tick\<rparr>,
         h\<lparr>hu_pending := []\<rparr>, rt'))"
  using assms by (simp add: try_apply_def bm_remove_def Let_def split: sum.split prod.split)

text \<open>When every chunk of a split file has arrived, the update is complete and holds the file.\<close>

lemma arrived_update:
  fixes h :: "'ast HotUpdateManager" and now :: u64
  assumes split: "split_into_chunks cdn_sign uid out = Inr chunks" "length out \<le> MAX_BYTECODE_SIZE"
    and arrived: "set arrived = set chunks" and started: "hu_pending h = []"
  defines "g \<equiv> fold receive_update_chunk arrived (start_update uid (ck_total (hd chunks)) now h)"
  obtains b where "hu_pending g = [(uid, b)]" "buffer_is_complete b" "buffer_assemble b = Inr out"
    "hu_pub_key g = hu_pub_key h" "hu_aes_key g = hu_aes_key h"
proof -
  let ?ds = "chunks_of CHUNK_SIZE out"
  let ?b = "update_buffer_new uid (of_nat (length ?ds)) now"
  let ?fb = "fold (\<lambda>(seq, data). receive_fragment seq data) (map chunk_pair arrived) ?b"
  have ne: "out \<noteq> []" using split(1) by (auto simp: split_into_chunks_def)
  then have cs: "chunks = split_list cdn_sign uid out" using split(1) by (simp add: split_eq)
  have len: "length ?ds \<le> 512" by (rule chunks_bound [OF split(2)])
  have "concat ?ds = out" by (simp add: CHUNK_SIZE_def)
  then have "chunks \<noteq> []" using ne cs by (metis concat.simps(1) length_0_conv length_split_list)
  then have total: "ck_total (hd chunks) = of_nat (length ?ds)"
    unfolding cs by (subst hd_conv_nth) (auto simp: split_list_nth simp flip: length_greater_0_conv)
  have uid: "\<forall>c \<in> set arrived. ck_update_id c = uid"
    using arrived by (auto simp: cs split_list_def in_set_enumerate_eq)
  have "set (map chunk_pair arrived) = set (numbered ?ds)"
    using arrived chunk_pairs [of cdn_sign uid out] by (metis cs set_map)
  from buffer_reassembles [OF this, of uid now] len
  have full: "buffer_is_complete ?fb" "buffer_assemble ?fb = Inr out"
    by (auto simp: \<open>concat ?ds = out\<close>)
  have pend: "hu_pending (start_update uid (ck_total (hd chunks)) now h) = [(uid, ?b)]"
    by (simp add: start_update_def started total)
  have "hu_pending g = [(uid, ?fb)]" "hu_pub_key g = hu_pub_key h" "hu_aes_key g = hu_aes_key h"
    unfolding g_def receive_all_chunks [OF uid pend] by (simp_all add: start_update_def)
  then show ?thesis using full that by blast
qed

text \<open>C1: A hot update does what it says, from source to running script. If a source compiles, its file of at
  most 32 MB is split by the update server, and each of the chunks arrives at a client that started this
  update, in any order and any number of times, then applying the update at the end of a frame has exactly
  this outcome. If the script is loaded, the old one is unloaded and the new one, the parsed source, is called for the
  first time. If this call succeeds, the update succeeds: the acknowledgement carries the update's number, the hash of the
  source and the tick, and the script's entry runs the new source, active and with a clear error count. If it fails, the
  update fails with exactly its error, and the entry runs the old source, its state and error count as they were. No other
  entry changes. If the script is not loaded, the update fails and nothing changes. No chunk is left in any case.\<close>

theorem hot_update_end_to_end:
  fixes source :: string and E :: "('ast, 'd, 'b, 'w) SandboxedEngine"
  assumes compiled: "compile B sign nonce built source sid prio (hu_aes_key h) = Inr (Inr out)"
    and "aead_correct (be_aead B)" "length nonce = 12" "\<And>m. length (sign m) = 64"
    and "\<And>m. be_verify B (hu_pub_key h) m (sign m)"
    and "\<And>md b. be_ser B md = Inr b \<Longrightarrow> be_de B b = Inr md"
    and "utf8_valid (as_bytes source)"
    and split: "split_into_chunks cdn_sign uid out = Inr chunks" "length out \<le> MAX_BYTECODE_SIZE"
    and arrived: "set arrived = set chunks"
    and started: "hu_pending h = []" and "manager_ok m"
  shows "\<exists>ast r h' m' E'. be_parse B source = Inr ast
    \<and> try_apply show_err B tick
        (fold receive_update_chunk arrived (start_update uid (ck_total (hd chunks)) now h)) (m, E) = (r, h', m', E')
    \<and> hu_pending h' = []
    \<and> (\<forall>p s. bm_get (sm_scripts m) (p, sid) = Some s \<longrightarrow>
        (\<exists>s'. bm_get (sm_scripts m') = (bm_get (sm_scripts m))((p, sid) \<mapsto> s')
          \<and> (case first_call E s (p, sid) ast of
               Inr _ \<Rightarrow> r = Inr \<lparr>ua_update_id = uid, ua_status = ''ok'',
                   ua_new_version_hash = be_blake3 B (as_bytes source), ua_tick = tick\<rparr>
                 \<and> in_ast (ms_instance s') = ast \<and> ms_state s' = Active \<and> ms_consecutive_error_count s' = 0
             | Inl e \<Rightarrow> r = Inl (UpdInitFailed (show_err e))
                 \<and> in_ast (ms_instance s') = in_ast (ms_instance s) \<and> ms_state s' = ms_state s
                 \<and> ms_consecutive_error_count s' = ms_consecutive_error_count s)))
    \<and> ((\<forall>p. bm_get (sm_scripts m) (p, sid) = None) \<longrightarrow>
        r = Inl (UpdInitFailed (show_err (RuntimeError sid ''ScriptNotFound'' (sm_tick m)))) \<and> m' = m \<and> E' = E)"
proof -
  let ?md = "\<lparr>md_script_id = sid, md_priority = prio, md_source_hash = be_blake3 B (as_bytes source),
    md_build_timestamp = built\<rparr>"
  let ?h = "fold receive_update_chunk arrived (start_update uid (ck_total (hd chunks)) now h)"
  obtain ast where ast: "be_parse B source = Inr ast" "load B out (hu_pub_key h) (hu_aes_key h) = Inr (?md, ast)"
    using compile_then_load [OF compiled assms(2-7)] by blast
  obtain b where h: "hu_pending ?h = [(uid, b)]" "buffer_is_complete b" "buffer_assemble b = Inr out"
    "hu_pub_key ?h = hu_pub_key h" "hu_aes_key ?h = hu_aes_key h"
    using arrived_update [OF split arrived started] by blast
  obtain r m' E' where r: "replace_script sid ast E m = (r, m', E')" by (metis prod_cases3)
  let ?r = "case r of Inl e \<Rightarrow> Inl (UpdInitFailed (show_err (ec_error e)))
    | Inr _ \<Rightarrow> Inr \<lparr>ua_update_id = uid, ua_status = ''ok'', ua_new_version_hash = be_blake3 B (as_bytes source), ua_tick = tick\<rparr>"
  have t: "try_apply show_err B tick ?h (m, E) = (?r, ?h\<lparr>hu_pending := []\<rparr>, m', E')"
    using try_apply_single [OF h(1-3), of B ?md ast show_err tick "(m, E)"] ast(2) h(4,5) r by (cases r) simp_all
  have loaded: "\<exists>s'. bm_get (sm_scripts m') = (bm_get (sm_scripts m))((p, sid) \<mapsto> s')
      \<and> (case first_call E s (p, sid) ast of
           Inr _ \<Rightarrow> ?r = Inr \<lparr>ua_update_id = uid, ua_status = ''ok'',
               ua_new_version_hash = be_blake3 B (as_bytes source), ua_tick = tick\<rparr>
             \<and> in_ast (ms_instance s') = ast \<and> ms_state s' = Active \<and> ms_consecutive_error_count s' = 0
         | Inl e \<Rightarrow> ?r = Inl (UpdInitFailed (show_err e))
             \<and> in_ast (ms_instance s') = in_ast (ms_instance s) \<and> ms_state s' = ms_state s
             \<and> ms_consecutive_error_count s' = ms_consecutive_error_count s)"
    if s: "bm_get (sm_scripts m) (p, sid) = Some s" for p s
    using replace_script_entry [OF \<open>manager_ok m\<close> s, of ast E] replace_script_result [OF \<open>manager_ok m\<close> s, of ast E] r
    by (cases "first_call E s (p, sid) ast") (auto simp: wrap_error_def)
  have unknown: "?r = Inl (UpdInitFailed (show_err (RuntimeError sid ''ScriptNotFound'' (sm_tick m)))) \<and> m' = m \<and> E' = E"
    if "\<forall>p. bm_get (sm_scripts m) (p, sid) = None"
    using replace_script_unknown [OF \<open>manager_ok m\<close>, of sid ast E] that r by (auto simp: not_found_def wrap_error_def)
  show ?thesis
    by (intro exI [of _ ast] exI [of _ ?r] exI [of _ "?h\<lparr>hu_pending := []\<rparr>"] exI [of _ m'] exI [of _ E'])
      (use ast(1) t loaded unknown in auto)
qed

definition quiet_engine :: "(string, unit, unit, unit) SandboxedEngine" where
  "quiet_engine =
     \<lparr>sb_timeout_micros = 2000, sb_shared = (), sb_functions = (\<lambda>_. []), sb_eval_ast = (\<lambda>_ _ scope _. (Inr (), (), scope)),
      sb_call_fn = (\<lambda>_ _ scope _ _ _. (Inr (), (), scope, 0)), sb_show_error = (\<lambda>_. []), sb_dt = (\<lambda>_. ()),
      sb_budget_new = (), sb_budget_exhausted = (\<lambda>_. False), sb_budget_deduct = (\<lambda>_ b. b)\<rparr>"

definition one_script :: "string ScriptManager" where
  "one_script = \<lparr>sm_scripts = [((1, ''s''), \<lparr>ms_instance = instance_new ''s'' ''old'' 1, ms_state = Active,
     ms_consecutive_error_count = 0\<rparr>)], sm_tick = 0\<rparr>"

theorem hot_update_end_to_end_witness:
  "\<exists>out chunks h' m' E'.
     compile toy_env (\<lambda>_. replicate 64 7) (replicate 12 0) 9 ''a'' ''s'' 1 [3] = Inr (Inr out)
     \<and> split_into_chunks seven_sign 5 out = Inr chunks
     \<and> try_apply (\<lambda>_. []) toy_env 8
         (fold receive_update_chunk (rev chunks @ chunks)
           (start_update 5 (ck_total (hd chunks)) 0 (update_manager_new [3] [4]))) (one_script, quiet_engine)
         = (Inr \<lparr>ua_update_id = 5, ua_status = ''ok'', ua_new_version_hash = be_blake3 toy_env (as_bytes ''a''), ua_tick = 8\<rparr>,
            h', m', E')
     \<and> hu_pending h' = [] \<and> map_option (\<lambda>s. in_ast (ms_instance s)) (bm_get (sm_scripts m') (1, ''s'')) = Some ''a''"
proof -
  let ?h = "update_manager_new [3] [4] :: string HotUpdateManager"
  let ?s = "\<lparr>ms_instance = instance_new ''s'' ''old'' 1, ms_state = Active, ms_consecutive_error_count = 0\<rparr>"
  obtain out where out: "compile toy_env (\<lambda>_. replicate 64 7) (replicate 12 0) 9 ''a'' ''s'' 1 [3] = Inr (Inr out)"
    and len: "length out \<le> 200" "out \<noteq> []"
    by (simp add: compile_def toy_env_def toy_metadata_def Let_def aes_encrypt_parts_def toy_aead_def
        assemble_bytecode_def MAGIC_def as_bytes_def)
  obtain chunks where chunks: "split_into_chunks seven_sign 5 out = Inr chunks"
    using len(2) by (simp add: split_eq)
  have ok: "manager_ok one_script" and old: "bm_get (sm_scripts one_script) (1, ''s'') = Some ?s"
    by (simp_all add: one_script_def manager_ok_def scripts_ok_def entry_ok_def instance_new_def)
  have out': "compile toy_env (\<lambda>_. replicate 64 7) (replicate 12 0) 9 ''a'' ''s'' 1 (hu_aes_key ?h) = Inr (Inr out)"
    using out by (simp add: update_manager_new_def)
  have init: "first_call quiet_engine ?s (1, ''s'') ast = Inr ()" for ast
    by (simp add: first_call_def quiet_engine_def call_on_unload_def call_lifecycle_fn_def ensure_initialized_def
        call_on_init_def call_with_budget_def has_function_def instance_new_def Let_def)
  have "\<exists>ast r h' m' E'. be_parse toy_env ''a'' = Inr ast
    \<and> try_apply (\<lambda>_. []) toy_env 8
        (fold receive_update_chunk (rev chunks @ chunks) (start_update 5 (ck_total (hd chunks)) 0 ?h))
        (one_script, quiet_engine) = (r, h', m', E')
    \<and> hu_pending h' = []
    \<and> (\<forall>p s. bm_get (sm_scripts one_script) (p, ''s'') = Some s \<longrightarrow>
        (\<exists>s'. bm_get (sm_scripts m') = (bm_get (sm_scripts one_script))((p, ''s'') \<mapsto> s')
          \<and> (case first_call quiet_engine s (p, ''s'') ast of
               Inr _ \<Rightarrow> r = Inr \<lparr>ua_update_id = 5, ua_status = ''ok'',
                   ua_new_version_hash = be_blake3 toy_env (as_bytes ''a''), ua_tick = 8\<rparr>
                 \<and> in_ast (ms_instance s') = ast \<and> ms_state s' = Active \<and> ms_consecutive_error_count s' = 0
             | Inl e \<Rightarrow> r = Inl (UpdInitFailed ((\<lambda>_. []) e))
                 \<and> in_ast (ms_instance s') = in_ast (ms_instance s) \<and> ms_state s' = ms_state s
                 \<and> ms_consecutive_error_count s' = ms_consecutive_error_count s)))
    \<and> ((\<forall>p. bm_get (sm_scripts one_script) (p, ''s'') = None) \<longrightarrow>
        r = Inl (UpdInitFailed ((\<lambda>_. []) (RuntimeError ''s'' ''ScriptNotFound'' (sm_tick one_script))))
          \<and> m' = one_script \<and> E' = quiet_engine)"
    by (rule hot_update_end_to_end [OF out' _ _ _ _ _ _ chunks _ _ _ ok])
      (use len in \<open>simp_all add: toy_env_def toy_aead_correct as_bytes_def MAX_BYTECODE_SIZE_def
        update_manager_new_def split: if_splits\<close>)
  then obtain ast r h' m' E' s' where t: "be_parse toy_env ''a'' = Inr ast"
    "try_apply (\<lambda>_. []) toy_env 8
        (fold receive_update_chunk (rev chunks @ chunks) (start_update 5 (ck_total (hd chunks)) 0 ?h))
        (one_script, quiet_engine) = (r, h', m', E')" "hu_pending h' = []"
    "bm_get (sm_scripts m') (1, ''s'') = Some s'" "in_ast (ms_instance s') = ast"
    "r = Inr \<lparr>ua_update_id = 5, ua_status = ''ok'', ua_new_version_hash = be_blake3 toy_env (as_bytes ''a''), ua_tick = 8\<rparr>"
    using old init by (fastforce simp del: fun_upd_apply simp add: fun_upd_same)
  then have "ast = ''a''" by (simp add: toy_env_def)
  with out chunks t show ?thesis by auto
qed

end
