(* ===== verification/Id_Allocator.thy ===== *)
theory Id_Allocator
  imports Prelude
begin

text \<open>
  The interface of the components that hand out identifiers from a counter (rooms, sessions, effect
  handles): creating takes the counter as the new identifier and moves it on, everything else leaves the
  counter alone and never brings an identifier to life. The facts hold for counters of any width.
\<close>

section \<open>Identifier allocation\<close>

text \<open>A history of creations (\<open>Inl\<close>) and other operations (\<open>Inr\<close>): the identifiers it issues and the
  state it ends in.\<close>

fun issued :: "('a \<Rightarrow> 's \<Rightarrow> 'w word \<times> 's) \<Rightarrow> ('e \<Rightarrow> 's \<Rightarrow> 's) \<Rightarrow> ('a + 'e) list \<Rightarrow> 's \<Rightarrow> 'w word list" where
  "issued create other [] s = []"
| "issued create other (Inl a # h) s = fst (create a s) # issued create other h (snd (create a s))"
| "issued create other (Inr e # h) s = issued create other h (other e s)"

fun after :: "('a \<Rightarrow> 's \<Rightarrow> 'w word \<times> 's) \<Rightarrow> ('e \<Rightarrow> 's \<Rightarrow> 's) \<Rightarrow> ('a + 'e) list \<Rightarrow> 's \<Rightarrow> 's" where
  "after create other [] s = s"
| "after create other (Inl a # h) s = after create other h (snd (create a s))"
| "after create other (Inr e # h) s = after create other h (other e s)"

locale id_allocator =
  fixes live :: "'s \<Rightarrow> 'w::len word set"
    and next_id :: "'s \<Rightarrow> 'w word"
    and create :: "'a \<Rightarrow> 's \<Rightarrow> 'w word \<times> 's"
    and other :: "'e \<Rightarrow> 's \<Rightarrow> 's"
  assumes create_id: "fst (create a s) = next_id s"
    and create_next: "next_id (snd (create a s)) = next_id s + 1"
    and create_live: "live (snd (create a s)) = insert (next_id s) (live s)"
    and other_live: "live (other e s) \<subseteq> live s"
    and other_next: "next_id (other e s) = next_id s"
begin

lemma issued_eq: "issued create other h s = map (\<lambda>i. next_id s + of_nat i) [0..<length (filter isl h)]"
proof (induction h arbitrary: s)
  case (Cons e h)
  have "[0..<Suc n] = 0 # map Suc [0..<n]" for n
    by (simp add: upt_conv_Cons map_Suc_upt del: upt_Suc)
  with Cons show ?case
    by (cases e) (simp_all add: create_id create_next other_next comp_def add.assoc del: upt_Suc)
qed simp

lemma live_after: "live (after create other h s) \<subseteq> live s \<union> set (issued create other h s)"
proof (induction h arbitrary: s)
  case (Cons e h)
  show ?case
  proof (cases e)
    case (Inl a)
    then show ?thesis using Cons.IH [of "snd (create a s)"] by (auto simp: create_live create_id)
  next
    case (Inr x)
    then show ?thesis using Cons.IH [of "other x s"] other_live [of x s] by auto
  qed
qed simp

lemma issued_fresh:
  assumes "\<forall>i \<in> live s. i < next_id s" "unat (next_id s) + length h < 2 ^ LENGTH('w)"
  shows "distinct (issued create other h s) \<and> sorted (issued create other h s) \<and> set (issued create other h s) \<inter> live s = {}"
proof -
  have le: "length (filter isl h) \<le> length h" by (rule length_filter_le)
  have u: "unat (next_id s + of_nat i) = unat (next_id s) + i" if "i < length (filter isl h)" for i
  proof -
    have "i < 2 ^ LENGTH('w)" using that le assms(2) by linarith
    then have "unat (of_nat i :: 'w word) = i" by (simp only: unat_of_nat) simp
    moreover have "unat (next_id s) + i < 2 ^ LENGTH('w)" using that le assms(2) by linarith
    ultimately show ?thesis by (simp add: unat_word_ariths)
  qed
  have "inj_on (\<lambda>i. next_id s + of_nat i) {0..<length (filter isl h)}"
    by (rule inj_onI) (metis u add_left_cancel atLeastLessThan_iff)
  then have "distinct (issued create other h s)" by (simp add: issued_eq distinct_map)
  moreover have "sorted (issued create other h s)"
    unfolding issued_eq sorted_map
    by (rule sorted_wrt_mono_rel [OF _ sorted_upt [unfolded sorted_wrt_map id_def]])
      (auto simp: word_le_nat_alt u)
  moreover have "i \<notin> live s" if "i \<in> set (issued create other h s)" for i
    using that assms(1) u by (fastforce simp: issued_eq word_less_nat_alt)
  ultimately show ?thesis by blast
qed

end

end
