(* ===== verification/Rooms.thy ===== *)
theory Rooms
  imports Protocol Machines Id_Allocator
begin

text \<open>
  Rooms and sessions of the servers (\<^verbatim>\<open>server/gateway/src/room.rs\<close>, \<^verbatim>\<open>session.rs\<close>,
  \<^verbatim>\<open>server/hot_update_cdn/src/room.rs\<close>). The three managers hand out identifiers the same way; they
  interpret the locale \<open>id_allocator\<close>, whose facts say that identifiers are never reused. A \<open>HashMap\<close> is
  represented by its entries in key order, and its iteration order is a parameter. The clock reading
  stored in a new room or session is an argument.
\<close>

section \<open>Rooms of the gateway\<close>

datatype RoomState = Waiting | Running | Finished

datatype RoomError = NotFound | Full | InvalidState | PlayerNotFound

record Room =
  ro_id :: u64
  ro_state :: RoomState
  ro_players :: "u64 list"
  ro_max_players :: nat

record RoomManager =
  rm_rooms :: "(u64, Room) btree"
  rm_next_id :: u64
  rm_max_rooms :: nat

definition room_manager_new :: "nat \<Rightarrow> RoomManager" where
  "room_manager_new max_rooms = \<lparr>rm_rooms = [], rm_next_id = 1, rm_max_rooms = max_rooms\<rparr>"

definition create_room :: "nat \<Rightarrow> RoomManager \<Rightarrow> u64 \<times> RoomManager" where
  "create_room max_players m =
     (let id = rm_next_id m;
          room = \<lparr>ro_id = id, ro_state = Waiting, ro_players = [], ro_max_players = max_players\<rparr>
      in (id, m\<lparr>rm_next_id := rm_next_id m + 1, rm_rooms := bm_insert id room (rm_rooms m)\<rparr>))"

definition get_room :: "u64 \<Rightarrow> RoomManager \<Rightarrow> Room option" where
  "get_room room_id m = bm_get (rm_rooms m) room_id"

definition set_room :: "u64 \<Rightarrow> Room \<Rightarrow> RoomManager \<Rightarrow> RoomManager" where
  "set_room room_id room m = m\<lparr>rm_rooms := bm_update room_id (\<lambda>_. room) (rm_rooms m)\<rparr>"

definition join_room :: "u64 \<Rightarrow> u64 \<Rightarrow> RoomManager \<Rightarrow> (RoomError + unit) \<times> RoomManager" where
  "join_room room_id conn_id m =
     (case bm_get (rm_rooms m) room_id of
        None \<Rightarrow> (Inl NotFound, m)
      | Some room \<Rightarrow>
          if ro_state room \<noteq> Waiting then (Inl InvalidState, m)
          else if length (ro_players room) \<ge> ro_max_players room then (Inl Full, m)
          else (Inr (), set_room room_id (room\<lparr>ro_players := ro_players room @ [conn_id]\<rparr>) m))"

definition leave_room :: "u64 \<Rightarrow> u64 \<Rightarrow> RoomManager \<Rightarrow> (RoomError + unit) \<times> RoomManager" where
  "leave_room room_id conn_id m =
     (case bm_get (rm_rooms m) room_id of
        None \<Rightarrow> (Inl NotFound, m)
      | Some room \<Rightarrow>
          if conn_id \<notin> set (ro_players room) then (Inl PlayerNotFound, m)
          else (Inr (), set_room room_id
                  (room\<lparr>ro_players := filter (\<lambda>id. id \<noteq> conn_id) (ro_players room)\<rparr>) m))"

definition start_room :: "u64 \<Rightarrow> RoomManager \<Rightarrow> (RoomError + unit) \<times> RoomManager" where
  "start_room room_id m =
     (case bm_get (rm_rooms m) room_id of
        None \<Rightarrow> (Inl NotFound, m)
      | Some room \<Rightarrow>
          if ro_state room \<noteq> Waiting then (Inl InvalidState, m)
          else (Inr (), set_room room_id (room\<lparr>ro_state := Running\<rparr>) m))"

definition finish_room :: "u64 \<Rightarrow> RoomManager \<Rightarrow> (RoomError + unit) \<times> RoomManager" where
  "finish_room room_id m =
     (case bm_get (rm_rooms m) room_id of
        None \<Rightarrow> (Inl NotFound, m)
      | Some room \<Rightarrow>
          if ro_state room \<noteq> Running then (Inl InvalidState, m)
          else (Inr (), set_room room_id (room\<lparr>ro_state := Finished\<rparr>) m))"

definition list_rooms :: "((u64 \<times> Room) list \<Rightarrow> (u64 \<times> Room) list) \<Rightarrow> RoomManager \<Rightarrow> u64 list" where
  "list_rooms iter m = map fst (iter (rm_rooms m))"

definition remove_room :: "u64 \<Rightarrow> RoomManager \<Rightarrow> (RoomError + unit) \<times> RoomManager" where
  "remove_room room_id m =
     (case bm_get (rm_rooms m) room_id of
        None \<Rightarrow> (Inl NotFound, m)
      | Some room \<Rightarrow>
          if ro_state room \<noteq> Finished then (Inl InvalidState, m)
          else (Inr (), m\<lparr>rm_rooms := bm_remove room_id (rm_rooms m)\<rparr>))"

datatype room_event = Join u64 u64 | Leave u64 u64 | Start u64 | Finish u64 | Remove u64

fun room_step :: "room_event \<Rightarrow> RoomManager \<Rightarrow> RoomManager" where
  "room_step (Join r c) m = snd (join_room r c m)"
| "room_step (Leave r c) m = snd (leave_room r c m)"
| "room_step (Start r) m = snd (start_room r m)"
| "room_step (Finish r) m = snd (finish_room r m)"
| "room_step (Remove r) m = snd (remove_room r m)"

fun room_run :: "(nat + room_event) \<Rightarrow> RoomManager \<Rightarrow> RoomManager" where
  "room_run (Inl n) m = snd (create_room n m)"
| "room_run (Inr e) m = room_step e m"

lemmas room_defs = join_room_def leave_room_def start_room_def finish_room_def remove_room_def set_room_def

lemma keys_room_step: "dom (bm_get (rm_rooms (room_step e m))) \<subseteq> dom (bm_get (rm_rooms m))"
  by (cases e) (auto simp: room_defs bm_get_update bm_get_remove split: option.splits if_splits)

lemma next_room_step: "rm_next_id (room_step e m) = rm_next_id m"
  by (cases e) (auto simp: room_defs split: option.splits)

interpretation gateway_rooms: id_allocator "\<lambda>m. dom (bm_get (rm_rooms m))" rm_next_id create_room room_step
  by unfold_locales
    (simp_all add: create_room_def Let_def bm_get_insert keys_room_step next_room_step)

definition room_ok :: "u64 \<Rightarrow> Room \<Rightarrow> bool" where
  "room_ok k r \<longleftrightarrow> ro_id r = k \<and> length (ro_players r) \<le> ro_max_players r"

definition rooms_ok :: "RoomManager \<Rightarrow> bool" where
  "rooms_ok m \<longleftrightarrow> (\<forall>k r. bm_get (rm_rooms m) k = Some r \<longrightarrow> room_ok k r)"

lemma rooms_ok_run: "rooms_ok m \<Longrightarrow> rooms_ok (room_run e m)"
proof (cases e)
  case (Inl n)
  assume "rooms_ok m"
  then show ?thesis by (auto simp: Inl rooms_ok_def room_ok_def create_room_def Let_def bm_get_insert)
next
  case (Inr f)
  assume ok: "rooms_ok m"
  have filter: "length (filter P xs) \<le> n" if "length xs \<le> n" for P and xs :: "u64 list" and n
    using that length_filter_le [of P xs] by linarith
  from ok show ?thesis
    by (cases f) (auto simp: Inr rooms_ok_def room_ok_def room_defs bm_get_update bm_get_remove
        intro: filter split: option.splits if_splits)
qed

interpretation gateway_room_machine: event_machine room_run rooms_ok
  by unfold_locales (rule rooms_ok_run)

fun phase :: "RoomState \<Rightarrow> nat" where
  "phase Waiting = 0" | "phase Running = 1" | "phase Finished = 2"

lemma room_progress:
  assumes "bm_get (rm_rooms m) k = Some r" "bm_get (rm_rooms (room_step e m)) k = Some r'"
  shows "phase (ro_state r) \<le> phase (ro_state r')
    \<and> (ro_state r \<noteq> Waiting \<longrightarrow> set (ro_players r') \<subseteq> set (ro_players r))
    \<and> ro_max_players r' = ro_max_players r"
  using assms
  by (cases e) (auto simp: room_defs bm_get_update bm_get_remove split: option.splits if_splits)

lemma bm_get_create_other: "k \<noteq> rm_next_id m \<Longrightarrow> bm_get (rm_rooms (snd (create_room n m))) k = bm_get (rm_rooms m) k"
  by (simp add: create_room_def Let_def bm_get_insert)

text \<open>Rooms behave: in every reachable state of the gateway's room manager each room is stored under
  its own identifier and holds at most its maximum of players; and an operation never moves a room back
  to an earlier phase, never changes its capacity, and adds no player once the room left \<open>Waiting\<close>.\<close>

lemma gateway_rooms_invariant:
  "rooms_ok (fold room_run h (room_manager_new n))
   \<and> (\<forall>e k r r'. bm_get (rm_rooms m) k = Some r \<longrightarrow> bm_get (rm_rooms (room_step e m)) k = Some r' \<longrightarrow>
        phase (ro_state r) \<le> phase (ro_state r')
        \<and> (ro_state r \<noteq> Waiting \<longrightarrow> set (ro_players r') \<subseteq> set (ro_players r))
        \<and> ro_max_players r' = ro_max_players r)"
proof -
  have "rooms_ok (room_manager_new n)" by (simp add: rooms_ok_def room_manager_new_def)
  then have "rooms_ok (fold room_run h (room_manager_new n))" by (rule gateway_room_machine.inv_fold)
  then show ?thesis using room_progress by blast
qed

lemma gateway_rooms_invariant_example:
  "ro_players (the (get_room 1 (fold room_run [Inl 1, Inr (Join 1 7), Inr (Join 1 8)] (room_manager_new 5)))) = [7]
   \<and> rooms_ok (fold room_run [Inl 1, Inr (Join 1 7), Inr (Join 1 8)] (room_manager_new 5))
   \<and> phase (ro_state (the (get_room 1 (room_step (Start 1) (snd (create_room 1 (room_manager_new 5))))))) \<ge> phase Waiting"
proof (intro conjI)
  let ?m = "snd (create_room 1 (room_manager_new 5))"
  let ?r = "\<lparr>ro_id = 1, ro_state = Waiting, ro_players = [], ro_max_players = 1\<rparr>"
  show "ro_players (the (get_room 1 (fold room_run [Inl 1, Inr (Join 1 7), Inr (Join 1 8)] (room_manager_new 5)))) = [7]"
    by (simp add: room_manager_new_def create_room_def get_room_def join_room_def set_room_def bm_update_def)
  show "rooms_ok (fold room_run [Inl 1, Inr (Join 1 7), Inr (Join 1 8)] (room_manager_new 5))"
    using gateway_rooms_invariant [of "[Inl 1, Inr (Join 1 7), Inr (Join 1 8)]" 5] by blast
  have "bm_get (rm_rooms ?m) 1 = Some ?r"
    by (simp add: room_manager_new_def create_room_def)
  moreover have "bm_get (rm_rooms (room_step (Start 1) ?m)) 1 = Some (?r\<lparr>ro_state := Running\<rparr>)"
    by (simp add: room_manager_new_def create_room_def start_room_def set_room_def bm_update_def)
  ultimately show "phase (ro_state (the (get_room 1 (room_step (Start 1) ?m)))) \<ge> phase Waiting"
    using gateway_rooms_invariant [of "[]" 5 ?m] by (fastforce simp: get_room_def)
qed

text \<open>Room identifiers are never reused: over any history of creating, changing and removing rooms
  (shorter than the identifier space), the issued identifiers are strictly increasing and none of
  them was in use when the history started.\<close>

lemma gateway_room_ids_fresh:
  assumes "\<forall>i \<in> dom (bm_get (rm_rooms m)). i < rm_next_id m" and "unat (rm_next_id m) + length h < 2 ^ 64"
  shows "distinct (issued create_room room_step h m) \<and> sorted (issued create_room room_step h m)
    \<and> set (issued create_room room_step h m) \<inter> dom (bm_get (rm_rooms m)) = {}"
  using assms by (intro gateway_rooms.issued_fresh) simp_all

lemma gateway_room_ids_fresh_example:
  "distinct (issued create_room room_step [Inl 4, Inr (Remove 1), Inl 2] (room_manager_new 5))"
  using gateway_room_ids_fresh [of "room_manager_new 5" "[Inl 4, Inr (Remove 1), Inl 2]"]
  by (simp add: room_manager_new_def)

text \<open>The configured limit on the number of rooms is never consulted.\<close>

lemma create_room_ignores_limit:
  "fst (create_room n (m\<lparr>rm_max_rooms := l\<rparr>)) = fst (create_room n m)
   \<and> rm_rooms (snd (create_room n (m\<lparr>rm_max_rooms := l\<rparr>))) = rm_rooms (snd (create_room n m))"
  by (simp add: create_room_def Let_def)

section \<open>Sessions of the gateway\<close>

record Session =
  se_id :: u64
  se_state :: State
  se_created_at :: u64
  se_room_id :: "u64 option"

record SessionManager =
  sn_sessions :: "(u64, Session) btree"
  sn_next_id :: u64
  sn_reconnect_timeout :: u64

definition session_manager_new :: "u64 \<Rightarrow> SessionManager" where
  "session_manager_new reconnect_timeout =
     \<lparr>sn_sessions = [], sn_next_id = 1, sn_reconnect_timeout = reconnect_timeout\<rparr>"

definition session_register :: "u64 \<Rightarrow> SessionManager \<Rightarrow> u64 \<times> SessionManager" where
  "session_register now m =
     (let id = sn_next_id m;
          session = \<lparr>se_id = id, se_state = Connecting, se_created_at = now, se_room_id = None\<rparr>
      in (id, m\<lparr>sn_next_id := sn_next_id m + 1, sn_sessions := bm_insert id session (sn_sessions m)\<rparr>))"

definition session_get :: "u64 \<Rightarrow> SessionManager \<Rightarrow> Session option" where
  "session_get sid m = bm_get (sn_sessions m) sid"

definition session_get_mut :: "u64 \<Rightarrow> (Session \<Rightarrow> Session) \<Rightarrow> SessionManager \<Rightarrow> SessionManager" where
  "session_get_mut sid f m = m\<lparr>sn_sessions := bm_update sid f (sn_sessions m)\<rparr>"

definition session_remove :: "u64 \<Rightarrow> SessionManager \<Rightarrow> Session option \<times> SessionManager" where
  "session_remove sid m = (bm_get (sn_sessions m) sid, m\<lparr>sn_sessions := bm_remove sid (sn_sessions m)\<rparr>)"

definition active_count :: "SessionManager \<Rightarrow> nat" where
  "active_count m = length (sn_sessions m)"

datatype session_event = Mutate u64 "Session \<Rightarrow> Session" | Close u64

fun session_step :: "session_event \<Rightarrow> SessionManager \<Rightarrow> SessionManager" where
  "session_step (Mutate sid f) m = session_get_mut sid f m"
| "session_step (Close sid) m = snd (session_remove sid m)"

lemma keys_session_step: "dom (bm_get (sn_sessions (session_step e m))) \<subseteq> dom (bm_get (sn_sessions m))"
  by (cases e) (auto simp: session_get_mut_def session_remove_def bm_get_update bm_get_remove split: if_splits)

lemma next_session_step: "sn_next_id (session_step e m) = sn_next_id m"
  by (cases e) (simp_all add: session_get_mut_def session_remove_def)

interpretation gateway_sessions: id_allocator "\<lambda>m. dom (bm_get (sn_sessions m))" sn_next_id
    session_register session_step
  by unfold_locales
    (simp_all add: session_register_def Let_def bm_get_insert keys_session_step next_session_step)

lemma register_active_count:
  "bm_wf (sn_sessions m) \<Longrightarrow> bm_get (sn_sessions m) (sn_next_id m) = None \<Longrightarrow>
     active_count (snd (session_register now m)) = Suc (active_count m)"
  by (simp add: active_count_def session_register_def Let_def bmap.length_entries_ins_new)

section \<open>Rooms of the update server\<close>

datatype CdnRoomState = Lobby | InGame | CdnFinished

datatype CdnRoomError =
    RoomFull
  | RoomNotFound
  | PlayerNotInRoom
  | InvalidStateTransition CdnRoomState string

record CdnRoom =
  cr_room_id :: u64
  cr_players :: "u64 list"
  cr_state :: CdnRoomState
  cr_max_players :: nat
  cr_created_at :: u64

record CdnRoomManager =
  cr_rooms :: "(u64, CdnRoom) btree"
  cr_next_id :: u64

definition cdn_room_manager_new :: CdnRoomManager where
  "cdn_room_manager_new = \<lparr>cr_rooms = [], cr_next_id = 1\<rparr>"

text \<open>The argument pairs the capacity with the clock reading.\<close>

definition cdn_create_room :: "nat \<times> u64 \<Rightarrow> CdnRoomManager \<Rightarrow> u64 \<times> CdnRoomManager" where
  "cdn_create_room a m =
     (let room_id = cr_next_id m;
          room = \<lparr>cr_room_id = room_id, cr_players = [], cr_state = Lobby, cr_max_players = fst a,
                  cr_created_at = snd a\<rparr>
      in (room_id, m\<lparr>cr_next_id := cr_next_id m + 1, cr_rooms := bm_insert room_id room (cr_rooms m)\<rparr>))"

definition cdn_set_room :: "u64 \<Rightarrow> CdnRoom \<Rightarrow> CdnRoomManager \<Rightarrow> CdnRoomManager" where
  "cdn_set_room room_id room m = m\<lparr>cr_rooms := bm_update room_id (\<lambda>_. room) (cr_rooms m)\<rparr>"

definition cdn_join_room :: "u64 \<Rightarrow> u64 \<Rightarrow> CdnRoomManager \<Rightarrow> (CdnRoomError + unit) \<times> CdnRoomManager" where
  "cdn_join_room room_id player_id m =
     (case bm_get (cr_rooms m) room_id of
        None \<Rightarrow> (Inl RoomNotFound, m)
      | Some room \<Rightarrow>
          if length (cr_players room) \<ge> cr_max_players room then (Inl RoomFull, m)
          else (Inr (), cdn_set_room room_id (room\<lparr>cr_players := cr_players room @ [player_id]\<rparr>) m))"

text \<open>Only the first entry of the player is removed.\<close>

definition cdn_leave_room :: "u64 \<Rightarrow> u64 \<Rightarrow> CdnRoomManager \<Rightarrow> (CdnRoomError + unit) \<times> CdnRoomManager" where
  "cdn_leave_room room_id player_id m =
     (case bm_get (cr_rooms m) room_id of
        None \<Rightarrow> (Inl RoomNotFound, m)
      | Some room \<Rightarrow>
          if player_id \<notin> set (cr_players room) then (Inl PlayerNotInRoom, m)
          else (Inr (), cdn_set_room room_id
                  (room\<lparr>cr_players := remove1 player_id (cr_players room)\<rparr>) m))"

definition cdn_start_room :: "u64 \<Rightarrow> CdnRoomManager \<Rightarrow> (CdnRoomError + unit) \<times> CdnRoomManager" where
  "cdn_start_room room_id m =
     (case bm_get (cr_rooms m) room_id of
        None \<Rightarrow> (Inl RoomNotFound, m)
      | Some room \<Rightarrow>
          if cr_state room \<noteq> Lobby then (Inl (InvalidStateTransition (cr_state room) ''Lobby''), m)
          else (Inr (), cdn_set_room room_id (room\<lparr>cr_state := InGame\<rparr>) m))"

definition cdn_finish_room :: "u64 \<Rightarrow> CdnRoomManager \<Rightarrow> (CdnRoomError + unit) \<times> CdnRoomManager" where
  "cdn_finish_room room_id m =
     (case bm_get (cr_rooms m) room_id of
        None \<Rightarrow> (Inl RoomNotFound, m)
      | Some room \<Rightarrow>
          if cr_state room \<noteq> InGame then (Inl (InvalidStateTransition (cr_state room) ''InGame''), m)
          else (Inr (), cdn_set_room room_id (room\<lparr>cr_state := CdnFinished\<rparr>) m))"

definition cdn_remove_room :: "u64 \<Rightarrow> CdnRoomManager \<Rightarrow> (CdnRoomError + unit) \<times> CdnRoomManager" where
  "cdn_remove_room room_id m =
     (case bm_get (cr_rooms m) room_id of
        None \<Rightarrow> (Inl RoomNotFound, m)
      | Some _ \<Rightarrow> (Inr (), m\<lparr>cr_rooms := bm_remove room_id (cr_rooms m)\<rparr>))"

definition cdn_list_rooms :: "((u64 \<times> CdnRoom) list \<Rightarrow> (u64 \<times> CdnRoom) list) \<Rightarrow> CdnRoomManager \<Rightarrow> CdnRoom list" where
  "cdn_list_rooms iter m = map snd (iter (cr_rooms m))"

fun cdn_room_step :: "room_event \<Rightarrow> CdnRoomManager \<Rightarrow> CdnRoomManager" where
  "cdn_room_step (Join r c) m = snd (cdn_join_room r c m)"
| "cdn_room_step (Leave r c) m = snd (cdn_leave_room r c m)"
| "cdn_room_step (Start r) m = snd (cdn_start_room r m)"
| "cdn_room_step (Finish r) m = snd (cdn_finish_room r m)"
| "cdn_room_step (Remove r) m = snd (cdn_remove_room r m)"

lemmas cdn_room_defs = cdn_join_room_def cdn_leave_room_def cdn_start_room_def cdn_finish_room_def
  cdn_remove_room_def cdn_set_room_def

lemma keys_cdn_room_step: "dom (bm_get (cr_rooms (cdn_room_step e m))) \<subseteq> dom (bm_get (cr_rooms m))"
  by (cases e) (auto simp: cdn_room_defs bm_get_update bm_get_remove split: option.splits if_splits)

lemma next_cdn_room_step: "cr_next_id (cdn_room_step e m) = cr_next_id m"
  by (cases e) (auto simp: cdn_room_defs split: option.splits)

interpretation cdn_rooms: id_allocator "\<lambda>m. dom (bm_get (cr_rooms m))" cr_next_id
    cdn_create_room cdn_room_step
  by unfold_locales
    (simp_all add: cdn_create_room_def Let_def bm_get_insert keys_cdn_room_step next_cdn_room_step)

text \<open>Unlike the gateway's, a room of the update server can be joined in any state.\<close>

lemma cdn_join_in_game:
  "bm_get (cr_rooms m) k = Some r \<Longrightarrow> length (cr_players r) < cr_max_players r \<Longrightarrow>
     fst (cdn_join_room k p m) = Inr ()"
  by (simp add: cdn_join_room_def)

end
