(* ===== verification/Script_Limits.thy ===== *)
theory Script_Limits
  imports Script_Manager Fifo_Window Id_Allocator
begin

text \<open>
  Limits and bookkeeping of the script runtime (\<^verbatim>\<open>engine/vm_runtime/src\<close>: \<open>ops_cost.rs\<close>,
  \<open>performance.rs\<close>, \<open>handle_registry.rs\<close>): what a call of the bridge costs and the budget it is taken
  from, the operation history of the last sixty frames, the per-script counters, disabling after repeated
  timeouts, and the lifetime of effect and sound handles. Execution times are \<open>f64\<close> values: their type
  and addition are parameters.
\<close>

section \<open>Operation budget\<close>

definition cost_for :: "string \<Rightarrow> u64" where
  "cost_for api_name =
     (if api_name = ''spawn_entity'' then 50
      else if api_name = ''despawn_entity'' then 30
      else if api_name \<in> {''set_transform'', ''set_rotation'', ''set_scale''} then 5
      else if api_name = ''set_visibility'' then 3
      else if api_name \<in> {''play_vfx'', ''play_sound'', ''play_sound_at''} then 10
      else if api_name \<in> {''stop_vfx'', ''stop_sound''} then 5
      else if api_name \<in> {''get_position'', ''get_entity_state''} then 10
      else if api_name \<in> {''get_local_player_id'', ''get_frame_number'', ''get_delta_time''} then 2
      else if api_name \<in> {''update_hud'', ''show_dialog'', ''hide_dialog''} then 5
      else if api_name \<in> {''set_health_bar'', ''show_damage_number'', ''show_toast''} then 5
      else if api_name \<in> {''play_animation'', ''play_animation_once'', ''stop_animation''} then 5
      else if api_name = ''blend_animation'' then 8
      else if api_name = ''send_prediction'' then 15
      else if api_name = ''request_state'' then 10
      else if api_name = ''camera_shake'' then 10
      else if api_name = ''camera_push_override'' then 8
      else if api_name = ''camera_pop_override'' then 3
      else if api_name \<in> {''camera_clear_overrides'', ''camera_clear_shakes''} then 5
      else 1)"

definition DEFAULT_BUDGET :: u64 where "DEFAULT_BUDGET = 50000"

record OpsTracker =
  ot_remaining :: u64
  ot_limit :: u64

definition ops_tracker_new :: OpsTracker where
  "ops_tracker_new = \<lparr>ot_remaining = DEFAULT_BUDGET, ot_limit = DEFAULT_BUDGET\<rparr>"

definition ops_with_limit :: "u64 \<Rightarrow> OpsTracker" where
  "ops_with_limit limit = \<lparr>ot_remaining = limit, ot_limit = limit\<rparr>"

definition ops_deduct :: "u64 \<Rightarrow> OpsTracker \<Rightarrow> (string + unit) \<times> OpsTracker" where
  "ops_deduct cost t =
     (if ot_remaining t \<ge> cost then (Inr (), t\<lparr>ot_remaining := ot_remaining t - cost\<rparr>)
      else (Inl (''ops budget exceeded: remaining='' @ decimal (unat (ot_remaining t))
              @ '', cost='' @ decimal (unat cost)), t))"

definition ops_reset :: "OpsTracker \<Rightarrow> OpsTracker" where
  "ops_reset t = t\<lparr>ot_remaining := ot_limit t\<rparr>"

text \<open>A sequence of charges: which are granted.\<close>

fun granted :: "u64 list \<Rightarrow> OpsTracker \<Rightarrow> u64 list \<times> OpsTracker" where
  "granted [] t = ([], t)"
| "granted (c # cs) t =
     (case ops_deduct c t of
        (Inl _, t) \<Rightarrow> granted cs t
      | (Inr _, t) \<Rightarrow> (case granted cs t of (g, t) \<Rightarrow> (c # g, t)))"

lemma granted_total:
  "sum_list (map unat (fst (granted cs t))) + unat (ot_remaining (snd (granted cs t))) = unat (ot_remaining t)
   \<and> ot_limit (snd (granted cs t)) = ot_limit t"
proof (induction cs arbitrary: t)
  case (Cons c cs)
  show ?case
  proof (cases "c \<le> ot_remaining t")
    case True
    have "unat c \<le> unat (ot_remaining t)" using True by (simp add: word_le_nat_alt)
    moreover have "unat (ot_remaining t - c) = unat (ot_remaining t) - unat c" using unat_sub [OF True] .
    moreover note Cons.IH [of "t\<lparr>ot_remaining := ot_remaining t - c\<rparr>"]
    ultimately show ?thesis using True by (auto simp: ops_deduct_def case_prod_unfold)
  next
    case False
    then show ?thesis using Cons.IH [of t] by (simp add: ops_deduct_def)
  qed
qed simp

section \<open>Operation history\<close>

record 'f FrameOpsEntry =
  fe_frame :: u64
  fe_per_script :: "(string \<times> u64 \<times> u64 \<times> 'f) list"
  fe_total_rhai_ops :: u64
  fe_total_bridge_ops :: u64
  fe_time_ms :: 'f

definition METRIC_CAPACITY :: nat where "METRIC_CAPACITY = 60"

type_synonym 'f FrameOpsMetric = "'f FrameOpsEntry list"

definition metric_push :: "'f FrameOpsEntry \<Rightarrow> 'f FrameOpsMetric \<Rightarrow> 'f FrameOpsMetric" where
  "metric_push e history =
     (if length history \<ge> METRIC_CAPACITY then tl history else history) @ [e]"

definition metric_record ::
  "('f \<Rightarrow> 'f \<Rightarrow> 'f) \<Rightarrow> u64 \<Rightarrow> string \<Rightarrow> u64 \<Rightarrow> u64 \<Rightarrow> 'f \<Rightarrow> 'f FrameOpsMetric \<Rightarrow> 'f FrameOpsMetric" where
  "metric_record fadd frame script_id rhai_ops bridge_ops time_ms history =
     (if history \<noteq> [] \<and> fe_frame (last history) = frame
      then let e = last history
           in butlast history @
                [e\<lparr>fe_per_script := fe_per_script e @ [(script_id, rhai_ops, bridge_ops, time_ms)],
                   fe_total_rhai_ops := fe_total_rhai_ops e + rhai_ops,
                   fe_total_bridge_ops := fe_total_bridge_ops e + bridge_ops,
                   fe_time_ms := fadd (fe_time_ms e) time_ms\<rparr>]
      else metric_push
             \<lparr>fe_frame = frame, fe_per_script = [(script_id, rhai_ops, bridge_ops, time_ms)],
              fe_total_rhai_ops = rhai_ops, fe_total_bridge_ops = bridge_ops, fe_time_ms = time_ms\<rparr> history)"

definition metric_total_rhai_ops :: "'f FrameOpsMetric \<Rightarrow> u64" where
  "metric_total_rhai_ops history = (if history = [] then 0 else fe_total_rhai_ops (last history))"

definition metric_history :: "nat \<Rightarrow> 'f FrameOpsMetric \<Rightarrow> 'f FrameOpsEntry list" where
  "metric_history n history = drop (length history - n) history"

definition metric_clear :: "'f FrameOpsMetric \<Rightarrow> 'f FrameOpsMetric" where
  "metric_clear history = []"

interpretation metric: bounded_window "\<lambda>h. h" "\<lambda>_. METRIC_CAPACITY" metric_push
    "\<lambda>h. length h \<le> METRIC_CAPACITY"
  by unfold_locales (auto simp: metric_push_def METRIC_CAPACITY_def)

text \<open>The history never holds more than sixty frames, neighbouring entries are of different frames, and the
  totals of an entry are the sums of its per-script figures.\<close>

definition entry_sums :: "'f FrameOpsEntry \<Rightarrow> bool" where
  "entry_sums e \<longleftrightarrow>
     fe_total_rhai_ops e = sum_list (map (\<lambda>(_, r, _, _). r) (fe_per_script e))
     \<and> fe_total_bridge_ops e = sum_list (map (\<lambda>(_, _, b, _). b) (fe_per_script e))"

definition metric_ok :: "'f FrameOpsMetric \<Rightarrow> bool" where
  "metric_ok h \<longleftrightarrow> length h \<le> METRIC_CAPACITY \<and> list_all entry_sums h
     \<and> successively (\<lambda>a b. fe_frame a \<noteq> fe_frame b) h"

lemma successively_tl: "successively R h \<Longrightarrow> successively R (tl h)"
  by (cases h) (auto simp: successively_Cons)

lemma metric_ok_record:
  assumes "metric_ok h"
  shows "metric_ok (metric_record fadd frame sid r b t h)"
proof (cases "h \<noteq> [] \<and> fe_frame (last h) = frame")
  case True
  then obtain xs e where h: "h = xs @ [e]" "fe_frame e = frame" by (metis append_butlast_last_id)
  with assms show ?thesis
    by (cases "xs = []") (auto simp: metric_record_def metric_ok_def entry_sums_def successively_append_iff)
next
  case False
  let ?e = "\<lparr>fe_frame = frame, fe_per_script = [(sid, r, b, t)], fe_total_rhai_ops = r,
    fe_total_bridge_ops = b, fe_time_ms = t\<rparr>"
  have rec: "metric_record fadd frame sid r b t h = metric_push ?e h"
    using False by (auto simp: metric_record_def)
  have e: "entry_sums ?e" by (simp add: entry_sums_def)
  have suc: "successively (\<lambda>a b. fe_frame a \<noteq> fe_frame b) (h' @ [?e])"
    if "h' = h \<or> h' = tl h" for h'
    using that assms False
    by (auto simp: metric_ok_def successively_append_iff successively_tl last_tl)
  show ?thesis
    unfolding rec using assms e suc metric.ok_put [of h ?e]
    by (cases h) (auto simp: metric_ok_def metric_push_def)
qed

section \<open>Diagnostics\<close>

record 'f DiagnosticsResource =
  dr_script_timeout_counts :: "(string, u32) btree"
  dr_script_error_counts :: "(string, u32) btree"
  dr_frame_ops_metric :: "'f FrameOpsMetric"
  dr_current_frame_exec_time_ms :: 'f
  dr_current_frame_rhai_ops :: u64

definition diagnostics_new :: "'f \<Rightarrow> 'f DiagnosticsResource" where
  "diagnostics_new zero =
     \<lparr>dr_script_timeout_counts = [], dr_script_error_counts = [], dr_frame_ops_metric = [],
      dr_current_frame_exec_time_ms = zero, dr_current_frame_rhai_ops = 0\<rparr>"

text \<open>\<open>*map.entry(k).or_insert(0) += 1\<close>.\<close>

definition bump :: "string \<Rightarrow> (string, u32) btree \<Rightarrow> (string, u32) btree" where
  "bump k t = bm_insert k ((case bm_get t k of None \<Rightarrow> 0 | Some n \<Rightarrow> n) + 1) t"

definition record_script_execution ::
  "('f \<Rightarrow> 'f \<Rightarrow> 'f) \<Rightarrow> u64 \<Rightarrow> string \<Rightarrow> u64 \<Rightarrow> u64 \<Rightarrow> 'f \<Rightarrow> 'f DiagnosticsResource \<Rightarrow> 'f DiagnosticsResource" where
  "record_script_execution fadd frame script_id rhai_ops bridge_ops time_ms d =
     d\<lparr>dr_frame_ops_metric := metric_record fadd frame script_id rhai_ops bridge_ops time_ms (dr_frame_ops_metric d),
       dr_current_frame_rhai_ops := dr_current_frame_rhai_ops d + rhai_ops,
       dr_current_frame_exec_time_ms := fadd (dr_current_frame_exec_time_ms d) time_ms\<rparr>"

definition diag_record_timeout :: "string \<Rightarrow> 'f DiagnosticsResource \<Rightarrow> 'f DiagnosticsResource" where
  "diag_record_timeout script_id d = d\<lparr>dr_script_timeout_counts := bump script_id (dr_script_timeout_counts d)\<rparr>"

definition diag_record_error :: "string \<Rightarrow> 'f DiagnosticsResource \<Rightarrow> 'f DiagnosticsResource" where
  "diag_record_error script_id d = d\<lparr>dr_script_error_counts := bump script_id (dr_script_error_counts d)\<rparr>"

definition diag_reset_frame :: "'f \<Rightarrow> 'f DiagnosticsResource \<Rightarrow> 'f DiagnosticsResource" where
  "diag_reset_frame zero d = d\<lparr>dr_current_frame_exec_time_ms := zero, dr_current_frame_rhai_ops := 0\<rparr>"

definition recent_history :: "nat \<Rightarrow> 'f DiagnosticsResource \<Rightarrow> 'f FrameOpsEntry list" where
  "recent_history n d = metric_history n (dr_frame_ops_metric d)"

text \<open>The two clock readings around the call and the conversion to milliseconds are arguments.\<close>

definition record_script_timing ::
  "('f \<Rightarrow> 'f \<Rightarrow> 'f) \<Rightarrow> (u64 \<Rightarrow> 'f) \<Rightarrow> 'f DiagnosticsResource \<Rightarrow> u64 \<Rightarrow> string \<Rightarrow> u64 \<Rightarrow> u64
     \<Rightarrow> u64 \<times> u64 \<times> bool \<times> bool \<Rightarrow> 'f \<times> 'f DiagnosticsResource" where
  "record_script_timing fadd to_ms d frame script_id start stop result =
     (case result of (rhai_ops, bridge_ops, timed_out, had_error) \<Rightarrow>
        let elapsed_ms = to_ms (saturating_sub stop start);
            d = record_script_execution fadd frame script_id rhai_ops bridge_ops elapsed_ms d;
            d = (if timed_out then diag_record_timeout script_id d else d);
            d = (if had_error then diag_record_error script_id d else d)
        in (elapsed_ms, d))"

section \<open>Disabling after repeated timeouts\<close>

datatype AutoDisableState = AutoActive | AutoDisabled DisableReason u64

record AutoDisableManager =
  ad_timeout_counters :: "(string, u32) btree"
  ad_script_statuses :: "(string, AutoDisableState) btree"
  ad_disable_threshold :: u32

definition DEFAULT_DISABLE_THRESHOLD :: u32 where "DEFAULT_DISABLE_THRESHOLD = 10"

definition auto_disable_new :: AutoDisableManager where
  "auto_disable_new =
     \<lparr>ad_timeout_counters = [], ad_script_statuses = [], ad_disable_threshold = DEFAULT_DISABLE_THRESHOLD\<rparr>"

definition auto_status :: "string \<Rightarrow> AutoDisableManager \<Rightarrow> AutoDisableState" where
  "auto_status script_id a =
     (case bm_get (ad_script_statuses a) script_id of None \<Rightarrow> AutoActive | Some s \<Rightarrow> s)"

definition auto_is_disabled :: "string \<Rightarrow> AutoDisableManager \<Rightarrow> bool" where
  "auto_is_disabled script_id a \<longleftrightarrow> (case auto_status script_id a of AutoDisabled _ _ \<Rightarrow> True | _ \<Rightarrow> False)"

definition auto_record_timeout ::
  "string \<Rightarrow> DisableReason \<Rightarrow> u64 \<Rightarrow> AutoDisableManager \<Rightarrow> bool \<times> AutoDisableManager" where
  "auto_record_timeout script_id reason tick a =
     (if auto_is_disabled script_id a then (False, a)
      else
        let counter = (case bm_get (ad_timeout_counters a) script_id of None \<Rightarrow> 0 | Some n \<Rightarrow> n) + 1;
            a = a\<lparr>ad_timeout_counters := bm_insert script_id counter (ad_timeout_counters a)\<rparr>
        in if counter \<ge> ad_disable_threshold a
           then (True, a\<lparr>ad_script_statuses := bm_insert script_id (AutoDisabled reason tick) (ad_script_statuses a)\<rparr>)
           else (False, a))"

definition auto_record_success :: "string \<Rightarrow> AutoDisableManager \<Rightarrow> AutoDisableManager" where
  "auto_record_success script_id a =
     (if auto_is_disabled script_id a then a
      else a\<lparr>ad_timeout_counters := bm_insert script_id 0 (ad_timeout_counters a)\<rparr>)"

definition auto_record_skipped :: "string \<Rightarrow> AutoDisableManager \<Rightarrow> AutoDisableManager" where
  "auto_record_skipped script_id a = a"

definition auto_re_enable :: "string \<Rightarrow> AutoDisableManager \<Rightarrow> AutoDisableManager" where
  "auto_re_enable script_id a =
     a\<lparr>ad_script_statuses := bm_insert script_id AutoActive (ad_script_statuses a),
       ad_timeout_counters := bm_insert script_id 0 (ad_timeout_counters a)\<rparr>"

text \<open>Two parts of the runtime disable scripts after repeated timeouts: the script manager in its table and
  this manager in its own. They agree: given the same results, success and timeouts and skipped calls and
  other errors, both call the script disabled or both do not.\<close>

definition auto_result :: "string \<Rightarrow> u64 \<Rightarrow> ScriptError + unit \<Rightarrow> AutoDisableManager \<Rightarrow> AutoDisableManager" where
  "auto_result script_id tick r a =
     (case r of
        Inr _ \<Rightarrow> auto_record_success script_id a
      | Inl e \<Rightarrow>
          if is_strike (Inl e) then snd (auto_record_timeout script_id ReasonTimeoutDisable tick a)
          else if e = BudgetExhausted then auto_record_skipped script_id a
          else a)"

definition counter_of :: "string \<Rightarrow> AutoDisableManager \<Rightarrow> u32" where
  "counter_of i a = (case bm_get (ad_timeout_counters a) i of None \<Rightarrow> 0 | Some n \<Rightarrow> n)"

lemma auto_result_state:
  fixes a :: AutoDisableManager and i :: string and tick :: u64 and r :: "ScriptError + unit"
  assumes "ad_disable_threshold a = AUTO_DISABLE_THRESHOLD"
  defines "a' \<equiv> auto_result i tick r a"
  shows "ad_disable_threshold a' = AUTO_DISABLE_THRESHOLD"
    and "auto_is_disabled i a' \<longleftrightarrow> auto_is_disabled i a
      \<or> is_strike r \<and> counter_of i a + 1 \<ge> AUTO_DISABLE_THRESHOLD"
    and "\<not> auto_is_disabled i a \<Longrightarrow> counter_of i a' =
      (if r = Inr () then 0 else if is_strike r then counter_of i a + 1 else counter_of i a)"
  using assms unfolding a'_def
  by (cases r; auto simp: auto_result_def auto_record_success_def auto_record_timeout_def auto_record_skipped_def
      auto_is_disabled_def auto_status_def counter_of_def Let_def bm_get_insert split: option.splits)+

lemma auto_disable_struck_out:
  fixes i :: string and tick :: u64
  assumes "list_all (\<lambda>r. \<not> is_scope_error r) rs"
  defines "a \<equiv> fold (auto_result i tick) rs auto_disable_new"
  shows "ad_disable_threshold a = AUTO_DISABLE_THRESHOLD \<and> (auto_is_disabled i a \<longleftrightarrow> struck_out rs)
    \<and> (\<not> struck_out rs \<longrightarrow> unat (counter_of i a) = strikes rs \<and> strikes rs < 10)"
  using assms(1) unfolding a_def
proof (induction rs rule: rev_induct)
  case Nil
  then show ?case
    by (simp add: auto_is_disabled_def auto_status_def auto_disable_new_def counter_of_def struck_out_def
        DEFAULT_DISABLE_THRESHOLD_def AUTO_DISABLE_THRESHOLD_def)
next
  case (snoc r rs)
  let ?a = "fold (auto_result i tick) rs auto_disable_new"
  have IH: "ad_disable_threshold ?a = AUTO_DISABLE_THRESHOLD" "auto_is_disabled i ?a \<longleftrightarrow> struck_out rs"
    "\<not> struck_out rs \<Longrightarrow> unat (counter_of i ?a) = strikes rs \<and> strikes rs < 10"
    using snoc by auto
  note a = auto_result_state [OF IH(1), of i tick r]
  show ?case
  proof (cases "struck_out rs")
    case True
    then show ?thesis using a(1,2) IH(2) by (simp add: struck_out_snoc)
  next
    case False
    have "unat (counter_of i ?a + 1) = Suc (strikes rs)" using IH(3) [OF False] by (simp add: unat_word_ariths)
    then have "counter_of i ?a + 1 \<ge> AUTO_DISABLE_THRESHOLD \<longleftrightarrow> Suc (strikes rs) \<ge> 10"
      "unat (counter_of i ?a + 1) = Suc (strikes rs)"
      by (simp_all add: word_le_nat_alt AUTO_DISABLE_THRESHOLD_def)
    then show ?thesis
      using a IH(2) IH(3) [OF False] False snoc.prems by (cases r) (auto simp: struck_out_snoc)
  qed
qed

text \<open>The two mechanisms that disable failing scripts agree. Let the loops of any number of frames run over an active
  script with a clear count, none of whose calls breaks the limits on its variables (which only the script manager knows).
  Fed with the results of its calls in their order (successes, timeouts, operation limits, skipped calls, runtime errors), the
  automatic disabling of the performance module considers it disabled exactly if the script manager does.\<close>

lemma auto_disable_equivalent:
  assumes "manager_ok m" "bm_get (sm_scripts m) key = Some s" "ms_state s = Active" "ms_consecutive_error_count s = 0"
    and "run_loops_logged ls (c, []) m = ((c', log), m')"
    and "list_all (\<lambda>r. \<not> is_scope_error r) (results_of (snd key) log)"
  shows "\<exists>s'. bm_get (sm_scripts m') key = Some s'
    \<and> (is_disabled_state (ms_state s') \<longleftrightarrow>
         auto_is_disabled (snd key) (fold (auto_result (snd key) tick) (results_of (snd key) log) auto_disable_new))"
proof -
  have "counted key (results_of (snd key) log) m'"
    using counted_from_start [OF assms(1-4), of ls c] assms(5) by (metis prod.inject)
  then show ?thesis using auto_disable_struck_out [OF assms(6)] by (auto simp: counted_def)
qed

section \<open>Handles\<close>

record HandleEntry =
  he_created_frame :: u64
  he_max_lifetime_frames :: u64
  he_valid :: bool

record HandleRegistry =
  hr_effects :: "(u32, HandleEntry) btree"
  hr_sounds :: "(u32, HandleEntry) btree"
  hr_next_id :: u32

definition DEFAULT_MAX_LIFETIME_FRAMES :: u64 where "DEFAULT_MAX_LIFETIME_FRAMES = 300"

definition handle_registry_new :: HandleRegistry where
  "handle_registry_new = \<lparr>hr_effects = [], hr_sounds = [], hr_next_id = 0\<rparr>"

definition fresh_entry :: "u64 \<Rightarrow> HandleEntry" where
  "fresh_entry frame =
     \<lparr>he_created_frame = frame, he_max_lifetime_frames = DEFAULT_MAX_LIFETIME_FRAMES, he_valid = True\<rparr>"

definition create_effect :: "u64 \<Rightarrow> HandleRegistry \<Rightarrow> u32 \<times> HandleRegistry" where
  "create_effect frame h =
     (hr_next_id h,
      h\<lparr>hr_next_id := hr_next_id h + 1, hr_effects := bm_insert (hr_next_id h) (fresh_entry frame) (hr_effects h)\<rparr>)"

definition create_sound :: "u64 \<Rightarrow> HandleRegistry \<Rightarrow> u32 \<times> HandleRegistry" where
  "create_sound frame h =
     (hr_next_id h,
      h\<lparr>hr_next_id := hr_next_id h + 1, hr_sounds := bm_insert (hr_next_id h) (fresh_entry frame) (hr_sounds h)\<rparr>)"

definition invalidate_effect :: "u32 \<Rightarrow> HandleRegistry \<Rightarrow> HandleRegistry" where
  "invalidate_effect i h = h\<lparr>hr_effects := bm_update i (\<lambda>e. e\<lparr>he_valid := False\<rparr>) (hr_effects h)\<rparr>"

definition invalidate_sound :: "u32 \<Rightarrow> HandleRegistry \<Rightarrow> HandleRegistry" where
  "invalidate_sound i h = h\<lparr>hr_sounds := bm_update i (\<lambda>e. e\<lparr>he_valid := False\<rparr>) (hr_sounds h)\<rparr>"

definition is_valid_effect :: "u32 \<Rightarrow> HandleRegistry \<Rightarrow> bool" where
  "is_valid_effect i h \<longleftrightarrow> (case bm_get (hr_effects h) i of None \<Rightarrow> False | Some e \<Rightarrow> he_valid e)"

definition is_valid_sound :: "u32 \<Rightarrow> HandleRegistry \<Rightarrow> bool" where
  "is_valid_sound i h \<longleftrightarrow> (case bm_get (hr_sounds h) i of None \<Rightarrow> False | Some e \<Rightarrow> he_valid e)"

definition entry_alive :: "u64 \<Rightarrow> HandleEntry \<Rightarrow> bool" where
  "entry_alive current_frame e \<longleftrightarrow>
     he_valid e \<and> current_frame - he_created_frame e < he_max_lifetime_frames e"

definition sweep_expired :: "u64 \<Rightarrow> HandleRegistry \<Rightarrow> HandleRegistry" where
  "sweep_expired current_frame h =
     h\<lparr>hr_effects := bm_retain (\<lambda>_ e. entry_alive current_frame e) (hr_effects h),
       hr_sounds := bm_retain (\<lambda>_ e. entry_alive current_frame e) (hr_sounds h)\<rparr>"

definition effect_count :: "HandleRegistry \<Rightarrow> nat" where "effect_count h = length (hr_effects h)"
definition sound_count :: "HandleRegistry \<Rightarrow> nat" where "sound_count h = length (hr_sounds h)"

text \<open>The periodic clean-up of the bridge (\<^verbatim>\<open>engine/vm_bevy_bridge/src/handle_sweep.rs\<close>).\<close>

definition sweep_handle_registry :: "u64 \<Rightarrow> HandleRegistry \<Rightarrow> HandleRegistry" where
  "sweep_handle_registry frame h = (if frame mod 60 = 0 then sweep_expired frame h else h)"

datatype handle_event = StopEffect u32 | StopSound u32 | Sweep u64

fun handle_step :: "handle_event \<Rightarrow> HandleRegistry \<Rightarrow> HandleRegistry" where
  "handle_step (StopEffect i) h = invalidate_effect i h"
| "handle_step (StopSound i) h = invalidate_sound i h"
| "handle_step (Sweep f) h = sweep_handle_registry f h"

text \<open>Both kinds of handles come from one counter.\<close>

definition create_handle :: "bool \<times> u64 \<Rightarrow> HandleRegistry \<Rightarrow> u32 \<times> HandleRegistry" where
  "create_handle a = (if fst a then create_effect (snd a) else create_sound (snd a))"

definition live_handles :: "HandleRegistry \<Rightarrow> u32 set" where
  "live_handles h = dom (bm_get (hr_effects h)) \<union> dom (bm_get (hr_sounds h))"

interpretation handles: id_allocator live_handles hr_next_id create_handle handle_step
proof unfold_locales
  fix s e
  have retain: "\<exists>z. bm_get t x = Some z" if "bm_get (bm_retain f t) x = Some y"
    for f x y and t :: "(u32, HandleEntry) btree"
    using map_of_SomeD [OF that] weak_map_of_SomeI [of x y t] by (auto simp: bm_retain_def)
  show "live_handles (handle_step e s) \<subseteq> live_handles s"
    by (cases e) (auto dest: retain simp: live_handles_def invalidate_effect_def invalidate_sound_def
        bm_get_update sweep_handle_registry_def sweep_expired_def split: if_splits option.splits)
  show "hr_next_id (handle_step e s) = hr_next_id s"
    by (cases e) (simp_all add: invalidate_effect_def invalidate_sound_def sweep_handle_registry_def sweep_expired_def)
qed (auto simp: create_handle_def create_effect_def create_sound_def live_handles_def bm_get_insert)

text \<open>What ends an effect handle made in frame \<open>f\<close>: stopping it, or a sweep (every sixtieth frame) once it
  has lived three hundred frames.\<close>

definition ends_effect :: "u64 \<Rightarrow> u32 \<Rightarrow> handle_event \<Rightarrow> bool" where
  "ends_effect f i e \<longleftrightarrow>
     (case e of
        StopEffect j \<Rightarrow> j = i
      | StopSound _ \<Rightarrow> False
      | Sweep g \<Rightarrow> g mod 60 = 0 \<and> g - f \<ge> DEFAULT_MAX_LIFETIME_FRAMES)"

lemma handle_step_effect:
  assumes "bm_wf (hr_effects h)"
  shows "bm_wf (hr_effects (handle_step e h))"
    and "bm_get (hr_effects h) i = Some (fresh_entry f) \<Longrightarrow> \<not> ends_effect f i e \<Longrightarrow>
      bm_get (hr_effects (handle_step e h)) i = Some (fresh_entry f)"
    and "bm_get (hr_effects h) i = Some (fresh_entry f) \<Longrightarrow> ends_effect f i e \<Longrightarrow>
      \<not> is_valid_effect i (handle_step e h)"
    and "\<not> is_valid_effect i h \<Longrightarrow> \<not> is_valid_effect i (handle_step e h)"
  using assms
  by (cases e; auto simp: invalidate_effect_def invalidate_sound_def sweep_handle_registry_def sweep_expired_def
      bm_get_update bm_get_retain is_valid_effect_def ends_effect_def fresh_entry_def entry_alive_def not_less
      split: option.splits if_splits)+

lemma handle_lifetime_fold:
  assumes "bm_wf (hr_effects h)"
  shows "(bm_get (hr_effects h) i = Some (fresh_entry f) \<longrightarrow>
      (is_valid_effect i (fold handle_step es h) \<longleftrightarrow> \<not> list_ex (ends_effect f i) es))
    \<and> (\<not> is_valid_effect i h \<longrightarrow> \<not> is_valid_effect i (fold handle_step es h))"
  using assms
proof (induction es arbitrary: h)
  case Nil
  then show ?case by (simp add: is_valid_effect_def fresh_entry_def)
next
  case (Cons e es)
  note step = handle_step_effect [OF Cons.prems]
  show ?case
    using Cons.IH [OF step(1)] step(2,3,4) [of i] by (cases "ends_effect f i e") auto
qed

text \<open>The life of an effect handle is exactly the documented one. A handle made in frame \<open>f\<close> stays valid
  through any sequence of stops and periodic sweeps until it is itself stopped or a sweep runs in a frame
  divisible by sixty that is at least three hundred frames later, and from then on it stays invalid.\<close>

lemma handle_lifetime:
  assumes "bm_wf (hr_effects h)" "create_effect f h = (i, h')"
  shows "is_valid_effect i (fold handle_step es h') \<longleftrightarrow> \<not> list_ex (ends_effect f i) es"
proof -
  have h': "i = hr_next_id h" "hr_effects h' = bm_insert i (fresh_entry f) (hr_effects h)"
    using assms(2) by (auto simp: create_effect_def)
  then have "bm_wf (hr_effects h')" "bm_get (hr_effects h') i = Some (fresh_entry f)"
    using assms(1) by (simp_all add: bm_wf_insert bm_get_insert)
  then show ?thesis using handle_lifetime_fold [of h' i f es] by blast
qed

lemma handle_lifetime_example:
  "is_valid_effect 0 (fold handle_step [Sweep 120, StopEffect 3, Sweep 360]
     (snd (create_effect 61 handle_registry_new)))"
  using handle_lifetime [of handle_registry_new 61 0 "snd (create_effect 61 handle_registry_new)"
      "[Sweep 120, StopEffect 3, Sweep 360]"]
  by (simp add: handle_registry_new_def create_effect_def ends_effect_def DEFAULT_MAX_LIFETIME_FRAMES_def)

end
