(* ===== verification/Assets.thy ===== *)
theory Assets
  imports Ordered_Map "HOL-Library.Multiset"
begin

text \<open>
  The asset manifest (\<^verbatim>\<open>engine/asset_manifest\<close>) and the download queue of incremental updates
  (\<^verbatim>\<open>engine/ota\<close>). RON parsing and Unicode lower-casing are parameters. An out-of-bounds or
  off-boundary string slice, where the code panics, is \<open>None\<close>.
\<close>

section \<open>Manifest\<close>

type_synonym AssetId = string

datatype AssetFormat =
  Png | WebP | Glb | Gltf | Ogg | Wav | Ttf | Otf | Ron | Ftl | WebM | Mp4 | OtherFormat string

definition from_extension :: "(string \<Rightarrow> string) \<Rightarrow> string \<Rightarrow> AssetFormat" where
  "from_extension to_lowercase ext =
     (let e = to_lowercase ext
      in if e = ''png'' then Png
         else if e = ''webp'' then WebP
         else if e = ''glb'' then Glb
         else if e = ''gltf'' then Gltf
         else if e = ''ogg'' then Ogg
         else if e = ''wav'' then Wav
         else if e = ''ttf'' then Ttf
         else if e = ''otf'' then Otf
         else if e = ''ron'' then Ron
         else if e = ''ftl'' then Ftl
         else if e = ''webm'' then WebM
         else if e = ''mp4'' then Mp4
         else OtherFormat e)"

definition is_primary :: "AssetFormat \<Rightarrow> bool" where
  "is_primary f \<longleftrightarrow> f \<in> {Png, WebP, Glb, Gltf, Ogg, Wav, Ttf, Otf, WebM, Mp4}"

record AssetEntry =
  ae_path :: string
  ae_format :: AssetFormat
  ae_size_bytes :: u64
  ae_blake3 :: string
  ae_blake3_bytes :: bytes
  ae_encrypted :: bool
  ae_sidecars :: "string list"
  ae_tags :: "string list"

record AssetManifest =
  am_version :: string
  am_generated_at :: string
  am_assets :: "(AssetId, AssetEntry) btree"

text \<open>The errors; \<open>'e\<close> is the parser's error type.\<close>

datatype 'e ManifestError =
    ManifestParseError 'e
  | ManifestVersionMismatch string string
  | InvalidBlake3 AssetId string
  | DuplicateAssetId string
  | ManifestMissingFile string
  | ManifestIoError string

definition SUPPORTED_VERSION :: string where "SUPPORTED_VERSION = ''1.0.0''"

definition manifest_empty :: AssetManifest where
  "manifest_empty = \<lparr>am_version = ''1.0.0'', am_generated_at = '''', am_assets = []\<rparr>"

definition manifest_get :: "AssetManifest \<Rightarrow> AssetId \<Rightarrow> AssetEntry option" where
  "manifest_get m asset = bm_get (am_assets m) asset"

definition query_by_tag :: "AssetManifest \<Rightarrow> string \<Rightarrow> AssetId list" where
  "query_by_tag m tag = map fst (filter (\<lambda>(_, entry). tag \<in> set (ae_tags entry)) (am_assets m))"

definition all_ids :: "AssetManifest \<Rightarrow> AssetId list" where
  "all_ids m = map fst (am_assets m)"

section \<open>Hexadecimal\<close>

text \<open>\<open>char::to_digit(16)\<close>.\<close>

definition hex_digit :: "char \<Rightarrow> nat option" where
  "hex_digit c =
     (let n = of_char c :: nat
      in if 48 \<le> n \<and> n \<le> 57 then Some (n - 48)
         else if 97 \<le> n \<and> n \<le> 102 then Some (n - 87)
         else if 65 \<le> n \<and> n \<le> 70 then Some (n - 55)
         else None)"

text \<open>\<open>u8::from_str_radix(src, 16)\<close>: one leading plus sign is accepted.\<close>

fun radix_digits :: "nat \<Rightarrow> string \<Rightarrow> string + u8" where
  "radix_digits acc [] = Inr (of_nat acc)"
| "radix_digits acc (c # cs) =
     (case hex_digit c of
        None \<Rightarrow> Inl ''invalid digit found in string''
      | Some d \<Rightarrow>
          if acc * 16 + d > 255 then Inl ''number too large to fit in target type''
          else radix_digits (acc * 16 + d) cs)"

definition u8_from_str_radix_16 :: "string \<Rightarrow> string + u8" where
  "u8_from_str_radix_16 src =
     (if src = [] then Inl ''cannot parse integer from empty string''
      else if src = ''+'' \<or> src = ''-'' then Inl ''invalid digit found in string''
      else if hd src = CHR ''+'' then radix_digits 0 (tl src)
      else radix_digits 0 src)"

text \<open>A slice \<open>&s[a..b]\<close> of a string panics unless both ends fall between characters.\<close>

definition is_char_boundary :: "string \<Rightarrow> nat \<Rightarrow> bool" where
  "is_char_boundary s i \<longleftrightarrow>
     i = 0 \<or> i = length s \<or> (i < length s \<and> \<not> (128 \<le> (of_char (s ! i) :: nat) \<and> (of_char (s ! i) :: nat) < 192))"

definition str_slice :: "string \<Rightarrow> nat \<Rightarrow> nat \<Rightarrow> string option" where
  "str_slice s a b =
     (if a \<le> b \<and> is_char_boundary s a \<and> is_char_boundary s b then Some (take (b - a) (drop a s)) else None)"

fun hex_loop :: "string \<Rightarrow> nat list \<Rightarrow> (string + bytes) option" where
  "hex_loop hex [] = Some (Inr [])"
| "hex_loop hex (i # is) =
     (case str_slice hex (i * 2) (i * 2 + 2) of
        None \<Rightarrow> None
      | Some digits \<Rightarrow>
          (case u8_from_str_radix_16 digits of
             Inl e \<Rightarrow> Some (Inl (''hex '' @ utf8 [0xE8, 0xA7, 0xA3, 0xE6, 0x9E, 0x90, 0xE5, 0xA4, 0xB1, 0xE6, 0x95, 0x97] @ '' at byte '' @ decimal i @ '': '' @ e))
           | Inr b \<Rightarrow> map_option (map_sum (\<lambda>e. e) ((#) b)) (hex_loop hex is)))"

definition hex_to_bytes :: "string \<Rightarrow> (string + bytes) option" where
  "hex_to_bytes hex =
     (if length hex \<noteq> 64 then Some (Inl (''hex '' @ utf8 [0xE9, 0x95, 0xB7, 0xE5, 0xBA, 0xA6, 0xE5, 0xBF, 0x85, 0xE9, 0xA0, 0x88, 0xE7, 0x82, 0xBA] @ '' 64'' @ utf8 [0xEF, 0xBC, 0x8C, 0xE5, 0xAF, 0xA6, 0xE9, 0x9A, 0x9B] @ '' '' @ decimal (length hex)))
      else hex_loop hex [0..<32])"

section \<open>Parsing a manifest\<close>

text \<open>\<open>s.matches(pat).count()\<close>: occurrences that do not overlap.\<close>

fun count_matches :: "string \<Rightarrow> string \<Rightarrow> nat" where
  "count_matches pat [] = 0"
| "count_matches pat (c # cs) =
     (if take (length pat) (c # cs) = pat then 1 + count_matches pat (drop (length pat - 1) cs)
      else count_matches pat cs)"

fun cache_hashes :: "(AssetId \<times> AssetEntry) list \<Rightarrow> ('e ManifestError + (AssetId \<times> AssetEntry) list) option" where
  "cache_hashes [] = Some (Inr [])"
| "cache_hashes ((asset, entry) # rest) =
     (if length (ae_blake3 entry) \<noteq> 64
      then Some (Inl (InvalidBlake3 asset
             (utf8 [0xE6, 0x9C, 0x9F, 0xE6, 0x9C, 0x9B] @ '' 64 '' @ utf8 [0xE5, 0xAD, 0x97, 0xE5, 0x85, 0x83] @ '' hex'' @ utf8 [0xEF, 0xBC, 0x8C, 0xE5, 0xAF, 0xA6, 0xE9, 0x9A, 0x9B] @ '' '' @ decimal (length (ae_blake3 entry)) @ '' '' @ utf8 [0xE5, 0xAD, 0x97, 0xE5, 0x85, 0x83])))
      else case hex_to_bytes (ae_blake3 entry) of
        None \<Rightarrow> None
      | Some (Inl e) \<Rightarrow> Some (Inl (InvalidBlake3 asset e))
      | Some (Inr bs) \<Rightarrow>
          map_option (map_sum (\<lambda>e. e) ((#) (asset, entry\<lparr>ae_blake3_bytes := bs\<rparr>))) (cache_hashes rest))"

definition parse_manifest ::
  "(string \<Rightarrow> 'e + AssetManifest) \<Rightarrow> string \<Rightarrow> ('e ManifestError + AssetManifest) option" where
  "parse_manifest from_ron ron_str =
     (case from_ron ron_str of
        Inl e \<Rightarrow> Some (Inl (ManifestParseError e))
      | Inr manifest \<Rightarrow>
          if am_version manifest \<noteq> SUPPORTED_VERSION
          then Some (Inl (ManifestVersionMismatch SUPPORTED_VERSION (am_version manifest)))
          else let entry_count = count_matches '': AssetEntry('' ron_str
            in if entry_count \<noteq> length (am_assets manifest)
               then Some (Inl (DuplicateAssetId
                 (''manifest '' @ utf8 [0xE5, 0x90, 0xAB, 0xE9, 0x87, 0x8D, 0xE8, 0xA4, 0x87, 0xE7, 0x9A, 0x84] @ '' Asset ID'' @ utf8 [0xEF, 0xBC, 0x88] @ ''RON '' @ utf8 [0xE5, 0x87, 0xBA, 0xE7, 0x8F, 0xBE] @ '' '' @ decimal entry_count
                  @ '' '' @ utf8 [0xE5, 0x80, 0x8B] @ '' entry'' @ utf8 [0xEF, 0xBC, 0x8C] @ ''BTreeMap '' @ utf8 [0xE5, 0x83, 0x85, 0xE4, 0xBF, 0x9D, 0xE7, 0x95, 0x99] @ '' '' @ decimal (length (am_assets manifest)) @ '' '' @ utf8 [0xE5, 0x80, 0x8B, 0xEF, 0xBC, 0x89])))
               else map_option (map_sum (\<lambda>e. e) (\<lambda>assets. manifest\<lparr>am_assets := assets\<rparr>))
                      (cache_hashes (am_assets manifest)))"

section \<open>Differences\<close>

record 'a ManifestDiff =
  md_added :: "'a list"
  md_updated :: "'a list"
  md_removed :: "'a list"

definition manifest_diff :: "AssetManifest \<Rightarrow> AssetManifest \<Rightarrow> AssetId ManifestDiff" where
  "manifest_diff old newer =
     \<lparr>md_added = map fst (filter (\<lambda>(asset, _). bm_get (am_assets old) asset = None) (am_assets newer)),
      md_updated = map fst (filter (\<lambda>(asset, new_entry).
         (case bm_get (am_assets old) asset of
            None \<Rightarrow> False
          | Some old_entry \<Rightarrow> ae_blake3_bytes old_entry \<noteq> ae_blake3_bytes new_entry)) (am_assets newer)),
      md_removed = filter (\<lambda>asset. bm_get (am_assets newer) asset = None) (map fst (am_assets old))\<rparr>"

section \<open>Download queue\<close>

datatype Priority = Critical | Normal | Background

instantiation Priority :: linorder
begin

definition priority_rank :: "Priority \<Rightarrow> nat" where
  "priority_rank p = (case p of Critical \<Rightarrow> 0 | Normal \<Rightarrow> 1 | Background \<Rightarrow> 2)"

definition less_eq_Priority :: "Priority \<Rightarrow> Priority \<Rightarrow> bool" where
  "less_eq_Priority p q \<longleftrightarrow> priority_rank p \<le> priority_rank q"

definition less_Priority :: "Priority \<Rightarrow> Priority \<Rightarrow> bool" where
  "less_Priority p q \<longleftrightarrow> priority_rank p < priority_rank q"

instance
  by standard (auto simp: less_eq_Priority_def less_Priority_def priority_rank_def split: Priority.splits)

end

datatype OtaItem =
    OtaAsset (ota_id: AssetId) (ota_blake3: bytes) u64
  | OtaScript (ota_id: AssetId) (ota_blake3: bytes)

definition ota_priority :: "OtaItem \<Rightarrow> Priority" where
  "ota_priority item =
     (case item of
        OtaScript _ _ \<Rightarrow> Critical
      | OtaAsset _ _ size_bytes \<Rightarrow> if size_bytes \<ge> 1048576 then Background else Normal)"

definition item_size :: "OtaItem \<Rightarrow> u64" where
  "item_size item = (case item of OtaAsset _ _ size_bytes \<Rightarrow> size_bytes | OtaScript _ _ \<Rightarrow> 0)"

definition OTA_MEMORY_BUDGET :: u64 where "OTA_MEMORY_BUDGET = 64 * 1024 * 1024"

record OtaManager =
  om_current_manifest :: AssetManifest
  om_download_queue :: "(Priority, OtaItem list) btree"
  om_in_progress_bytes :: u64

definition ota_new :: "AssetManifest \<Rightarrow> OtaManager" where
  "ota_new manifest =
     \<lparr>om_current_manifest = manifest, om_download_queue = [], om_in_progress_bytes = 0\<rparr>"

definition enqueue :: "OtaItem \<Rightarrow> (Priority, OtaItem list) btree \<Rightarrow> (Priority, OtaItem list) btree" where
  "enqueue item q =
     bm_insert (ota_priority item)
       ((case bm_get q (ota_priority item) of None \<Rightarrow> [] | Some xs \<Rightarrow> xs) @ [item]) q"

fun schedule_items :: "AssetManifest \<Rightarrow> AssetId list \<Rightarrow> OtaItem list" where
  "schedule_items newer [] = []"
| "schedule_items newer (asset # ids) =
     (case manifest_get newer asset of
        None \<Rightarrow> schedule_items newer ids
      | Some entry \<Rightarrow> OtaAsset asset (ae_blake3_bytes entry) (ae_size_bytes entry) # schedule_items newer ids)"

definition schedule_update :: "AssetManifest \<Rightarrow> OtaManager \<Rightarrow> OtaItem list \<times> OtaManager" where
  "schedule_update newer m =
     (let diff = manifest_diff (om_current_manifest m) newer;
          items = schedule_items newer (md_added diff @ md_updated diff)
      in (items, m\<lparr>om_download_queue := fold enqueue items (om_download_queue m)\<rparr>))"

text \<open>The inner loop over one list: the batch, the rest and the new load.\<close>

fun take_fitting :: "u64 \<Rightarrow> OtaItem list \<Rightarrow> OtaItem list \<times> OtaItem list \<times> u64" where
  "take_fitting used [] = ([], [], used)"
| "take_fitting used (item # items) =
     (if used + item_size item \<le> OTA_MEMORY_BUDGET
      then (case take_fitting (used + item_size item) items of (batch, rest, u) \<Rightarrow> (item # batch, rest, u))
      else (case take_fitting used items of (batch, rest, u) \<Rightarrow> (batch, item # rest, u)))"

fun take_queue :: "u64 \<Rightarrow> (Priority, OtaItem list) btree \<Rightarrow> OtaItem list \<times> (Priority, OtaItem list) btree \<times> u64" where
  "take_queue used [] = ([], [], used)"
| "take_queue used ((p, items) # q) =
     (case take_fitting used items of
        (batch, rest, u) \<Rightarrow> (case take_queue u q of (batch', q', u') \<Rightarrow> (batch @ batch', (p, rest) # q', u')))"

definition next_batch :: "OtaManager \<Rightarrow> OtaItem list \<times> OtaManager" where
  "next_batch m =
     (case take_queue (om_in_progress_bytes m) (om_download_queue m) of
        (batch, q, used) \<Rightarrow>
          (batch, m\<lparr>om_download_queue := bm_retain (\<lambda>_ v. v \<noteq> []) q, om_in_progress_bytes := used\<rparr>))"

definition complete_item :: "OtaItem \<Rightarrow> OtaManager \<Rightarrow> OtaManager" where
  "complete_item item m =
     m\<lparr>om_in_progress_bytes := saturating_sub (om_in_progress_bytes m) (item_size item)\<rparr>"

definition apply_manifest :: "AssetManifest \<Rightarrow> OtaManager \<Rightarrow> OtaManager" where
  "apply_manifest manifest m = m\<lparr>om_current_manifest := manifest\<rparr>"

text \<open>The client's use of the queue: fetch a batch, complete every item of it, until a batch is empty.
  \<open>n\<close> bounds the rounds.\<close>

fun ota_drain :: "nat \<Rightarrow> OtaManager \<Rightarrow> OtaItem list \<times> OtaManager" where
  "ota_drain 0 m = ([], m)"
| "ota_drain (Suc n) m =
     (case next_batch m of
        (batch, m1) \<Rightarrow>
          if batch = [] then ([], m1)
          else (case ota_drain n (fold complete_item batch m1) of (rest, m2) \<Rightarrow> (batch @ rest, m2)))"

section \<open>Hashes in a manifest\<close>

text \<open>The usual text of a hash: two lower-case digits for every byte.\<close>

definition hex_char :: "nat \<Rightarrow> char" where
  "hex_char n = char_of (if n < 10 then 48 + n else 87 + n)"

definition hex_of :: "bytes \<Rightarrow> string" where
  "hex_of bs = concat (map (\<lambda>b. [hex_char (unat b div 16), hex_char (unat b mod 16)]) bs)"

lemma hex_of_Cons:
  "hex_of (b # bs) = hex_char (unat b div 16) # hex_char (unat b mod 16) # hex_of bs"
  by (simp add: hex_of_def)

lemma length_hex_of [simp]: "length (hex_of bs) = length bs * 2"
  by (induction bs) (simp_all add: hex_of_def)

lemma hex_char_code: "n < 16 \<Longrightarrow> (of_char (hex_char n) :: nat) = (if n < 10 then 48 + n else 87 + n)"
  by (simp add: hex_char_def)

lemma hex_digit_hex_char [simp]: "n < 16 \<Longrightarrow> hex_digit (hex_char n) = Some n"
  by (simp add: hex_digit_def hex_char_code Let_def)

lemma hex_of_ascii: "c \<in> set (hex_of bs) \<Longrightarrow> (of_char c :: nat) < 128"
proof (induction bs)
  case (Cons b bs)
  have "unat b div 16 < 16" using unsigned_less [of b, where ?'a = nat] by simp
  then show ?case using Cons by (auto simp: hex_of_Cons hex_char_code)
qed (simp add: hex_of_def)

lemma boundary_hex_of: "i \<le> length (hex_of bs) \<Longrightarrow> is_char_boundary (hex_of bs) i"
  using hex_of_ascii [OF nth_mem, of i bs] by (fastforce simp: is_char_boundary_def)

lemma drop_hex_of: "drop (k * 2) (hex_of bs) = hex_of (drop k bs)"
proof (induction k arbitrary: bs)
  case (Suc k)
  then show ?case by (cases bs) (simp_all add: hex_of_Cons, simp add: hex_of_def)
qed simp

lemma parse_byte_hex:
  "u8_from_str_radix_16 [hex_char (unat b div 16), hex_char (unat b mod 16)] = Inr b" for b :: u8
proof -
  have b: "unat b < 256" using unsigned_less [of b, where ?'a = nat] by simp
  have "hex_char n \<noteq> CHR ''+''" if "n < 16" for n
    using hex_char_code [OF that] by (auto split: if_splits)
  then have "hex_char (unat b div 16) \<noteq> CHR ''+''" using b by simp
  then show ?thesis
    using b by (simp add: u8_from_str_radix_16_def del: of_nat_add of_nat_mult)
qed

lemma hex_loop_hex_of: "k \<le> length bs \<Longrightarrow> hex_loop (hex_of bs) [k..<length bs] = Some (Inr (drop k bs))"
proof (induction "length bs - k" arbitrary: k)
  case (Suc n)
  then have k: "k < length bs" by simp
  have "str_slice (hex_of bs) (k * 2) (k * 2 + 2) = Some (take 2 (hex_of (drop k bs)))"
    using k by (simp add: str_slice_def boundary_hex_of drop_hex_of)
  also have "take 2 (hex_of (drop k bs)) = [hex_char (unat (bs ! k) div 16), hex_char (unat (bs ! k) mod 16)]"
    using k by (simp add: Cons_nth_drop_Suc [symmetric] hex_of_Cons)
  finally show ?case
    using Suc.hyps(1) [of "Suc k"] Suc.hyps(2) k
    by (simp add: upt_conv_Cons parse_byte_hex Cons_nth_drop_Suc [symmetric])
qed simp

lemma hex_to_bytes_hex_of: "length bs = 32 \<Longrightarrow> hex_to_bytes (hex_of bs) = Some (Inr bs)"
  using hex_loop_hex_of [of 0 bs] by (simp add: hex_to_bytes_def)

lemma cache_hashes_hex:
  assumes "list_all (\<lambda>(asset, e). length (h asset) = 32 \<and> ae_blake3 e = hex_of (h asset)) xs"
  shows "cache_hashes xs = Some (Inr (map (\<lambda>(asset, e). (asset, e\<lparr>ae_blake3_bytes := h asset\<rparr>)) xs))"
  using assms by (induction xs rule: cache_hashes.induct) (auto simp: hex_to_bytes_hex_of)

lemma cache_hashes_sound:
  "(cache_hashes xs :: ('e ManifestError + _) option) = Some (Inr ys) \<Longrightarrow>
     list_all2 (\<lambda>(i, e) (j, e'). i = j \<and> hex_to_bytes (ae_blake3 e) = Some (Inr (ae_blake3_bytes e'))
       \<and> e' = e\<lparr>ae_blake3_bytes := ae_blake3_bytes e'\<rparr>) xs ys"
proof (induction xs arbitrary: ys rule: cache_hashes.induct)
  case (2 asset entry rest)
  from "2.prems" obtain bs zs where
    "hex_to_bytes (ae_blake3 entry) = Some (Inr bs)" "length (ae_blake3 entry) = 64"
    "(cache_hashes rest :: ('e ManifestError + _) option) = Some (Inr zs)" "ys = (asset, entry\<lparr>ae_blake3_bytes := bs\<rparr>) # zs"
    by (auto split: if_splits option.splits sum.splits simp: map_sum_Inr)
  with "2.IH" show ?case by auto
qed simp

section \<open>What a difference means\<close>

definition hash_map :: "AssetManifest \<Rightarrow> AssetId \<Rightarrow> bytes option" where
  "hash_map m asset = map_option ae_blake3_bytes (manifest_get m asset)"

lemma manifest_diff_iff:
  assumes "bm_wf (am_assets old)" "bm_wf (am_assets newer)"
  defines "d \<equiv> manifest_diff old newer"
  shows "asset \<in> set (md_added d) \<longleftrightarrow> hash_map old asset = None \<and> hash_map newer asset \<noteq> None"
    and "asset \<in> set (md_updated d) \<longleftrightarrow> hash_map old asset \<noteq> None \<and> hash_map newer asset \<noteq> None
      \<and> hash_map old asset \<noteq> hash_map newer asset"
    and "asset \<in> set (md_removed d) \<longleftrightarrow> hash_map old asset \<noteq> None \<and> hash_map newer asset = None"
  using assms(1,2)
  by (auto simp: d_def manifest_diff_def hash_map_def manifest_get_def bm_get_iff [symmetric] image_iff
      map_of_eq_None_iff split: option.splits; force dest: map_of_SomeD)+

section \<open>The queue loses nothing and keeps its budget\<close>

definition queued :: "OtaManager \<Rightarrow> OtaItem list" where
  "queued m = concat (map snd (om_download_queue m))"

text \<open>An item that fits the budget at all. \<open>no_wrap\<close> excludes sizes whose sum with the load wraps around.\<close>

definition fits :: "OtaItem \<Rightarrow> bool" where
  "fits item \<longleftrightarrow> item_size item \<le> OTA_MEMORY_BUDGET"

definition no_wrap :: "OtaItem \<Rightarrow> bool" where
  "no_wrap item \<longleftrightarrow> unat (item_size item) + unat OTA_MEMORY_BUDGET < 2 ^ 64"

lemma mset_queued_insert:
  "mset (concat (map snd (bm_insert k v q))) + mset (case bm_get q k of None \<Rightarrow> [] | Some xs \<Rightarrow> xs)
     = mset (concat (map snd q)) + mset v" if "bm_wf q"
  using that
proof (induction k v q rule: bm_insert.induct)
  case (2 k v p m)
  have wf: "bm_wf m" and sep: "\<forall>x \<in> set m. fst p < fst x" using "2.prems" by (auto simp: bm_wf_def)
  have "bm_get m k = None" if "k \<le> fst p"
    using sep that by (force simp: map_of_eq_None_iff)
  then show ?case using "2.IH" wf by (cases p) (auto simp: ac_simps)
qed simp

lemma mset_queued_enqueue:
  assumes "bm_wf q"
  shows "mset (concat (map snd (enqueue item q))) = mset (concat (map snd q)) + {#item#}"
  using mset_queued_insert [OF assms, of "ota_priority item"
      "(case bm_get q (ota_priority item) of None \<Rightarrow> [] | Some xs \<Rightarrow> xs) @ [item]"]
  by (auto simp: enqueue_def ac_simps)

lemma bm_wf_enqueue: "bm_wf q \<Longrightarrow> bm_wf (enqueue item q)"
  by (simp add: enqueue_def bm_wf_insert)

lemma enqueue_all:
  "bm_wf q \<Longrightarrow> bm_wf (fold enqueue items q)
     \<and> mset (concat (map snd (fold enqueue items q))) = mset (concat (map snd q)) + mset items"
  by (induction items arbitrary: q) (simp_all add: bm_wf_enqueue mset_queued_enqueue)

lemma schedule_update_queued:
  assumes "bm_wf (om_download_queue m)" "schedule_update newer m = (items, m')"
  shows "mset (queued m') = mset (queued m) + mset items" and "bm_wf (om_download_queue m')"
    and "om_in_progress_bytes m' = om_in_progress_bytes m"
  using assms enqueue_all [of "om_download_queue m" items]
  by (auto simp: schedule_update_def Let_def queued_def)

lemma take_fitting_mset:
  "take_fitting u xs = (b, r, u') \<Longrightarrow> mset xs = mset b + mset r"
  by (induction u xs arbitrary: b r u' rule: take_fitting.induct) (auto split: if_splits prod.splits)

lemma take_queue_mset:
  "take_queue u q = (b, q', u') \<Longrightarrow>
     mset (concat (map snd q)) = mset b + mset (concat (map snd q')) \<and> map fst q' = map fst q"
  by (induction u q arbitrary: b q' u' rule: take_queue.induct)
    (auto split: prod.splits simp: take_fitting_mset)

lemma concat_retain: "concat (map snd (bm_retain (\<lambda>_ v. v \<noteq> []) q)) = concat (map snd q)"
  by (induction q) (auto simp: bm_retain_def)

lemma next_batch_mset:
  assumes "next_batch m = (b, m')" "bm_wf (om_download_queue m)"
  shows "mset (queued m) = mset b + mset (queued m') \<and> bm_wf (om_download_queue m')"
proof -
  obtain q u where q: "take_queue (om_in_progress_bytes m) (om_download_queue m) = (b, q, u)"
    and m': "om_download_queue m' = bm_retain (\<lambda>_ v. v \<noteq> []) q"
    using assms(1) by (auto simp: next_batch_def split: prod.splits)
  have "bm_wf q" using take_queue_mset [OF q] assms(2) by (simp add: bm_wf_def)
  then show ?thesis using take_queue_mset [OF q] by (simp add: queued_def m' concat_retain bm_wf_retain)
qed

definition load_of :: "OtaItem list \<Rightarrow> nat" where
  "load_of items = (\<Sum>item\<leftarrow>items. unat (item_size item))"

lemma load_of_simps [simp]:
  "load_of [] = 0" "load_of (x # xs) = unat (item_size x) + load_of xs" "load_of (xs @ ys) = load_of xs + load_of ys"
  by (simp_all add: load_of_def)

lemma budget_nat [simp]: "unat OTA_MEMORY_BUDGET = 67108864"
  by (simp add: OTA_MEMORY_BUDGET_def)

lemma load_step:
  assumes "no_wrap x" "u \<le> OTA_MEMORY_BUDGET"
  shows "unat (u + item_size x) = unat u + unat (item_size x)"
  using assms by (auto simp: no_wrap_def word_le_nat_alt unat_word_ariths)

lemma take_fitting_load:
  assumes "take_fitting u xs = (b, r, u')" "u \<le> OTA_MEMORY_BUDGET" "list_all no_wrap xs"
  shows "unat u' = unat u + load_of b" and "u' \<le> OTA_MEMORY_BUDGET" and "list_all fits b" and "list_all no_wrap r"
    and "b = [] \<Longrightarrow> list_all (\<lambda>x. \<not> u + item_size x \<le> OTA_MEMORY_BUDGET) xs"
  using assms
proof (atomize (full), induction u xs arbitrary: b r u' rule: take_fitting.induct)
  case (2 u x xs)
  show ?case
  proof (cases "u + item_size x \<le> OTA_MEMORY_BUDGET")
    case True
    obtain b' where b': "take_fitting (u + item_size x) xs = (b', r, u')" "b = x # b'"
      using "2.prems"(1) True by (auto split: prod.splits)
    have "fits x" using True load_step [of x u] "2.prems" by (auto simp: fits_def word_le_nat_alt)
    then show ?thesis using "2.IH"(1) [OF True] b' True load_step [of x u] "2.prems" by auto
  next
    case False
    then show ?thesis using "2.IH"(2) "2.prems" by (auto split: prod.splits)
  qed
qed auto

lemma take_queue_load:
  assumes "take_queue u q = (b, q', u')" "u \<le> OTA_MEMORY_BUDGET" "list_all no_wrap (concat (map snd q))"
  shows "unat u' = unat u + load_of b" and "u' \<le> OTA_MEMORY_BUDGET" and "list_all fits b"
    and "list_all no_wrap (concat (map snd q'))"
    and "b = [] \<Longrightarrow> list_all (\<lambda>x. \<not> u + item_size x \<le> OTA_MEMORY_BUDGET) (concat (map snd q))"
  using assms
proof (atomize (full), induction u q arbitrary: b q' u' rule: take_queue.induct)
  case (2 u p xs q)
  obtain b1 r u1 where 1: "take_fitting u xs = (b1, r, u1)" by (cases "take_fitting u xs")
  obtain b2 q2 u2 where q2: "take_queue u1 q = (b2, q2, u2)" by (cases "take_queue u1 q")
  have no_wrap: "list_all no_wrap xs" "list_all no_wrap (concat (map snd q))" and u: "u \<le> OTA_MEMORY_BUDGET"
    and b: "b = b1 @ b2" "q' = (p, r) # q2" "u' = u2"
    using "2.prems" 1 q2 by auto
  note load = take_fitting_load [OF 1 u no_wrap(1)]
  have "b1 = [] \<Longrightarrow> u1 = u" using load(1) by (simp add: word_unat_eq_iff)
  then show ?case
    using "2.IH" [OF 1 [symmetric] refl q2] load no_wrap(2) q2 b by auto
qed auto

lemma next_batch_load:
  assumes "next_batch m = (b, m')" "om_in_progress_bytes m \<le> OTA_MEMORY_BUDGET" "list_all no_wrap (queued m)"
  shows "unat (om_in_progress_bytes m') = unat (om_in_progress_bytes m) + load_of b"
    and "om_in_progress_bytes m' \<le> OTA_MEMORY_BUDGET" and "list_all fits b" and "list_all no_wrap (queued m')"
    and "b = [] \<Longrightarrow> om_in_progress_bytes m = 0 \<Longrightarrow> list_all (\<lambda>x. \<not> fits x) (queued m)"
proof -
  obtain q u where q: "take_queue (om_in_progress_bytes m) (om_download_queue m) = (b, q, u)"
    and m': "om_download_queue m' = bm_retain (\<lambda>_ v. v \<noteq> []) q" "om_in_progress_bytes m' = u"
    using assms(1) by (auto simp: next_batch_def split: prod.splits)
  note load = take_queue_load [OF q assms(2) assms(3) [unfolded queued_def]]
  show "unat (om_in_progress_bytes m') = unat (om_in_progress_bytes m) + load_of b"
    "om_in_progress_bytes m' \<le> OTA_MEMORY_BUDGET" "list_all fits b" "list_all no_wrap (queued m')"
    using load by (simp_all add: m' queued_def concat_retain)
  show "list_all (\<lambda>x. \<not> fits x) (queued m)" if "b = []" "om_in_progress_bytes m = 0"
    using load(5) that by (simp add: queued_def fits_def)
qed

lemma complete_all:
  "unat (om_in_progress_bytes (fold complete_item b m)) = unat (om_in_progress_bytes m) - load_of b
   \<and> om_download_queue (fold complete_item b m) = om_download_queue m"
  by (induction b arbitrary: m) (simp_all add: complete_item_def)

lemma ota_drain_delivers:
  assumes "bm_wf (om_download_queue m)" "om_in_progress_bytes m = 0" "list_all no_wrap (queued m)"
    and "length (queued m) \<le> n" "ota_drain n m = (delivered, m')"
  shows "mset delivered = filter_mset fits (mset (queued m))
    \<and> mset (queued m') = filter_mset (\<lambda>x. \<not> fits x) (mset (queued m)) \<and> om_in_progress_bytes m' = 0"
  using assms
proof (induction n arbitrary: m delivered)
  case (Suc n)
  obtain b m1 where nb: "next_batch m = (b, m1)" by (cases "next_batch m")
  have used: "om_in_progress_bytes m \<le> OTA_MEMORY_BUDGET" using Suc.prems(2) by simp
  note load = next_batch_load [OF nb used Suc.prems(3)]
  note split = next_batch_mset [OF nb Suc.prems(1)]
  show ?case
  proof (cases "b = []")
    case True
    then have "om_in_progress_bytes m1 = 0" using load(1) Suc.prems(2) by (simp add: unat_eq_0)
    moreover have "filter_mset fits (mset (queued m)) = {#}"
      using load(5) True Suc.prems(2) by (auto simp: list_all_iff filter_mset_eq_conv)
    moreover have "filter_mset (\<lambda>x. \<not> fits x) (mset (queued m)) = mset (queued m)"
      using load(5) True Suc.prems(2) by (auto simp: list_all_iff filter_mset_eq_conv)
    ultimately show ?thesis using Suc.prems(5) nb True split by auto
  next
    case False
    let ?m2 = "fold complete_item b m1"
    obtain d where d: "ota_drain n ?m2 = (d, m')" "delivered = b @ d"
      using Suc.prems(5) nb False by (auto split: prod.splits)
    have m2: "om_download_queue ?m2 = om_download_queue m1" "om_in_progress_bytes ?m2 = 0"
      using complete_all [of b m1] load(1) Suc.prems(2) by (simp_all add: unat_eq_0)
    then have q2: "queued ?m2 = queued m1" by (simp add: queued_def)
    have "length (queued m) = length b + length (queued m1)"
      using split by (metis size_mset size_union)
    then have "length (queued ?m2) \<le> n" using False Suc.prems(4) q2 by (cases b) auto
    note IH = Suc.IH [OF _ m2(2) _ this d(1), unfolded q2 m2(1)]
    moreover have "filter_mset fits (mset b) = mset b" "filter_mset (\<lambda>x. \<not> fits x) (mset b) = {#}"
      using load(3) by (auto simp: list_all_iff filter_mset_eq_conv)
    ultimately show ?thesis using split load(4) d(2) by simp
  qed
qed simp

text \<open>Installing a delivered item, on the client's hashes.\<close>

definition install :: "OtaItem \<Rightarrow> (AssetId \<Rightarrow> bytes option) \<Rightarrow> AssetId \<Rightarrow> bytes option" where
  "install item store = store(ota_id item \<mapsto> ota_blake3 item)"

lemma install_all:
  "\<forall>x \<in> set d. g (ota_id x) = Some (ota_blake3 x) \<Longrightarrow>
     fold install d f = (\<lambda>a. if a \<in> ota_id ` set d then g a else f a)"
  by (induction d arbitrary: f) (auto simp: install_def fun_eq_iff)

lemma ota_update_delivers:
  assumes "schedule_update newer (ota_new old) = (items, m)" "ota_drain (length items) m = (delivered, m')"
    and "list_all no_wrap items"
  shows "mset delivered = filter_mset fits (mset items)"
    and "mset (queued m') = filter_mset (\<lambda>x. \<not> fits x) (mset items)"
    and "om_in_progress_bytes m' = 0"
proof -
  have q: "mset (queued m) = mset items" "bm_wf (om_download_queue m)" "om_in_progress_bytes m = 0"
    using schedule_update_queued [OF _ assms(1)] by (simp_all add: ota_new_def queued_def)
  have len: "length (queued m) \<le> length items" using q(1) by (metis size_mset order_refl)
  have "list_all no_wrap (queued m)" using assms(3) q(1) by (metis list_all_iff set_mset_mset)
  from ota_drain_delivers [OF q(2,3) this len assms(2)]
  show "mset delivered = filter_mset fits (mset items)"
    "mset (queued m') = filter_mset (\<lambda>x. \<not> fits x) (mset items)" "om_in_progress_bytes m' = 0"
    by (simp_all add: q(1))
qed

lemma schedule_items_iff:
  "x \<in> set (schedule_items newer ids) \<longleftrightarrow> (\<exists>asset e. asset \<in> set ids \<and> manifest_get newer asset = Some e
     \<and> x = OtaAsset asset (ae_blake3_bytes e) (ae_size_bytes e))"
  by (induction ids) (auto split: option.splits)

text \<open>The assets an update has to fetch.\<close>

definition to_fetch :: "AssetManifest \<Rightarrow> AssetManifest \<Rightarrow> AssetId \<Rightarrow> bool" where
  "to_fetch old newer asset \<longleftrightarrow> hash_map newer asset \<noteq> None \<and> hash_map old asset \<noteq> hash_map newer asset"

lemma scheduled_iff:
  assumes "bm_wf (am_assets old)" "bm_wf (am_assets newer)" "schedule_update newer (ota_new old) = (items, m)"
  shows "x \<in> set items \<longleftrightarrow> (\<exists>asset e. to_fetch old newer asset \<and> manifest_get newer asset = Some e
     \<and> x = OtaAsset asset (ae_blake3_bytes e) (ae_size_bytes e))"
proof -
  let ?ids = "md_added (manifest_diff old newer) @ md_updated (manifest_diff old newer)"
  have "items = schedule_items newer ?ids"
    using assms(3) by (simp add: schedule_update_def Let_def ota_new_def)
  moreover have "asset \<in> set ?ids \<longleftrightarrow> to_fetch old newer asset" for asset
    using manifest_diff_iff(1,2) [OF assms(1,2), of asset] by (auto simp: to_fetch_def)
  ultimately show ?thesis by (simp only: schedule_items_iff)
qed

lemma ota_update_installs:
  assumes "bm_wf (am_assets old)" "bm_wf (am_assets newer)"
    and "schedule_update newer (ota_new old) = (items, m)" "set delivered = set (filter fits items)"
  shows "fold install delivered
      (\<lambda>asset. if asset \<in> set (md_removed (manifest_diff old newer)) then None else hash_map old asset) a
    = (case manifest_get newer a of
         None \<Rightarrow> None
       | Some e \<Rightarrow> if ae_size_bytes e \<le> OTA_MEMORY_BUDGET then Some (ae_blake3_bytes e) else hash_map old a)"
    (is "fold install delivered ?kept a = ?new")
proof -
  note items = scheduled_iff [OF assms(1-3)]
  have "\<forall>x \<in> set delivered. hash_map newer (ota_id x) = Some (ota_blake3 x)"
    unfolding assms(4) by (auto simp: items hash_map_def)
  from install_all [OF this, of ?kept]
  have f: "fold install delivered ?kept a = (if a \<in> ota_id ` set delivered then hash_map newer a else ?kept a)" by simp
  have "a \<in> ota_id ` set delivered \<longleftrightarrow>
      to_fetch old newer a \<and> (\<exists>e. manifest_get newer a = Some e \<and> ae_size_bytes e \<le> OTA_MEMORY_BUDGET)"
    unfolding assms(4) by (force simp: items fits_def item_size_def)
  then show ?thesis
    unfolding f using manifest_diff_iff(3) [OF assms(1,2), of a]
    by (cases "manifest_get newer a") (auto simp: to_fetch_def hash_map_def)
qed

section \<open>Properties\<close>

text \<open>Parsing a manifest decodes its hashes: when the parser accepts the text, the version is the
  supported one, the text holds one entry per asset and every hash is the usual hexadecimal text of 32
  bytes, the result is that manifest with exactly those bytes beside the texts.\<close>

lemma parse_manifest_roundtrip:
  assumes "from_ron s = Inr m" "am_version m = SUPPORTED_VERSION"
    and "count_matches '': AssetEntry('' s = length (am_assets m)"
    and "list_all (\<lambda>(asset, e). length (h asset) = 32 \<and> ae_blake3 e = hex_of (h asset)) (am_assets m)"
  shows "parse_manifest from_ron s =
    Some (Inr (m\<lparr>am_assets := map (\<lambda>(asset, e). (asset, e\<lparr>ae_blake3_bytes := h asset\<rparr>)) (am_assets m)\<rparr>))"
  using assms by (simp add: parse_manifest_def Let_def cache_hashes_hex)

definition sample_entry :: "u8 \<Rightarrow> u64 \<Rightarrow> AssetEntry" where
  "sample_entry b n =
     \<lparr>ae_path = ''p'', ae_format = Png, ae_size_bytes = n, ae_blake3 = hex_of (replicate 32 b),
      ae_blake3_bytes = replicate 32 b, ae_encrypted = False, ae_sidecars = [], ae_tags = []\<rparr>"

definition sample_manifest :: "(string \<times> u8 \<times> u64) list \<Rightarrow> AssetManifest" where
  "sample_manifest xs =
     \<lparr>am_version = ''1.0.0'', am_generated_at = '''', am_assets = map (\<lambda>(i, b, n). (i, sample_entry b n)) xs\<rparr>"

lemma parse_manifest_roundtrip_example:
  "parse_manifest (\<lambda>_. Inr (sample_manifest [(''a'', 255, 3)]) :: unit + AssetManifest)
     ''{ 1: AssetEntry(..) }'' = Some (Inr (sample_manifest [(''a'', 255, 3)]))"
  using parse_manifest_roundtrip [of "\<lambda>_. Inr (sample_manifest [(''a'', 255, 3)]) :: unit + AssetManifest"
      "''{ 1: AssetEntry(..) }''" "sample_manifest [(''a'', 255, 3)]" "\<lambda>_. replicate 32 255"]
  by (simp add: sample_manifest_def sample_entry_def SUPPORTED_VERSION_def)

text \<open>C32: Incremental updates always finish. Fetching batches and completing them delivers, in at most as
  many rounds as there are changed assets, every asset of at most 64 MB exactly once and frees the whole
  budget; the assets over 64 MB are the ones that stay queued, however often one asks.\<close>

theorem ota_drains:
  assumes "schedule_update newer (ota_new old) = (items, m)" "ota_drain (length items) m = (delivered, m')"
    and "list_all no_wrap items"
  shows "mset delivered = filter_mset fits (mset items)
    \<and> mset (queued m') = filter_mset (\<lambda>x. \<not> fits x) (mset items) \<and> om_in_progress_bytes m' = 0"
  using ota_update_delivers [OF assms] by simp

theorem ota_drains_witness:
  "mset (fst (ota_drain 2 (snd (schedule_update (sample_manifest [(''a'', 1, 50000000), (''b'', 2, 40000000)])
     (ota_new manifest_empty))))) =
   {#OtaAsset ''a'' (replicate 32 1) 50000000, OtaAsset ''b'' (replicate 32 2) 40000000#}"
proof -
  let ?new = "sample_manifest [(''a'', 1, 50000000), (''b'', 2, 40000000)]"
  let ?items = "[OtaAsset ''a'' (replicate 32 1) 50000000, OtaAsset ''b'' (replicate 32 2) 40000000]"
  let ?m = "snd (schedule_update ?new (ota_new manifest_empty))"
  have "schedule_update ?new (ota_new manifest_empty) = (?items, ?m)"
    by (simp add: schedule_update_def Let_def ota_new_def manifest_empty_def manifest_diff_def sample_manifest_def
        sample_entry_def manifest_get_def)
  moreover have "list_all no_wrap ?items" by (simp add: no_wrap_def item_size_def)
  moreover have "ota_drain (length ?items) ?m = (fst (ota_drain 2 ?m), snd (ota_drain 2 ?m))"
    by (simp add: numeral_2_eq_2 del: ota_drain.simps)
  ultimately have "mset (fst (ota_drain 2 ?m)) = filter_mset fits (mset ?items)"
    using ota_drains by blast
  then show ?thesis by (simp add: fits_def item_size_def OTA_MEMORY_BUDGET_def)
qed

text \<open>C31: An incremental update brings the client to the new manifest, as far as its budget allows. Installing the
  delivered assets over the old ones and dropping the removed ones leaves, for every asset of the new manifest of at most
  64 MB, exactly its new hash; a changed asset above 64 MB keeps the hash it had, if any, and stays queued, and nothing
  else does; an asset the new manifest does not have is gone. (Sizes within 64 MB of the limit of 64 bits are excluded.)\<close>

theorem ota_update_refines:
  assumes "bm_wf (am_assets old)" "bm_wf (am_assets newer)"
    and "schedule_update newer (ota_new old) = (items, m)" "ota_drain (length items) m = (delivered, m')"
    and sizes: "\<And>asset e. manifest_get newer asset = Some e \<Longrightarrow> unat (ae_size_bytes e) + 64 * 2 ^ 20 < 2 ^ 64"
  shows "fold install delivered
      (\<lambda>asset. if asset \<in> set (md_removed (manifest_diff old newer)) then None else hash_map old asset)
    = (\<lambda>asset. case manifest_get newer asset of
         None \<Rightarrow> None
       | Some e \<Rightarrow> if unat (ae_size_bytes e) \<le> 64 * 2 ^ 20 then Some (ae_blake3_bytes e) else hash_map old asset)
    \<and> ota_id ` set (queued m') = {asset. \<exists>e. manifest_get newer asset = Some e \<and> 64 * 2 ^ 20 < unat (ae_size_bytes e)
         \<and> hash_map old asset \<noteq> Some (ae_blake3_bytes e)}"
proof -
  note items = scheduled_iff [OF assms(1-3)]
  have budget: "n \<le> OTA_MEMORY_BUDGET \<longleftrightarrow> unat n \<le> 64 * 2 ^ 20" for n
    by (simp add: OTA_MEMORY_BUDGET_def word_le_nat_alt)
  have "list_all no_wrap items"
    using sizes by (auto simp: list_all_iff items no_wrap_def item_size_def OTA_MEMORY_BUDGET_def)
  note d = ota_update_delivers [OF assms(3,4) this]
  have sets: "set delivered = set (filter fits items)" "set (queued m') = set (filter (\<lambda>x. \<not> fits x) items)"
    using d(1,2) by (metis mset_filter set_mset_mset)+
  show ?thesis
  proof (intro conjI ext set_eqI)
    fix asset
    show "fold install delivered
        (\<lambda>asset. if asset \<in> set (md_removed (manifest_diff old newer)) then None else hash_map old asset) asset
      = (case manifest_get newer asset of
           None \<Rightarrow> None
         | Some e \<Rightarrow> if unat (ae_size_bytes e) \<le> 64 * 2 ^ 20 then Some (ae_blake3_bytes e) else hash_map old asset)"
      using ota_update_installs [OF assms(1-3) sets(1), of asset] by (simp only: budget)
    have "x \<in> set (queued m') \<longleftrightarrow> (\<exists>asset e. to_fetch old newer asset \<and> manifest_get newer asset = Some e
        \<and> x = OtaAsset asset (ae_blake3_bytes e) (ae_size_bytes e) \<and> 64 * 2 ^ 20 < unat (ae_size_bytes e))" for x
      unfolding sets(2) by (auto simp: items fits_def item_size_def budget not_le)
    then have "asset \<in> ota_id ` set (queued m') \<longleftrightarrow> to_fetch old newer asset
        \<and> (\<exists>e. manifest_get newer asset = Some e \<and> 64 * 2 ^ 20 < unat (ae_size_bytes e))"
      unfolding image_iff by (metis OtaItem.sel(1) option.inject)
    then show "asset \<in> ota_id ` set (queued m') \<longleftrightarrow>
        asset \<in> {asset. \<exists>e. manifest_get newer asset = Some e \<and> 64 * 2 ^ 20 < unat (ae_size_bytes e)
          \<and> hash_map old asset \<noteq> Some (ae_blake3_bytes e)}"
      by (auto simp: to_fetch_def hash_map_def)
  qed
qed

text \<open>The sound effect of 80 MB is not fetched.\<close>

theorem ota_update_refines_witness:
  "fold install (fst (ota_drain 3 (snd (schedule_update (sample_manifest [(''b'', 2, 9), (''c'', 4, 40000000), (''d'', 5, 80000000)])
      (ota_new (sample_manifest [(''a'', 1, 7), (''b'', 3, 8)]))))))
     [''b'' \<mapsto> replicate 32 3] = [''b'' \<mapsto> replicate 32 2, ''c'' \<mapsto> replicate 32 4]"
proof -
  let ?old = "sample_manifest [(''a'', 1, 7), (''b'', 3, 8)]"
  let ?new = "sample_manifest [(''b'', 2, 9), (''c'', 4, 40000000), (''d'', 5, 80000000)]"
  let ?items = "[OtaAsset ''c'' (replicate 32 4) 40000000, OtaAsset ''d'' (replicate 32 5) 80000000, OtaAsset ''b'' (replicate 32 2) 9]"
  let ?m = "snd (schedule_update ?new (ota_new ?old))"
  note defs = sample_manifest_def sample_entry_def manifest_get_def manifest_diff_def
  have u: "schedule_update ?new (ota_new ?old) = (?items, ?m)"
    by (simp add: schedule_update_def Let_def ota_new_def defs replicate_eq_replicate)
  have d: "ota_drain (length ?items) ?m = (fst (ota_drain 3 ?m), snd (ota_drain 3 ?m))"
    by (simp add: numeral_3_eq_3 del: ota_drain.simps)
  have wf: "bm_wf (am_assets ?old)" "bm_wf (am_assets ?new)"
    by (simp_all add: bm_wf_def sample_manifest_def less_list_code)
  have "unat (ae_size_bytes e) + 64 * 2 ^ 20 < 2 ^ 64" if "manifest_get ?new asset = Some e" for asset e
    using that by (auto simp: defs split: if_splits)
  note r = conjunct1 [OF ota_update_refines [OF wf u d this]]
  have "(\<lambda>asset. if asset \<in> set (md_removed (manifest_diff ?old ?new)) then None else hash_map ?old asset)
      = [''b'' \<mapsto> replicate 32 3]"
    by (auto simp: fun_eq_iff hash_map_def defs)
  moreover have "(\<lambda>asset. case manifest_get ?new asset of
         None \<Rightarrow> None
       | Some e \<Rightarrow> if unat (ae_size_bytes e) \<le> 64 * 2 ^ 20 then Some (ae_blake3_bytes e) else hash_map ?old asset)
      = [''b'' \<mapsto> replicate 32 2, ''c'' \<mapsto> replicate 32 4]"
    by (auto simp: fun_eq_iff hash_map_def defs)
  ultimately show ?thesis using r by simp
qed

section \<open>Malformed input\<close>

text \<open>A plus sign passes for a hexadecimal digit.\<close>

lemma plus_sign_accepted: "hex_to_bytes (concat (replicate 32 ''+f'')) = Some (Inr (replicate 32 15))"
  by code_simp

text \<open>A hash text with a two-byte character across a slice ends in a panic instead of an error.\<close>

lemma hex_panics: "hex_to_bytes (''a'' @ utf8 [0xC3, 0xA9] @ replicate 61 CHR ''a'') = None"
  by code_simp

text \<open>The budget check wraps around: with one byte in progress an asset of the largest size is admitted.\<close>

lemma budget_wraps:
  "take_fitting 1 [OtaAsset ''a'' [] (- 1)] = ([OtaAsset ''a'' [] (- 1)], [], 0)"
  by (simp add: item_size_def OTA_MEMORY_BUDGET_def)

end
