(* ===== verification/Asset_Decryption.thy ===== *)
theory Asset_Decryption
  imports Crypto_Frames
begin

text \<open>
  Encrypted assets: the build tool that encrypts and signs files
  (\<^verbatim>\<open>build/asset_encryptor/src/encrypt.rs\<close>), the reader that decrypts them in the game
  (\<^verbatim>\<open>engine/bevy_runtime/src/asset_decryption.rs\<close>) and the key store of incremental updates
  (\<^verbatim>\<open>engine/bevy_runtime/src/session_key_bridge.rs\<close>). The file system is a map from paths to files, the
  cipher and the signature scheme are parameters, random nonces are arguments.
\<close>

section \<open>Files\<close>

text \<open>A directory entry that exists but cannot be read is \<open>UnreadableFile\<close>; writing fails on the paths
  that are not writable.\<close>

datatype file_node = RegularFile bytes | UnreadableFile

record file_system =
  fs_files :: "string \<Rightarrow> file_node option"
  fs_writable :: "string \<Rightarrow> bool"

definition fs_read :: "file_system \<Rightarrow> string \<Rightarrow> bytes option" where
  "fs_read fs path = (case fs_files fs path of Some (RegularFile data) \<Rightarrow> Some data | _ \<Rightarrow> None)"

definition fs_write :: "string \<Rightarrow> bytes \<Rightarrow> file_system \<Rightarrow> file_system option" where
  "fs_write path data fs =
     (if fs_writable fs path then Some (fs\<lparr>fs_files := (fs_files fs)(path \<mapsto> RegularFile data)\<rparr>) else None)"

section \<open>The build tool\<close>

text \<open>The reasons an \<open>anyhow\<close> error carries.\<close>

datatype tool_error =
    KeyFileMissing string
  | CannotRead string
  | KeyFileLength nat string
  | EncryptionFailed CryptoError
  | CannotWrite string
  | FileTooShort nat
  | DecryptionFailed CryptoError
  | BadSignatureLength nat
  | SignatureRejected CryptoError

definition load_key_file :: "file_system \<Rightarrow> string \<Rightarrow> tool_error + bytes" where
  "load_key_file fs path =
     (if fs_files fs path = None then Inl (KeyFileMissing path)
      else case fs_read fs path of
        None \<Rightarrow> Inl (CannotRead path)
      | Some bs \<Rightarrow> if length bs \<noteq> 32 then Inl (KeyFileLength (length bs) path) else Inr bs)"

definition encrypt_file ::
  "aead \<Rightarrow> bytes \<Rightarrow> string \<Rightarrow> string \<Rightarrow> bytes \<Rightarrow> file_system \<Rightarrow> tool_error + file_system" where
  "encrypt_file C nonce input_path output_path key fs =
     (case fs_read fs input_path of
        None \<Rightarrow> Inl (CannotRead input_path)
      | Some plaintext \<Rightarrow>
          (case aes_encrypt C nonce key plaintext of
             Inl e \<Rightarrow> Inl (EncryptionFailed e)
           | Inr encrypted \<Rightarrow>
               (case fs_write output_path encrypted fs of
                  None \<Rightarrow> Inl (CannotWrite output_path)
                | Some fs' \<Rightarrow> Inr fs')))"

definition decrypt_file :: "aead \<Rightarrow> string \<Rightarrow> string \<Rightarrow> bytes \<Rightarrow> file_system \<Rightarrow> tool_error + file_system" where
  "decrypt_file C input_path output_path key fs =
     (case fs_read fs input_path of
        None \<Rightarrow> Inl (CannotRead input_path)
      | Some data \<Rightarrow>
          if length data < 12 + 16 then Inl (FileTooShort (length data))
          else
            (case aes_decrypt C key data of
               Inl e \<Rightarrow> Inl (DecryptionFailed e)
             | Inr plaintext \<Rightarrow>
                 (case fs_write output_path plaintext fs of
                    None \<Rightarrow> Inl (CannotWrite output_path)
                  | Some fs' \<Rightarrow> Inr fs')))"

text \<open>The loop over a directory: its entries as \<open>read_dir\<close> lists them, each with its path, name and
  extension; the nonces are those of the successive encryptions. An encrypted file is written beside the
  original.\<close>

record dir_entry =
  de_path :: string
  de_is_file :: bool
  de_extension :: string
  de_enc_path :: string

fun encrypt_entries ::
  "aead \<Rightarrow> bytes \<Rightarrow> (dir_entry \<times> bytes) list \<Rightarrow> nat \<Rightarrow> file_system \<Rightarrow> (tool_error + nat) \<times> file_system" where
  "encrypt_entries C key [] count fs = (Inr count, fs)"
| "encrypt_entries C key ((entry, nonce) # rest) count fs =
     (if \<not> de_is_file entry then encrypt_entries C key rest count fs
      else if de_extension entry = ''glb'' \<or> de_extension entry = ''png''
      then case encrypt_file C nonce (de_path entry) (de_enc_path entry) key fs of
             Inl e \<Rightarrow> (Inl e, fs)
           | Inr fs' \<Rightarrow> encrypt_entries C key rest (count + 1) fs'
      else encrypt_entries C key rest count fs)"

text \<open>The signature scheme: a signing key made from a seed, and verification with its two errors.\<close>

record signature_scheme =
  ss_sign :: "bytes \<Rightarrow> bytes \<Rightarrow> bytes"
  ss_verify :: "bytes \<Rightarrow> bytes \<Rightarrow> bytes \<Rightarrow> CryptoError + unit"

definition sign_file ::
  "signature_scheme \<Rightarrow> string \<Rightarrow> string \<Rightarrow> string \<Rightarrow> file_system \<Rightarrow> tool_error + file_system" where
  "sign_file S file_path sig_path key_file fs =
     bind_sum (load_key_file fs key_file) (\<lambda>seed.
       case fs_read fs file_path of
         None \<Rightarrow> Inl (CannotRead file_path)
       | Some content \<Rightarrow>
           (case fs_write sig_path (ss_sign S seed content) fs of
              None \<Rightarrow> Inl (CannotWrite sig_path)
            | Some fs' \<Rightarrow> Inr fs'))"

definition verify_file ::
  "signature_scheme \<Rightarrow> string \<Rightarrow> string \<Rightarrow> string \<Rightarrow> file_system \<Rightarrow> tool_error + unit" where
  "verify_file S file_path key_file sig_file fs =
     bind_sum (load_key_file fs key_file) (\<lambda>pub_bytes.
       case fs_read fs file_path of
         None \<Rightarrow> Inl (CannotRead file_path)
       | Some content \<Rightarrow>
           (case fs_read fs sig_file of
              None \<Rightarrow> Inl (CannotRead sig_file)
            | Some sig_bytes \<Rightarrow>
                if length sig_bytes \<noteq> 64 then Inl (BadSignatureLength (length sig_bytes))
                else map_inl SignatureRejected (ss_verify S pub_bytes content sig_bytes)))"

section \<open>The reader\<close>

definition L1_CACHE_SIZE :: nat where "L1_CACHE_SIZE = 8 * 1024 * 1024"
definition CIPHERTEXT_MIN_LEN :: nat where "CIPHERTEXT_MIN_LEN = 28"

datatype AssetDecryptionError =
    AdInvalidFormat string
  | AdAuthTagMismatch
  | AdChunkTooLarge nat nat
  | AdNoSessionKey
  | AdChunkError nat
  | AdPlaintextNotAllowed
  | AdIoError string

text \<open>The key store; key bytes are zeroised when they are dropped, which no later read can see.\<close>

type_synonym SessionKeyStore = "bytes option"

definition key_store_new :: SessionKeyStore where "key_store_new = None"
definition set_key :: "bytes \<Rightarrow> SessionKeyStore \<Rightarrow> SessionKeyStore" where "set_key key s = Some key"
definition store_key :: "bytes \<Rightarrow> SessionKeyStore \<Rightarrow> SessionKeyStore" where "store_key key s = Some key"
definition rotate_key :: "bytes \<Rightarrow> SessionKeyStore \<Rightarrow> SessionKeyStore" where "rotate_key new_key s = Some new_key"

definition get_encryption_key :: "SessionKeyStore \<Rightarrow> AssetDecryptionError + bytes" where
  "get_encryption_key s = (case s of None \<Rightarrow> Inl AdNoSessionKey | Some key \<Rightarrow> Inr key)"

definition clear_key :: "SessionKeyStore \<Rightarrow> SessionKeyStore" where "clear_key s = None"
definition has_key :: "SessionKeyStore \<Rightarrow> bool" where "has_key s \<longleftrightarrow> s \<noteq> None"

text \<open>The decryptor with its staging buffer of 8 MB.\<close>

record AssetDecryptor =
  ad_session_key :: bytes
  ad_buffer :: bytes

definition zero_buffer :: bytes where
  "zero_buffer = replicate L1_CACHE_SIZE 0"

definition decryptor_new :: "bytes \<Rightarrow> AssetDecryptor" where
  "decryptor_new key = \<lparr>ad_session_key = key, ad_buffer = zero_buffer\<rparr>"

definition decryptor_zeroize :: "AssetDecryptor \<Rightarrow> AssetDecryptor" where
  "decryptor_zeroize d = d\<lparr>ad_buffer := map (\<lambda>_. 0) (ad_buffer d)\<rparr>"

text \<open>\<open>copy_from_slice\<close> panics when the lengths differ.\<close>

definition decrypt_chunk ::
  "aead \<Rightarrow> bytes \<Rightarrow> AssetDecryptor \<Rightarrow> panic + (AssetDecryptionError + bytes) \<times> AssetDecryptor" where
  "decrypt_chunk C ciphertext d =
     (if length ciphertext < CIPHERTEXT_MIN_LEN
      then Inr (Inl (AdInvalidFormat (utf8 [0xE5, 0xAF, 0x86, 0xE6, 0x96, 0x87, 0xE9, 0x95, 0xB7, 0xE5, 0xBA, 0xA6, 0xE4, 0xB8, 0x8D, 0xE8, 0xB6, 0xB3] @ '' 28 bytes'' @ utf8 [0xEF, 0xBC, 0x88] @ ''12 nonce + 0 '' @ utf8 [0xE6, 0x98, 0x8E, 0xE6, 0x96, 0x87] @ '' + 16 tag'' @ utf8 [0xEF, 0xBC, 0x89])), d)
      else let plaintext_len = length ciphertext - CIPHERTEXT_MIN_LEN
        in if plaintext_len > L1_CACHE_SIZE then Inr (Inl (AdChunkTooLarge plaintext_len L1_CACHE_SIZE), d)
           else case aes_decrypt C (ad_session_key d) ciphertext of
             Inr plaintext \<Rightarrow>
               if length plaintext \<noteq> plaintext_len then Inl Panic
               else let buffer = plaintext @ drop plaintext_len (ad_buffer d)
                 in Inr (Inr (take plaintext_len buffer), d\<lparr>ad_buffer := buffer\<rparr>)
           | Inl _ \<Rightarrow> Inr (Inl AdAuthTagMismatch, decryptor_zeroize d))"

text \<open>The loop over the chunks: how many remain, the index, offset and output so far. The output is
  zeroised on errors before it is dropped.\<close>

primrec chunk_loop ::
  "nat \<Rightarrow> aead \<Rightarrow> bytes \<Rightarrow> nat \<Rightarrow> nat \<Rightarrow> bytes \<Rightarrow> AssetDecryptor \<Rightarrow> panic + (AssetDecryptionError + bytes)" where
  "chunk_loop 0 C encrypted_bytes i offset output d = Inr (Inr output)"
| "chunk_loop (Suc n) C encrypted_bytes i offset output d =
     (if offset + 4 > length encrypted_bytes then Inr (Inl (AdChunkError i))
      else
        let chunk_len = unat (from_le_bytes (take 4 (drop offset encrypted_bytes)) :: u32);
            offset = offset + 4
        in if offset + chunk_len > length encrypted_bytes then Inr (Inl (AdChunkError i))
           else
             let chunk_data = take chunk_len (drop offset encrypted_bytes);
                 offset = offset + chunk_len
             in case decrypt_chunk C chunk_data d of
                  Inl p \<Rightarrow> Inl p
                | Inr (Inr plaintext, d) \<Rightarrow>
                    chunk_loop n C encrypted_bytes (i + 1) offset (output @ plaintext) (decryptor_zeroize d)
                | Inr (Inl e, _) \<Rightarrow>
                    Inr (Inl (if e = AdAuthTagMismatch then AdAuthTagMismatch else AdChunkError i)))"

definition decrypt_all :: "aead \<Rightarrow> SessionKeyStore \<Rightarrow> bytes \<Rightarrow> panic + (AssetDecryptionError + bytes)" where
  "decrypt_all C key_store encrypted_bytes =
     (case get_encryption_key key_store of
        Inl e \<Rightarrow> Inr (Inl e)
      | Inr key \<Rightarrow>
          let decryptor = decryptor_new key
          in if length encrypted_bytes \<le> L1_CACHE_SIZE + CIPHERTEXT_MIN_LEN
             then (case decrypt_chunk C encrypted_bytes decryptor of Inl p \<Rightarrow> Inl p | Inr (r, _) \<Rightarrow> Inr r)
             else if length encrypted_bytes < 4
             then Inr (Inl (AdInvalidFormat (utf8 [0xE5, 0x88, 0x86, 0xE7, 0x89, 0x87, 0xE6, 0xA0, 0xBC, 0xE5, 0xBC, 0x8F, 0xEF, 0xBC, 0x9A, 0xE8, 0xB3, 0x87, 0xE6, 0x96, 0x99, 0xE4, 0xB8, 0x8D, 0xE8, 0xB6, 0xB3, 0xE4, 0xBB, 0xA5, 0xE5, 0x8C, 0x85, 0xE5, 0x90, 0xAB] @ '' chunk_count'')))
             else
               let chunk_count = unat (from_le_bytes (take 4 encrypted_bytes) :: u32)
               in chunk_loop chunk_count C encrypted_bytes 0 4 [] decryptor)"

definition display_decryption_error :: "AssetDecryptionError \<Rightarrow> string" where
  "display_decryption_error e =
     (case e of
        AdInvalidFormat reason \<Rightarrow> utf8 [0xE5, 0xAF, 0x86, 0xE6, 0x96, 0x87, 0xE6, 0xA0, 0xBC, 0xE5, 0xBC, 0x8F, 0xE7, 0x84, 0xA1, 0xE6, 0x95, 0x88, 0xEF, 0xBC, 0x9A] @ reason
      | AdAuthTagMismatch \<Rightarrow> ''AES-GCM '' @ utf8 [0xE8, 0xAA, 0x8D, 0xE8, 0xAD, 0x89, 0xE6, 0xA8, 0x99, 0xE7, 0xB1, 0xA4, 0xE9, 0xA9, 0x97, 0xE8, 0xAD, 0x89, 0xE5, 0xA4, 0xB1, 0xE6, 0x95, 0x97]
      | AdChunkTooLarge n limit \<Rightarrow>
          utf8 [0xE6, 0x98, 0x8E, 0xE6, 0x96, 0x87, 0xE5, 0x8D, 0x80, 0xE5, 0xA1, 0x8A, 0xE5, 0xA4, 0xA7, 0xE5, 0xB0, 0x8F] @ '' '' @ decimal n @ '' bytes '' @ utf8 [0xE8, 0xB6, 0x85, 0xE9, 0x81, 0x8E, 0xE4, 0xB8, 0x8A, 0xE9, 0x99, 0x90] @ '' '' @ decimal limit @ '' bytes''
      | AdNoSessionKey \<Rightarrow> utf8 [0xE5, 0xB0, 0x9A, 0xE6, 0x9C, 0xAA, 0xE8, 0xA8, 0xAD, 0xE5, 0xAE, 0x9A] @ '' session key''
      | AdChunkError i \<Rightarrow> utf8 [0xE5, 0x88, 0x86, 0xE7, 0x89, 0x87, 0xE8, 0xA7, 0xA3, 0xE5, 0xAF, 0x86, 0xE5, 0xA4, 0xB1, 0xE6, 0x95, 0x97, 0xEF, 0xBC, 0x9A] @ ''chunk '' @ decimal i
      | AdPlaintextNotAllowed \<Rightarrow> utf8 [0xE9, 0x9D, 0x9E, 0xE5, 0x8A, 0xA0, 0xE5, 0xAF, 0x86, 0xE8, 0xB3, 0x87, 0xE7, 0x94, 0xA2, 0xE5, 0x9C, 0xA8, 0xE9, 0x9D, 0x9E] @ '' plaintext-assets '' @ utf8 [0xE6, 0xA8, 0xA1, 0xE5, 0xBC, 0x8F, 0xE4, 0xB8, 0x8B, 0xE4, 0xB8, 0x8D, 0xE8, 0xA2, 0xAB, 0xE5, 0x85, 0x81, 0xE8, 0xA8, 0xB1]
      | AdIoError e \<Rightarrow> ''I/O '' @ utf8 [0xE9, 0x8C, 0xAF, 0xE8, 0xAA, 0xA4, 0xEF, 0xBC, 0x9A] @ e)"

text \<open>Reading an asset: the errors of the inner reader are \<open>'e\<close>, those of decryption become I/O errors,
  and a bad authentication tag is a panic.\<close>

datatype 'e AssetReaderError = InnerReaderError 'e | ReaderIo string

definition into_asset_reader_error :: "AssetDecryptionError \<Rightarrow> 'e AssetReaderError" where
  "into_asset_reader_error e = ReaderIo (display_decryption_error e)"

definition reader_read ::
  "aead \<Rightarrow> (string \<Rightarrow> 'e + bytes) \<Rightarrow> SessionKeyStore \<Rightarrow> string \<Rightarrow> panic + ('e AssetReaderError + bytes)" where
  "reader_read C inner key_store path =
     (if \<not> has_key key_store then Inr (Inl (into_asset_reader_error AdNoSessionKey))
      else case inner path of
        Inl e \<Rightarrow> Inr (Inl (InnerReaderError e))
      | Inr encrypted_bytes \<Rightarrow>
          (case decrypt_all C key_store encrypted_bytes of
             Inl p \<Rightarrow> Inl p
           | Inr (Inl e) \<Rightarrow>
               if e = AdAuthTagMismatch then Inl Panic else Inr (Inl (into_asset_reader_error e))
           | Inr (Inr decrypted) \<Rightarrow> Inr (Inr decrypted)))"

definition reader_read_meta :: "(string \<Rightarrow> 'e + bytes) \<Rightarrow> string \<Rightarrow> 'e AssetReaderError + bytes" where
  "reader_read_meta inner path = map_inl InnerReaderError (inner path)"

section \<open>The key of incremental updates\<close>

datatype SessionKeyError = KeyNotInitialized | DerivationFailed string

definition OTA_HKDF_INFO :: bytes where
  "OTA_HKDF_INFO = map (\<lambda>c. of_nat (of_char c)) ''ota-encryption-key''"

record OtaKeyStore =
  ok_encryption_key :: bytes
  ok_initialized :: bool

definition ota_key_store_new :: OtaKeyStore where
  "ota_key_store_new = \<lparr>ok_encryption_key = replicate 32 0, ok_initialized = False\<rparr>"

definition store_from_ecdh ::
  "(bytes \<Rightarrow> bytes \<Rightarrow> bytes \<Rightarrow> string + bytes) \<Rightarrow> bytes \<Rightarrow> bytes \<Rightarrow> bytes \<Rightarrow> OtaKeyStore
     \<Rightarrow> (SessionKeyError + unit) \<times> OtaKeyStore" where
  "store_from_ecdh hkdf shared_secret client_public_key server_public_key s =
     (let salt = build_hkdf_salt client_public_key server_public_key
      in case derive_session_key hkdf shared_secret salt OTA_HKDF_INFO of
           Inl e \<Rightarrow> (Inl (DerivationFailed (display_crypto_error e)), s)
         | Inr key \<Rightarrow> (Inr (), s\<lparr>ok_encryption_key := key, ok_initialized := True\<rparr>))"

definition ota_get_encryption_key :: "OtaKeyStore \<Rightarrow> SessionKeyError + bytes" where
  "ota_get_encryption_key s = (if \<not> ok_initialized s then Inl KeyNotInitialized else Inr (ok_encryption_key s))"

definition ota_rotate ::
  "(bytes \<Rightarrow> bytes \<Rightarrow> bytes \<Rightarrow> string + bytes) \<Rightarrow> bytes \<Rightarrow> bytes \<Rightarrow> bytes \<Rightarrow> OtaKeyStore
     \<Rightarrow> (SessionKeyError + unit) \<times> OtaKeyStore" where
  "ota_rotate hkdf new_shared_secret client_public_key server_public_key s =
     store_from_ecdh hkdf new_shared_secret client_public_key server_public_key
       (s\<lparr>ok_encryption_key := map (\<lambda>_. 0) (ok_encryption_key s), ok_initialized := False\<rparr>)"

text \<open>A failed rotation leaves no key behind.\<close>

lemma ota_rotate_failure:
  "fst (ota_rotate hkdf ss c p s) = Inl e \<Longrightarrow>
     ota_get_encryption_key (snd (ota_rotate hkdf ss c p s)) = Inl KeyNotInitialized
     \<and> ok_encryption_key (snd (ota_rotate hkdf ss c p s)) = map (\<lambda>_. 0) (ok_encryption_key s)"
  by (auto simp: ota_rotate_def store_from_ecdh_def ota_get_encryption_key_def Let_def split: sum.splits)

section \<open>Chunks\<close>

text \<open>A chunk \<open>c\<close> that holds the plaintext \<open>m\<close>, and the framed chunks of a large asset.\<close>

definition sealed :: "aead \<Rightarrow> bytes \<Rightarrow> bytes \<Rightarrow> bytes \<Rightarrow> bool" where
  "sealed C key m c \<longleftrightarrow> length c = length m + 28 \<and> length m \<le> L1_CACHE_SIZE \<and> aes_decrypt C key c = Inr m"

definition framed :: "bytes list \<Rightarrow> bytes" where
  "framed cs = concat (map (\<lambda>c. le_bytes 4 (of_nat (length c) :: u32) @ c) cs)"

lemma framed_Cons: "framed (c # cs) = le_bytes 4 (of_nat (length c) :: u32) @ c @ framed cs"
  by (simp add: framed_def)

lemma aes_decrypt_encrypt:
  assumes "aead_correct C" "length nonce = 12" "aes_encrypt C nonce key m = Inr c"
  shows "length c = length m + 28 \<and> aes_decrypt C key c = Inr m"
proof -
  obtain ct where ct: "aead_encrypt C key nonce m [] = Some ct" "c = nonce @ ct"
    using assms(3) by (auto simp: aes_encrypt_def aes_gcm_encrypt_def split: option.splits)
  then show ?thesis
    using aes_roundtrip [OF assms(1-3)] aead_correctD(2) [OF assms(1) ct(1)] assms(2) by simp
qed

lemma encrypt_sealed:
  assumes "aead_correct C" "length nonce = 12" "aes_encrypt C nonce key m = Inr c" "length m \<le> L1_CACHE_SIZE"
  shows "sealed C key m c"
  using aes_decrypt_encrypt [OF assms(1-3)] assms(4) by (simp add: sealed_def)

lemma decrypt_chunk_sealed:
  assumes "sealed C (ad_session_key d) m c"
  shows "decrypt_chunk C c d = Inr (Inr m, d\<lparr>ad_buffer := m @ drop (length m) (ad_buffer d)\<rparr>)"
  using assms by (simp add: decrypt_chunk_def sealed_def CIPHERTEXT_MIN_LEN_def Let_def)

lemma sealed_length_u32: "sealed C key m c \<Longrightarrow> unat (of_nat (length c) :: u32) = length c"
proof -
  assume "sealed C key m c"
  then have "length c < 2 ^ 32" by (auto simp: sealed_def L1_CACHE_SIZE_def)
  then show ?thesis by (simp add: unat_of_nat)
qed

lemma chunk_loop_step:
  assumes "sealed C (ad_session_key d) m c" "offset + 4 + length c \<le> length data"
    and "take 4 (drop offset data) = le_bytes 4 (of_nat (length c) :: u32)"
    and "take (length c) (drop (offset + 4) data) = c"
  shows "chunk_loop (Suc n) C data i offset out d
    = chunk_loop n C data (i + 1) (offset + 4 + length c) (out @ m)
        (decryptor_zeroize (d\<lparr>ad_buffer := m @ drop (length m) (ad_buffer d)\<rparr>))"
  using assms decrypt_chunk_sealed [OF assms(1)] by (simp add: Let_def sealed_length_u32 [OF assms(1)])

lemma chunk_loop_sealed:
  assumes "list_all2 (sealed C key) ms cs" "ad_session_key d = key"
  shows "chunk_loop (length cs) C (pre @ framed cs @ rest) i (length pre) out d = Inr (Inr (out @ concat ms))"
  using assms
proof (induction ms cs arbitrary: pre i out d rule: list_all2_induct)
  case (Cons m ms c cs)
  let ?data = "pre @ framed (c # cs) @ rest"
  let ?d = "decryptor_zeroize (d\<lparr>ad_buffer := m @ drop (length m) (ad_buffer d)\<rparr>)"
  let ?pre = "pre @ le_bytes 4 (of_nat (length c) :: u32) @ c"
  have "chunk_loop (length (c # cs)) C ?data i (length pre) out d
      = chunk_loop (length cs) C ?data (i + 1) (length pre + 4 + length c) (out @ m) ?d"
    unfolding list.size add_0_right add_Suc_right
    by (rule chunk_loop_step) (use Cons.hyps(1) Cons.prems in \<open>simp_all add: framed_Cons\<close>)
  also have "\<dots> = chunk_loop (length cs) C (?pre @ framed cs @ rest) (i + 1) (length ?pre) (out @ m) ?d"
    by (simp add: framed_Cons add.assoc)
  also have "\<dots> = Inr (Inr ((out @ m) @ concat ms))"
    by (rule Cons.IH) (use Cons.prems in \<open>simp add: decryptor_zeroize_def\<close>)
  finally show ?case by simp
qed simp

lemma decrypt_all_stream:
  assumes "list_all2 (sealed C key) ms cs" "length cs < 2 ^ 32"
    and "L1_CACHE_SIZE + 28 < 4 + length (framed cs @ rest)"
  shows "decrypt_all C (Some key) (le_bytes 4 (of_nat (length cs) :: u32) @ framed cs @ rest) = Inr (Inr (concat ms))"
proof -
  have "unat (of_nat (length cs) :: u32) = length cs" using assms(2) by (simp add: unat_of_nat)
  then show ?thesis
    using assms(3) chunk_loop_sealed [OF assms(1), of "decryptor_new key" "le_bytes 4 (of_nat (length cs) :: u32)" rest 0 "[]"]
    by (simp add: decrypt_all_def decryptor_new_def get_encryption_key_def CIPHERTEXT_MIN_LEN_def Let_def)
qed

lemma fs_read_write: "fs_write p data fs = Some fs' \<Longrightarrow> fs_read fs' p = Some data \<and> fs_writable fs' = fs_writable fs"
  by (auto simp: fs_write_def fs_read_def split: if_splits)

lemma encrypt_entries_count:
  "encrypt_entries C key es n fs = (Inr k, fs') \<Longrightarrow>
     k = n + length (filter (\<lambda>(e, _). de_is_file e \<and> de_extension e \<in> {''glb'', ''png''}) es)"
  by (induction C key es n fs arbitrary: k fs' rule: encrypt_entries.induct) (auto split: if_splits sum.splits)

text \<open>The reader over a file system.\<close>

definition file_reader :: "file_system \<Rightarrow> string \<Rightarrow> string + bytes" where
  "file_reader fs path = (case fs_read fs path of None \<Rightarrow> Inl path | Some data \<Rightarrow> Inr data)"

lemma reader_read_sealed:
  assumes "sealed C key m c" "inner path = Inr c"
  shows "reader_read C inner (Some key) path = Inr (Inr m)"
proof -
  have "length c \<le> L1_CACHE_SIZE + CIPHERTEXT_MIN_LEN"
    using assms(1) by (simp add: sealed_def CIPHERTEXT_MIN_LEN_def)
  moreover have "sealed C (ad_session_key (decryptor_new key)) m c"
    using assms(1) by (simp add: decryptor_new_def)
  ultimately show ?thesis
    using decrypt_chunk_sealed assms(2)
    by (simp add: reader_read_def has_key_def decrypt_all_def get_encryption_key_def Let_def)
qed

text \<open>The build tool never writes the chunked form: its output for a larger file is one chunk, whose nonce
  the reader takes for the number of chunks and the length of the first. When that length exceeds the file,
  the asset cannot be read.\<close>

lemma large_asset_unreadable:
  assumes "aead_correct C" "length nonce = 12" "aes_encrypt C nonce key m = Inr c" "length m > L1_CACHE_SIZE"
    and "unat (from_le_bytes (take 4 nonce) :: u32) \<noteq> 0"
    and "unat (from_le_bytes (take 4 (drop 4 nonce)) :: u32) > length m + 20"
  shows "decrypt_all C (Some key) c = Inr (Inl (AdChunkError 0))"
proof -
  obtain ct where ct: "aead_encrypt C key nonce m [] = Some ct" "c = nonce @ ct"
    using assms(3) by (auto simp: aes_encrypt_def aes_gcm_encrypt_def split: option.splits)
  have len: "length ct = length m + 16" by (rule aead_correctD(2) [OF assms(1) ct(1)])
  obtain n where n: "unat (from_le_bytes (take 4 nonce) :: u32) = Suc n" using assms(5) by (cases "unat (from_le_bytes (take 4 nonce) :: u32)") auto
  have t: "take 4 (nonce @ ct) = take 4 nonce" "take 4 (drop 4 (nonce @ ct)) = take 4 (drop 4 nonce)"
    using assms(2) by simp_all
  show ?thesis
    using assms(2,4,6) len unfolding ct(2)
    by (simp add: decrypt_all_def get_encryption_key_def CIPHERTEXT_MIN_LEN_def Let_def n t del: take_append drop_append)
qed

section \<open>Properties\<close>

text \<open>C34: What the build tool encrypts, it decrypts to the original, whatever its size. What the game makes of the encrypted
  file, under the same key, depends on the size: up to 8 MB its decrypting reader returns the original; a larger file it
  refuses with a chunk error, since it takes the nonce for the header of the chunked form (here for a nonce whose first
  eight bytes, read as that header, announce a chunk longer than the file).\<close>

theorem asset_pipeline_roundtrip:
  assumes "aead_correct C" "length nonce = 12" "encrypt_file C nonce inp out key fs = Inr fs'"
    and "fs_read fs inp = Some m" "fs_writable fs dst"
  shows "map_sum (\<lambda>e. e) (\<lambda>f. fs_read f dst) (decrypt_file C out dst key fs') = Inr (Some m)
    \<and> (length m \<le> 8 * 2 ^ 20 \<longrightarrow> reader_read C (file_reader fs') (Some key) out = Inr (Inr m))
    \<and> (8 * 2 ^ 20 < length m \<and> (from_le_bytes (take 4 nonce) :: u32) \<noteq> 0
        \<and> length m + 20 < unat (from_le_bytes (take 4 (drop 4 nonce)) :: u32)
       \<longrightarrow> reader_read C (file_reader fs') (Some key) out = Inr (Inl (into_asset_reader_error (AdChunkError 0))))"
proof -
  obtain c where c: "aes_encrypt C nonce key m = Inr c" "fs_write out c fs = Some fs'"
    using assms(3,4) by (auto simp: encrypt_file_def split: sum.splits option.splits)
  have d: "length c = length m + 28" "aes_decrypt C key c = Inr m"
    using aes_decrypt_encrypt [OF assms(1,2) c(1)] by simp_all
  obtain fs'' where w: "fs_write dst m fs' = Some fs''"
    using assms(5) fs_read_write [OF c(2)] by (auto simp: fs_write_def)
  have "decrypt_file C out dst key fs' = Inr fs''"
    using d w fs_read_write [OF c(2)] by (simp add: decrypt_file_def)
  moreover have "reader_read C (file_reader fs') (Some key) out = Inr (Inr m)" if "length m \<le> 8 * 2 ^ 20"
    using d that fs_read_write [OF c(2)] by (intro reader_read_sealed) (simp_all add: file_reader_def sealed_def L1_CACHE_SIZE_def)
  moreover have "reader_read C (file_reader fs') (Some key) out = Inr (Inl (into_asset_reader_error (AdChunkError 0)))"
    if "8 * 2 ^ 20 < length m" "(from_le_bytes (take 4 nonce) :: u32) \<noteq> 0"
      "length m + 20 < unat (from_le_bytes (take 4 (drop 4 nonce)) :: u32)"
    using large_asset_unreadable [OF assms(1,2) c(1)] that fs_read_write [OF c(2)]
    by (simp add: reader_read_def has_key_def file_reader_def L1_CACHE_SIZE_def unat_eq_0)
  ultimately show ?thesis using fs_read_write [OF w] by simp
qed

definition toy_cipher :: aead where
  "toy_cipher = \<lparr>aead_encrypt = \<lambda>k n m a. Some (m @ replicate 16 9),
     aead_decrypt = \<lambda>k n c a. if drop (length c - 16) c = replicate 16 9 then Some (take (length c - 16) c) else None\<rparr>"

lemma toy_cipher_correct: "aead_correct toy_cipher"
  by (auto simp: aead_correct_def toy_cipher_def)

definition toy_fs :: file_system where
  "toy_fs = \<lparr>fs_files = [''a.png'' \<mapsto> RegularFile [1, 2, 3]], fs_writable = \<lambda>_. True\<rparr>"

theorem asset_pipeline_roundtrip_witness:
  "reader_read toy_cipher (file_reader (toy_fs\<lparr>fs_files := (fs_files toy_fs)(''a.png.enc'' \<mapsto>
       RegularFile (replicate 12 7 @ [1, 2, 3] @ replicate 16 9))\<rparr>)) (Some [5]) ''a.png.enc'' = Inr (Inr [1, 2, 3])"
proof -
  let ?fs = "toy_fs\<lparr>fs_files := (fs_files toy_fs)(''a.png.enc'' \<mapsto> RegularFile (replicate 12 7 @ [1, 2, 3] @ replicate 16 9))\<rparr>"
  have "encrypt_file toy_cipher (replicate 12 7) ''a.png'' ''a.png.enc'' [5] toy_fs = Inr ?fs"
    by (simp add: encrypt_file_def toy_fs_def fs_read_def fs_write_def aes_encrypt_def aes_gcm_encrypt_def toy_cipher_def)
  moreover have "fs_read toy_fs ''a.png'' = Some [1, 2, 3]" "fs_writable toy_fs ''b''"
    by (simp_all add: toy_fs_def fs_read_def)
  moreover have "length (replicate 12 7) = 12" "length [1, 2, 3 :: u8] \<le> 8 * 2 ^ 20"
    by simp_all
  ultimately show ?thesis using asset_pipeline_roundtrip toy_cipher_correct by blast
qed

text \<open>The chunked form of large assets decrypts, but its header is not authenticated: for any number
  up to the number of chunks in the file, a header with that number is accepted and yields exactly the
  plaintexts of that many chunks. With the true number this is the whole asset; with a smaller one, a file
  cut short without an error.\<close>

lemma chunk_count_trusted:
  assumes "list_all2 (sealed C key) ms cs" "length cs < 2 ^ 32" "L1_CACHE_SIZE + 24 < length (framed cs)"
    and "k \<le> length cs"
  shows "decrypt_all C (Some key) (le_bytes 4 (of_nat k :: u32) @ framed cs) = Inr (Inr (concat (take k ms)))"
proof -
  have cs: "framed cs = framed (take k cs) @ framed (drop k cs)"
    by (simp add: framed_def flip: concat_append map_append)
  have "list_all2 (sealed C key) (take k ms) (take k cs)" using assms(1) by (rule list_all2_takeI)
  from decrypt_all_stream [OF this, of "framed (drop k cs)"] show ?thesis
    using assms(2-4) cs by simp
qed

lemma chunk_count_trusted_example:
  "decrypt_all toy_cipher (Some [5])
     (le_bytes 4 (1 :: u32) @ framed (replicate 2 (replicate 12 7 @ replicate 8388608 1 @ replicate 16 9)))
   = Inr (Inr (replicate 8388608 1))"
proof -
  let ?m = "replicate 8388608 (1 :: u8)" and ?c = "replicate 12 7 @ replicate 8388608 1 @ replicate 16 (9 :: u8)"
  have "sealed toy_cipher [5] ?m ?c"
    by (rule encrypt_sealed [OF toy_cipher_correct, of "replicate 12 7"])
      (simp_all add: aes_encrypt_def aes_gcm_encrypt_def toy_cipher_def L1_CACHE_SIZE_def)
  then have 1: "list_all2 (sealed toy_cipher [5]) [?m, ?m] [?c, ?c]" by simp
  have 2: "L1_CACHE_SIZE + 24 < length (framed [?c, ?c])" by (simp add: framed_def L1_CACHE_SIZE_def)
  have 3: "length [?c, ?c] < 2 ^ 32" by simp
  have "replicate 2 ?c = [?c, ?c]" by (simp add: numeral_2_eq_2)
  then show ?thesis
    using chunk_count_trusted [OF 1 3 2, of 1] by simp
qed

end
