(* ===== verification/Memory_Regions.thy ===== *)
theory Memory_Regions
  imports Ordered_Map Deterministic Machines
begin

text \<open>
  The memory budget of the WebAssembly client: the boundary guard
  (\<^verbatim>\<open>engine/bevy_runtime/src/memory_guard.rs\<close>), the monitor with its own guard
  (\<^verbatim>\<open>engine/bevy_runtime/src/memory_monitor.rs\<close>) and the cache of decrypted data
  (\<^verbatim>\<open>engine/bevy_runtime/src/l1_cache.rs\<close>). A \<open>usize\<close> is a natural number; its largest value, which
  differs between the browser and the native build, is the parameter \<open>umax\<close>, and plain arithmetic wraps
  around after it.
\<close>

section \<open>Regions\<close>

datatype MemoryRegion =
  EcsHeap | VmRuntime | VmStack | EcsMirrorRegion | ShadowValidation | L1Cache | RuntimeHeap

definition region_index :: "MemoryRegion \<Rightarrow> nat" where
  "region_index r =
     (case r of EcsHeap \<Rightarrow> 0 | VmRuntime \<Rightarrow> 1 | VmStack \<Rightarrow> 2 | EcsMirrorRegion \<Rightarrow> 3 | ShadowValidation \<Rightarrow> 4
      | L1Cache \<Rightarrow> 5 | RuntimeHeap \<Rightarrow> 6)"

definition max_bytes :: "MemoryRegion \<Rightarrow> nat" where
  "max_bytes r =
     (case r of
        EcsHeap \<Rightarrow> 256 * 1024 * 1024
      | VmRuntime \<Rightarrow> 64 * 1024 * 1024
      | VmStack \<Rightarrow> 4 * 1024 * 1024
      | EcsMirrorRegion \<Rightarrow> 16 * 1024 * 1024
      | ShadowValidation \<Rightarrow> 32 * 1024 * 1024
      | L1Cache \<Rightarrow> 8 * 1024 * 1024
      | RuntimeHeap \<Rightarrow> 132 * 1024 * 1024)"

definition base_offset :: "MemoryRegion \<Rightarrow> nat" where
  "base_offset r =
     (case r of
        EcsHeap \<Rightarrow> 0x00000000
      | VmRuntime \<Rightarrow> 0x10000000
      | VmStack \<Rightarrow> 0x14000000
      | EcsMirrorRegion \<Rightarrow> 0x14400000
      | ShadowValidation \<Rightarrow> 0x15400000
      | L1Cache \<Rightarrow> 0x17400000
      | RuntimeHeap \<Rightarrow> 0x17C00000)"

definition growable :: "MemoryRegion \<Rightarrow> bool" where
  "growable r \<longleftrightarrow> r = RuntimeHeap"

definition ALL_REGIONS :: "MemoryRegion list" where
  "ALL_REGIONS = [EcsHeap, VmRuntime, VmStack, EcsMirrorRegion, ShadowValidation, L1Cache, RuntimeHeap]"

definition TOTAL_MEMORY_CAP :: nat where "TOTAL_MEMORY_CAP = 512 * 1024 * 1024"
definition WASM_PAGE_SIZE :: nat where "WASM_PAGE_SIZE = 65536"

instantiation MemoryRegion :: linorder
begin

definition less_eq_MemoryRegion :: "MemoryRegion \<Rightarrow> MemoryRegion \<Rightarrow> bool" where
  "less_eq_MemoryRegion p q \<longleftrightarrow> region_index p \<le> region_index q"

definition less_MemoryRegion :: "MemoryRegion \<Rightarrow> MemoryRegion \<Rightarrow> bool" where
  "less_MemoryRegion p q \<longleftrightarrow> region_index p < region_index q"

instance
  by standard (auto simp: less_eq_MemoryRegion_def less_MemoryRegion_def region_index_def split: MemoryRegion.splits)

end

lemma set_ALL_REGIONS [simp]: "set ALL_REGIONS = UNIV"
  by (auto simp: ALL_REGIONS_def intro: MemoryRegion.exhaust)

lemma region_index_less [simp]: "region_index r < 7"
  by (cases r) (simp_all add: region_index_def)

lemma region_index_eq_iff [simp]: "region_index r = region_index s \<longleftrightarrow> r = s"
  by (cases r; cases s) (simp_all add: region_index_def)

lemma map_region_index: "map region_index ALL_REGIONS = [0..<7]"
  by (simp add: ALL_REGIONS_def region_index_def upt_rec)

section \<open>Boundary guard\<close>

definition usize_checked_add :: "nat \<Rightarrow> nat \<Rightarrow> nat \<Rightarrow> nat option" where
  "usize_checked_add umax a b = (if a + b \<le> umax then Some (a + b) else None)"

datatype GuardError =
    GuardRegionOverflow MemoryRegion nat nat nat
  | GuardTotalCapExceeded nat nat
  | GuardGrowthFailed nat string
  | GuardOverflow

type_synonym RegionGuard = "nat list"

definition guard_new :: RegionGuard where
  "guard_new = replicate 7 0"

definition usage_of :: "MemoryRegion \<Rightarrow> RegionGuard \<Rightarrow> nat" where
  "usage_of region g = g ! region_index region"

definition total_usage :: "nat \<Rightarrow> RegionGuard \<Rightarrow> nat" where
  "total_usage umax g = sum_list g mod (umax + 1)"

definition check_allocation :: "nat \<Rightarrow> MemoryRegion \<Rightarrow> nat \<Rightarrow> RegionGuard \<Rightarrow> GuardError + unit" where
  "check_allocation umax region additional_bytes g =
     (let current = usage_of region g
      in case usize_checked_add umax current additional_bytes of
           None \<Rightarrow> Inl GuardOverflow
         | Some new_usage \<Rightarrow>
             (case usize_checked_add umax (total_usage umax g) additional_bytes of
                None \<Rightarrow> Inl GuardOverflow
              | Some new_total \<Rightarrow>
                  if new_total > TOTAL_MEMORY_CAP then Inl (GuardTotalCapExceeded TOTAL_MEMORY_CAP new_total)
                  else if new_usage > max_bytes region
                  then Inl (GuardRegionOverflow region additional_bytes current (max_bytes region))
                  else Inr ()))"

definition record_allocation :: "nat \<Rightarrow> MemoryRegion \<Rightarrow> nat \<Rightarrow> RegionGuard \<Rightarrow> RegionGuard" where
  "record_allocation umax region n g = g[region_index region := min (usage_of region g + n) umax]"

definition record_deallocation :: "MemoryRegion \<Rightarrow> nat \<Rightarrow> RegionGuard \<Rightarrow> RegionGuard" where
  "record_deallocation region n g = g[region_index region := usage_of region g - n]"

text \<open>Growing the heap: \<open>grow_pages\<close> is the browser's \<open>memory.grow\<close> behind the JavaScript object, absent
  in the native build.\<close>

definition try_grow_heap ::
  "nat \<Rightarrow> (nat \<Rightarrow> GuardError + unit) option \<Rightarrow> nat \<Rightarrow> RegionGuard \<Rightarrow> (GuardError + unit) \<times> RegionGuard" where
  "try_grow_heap umax grow_pages additional_bytes g =
     (if additional_bytes = 0 then (Inr (), g)
      else case check_allocation umax RuntimeHeap additional_bytes g of
        Inl e \<Rightarrow> (Inl e, g)
      | Inr _ \<Rightarrow>
          (case (case grow_pages of
                   None \<Rightarrow> Inr ()
                 | Some grow \<Rightarrow> grow ((additional_bytes + WASM_PAGE_SIZE - 1) mod (umax + 1) div WASM_PAGE_SIZE)) of
             Inl e \<Rightarrow> (Inl e, g)
           | Inr _ \<Rightarrow> (Inr (), record_allocation umax RuntimeHeap additional_bytes g)))"

section \<open>Monitor\<close>

datatype MonitorError =
    MonRegionOverflow MemoryRegion nat nat nat
  | MonTotalCapExceeded
  | MonOverflow
  | MonGrowFailed u32

type_synonym MonitorGuard = "(MemoryRegion, nat) btree"

definition usage_bytes :: "MemoryRegion \<Rightarrow> MonitorGuard \<Rightarrow> nat" where
  "usage_bytes region g = (case bm_get g region of None \<Rightarrow> 0 | Some n \<Rightarrow> n)"

definition allocate :: "nat \<Rightarrow> MemoryRegion \<Rightarrow> nat \<Rightarrow> MonitorGuard \<Rightarrow> (MonitorError + unit) \<times> MonitorGuard" where
  "allocate umax region n g =
     (let current = usage_bytes region g;
          g = bm_insert region current g
      in case usize_checked_add umax current n of
           None \<Rightarrow> (Inl MonOverflow, g)
         | Some new_total \<Rightarrow>
             if new_total > max_bytes region
             then (Inl (MonRegionOverflow region n current (max_bytes region)), g)
             else (Inr (), bm_insert region new_total g))"

definition deallocate :: "MemoryRegion \<Rightarrow> nat \<Rightarrow> MonitorGuard \<Rightarrow> MonitorGuard" where
  "deallocate region n g = bm_insert region (usage_bytes region g - n) g"

definition total_usage_bytes :: "nat \<Rightarrow> MonitorGuard \<Rightarrow> nat" where
  "total_usage_bytes umax g = sum_list (map snd g) mod (umax + 1)"

definition is_warn_threshold :: "nat \<Rightarrow> MonitorGuard \<Rightarrow> bool" where
  "is_warn_threshold umax g \<longleftrightarrow> total_usage_bytes umax g > TOTAL_MEMORY_CAP div 100 * 90"

record RegionReport =
  rr_region :: MemoryRegion
  rr_used_bytes :: nat
  rr_limit_bytes :: nat
  rr_is_exact :: bool

record MemoryMonitor =
  mm_guard :: MonitorGuard
  mm_last_report_frame :: "u64 option"

definition build_report :: "MemoryMonitor \<Rightarrow> RegionReport list" where
  "build_report m =
     map (\<lambda>region. \<lparr>rr_region = region, rr_used_bytes = usage_bytes region (mm_guard m),
            rr_limit_bytes = max_bytes region, rr_is_exact = region \<notin> {EcsHeap, RuntimeHeap}\<rparr>) ALL_REGIONS"

definition monitor_tick :: "u64 \<Rightarrow> MemoryMonitor \<Rightarrow> RegionReport list option \<times> MemoryMonitor" where
  "monitor_tick frame m =
     (case mm_last_report_frame m of
        None \<Rightarrow> let m = m\<lparr>mm_last_report_frame := Some frame\<rparr> in (Some (build_report m), m)
      | Some last_frame \<Rightarrow>
          if saturating_sub frame last_frame \<ge> 60
          then let m = m\<lparr>mm_last_report_frame := Some frame\<rparr> in (Some (build_report m), m)
          else (None, m))"

text \<open>The system that runs every frame: a panic above the cap, otherwise the percentage it warns with, if any.\<close>

definition monitor_memory :: "nat \<Rightarrow> u64 \<Rightarrow> MemoryMonitor \<Rightarrow> panic + nat option \<times> MemoryMonitor" where
  "monitor_memory umax tick_count m =
     (case monitor_tick tick_count m of
        (None, m) \<Rightarrow> Inr (None, m)
      | (Some _, m) \<Rightarrow>
          let used = total_usage_bytes umax (mm_guard m)
          in if used > TOTAL_MEMORY_CAP then Inl Panic
             else if is_warn_threshold umax (mm_guard m)
             then Inr (Some ((used * 100) mod (umax + 1) div TOTAL_MEMORY_CAP), m)
             else Inr (None, m))"

section \<open>Cache of decrypted data\<close>

record CacheEntry =
  ce_id :: string
  ce_data :: bytes
  ce_active :: bool
  ce_last_access_frame :: u64

record L1CacheManager =
  lc_entries :: "CacheEntry list"
  lc_total_bytes :: nat
  lc_capacity :: nat

definition cache_with_capacity :: "nat \<Rightarrow> L1CacheManager" where
  "cache_with_capacity capacity = \<lparr>lc_entries = [], lc_total_bytes = 0, lc_capacity = capacity\<rparr>"

definition cache_new :: L1CacheManager where
  "cache_new = cache_with_capacity (8 * 1024 * 1024)"

definition evict_all :: "L1CacheManager \<Rightarrow> L1CacheManager" where
  "evict_all c = c\<lparr>lc_entries := [], lc_total_bytes := 0\<rparr>"

definition evict_inactive :: "L1CacheManager \<Rightarrow> L1CacheManager" where
  "evict_inactive c =
     (let freed = (\<Sum>e\<leftarrow>filter (\<lambda>e. \<not> ce_active e) (lc_entries c). length (ce_data e))
      in c\<lparr>lc_entries := filter ce_active (lc_entries c), lc_total_bytes := lc_total_bytes c - freed\<rparr>)"

definition cache_insert :: "string \<Rightarrow> bytes \<Rightarrow> u64 \<Rightarrow> L1CacheManager \<Rightarrow> L1CacheManager" where
  "cache_insert name data current_frame c =
     c\<lparr>lc_total_bytes := lc_total_bytes c + length data,
       lc_entries := lc_entries c @
         [\<lparr>ce_id = name, ce_data = data, ce_active = True, ce_last_access_frame = current_frame\<rparr>]\<rparr>"

fun deactivate_first :: "string \<Rightarrow> CacheEntry list \<Rightarrow> CacheEntry list" where
  "deactivate_first name [] = []"
| "deactivate_first name (e # es) =
     (if ce_id e = name then e\<lparr>ce_active := False\<rparr> # es else e # deactivate_first name es)"

definition mark_inactive :: "string \<Rightarrow> L1CacheManager \<Rightarrow> L1CacheManager" where
  "mark_inactive name c = c\<lparr>lc_entries := deactivate_first name (lc_entries c)\<rparr>"

definition entry_count :: "L1CacheManager \<Rightarrow> nat" where
  "entry_count c = length (lc_entries c)"

section \<open>The address space\<close>

text \<open>The regions follow each other without gap or overlap and fill the 512 MB exactly.\<close>

lemma regions_tile:
  "map base_offset ALL_REGIONS = map (\<lambda>i. sum_list (take i (map max_bytes ALL_REGIONS))) [0..<7]
   \<and> sum_list (map max_bytes ALL_REGIONS) = TOTAL_MEMORY_CAP"
  by (simp add: ALL_REGIONS_def base_offset_def max_bytes_def TOTAL_MEMORY_CAP_def upt_rec)

section \<open>The two guards agree\<close>

definition guard_ok :: "RegionGuard \<Rightarrow> bool" where
  "guard_ok g \<longleftrightarrow> length g = 7 \<and> (\<forall>r. usage_of r g \<le> max_bytes r)"

definition monitor_ok :: "MonitorGuard \<Rightarrow> bool" where
  "monitor_ok g \<longleftrightarrow> bm_wf g \<and> (\<forall>r. usage_bytes r g \<le> max_bytes r)"

lemma sum_ALL_REGIONS: "(\<Sum>r\<leftarrow>ALL_REGIONS. f r) = sum f UNIV"
proof -
  have "distinct ALL_REGIONS" by (simp add: ALL_REGIONS_def)
  then show ?thesis by (simp add: sum_list_distinct_conv_sum_set)
qed

instance MemoryRegion :: finite
  by standard (metis set_ALL_REGIONS List.finite_set)

lemma sum_max_bytes: "sum max_bytes UNIV = TOTAL_MEMORY_CAP"
  using regions_tile by (simp add: sum_ALL_REGIONS [symmetric] ALL_REGIONS_def)

lemma guard_sum: "length g = 7 \<Longrightarrow> sum_list g = (\<Sum>r\<in>UNIV. usage_of r g)"
proof -
  assume "length g = 7"
  then have "map (\<lambda>r. usage_of r g) ALL_REGIONS = g"
    using map_region_index map_nth [of g] by (simp add: usage_of_def map_map [symmetric, unfolded comp_def] del: map_map)
  then show ?thesis by (metis sum_ALL_REGIONS)
qed

lemma monitor_sum: "bm_wf g \<Longrightarrow> sum_list (map snd g) = (\<Sum>r\<in>UNIV. usage_bytes r g)"
proof -
  assume wf: "bm_wf g"
  have "map snd g = map (\<lambda>r. usage_bytes r g) (map fst g)"
    using bm_get_iff [OF wf, THEN iffD2] by (auto simp: usage_bytes_def)
  then have "sum_list (map snd g) = (\<Sum>r\<in>set (map fst g). usage_bytes r g)"
    using bm_wf_distinct [OF wf] by (simp add: sum_list_distinct_conv_sum_set del: map_map)
  also have "\<dots> = (\<Sum>r\<in>UNIV. usage_bytes r g)"
    by (rule sum.mono_neutral_left) (auto simp: usage_bytes_def map_of_eq_None_iff split: option.splits dest: map_of_SomeD, force dest: map_of_SomeD)
  finally show ?thesis .
qed

lemma sum_within: "(\<And>r. f r \<le> max_bytes r) \<Longrightarrow> sum f UNIV \<le> TOTAL_MEMORY_CAP"
  unfolding sum_max_bytes [symmetric] by (rule sum_mono) simp

lemma guard_total:
  assumes "guard_ok g" "TOTAL_MEMORY_CAP \<le> umax"
  shows "total_usage umax g = (\<Sum>r\<in>UNIV. usage_of r g)" and "total_usage umax g \<le> TOTAL_MEMORY_CAP"
  using assms sum_within [of "\<lambda>r. usage_of r g"] by (simp_all add: guard_ok_def total_usage_def guard_sum)

lemma monitor_total:
  assumes "monitor_ok g" "TOTAL_MEMORY_CAP \<le> umax"
  shows "total_usage_bytes umax g = (\<Sum>r\<in>UNIV. usage_bytes r g)" and "total_usage_bytes umax g \<le> TOTAL_MEMORY_CAP"
  using assms sum_within [of "\<lambda>r. usage_bytes r g"] by (simp_all add: monitor_ok_def total_usage_bytes_def monitor_sum)

lemma max_bytes_le_cap: "max_bytes r \<le> TOTAL_MEMORY_CAP"
  by (cases r) (simp_all add: max_bytes_def TOTAL_MEMORY_CAP_def)

lemma usage_of_update: "length g = 7 \<Longrightarrow> usage_of s (g[region_index r := n]) = (if s = r then n else usage_of s g)"
  by (simp add: usage_of_def)

lemma usage_bytes_insert: "usage_bytes s (bm_insert r n g) = (if s = r then n else usage_bytes s g)"
  by (simp add: usage_bytes_def bm_get_insert)

text \<open>Only the region's own limit matters: within the limits, the check of the total never decides.\<close>

lemma check_allocation_iff:
  assumes "guard_ok g" "TOTAL_MEMORY_CAP \<le> umax"
  shows "check_allocation umax r n g = Inr () \<longleftrightarrow> usage_of r g + n \<le> max_bytes r"
proof
  assume "check_allocation umax r n g = Inr ()"
  then show "usage_of r g + n \<le> max_bytes r"
    by (auto simp: check_allocation_def Let_def usize_checked_add_def split: if_splits option.splits)
next
  assume le: "usage_of r g + n \<le> max_bytes r"
  have "total_usage umax g + n = (\<Sum>s\<in>UNIV. usage_of s g + (if s = r then n else 0))"
    using guard_total(1) [OF assms] by (simp add: sum.distrib)
  also have "\<dots> \<le> TOTAL_MEMORY_CAP"
    using assms(1) le by (intro sum_within) (simp add: guard_ok_def)
  finally show "check_allocation umax r n g = Inr ()"
    using le assms(2) max_bytes_le_cap [of r]
    by (simp add: check_allocation_def Let_def usize_checked_add_def)
qed

lemma allocate_iff:
  assumes "TOTAL_MEMORY_CAP \<le> umax"
  shows "fst (allocate umax r n g) = Inr () \<longleftrightarrow> usage_bytes r g + n \<le> max_bytes r"
  using assms max_bytes_le_cap [of r] by (auto simp: allocate_def Let_def usize_checked_add_def)

datatype memory_event = Take MemoryRegion nat | Release MemoryRegion nat

fun guard_step :: "nat \<Rightarrow> memory_event \<Rightarrow> RegionGuard \<Rightarrow> bool \<times> RegionGuard" where
  "guard_step umax (Take r n) g =
     (case check_allocation umax r n g of Inl _ \<Rightarrow> (False, g) | Inr _ \<Rightarrow> (True, record_allocation umax r n g))"
| "guard_step umax (Release r n) g = (True, record_deallocation r n g)"

fun monitor_step :: "nat \<Rightarrow> memory_event \<Rightarrow> MonitorGuard \<Rightarrow> bool \<times> MonitorGuard" where
  "monitor_step umax (Take r n) g = (case allocate umax r n g of (res, g) \<Rightarrow> (res = Inr (), g))"
| "monitor_step umax (Release r n) g = (True, deallocate r n g)"

fun memory_run :: "(memory_event \<Rightarrow> 'g \<Rightarrow> bool \<times> 'g) \<Rightarrow> memory_event list \<Rightarrow> 'g \<Rightarrow> bool list \<times> 'g" where
  "memory_run step [] g = ([], g)"
| "memory_run step (e # es) g =
     (case step e g of (ok, g) \<Rightarrow> (case memory_run step es g of (oks, g) \<Rightarrow> (ok # oks, g)))"

definition agree :: "RegionGuard \<Rightarrow> MonitorGuard \<Rightarrow> bool" where
  "agree g b \<longleftrightarrow> guard_ok g \<and> monitor_ok b \<and> (\<forall>r. usage_of r g = usage_bytes r b)"

lemma agree_step:
  assumes "agree g b" "TOTAL_MEMORY_CAP \<le> umax"
  shows "fst (guard_step umax e g) = fst (monitor_step umax e b)
    \<and> agree (snd (guard_step umax e g)) (snd (monitor_step umax e b))"
proof (cases e)
  case (Take r n)
  have g: "guard_ok g" and b: "monitor_ok b" and eq: "\<And>r. usage_of r g = usage_bytes r b"
    using assms(1) by (auto simp: agree_def)
  show ?thesis
  proof (cases "usage_bytes r b + n \<le> max_bytes r")
    case True
    then have "check_allocation umax r n g = Inr ()" using check_allocation_iff [OF g assms(2)] eq by simp
    moreover have "allocate umax r n b = (Inr (), bm_insert r (usage_bytes r b + n) (bm_insert r (usage_bytes r b) b))"
      using True assms(2) max_bytes_le_cap [of r] by (simp add: allocate_def Let_def usize_checked_add_def)
    ultimately show ?thesis
      using Take True g b eq assms(2) max_bytes_le_cap [of r]
      by (auto simp: agree_def guard_ok_def monitor_ok_def record_allocation_def usage_of_update usage_bytes_insert
          bm_wf_insert)
  next
    case False
    then have "check_allocation umax r n g \<noteq> Inr ()" using check_allocation_iff [OF g assms(2)] eq by simp
    then obtain err where "check_allocation umax r n g = Inl err" by (cases "check_allocation umax r n g") auto
    moreover have "fst (allocate umax r n b) \<noteq> Inr ()" using False allocate_iff [OF assms(2)] by simp
    moreover have "snd (allocate umax r n b) = bm_insert r (usage_bytes r b) b"
      using False by (simp add: allocate_def Let_def usize_checked_add_def)
    ultimately show ?thesis
      using Take g b eq
      by (auto simp: agree_def monitor_ok_def usage_bytes_insert bm_wf_insert case_prod_unfold)
  qed
next
  case (Release r n)
  then show ?thesis
    using assms(1)
    by (auto simp: agree_def guard_ok_def monitor_ok_def record_deallocation_def deallocate_def usage_of_update
        usage_bytes_insert bm_wf_insert intro: le_trans [OF diff_le_self])
qed

lemma agree_run:
  assumes "agree g b" "TOTAL_MEMORY_CAP \<le> umax"
  shows "fst (memory_run (guard_step umax) es g) = fst (memory_run (monitor_step umax) es b)
    \<and> agree (snd (memory_run (guard_step umax) es g)) (snd (memory_run (monitor_step umax) es b))"
  using assms(1)
proof (induction es arbitrary: g b)
  case (Cons e es)
  then show ?case using agree_step [OF Cons.prems assms(2), of e] by (simp add: case_prod_unfold)
qed simp

lemma agree_new: "agree guard_new []"
  using region_index_less
  by (simp add: agree_def guard_ok_def monitor_ok_def guard_new_def usage_of_def usage_bytes_def del: replicate.simps)

section \<open>Reports\<close>

fun report_frames :: "u64 list \<Rightarrow> MemoryMonitor \<Rightarrow> u64 list" where
  "report_frames [] m = []"
| "report_frames (f # fs) m =
     (case monitor_tick f m of
        (None, m) \<Rightarrow> report_frames fs m
      | (Some _, m) \<Rightarrow> f # report_frames fs m)"

lemma reports_sixty_apart:
  "successively (\<lambda>a b. unat a + 60 \<le> unat b)
     ((case mm_last_report_frame m of None \<Rightarrow> [] | Some l \<Rightarrow> [l]) @ report_frames fs m)"
proof (induction fs arbitrary: m)
  case (Cons f fs)
  have "unat l + 60 \<le> unat f" if "60 \<le> saturating_sub f l" for l
    using that by (simp add: word_le_nat_alt)
  then show ?case
    using Cons.IH [of "m\<lparr>mm_last_report_frame := Some f\<rparr>"] Cons.IH [of m]
    by (auto simp: monitor_tick_def Let_def split: option.splits)
qed (simp split: option.splits)

section \<open>Cache\<close>

definition cache_ok :: "L1CacheManager \<Rightarrow> bool" where
  "cache_ok c \<longleftrightarrow> lc_total_bytes c = (\<Sum>e\<leftarrow>lc_entries c. length (ce_data e))"

datatype cache_event = CacheInsert string bytes u64 | MarkInactive string | EvictInactive | EvictAll

fun cache_step :: "cache_event \<Rightarrow> L1CacheManager \<Rightarrow> L1CacheManager" where
  "cache_step (CacheInsert name data f) c = cache_insert name data f c"
| "cache_step (MarkInactive name) c = mark_inactive name c"
| "cache_step EvictInactive c = evict_inactive c"
| "cache_step EvictAll c = evict_all c"

lemma deactivate_first_data: "map ce_data (deactivate_first name es) = map ce_data es"
  by (induction es) auto

lemma sum_list_partition:
  "sum_list (map f (filter P xs)) + sum_list (map f (filter (\<lambda>x. \<not> P x) xs)) = sum_list (map f xs)" for f :: "'a \<Rightarrow> nat"
  by (induction xs) auto

interpretation cache: event_machine cache_step cache_ok
proof unfold_locales
  fix c e assume ok: "cache_ok c"
  have "map (\<lambda>e. length (ce_data e)) (deactivate_first n es) = map (\<lambda>e. length (ce_data e)) es" for n es
    using arg_cong [OF deactivate_first_data [of n es], of "map length"] by (simp add: comp_def)
  then show "cache_ok (cache_step e c)"
    using ok sum_list_partition [of "\<lambda>e. length (ce_data e)" ce_active "lc_entries c"]
    by (cases e) (auto simp: cache_ok_def cache_insert_def mark_inactive_def evict_inactive_def evict_all_def Let_def)
qed

lemma cache_total:
  "lc_total_bytes (fold cache_step es cache_new) = (\<Sum>e\<leftarrow>lc_entries (fold cache_step es cache_new). length (ce_data e))"
  using cache.inv_fold [of cache_new es] by (simp add: cache_ok_def cache_new_def cache_with_capacity_def)

text \<open>The capacity is never consulted when inserting.\<close>

lemma cache_exceeds_capacity:
  "lc_total_bytes (cache_insert ''a'' (replicate 9 0) 0 (cache_with_capacity 8)) > lc_capacity (cache_with_capacity 8)"
  by (simp add: cache_insert_def cache_with_capacity_def)

section \<open>Properties\<close>

text \<open>C33: The two memory guards are equivalent and keep the budget: fed with the same requests and releases
  from the start, the boundary guard (which checks the region and the total of 512 MB) and the monitor's
  guard (which checks only the region) grant exactly the same requests, show the same usage of every region,
  and never let a region exceed its size or the total exceed 512 MB.\<close>

theorem guards_equivalent:
  assumes "TOTAL_MEMORY_CAP \<le> umax"
    and "memory_run (guard_step umax) es guard_new = (granted, g)"
    and "memory_run (monitor_step umax) es [] = (granted', b)"
  shows "granted = granted' \<and> (usage_of r g = usage_bytes r b \<and> usage_of r g \<le> max_bytes r)
    \<and> total_usage umax g = total_usage_bytes umax b \<and> total_usage umax g \<le> TOTAL_MEMORY_CAP"
proof -
  have run: "granted = granted'" "agree g b" using agree_run [OF agree_new assms(1), of es] assms(2,3) by simp_all
  then have ok: "guard_ok g" "monitor_ok b" "\<And>r. usage_of r g = usage_bytes r b" by (auto simp: agree_def)
  then show ?thesis
    using run(1) guard_total [OF ok(1) assms(1)] monitor_total(1) [OF ok(2) assms(1)] ok(1) by (simp add: guard_ok_def)
qed

theorem guards_equivalent_witness:
  "usage_of VmStack (snd (memory_run (guard_step (2 ^ 32 - 1))
     [Take VmStack 4000000, Take VmStack 1000000, Release VmStack 1000000, Take VmStack 1000000] guard_new)) = 4000000
   \<and> fst (memory_run (guard_step (2 ^ 32 - 1))
     [Take VmStack 4000000, Take VmStack 1000000, Release VmStack 1000000, Take VmStack 1000000] guard_new)
     = [True, False, True, True]"
proof -
  let ?es = "[Take VmStack 4000000, Take VmStack 1000000, Release VmStack 1000000, Take VmStack 1000000]"
  have m: "memory_run (monitor_step (2 ^ 32 - 1)) ?es [] = ([True, False, True, True], [(VmStack, 4000000)])"
    by (simp add: allocate_def deallocate_def Let_def usage_bytes_def usize_checked_add_def max_bytes_def)
  have "TOTAL_MEMORY_CAP \<le> 2 ^ 32 - 1" by (simp add: TOTAL_MEMORY_CAP_def)
  from guards_equivalent [OF this prod.collapse [symmetric] m, of VmStack] show ?thesis
    by (simp only: usage_bytes_def) simp
qed

text \<open>The memory monitor never brings the game down on its own accounting: whatever requests and
  releases went through its guard, and in whichever frame it runs, the monitoring system does not panic.\<close>

lemma monitor_never_panics:
  assumes "TOTAL_MEMORY_CAP \<le> umax" "mm_guard m = snd (memory_run (monitor_step umax) es [])"
  shows "monitor_memory umax frame m \<noteq> Inl Panic"
proof -
  have "monitor_ok (mm_guard m)"
    using agree_run [OF agree_new assms(1), of es] assms(2) by (simp add: agree_def)
  then have "\<not> total_usage_bytes umax (mm_guard m) > TOTAL_MEMORY_CAP"
    using monitor_total(2) [OF _ assms(1)] by (simp add: not_less)
  then show ?thesis
    by (auto simp: monitor_memory_def monitor_tick_def Let_def split: option.splits)
qed

lemma monitor_never_panics_example:
  "monitor_memory (2 ^ 32 - 1) 7 \<lparr>mm_guard = snd (memory_run (monitor_step (2 ^ 32 - 1)) [Take EcsHeap 9] []),
     mm_last_report_frame = None\<rparr> \<noteq> Inl Panic"
  by (rule monitor_never_panics [of _ _ "[Take EcsHeap 9]"]) (simp_all add: TOTAL_MEMORY_CAP_def)

text \<open>In the browser, where a \<open>usize\<close> has 32 bits, the percentage of the warning wraps around: at 500 of
  512 MB the warning says one percent.\<close>

lemma warning_percentage_wraps:
  "monitor_memory (2 ^ 32 - 1) 0 \<lparr>mm_guard = [(EcsHeap, 268435456), (VmRuntime, 67108864), (EcsMirrorRegion, 16777216),
      (ShadowValidation, 33554432), (RuntimeHeap, 138412032)], mm_last_report_frame = None\<rparr>
   = Inr (Some 1, \<lparr>mm_guard = [(EcsHeap, 268435456), (VmRuntime, 67108864), (EcsMirrorRegion, 16777216),
      (ShadowValidation, 33554432), (RuntimeHeap, 138412032)], mm_last_report_frame = Some 0\<rparr>)"
  by (simp add: monitor_memory_def monitor_tick_def Let_def total_usage_bytes_def is_warn_threshold_def
      TOTAL_MEMORY_CAP_def)

end
