(* ===== verification/Native_Float.thy ===== *)
theory Native_Float
  imports Prelude
begin

text \<open>
  Rust's \<open>f64\<close> and \<open>f32\<close> as their bit patterns: what the program uses of the native floats beside
  arithmetic. Comparisons are the IEEE ones (false on a NaN, equal on the two zeros); \<open>f64_to_f32\<close> is the
  \<open>as f32\<close> cast, rounding to the nearest value and to the even one on ties. No float arithmetic is
  modelled here: where a component computes with native floats, its operations are parameters.
\<close>

type_synonym f64 = u64
type_synonym f32 = u32

section \<open>Doubles\<close>

definition f64_exponent :: "f64 \<Rightarrow> nat" where
  "f64_exponent w = unat (drop_bit 52 w) mod 2048"

definition f64_mantissa :: "f64 \<Rightarrow> nat" where
  "f64_mantissa w = unat w mod 2 ^ 52"

definition f64_negative :: "f64 \<Rightarrow> bool" where
  "f64_negative w \<longleftrightarrow> 2 ^ 63 \<le> unat w"

definition f64_is_nan :: "f64 \<Rightarrow> bool" where
  "f64_is_nan w \<longleftrightarrow> f64_exponent w = 2047 \<and> f64_mantissa w \<noteq> 0"

definition f64_is_finite :: "f64 \<Rightarrow> bool" where
  "f64_is_finite w \<longleftrightarrow> f64_exponent w \<noteq> 2047"

text \<open>The magnitude bits with the sign, in which the comparison of numbers is the one of integers.\<close>

definition f64_key :: "f64 \<Rightarrow> int" where
  "f64_key w = (if f64_negative w then - int (unat w - 2 ^ 63) else int (unat w))"

definition f64_lt :: "f64 \<Rightarrow> f64 \<Rightarrow> bool" where
  "f64_lt a b \<longleftrightarrow> \<not> f64_is_nan a \<and> \<not> f64_is_nan b \<and> f64_key a < f64_key b"

definition f64_le :: "f64 \<Rightarrow> f64 \<Rightarrow> bool" where
  "f64_le a b \<longleftrightarrow> \<not> f64_is_nan a \<and> \<not> f64_is_nan b \<and> f64_key a \<le> f64_key b"

text \<open>\<open>f64::clamp\<close>.\<close>

definition f64_clamp :: "f64 \<Rightarrow> f64 \<Rightarrow> f64 \<Rightarrow> f64" where
  "f64_clamp lo hi x = (if f64_lt x lo then lo else if f64_lt hi x then hi else x)"

definition f64_zero :: f64 where "f64_zero = 0"
definition f64_one :: f64 where "f64_one = 0x3FF0000000000000"

section \<open>Singles\<close>

definition f32_exponent :: "f32 \<Rightarrow> nat" where
  "f32_exponent w = unat (drop_bit 23 w) mod 256"

definition f32_is_nan :: "f32 \<Rightarrow> bool" where
  "f32_is_nan w \<longleftrightarrow> f32_exponent w = 255 \<and> unat w mod 2 ^ 23 \<noteq> 0"

definition f32_is_finite :: "f32 \<Rightarrow> bool" where
  "f32_is_finite w \<longleftrightarrow> f32_exponent w \<noteq> 255"

definition f32_key :: "f32 \<Rightarrow> int" where
  "f32_key w = (if 2 ^ 31 \<le> unat w then - int (unat w - 2 ^ 31) else int (unat w))"

definition f32_lt :: "f32 \<Rightarrow> f32 \<Rightarrow> bool" where
  "f32_lt a b \<longleftrightarrow> \<not> f32_is_nan a \<and> \<not> f32_is_nan b \<and> f32_key a < f32_key b"

definition f32_le :: "f32 \<Rightarrow> f32 \<Rightarrow> bool" where
  "f32_le a b \<longleftrightarrow> \<not> f32_is_nan a \<and> \<not> f32_is_nan b \<and> f32_key a \<le> f32_key b"

definition f32_clamp :: "f32 \<Rightarrow> f32 \<Rightarrow> f32 \<Rightarrow> f32" where
  "f32_clamp lo hi x = (if f32_lt x lo then lo else if f32_lt hi x then hi else x)"

text \<open>\<open>x.max(y)\<close>: the other argument when one is a NaN.\<close>

definition f32_max :: "f32 \<Rightarrow> f32 \<Rightarrow> f32" where
  "f32_max x y = (if f32_is_nan x then y else if f32_is_nan y then x else if f32_lt x y then y else x)"

definition f32_zero :: f32 where "f32_zero = 0"
definition f32_one :: f32 where "f32_one = 0x3F800000"

section \<open>The cast\<close>

text \<open>\<open>m\<close> divided by \<open>2 ^ k\<close>, rounded to the nearest integer and to the even one on ties.\<close>

definition round_half_even :: "nat \<Rightarrow> nat \<Rightarrow> nat" where
  "round_half_even m k =
     (let q = m div 2 ^ k; r = m mod 2 ^ k
      in if 2 * r > 2 ^ k \<or> (2 * r = 2 ^ k \<and> odd q) then q + 1 else q)"

text \<open>A double below the range of the normal singles is rounded to a multiple of the smallest one, a double
  beyond the largest becomes infinite; a NaN keeps the upper bits of its payload and becomes quiet.\<close>

definition f64_to_f32 :: "f64 \<Rightarrow> f32" where
  "f64_to_f32 w =
     (let e = f64_exponent w; m = f64_mantissa w; s = (if f64_negative w then 2 ^ 31 else 0)
      in of_nat (s +
           (if e = 2047 then (if m = 0 then 0x7F800000 else 0x7F800000 + (2 ^ 22 + m div 2 ^ 29 mod 2 ^ 22))
            else if e \<ge> 897 then min 0x7F800000 ((e - 897) * 2 ^ 23 + round_half_even (m + 2 ^ 52) 29)
            else if e \<ge> 871 then round_half_even (m + 2 ^ 52) (29 + (897 - e))
            else 0)))"

lemma f64_to_f32_examples:
  "f64_to_f32 0x3FF0000000000000 = 0x3F800000" "f64_to_f32 0xC12E848000000000 = 0xC9742400"
  "f64_to_f32 0x3FB999999999999A = 0x3DCCCCCD" "f64_to_f32 0x47EFFFFFF0000000 = 0x7F800000"
  "f64_to_f32 0x47EFFFFFE0000000 = 0x7F7FFFFF" "f64_to_f32 0x36A0000000000000 = 1" "f64_to_f32 0x3690000000000000 = 0"
  "f64_to_f32 0x3690000000000001 = 1" "f64_to_f32 0x8000000000000000 = 0x80000000"
  by (simp_all add: f64_to_f32_def f64_exponent_def f64_mantissa_def f64_negative_def round_half_even_def Let_def drop_bit_eq_div unat_div)

lemma f32_clamp_range: "\<not> f32_is_nan x \<Longrightarrow> f32_le lo hi \<Longrightarrow> f32_le lo (f32_clamp lo hi x) \<and> f32_le (f32_clamp lo hi x) hi"
  by (auto simp: f32_clamp_def f32_le_def f32_lt_def)

lemma f64_clamp_range: "\<not> f64_is_nan x \<Longrightarrow> f64_le lo hi \<Longrightarrow> f64_le lo (f64_clamp lo hi x) \<and> f64_le (f64_clamp lo hi x) hi"
  by (auto simp: f64_clamp_def f64_le_def f64_lt_def)

lemma f64_finite_not_nan: "f64_is_finite x \<Longrightarrow> \<not> f64_is_nan x"
  by (simp add: f64_is_finite_def f64_is_nan_def)

end
