(* ===== verification/Script_Bridge.thy ===== *)
theory Script_Bridge
  imports Script_Limits Native_Float Bridge_Types "HOL-Library.Sublist"
begin

text \<open>
  The functions scripts call (\<^verbatim>\<open>engine/vm_runtime/src\<close>: \<open>bridge_api.rs\<close>, \<open>bridge_helpers.rs\<close>,
  \<open>camera_module.rs\<close>, \<open>dynamic_convert.rs\<close>) and the events they leave for the game
  (\<^verbatim>\<open>engine/bridge_types/src/bridge_event.rs\<close>). Every function is charged first, then checks its arguments,
  then records an event or answers a query. A runtime error of the script engine is its message. The
  software floats' conversions, the text of a double and the type names of the script engine are parameters.
\<close>

section \<open>Values and events\<close>

text \<open>A value of the script engine; the types the bridge treats alike are one constructor with the name of
  the type.\<close>

datatype rhai_dynamic =
    RhInt u64
  | RhFloat f64
  | RhBool bool
  | RhUnit
  | RhString string
  | RhArray "rhai_dynamic list"
  | RhOther string

datatype DynamicValue =
    DynInt u64
  | DynFloat f64
  | DynBool bool
  | DynString string
  | DynUnit

datatype BridgeEvent =
    SpawnEntity u64
  | DespawnEntity EntityId
  | SetTransform EntityId SoftVec3
  | SetRotation EntityId SoftVec3
  | SetScale EntityId SoftVec3
  | SetVisibility EntityId bool
  | PlayVfx u64 SoftVec3
  | StopVfx u32
  | PlaySound u64
  | PlaySoundAt u64 SoftVec3
  | StopSound u32
  | ShowDialog u64
  | HideDialog u64
  | UpdateHud string DynamicValue
  | SetHealthBar EntityId f64 f64
  | ShowDamageNumber f64 f64 u64
  | ShowToast string u64
  | PlayAnimation EntityId u64
  | PlayAnimationOnce EntityId u64
  | StopAnimation EntityId
  | BlendAnimation EntityId u64 u64 f64
  | SendPrediction u64 DynamicValue
  | RequestState string

definition event_entity_id :: "BridgeEvent \<Rightarrow> EntityId option" where
  "event_entity_id e =
     (case e of
        DespawnEntity eid \<Rightarrow> Some eid
      | SetTransform eid _ \<Rightarrow> Some eid
      | SetRotation eid _ \<Rightarrow> Some eid
      | SetScale eid _ \<Rightarrow> Some eid
      | SetVisibility eid _ \<Rightarrow> Some eid
      | SetHealthBar eid _ _ \<Rightarrow> Some eid
      | PlayAnimation eid _ \<Rightarrow> Some eid
      | PlayAnimationOnce eid _ \<Rightarrow> Some eid
      | StopAnimation eid \<Rightarrow> Some eid
      | BlendAnimation eid _ _ _ \<Rightarrow> Some eid
      | _ \<Rightarrow> None)"

datatype CameraBridgeOp =
    Shake u32 f32 f32 f32 f32 f32 f32 f32
  | PushOverride u32 f32 f32 f32 f32 u32 f32
  | PopOverride u32
  | ClearOverrides u32
  | ClearShakes u32

record bridge_env =
  br_from_f64 :: "f64 \<Rightarrow> SoftF32"
  br_to_f64 :: "SoftF32 \<Rightarrow> f64"
  br_show_f64 :: "f64 \<Rightarrow> string"
  br_type_name :: "rhai_dynamic \<Rightarrow> string"

section \<open>State\<close>

type_synonym EventQueue = "BridgeEvent list"
type_synonym CameraOpQueue = "CameraBridgeOp list"

definition event_queue_push :: "BridgeEvent \<Rightarrow> EventQueue \<Rightarrow> EventQueue" where
  "event_queue_push event q = q @ [event]"

definition event_queue_drain :: "EventQueue \<Rightarrow> BridgeEvent list \<times> EventQueue" where
  "event_queue_drain q = (q, [])"

definition camera_op_queue_push :: "CameraBridgeOp \<Rightarrow> CameraOpQueue \<Rightarrow> CameraOpQueue" where
  "camera_op_queue_push op q = q @ [op]"

definition camera_op_queue_drain :: "CameraOpQueue \<Rightarrow> CameraBridgeOp list \<times> CameraOpQueue" where
  "camera_op_queue_drain q = (q, [])"

type_synonym EntityIdAllocator = u64

definition entity_id_next :: "EntityIdAllocator \<Rightarrow> EntityId \<times> EntityIdAllocator" where
  "entity_id_next counter = (EntityId counter, counter + 1)"

record BridgeState =
  bs_event_queue :: EventQueue
  bs_camera_op_queue :: CameraOpQueue
  bs_ecs_mirror :: EcsMirror
  bs_ops_tracker :: OpsTracker
  bs_handle_registry :: HandleRegistry
  bs_entity_id_allocator :: EntityIdAllocator

definition bridge_state_new :: BridgeState where
  "bridge_state_new =
     \<lparr>bs_event_queue = [], bs_camera_op_queue = [],
      bs_ecs_mirror = \<lparr>em_entities = [], em_local_player_id = EntityId 0, em_frame_number = 0, em_delta_time = sf_zero\<rparr>,
      bs_ops_tracker = ops_tracker_new, bs_handle_registry = handle_registry_new, bs_entity_id_allocator = 1\<rparr>"

definition push_event :: "BridgeEvent \<Rightarrow> BridgeState \<Rightarrow> BridgeState" where
  "push_event e st = st\<lparr>bs_event_queue := event_queue_push e (bs_event_queue st)\<rparr>"

definition push_camera_op :: "CameraBridgeOp \<Rightarrow> BridgeState \<Rightarrow> BridgeState" where
  "push_camera_op op st = st\<lparr>bs_camera_op_queue := camera_op_queue_push op (bs_camera_op_queue st)\<rparr>"

section \<open>Conversions\<close>

text \<open>\<open>{:?}\<close> of a \<open>BridgeError::InvalidParameter\<close> whose text needs no escapes.\<close>

definition invalid_parameter_debug :: "string \<Rightarrow> string" where
  "invalid_parameter_debug msg = ''InvalidParameter('' @ [CHR 0x22] @ msg @ [CHR 0x22] @ '')''"

definition to_dynamic_value :: "bridge_env \<Rightarrow> rhai_dynamic \<Rightarrow> BridgeError + DynamicValue" where
  "to_dynamic_value E v =
     (case v of
        RhInt i \<Rightarrow> Inr (DynInt i)
      | RhFloat f \<Rightarrow> Inr (DynFloat f)
      | RhBool b \<Rightarrow> Inr (DynBool b)
      | RhString s \<Rightarrow> Inr (DynString s)
      | _ \<Rightarrow> Inl (InvalidParameter (utf8 [0xE4, 0xB8, 0x8D, 0xE6, 0x94, 0xAF, 0xE6, 0x8F, 0xB4, 0xE7, 0x9A, 0x84] @ '' Dynamic '' @ utf8 [0xE5, 0x9E, 0x8B, 0xE5, 0x88, 0xA5] @ '': '' @ br_type_name E v)))"

definition bridge_err :: "BridgeError \<Rightarrow> string" where
  "bridge_err e = (case e of InvalidParameter msg \<Rightarrow> invalid_parameter_debug msg | _ \<Rightarrow> [])"

definition to_deterministic :: "bridge_env \<Rightarrow> rhai_dynamic \<Rightarrow> DeterministicValue" where
  "to_deterministic E v =
     (case v of
        RhInt i \<Rightarrow> DInt i
      | RhFloat f \<Rightarrow> DFloat (br_from_f64 E f)
      | RhBool b \<Rightarrow> DBool b
      | RhUnit \<Rightarrow> DUnit
      | RhString s \<Rightarrow> (case validated_str s of Inr det \<Rightarrow> det | Inl _ \<Rightarrow> DUnit)
      | _ \<Rightarrow> DUnit)"

definition to_rhai_dynamic :: "bridge_env \<Rightarrow> DeterministicValue \<Rightarrow> rhai_dynamic" where
  "to_rhai_dynamic E v =
     (case v of
        DInt i \<Rightarrow> RhInt i
      | DFloat sf \<Rightarrow> RhFloat (br_to_f64 E sf)
      | DBool b \<Rightarrow> RhBool b
      | DUnit \<Rightarrow> RhUnit
      | DStr s \<Rightarrow> RhString s)"

definition to_soft_vec3 :: "bridge_env \<Rightarrow> f64 \<Rightarrow> f64 \<Rightarrow> f64 \<Rightarrow> SoftVec3" where
  "to_soft_vec3 E x y z = \<lparr>v3_x = br_from_f64 E x, v3_y = br_from_f64 E y, v3_z = br_from_f64 E z\<rparr>"

section \<open>Checks of the arguments\<close>

text \<open>The text of an \<open>i64\<close>.\<close>

definition show_i64 :: "u64 \<Rightarrow> string" where
  "show_i64 w = (if sint w < 0 then CHR ''-'' # decimal (nat (- sint w)) else decimal (nat (sint w)))"

definition COORDINATE_MIN :: f64 where "COORDINATE_MIN = 0xC12E848000000000"
definition COORDINATE_MAX :: f64 where "COORDINATE_MAX = 0x412E848000000000"
definition SCALE_MIN_EXCLUSIVE :: f64 where "SCALE_MIN_EXCLUSIVE = 0"
definition SCALE_MAX_INCLUSIVE :: f64 where "SCALE_MAX_INCLUSIVE = 0x408F400000000000"
definition BLEND_WEIGHT_MIN :: f64 where "BLEND_WEIGHT_MIN = 0"
definition BLEND_WEIGHT_MAX :: f64 where "BLEND_WEIGHT_MAX = 0x3FF0000000000000"
definition MAX_STRING_BYTES :: nat where "MAX_STRING_BYTES = 4096"

definition validate_finite :: "bridge_env \<Rightarrow> f64 \<Rightarrow> string \<Rightarrow> string + unit" where
  "validate_finite E v name =
     (if \<not> f64_is_finite v
      then Inl (''InvalidParameter: '' @ name @ '' '' @ utf8 [0xE5, 0xBF, 0x85, 0xE9, 0xA0, 0x88, 0xE7, 0x82, 0xBA, 0xE6, 0x9C, 0x89, 0xE9, 0x99, 0x90, 0xE6, 0x95, 0xB8, 0xE5, 0x80, 0xBC, 0xEF, 0xBC, 0x8C, 0xE6, 0x94, 0xB6, 0xE5, 0x88, 0xB0] @ '' '' @ br_show_f64 E v)
      else Inr ())"

definition validate_non_negative_id :: "u64 \<Rightarrow> string \<Rightarrow> string + unit" where
  "validate_non_negative_id v name =
     (if sint v < 0 then Inl (''InvalidParameter: '' @ name @ '' '' @ utf8 [0xE5, 0xBF, 0x85, 0xE9, 0xA0, 0x88] @ '' >= 0'' @ utf8 [0xEF, 0xBC, 0x8C, 0xE6, 0x94, 0xB6, 0xE5, 0x88, 0xB0] @ '' '' @ show_i64 v) else Inr ())"

definition validate_positive_id :: "u64 \<Rightarrow> string \<Rightarrow> string + unit" where
  "validate_positive_id v name =
     (if sint v \<le> 0 then Inl (''InvalidParameter: '' @ name @ '' '' @ utf8 [0xE5, 0xBF, 0x85, 0xE9, 0xA0, 0x88] @ '' > 0'' @ utf8 [0xEF, 0xBC, 0x8C, 0xE6, 0x94, 0xB6, 0xE5, 0x88, 0xB0] @ '' '' @ show_i64 v) else Inr ())"

definition validate_handle :: "u64 \<Rightarrow> string \<Rightarrow> string + u32" where
  "validate_handle v name =
     (if \<not> (0 \<le> sint v \<and> sint v \<le> 4294967295)
      then Inl (''InvalidParameter: '' @ name @ '' '' @ utf8 [0xE5, 0xBF, 0x85, 0xE9, 0xA0, 0x88, 0xE5, 0x9C, 0xA8] @ '' [0, u32::MAX]'' @ utf8 [0xEF, 0xBC, 0x8C, 0xE6, 0x94, 0xB6, 0xE5, 0x88, 0xB0] @ '' '' @ show_i64 v)
      else Inr (ucast v))"

definition validate_coordinate :: "bridge_env \<Rightarrow> f64 \<Rightarrow> string \<Rightarrow> string + unit" where
  "validate_coordinate E v name =
     (if \<not> f64_is_finite v
      then Inl (''InvalidParameter: '' @ name @ '' '' @ utf8 [0xE5, 0xBF, 0x85, 0xE9, 0xA0, 0x88, 0xE7, 0x82, 0xBA, 0xE6, 0x9C, 0x89, 0xE9, 0x99, 0x90, 0xE6, 0x95, 0xB8, 0xE5, 0x80, 0xBC, 0xEF, 0xBC, 0x8C, 0xE6, 0x94, 0xB6, 0xE5, 0x88, 0xB0] @ '' '' @ br_show_f64 E v)
      else if \<not> (f64_le COORDINATE_MIN v \<and> f64_le v COORDINATE_MAX)
      then Inl (''InvalidParameter: '' @ name @ '' '' @ utf8 [0xE8, 0xB6, 0x85, 0xE5, 0x87, 0xBA, 0xE7, 0xAF, 0x84, 0xE5, 0x9C, 0x8D] @ '' ['' @ br_show_f64 E COORDINATE_MIN @ '', ''
                @ br_show_f64 E COORDINATE_MAX @ '']'' @ utf8 [0xEF, 0xBC, 0x8C, 0xE6, 0x94, 0xB6, 0xE5, 0x88, 0xB0] @ '' '' @ br_show_f64 E v)
      else Inr ())"

definition validate_coordinates_2d :: "bridge_env \<Rightarrow> f64 \<Rightarrow> f64 \<Rightarrow> string + unit" where
  "validate_coordinates_2d E x y =
     bind_sum (validate_coordinate E x ''x'') (\<lambda>_. validate_coordinate E y ''y'')"

definition validate_coordinates :: "bridge_env \<Rightarrow> f64 \<Rightarrow> f64 \<Rightarrow> f64 \<Rightarrow> string + unit" where
  "validate_coordinates E x y z =
     bind_sum (validate_coordinate E x ''x'') (\<lambda>_.
     bind_sum (validate_coordinate E y ''y'') (\<lambda>_. validate_coordinate E z ''z''))"

definition validate_scale :: "bridge_env \<Rightarrow> f64 \<Rightarrow> string \<Rightarrow> string + unit" where
  "validate_scale E v name =
     (if \<not> f64_is_finite v \<or> f64_le v SCALE_MIN_EXCLUSIVE \<or> f64_lt SCALE_MAX_INCLUSIVE v
      then Inl (''InvalidParameter: '' @ name @ '' '' @ utf8 [0xE5, 0xBF, 0x85, 0xE9, 0xA0, 0x88, 0xE5, 0x9C, 0xA8] @ '' (0, '' @ br_show_f64 E SCALE_MAX_INCLUSIVE
                @ ''] '' @ utf8 [0xE7, 0xAF, 0x84, 0xE5, 0x9C, 0x8D, 0xE5, 0x85, 0xA7, 0xEF, 0xBC, 0x8C, 0xE6, 0x94, 0xB6, 0xE5, 0x88, 0xB0] @ '' '' @ br_show_f64 E v)
      else Inr ())"

definition validate_scales :: "bridge_env \<Rightarrow> f64 \<Rightarrow> f64 \<Rightarrow> f64 \<Rightarrow> string + unit" where
  "validate_scales E sx sy sz =
     bind_sum (validate_scale E sx ''sx'') (\<lambda>_.
     bind_sum (validate_scale E sy ''sy'') (\<lambda>_. validate_scale E sz ''sz''))"

definition validate_health_bar :: "bridge_env \<Rightarrow> f64 \<Rightarrow> f64 \<Rightarrow> string + unit" where
  "validate_health_bar E current maximum =
     (if \<not> f64_is_finite maximum then Inl (''InvalidParameter: health bar max '' @ utf8 [0xE5, 0xBF, 0x85, 0xE9, 0xA0, 0x88, 0xE7, 0x82, 0xBA, 0xE6, 0x9C, 0x89, 0xE9, 0x99, 0x90, 0xE6, 0x95, 0xB8, 0xE5, 0x80, 0xBC])
      else if \<not> f64_is_finite current then Inl (''InvalidParameter: health bar current '' @ utf8 [0xE5, 0xBF, 0x85, 0xE9, 0xA0, 0x88, 0xE7, 0x82, 0xBA, 0xE6, 0x9C, 0x89, 0xE9, 0x99, 0x90, 0xE6, 0x95, 0xB8, 0xE5, 0x80, 0xBC])
      else if f64_le maximum f64_zero
      then Inl (''InvalidParameter: health bar max '' @ utf8 [0xE5, 0xBF, 0x85, 0xE9, 0xA0, 0x88] @ '' > 0'' @ utf8 [0xEF, 0xBC, 0x8C, 0xE6, 0x94, 0xB6, 0xE5, 0x88, 0xB0] @ '' '' @ br_show_f64 E maximum)
      else if f64_lt current f64_zero \<or> f64_lt maximum current
      then Inl (''InvalidParameter: health bar current '' @ utf8 [0xE5, 0xBF, 0x85, 0xE9, 0xA0, 0x88, 0xE5, 0x9C, 0xA8] @ '' [0, max] '' @ utf8 [0xE7, 0xAF, 0x84, 0xE5, 0x9C, 0x8D, 0xE5, 0x85, 0xA7, 0xEF, 0xBC, 0x8C, 0xE6, 0x94, 0xB6, 0xE5, 0x88, 0xB0] @ '' current=''
                @ br_show_f64 E current @ '', max='' @ br_show_f64 E maximum)
      else Inr ())"

definition clamp_blend_weight :: "f64 \<Rightarrow> f64" where
  "clamp_blend_weight weight = f64_clamp BLEND_WEIGHT_MIN BLEND_WEIGHT_MAX weight"

text \<open>\<open>floor_char_boundary\<close>: the largest character boundary not after the given index.\<close>

definition utf8_continuation :: "char \<Rightarrow> bool" where
  "utf8_continuation c \<longleftrightarrow> 128 \<le> (of_char c :: nat) \<and> (of_char c :: nat) < 192"

fun floor_boundary :: "string \<Rightarrow> nat \<Rightarrow> nat" where
  "floor_boundary s 0 = 0"
| "floor_boundary s (Suc i) =
     (if Suc i < length s \<and> utf8_continuation (s ! Suc i) then floor_boundary s i else min (Suc i) (length s))"

definition truncate_string :: "string \<Rightarrow> string" where
  "truncate_string v = (if length v > MAX_STRING_BYTES then take (floor_boundary v MAX_STRING_BYTES) v else v)"

definition entity_exists :: "EntityId \<Rightarrow> EcsMirror \<Rightarrow> bool" where
  "entity_exists eid mirror \<longleftrightarrow> bm_get (em_entities mirror) eid \<noteq> None"

section \<open>The functions\<close>

text \<open>The steps the functions share: charging the budget, stopping on a failed check, and recording an event
  only for an entity the mirror knows.\<close>

definition charged ::
  "string \<Rightarrow> (BridgeState \<Rightarrow> (string + 'r) \<times> BridgeState) \<Rightarrow> BridgeState \<Rightarrow> (string + 'r) \<times> BridgeState" where
  "charged name k st =
     (case ops_deduct (cost_for name) (bs_ops_tracker st) of
        (Inl e, t) \<Rightarrow> (Inl e, st\<lparr>bs_ops_tracker := t\<rparr>)
      | (Inr _, t) \<Rightarrow> k (st\<lparr>bs_ops_tracker := t\<rparr>))"

definition checked ::
  "string + 'a \<Rightarrow> ('a \<Rightarrow> BridgeState \<Rightarrow> (string + 'r) \<times> BridgeState) \<Rightarrow> BridgeState \<Rightarrow> (string + 'r) \<times> BridgeState" where
  "checked c k st = (case c of Inl e \<Rightarrow> (Inl e, st) | Inr a \<Rightarrow> k a st)"

definition for_entity :: "u64 \<Rightarrow> 'r \<Rightarrow> (EntityId \<Rightarrow> BridgeEvent) \<Rightarrow> BridgeState \<Rightarrow> (string + 'r) \<times> BridgeState" where
  "for_entity eid r event st =
     (if entity_exists (EntityId eid) (bs_ecs_mirror st) then (Inr r, push_event (event (EntityId eid)) st)
      else (Inr r, st))"

definition spawn_entity :: "u64 \<Rightarrow> BridgeState \<Rightarrow> (string + u64) \<times> BridgeState" where
  "spawn_entity type_id = charged ''spawn_entity'' (\<lambda>st.
     case entity_id_next (bs_entity_id_allocator st) of
       (entity_id, a) \<Rightarrow>
         (Inr (eid_raw entity_id), push_event (SpawnEntity type_id) (st\<lparr>bs_entity_id_allocator := a\<rparr>)))"

definition despawn_entity :: "u64 \<Rightarrow> BridgeState \<Rightarrow> (string + bool) \<times> BridgeState" where
  "despawn_entity eid = charged ''despawn_entity'' (for_entity eid True DespawnEntity)"

definition set_transform :: "bridge_env \<Rightarrow> u64 \<Rightarrow> f64 \<Rightarrow> f64 \<Rightarrow> f64 \<Rightarrow> BridgeState \<Rightarrow> (string + unit) \<times> BridgeState" where
  "set_transform E eid x y z = charged ''set_transform'' (checked (validate_coordinates E x y z) (\<lambda>_.
     for_entity eid () (\<lambda>e. SetTransform e (to_soft_vec3 E x y z))))"

definition set_rotation :: "bridge_env \<Rightarrow> u64 \<Rightarrow> f64 \<Rightarrow> f64 \<Rightarrow> f64 \<Rightarrow> BridgeState \<Rightarrow> (string + unit) \<times> BridgeState" where
  "set_rotation E eid rx ry rz = charged ''set_rotation'' (checked (validate_coordinates E rx ry rz) (\<lambda>_.
     for_entity eid () (\<lambda>e. SetRotation e (to_soft_vec3 E rx ry rz))))"

definition set_scale :: "bridge_env \<Rightarrow> u64 \<Rightarrow> f64 \<Rightarrow> f64 \<Rightarrow> f64 \<Rightarrow> BridgeState \<Rightarrow> (string + unit) \<times> BridgeState" where
  "set_scale E eid sx sy sz = charged ''set_scale'' (checked (validate_scales E sx sy sz) (\<lambda>_.
     for_entity eid () (\<lambda>e. SetScale e (to_soft_vec3 E sx sy sz))))"

definition set_visibility :: "u64 \<Rightarrow> bool \<Rightarrow> BridgeState \<Rightarrow> (string + unit) \<times> BridgeState" where
  "set_visibility eid visible = charged ''set_visibility'' (for_entity eid () (\<lambda>e. SetVisibility e visible))"

definition new_effect :: "BridgeState \<Rightarrow> u32 \<times> BridgeState" where
  "new_effect st =
     (case create_effect 0 (bs_handle_registry st) of (h, r) \<Rightarrow> (h, st\<lparr>bs_handle_registry := r\<rparr>))"

definition new_sound :: "BridgeState \<Rightarrow> u32 \<times> BridgeState" where
  "new_sound st =
     (case create_sound 0 (bs_handle_registry st) of (h, r) \<Rightarrow> (h, st\<lparr>bs_handle_registry := r\<rparr>))"

definition play_vfx :: "bridge_env \<Rightarrow> u64 \<Rightarrow> f64 \<Rightarrow> f64 \<Rightarrow> f64 \<Rightarrow> BridgeState \<Rightarrow> (string + u64) \<times> BridgeState" where
  "play_vfx E vfx_id x y z = charged ''play_vfx''
     (checked (validate_positive_id vfx_id ''vfx_id'') (\<lambda>_.
      checked (validate_coordinates E x y z) (\<lambda>_ st.
        case new_effect st of
          (h, st) \<Rightarrow> (Inr (ucast h), push_event (PlayVfx vfx_id (to_soft_vec3 E x y z)) st))))"

definition stop_vfx :: "u64 \<Rightarrow> BridgeState \<Rightarrow> (string + unit) \<times> BridgeState" where
  "stop_vfx handle = charged ''stop_vfx'' (\<lambda>st.
     let h = ucast handle :: u32
     in (Inr (), if is_valid_effect h (bs_handle_registry st) then push_event (StopVfx h) st else st))"

definition play_sound :: "u64 \<Rightarrow> BridgeState \<Rightarrow> (string + u64) \<times> BridgeState" where
  "play_sound sound_id = charged ''play_sound''
     (checked (validate_positive_id sound_id ''sound_id'') (\<lambda>_ st.
        case new_sound st of (h, st) \<Rightarrow> (Inr (ucast h), push_event (PlaySound sound_id) st)))"

definition play_sound_at :: "bridge_env \<Rightarrow> u64 \<Rightarrow> f64 \<Rightarrow> f64 \<Rightarrow> f64 \<Rightarrow> BridgeState \<Rightarrow> (string + u64) \<times> BridgeState" where
  "play_sound_at E sound_id x y z = charged ''play_sound_at''
     (checked (validate_positive_id sound_id ''sound_id'') (\<lambda>_.
      checked (validate_coordinates E x y z) (\<lambda>_ st.
        case new_sound st of
          (h, st) \<Rightarrow> (Inr (ucast h), push_event (PlaySoundAt sound_id (to_soft_vec3 E x y z)) st))))"

definition stop_sound :: "u64 \<Rightarrow> BridgeState \<Rightarrow> (string + unit) \<times> BridgeState" where
  "stop_sound handle = charged ''stop_sound'' (\<lambda>st.
     let h = ucast handle :: u32
     in (Inr (), if is_valid_sound h (bs_handle_registry st) then push_event (StopSound h) st else st))"

definition show_dialog :: "u64 \<Rightarrow> BridgeState \<Rightarrow> (string + unit) \<times> BridgeState" where
  "show_dialog dialog_id = charged ''show_dialog''
     (checked (validate_non_negative_id dialog_id ''dialog_id'') (\<lambda>_ st. (Inr (), push_event (ShowDialog dialog_id) st)))"

definition hide_dialog :: "u64 \<Rightarrow> BridgeState \<Rightarrow> (string + unit) \<times> BridgeState" where
  "hide_dialog dialog_id = charged ''hide_dialog''
     (checked (validate_non_negative_id dialog_id ''dialog_id'') (\<lambda>_ st. (Inr (), push_event (HideDialog dialog_id) st)))"

definition update_hud :: "bridge_env \<Rightarrow> string \<Rightarrow> rhai_dynamic \<Rightarrow> BridgeState \<Rightarrow> (string + unit) \<times> BridgeState" where
  "update_hud E key v = charged ''update_hud''
     (checked (map_inl bridge_err (to_dynamic_value E v)) (\<lambda>dv st.
        (Inr (), push_event (UpdateHud (truncate_string key) dv) st)))"

definition set_health_bar :: "bridge_env \<Rightarrow> u64 \<Rightarrow> f64 \<Rightarrow> f64 \<Rightarrow> BridgeState \<Rightarrow> (string + unit) \<times> BridgeState" where
  "set_health_bar E eid current maximum = charged ''set_health_bar''
     (checked (validate_health_bar E current maximum) (\<lambda>_.
        for_entity eid () (\<lambda>e. SetHealthBar e current maximum)))"

definition show_damage_number :: "bridge_env \<Rightarrow> f64 \<Rightarrow> f64 \<Rightarrow> u64 \<Rightarrow> BridgeState \<Rightarrow> (string + unit) \<times> BridgeState" where
  "show_damage_number E x y v = charged ''show_damage_number''
     (checked (validate_coordinates_2d E x y) (\<lambda>_ st. (Inr (), push_event (ShowDamageNumber x y v) st)))"

definition show_toast :: "string \<Rightarrow> u64 \<Rightarrow> BridgeState \<Rightarrow> (string + unit) \<times> BridgeState" where
  "show_toast msg duration_ms = charged ''show_toast''
     (checked (validate_positive_id duration_ms ''duration_ms'') (\<lambda>_ st.
        (Inr (), push_event (ShowToast (truncate_string msg) duration_ms) st)))"

definition play_animation :: "u64 \<Rightarrow> u64 \<Rightarrow> BridgeState \<Rightarrow> (string + unit) \<times> BridgeState" where
  "play_animation eid anim_id = charged ''play_animation''
     (checked (validate_non_negative_id anim_id ''anim_id'') (\<lambda>_.
        for_entity eid () (\<lambda>e. PlayAnimation e anim_id)))"

definition play_animation_once :: "u64 \<Rightarrow> u64 \<Rightarrow> BridgeState \<Rightarrow> (string + unit) \<times> BridgeState" where
  "play_animation_once eid anim_id = charged ''play_animation_once''
     (checked (validate_non_negative_id anim_id ''anim_id'') (\<lambda>_.
        for_entity eid () (\<lambda>e. PlayAnimationOnce e anim_id)))"

definition stop_animation :: "u64 \<Rightarrow> BridgeState \<Rightarrow> (string + unit) \<times> BridgeState" where
  "stop_animation eid = charged ''stop_animation'' (for_entity eid () StopAnimation)"

definition blend_animation :: "bridge_env \<Rightarrow> u64 \<Rightarrow> u64 \<Rightarrow> u64 \<Rightarrow> f64 \<Rightarrow> BridgeState \<Rightarrow> (string + unit) \<times> BridgeState" where
  "blend_animation E eid anim_a anim_b weight = charged ''blend_animation''
     (checked (validate_finite E weight ''weight'') (\<lambda>_.
        for_entity eid () (\<lambda>e. BlendAnimation e anim_a anim_b (clamp_blend_weight weight))))"

text \<open>The queries; an unknown entity or key is the unit value.\<close>

definition get_position :: "bridge_env \<Rightarrow> u64 \<Rightarrow> BridgeState \<Rightarrow> (string + rhai_dynamic) \<times> BridgeState" where
  "get_position E eid = charged ''get_position'' (\<lambda>st.
     case bm_get (em_entities (bs_ecs_mirror st)) (EntityId eid) of
       Some entity \<Rightarrow>
         (Inr (RhArray [RhFloat (br_to_f64 E (v3_x (me_position entity))), RhFloat (br_to_f64 E (v3_y (me_position entity))),
                        RhFloat (br_to_f64 E (v3_z (me_position entity)))]), st)
     | None \<Rightarrow> (Inr RhUnit, st))"

definition entity_value :: "bridge_env \<Rightarrow> string \<Rightarrow> MirroredEntity \<Rightarrow> rhai_dynamic" where
  "entity_value E key entity =
     (if key = ''hp'' then RhInt (me_hp entity)
      else if key = ''max_hp'' then RhInt (me_max_hp entity)
      else if key = ''state'' then RhInt (ucast (es_raw (me_state entity)))
      else if key = ''animation_id''
      then (case me_animation_id entity of Some i \<Rightarrow> RhInt (ucast i) | None \<Rightarrow> RhUnit)
      else (case bm_get (me_custom entity) key of Some dv \<Rightarrow> to_rhai_dynamic E dv | None \<Rightarrow> RhUnit))"

definition get_entity_state :: "bridge_env \<Rightarrow> u64 \<Rightarrow> string \<Rightarrow> BridgeState \<Rightarrow> (string + rhai_dynamic) \<times> BridgeState" where
  "get_entity_state E eid key = charged ''get_entity_state'' (\<lambda>st.
     case bm_get (em_entities (bs_ecs_mirror st)) (EntityId eid) of
       Some entity \<Rightarrow> (Inr (entity_value E key entity), st)
     | None \<Rightarrow> (Inr RhUnit, st))"

definition get_local_player_id :: "BridgeState \<Rightarrow> (string + u64) \<times> BridgeState" where
  "get_local_player_id = charged ''get_local_player_id'' (\<lambda>st. (Inr (eid_raw (em_local_player_id (bs_ecs_mirror st))), st))"

definition get_frame_number :: "BridgeState \<Rightarrow> (string + u64) \<times> BridgeState" where
  "get_frame_number = charged ''get_frame_number'' (\<lambda>st. (Inr (em_frame_number (bs_ecs_mirror st)), st))"

definition get_delta_time :: "bridge_env \<Rightarrow> BridgeState \<Rightarrow> (string + f64) \<times> BridgeState" where
  "get_delta_time E = charged ''get_delta_time'' (\<lambda>st. (Inr (br_to_f64 E (em_delta_time (bs_ecs_mirror st))), st))"

definition send_prediction :: "bridge_env \<Rightarrow> u64 \<Rightarrow> rhai_dynamic \<Rightarrow> BridgeState \<Rightarrow> (string + unit) \<times> BridgeState" where
  "send_prediction E input_type v = charged ''send_prediction''
     (checked (map_inl bridge_err (to_dynamic_value E v)) (\<lambda>dv st.
        (Inr (), push_event (SendPrediction input_type dv) st)))"

definition request_state :: "string \<Rightarrow> BridgeState \<Rightarrow> (string + rhai_dynamic) \<times> BridgeState" where
  "request_state key = charged ''request_state'' (\<lambda>st. (Inr RhUnit, push_event (RequestState key) st))"

section \<open>Camera functions\<close>

text \<open>\<open>priority.clamp(i32::MIN as i64, i32::MAX as i64) as i32\<close>.\<close>

definition clamp_to_i32 :: "u64 \<Rightarrow> u32" where
  "clamp_to_i32 p = word_of_int (max (- 2147483648) (min 2147483647 (sint p)))"

fun validate_all_finite :: "bridge_env \<Rightarrow> (f64 \<times> string) list \<Rightarrow> string + unit" where
  "validate_all_finite E [] = Inr ()"
| "validate_all_finite E ((v, name) # vs) = bind_sum (validate_finite E v name) (\<lambda>_. validate_all_finite E vs)"

definition camera_shake ::
  "bridge_env \<Rightarrow> u64 \<Rightarrow> f64 \<Rightarrow> f64 \<Rightarrow> f64 \<Rightarrow> f64 \<Rightarrow> f64 \<Rightarrow> f64 \<Rightarrow> f64 \<Rightarrow> BridgeState \<Rightarrow> (string + unit) \<times> BridgeState" where
  "camera_shake E handle trauma dir_x dir_y max_strength decay_rate direction_bias perpendicular_damping =
     charged ''camera_shake''
       (checked (validate_all_finite E [(trauma, ''trauma''), (dir_x, ''dir_x''), (dir_y, ''dir_y''),
            (max_strength, ''max_strength''), (decay_rate, ''decay_rate''), (direction_bias, ''direction_bias''),
            (perpendicular_damping, ''perpendicular_damping'')]) (\<lambda>_.
        checked (validate_handle handle ''handle'') (\<lambda>h st.
          (Inr (), push_camera_op
             (Shake h (f32_clamp f32_zero f32_one (f64_to_f32 trauma)) (f64_to_f32 dir_x) (f64_to_f32 dir_y)
                (f32_max (f64_to_f32 max_strength) f32_zero) (f32_max (f64_to_f32 decay_rate) f32_zero)
                (f32_max (f64_to_f32 direction_bias) f32_zero) (f32_max (f64_to_f32 perpendicular_damping) f32_zero)) st))))"

definition camera_push_override ::
  "bridge_env \<Rightarrow> u64 \<Rightarrow> f64 \<Rightarrow> f64 \<Rightarrow> f64 \<Rightarrow> f64 \<Rightarrow> u64 \<Rightarrow> f64 \<Rightarrow> BridgeState \<Rightarrow> (string + unit) \<times> BridgeState" where
  "camera_push_override E handle x y zoom speed priority duration =
     charged ''camera_push_override''
       (checked (validate_all_finite E [(x, ''x''), (y, ''y''), (zoom, ''zoom''), (speed, ''speed''),
            (duration, ''duration'')]) (\<lambda>_.
        checked (validate_handle handle ''handle'') (\<lambda>h st.
          (Inr (), push_camera_op
             (PushOverride h (f64_to_f32 x) (f64_to_f32 y) (f64_to_f32 zoom) (f64_to_f32 speed)
                (clamp_to_i32 priority) (f64_to_f32 duration)) st))))"

definition camera_pop_override :: "u64 \<Rightarrow> BridgeState \<Rightarrow> (string + unit) \<times> BridgeState" where
  "camera_pop_override handle = charged ''camera_pop_override''
     (checked (validate_handle handle ''handle'') (\<lambda>h st. (Inr (), push_camera_op (PopOverride h) st)))"

definition camera_clear_overrides :: "u64 \<Rightarrow> BridgeState \<Rightarrow> (string + unit) \<times> BridgeState" where
  "camera_clear_overrides handle = charged ''camera_clear_overrides''
     (checked (validate_handle handle ''handle'') (\<lambda>h st. (Inr (), push_camera_op (ClearOverrides h) st)))"

definition camera_clear_shakes :: "u64 \<Rightarrow> BridgeState \<Rightarrow> (string + unit) \<times> BridgeState" where
  "camera_clear_shakes handle = charged ''camera_clear_shakes''
     (checked (validate_handle handle ''handle'') (\<lambda>h st. (Inr (), push_camera_op (ClearShakes h) st)))"

section \<open>The registered interface\<close>

text \<open>A call by a script, as \<open>register_bridge_api\<close> makes it available; the result is a value of the engine.\<close>

datatype api_call =
    ApiSpawn u64
  | ApiDespawn u64
  | ApiSetTransform u64 f64 f64 f64
  | ApiSetRotation u64 f64 f64 f64
  | ApiSetScale u64 f64 f64 f64
  | ApiSetVisibility u64 bool
  | ApiPlayVfx u64 f64 f64 f64
  | ApiStopVfx u64
  | ApiPlaySound u64
  | ApiPlaySoundAt u64 f64 f64 f64
  | ApiStopSound u64
  | ApiShowDialog u64
  | ApiHideDialog u64
  | ApiUpdateHud string rhai_dynamic
  | ApiSetHealthBar u64 f64 f64
  | ApiShowDamageNumber f64 f64 u64
  | ApiShowToast string u64
  | ApiPlayAnimation u64 u64
  | ApiPlayAnimationOnce u64 u64
  | ApiStopAnimation u64
  | ApiBlendAnimation u64 u64 u64 f64
  | ApiGetPosition u64
  | ApiGetEntityState u64 string
  | ApiGetLocalPlayerId
  | ApiGetFrameNumber
  | ApiGetDeltaTime
  | ApiSendPrediction u64 rhai_dynamic
  | ApiRequestState string
  | ApiCameraShake u64 f64 f64 f64 f64 f64 f64 f64
  | ApiCameraPushOverride u64 f64 f64 f64 f64 u64 f64
  | ApiCameraPopOverride u64
  | ApiCameraClearOverrides u64
  | ApiCameraClearShakes u64

definition answer :: "('r \<Rightarrow> rhai_dynamic) \<Rightarrow> (string + 'r) \<times> BridgeState \<Rightarrow> (string + rhai_dynamic) \<times> BridgeState" where
  "answer wrap p = (map_sum (\<lambda>e. e) wrap (fst p), snd p)"

definition unit_value :: "unit \<Rightarrow> rhai_dynamic" where "unit_value _ = RhUnit"

primrec run_api :: "bridge_env \<Rightarrow> api_call \<Rightarrow> BridgeState \<Rightarrow> (string + rhai_dynamic) \<times> BridgeState" where
  "run_api E (ApiSpawn t) st = answer RhInt (spawn_entity t st)"
| "run_api E (ApiDespawn e) st = answer RhBool (despawn_entity e st)"
| "run_api E (ApiSetTransform e x y z) st = answer unit_value (set_transform E e x y z st)"
| "run_api E (ApiSetRotation e x y z) st = answer unit_value (set_rotation E e x y z st)"
| "run_api E (ApiSetScale e x y z) st = answer unit_value (set_scale E e x y z st)"
| "run_api E (ApiSetVisibility e b) st = answer unit_value (set_visibility e b st)"
| "run_api E (ApiPlayVfx v x y z) st = answer RhInt (play_vfx E v x y z st)"
| "run_api E (ApiStopVfx h) st = answer unit_value (stop_vfx h st)"
| "run_api E (ApiPlaySound s) st = answer RhInt (play_sound s st)"
| "run_api E (ApiPlaySoundAt s x y z) st = answer RhInt (play_sound_at E s x y z st)"
| "run_api E (ApiStopSound h) st = answer unit_value (stop_sound h st)"
| "run_api E (ApiShowDialog d) st = answer unit_value (show_dialog d st)"
| "run_api E (ApiHideDialog d) st = answer unit_value (hide_dialog d st)"
| "run_api E (ApiUpdateHud k v) st = answer unit_value (update_hud E k v st)"
| "run_api E (ApiSetHealthBar e c m) st = answer unit_value (set_health_bar E e c m st)"
| "run_api E (ApiShowDamageNumber x y v) st = answer unit_value (show_damage_number E x y v st)"
| "run_api E (ApiShowToast m d) st = answer unit_value (show_toast m d st)"
| "run_api E (ApiPlayAnimation e a) st = answer unit_value (play_animation e a st)"
| "run_api E (ApiPlayAnimationOnce e a) st = answer unit_value (play_animation_once e a st)"
| "run_api E (ApiStopAnimation e) st = answer unit_value (stop_animation e st)"
| "run_api E (ApiBlendAnimation e a b w) st = answer unit_value (blend_animation E e a b w st)"
| "run_api E (ApiGetPosition e) st = get_position E e st"
| "run_api E (ApiGetEntityState e k) st = get_entity_state E e k st"
| "run_api E ApiGetLocalPlayerId st = answer RhInt (get_local_player_id st)"
| "run_api E ApiGetFrameNumber st = answer RhInt (get_frame_number st)"
| "run_api E ApiGetDeltaTime st = answer RhFloat (get_delta_time E st)"
| "run_api E (ApiSendPrediction t v) st = answer unit_value (send_prediction E t v st)"
| "run_api E (ApiRequestState k) st = request_state k st"
| "run_api E (ApiCameraShake h a b c d e f g) st = answer unit_value (camera_shake E h a b c d e f g st)"
| "run_api E (ApiCameraPushOverride h x y z s p d) st = answer unit_value (camera_push_override E h x y z s p d st)"
| "run_api E (ApiCameraPopOverride h) st = answer unit_value (camera_pop_override h st)"
| "run_api E (ApiCameraClearOverrides h) st = answer unit_value (camera_clear_overrides h st)"
| "run_api E (ApiCameraClearShakes h) st = answer unit_value (camera_clear_shakes h st)"

section \<open>What every function keeps\<close>

text \<open>The part of a function after the charge is \<open>quiet\<close>: it leaves the budget and the mirror alone, records
  at most one event, and does nothing at all when it fails.\<close>

definition outputs :: "BridgeState \<Rightarrow> nat" where
  "outputs st = length (bs_event_queue st) + length (bs_camera_op_queue st)"

definition quiet :: "(BridgeState \<Rightarrow> (string + 'r) \<times> BridgeState) \<Rightarrow> bool" where
  "quiet k \<longleftrightarrow> (\<forall>st. bs_ops_tracker (snd (k st)) = bs_ops_tracker st \<and> bs_ecs_mirror (snd (k st)) = bs_ecs_mirror st
     \<and> prefix (bs_event_queue st) (bs_event_queue (snd (k st)))
     \<and> prefix (bs_camera_op_queue st) (bs_camera_op_queue (snd (k st)))
     \<and> outputs (snd (k st)) \<le> outputs st + 1 \<and> (isl (fst (k st)) \<longrightarrow> snd (k st) = st))"

named_theorems quiet_rules \<open>functions that are quiet\<close>

lemma quietI_push: "quiet (\<lambda>st. (Inr (r st), push_event (e st) st))"
  by (simp add: quiet_def push_event_def event_queue_push_def outputs_def)

lemma quiet_camera [quiet_rules]: "quiet (\<lambda>st. (Inr (), push_camera_op op st))"
  by (simp add: quiet_def push_camera_op_def camera_op_queue_push_def outputs_def)

lemma quiet_const [quiet_rules]: "quiet (\<lambda>st. (Inr (r st), st))"
  by (simp add: quiet_def)

lemma quiet_checked [quiet_rules]: "(\<And>a. quiet (k a)) \<Longrightarrow> quiet (checked c k)"
  by (cases c) (auto simp: quiet_def checked_def)

lemma quiet_for_entity [quiet_rules]: "quiet (for_entity eid r event)"
  by (simp add: quiet_def for_entity_def push_event_def event_queue_push_def outputs_def)

text \<open>What a charged function does to the budget.\<close>

definition charged_step :: "u64 \<Rightarrow> BridgeState \<Rightarrow> bool \<Rightarrow> BridgeState \<Rightarrow> bool" where
  "charged_step c st failed st' \<longleftrightarrow>
     (if ot_remaining (bs_ops_tracker st) < c then failed \<and> st' = st
      else bs_ops_tracker st' = (bs_ops_tracker st)\<lparr>ot_remaining := ot_remaining (bs_ops_tracker st) - c\<rparr>
        \<and> bs_ecs_mirror st' = bs_ecs_mirror st
        \<and> prefix (bs_event_queue st) (bs_event_queue st')
        \<and> prefix (bs_camera_op_queue st) (bs_camera_op_queue st')
        \<and> outputs st' \<le> outputs st + 1
        \<and> (failed \<longrightarrow> st' = st\<lparr>bs_ops_tracker := bs_ops_tracker st'\<rparr>))"

definition contract :: "u64 \<Rightarrow> (BridgeState \<Rightarrow> (string + 'r) \<times> BridgeState) \<Rightarrow> bool" where
  "contract c f \<longleftrightarrow> (\<forall>st. charged_step c st (isl (fst (f st))) (snd (f st)))"

lemma contract_charged:
  assumes "quiet k"
  shows "contract (cost_for name) (charged name k)"
  unfolding contract_def
proof
  fix st :: BridgeState
  let ?st = "st\<lparr>bs_ops_tracker := (bs_ops_tracker st)\<lparr>ot_remaining := ot_remaining (bs_ops_tracker st) - cost_for name\<rparr>\<rparr>"
  have "outputs ?st = outputs st" by (simp add: outputs_def)
  with assms [unfolded quiet_def, rule_format, of ?st]
  show "charged_step (cost_for name) st (isl (fst (charged name k st))) (snd (charged name k st))"
    by (auto simp: charged_def ops_deduct_def charged_step_def not_le)
qed

lemma contract_answer: "contract c f \<Longrightarrow> contract c (\<lambda>st. answer w (f st))"
  by (simp add: contract_def answer_def isl_map_sum)

lemma quiet_spawn [quiet_rules]:
  "quiet (\<lambda>st. case entity_id_next (bs_entity_id_allocator st) of
     (entity_id, a) \<Rightarrow> (Inr (eid_raw entity_id), push_event (SpawnEntity t) (st\<lparr>bs_entity_id_allocator := a\<rparr>)))"
  by (simp add: quiet_def entity_id_next_def push_event_def event_queue_push_def outputs_def)

lemma quiet_new_effect [quiet_rules]: "quiet (\<lambda>st. case new_effect st of (h, st) \<Rightarrow> (Inr (ucast h), push_event e st))"
  by (simp add: quiet_def new_effect_def create_effect_def push_event_def event_queue_push_def outputs_def)

lemma quiet_new_sound [quiet_rules]: "quiet (\<lambda>st. case new_sound st of (h, st) \<Rightarrow> (Inr (ucast h), push_event e st))"
  by (simp add: quiet_def new_sound_def create_sound_def push_event_def event_queue_push_def outputs_def)

lemma quiet_if_push [quiet_rules]: "quiet (\<lambda>st. let h = x in (Inr (), if P h st then push_event (e h) st else st))"
  by (simp add: quiet_def push_event_def event_queue_push_def outputs_def Let_def)

lemma quiet_lookup [quiet_rules]: "quiet (\<lambda>st. case g st of Some x \<Rightarrow> (Inr (a x st), st) | None \<Rightarrow> (Inr b, st))"
  by (simp add: quiet_def split: option.split)

lemmas api_defs =
  spawn_entity_def despawn_entity_def set_transform_def set_rotation_def set_scale_def set_visibility_def
  play_vfx_def stop_vfx_def play_sound_def play_sound_at_def stop_sound_def show_dialog_def hide_dialog_def
  update_hud_def set_health_bar_def show_damage_number_def show_toast_def play_animation_def
  play_animation_once_def stop_animation_def blend_animation_def get_position_def get_entity_state_def
  get_local_player_id_def get_frame_number_def get_delta_time_def send_prediction_def request_state_def
  camera_shake_def camera_push_override_def camera_pop_override_def camera_clear_overrides_def
  camera_clear_shakes_def

text \<open>The name under which a call is charged.\<close>

primrec api_name :: "api_call \<Rightarrow> string" where
  "api_name (ApiSpawn _) = ''spawn_entity''"
| "api_name (ApiDespawn _) = ''despawn_entity''"
| "api_name (ApiSetTransform _ _ _ _) = ''set_transform''"
| "api_name (ApiSetRotation _ _ _ _) = ''set_rotation''"
| "api_name (ApiSetScale _ _ _ _) = ''set_scale''"
| "api_name (ApiSetVisibility _ _) = ''set_visibility''"
| "api_name (ApiPlayVfx _ _ _ _) = ''play_vfx''"
| "api_name (ApiStopVfx _) = ''stop_vfx''"
| "api_name (ApiPlaySound _) = ''play_sound''"
| "api_name (ApiPlaySoundAt _ _ _ _) = ''play_sound_at''"
| "api_name (ApiStopSound _) = ''stop_sound''"
| "api_name (ApiShowDialog _) = ''show_dialog''"
| "api_name (ApiHideDialog _) = ''hide_dialog''"
| "api_name (ApiUpdateHud _ _) = ''update_hud''"
| "api_name (ApiSetHealthBar _ _ _) = ''set_health_bar''"
| "api_name (ApiShowDamageNumber _ _ _) = ''show_damage_number''"
| "api_name (ApiShowToast _ _) = ''show_toast''"
| "api_name (ApiPlayAnimation _ _) = ''play_animation''"
| "api_name (ApiPlayAnimationOnce _ _) = ''play_animation_once''"
| "api_name (ApiStopAnimation _) = ''stop_animation''"
| "api_name (ApiBlendAnimation _ _ _ _) = ''blend_animation''"
| "api_name (ApiGetPosition _) = ''get_position''"
| "api_name (ApiGetEntityState _ _) = ''get_entity_state''"
| "api_name ApiGetLocalPlayerId = ''get_local_player_id''"
| "api_name ApiGetFrameNumber = ''get_frame_number''"
| "api_name ApiGetDeltaTime = ''get_delta_time''"
| "api_name (ApiSendPrediction _ _) = ''send_prediction''"
| "api_name (ApiRequestState _) = ''request_state''"
| "api_name (ApiCameraShake _ _ _ _ _ _ _ _) = ''camera_shake''"
| "api_name (ApiCameraPushOverride _ _ _ _ _ _ _) = ''camera_push_override''"
| "api_name (ApiCameraPopOverride _) = ''camera_pop_override''"
| "api_name (ApiCameraClearOverrides _) = ''camera_clear_overrides''"
| "api_name (ApiCameraClearShakes _) = ''camera_clear_shakes''"

lemma contract_cong: "(\<And>st. f st = g st) \<Longrightarrow> contract c g \<Longrightarrow> contract c f"
  by (simp add: contract_def)

lemma run_api_contract: "contract (cost_for (api_name c)) (run_api E c)"
  by (cases c; simp only: api_name.simps; rule contract_cong, simp only: run_api.simps api_defs;
    (rule contract_answer contract_charged quietI_push quiet_rules)+)

lemma run_api_step: "charged_step (cost_for (api_name c)) st (isl (fst (run_api E c st))) (snd (run_api E c st))"
  using run_api_contract [of c E] by (simp add: contract_def)

text \<open>Only calls that cost at least three operations record anything: the cheaper ones are queries.\<close>

lemma cheap_calls_are_queries:
  "cost_for (api_name c) < 3 \<Longrightarrow> outputs (snd (run_api E c st)) = outputs st"
  by (cases c) (simp_all add: cost_for_def get_local_player_id_def get_frame_number_def get_delta_time_def answer_def
      charged_def ops_deduct_def outputs_def)

lemma run_api_outputs:
  "3 * outputs (snd (run_api E c st)) + unat (ot_remaining (bs_ops_tracker (snd (run_api E c st))))
     \<le> 3 * outputs st + unat (ot_remaining (bs_ops_tracker st))"
proof (cases "ot_remaining (bs_ops_tracker st) < cost_for (api_name c)")
  case False
  then have "unat (ot_remaining (bs_ops_tracker st) - cost_for (api_name c))
      = unat (ot_remaining (bs_ops_tracker st)) - unat (cost_for (api_name c))"
    and "unat (cost_for (api_name c)) \<le> unat (ot_remaining (bs_ops_tracker st))"
    by (simp_all add: not_less unat_sub word_le_nat_alt)
  then show ?thesis
    using run_api_step [of c st E] False cheap_calls_are_queries [of c E st]
    by (cases "cost_for (api_name c) < 3") (auto simp: charged_step_def word_less_nat_alt not_less)
qed (use run_api_step [of c st E] in \<open>simp add: charged_step_def\<close>)

definition run_apis :: "bridge_env \<Rightarrow> api_call list \<Rightarrow> BridgeState \<Rightarrow> BridgeState" where
  "run_apis E cs st = fold (\<lambda>c st. snd (run_api E c st)) cs st"

lemma run_apis_Cons: "run_apis E (c # cs) st = run_apis E cs (snd (run_api E c st))"
  by (simp add: run_apis_def)

text \<open>C23: A frame's budget bounds what scripts can put into the queues: whatever sequence of bridge functions
  is called, each recorded event or camera operation is paid with at least three operations of the budget,
  what was recorded before stays in front, and the mirror the scripts read is not changed. With the default
  budget of 50000 at most 16666 events can be recorded.\<close>

theorem api_calls_bounded:
  "3 * outputs (run_apis E cs st) + unat (ot_remaining (bs_ops_tracker (run_apis E cs st)))
     \<le> 3 * outputs st + unat (ot_remaining (bs_ops_tracker st))
   \<and> prefix (bs_event_queue st) (bs_event_queue (run_apis E cs st))
   \<and> prefix (bs_camera_op_queue st) (bs_camera_op_queue (run_apis E cs st))
   \<and> bs_ecs_mirror (run_apis E cs st) = bs_ecs_mirror st"
proof (induction cs arbitrary: st)
  case (Cons c cs)
  let ?st = "snd (run_api E c st)"
  have "prefix (bs_event_queue st) (bs_event_queue ?st)" "prefix (bs_camera_op_queue st) (bs_camera_op_queue ?st)"
    "bs_ecs_mirror ?st = bs_ecs_mirror st"
    using run_api_step [of c st E] by (auto simp: charged_step_def split: if_splits)
  then show ?case
    using Cons.IH [of ?st] run_api_outputs [of E c st] by (auto simp: run_apis_Cons intro: prefix_order.trans)
qed (simp add: run_apis_def)

text \<open>C28: A bridge function that fails has no effect but its charge: the call is refused outright when the
  remaining budget is below its cost; when its arguments are rejected the cost has been taken, and in both
  cases no event, camera operation, handle or entity identifier is left behind.\<close>

theorem api_failure_harmless:
  assumes "run_api E c st = (Inl e, st')"
  shows "st' = st\<lparr>bs_ops_tracker := (bs_ops_tracker st)\<lparr>ot_remaining :=
    (if ot_remaining (bs_ops_tracker st) < cost_for (api_name c) then ot_remaining (bs_ops_tracker st)
     else ot_remaining (bs_ops_tracker st) - cost_for (api_name c))\<rparr>\<rparr>"
  using run_api_step [of c st E] assms by (auto simp: charged_step_def split: if_splits)

theorem api_failure_harmless_witness:
  "\<forall>E. snd (run_api E (ApiPlayVfx 0 1 1 1) bridge_state_new)
     = bridge_state_new\<lparr>bs_ops_tracker := \<lparr>ot_remaining = 49990, ot_limit = 50000\<rparr>\<rparr>"
proof
  fix E
  obtain e where "run_api E (ApiPlayVfx 0 1 1 1) bridge_state_new
      = (Inl e, bridge_state_new\<lparr>bs_ops_tracker := \<lparr>ot_remaining = 49990, ot_limit = 50000\<rparr>\<rparr>)"
    by (simp add: play_vfx_def charged_def checked_def validate_positive_id_def answer_def ops_deduct_def
        cost_for_def bridge_state_new_def ops_tracker_new_def DEFAULT_BUDGET_def)
  from api_failure_harmless [OF this] this
  show "snd (run_api E (ApiPlayVfx 0 1 1 1) bridge_state_new)
     = bridge_state_new\<lparr>bs_ops_tracker := \<lparr>ot_remaining = 49990, ot_limit = 50000\<rparr>\<rparr>"
    by simp
qed

text \<open>The handle \<open>play_vfx\<close> returns is registered with frame zero whatever the current frame is: a sweep of
  this registry from frame 300 on would invalidate it at once, also when the effect was started in the frame
  before. (The periodic sweep works on a registry of its own, though: see below.)\<close>

lemma vfx_handle_expires_at_once:
  assumes "bm_wf (hr_effects (bs_handle_registry st))" "play_vfx E v x y z st = (Inr h, st')"
    and "g mod 60 = 0" "300 \<le> g"
  shows "is_valid_effect (ucast h) (bs_handle_registry st')
    \<and> \<not> is_valid_effect (ucast h) (sweep_handle_registry g (bs_handle_registry st'))"
proof -
  obtain i r where i: "create_effect 0 (bs_handle_registry st) = (i, r)" by (cases "create_effect 0 (bs_handle_registry st)")
  have h: "h = ucast i" "bs_handle_registry st' = r"
    using assms(2) i
    by (auto simp: play_vfx_def charged_def checked_def new_effect_def ops_deduct_def push_event_def
        split: if_splits sum.splits)
  have "bm_wf (hr_effects r)" and "bm_get (hr_effects r) i = Some (fresh_entry 0)"
    using assms(1) i by (auto simp: create_effect_def bm_get_insert intro: bm_wf_insert)
  moreover have "ucast (ucast i :: u64) = i" by (rule bit_word_eqI) (auto simp: bit_simps)
  moreover note handle_lifetime_fold [OF calculation(1), of i 0 "[]"] handle_lifetime_fold [OF calculation(1), of i 0 "[Sweep g]"]
  ultimately show ?thesis
    using assms(3,4) h by (simp add: ends_effect_def DEFAULT_MAX_LIFETIME_FRAMES_def)
qed

definition plain_env :: bridge_env where
  "plain_env = \<lparr>br_from_f64 = \<lambda>f. SoftF32 (f64_to_f32 f), br_to_f64 = \<lambda>s. 0, br_show_f64 = \<lambda>_. [],
     br_type_name = \<lambda>_. []\<rparr>"

lemma vfx_handle_expires_at_once_example:
  "\<not> is_valid_effect 0 (sweep_handle_registry 36000
     (bs_handle_registry (snd (play_vfx plain_env 1 f64_one f64_one f64_one bridge_state_new))))"
proof -
  have "play_vfx plain_env 1 f64_one f64_one f64_one bridge_state_new =
      (Inr 0, snd (play_vfx plain_env 1 f64_one f64_one f64_one bridge_state_new))"
    by (simp add: play_vfx_def charged_def checked_def validate_positive_id_def ops_deduct_def cost_for_def
        bridge_state_new_def ops_tracker_new_def DEFAULT_BUDGET_def validate_coordinates_def validate_coordinate_def
        f64_one_def f64_is_finite_def f64_exponent_def f64_le_def f64_is_nan_def f64_key_def f64_negative_def
        f64_mantissa_def COORDINATE_MIN_def COORDINATE_MAX_def drop_bit_eq_div unat_div new_effect_def create_effect_def
        handle_registry_new_def)
  from vfx_handle_expires_at_once [OF _ this, of 36000] show ?thesis
    by (simp add: bridge_state_new_def handle_registry_new_def)
qed

section \<open>Handles of scripts\<close>

definition registry_step :: "HandleRegistry \<Rightarrow> HandleRegistry \<Rightarrow> bool" where
  "registry_step r r' \<longleftrightarrow> r' = r \<or> r' = snd (create_effect 0 r) \<or> r' = snd (create_sound 0 r)"

definition only_creates :: "(BridgeState \<Rightarrow> (string + 'r) \<times> BridgeState) \<Rightarrow> bool" where
  "only_creates k \<longleftrightarrow> (\<forall>st. registry_step (bs_handle_registry st) (bs_handle_registry (snd (k st))))"

named_theorems creates_rules \<open>functions that at most create a handle\<close>

lemma creates_push [creates_rules]: "only_creates (\<lambda>st. (r st, push_event (e st) st))"
  by (simp add: only_creates_def registry_step_def push_event_def)

lemma creates_camera [creates_rules]: "only_creates (\<lambda>st. (r st, push_camera_op op st))"
  by (simp add: only_creates_def registry_step_def push_camera_op_def)

lemma creates_const [creates_rules]: "only_creates (\<lambda>st. (r st, st))"
  by (simp add: only_creates_def registry_step_def)

lemma creates_checked [creates_rules]: "(\<And>a. only_creates (k a)) \<Longrightarrow> only_creates (checked c k)"
  by (cases c) (auto simp: only_creates_def checked_def registry_step_def)

lemma creates_for_entity [creates_rules]: "only_creates (for_entity eid r event)"
  by (simp add: only_creates_def for_entity_def push_event_def registry_step_def)

lemma creates_charged [creates_rules]:
  assumes "only_creates k"
  shows "only_creates (charged name k)"
  unfolding only_creates_def
proof
  fix st :: BridgeState
  let ?st = "st\<lparr>bs_ops_tracker := (bs_ops_tracker st)\<lparr>ot_remaining := ot_remaining (bs_ops_tracker st) - cost_for name\<rparr>\<rparr>"
  show "registry_step (bs_handle_registry st) (bs_handle_registry (snd (charged name k st)))"
    using assms [unfolded only_creates_def, rule_format, of ?st]
    by (simp add: charged_def ops_deduct_def) (simp add: registry_step_def)
qed

lemma creates_answer [creates_rules]: "only_creates f \<Longrightarrow> only_creates (\<lambda>st. answer w (f st))"
  by (simp add: only_creates_def answer_def)

lemma creates_spawn [creates_rules]:
  "only_creates (\<lambda>st. case entity_id_next (bs_entity_id_allocator st) of
     (entity_id, a) \<Rightarrow> (Inr (eid_raw entity_id), push_event (SpawnEntity t) (st\<lparr>bs_entity_id_allocator := a\<rparr>)))"
  by (simp add: only_creates_def entity_id_next_def push_event_def registry_step_def)

lemma creates_effect [creates_rules]:
  "only_creates (\<lambda>st. case new_effect st of (h, st) \<Rightarrow> (Inr (ucast h), push_event e st))"
  by (simp add: only_creates_def new_effect_def push_event_def registry_step_def case_prod_unfold)

lemma creates_sound [creates_rules]:
  "only_creates (\<lambda>st. case new_sound st of (h, st) \<Rightarrow> (Inr (ucast h), push_event e st))"
  by (simp add: only_creates_def new_sound_def push_event_def registry_step_def case_prod_unfold)

lemma creates_if_push [creates_rules]:
  "only_creates (\<lambda>st. let h = x in (Inr (), if P h st then push_event (e h) st else st))"
  by (simp add: only_creates_def push_event_def registry_step_def Let_def)

lemma creates_lookup [creates_rules]:
  "only_creates (\<lambda>st. case g st of Some x \<Rightarrow> (Inr (a x st), st) | None \<Rightarrow> (Inr b, st))"
  by (simp add: only_creates_def registry_step_def split: option.split)

lemma creates_cong: "(\<And>st. f st = g st) \<Longrightarrow> only_creates g \<Longrightarrow> only_creates f"
  by (simp add: only_creates_def)

lemma run_api_creates: "only_creates (run_api E c)"
  by (cases c; simp only:; rule creates_cong, simp only: run_api.simps api_defs; (rule creates_rules)+)

lemma run_api_keeps_handles:
  "is_valid_effect h (bs_handle_registry st) \<Longrightarrow> is_valid_effect h (bs_handle_registry (snd (run_api E c st)))"
  "is_valid_sound h (bs_handle_registry st) \<Longrightarrow> is_valid_sound h (bs_handle_registry (snd (run_api E c st)))"
  using run_api_creates [of E c, unfolded only_creates_def, rule_format, of st]
  by (auto simp: registry_step_def create_effect_def create_sound_def is_valid_effect_def is_valid_sound_def
      bm_get_insert fresh_entry_def)

text \<open>No bridge function ever ends a handle: an effect or sound that is valid stays valid through any
  sequence of calls, calls of \<open>stop_vfx\<close> and \<open>stop_sound\<close> on it included. The registry of the bridge only
  grows: the periodic sweep is run on a registry of its own, which nothing ever fills.\<close>

lemma script_handles_never_end:
  assumes "is_valid_effect h (bs_handle_registry st)" "is_valid_sound k (bs_handle_registry st)"
  shows "is_valid_effect h (bs_handle_registry (run_apis E cs st))
    \<and> is_valid_sound k (bs_handle_registry (run_apis E cs st))"
  using assms
proof (induction cs arbitrary: st)
  case (Cons c cs)
  then show ?case by (simp add: run_apis_Cons run_api_keeps_handles)
qed (simp add: run_apis_def)

lemma script_handles_never_end_example:
  "is_valid_effect 0 (bs_handle_registry (run_apis plain_env [ApiStopVfx 0, ApiStopSound 1]
     (bridge_state_new\<lparr>bs_handle_registry := snd (create_sound 0 (snd (create_effect 0 handle_registry_new)))\<rparr>)))"
  by (rule script_handles_never_end [of 0 _ 1, THEN conjunct1])
    (simp_all add: handle_registry_new_def create_effect_def create_sound_def is_valid_effect_def is_valid_sound_def
      fresh_entry_def)

section \<open>Conversions round-trip\<close>

text \<open>A deterministic value survives the way through the script engine, given that widening a software float
  and narrowing it again gives it back.\<close>

lemma deterministic_roundtrip:
  assumes "\<And>s. v = DStr s \<Longrightarrow> length s \<le> DETERMINISTIC_STR_MAX_BYTES"
    and "\<And>f. v = DFloat f \<Longrightarrow> br_from_f64 E (br_to_f64 E f) = f"
  shows "to_deterministic E (to_rhai_dynamic E v) = v"
  using assms by (cases v) (auto simp: to_deterministic_def to_rhai_dynamic_def validated_str_def)

lemma truncate_string_bound: "length (truncate_string v) \<le> MAX_STRING_BYTES"
proof -
  have "floor_boundary s i \<le> i" for s i
    by (induction s i rule: floor_boundary.induct) (auto simp: le_SucI)
  from this [of v MAX_STRING_BYTES] show ?thesis by (auto simp: truncate_string_def)
qed

end
