(* ===== verification/Bridge_Flush.thy ===== *)
theory Bridge_Flush
  imports Script_Bridge
begin

text \<open>
  The game side of the script bridge (\<^verbatim>\<open>engine/vm_bevy_bridge/src\<close>: \<open>event_queue.rs\<close>, \<open>flush.rs\<close>,
  \<open>mirror_sync.rs\<close>, \<open>fallback.rs\<close>; \<^verbatim>\<open>engine/vm_runtime/src/fallback.rs\<close>): the bounded queue, the
  map between script identifiers and game entities, the processing of events once a frame, the refresh of
  the mirror and the behaviour of disabled scripts. The game engine is outside: what the code asks of it is
  the list of commands it issues, the identifiers of the entities it spawns are the parameter \<open>spawned\<close>
  (the \<open>n\<close>-th one), and rotations and their composition from angles are parameters.
\<close>

section \<open>Queue\<close>

definition MAX_QUEUE_CAPACITY :: nat where "MAX_QUEUE_CAPACITY = 4096"

record BridgeEventQueue =
  bq_events :: "BridgeEvent list"
  bq_dropped :: nat

definition bridge_queue_new :: BridgeEventQueue where
  "bridge_queue_new = \<lparr>bq_events = [], bq_dropped = 0\<rparr>"

definition bridge_queue_push :: "BridgeEvent \<Rightarrow> BridgeEventQueue \<Rightarrow> BridgeEventQueue" where
  "bridge_queue_push event q =
     (if length (bq_events q) \<ge> MAX_QUEUE_CAPACITY then q\<lparr>bq_dropped := bq_dropped q + 1\<rparr>
      else q\<lparr>bq_events := bq_events q @ [event]\<rparr>)"

definition transfer_from :: "EventQueue \<Rightarrow> BridgeEventQueue \<Rightarrow> BridgeEventQueue \<times> EventQueue" where
  "transfer_from event_queue q =
     (case event_queue_drain event_queue of (events, rest) \<Rightarrow> (fold bridge_queue_push events q, rest))"

definition bridge_queue_drain :: "BridgeEventQueue \<Rightarrow> BridgeEvent list \<times> BridgeEventQueue" where
  "bridge_queue_drain q = (bq_events q, \<lparr>bq_events = [], bq_dropped = 0\<rparr>)"

definition bridge_queue_retain :: "(BridgeEvent \<Rightarrow> bool) \<Rightarrow> BridgeEventQueue \<Rightarrow> BridgeEventQueue" where
  "bridge_queue_retain f q =
     (let before = length (bq_events q);
          events = filter f (bq_events q);
          removed = before - length events
      in q\<lparr>bq_events := events, bq_dropped := bq_dropped q + removed\<rparr>)"

section \<open>Entities\<close>

record 'e BridgeEntityMap =
  vm_to_bevy :: "(EntityId, 'e) btree"
  bevy_to_vm :: "('e, EntityId) btree"

definition entity_map_empty :: "'e BridgeEntityMap" where
  "entity_map_empty = \<lparr>vm_to_bevy = [], bevy_to_vm = []\<rparr>"

definition map_insert :: "EntityId \<Rightarrow> 'e::linorder \<Rightarrow> 'e BridgeEntityMap \<Rightarrow> 'e BridgeEntityMap" where
  "map_insert vm_id bevy_entity m =
     m\<lparr>vm_to_bevy := bm_insert vm_id bevy_entity (vm_to_bevy m),
       bevy_to_vm := bm_insert bevy_entity vm_id (bevy_to_vm m)\<rparr>"

definition get_bevy :: "'e BridgeEntityMap \<Rightarrow> EntityId \<Rightarrow> 'e option" where
  "get_bevy m vm_id = bm_get (vm_to_bevy m) vm_id"

definition get_vm :: "'e BridgeEntityMap \<Rightarrow> 'e \<Rightarrow> EntityId option" where
  "get_vm m bevy_entity = bm_get (bevy_to_vm m) bevy_entity"

definition remove_by_vm :: "EntityId \<Rightarrow> 'e::linorder BridgeEntityMap \<Rightarrow> 'e option \<times> 'e BridgeEntityMap" where
  "remove_by_vm vm_id m =
     (case get_bevy m vm_id of
        None \<Rightarrow> (None, m)
      | Some e \<Rightarrow> (Some e, m\<lparr>vm_to_bevy := bm_remove vm_id (vm_to_bevy m),
                            bevy_to_vm := bm_remove e (bevy_to_vm m)\<rparr>))"

definition remove_by_bevy :: "'e \<Rightarrow> 'e::linorder BridgeEntityMap \<Rightarrow> EntityId option \<times> 'e BridgeEntityMap" where
  "remove_by_bevy bevy_entity m =
     (case get_vm m bevy_entity of
        None \<Rightarrow> (None, m)
      | Some i \<Rightarrow> (Some i, m\<lparr>bevy_to_vm := bm_remove bevy_entity (bevy_to_vm m),
                            vm_to_bevy := bm_remove i (vm_to_bevy m)\<rparr>))"

definition map_len :: "'e BridgeEntityMap \<Rightarrow> nat" where
  "map_len m = length (vm_to_bevy m)"

section \<open>Commands\<close>

type_synonym vec3 = "f32 \<times> f32 \<times> f32"

record 'q Transform =
  tf_translation :: vec3
  tf_rotation :: 'q
  tf_scale :: vec3

datatype Visibility = Visible | Hidden

datatype ('e, 'q) EcsCommand =
    SpawnGameEntity 'e u64
  | SpawnVfx 'e vec3 u64
  | DespawnRecursive 'e
  | InsertTransform 'e "'q Transform"
  | InsertVisibility 'e Visibility
  | InsertPlayAnimation 'e u64 bool
  | InsertBlendAnimation 'e u64 u64 f64
  | RemovePlayAnimation 'e
  | RemoveBlendAnimation 'e

record 'q rotation_ops =
  ro_identity :: 'q
  ro_from_euler :: "f32 \<Rightarrow> f32 \<Rightarrow> f32 \<Rightarrow> 'q"

definition to_native_vec :: "SoftVec3 \<Rightarrow> vec3" where
  "to_native_vec v = (to_bits (v3_x v), to_bits (v3_y v), to_bits (v3_z v))"

definition transform_default :: "'q rotation_ops \<Rightarrow> 'q Transform" where
  "transform_default Q =
     \<lparr>tf_translation = (f32_zero, f32_zero, f32_zero), tf_rotation = ro_identity Q,
      tf_scale = (f32_one, f32_one, f32_one)\<rparr>"

text \<open>The state the processing of events works on: the commands issued, the number of entities spawned, the
  entity map and the counter of script identifiers.\<close>

record ('e, 'q) flush_state =
  fl_commands :: "('e, 'q) EcsCommand list"
  fl_spawned :: nat
  fl_map :: "'e BridgeEntityMap"
  fl_allocator :: EntityIdAllocator

definition issue :: "('e, 'q) EcsCommand list \<Rightarrow> ('e, 'q) flush_state \<Rightarrow> ('e, 'q) flush_state" where
  "issue cmds s = s\<lparr>fl_commands := fl_commands s @ cmds\<rparr>"

definition on_mapped ::
  "EntityId \<Rightarrow> ('e \<Rightarrow> ('e, 'q) EcsCommand list) \<Rightarrow> ('e, 'q) flush_state \<Rightarrow> ('e, 'q) flush_state" where
  "on_mapped eid cmds s = (case get_bevy (fl_map s) eid of Some e \<Rightarrow> issue (cmds e) s | None \<Rightarrow> s)"

definition process_bridge_event ::
  "'q rotation_ops \<Rightarrow> (nat \<Rightarrow> 'e::linorder) \<Rightarrow> BridgeEvent \<Rightarrow> ('e, 'q) flush_state \<Rightarrow> ('e, 'q) flush_state" where
  "process_bridge_event Q spawned event s =
     (case event of
        SpawnEntity type_id \<Rightarrow>
          (case entity_id_next (fl_allocator s) of
             (vm_id, a) \<Rightarrow>
               let bevy_entity = spawned (fl_spawned s)
               in (issue [SpawnGameEntity bevy_entity type_id] s)
                    \<lparr>fl_spawned := fl_spawned s + 1, fl_map := map_insert vm_id bevy_entity (fl_map s),
                     fl_allocator := a\<rparr>)
      | DespawnEntity eid \<Rightarrow>
          (case remove_by_vm eid (fl_map s) of
             (Some bevy_entity, m) \<Rightarrow> issue [DespawnRecursive bevy_entity] (s\<lparr>fl_map := m\<rparr>)
           | (None, _) \<Rightarrow> s)
      | SetTransform eid pos \<Rightarrow>
          on_mapped eid (\<lambda>e. [InsertTransform e ((transform_default Q)\<lparr>tf_translation := to_native_vec pos\<rparr>)]) s
      | SetRotation eid euler \<Rightarrow>
          on_mapped eid (\<lambda>e. [InsertTransform e ((transform_default Q)\<lparr>tf_rotation :=
            ro_from_euler Q (to_bits (v3_x euler)) (to_bits (v3_y euler)) (to_bits (v3_z euler))\<rparr>)]) s
      | SetScale eid scale \<Rightarrow>
          on_mapped eid (\<lambda>e. [InsertTransform e ((transform_default Q)\<lparr>tf_scale := to_native_vec scale\<rparr>)]) s
      | SetVisibility eid visible \<Rightarrow>
          on_mapped eid (\<lambda>e. [InsertVisibility e (if visible then Visible else Hidden)]) s
      | PlayVfx vfx_id pos \<Rightarrow>
          (issue [SpawnVfx (spawned (fl_spawned s)) (to_native_vec pos) vfx_id] s)\<lparr>fl_spawned := fl_spawned s + 1\<rparr>
      | PlayAnimation eid anim_id \<Rightarrow> on_mapped eid (\<lambda>e. [InsertPlayAnimation e anim_id True]) s
      | PlayAnimationOnce eid anim_id \<Rightarrow> on_mapped eid (\<lambda>e. [InsertPlayAnimation e anim_id False]) s
      | StopAnimation eid \<Rightarrow> on_mapped eid (\<lambda>e. [RemovePlayAnimation e, RemoveBlendAnimation e]) s
      | BlendAnimation eid anim_a anim_b weight \<Rightarrow>
          on_mapped eid (\<lambda>e. [InsertBlendAnimation e anim_a anim_b weight]) s
      | _ \<Rightarrow> s)"

record BridgeDiagnostics =
  bd_flush_duration_micros :: u64
  bd_events_processed :: nat
  bd_events_dropped :: nat
  bd_total_events_dropped :: u64

text \<open>The system that runs once a frame; \<open>start\<close> and \<open>stop\<close> are the two readings of the clock.\<close>

definition flush_bridge_events ::
  "'q rotation_ops \<Rightarrow> (nat \<Rightarrow> 'e::linorder) \<Rightarrow> u64 \<Rightarrow> u64 \<Rightarrow> BridgeEventQueue \<Rightarrow> BridgeDiagnostics \<Rightarrow> ('e, 'q) flush_state
     \<Rightarrow> BridgeEventQueue \<times> BridgeDiagnostics \<times> ('e, 'q) flush_state" where
  "flush_bridge_events Q spawned start stop bridge_queue diagnostics s =
     (let dropped_before = bq_dropped bridge_queue
      in case bridge_queue_drain bridge_queue of
           (events, bridge_queue) \<Rightarrow>
             let event_count = length events;
                 s = fold (process_bridge_event Q spawned) events s;
                 elapsed_micros = saturating_sub stop start
             in (bridge_queue,
                 diagnostics\<lparr>bd_flush_duration_micros := elapsed_micros, bd_events_processed := event_count,
                   bd_events_dropped := dropped_before,
                   bd_total_events_dropped := bd_total_events_dropped diagnostics + of_nat dropped_before\<rparr>,
                 s))"

section \<open>Mirror\<close>

definition DELTA_TIME_60HZ :: SoftF32 where "DELTA_TIME_60HZ = SoftF32 0x3C888889"

definition update_ecs_mirror ::
  "EcsMirror \<Rightarrow> 'e BridgeEntityMap \<Rightarrow> u64 \<Rightarrow> EcsMirror \<Rightarrow> u64 \<times> EcsMirror" where
  "update_ecs_mirror bridge_mirror entity_map frame mirror =
     (let frame = frame + 1
      in (frame,
          mirror\<lparr>em_entities := bm_retain (\<lambda>eid _. get_bevy entity_map eid \<noteq> None) (em_entities bridge_mirror),
                 em_frame_number := frame, em_delta_time := DELTA_TIME_60HZ\<rparr>))"

section \<open>Disabled scripts\<close>

record ScriptDisabled =
  sd_script_id :: string
  sd_reason :: DisableReason
  sd_disabled_at_tick :: u64

text \<open>The notification; the frame statistics it may log are not looked at otherwise.\<close>

definition emit_disable_notification :: "string \<Rightarrow> DisableReason \<Rightarrow> BridgeEvent list" where
  "emit_disable_notification script_id reason = [ShowToast (utf8 [0xE8, 0x85, 0xB3, 0xE6, 0x9C, 0xAC, 0xE7, 0x95, 0xB0, 0xE5, 0xB8, 0xB8, 0xEF, 0xBC, 0x8C, 0xE9, 0x83, 0xA8, 0xE5, 0x88, 0x86, 0xE6, 0x95, 0x88, 0xE6, 0x9E, 0x9C, 0xE6, 0x9A, 0xAB, 0xE6, 0x99, 0x82, 0xE9, 0x97, 0x9C, 0xE9, 0x96, 0x89]) 3000]"

text \<open>The systems over the entities of disabled scripts, in the order of the query.\<close>

definition fallback_animation_system ::
  "('e \<times> ScriptDisabled \<times> u32 option) list \<Rightarrow> ('e, 'q) EcsCommand list" where
  "fallback_animation_system query =
     map (\<lambda>(entity, _, animation_id).
       case animation_id of
         Some anim_id \<Rightarrow> InsertPlayAnimation entity (ucast anim_id) True
       | None \<Rightarrow> RemovePlayAnimation entity) query"

definition fallback_ui_system :: "('e \<times> ScriptDisabled) list \<Rightarrow> ('e, 'q) EcsCommand list" where
  "fallback_ui_system query = map (\<lambda>(entity, _). InsertVisibility entity Hidden) query"

definition fallback_event_system ::
  "('e \<times> ScriptDisabled) list \<Rightarrow> 'e BridgeEntityMap \<Rightarrow> BridgeEventQueue \<Rightarrow> BridgeEventQueue" where
  "fallback_event_system query entity_map bridge_queue =
     (let disabled_vm_ids = List.map_filter (\<lambda>(e, _). get_vm entity_map e) query
      in if disabled_vm_ids = [] then bridge_queue
         else bridge_queue_retain (\<lambda>event.
                case event_entity_id event of
                  Some eid \<Rightarrow> eid \<notin> set disabled_vm_ids
                | None \<Rightarrow> True) bridge_queue)"

definition fallback_movement_system ::
  "'q rotation_ops \<Rightarrow> ('e \<times> ScriptDisabled \<times> SoftVec3) list \<Rightarrow> ('e, 'q) EcsCommand list" where
  "fallback_movement_system Q query =
     map (\<lambda>(entity, _, pos). InsertTransform entity ((transform_default Q)\<lparr>tf_translation := to_native_vec pos\<rparr>)) query"

section \<open>The queue keeps the first 4096 events\<close>

text \<open>The interface of a bounded queue that refuses new elements when it is full and counts them.\<close>

locale refusing_queue =
  fixes items :: "'q \<Rightarrow> 'a list"
    and lost :: "'q \<Rightarrow> nat"
    and cap :: nat
    and put :: "'a \<Rightarrow> 'q \<Rightarrow> 'q"
  assumes put_room: "length (items q) < cap \<Longrightarrow> items (put x q) = items q @ [x] \<and> lost (put x q) = lost q"
    and put_full: "cap \<le> length (items q) \<Longrightarrow> items (put x q) = items q \<and> lost (put x q) = Suc (lost q)"
begin

lemma items_fold:
  "length (items q) \<le> cap \<Longrightarrow>
     items (fold put xs q) = take cap (items q @ xs) \<and> lost (fold put xs q) = lost q + (length (items q) + length xs - cap)"
proof (induction xs arbitrary: q)
  case (Cons x xs)
  show ?case
  proof (cases "length (items q) < cap")
    case True
    then show ?thesis using Cons.IH [of "put x q"] put_room [of q x] by simp
  next
    case False
    then show ?thesis using Cons.IH [of "put x q"] put_full [of q x] Cons.prems by simp
  qed
qed simp

lemma nothing_lost_within:
  "length (items q) + length xs \<le> cap \<Longrightarrow> items (fold put xs q) = items q @ xs \<and> lost (fold put xs q) = lost q"
  using items_fold [of q xs] by simp

end

interpretation bridge_queue: refusing_queue bq_events bq_dropped MAX_QUEUE_CAPACITY bridge_queue_push
  by unfold_locales (simp_all add: bridge_queue_push_def)

lemma transfer_from_eq:
  assumes "length (bq_events q) \<le> MAX_QUEUE_CAPACITY"
  shows "bq_events (fst (transfer_from es q)) = take MAX_QUEUE_CAPACITY (bq_events q @ es)"
    and "bq_dropped (fst (transfer_from es q)) = bq_dropped q + (length (bq_events q) + length es - MAX_QUEUE_CAPACITY)"
    and "snd (transfer_from es q) = []"
  using bridge_queue.items_fold [OF assms, of es] by (simp_all add: transfer_from_def event_queue_drain_def)

section \<open>The entity map stays one-to-one\<close>

definition entity_map_ok :: "'e::linorder BridgeEntityMap \<Rightarrow> bool" where
  "entity_map_ok m \<longleftrightarrow> (\<forall>vm e. get_bevy m vm = Some e \<longleftrightarrow> get_vm m e = Some vm)"

lemma entity_map_empty_ok [simp]: "entity_map_ok entity_map_empty"
  by (simp add: entity_map_ok_def entity_map_empty_def get_bevy_def get_vm_def)

lemma get_bevy_insert: "get_bevy (map_insert vm e m) = (get_bevy m)(vm \<mapsto> e)"
  by (simp add: get_bevy_def [abs_def] map_insert_def bm_get_insert)

lemma get_vm_insert: "get_vm (map_insert vm e m) = (get_vm m)(e \<mapsto> vm)"
  by (simp add: get_vm_def [abs_def] map_insert_def bm_get_insert)

lemma get_bevy_remove_by_vm: "get_bevy (snd (remove_by_vm vm m)) = (get_bevy m)(vm := None)"
  by (auto simp: get_bevy_def [abs_def] remove_by_vm_def bm_get_remove fun_eq_iff split: option.split)

lemma get_vm_remove_by_vm:
  "get_vm (snd (remove_by_vm vm m)) = (case get_bevy m vm of None \<Rightarrow> get_vm m | Some e \<Rightarrow> (get_vm m)(e := None))"
  by (auto simp: get_bevy_def get_vm_def [abs_def] remove_by_vm_def bm_get_remove split: option.split)

lemma entity_map_okD: "entity_map_ok m \<Longrightarrow> get_vm m e = Some vm \<longleftrightarrow> get_bevy m vm = Some e"
  by (simp add: entity_map_ok_def)

lemma map_insert_ok:
  assumes "entity_map_ok m" "get_bevy m vm = None" "get_vm m e = None"
  shows "entity_map_ok (map_insert vm e m)"
proof -
  have "get_vm m e' \<noteq> Some vm" for e' using assms(1,2) by (simp add: entity_map_okD)
  moreover have "get_bevy m vm' \<noteq> Some e" for vm' using assms(3) entity_map_okD [OF assms(1), of e vm'] by simp
  ultimately show ?thesis
    unfolding entity_map_ok_def get_bevy_insert get_vm_insert by (simp add: entity_map_okD [OF assms(1)])
qed

lemma remove_by_vm_ok:
  assumes "entity_map_ok m"
  shows "entity_map_ok (snd (remove_by_vm vm m))"
proof (cases "get_bevy m vm")
  case None
  then show ?thesis using assms by (simp add: remove_by_vm_def)
next
  case (Some e)
  have "get_bevy m vm' \<noteq> Some e" if "vm' \<noteq> vm" for vm'
    using that Some entity_map_okD [OF assms, of e] by (metis option.inject)
  then show ?thesis
    unfolding entity_map_ok_def get_bevy_remove_by_vm get_vm_remove_by_vm
    by (auto simp: Some entity_map_okD [OF assms])
qed

text \<open>An entry in use when it is overwritten leaves its old partner behind in the other direction.\<close>

lemma map_insert_leaves_stale:
  "\<not> entity_map_ok (map_insert (EntityId 1) (8 :: nat) (map_insert (EntityId 1) 7 entity_map_empty))"
  unfolding entity_map_ok_def get_bevy_insert get_vm_insert
  by (simp add: entity_map_empty_def get_bevy_def get_vm_def)

text \<open>The flush meets fresh identifiers on both sides: script identifiers below the counter, spawned entities
  below the number spawned.\<close>

definition flush_ok :: "(nat \<Rightarrow> 'e::linorder) \<Rightarrow> ('e, 'q) flush_state \<Rightarrow> bool" where
  "flush_ok spawned s \<longleftrightarrow> entity_map_ok (fl_map s)
     \<and> (\<forall>vm e. get_bevy (fl_map s) vm = Some e \<longrightarrow> eid_raw vm < fl_allocator s \<and> e \<in> spawned ` {..<fl_spawned s})"

lemma fl_issue [simp]:
  "fl_map (issue c s) = fl_map s" "fl_spawned (issue c s) = fl_spawned s" "fl_allocator (issue c s) = fl_allocator s"
  by (simp_all add: issue_def)

lemma fl_on_mapped [simp]:
  "fl_map (on_mapped eid c s) = fl_map s" "fl_spawned (on_mapped eid c s) = fl_spawned s"
  "fl_allocator (on_mapped eid c s) = fl_allocator s"
  by (simp_all add: on_mapped_def split: option.split)

definition is_spawn :: "BridgeEvent \<Rightarrow> bool" where
  "is_spawn e \<longleftrightarrow> (case e of SpawnEntity _ \<Rightarrow> True | _ \<Rightarrow> False)"

lemma process_allocator:
  "fl_allocator (process_bridge_event Q spawned e s) = fl_allocator s + (if is_spawn e then 1 else 0)"
  by (cases e) (auto simp: process_bridge_event_def is_spawn_def entity_id_next_def remove_by_vm_def Let_def
      split: option.split)

lemma flush_ok_step:
  assumes "inj spawned" "flush_ok spawned s" "is_spawn e \<Longrightarrow> fl_allocator s \<noteq> - 1"
  shows "flush_ok spawned (process_bridge_event Q spawned e s)"
proof (cases e)
  case (SpawnEntity t)
  have a: "fl_allocator s < fl_allocator s + 1"
    using assms(3) SpawnEntity word_inc_less [of "fl_allocator s"] by (simp add: is_spawn_def)
  have ok: "entity_map_ok (fl_map s)"
    and used: "\<And>vm e. get_bevy (fl_map s) vm = Some e \<Longrightarrow>
      eid_raw vm < fl_allocator s \<and> e \<in> spawned ` {..<fl_spawned s}"
    using assms(2) by (auto simp: flush_ok_def)
  have fresh: "get_bevy (fl_map s) (EntityId (fl_allocator s)) = None"
    using used [of "EntityId (fl_allocator s)"] by (cases "get_bevy (fl_map s) (EntityId (fl_allocator s))") auto
  have fresh2: "get_vm (fl_map s) (spawned (fl_spawned s)) = None"
  proof (cases "get_vm (fl_map s) (spawned (fl_spawned s))")
    case (Some vm)
    then have "spawned (fl_spawned s) \<in> spawned ` {..<fl_spawned s}"
      using used [of vm] entity_map_okD [OF ok] by blast
    then show ?thesis using injD [OF assms(1)] by fastforce
  qed
  have "get_bevy (fl_map s) vm = Some e \<Longrightarrow> eid_raw vm < fl_allocator s + 1 \<and> e \<in> spawned ` {..<Suc (fl_spawned s)}" for vm e
    using used [of vm e] a less_trans by (auto simp: less_Suc_eq)
  then show ?thesis
    using SpawnEntity a map_insert_ok [OF ok fresh fresh2]
    by (auto simp: flush_ok_def process_bridge_event_def entity_id_next_def Let_def get_bevy_insert)
next
  case (DespawnEntity i)
  then show ?thesis
    using assms(2) remove_by_vm_ok [of "fl_map s" i] get_bevy_remove_by_vm [of i "fl_map s"]
    by (cases "remove_by_vm i (fl_map s)")
      (auto simp: flush_ok_def process_bridge_event_def split: option.split)
next
  case (PlayVfx v x)
  then show ?thesis using assms(2) by (force simp: process_bridge_event_def flush_ok_def less_Suc_eq)
qed (use assms in \<open>auto simp: process_bridge_event_def flush_ok_def\<close>)

lemma flush_ok_fold:
  assumes "inj spawned" "flush_ok spawned s" "unat (fl_allocator s) + length (filter is_spawn es) < 2 ^ 64"
  shows "flush_ok spawned (fold (process_bridge_event Q spawned) es s)"
  using assms(2,3)
proof (induction es arbitrary: s)
  case (Cons e es)
  have max: "fl_allocator s \<noteq> - 1" if "is_spawn e"
    using Cons.prems(2) that by (auto simp: unsigned_minus_1_eq_mask mask_eq_exp_minus_1)
  have "flush_ok spawned (process_bridge_event Q spawned e s)"
    by (rule flush_ok_step [OF assms(1) Cons.prems(1) max])
  moreover have "unat (fl_allocator (process_bridge_event Q spawned e s)) + length (filter is_spawn es) < 2 ^ 64"
    using Cons.prems(2) max unat_plus_1 [of "fl_allocator s"] by (auto simp: process_allocator split: if_splits)
  ultimately show ?case by (simp add: Cons.IH)
qed simp

section \<open>The identifiers of spawned entities\<close>

text \<open>A frame in which a script spawns entities: the identifiers the calls return.\<close>

fun spawn_all :: "u64 list \<Rightarrow> BridgeState \<Rightarrow> (string + u64 list) \<times> BridgeState" where
  "spawn_all [] st = (Inr [], st)"
| "spawn_all (t # ts) st =
     (case spawn_entity t st of
        (Inl e, st) \<Rightarrow> (Inl e, st)
      | (Inr i, st) \<Rightarrow> (case spawn_all ts st of (r, st) \<Rightarrow> (map_sum (\<lambda>e. e) ((#) i) r, st)))"

lemma spawn_all_eq:
  "spawn_all ts st = (Inr ids, st') \<Longrightarrow>
     ids = map (\<lambda>k. bs_entity_id_allocator st + of_nat k) [0..<length ts]
     \<and> bs_entity_id_allocator st' = bs_entity_id_allocator st + of_nat (length ts)
     \<and> bs_event_queue st' = bs_event_queue st @ map SpawnEntity ts"
proof (induction ts arbitrary: st ids st')
  case (Cons t ts)
  let ?a = "bs_entity_id_allocator st"
  obtain st1 where sp: "spawn_entity t st = (Inr ?a, st1)"
    and st1: "bs_entity_id_allocator st1 = ?a + 1" "bs_event_queue st1 = bs_event_queue st @ [SpawnEntity t]"
    using Cons.prems
    by (auto simp: spawn_entity_def charged_def entity_id_next_def push_event_def event_queue_push_def ops_deduct_def
        split: if_splits)
  obtain ids' where rest: "spawn_all ts st1 = (Inr ids', st')" "ids = ?a # ids'"
    using Cons.prems sp by (auto simp: map_sum_Inr split: prod.splits)
  have "[0..<Suc n] = 0 # map Suc [0..<n]" for n
    by (simp add: upt_conv_Cons map_Suc_upt del: upt_Suc)
  then show ?case
    using Cons.IH [OF rest(1)] rest(2) st1 by (simp add: comp_def add.assoc del: upt_Suc)
qed simp

lemma flush_spawns:
  "let s' = fold (process_bridge_event Q spawned) (map SpawnEntity ts) s
   in fl_allocator s' = fl_allocator s + of_nat (length ts)
     \<and> (\<forall>i. get_bevy (fl_map s') (EntityId i) \<noteq> get_bevy (fl_map s) (EntityId i) \<longrightarrow>
          (\<exists>k < length ts. i = fl_allocator s + of_nat k))"
proof (induction ts arbitrary: s)
  case (Cons t ts)
  let ?s = "process_bridge_event Q spawned (SpawnEntity t) s"
  have s: "fl_allocator ?s = fl_allocator s + 1"
    "get_bevy (fl_map ?s) = (get_bevy (fl_map s))(EntityId (fl_allocator s) \<mapsto> spawned (fl_spawned s))"
    by (simp_all add: process_bridge_event_def entity_id_next_def Let_def get_bevy_insert)
  let ?s' = "fold (process_bridge_event Q spawned) (map SpawnEntity ts) ?s"
  have "\<exists>k < Suc (length ts). i = fl_allocator s + of_nat k"
    if ne: "get_bevy (fl_map ?s') (EntityId i) \<noteq> get_bevy (fl_map s) (EntityId i)" for i
  proof (cases "i = fl_allocator s")
    case True
    then show ?thesis by (intro exI [of _ 0]) simp
  next
    case False
    then have "get_bevy (fl_map ?s') (EntityId i) \<noteq> get_bevy (fl_map ?s) (EntityId i)" using ne s(2) by simp
    then obtain k where "k < length ts" "i = fl_allocator s + 1 + of_nat k"
      using Cons.IH [of ?s] s(1) by (auto simp: Let_def)
    then show ?thesis by (intro exI [of _ "Suc k"]) (simp add: add.assoc)
  qed
  then show ?case using Cons.IH [of ?s] s(1) by (simp add: Let_def add.assoc)
qed simp

text \<open>Scripts never get hold of the entities they spawn. The call takes an identifier from the counter and
  returns it, the flush takes another one for the entity it makes: after a frame in which a script spawned
  entities, none of the identifiers it was given is mapped to an entity by the flush.\<close>

lemma spawned_ids_unmapped:
  assumes "spawn_all ts st = (Inr ids, st')" "bs_event_queue st = []" "bq_events q = []" "length ts \<le> MAX_QUEUE_CAPACITY"
    and "unat (bs_entity_id_allocator st) + 2 * length ts < 2 ^ 64" "fl_allocator s = bs_entity_id_allocator st'"
    and "flush_bridge_events Q spawned t1 t2 (fst (transfer_from (bs_event_queue st') q)) d s = (q', d', s')"
  shows "list_all (\<lambda>i. get_bevy (fl_map s') (EntityId i) = get_bevy (fl_map s) (EntityId i)) ids"
proof -
  note sp = spawn_all_eq [OF assms(1)]
  have "bq_events (fst (transfer_from (bs_event_queue st') q)) = map SpawnEntity ts"
    using transfer_from_eq(1) [of q "bs_event_queue st'"] sp assms(2-4) by simp
  then have s': "s' = fold (process_bridge_event Q spawned) (map SpawnEntity ts) s"
    using assms(7) by (simp add: flush_bridge_events_def Let_def bridge_queue_drain_def)
  have "get_bevy (fl_map s') (EntityId i) = get_bevy (fl_map s) (EntityId i)" if i: "i \<in> set ids" for i
  proof (rule ccontr)
    assume "\<not> ?thesis"
    then obtain k where k: "k < length ts" "i = bs_entity_id_allocator st + of_nat (length ts) + of_nat k"
      using flush_spawns [of Q spawned ts s] sp assms(6) unfolding s' Let_def by auto
    obtain j where j: "j < length ts" "i = bs_entity_id_allocator st + of_nat j" using i sp by auto
    have "of_nat (length ts + k) = (of_nat j :: u64)" using k(2) j(2) by (simp add: add.assoc)
    then have "unat (of_nat (length ts + k) :: u64) = unat (of_nat j :: u64)" by simp
    moreover have "length ts + k < 2 ^ 64" "j < 2 ^ 64" using k(1) j(1) assms(5) by auto
    ultimately have "length ts + k = j" by (simp add: unat_of_nat del: of_nat_add)
    then show False using j(1) by simp
  qed
  then show ?thesis by (simp add: list_all_iff)
qed

text \<open>C27: The map between script identifiers and game entities stays one-to-one: a flush that starts from a
  one-to-one map whose identifiers are below the counters ends in one, whatever events it processes.\<close>

theorem entity_map_one_to_one:
  assumes "inj spawned" "flush_ok spawned s" "unat (fl_allocator s) + length (bq_events q) < 2 ^ 64"
    and "flush_bridge_events Q spawned t1 t2 q d s = (q', d', s')"
  shows "flush_ok spawned s' \<and> bq_events q' = [] \<and> bd_events_processed d' = length (bq_events q)
    \<and> bd_events_dropped d' = bq_dropped q"
proof -
  have "length (filter is_spawn (bq_events q)) \<le> length (bq_events q)" by (rule length_filter_le)
  then have "flush_ok spawned (fold (process_bridge_event Q spawned) (bq_events q) s)"
    using assms(3) by (intro flush_ok_fold [OF assms(1,2)]) linarith
  then show ?thesis
    using assms(4) by (auto simp: flush_bridge_events_def Let_def bridge_queue_drain_def)
qed

definition toy_rotation :: "unit rotation_ops" where
  "toy_rotation = \<lparr>ro_identity = (), ro_from_euler = \<lambda>_ _ _. ()\<rparr>"

definition empty_flush :: "u64 \<Rightarrow> (nat, unit) flush_state" where
  "empty_flush a = \<lparr>fl_commands = [], fl_spawned = 0, fl_map = entity_map_empty, fl_allocator = a\<rparr>"

definition no_diagnostics :: BridgeDiagnostics where
  "no_diagnostics = \<lparr>bd_flush_duration_micros = 0, bd_events_processed = 0, bd_events_dropped = 0, bd_total_events_dropped = 0\<rparr>"

lemma spawned_ids_unmapped_example:
  "fst (spawn_all [7, 8] bridge_state_new) = Inr [1, 2]
   \<and> (case flush_bridge_events toy_rotation (\<lambda>n. n) 0 0 (fst (transfer_from [SpawnEntity 7, SpawnEntity 8] bridge_queue_new))
        no_diagnostics (empty_flush 3) of (_, _, s') \<Rightarrow> get_bevy (fl_map s') (EntityId 1) = None)"
proof -
  let ?st = "snd (spawn_all [7, 8] bridge_state_new)"
  have sp: "spawn_all [7, 8] bridge_state_new = (Inr [1, 2], ?st)"
    by (simp add: spawn_entity_def charged_def entity_id_next_def push_event_def event_queue_push_def ops_deduct_def
        bridge_state_new_def ops_tracker_new_def DEFAULT_BUDGET_def cost_for_def)
  have q: "bs_event_queue ?st = [SpawnEntity 7, SpawnEntity 8]" "bs_entity_id_allocator ?st = 3"
    unfolding spawn_all_eq [OF sp, THEN conjunct2, THEN conjunct1] spawn_all_eq [OF sp, THEN conjunct2, THEN conjunct2]
    by (simp_all add: bridge_state_new_def)
  have init: "bs_event_queue bridge_state_new = []" "bs_entity_id_allocator bridge_state_new = 1"
    by (simp_all add: bridge_state_new_def)
  obtain q' d' s' where fl: "flush_bridge_events toy_rotation (\<lambda>n. n) 0 0 (fst (transfer_from (bs_event_queue ?st) bridge_queue_new))
      no_diagnostics (empty_flush 3) = (q', d', s')" by (metis prod.exhaust)
  have "list_all (\<lambda>i. get_bevy (fl_map s') (EntityId i) = get_bevy (fl_map (empty_flush 3)) (EntityId i)) [1, 2]"
    by (rule spawned_ids_unmapped [OF sp _ _ _ _ _ fl])
      (simp_all add: init bridge_queue_new_def MAX_QUEUE_CAPACITY_def q(2) empty_flush_def del: spawn_all.simps)
  moreover have "fst (spawn_all [7, 8] bridge_state_new) = Inr [1, 2]" using sp by (metis fst_conv)
  ultimately show ?thesis
    using fl unfolding q(1) by (simp add: empty_flush_def entity_map_empty_def get_bevy_def del: spawn_all.simps)
qed

theorem entity_map_one_to_one_witness:
  "flush_ok (\<lambda>n. n) (snd (snd (flush_bridge_events toy_rotation (\<lambda>n. n) 0 0
     \<lparr>bq_events = [SpawnEntity 7, DespawnEntity (EntityId 1), SpawnEntity 9], bq_dropped = 0\<rparr>
     no_diagnostics (empty_flush 1))))"
proof -
  let ?q = "\<lparr>bq_events = [SpawnEntity 7, DespawnEntity (EntityId 1), SpawnEntity 9], bq_dropped = 0\<rparr>"
  obtain q' d' s' where fl: "flush_bridge_events toy_rotation (\<lambda>n. n) 0 0 ?q no_diagnostics (empty_flush 1) = (q', d', s')"
    by (metis prod.exhaust)
  have "flush_ok (\<lambda>n. n) (empty_flush 1)"
    by (simp add: flush_ok_def empty_flush_def) (simp add: entity_map_empty_def get_bevy_def)
  then have "flush_ok (\<lambda>n. n) s'"
    using entity_map_one_to_one [OF _ _ _ fl] by (simp add: empty_flush_def)
  then show ?thesis by (simp add: fl)
qed

section \<open>Further behaviour\<close>

text \<open>Setting the rotation of an entity resets its position and scale: the whole transform is replaced.\<close>

lemma set_rotation_resets_position:
  "get_bevy (fl_map s) i = Some e \<Longrightarrow>
     \<exists>t. fl_commands (process_bridge_event Q spawned (SetRotation i r) s) = fl_commands s @ [InsertTransform e t]
       \<and> tf_translation t = (f32_zero, f32_zero, f32_zero) \<and> tf_scale t = (f32_one, f32_one, f32_one)"
  by (simp add: process_bridge_event_def on_mapped_def issue_def transform_default_def)

text \<open>The events of disabled scripts are dropped and counted; the others keep their order.\<close>

lemma fallback_event_system_events:
  "bq_events (fallback_event_system query m q) =
     filter (\<lambda>ev. \<not> (\<exists>eid \<in> set (List.map_filter (\<lambda>(e, _). get_vm m e) query). event_entity_id ev = Some eid)) (bq_events q)"
  by (auto simp: fallback_event_system_def bridge_queue_retain_def Let_def intro!: filter_cong split: option.splits)

lemma update_ecs_mirror_entities:
  assumes "bm_wf (em_entities b)"
  shows "bm_get (em_entities (snd (update_ecs_mirror b m f mirror))) i =
    (if get_bevy m i = None then None else bm_get (em_entities b) i)"
  using bm_get_retain [OF assms] by (simp add: update_ecs_mirror_def Let_def split: option.splits)

end
