(* ===== verification/Secure_Session.thy ===== *)
theory Secure_Session
  imports Crypto_Frames
begin

text \<open>
  A whole session between a client and the gateway: the client side of the handshake and its message counters
  (\<^verbatim>\<open>client/wasm_loader/src/handshake.rs\<close>) and the connection handler of the gateway with its table of
  clients (\<^verbatim>\<open>server/gateway/src/listener.rs\<close>). The primitives are those of \<open>Crypto_Frames\<close>; secret keys and
  nonces, which both sides draw at random, are arguments. The messages a WebSocket yields are the events of
  the handler.
\<close>

section \<open>The client\<close>

datatype HandshakeError =
    EcdhFailed string
  | DecryptionFailed
  | DeserializationFailed
  | AlreadyCompleted
  | InvalidParameterLength string nat nat
  | InvalidPayloadLength nat nat
  | NotCompleted

definition CLIENT_MAX_MESSAGE_SIZE :: nat where "CLIENT_MAX_MESSAGE_SIZE = 4 * 1024 * 1024"

record InnerState =
  is_key_pair :: "bytes option" \<comment> \<open>the secret of the pair\<close>
  is_client_public_key :: "bytes option"
  is_completed :: bool
  is_retry_count :: u8
  is_session_key :: "bytes option"
  is_send_seq :: u64
  is_recv_seq :: u64

definition client_state :: InnerState where
  "client_state =
     \<lparr>is_key_pair = None, is_client_public_key = None, is_completed = False, is_retry_count = 0,
      is_session_key = None, is_send_seq = 0, is_recv_seq = 0\<rparr>"

text \<open>The serialiser for the messages, beside the primitives of the key exchange.\<close>

record session_env =
  sn_kx :: kx_env
  sn_ser :: "NetMessage \<Rightarrow> bytes"
  sn_de :: "bytes \<Rightarrow> NetMessage option"

definition handshake_begin :: "session_env \<Rightarrow> bytes \<Rightarrow> InnerState \<Rightarrow> bytes \<times> InnerState" where
  "handshake_begin E secret st =
     (let st = st\<lparr>is_completed := False, is_session_key := None, is_send_seq := 0, is_recv_seq := 0\<rparr>;
          public_key = kx_public (sn_kx E) secret
      in (public_key, st\<lparr>is_client_public_key := Some public_key, is_key_pair := Some secret\<rparr>))"

definition parse_server_hello :: "session_env \<Rightarrow> bytes \<Rightarrow> HandshakeError + (bytes \<times> bytes \<times> bytes)" where
  "parse_server_hello E data =
     (if length data < 4 then Inl DeserializationFailed
      else let payload_len = unat (from_le_bytes (take 4 data) :: u32)
           in if payload_len > CLIENT_MAX_MESSAGE_SIZE then Inl (InvalidPayloadLength payload_len (length data - 4))
              else if length data < 4 + payload_len then Inl (InvalidPayloadLength payload_len (length data - 4))
              else case sn_de E (take payload_len (drop 4 data)) of
                     Some (ServerHello public_key encrypted_payload nonce) \<Rightarrow> Inr (public_key, nonce, encrypted_payload)
                   | _ \<Rightarrow> Inl DeserializationFailed)"

definition ecdh_failed :: "CryptoError \<Rightarrow> HandshakeError" where
  "ecdh_failed e = EcdhFailed (display_crypto_error e)"

definition hkdf_failed :: "CryptoError \<Rightarrow> HandshakeError" where
  "hkdf_failed e = EcdhFailed (''HKDF'' @ utf8 [0xEF, 0xBC, 0x9A] @ display_crypto_error e)"

definition handshake_complete :: "session_env \<Rightarrow> bytes \<Rightarrow> InnerState \<Rightarrow> (HandshakeError + bytes) \<times> InnerState" where
  "handshake_complete E data st = (case parse_server_hello E data of
       Inl e \<Rightarrow> (Inl e, st)
     | Inr (server_pub, nonce, encrypted_payload) \<Rightarrow>
         if is_completed st then (Inl AlreadyCompleted, st)
         else (case is_key_pair st of
             None \<Rightarrow> (Inl (EcdhFailed (''EcdhKeyPair '' @ utf8 [0xE5, 0xB7, 0xB2, 0xE8, 0xA2, 0xAB, 0xE6, 0xB6, 0x88, 0xE8, 0x80, 0x97])), st)
           | Some pair \<Rightarrow>
               (let st = st\<lparr>is_key_pair := None\<rparr>
                in case is_client_public_key st of
                     None \<Rightarrow> (Inl (EcdhFailed (''client '' @ utf8 [0xE5, 0x85, 0xAC, 0xE9, 0x91, 0xB0, 0xE9, 0x81, 0xBA, 0xE5, 0xA4, 0xB1])), st)
                   | Some client_pub \<Rightarrow>
                       (case bind_sum (map_inl ecdh_failed (kx_shared (sn_kx E) pair server_pub)) (\<lambda>shared.
                               bind_sum (map_inl hkdf_failed (derive_session_key (kx_hkdf (sn_kx E)) shared
                                   (build_hkdf_salt client_pub server_pub) HKDF_INFO)) (\<lambda>session_key.
                                 bind_sum (map_inl (\<lambda>_. DecryptionFailed)
                                     (aes_decrypt (kx_aead (sn_kx E)) session_key (nonce @ encrypted_payload))) (\<lambda>_.
                                   Inr session_key))) of
                          Inl e \<Rightarrow> (Inl e, st)
                        | Inr session_key \<Rightarrow>
                            (Inr session_key, st\<lparr>is_session_key := Some session_key, is_completed := True\<rparr>)))))"

datatype timeout_action = RetryHandshake | ShowError

definition on_timeout :: "session_env \<Rightarrow> bytes \<Rightarrow> InnerState \<Rightarrow> timeout_action \<times> InnerState" where
  "on_timeout E secret st =
     (let retries = is_retry_count st;
          st = st\<lparr>is_retry_count := is_retry_count st + 1\<rparr>
      in if retries < 1 then (RetryHandshake, snd (handshake_begin E secret st)) else (ShowError, st))"

text \<open>Sealing a message is \<open>expect\<close>ed to succeed.\<close>

definition encrypt_outgoing ::
  "session_env \<Rightarrow> bytes \<Rightarrow> NetMessage \<Rightarrow> InnerState \<Rightarrow> panic + ((HandshakeError + bytes) \<times> InnerState)" where
  "encrypt_outgoing E nonce msg st = (case is_session_key st of
       None \<Rightarrow> Inr (Inl NotCompleted, st)
     | Some key \<Rightarrow>
         (case encrypt_frame_aad (kx_aead (sn_kx E)) nonce (sn_ser E msg) key (is_send_seq st) of
            Inl _ \<Rightarrow> Inl Panic
          | Inr frame \<Rightarrow> Inr (Inr frame, st\<lparr>is_send_seq := is_send_seq st + 1\<rparr>)))"

definition decrypt_incoming :: "session_env \<Rightarrow> bytes \<Rightarrow> InnerState \<Rightarrow> (HandshakeError + NetMessage) \<times> InnerState" where
  "decrypt_incoming E data st = (case is_session_key st of
       None \<Rightarrow> (Inl NotCompleted, st)
     | Some key \<Rightarrow>
         (case decrypt_frame_aad (kx_aead (sn_kx E)) data key (is_recv_seq st) of
            Inl AuthFailed \<Rightarrow> (Inl DecryptionFailed, st)
          | Inl (TooShort needed available) \<Rightarrow> (Inl (InvalidPayloadLength needed available), st)
          | Inr plaintext \<Rightarrow>
              (let st = st\<lparr>is_recv_seq := is_recv_seq st + 1\<rparr>
               in (case sn_de E plaintext of None \<Rightarrow> Inl DeserializationFailed | Some m \<Rightarrow> Inr m, st))))"

section \<open>The connection handler of the gateway\<close>

text \<open>The table of clients: under a session identifier the key and the outbound channel, here the number of
  the connection it belongs to.\<close>

type_synonym ClientRegistry = "(u64, bytes \<times> nat) btree"

definition client_register :: "u64 \<Rightarrow> bytes \<Rightarrow> nat \<Rightarrow> ClientRegistry \<Rightarrow> ClientRegistry" where
  "client_register i key tx r = bm_insert i (key, tx) r"

definition client_unregister :: "u64 \<Rightarrow> ClientRegistry \<Rightarrow> ClientRegistry" where
  "client_unregister i r = bm_remove i r"

datatype ws_event = WsBinary bytes | WsClose | WsOther | WsError
datatype ws_message = SendBinary bytes | SendClose

datatype ws_phase = AwaitHello | Established bytes gateway_conn | Finished

record ws_conn =
  ws_phase :: ws_phase
  ws_sent :: "ws_message list"

definition CONN_SESSION_ID :: u64 where "CONN_SESSION_ID = 1"

definition session_info :: SessionInfo where
  "session_info = \<lparr>sf_session_id = 1, sf_server_tick = 0, sf_asset_manifest_hash = replicate 32 0\<rparr>"

definition de_result :: "session_env \<Rightarrow> bytes \<Rightarrow> unit + NetMessage" where
  "de_result E b = (case sn_de E b of None \<Rightarrow> Inl () | Some m \<Rightarrow> Inr m)"

definition ser_result :: "session_env \<Rightarrow> NetMessage \<Rightarrow> unit + bytes" where
  "ser_result E m = Inr (sn_ser E m)"

text \<open>What one connection draws at random and whether its socket takes the answer.\<close>

record ws_env =
  we_secret :: bytes
  we_nonce :: bytes
  we_reply_nonce :: bytes
  we_send_ok :: bool

definition ws_hello ::
  "session_env \<Rightarrow> ws_env \<Rightarrow> nat \<Rightarrow> bytes \<Rightarrow> ws_conn \<Rightarrow> ClientRegistry \<Rightarrow> ws_conn \<times> ClientRegistry" where
  "ws_hello E W n data c r = (case decode (de_result E) data of
       Inr (ClientHello public_key) \<Rightarrow>
         (case begin_handshake (sn_kx E) (we_secret W) (we_nonce W) public_key session_info of
            Inl _ \<Rightarrow> (c\<lparr>ws_phase := Finished\<rparr>, r)
          | Inr (payload, session_key) \<Rightarrow>
              (case encode (ser_result E) (ServerHello (sh_server_public_key payload) (sh_encrypted_session_info payload) (sh_nonce payload)) of
                 Inl _ \<Rightarrow> (c\<lparr>ws_phase := Finished\<rparr>, r)
               | Inr frame \<Rightarrow>
                   if \<not> we_send_ok W then (c\<lparr>ws_phase := Finished\<rparr>, r)
                   else (c\<lparr>ws_phase := Established session_key new_conn, ws_sent := ws_sent c @ [SendBinary frame]\<rparr>,
                         client_register CONN_SESSION_ID session_key n r)))
     | _ \<Rightarrow> (c\<lparr>ws_phase := Finished, ws_sent := ws_sent c @ [SendClose]\<rparr>, r))"

text \<open>A panic while sealing a reply ends the task before the client is taken out of the table.\<close>

definition ws_established ::
  "session_env \<Rightarrow> ws_env \<Rightarrow> bytes \<Rightarrow> gateway_conn \<Rightarrow> ws_event \<Rightarrow> ws_conn \<Rightarrow> ClientRegistry \<Rightarrow> ws_conn \<times> ClientRegistry" where
  "ws_established E W key g ev c r = (case ev of
       WsBinary data \<Rightarrow>
         (case gateway_message (kx_aead (sn_kx E)) (sn_ser E) (sn_de E) key (we_reply_nonce W) data g of
            Inl Panic \<Rightarrow> (c\<lparr>ws_phase := Finished\<rparr>, r)
          | Inr None \<Rightarrow> (c\<lparr>ws_phase := Finished\<rparr>, client_unregister CONN_SESSION_ID r)
          | Inr (Some g') \<Rightarrow> (c\<lparr>ws_phase := Established key g'\<rparr>, r))
     | WsOther \<Rightarrow> (c, r)
     | _ \<Rightarrow> (c\<lparr>ws_phase := Finished\<rparr>, client_unregister CONN_SESSION_ID r))"

definition ws_step ::
  "session_env \<Rightarrow> ws_env \<Rightarrow> nat \<Rightarrow> ws_event \<Rightarrow> ws_conn \<Rightarrow> ClientRegistry \<Rightarrow> ws_conn \<times> ClientRegistry" where
  "ws_step E W n ev c r = (case ws_phase c of
       AwaitHello \<Rightarrow>
         (case ev of
            WsBinary data \<Rightarrow> ws_hello E W n data c r
          | WsOther \<Rightarrow> (c, r)
          | _ \<Rightarrow> (c\<lparr>ws_phase := Finished\<rparr>, r))
     | Established key g \<Rightarrow> ws_established E W key g ev c r
     | Finished \<Rightarrow> (c, r))"

definition ws_new :: ws_conn where
  "ws_new = \<lparr>ws_phase = AwaitHello, ws_sent = []\<rparr>"

section \<open>The handshake gives both sides one key\<close>

text \<open>What is used of X25519 and of the serialiser: both sides of an exchange get the same secret, and messages
  are read back as they were written.\<close>

definition dh_agrees :: "kx_env \<Rightarrow> bool" where
  "dh_agrees K \<longleftrightarrow> (\<forall>a b. kx_shared K a (kx_public K b) = kx_shared K b (kx_public K a))"

definition reads_back :: "session_env \<Rightarrow> NetMessage \<Rightarrow> bool" where
  "reads_back E m \<longleftrightarrow> sn_de E (sn_ser E m) = Some m"

definition hellos_read_back :: "session_env \<Rightarrow> bool" where
  "hellos_read_back E \<longleftrightarrow> (\<forall>a b c. reads_back E (ClientHello a) \<and> reads_back E (ServerHello a b c))"

lemma encoded_parts:
  assumes "encode (ser_result E) m = Inr f"
  shows "f = le_bytes 4 (of_nat (length (sn_ser E m)) :: u32) @ sn_ser E m"
    and "unat (of_nat (length (sn_ser E m)) :: u32) = length (sn_ser E m)"
    and "length (sn_ser E m) \<le> CLIENT_MAX_MESSAGE_SIZE"
  using encode_InrD [OF assms] by (auto simp: ser_result_def CLIENT_MAX_MESSAGE_SIZE_def MAX_MESSAGE_SIZE_def)

lemma encoded_decodes:
  assumes "reads_back E m" "encode (ser_result E) m = Inr f"
  shows "decode (de_result E) f = Inr m"
proof -
  note p = encoded_parts [OF assms(2)]
  have "\<not> MAX_MESSAGE_SIZE < (of_nat (length (sn_ser E m)) :: u32)"
    using p(2,3) by (simp add: word_less_nat_alt MAX_MESSAGE_SIZE_def CLIENT_MAX_MESSAGE_SIZE_def)
  then show ?thesis
    using assms(1) by (simp add: decode_def p(1) p(2) Let_def de_result_def reads_back_def)
qed

lemma server_hello_parses:
  assumes "hellos_read_back E" "encode (ser_result E) (ServerHello pk enc nonce) = Inr f"
  shows "parse_server_hello E f = Inr (pk, nonce, enc)"
proof -
  note p = encoded_parts [OF assms(2)]
  show ?thesis
    using assms(1) p(3) by (simp add: parse_server_hello_def p(1) p(2) Let_def hellos_read_back_def reads_back_def)
qed

lemma begin_handshake_parts:
  assumes "begin_handshake K b nonce pk info = Inr (payload, key)"
  obtains shared c where "sh_server_public_key payload = kx_public K b" "sh_nonce payload = nonce"
    "kx_shared K b pk = Inr shared" "derive_session_key (kx_hkdf K) shared (build_hkdf_salt pk (kx_public K b)) HKDF_INFO = Inr key"
    "sh_encrypted_session_info payload = c" "\<exists>m. aes_gcm_encrypt (kx_aead K) key nonce m [] = Inr c"
  using assms by (auto simp: begin_handshake_def Let_def bind_sum_def map_inl_def intro!: that split: if_splits sum.splits)

lemma handshake_agrees:
  assumes "aead_correct (kx_aead (sn_kx E))" "dh_agrees (sn_kx E)" "hellos_read_back E" "length (we_nonce W) = 12"
    and "encode (ser_result E) (ClientHello (fst (handshake_begin E a st))) = Inr f0"
    and "ws_step E W n (WsBinary f0) ws_new r = (c, r')" "ws_phase c = Established key g"
  obtains f1 where "ws_sent c = [SendBinary f1]" "g = new_conn" "bm_get r' CONN_SESSION_ID = Some (key, n)"
    and "handshake_complete E f1 (snd (handshake_begin E a st))
      = (Inr key, st\<lparr>is_key_pair := None, is_client_public_key := Some (kx_public (sn_kx E) a), is_completed := True,
           is_session_key := Some key, is_send_seq := 0, is_recv_seq := 0\<rparr>)"
proof -
  let ?K = "sn_kx E" and ?pk = "kx_public (sn_kx E) a"
  have pk: "fst (handshake_begin E a st) = ?pk" by (simp add: handshake_begin_def Let_def)
  have "decode (de_result E) f0 = Inr (ClientHello ?pk)" using encoded_decodes [OF _ assms(5)] assms(3)
    by (simp add: pk hellos_read_back_def)
  with assms(6,7) obtain payload f1 where
    hs: "begin_handshake ?K (we_secret W) (we_nonce W) ?pk session_info = Inr (payload, key)"
    and f1: "encode (ser_result E) (ServerHello (sh_server_public_key payload) (sh_encrypted_session_info payload) (sh_nonce payload)) = Inr f1"
    and c: "ws_sent c = [SendBinary f1]" "g = new_conn" "r' = client_register CONN_SESSION_ID key n r"
    by (auto simp: ws_step_def ws_new_def ws_hello_def split: sum.splits if_splits prod.splits)
  from hs obtain shared enc m where p: "sh_server_public_key payload = kx_public ?K (we_secret W)" "sh_nonce payload = we_nonce W"
    "kx_shared ?K (we_secret W) ?pk = Inr shared"
    "derive_session_key (kx_hkdf ?K) shared (build_hkdf_salt ?pk (kx_public ?K (we_secret W))) HKDF_INFO = Inr key"
    "sh_encrypted_session_info payload = enc" "aes_gcm_encrypt (kx_aead ?K) key (we_nonce W) m [] = Inr enc"
    by (elim begin_handshake_parts) blast
  have shared: "kx_shared ?K a (kx_public ?K (we_secret W)) = Inr shared"
    using assms(2) p(3) unfolding dh_agrees_def by metis
  have "aes_encrypt (kx_aead ?K) (we_nonce W) key m = Inr (we_nonce W @ enc)" by (simp add: aes_encrypt_def p(6))
  then have dec: "aes_decrypt (kx_aead ?K) key (we_nonce W @ enc) = Inr m"
    by (rule aes_roundtrip [OF assms(1,4)])
  have "parse_server_hello E f1 = Inr (kx_public ?K (we_secret W), we_nonce W, enc)"
    using server_hello_parses [OF assms(3) f1] by (simp add: p)
  then have "handshake_complete E f1 (snd (handshake_begin E a st))
      = (Inr key, st\<lparr>is_key_pair := None, is_client_public_key := Some ?pk, is_completed := True,
           is_session_key := Some key, is_send_seq := 0, is_recv_seq := 0\<rparr>)"
    by (simp add: handshake_complete_def handshake_begin_def Let_def shared p(4) dec)
  then show thesis using that c by (simp add: client_register_def bm_get_insert)
qed

section \<open>Messages over a session\<close>

text \<open>What the client sends, with the nonces of both sides; the frames it makes; what the gateway makes of them;
  and what the client makes of the replies.\<close>

type_synonym sent_message = "bytes \<times> bytes \<times> NetMessage"

primrec client_sends :: "session_env \<Rightarrow> sent_message list \<Rightarrow> InnerState \<Rightarrow> (bytes list \<times> InnerState) option" where
  "client_sends E [] st = Some ([], st)"
| "client_sends E (x # xs) st =
     (case encrypt_outgoing E (fst x) (snd (snd x)) st of
        Inr (Inr f, st) \<Rightarrow> map_option (\<lambda>(fs, st). (f # fs, st)) (client_sends E xs st)
      | _ \<Rightarrow> None)"

primrec gateway_receives :: "session_env \<Rightarrow> bytes \<Rightarrow> (bytes \<times> bytes) list \<Rightarrow> gateway_conn \<Rightarrow> gateway_conn option" where
  "gateway_receives E key [] g = Some g"
| "gateway_receives E key (x # xs) g =
     (case gateway_message (kx_aead (sn_kx E)) (sn_ser E) (sn_de E) key (fst x) (snd x) g of
        Inr (Some g) \<Rightarrow> gateway_receives E key xs g
      | _ \<Rightarrow> None)"

primrec client_receives :: "session_env \<Rightarrow> bytes list \<Rightarrow> InnerState \<Rightarrow> (HandshakeError + NetMessage) list" where
  "client_receives E [] st = []"
| "client_receives E (f # fs) st =
     (let (m, st) = decrypt_incoming E f st in m # client_receives E fs st)"

definition replies :: "sent_message list \<Rightarrow> (bytes \<times> NetMessage) list" where
  "replies xs = List.map_filter (\<lambda>(_, rn, m). case m of Ping t \<Rightarrow> Some (rn, Pong t) | _ \<Rightarrow> None) xs"

lemma replies_simps:
  "replies [] = []"
  "replies (x # xs) = (case snd (snd x) of Ping t \<Rightarrow> [(fst (snd x), Pong t)] | _ \<Rightarrow> []) @ replies xs"
  by (simp_all add: replies_def map_filter_simps split: NetMessage.split prod.split)

primrec sealed_from :: "session_env \<Rightarrow> bytes \<Rightarrow> u64 \<Rightarrow> (bytes \<times> NetMessage) list \<Rightarrow> bytes list \<Rightarrow> bool" where
  "sealed_from E key s [] fs \<longleftrightarrow> fs = []"
| "sealed_from E key s (x # xs) fs \<longleftrightarrow> (\<exists>f fs'. fs = f # fs'
     \<and> encrypt_frame_aad (kx_aead (sn_kx E)) (fst x) (sn_ser E (snd x)) key s = Inr f \<and> sealed_from E key (s + 1) xs fs')"

text \<open>The primitives that never fail on the messages of a session.\<close>

definition session_ok :: "session_env \<Rightarrow> bool" where
  "session_ok E \<longleftrightarrow> aead_correct (kx_aead (sn_kx E))
     \<and> (\<forall>k n m t. aead_encrypt (kx_aead (sn_kx E)) k n m (le_bytes 8 (t :: u64)) \<noteq> None)"

definition sendable :: "session_env \<Rightarrow> bytes \<Rightarrow> NetMessage \<Rightarrow> bool" where
  "sendable E nonce m \<longleftrightarrow> reads_back E m \<and> length nonce = 12 \<and> length (sn_ser E m) + 28 < 2 ^ 32"

text \<open>A message with the nonces used for it and for the reply to it.\<close>

definition exchangeable :: "session_env \<Rightarrow> sent_message \<Rightarrow> bool" where
  "exchangeable E x \<longleftrightarrow> sendable E (fst x) (snd (snd x))
     \<and> (case snd (snd x) of Ping t \<Rightarrow> sendable E (fst (snd x)) (Pong t) | _ \<Rightarrow> True)"

lemma sealed_opens:
  assumes "session_ok E" "sendable E nonce m"
  obtains f where "encrypt_frame_aad (kx_aead (sn_kx E)) nonce (sn_ser E m) key s = Inr f"
    and "decrypt_frame_aad (kx_aead (sn_kx E)) f key s = Inr (sn_ser E m)"
proof -
  have "aead_encrypt (kx_aead (sn_kx E)) key nonce (sn_ser E m) (le_bytes 8 s) \<noteq> None"
    using assms(1) by (simp add: session_ok_def)
  then obtain f where f: "encrypt_frame_aad (kx_aead (sn_kx E)) nonce (sn_ser E m) key s = Inr f"
    by (auto simp: encrypt_frame_aad_def seal_frame_def aes_gcm_encrypt_def Let_def)
  have C: "aead_correct (kx_aead (sn_kx E))" "length nonce = 12" "length (sn_ser E m) + 28 < 2 ^ 32"
    using assms by (simp_all add: session_ok_def sendable_def)
  note o = open_sealed [OF C f [unfolded encrypt_frame_aad_def]]
  have "decrypt_frame_aad (kx_aead (sn_kx E)) f key s = Inr (sn_ser E m)"
    using o(1) [of "[]" "le_bytes 8 s"] aead_correctD(1) [OF C(1) o(2)] by (simp add: decrypt_frame_aad_def)
  with f show thesis by (rule that)
qed

lemma frames_exchanged:
  assumes "session_ok E" "is_session_key st = Some key" "is_send_seq st = gc_recv_seq g"
    and "\<forall>x \<in> set xs. exchangeable E x"
  obtains fs st' g' ps where "client_sends E xs st = Some (fs, st')" "is_session_key st' = Some key"
    "is_recv_seq st' = is_recv_seq st" "gateway_receives E key (zip (map (\<lambda>x. fst (snd x)) xs) fs) g = Some g'"
    "gc_sent g' = gc_sent g @ ps" "sealed_from E key (gc_send_seq g) (replies xs) ps"
  using assms(2-4)
proof (induction xs arbitrary: st g thesis)
  case Nil
  show ?case by (rule Nil.prems(1) [of "[]" st g "[]"]) (simp_all add: Nil.prems(2) replies_simps)
next
  case (Cons x xs)
  obtain cn rn m where x: "x = (cn, rn, m)" by (cases x)
  have ok: "sendable E cn m" using Cons.prems(4) by (simp add: x exchangeable_def)
  have rb: "sn_de E (sn_ser E m) = Some m" using ok by (simp add: sendable_def reads_back_def)
  obtain f where f: "encrypt_frame_aad (kx_aead (sn_kx E)) cn (sn_ser E m) key (is_send_seq st) = Inr f"
    "decrypt_frame_aad (kx_aead (sn_kx E)) f key (is_send_seq st) = Inr (sn_ser E m)"
    by (rule sealed_opens [OF assms(1) ok])
  let ?st = "st\<lparr>is_send_seq := is_send_seq st + 1\<rparr>"
  obtain g1 qs where g1: "gateway_message (kx_aead (sn_kx E)) (sn_ser E) (sn_de E) key rn f g = Inr (Some g1)"
    "gc_recv_seq g1 = gc_recv_seq g + 1" "gc_sent g1 = gc_sent g @ qs"
    "\<forall>ps. sealed_from E key (gc_send_seq g1) (replies xs) ps \<longrightarrow> sealed_from E key (gc_send_seq g) (replies (x # xs)) (qs @ ps)"
  proof (cases "\<exists>t. m = Ping t")
    case True
    then obtain t where t: "m = Ping t" by blast
    then have "sendable E rn (Pong t)" using Cons.prems(4) by (simp add: x exchangeable_def)
    then obtain q where "encrypt_frame_aad (kx_aead (sn_kx E)) rn (sn_ser E (Pong t)) key (gc_send_seq g) = Inr q"
      by (rule sealed_opens [OF assms(1)])
    then show thesis
      using f(2) rb Cons.prems(3)
      by (intro that [of "g\<lparr>gc_recv_seq := gc_recv_seq g + 1, gc_send_seq := gc_send_seq g + 1, gc_sent := gc_sent g @ [q]\<rparr>" "[q]"])
        (simp_all add: gateway_message_def t x replies_simps)
  next
    case False
    then show thesis
      using f(2) rb Cons.prems(3)
      by (intro that [of "g\<lparr>gc_recv_seq := gc_recv_seq g + 1\<rparr>" "[]"])
        (auto simp: gateway_message_def x replies_simps Let_def split: NetMessage.split)
  qed
  obtain fs st' g' ps where rest: "client_sends E xs ?st = Some (fs, st')" "is_session_key st' = Some key"
    "is_recv_seq st' = is_recv_seq ?st" "gateway_receives E key (zip (map (\<lambda>x. fst (snd x)) xs) fs) g1 = Some g'"
    "gc_sent g' = gc_sent g1 @ ps" "sealed_from E key (gc_send_seq g1) (replies xs) ps"
    by (rule Cons.IH [of ?st g1]) (use Cons.prems(2-4) g1(2) in auto)
  have "encrypt_outgoing E cn m st = Inr (Inr f, ?st)"
    using f(1) Cons.prems(2) by (simp add: encrypt_outgoing_def)
  then show ?case
    using rest g1 by (intro Cons.prems(1) [of "f # fs" st' g' "qs @ ps"]) (simp_all add: x)
qed

lemma replies_received:
  assumes "session_ok E" "is_session_key st = Some key" "sealed_from E key (is_recv_seq st) xs fs"
    and "\<forall>(n, m) \<in> set xs. sendable E n m"
  shows "client_receives E fs st = map (Inr \<circ> snd) xs"
  using assms(2-4)
proof (induction xs arbitrary: st fs)
  case (Cons x xs)
  obtain n m where x: "x = (n, m)" by force
  from Cons.prems(2) obtain f fs' where fs: "fs = f # fs'"
    "encrypt_frame_aad (kx_aead (sn_kx E)) n (sn_ser E m) key (is_recv_seq st) = Inr f"
    "sealed_from E key (is_recv_seq st + 1) xs fs'" by (auto simp: x)
  have ok: "sendable E n m" using Cons.prems(3) by (simp add: x)
  obtain f' where "encrypt_frame_aad (kx_aead (sn_kx E)) n (sn_ser E m) key (is_recv_seq st) = Inr f'"
    "decrypt_frame_aad (kx_aead (sn_kx E)) f' key (is_recv_seq st) = Inr (sn_ser E m)"
    by (rule sealed_opens [OF assms(1) ok])
  then have "decrypt_frame_aad (kx_aead (sn_kx E)) f key (is_recv_seq st) = Inr (sn_ser E m)"
    using fs(2) by simp
  then have "decrypt_incoming E f st = (Inr m, st\<lparr>is_recv_seq := is_recv_seq st + 1\<rparr>)"
    using Cons.prems(1) ok by (simp add: decrypt_incoming_def sendable_def reads_back_def)
  then show ?case
    using Cons.IH [of "st\<lparr>is_recv_seq := is_recv_seq st + 1\<rparr>" fs'] Cons.prems fs(3) by (simp add: fs(1) x)
qed simp

lemma replies_sendable: "\<forall>x \<in> set xs. exchangeable E x \<Longrightarrow> \<forall>(n, m) \<in> set (replies xs). sendable E n m"
  by (induction xs) (auto simp: replies_simps exchangeable_def split: NetMessage.splits)

text \<open>C37: A session does what both sides rely on. If the gateway answers the client's hello and establishes a
  key, then its answer completes the client's handshake with the same key; and of whatever messages the
  client then sends, the gateway accepts every frame, and the client reads from the gateway's frames
  exactly the pongs to its pings, in order.\<close>

theorem secure_session:
  assumes "session_ok E" "dh_agrees (sn_kx E)" "hellos_read_back E" "length (we_nonce W) = 12"
    and "encode (ser_result E) (ClientHello (fst (handshake_begin E a st))) = Inr f0"
    and "ws_step E W n (WsBinary f0) ws_new r = (c, r')" "ws_phase c = Established key g"
    and "\<forall>x \<in> set xs. exchangeable E x"
  shows "\<exists>f1 st1 fs st2 g'. ws_sent c = [SendBinary f1]
    \<and> handshake_complete E f1 (snd (handshake_begin E a st)) = (Inr key, st1)
    \<and> client_sends E xs st1 = Some (fs, st2)
    \<and> gateway_receives E key (zip (map (\<lambda>x. fst (snd x)) xs) fs) g = Some g'
    \<and> client_receives E (gc_sent g') st2 = map (Inr \<circ> snd) (replies xs)"
proof -
  have "aead_correct (kx_aead (sn_kx E))" using assms(1) by (simp add: session_ok_def)
  then obtain f1 where f1: "ws_sent c = [SendBinary f1]" "g = new_conn"
    and hs: "handshake_complete E f1 (snd (handshake_begin E a st))
      = (Inr key, st\<lparr>is_key_pair := None, is_client_public_key := Some (kx_public (sn_kx E) a), is_completed := True,
           is_session_key := Some key, is_send_seq := 0, is_recv_seq := 0\<rparr>)" (is "_ = (_, ?st)")
    using handshake_agrees [OF _ assms(2-7)] by metis
  obtain fs st' g' ps where x: "client_sends E xs ?st = Some (fs, st')" "is_session_key st' = Some key"
    "is_recv_seq st' = is_recv_seq ?st" "gateway_receives E key (zip (map (\<lambda>x. fst (snd x)) xs) fs) g = Some g'"
    "gc_sent g' = gc_sent g @ ps" "sealed_from E key (gc_send_seq g) (replies xs) ps"
    by (rule frames_exchanged [OF assms(1) _ _ assms(8), of ?st key g]) (simp_all add: f1(2) new_conn_def)
  have "client_receives E ps st' = map (Inr \<circ> snd) (replies xs)"
    by (rule replies_received [OF assms(1) x(2) _ replies_sendable [OF assms(8)]])
      (use x(3,6) f1(2) in \<open>simp add: new_conn_def\<close>)
  with f1 hs x show ?thesis by (auto simp: new_conn_def)
qed

text \<open>A small serialiser and key exchange, to apply the theorem to.\<close>

primrec toy_list :: "bytes \<Rightarrow> bytes" where
  "toy_list [] = [0]"
| "toy_list (b # bs) = 1 # b # toy_list bs"

fun toy_unlist :: "bytes \<Rightarrow> bytes \<times> bytes" where
  "toy_unlist (t # bs) = (if t = 0 then ([], bs) else case bs of
     [] \<Rightarrow> ([], []) | b # bs \<Rightarrow> (let (xs, r) = toy_unlist bs in (b # xs, r)))"
| "toy_unlist [] = ([], [])"

lemma toy_unlist_list [simp]: "toy_unlist (toy_list xs @ r) = (xs, r)"
  by (induction xs) simp_all

lemma length_toy_list [simp]: "length (toy_list xs) = 2 * length xs + 1"
  by (induction xs) simp_all

definition toy_ser :: "NetMessage \<Rightarrow> bytes" where
  "toy_ser m = (case m of
     ClientHello a \<Rightarrow> 0 # toy_list a
   | ServerHello a b c \<Rightarrow> 1 # toy_list a @ toy_list b @ toy_list c
   | Ping t \<Rightarrow> 2 # le_bytes 8 t
   | Pong t \<Rightarrow> 3 # le_bytes 8 t
   | _ \<Rightarrow> [])"

definition toy_de :: "bytes \<Rightarrow> NetMessage option" where
  "toy_de x = (case x of [] \<Rightarrow> None | t # bs \<Rightarrow>
     if t = 0 then Some (ClientHello (fst (toy_unlist bs)))
     else if t = 1 then (let (a, bs) = toy_unlist bs; (b, bs) = toy_unlist bs in Some (ServerHello a b (fst (toy_unlist bs))))
     else if t = 2 then Some (Ping (from_le_bytes bs)) else Some (Pong (from_le_bytes bs)))"

definition toy_session :: session_env where
  "toy_session =
     \<lparr>sn_kx = \<lparr>kx_public = \<lambda>a. 1 # a, kx_shared = \<lambda>_ _. Inr [], kx_hkdf = \<lambda>_ _ _. Inr [7], kx_ser = \<lambda>_. Inr [],
               kx_aead = toy_aead\<rparr>,
      sn_ser = toy_ser, sn_de = toy_de\<rparr>"

lemma toy_session_reads_back:
  "reads_back toy_session (ClientHello a)" "reads_back toy_session (ServerHello a b c)"
  "reads_back toy_session (Ping t)" "reads_back toy_session (Pong t)"
  using toy_unlist_list [of a "[]"] toy_unlist_list [of c "[]"]
  by (simp_all add: reads_back_def toy_session_def toy_ser_def toy_de_def)

theorem secure_session_witness:
  "\<exists>f0 c r' key g f1 st1 fs st2 g'.
      ws_step toy_session \<lparr>we_secret = [4], we_nonce = replicate 12 0, we_reply_nonce = replicate 12 1, we_send_ok = True\<rparr> 5
        (WsBinary f0) ws_new [] = (c, r')
    \<and> ws_phase c = Established key g
    \<and> handshake_complete toy_session f1 (snd (handshake_begin toy_session [3] client_state)) = (Inr key, st1)
    \<and> client_sends toy_session [(replicate 12 0, replicate 12 2, Ping 9)] st1 = Some (fs, st2)
    \<and> gateway_receives toy_session key (zip [replicate 12 2] fs) g = Some g'
    \<and> client_receives toy_session (gc_sent g') st2 = [Inr (Pong 9)]"
proof -
  let ?E = toy_session
  let ?W = "\<lparr>we_secret = [4], we_nonce = replicate 12 0, we_reply_nonce = replicate 12 1, we_send_ok = True\<rparr> :: ws_env"
  let ?xs = "[(replicate 12 0, replicate 12 2, Ping 9)] :: sent_message list"
  have ok: "session_ok ?E" "dh_agrees (sn_kx ?E)" "hellos_read_back ?E"
    by (simp_all add: session_ok_def dh_agrees_def hellos_read_back_def toy_session_reads_back)
      (simp_all add: toy_session_def toy_aead_correct, simp add: toy_aead_def)
  obtain f0 where f0: "encode (ser_result ?E) (ClientHello (fst (handshake_begin ?E [3] client_state))) = Inr f0"
    by (simp add: encode_def ser_result_def handshake_begin_def toy_session_def toy_ser_def Let_def MAX_MESSAGE_SIZE_def)
  have "fst (handshake_begin ?E [3] client_state) = [1, 3]" by (simp add: handshake_begin_def toy_session_def Let_def)
  with encoded_decodes [OF toy_session_reads_back(1) f0] have dec: "decode (de_result ?E) f0 = Inr (ClientHello [1, 3])"
    by simp
  let ?p = "\<lparr>sh_server_public_key = [1, 4], sh_nonce = replicate 12 0, sh_encrypted_session_info = replicate 16 0\<rparr>"
  have hs: "begin_handshake (sn_kx ?E) [4] (replicate 12 0) [1, 3] session_info = Inr (?p, [7])"
    by (simp add: begin_handshake_def toy_session_def bind_sum_def map_inl_def derive_session_key_def aes_gcm_encrypt_def
        toy_aead_def Let_def)
  obtain f1 where "encode (ser_result ?E) (ServerHello [1, 4] (replicate 16 0) (replicate 12 0)) = Inr f1"
    by (simp add: encode_def ser_result_def toy_session_def toy_ser_def MAX_MESSAGE_SIZE_def Let_def)
  with dec hs obtain c r' key g where c: "ws_step ?E ?W 5 (WsBinary f0) ws_new [] = (c, r')" "ws_phase c = Established key g"
    by (simp add: ws_step_def ws_new_def ws_hello_def)
  have r: "map (Inr \<circ> snd) (replies ?xs) = [Inr (Pong 9)]" by (simp add: replies_simps)
  have zs: "map (\<lambda>x. fst (snd x)) ?xs = [replicate 12 2]" by simp
  have w: "length (we_nonce ?W) = 12" by simp
  have x: "\<forall>x \<in> set ?xs. exchangeable ?E x"
    by (simp add: exchangeable_def sendable_def toy_session_reads_back) (simp add: toy_session_def toy_ser_def)
  show ?thesis
    using secure_session [OF ok w f0 c x] c unfolding r zs by blast
qed

text \<open>The other direction is bound by nothing but its counter: the frame a client sends, handed back to it, is
  taken for one of the gateway's when the two counters agree.\<close>

lemma reflected_frame_accepted:
  assumes "session_ok E" "sendable E nonce m" "is_session_key st = Some key" "is_send_seq st = is_recv_seq st"
    and "encrypt_outgoing E nonce m st = Inr (Inr f, st')"
  shows "fst (decrypt_incoming E f st') = Inr m"
proof -
  obtain f' where f: "encrypt_frame_aad (kx_aead (sn_kx E)) nonce (sn_ser E m) key (is_send_seq st) = Inr f'"
    "decrypt_frame_aad (kx_aead (sn_kx E)) f' key (is_send_seq st) = Inr (sn_ser E m)"
    by (rule sealed_opens [OF assms(1,2)])
  with assms(2-5) show ?thesis
    by (auto simp: encrypt_outgoing_def decrypt_incoming_def sendable_def reads_back_def)
qed

text \<open>All connections use one session identifier. Of two connections that both completed their handshake the
  table holds the later one, and when the earlier one closes the later one is gone from the table.\<close>

lemma second_client_unregistered:
  "bm_get (client_register CONN_SESSION_ID k2 n2 (client_register CONN_SESSION_ID k1 n1 r)) CONN_SESSION_ID = Some (k2, n2)"
  "ws_step E W n1 WsClose \<lparr>ws_phase = Established k1 g, ws_sent = w\<rparr>
      (client_register CONN_SESSION_ID k2 n2 (client_register CONN_SESSION_ID k1 n1 r)) = (c, r') \<Longrightarrow>
    bm_get r' CONN_SESSION_ID = None"
  by (auto simp: client_register_def client_unregister_def bm_get_insert bm_get_remove ws_step_def ws_established_def)

section \<open>Handshake messages on the wire\<close>

text \<open>\<^verbatim>\<open>server/key_exchange/src/wire_format.rs\<close>: a length prefix of four bytes before the serialised message.\<close>

datatype HandshakeMessage =
    EcdhClientPublicKey (nm_public_key: bytes)
  | EcdhServerResponse (nm_server_public_key: bytes) (nm_nonce: bytes) (nm_encrypted_session_info: bytes)

definition net_encode :: "(HandshakeMessage \<Rightarrow> string + bytes) \<Rightarrow> HandshakeMessage \<Rightarrow> KeyExchangeError + bytes" where
  "net_encode ser msg =
     bind_sum (map_inl SerializationErrorKx (ser msg)) (\<lambda>payload.
       Inr (le_bytes 4 (of_nat (length payload) :: u32) @ payload))"

definition net_decode :: "(bytes \<Rightarrow> string + HandshakeMessage) \<Rightarrow> bytes \<Rightarrow> KeyExchangeError + HandshakeMessage" where
  "net_decode de bs =
     (if length bs < 4 then Inl (DecodeErrorKx (''frame '' @ utf8 [0xE5, 0xA4, 0xAA, 0xE7, 0x9F, 0xAD]))
      else let len = unat (from_le_bytes (take 4 bs) :: u32)
        in if length bs < 4 + len then Inl (DecodeErrorKx (''payload '' @ utf8 [0xE4, 0xB8, 0x8D, 0xE5, 0xAE, 0x8C, 0xE6, 0x95, 0xB4]))
           else map_inl DecodeErrorKx (de (take len (drop 4 bs))))"

text \<open>A frame decodes to its message whatever follows it, and no proper prefix of it decodes.\<close>

lemma net_encode_decode:
  assumes "net_encode ser msg = Inr frame" "de payload = Inr msg" "ser msg = Inr payload" "length payload < 2 ^ 32"
  shows "net_decode de (frame @ rest) = Inr msg"
    and "k < length frame \<Longrightarrow> \<exists>e. net_decode de (take k frame) = Inl (DecodeErrorKx e)"
proof -
  have frame: "frame = le_bytes 4 (of_nat (length payload) :: u32) @ payload" using assms(1,3) by (simp add: net_encode_def)
  have len: "unat (from_le_bytes (le_bytes 4 (of_nat (length payload) :: u32)) :: u32) = length payload"
    using assms(4) by (simp add: unat_of_nat)
  show "net_decode de (frame @ rest) = Inr msg" using len assms(2) by (simp add: net_decode_def frame)
  show "\<exists>e. net_decode de (take k frame) = Inl (DecodeErrorKx e)" if "k < length frame"
    using that len by (auto simp: net_decode_def frame Let_def)
qed

end
