(* ===== verification/Paths.thy ===== *)
theory Paths
  imports Prelude
begin

text \<open>
  File names: the operations of \<^verbatim>\<open>std::path::Path\<close> and \<^verbatim>\<open>str\<close> the tools and watchers use, on texts whose
  components are separated by \<^verbatim>\<open>/\<close>.
\<close>

text \<open>\<open>rsplit_once\<close> at the last dot, \<open>Path::extension\<close> and \<open>Path::file_stem\<close> on a last component.\<close>

definition rsplit_dot :: "string \<Rightarrow> string option \<times> string" where
  "rsplit_dot name =
     (let r = rev name; before = dropWhile (\<lambda>c. c \<noteq> CHR ''.'') r
      in (if before = [] then None else Some (rev (tl before)), rev (takeWhile (\<lambda>c. c \<noteq> CHR ''.'') r)))"

definition file_extension :: "string \<Rightarrow> string option" where
  "file_extension name = (case rsplit_dot name of
       (Some b, a) \<Rightarrow> if b = [] then None else Some a
     | (None, _) \<Rightarrow> None)"

definition file_stem :: "string \<Rightarrow> string" where
  "file_stem name = (case rsplit_dot name of
       (Some b, a) \<Rightarrow> if b = [] then name else b
     | (None, a) \<Rightarrow> a)"

text \<open>The last component of a path.\<close>

definition file_name :: "string \<Rightarrow> string" where
  "file_name path = rev (takeWhile (\<lambda>c. c \<noteq> CHR ''/'') (rev path))"

lemma takeWhile_rev_append:
  "c \<notin> set ys \<Longrightarrow> takeWhile (\<lambda>x. x \<noteq> c) (rev (xs @ c # ys)) = rev ys"
  "c \<notin> set ys \<Longrightarrow> dropWhile (\<lambda>x. x \<noteq> c) (rev (xs @ c # ys)) = c # rev xs"
  by (auto simp: takeWhile_append dropWhile_append)

lemma rsplit_dot_ext: "CHR ''.'' \<notin> set ext \<Longrightarrow> rsplit_dot (b @ CHR ''.'' # ext) = (Some b, ext)"
  by (simp add: rsplit_dot_def Let_def takeWhile_rev_append del: rev_append rev.simps)

lemma rsplit_dot_plain: "CHR ''.'' \<notin> set b \<Longrightarrow> rsplit_dot b = (None, b)"
  by (simp add: rsplit_dot_def Let_def dropWhile_eq_Nil_conv takeWhile_eq_all_conv [THEN iffD2])

lemma file_name_join: "CHR ''/'' \<notin> set n \<Longrightarrow> file_name (d @ CHR ''/'' # n) = n"
  by (simp add: file_name_def takeWhile_rev_append del: rev_append rev.simps)

end
