(* ===== verification/Sandbox.thy ===== *)
theory Sandbox
  imports Script_Runtime Native_Float
begin

text \<open>
  The sandbox around the script interpreter (\<^verbatim>\<open>engine/vm_runtime/src/sandbox.rs\<close>): the budget of a frame, the
  progress callback that ends a script after its time, and the ways to run one. The interpreter is a
  parameter: it compiles, and it evaluates while asking the callback again and again. The clock is the
  sequence of its readings; the sandbox counts how many have been taken.
\<close>

section \<open>The budget of a frame\<close>

definition TIMEOUT_MICROS :: u64 where "TIMEOUT_MICROS = 2000"
definition FRAME_BUDGET_MS :: f64 where "FRAME_BUDGET_MS = 0x4010000000000000"
definition SINGLE_SCRIPT_TIMEOUT_MS :: f64 where "SINGLE_SCRIPT_TIMEOUT_MS = 0x4000000000000000"

text \<open>The float arithmetic of the budget.\<close>

record budget_arith =
  ba_sub :: "f64 \<Rightarrow> f64 \<Rightarrow> f64"
  ba_micros_to_ms :: "u64 \<Rightarrow> f64" \<comment> \<open>\<open>micros as f64 / 1000.0\<close>\<close>
  ba_ms_to_micros :: "f64 \<Rightarrow> u64" \<comment> \<open>\<open>(ms * 1000.0) as u64\<close>\<close>

type_synonym FrameBudget = f64

definition frame_budget_new :: FrameBudget where
  "frame_budget_new = FRAME_BUDGET_MS"

definition remaining_ms :: "FrameBudget \<Rightarrow> f64" where
  "remaining_ms b = (if f64_lt f64_zero b then b else f64_zero)"

definition frame_budget_reset :: "FrameBudget \<Rightarrow> FrameBudget" where
  "frame_budget_reset b = FRAME_BUDGET_MS"

definition deduct_elapsed :: "budget_arith \<Rightarrow> f64 \<Rightarrow> FrameBudget \<Rightarrow> FrameBudget" where
  "deduct_elapsed A elapsed_ms b = ba_sub A b elapsed_ms"

section \<open>The engine\<close>

text \<open>The limits the interpreter is configured with.\<close>

record engine_limits =
  el_max_operations :: u64
  el_max_call_levels :: nat
  el_max_string_size :: nat
  el_max_array_size :: nat
  el_disabled_symbols :: "string list"

definition sandbox_limits :: engine_limits where
  "sandbox_limits =
     \<lparr>el_max_operations = 50000, el_max_call_levels = 32, el_max_string_size = 4096, el_max_array_size = 1024,
      el_disabled_symbols = [''eval'', ''type_of'', ''Fn'', ''call'', ''curry'', ''is_shared'']\<rparr>"

text \<open>The interpreter. What the progress callback answers is given by the number of the call; an evaluation
  says how many calls it made.\<close>

type_synonym progress = "nat \<Rightarrow> u64 option"

record ('ast, 'd) interpreter =
  rh_compile :: "engine_limits \<Rightarrow> string \<Rightarrow> string + 'ast"
  rh_eval :: "engine_limits \<Rightarrow> progress \<Rightarrow> Scope \<Rightarrow> 'ast \<Rightarrow> (EvalError + Dynamic) \<times> Scope \<times> nat"
  rh_call :: "engine_limits \<Rightarrow> progress \<Rightarrow> Scope \<Rightarrow> 'ast \<Rightarrow> string \<Rightarrow> 'd hook_args \<Rightarrow> (EvalError + Dynamic) \<times> Scope \<times> nat"
  rh_show :: "EvalError \<Rightarrow> string"

record sandbox =
  sx_start_time :: u64
  sx_timeout_micros :: u64
  sx_reads :: nat

type_synonym clock = "nat \<Rightarrow> u64"

definition sandbox_with_clock :: sandbox where
  "sandbox_with_clock = \<lparr>sx_start_time = 0, sx_timeout_micros = TIMEOUT_MICROS, sx_reads = 0\<rparr>"

definition on_progress :: "u64 \<Rightarrow> u64 \<Rightarrow> u64 \<Rightarrow> u64 option" where
  "on_progress start limit now =
     (let elapsed = saturating_sub now start in if elapsed \<ge> limit then Some elapsed else None)"

definition read_clock :: "clock \<Rightarrow> sandbox \<Rightarrow> u64 \<times> sandbox" where
  "read_clock C s = (C (sx_reads s), s\<lparr>sx_reads := sx_reads s + 1\<rparr>)"

text \<open>The callback as an evaluation that starts now will see it.\<close>

definition callback :: "clock \<Rightarrow> sandbox \<Rightarrow> progress" where
  "callback C s k = on_progress (sx_start_time s) (sx_timeout_micros s) (C (sx_reads s + k))"

definition start_now :: "clock \<Rightarrow> sandbox \<Rightarrow> u64 \<times> sandbox" where
  "start_now C s = (let (start, s) = read_clock C s in (start, s\<lparr>sx_start_time := start\<rparr>))"

definition map_rhai_error :: "budget_arith \<Rightarrow> (EvalError \<Rightarrow> string) \<Rightarrow> clock \<Rightarrow> u64 \<Rightarrow> EvalError \<Rightarrow> sandbox
    \<Rightarrow> ScriptError \<times> sandbox" where
  "map_rhai_error A shw C start_micros error s = (case error of
       ErrorTooManyOperations \<Rightarrow> (OperationLimit [] 50000 0, s)
     | ErrorTerminated _ \<Rightarrow>
         (let (now, s) = read_clock C s
          in (ScriptTimeout [] (ba_micros_to_ms A (saturating_sub now start_micros)) 0, s))
     | _ \<Rightarrow> (RuntimeError [] (shw error) 0, s))"

definition map_result where
  "map_result A shw C start r s = (case r of
       Inr v \<Rightarrow> (Inr v, s)
     | Inl e \<Rightarrow> map_prod Inl id (map_rhai_error A shw C start e s))"

definition execute ::
  "('ast, 'd) interpreter \<Rightarrow> budget_arith \<Rightarrow> clock \<Rightarrow> string \<Rightarrow> sandbox \<Rightarrow> (ScriptError + Dynamic) \<times> sandbox" where
  "execute R A C script s = (case rh_compile R sandbox_limits script of
       Inl e \<Rightarrow> (Inl (ScriptCompileError e), s)
     | Inr ast \<Rightarrow>
         (let (start, s) = start_now C s;
              s = s\<lparr>sx_timeout_micros := TIMEOUT_MICROS\<rparr>;
              (r, _, n) = rh_eval R sandbox_limits (callback C s) [] ast
          in map_result A (rh_show R) C start r (s\<lparr>sx_reads := sx_reads s + n\<rparr>)))"

definition set_timeout_micros :: "u64 \<Rightarrow> sandbox \<Rightarrow> sandbox" where
  "set_timeout_micros micros s = s\<lparr>sx_timeout_micros := micros\<rparr>"

definition call_fn_with_scope ::
  "('ast, 'd) interpreter \<Rightarrow> clock \<Rightarrow> Scope \<Rightarrow> 'ast \<Rightarrow> string \<Rightarrow> 'd hook_args \<Rightarrow> sandbox
     \<Rightarrow> (EvalError + Dynamic) \<times> Scope \<times> sandbox" where
  "call_fn_with_scope R C scope ast fn_name args s =
     (let (_, s) = start_now C s;
          (r, scope, n) = rh_call R sandbox_limits (callback C s) scope ast fn_name args
      in (r, scope, s\<lparr>sx_reads := sx_reads s + n\<rparr>))"

definition eval_ast_with_scope ::
  "('ast, 'd) interpreter \<Rightarrow> clock \<Rightarrow> Scope \<Rightarrow> 'ast \<Rightarrow> sandbox \<Rightarrow> (EvalError + Dynamic) \<times> Scope \<times> sandbox" where
  "eval_ast_with_scope R C scope ast s =
     (let (_, s) = start_now C s;
          (r, scope, n) = rh_eval R sandbox_limits (callback C s) scope ast
      in (r, scope, s\<lparr>sx_reads := sx_reads s + n\<rparr>))"

definition execute_with_budget ::
  "('ast, 'd) interpreter \<Rightarrow> budget_arith \<Rightarrow> clock \<Rightarrow> string \<Rightarrow> FrameBudget \<Rightarrow> sandbox
     \<Rightarrow> (ScriptError + Dynamic) \<times> FrameBudget \<times> sandbox" where
  "execute_with_budget R A C script b s =
     (if f64_le b f64_zero then (Inl BudgetExhausted, b, s)
      else
        let timeout_ms = (if f64_lt b SINGLE_SCRIPT_TIMEOUT_MS then b else SINGLE_SCRIPT_TIMEOUT_MS);
            s = s\<lparr>sx_timeout_micros := ba_ms_to_micros A timeout_ms\<rparr>
        in case rh_compile R sandbox_limits script of
             Inl e \<Rightarrow> (Inl (ScriptCompileError e), b, s)
           | Inr ast \<Rightarrow>
               (let (start, s) = start_now C s;
                    (r, _, n) = rh_eval R sandbox_limits (callback C s) [] ast;
                    (result, s) = map_result A (rh_show R) C start r (s\<lparr>sx_reads := sx_reads s + n\<rparr>);
                    (now, s) = read_clock C s
                in (result, ba_sub A b (ba_micros_to_ms A (saturating_sub now start)), s)))"

section \<open>What a run costs\<close>

text \<open>What is used of the interpreter: it stops at the operation limit (a limit of zero is none), stops as soon as the callback answers, and
  reports being stopped by the callback only then.\<close>

definition heeds_progress :: "engine_limits \<Rightarrow> progress \<Rightarrow> EvalError + Dynamic \<Rightarrow> nat \<Rightarrow> bool" where
  "heeds_progress L cb r n \<longleftrightarrow> (el_max_operations L \<noteq> 0 \<longrightarrow> n \<le> unat (el_max_operations L))
     \<and> (case r of Inl (ErrorTerminated e) \<Rightarrow> n > 0 \<and> (\<forall>k < n - 1. cb k = None) \<and> cb (n - 1) = Some e
        | _ \<Rightarrow> \<forall>k < n. cb k = None)"

definition interpreter_ok :: "('ast, 'd) interpreter \<Rightarrow> bool" where
  "interpreter_ok R \<longleftrightarrow>
     (\<forall>L cb scope ast. case rh_eval R L cb scope ast of (r, _, n) \<Rightarrow> heeds_progress L cb r n)
     \<and> (\<forall>L cb scope ast f args. case rh_call R L cb scope ast f args of (r, _, n) \<Rightarrow> heeds_progress L cb r n)"

text \<open>A run that began with the reading \<open>start\<close>, under the limit \<open>t\<close>, and took the \<open>n\<close> readings from \<open>i\<close> on.\<close>

definition timely :: "clock \<Rightarrow> u64 \<Rightarrow> u64 \<Rightarrow> nat \<Rightarrow> nat \<Rightarrow> bool" where
  "timely C start t i n \<longleftrightarrow> (\<forall>k < n. saturating_sub (C (i + k)) start < t)"

definition stopped_late :: "clock \<Rightarrow> u64 \<Rightarrow> u64 \<Rightarrow> nat \<Rightarrow> nat \<Rightarrow> bool" where
  "stopped_late C start t i n \<longleftrightarrow> 0 < n \<and> timely C start t i (n - 1) \<and> t \<le> saturating_sub (C (i + n - 1)) start"

lemma callback_None: "callback C s k = None \<longleftrightarrow> saturating_sub (C (sx_reads s + k)) (sx_start_time s) < sx_timeout_micros s"
  by (auto simp: callback_def on_progress_def Let_def not_le not_less)

lemma callback_Some:
  "callback C s k = Some e \<longleftrightarrow> sx_timeout_micros s \<le> saturating_sub (C (sx_reads s + k)) (sx_start_time s)
     \<and> e = saturating_sub (C (sx_reads s + k)) (sx_start_time s)"
  by (auto simp: callback_def on_progress_def Let_def)

lemma heeded_run:
  assumes "heeds_progress sandbox_limits (callback C s) r n"
  shows "n \<le> 50000 \<and> (if \<exists>e. r = Inl (ErrorTerminated e)
      then stopped_late C (sx_start_time s) (sx_timeout_micros s) (sx_reads s) n
      else timely C (sx_start_time s) (sx_timeout_micros s) (sx_reads s) n)"
  using assms by (auto simp: heeds_progress_def stopped_late_def timely_def callback_None callback_Some
      sandbox_limits_def split: sum.splits EvalError.splits)

lemma map_result_timeout:
  "(\<exists>i e t. fst (map_result A shw C start r s) = Inl (ScriptTimeout i e t)) \<longleftrightarrow> (\<exists>e. r = Inl (ErrorTerminated e))"
  by (auto simp: map_result_def map_rhai_error_def Let_def split: sum.splits EvalError.splits prod.splits)

definition is_timeout :: "ScriptError + Dynamic \<Rightarrow> bool" where
  "is_timeout r = (case r of Inl (ScriptTimeout _ _ _) \<Rightarrow> True | _ \<Rightarrow> False)"

lemma is_timeout_iff: "is_timeout r \<longleftrightarrow> (\<exists>i e t. r = Inl (ScriptTimeout i e t))"
  by (auto simp: is_timeout_def split: sum.splits ScriptError.splits)

lemma map_result_state:
  "snd (map_result A shw C start r s) =
     s\<lparr>sx_reads := sx_reads s + (if \<exists>e. r = Inl (ErrorTerminated e) then 1 else 0)\<rparr>"
  by (auto simp: map_result_def map_rhai_error_def read_clock_def Let_def split: sum.splits EvalError.splits prod.splits)

text \<open>The time a script may take: what is left of the frame, at most two milliseconds.\<close>

definition script_limit :: "budget_arith \<Rightarrow> FrameBudget \<Rightarrow> u64" where
  "script_limit A b = ba_ms_to_micros A (if f64_lt b SINGLE_SCRIPT_TIMEOUT_MS then b else SINGLE_SCRIPT_TIMEOUT_MS)"

text \<open>C39: A script run under the budget of the frame is refused without cost when the budget is used up, costs
  nothing when it does not compile, and otherwise makes at most 50000 progress reports, all but the last
  of them within the smaller of two milliseconds and the remaining budget. It times out exactly when the last
  report is beyond that limit, and the budget is charged the time from its start to its end.\<close>

theorem budgeted_run_exact:
  assumes "interpreter_ok R" "execute_with_budget R A C script b s = (r, b', s')"
  shows "if f64_le b f64_zero then r = Inl BudgetExhausted \<and> b' = b \<and> s' = s
    else case rh_compile R sandbox_limits script of
      Inl e \<Rightarrow> r = Inl (ScriptCompileError e) \<and> b' = b \<and> sx_reads s' = sx_reads s
    | Inr ast \<Rightarrow> \<exists>n \<le> 50000. let start = C (sx_reads s); t = script_limit A b; i = sx_reads s + 1 in
        (if is_timeout r then stopped_late C start t i n else timely C start t i n)
        \<and> b' = ba_sub A b (ba_micros_to_ms A (saturating_sub (C (sx_reads s' - 1)) start))
        \<and> sx_reads s' = i + n + (if is_timeout r then 2 else 1)"
proof (cases "f64_le b f64_zero \<or> (\<exists>e. rh_compile R sandbox_limits script = Inl e)")
  case True
  with assms(2) show ?thesis by (auto simp: execute_with_budget_def Let_def split: if_splits)
next
  case False
  then obtain ast where ast: "rh_compile R sandbox_limits script = Inr ast" "\<not> f64_le b f64_zero"
    by (cases "rh_compile R sandbox_limits script") auto
  define s1 where "s1 = s\<lparr>sx_timeout_micros := script_limit A b, sx_reads := sx_reads s + 1, sx_start_time := C (sx_reads s)\<rparr>"
  obtain ro sc n where ev: "rh_eval R sandbox_limits (callback C s1) [] ast = (ro, sc, n)"
    by (metis prod_cases3)
  then have run: "heeds_progress sandbox_limits (callback C s1) ro n"
    using assms(1) unfolding interpreter_ok_def by (metis case_prodD)
  let ?m = "map_result A (rh_show R) C (C (sx_reads s)) ro (s1\<lparr>sx_reads := sx_reads s1 + n\<rparr>)"
  have m: "r = fst ?m" "s' = (snd ?m)\<lparr>sx_reads := sx_reads (snd ?m) + 1\<rparr>"
    "b' = ba_sub A b (ba_micros_to_ms A (saturating_sub (C (sx_reads (snd ?m))) (C (sx_reads s))))"
    using assms(2) ast ev
    by (simp_all add: execute_with_budget_def start_now_def read_clock_def Let_def script_limit_def s1_def split_beta)
  have t: "is_timeout r \<longleftrightarrow> (\<exists>e. ro = Inl (ErrorTerminated e))"
    by (simp add: m(1) is_timeout_iff map_result_timeout)
  show ?thesis
    using heeded_run [OF run] ast m(2,3) t
    by (simp add: map_result_state s1_def Let_def split: if_split_asm)
qed

text \<open>An interpreter that reports once and arithmetic that counts in microseconds, to apply the theorem to.\<close>

definition toy_interpreter :: "(unit, unit) interpreter" where
  "toy_interpreter =
     (let run = \<lambda>cb scope. (case cb 0 of Some e \<Rightarrow> Inl (ErrorTerminated e) | None \<Rightarrow> Inr DynOther, scope, 1)
      in \<lparr>rh_compile = \<lambda>_ _. Inr (), rh_eval = \<lambda>L cb scope _. run cb scope,
         rh_call = \<lambda>L cb scope _ _ _. run cb scope,
         rh_show = \<lambda>_. []\<rparr>)"

definition toy_budget_arith :: budget_arith where
  "toy_budget_arith = \<lparr>ba_sub = (-), ba_micros_to_ms = \<lambda>x. x, ba_ms_to_micros = \<lambda>b. if b = SINGLE_SCRIPT_TIMEOUT_MS then 2000 else b\<rparr>"

lemma toy_interpreter_ok: "interpreter_ok toy_interpreter"
proof -
  have "1 \<le> unat (x :: u64)" if "x \<noteq> 0" for x using that by (simp add: Suc_le_eq unat_gt_0)
  then show ?thesis
    by (simp add: interpreter_ok_def toy_interpreter_def heeds_progress_def Let_def split: option.split)
qed

theorem budgeted_run_exact_witness:
  "case execute_with_budget toy_interpreter toy_budget_arith (\<lambda>k. 3000 * of_nat k) ''x'' frame_budget_new sandbox_with_clock of
     (r, b', s') \<Rightarrow> is_timeout r \<and> sx_reads s' = 4 \<and> b' = frame_budget_new - 9000"
proof -
  obtain r b' s' where run: "execute_with_budget toy_interpreter toy_budget_arith (\<lambda>k. 3000 * of_nat k) ''x'' frame_budget_new sandbox_with_clock = (r, b', s')"
    by (metis prod_cases3)
  have b: "\<not> f64_le frame_budget_new f64_zero" "\<not> f64_lt frame_budget_new SINGLE_SCRIPT_TIMEOUT_MS"
    by (simp_all add: f64_le_def f64_lt_def f64_key_def f64_negative_def f64_is_nan_def f64_exponent_def f64_mantissa_def
        f64_zero_def frame_budget_new_def FRAME_BUDGET_MS_def SINGLE_SCRIPT_TIMEOUT_MS_def)
  have t: "is_timeout r"
  proof -
    have "is_timeout (fst (execute_with_budget toy_interpreter toy_budget_arith (\<lambda>k. 3000 * of_nat k) ''x'' frame_budget_new sandbox_with_clock))"
      by (simp add: b execute_with_budget_def toy_interpreter_def toy_budget_arith_def start_now_def read_clock_def
        sandbox_with_clock_def callback_def on_progress_def map_result_def map_rhai_error_def is_timeout_def
        saturating_sub_def sandbox_limits_def Let_def split_beta)
    then show ?thesis by (simp add: run)
  qed
  obtain n where n: "n \<le> 50000" "stopped_late (\<lambda>k. 3000 * of_nat k) 0 2000 1 n" "sx_reads s' = 1 + n + 2"
    "b' = frame_budget_new - saturating_sub (3000 * of_nat (sx_reads s' - 1)) 0"
    using budgeted_run_exact [OF toy_interpreter_ok run] b t
    by (auto simp: sandbox_with_clock_def script_limit_def toy_budget_arith_def toy_interpreter_def Let_def)
  have "n = 1"
    using n(2) by (cases n) (auto simp: stopped_late_def timely_def saturating_sub_def dest!: spec [of _ 0])
  with n t show ?thesis by (simp add: run saturating_sub_def)
qed

text \<open>The shortened limit of a budgeted run stays in force: a call made after it, which sets no limit of its own,
  is stopped by it, until someone sets the limit again.\<close>

lemma shortened_timeout_stays:
  assumes "interpreter_ok R" "\<not> f64_le b f64_zero" "execute_with_budget R A C script b s = (r, b', s')"
    and "call_fn_with_scope R C scope ast f args s' = (Inl (ErrorTerminated e), scope', s2)"
  shows "script_limit A b \<le> e" "\<exists>n. stopped_late C (C (sx_reads s')) (script_limit A b) (sx_reads s' + 1) n"
proof -
  have t: "sx_timeout_micros s' = script_limit A b"
    using assms(2,3) by (auto simp: execute_with_budget_def start_now_def read_clock_def script_limit_def Let_def
        map_result_def map_rhai_error_def split: sum.splits prod.splits EvalError.splits)
  define s1 where "s1 = s'\<lparr>sx_reads := sx_reads s' + 1, sx_start_time := C (sx_reads s')\<rparr>"
  obtain sc n where ev: "rh_call R sandbox_limits (callback C s1) scope ast f args = (Inl (ErrorTerminated e), sc, n)"
    using assms(4) by (auto simp: call_fn_with_scope_def start_now_def read_clock_def s1_def Let_def split: prod.splits)
  then have run: "heeds_progress sandbox_limits (callback C s1) (Inl (ErrorTerminated e)) n"
    using assms(1) unfolding interpreter_ok_def by (metis case_prodD)
  then show "script_limit A b \<le> e" by (auto simp: heeds_progress_def callback_Some s1_def t)
  from heeded_run [OF run] show "\<exists>n. stopped_late C (C (sx_reads s')) (script_limit A b) (sx_reads s' + 1) n"
    by (auto simp: s1_def t)
qed

end
