(* ===== verification/Dev_Tools.thy ===== *)
theory Dev_Tools
  imports Paths Sandbox Script_Manager Script_Limits
begin

text \<open>
  Developer tools (\<^verbatim>\<open>engine/vm_runtime/src/dev_tools.rs\<close>): the watcher that reloads scripts when their files
  change, and the debug console, which evaluates code in the scope of a running script and prints what the
  script table and the operation history hold. The file system, the notifications of its changes and the
  interpreter are parameters; instants are nanoseconds.
\<close>

section \<open>The watcher\<close>

datatype WatcherError = NotifyInitFailed string | DirectoryNotAccessible string

definition display_watcher_error :: "(string \<Rightarrow> string) \<Rightarrow> WatcherError \<Rightarrow> string" where
  "display_watcher_error dbg e = (case e of
       NotifyInitFailed reason \<Rightarrow> ''notify '' @ utf8 [0xE5, 0x88, 0x9D, 0xE5, 0xA7, 0x8B, 0xE5, 0x8C, 0x96, 0xE5, 0xA4, 0xB1, 0xE6, 0x95, 0x97] @ '': '' @ reason
     | DirectoryNotAccessible path \<Rightarrow> utf8 [0xE7, 0x9B, 0xAE, 0xE9, 0x8C, 0x84, 0xE4, 0xB8, 0x8D, 0xE5, 0x8F, 0xAF, 0xE5, 0xAD, 0x98, 0xE5, 0x8F, 0x96] @ '': '' @ dbg path)"

type_synonym instant = nat
type_synonym DebounceState = "(string, instant) btree"

definition duration_ms :: "instant \<Rightarrow> instant \<Rightarrow> nat" where
  "duration_ms now prev = (now - prev) div 1000000"

definition debounce_accept :: "string \<Rightarrow> instant \<Rightarrow> DebounceState \<Rightarrow> bool \<times> DebounceState" where
  "debounce_accept script_id now pending = (case bm_get pending script_id of
       Some prev \<Rightarrow>
         if duration_ms now prev < 500 then (False, bm_insert script_id now pending)
         else (True, bm_insert script_id now pending)
     | None \<Rightarrow> (True, bm_insert script_id now pending))"

text \<open>A path, as its text and its last component, which may be missing.\<close>

record fs_path =
  fp_path :: string
  fp_name :: "string option"

record RawFileChange =
  rc_script_id :: string
  rc_path :: string

datatype fs_event_kind = EventModify | EventCreate | EventOtherKind

datatype 'ast ReloadResult = ReloadSuccess 'ast | ReloadCompileError string "nat option"

record 'ast ReloadEvent =
  re_script_id :: string
  re_result :: "'ast ReloadResult"
  re_compile_ms :: "u32 option"

record FileWatcher =
  fw_debounce :: DebounceState
  fw_channel :: "RawFileChange list"

text \<open>What the file system and the notification library answer at creation.\<close>

record watch_env =
  wx_is_dir :: bool \<comment> \<open>exists and is a directory\<close>
  wx_init :: "string + unit"
  wx_watch :: "string + unit"

definition file_watcher_new :: "watch_env \<Rightarrow> string \<Rightarrow> WatcherError + FileWatcher" where
  "file_watcher_new W scripts_dir =
     (if \<not> wx_is_dir W then Inl (DirectoryNotAccessible scripts_dir)
      else bind_sum (map_inl NotifyInitFailed (wx_init W)) (\<lambda>_.
             bind_sum (map_inl NotifyInitFailed (wx_watch W)) (\<lambda>_.
               Inr \<lparr>fw_debounce = [], fw_channel = []\<rparr>)))"

definition watched_script :: "fs_path \<Rightarrow> string option" where
  "watched_script p = (case fp_name p of
       None \<Rightarrow> None
     | Some name \<Rightarrow> if file_extension name = Some ''rhai'' then Some (file_stem name) else None)"

definition watch_path :: "fs_path \<times> instant \<Rightarrow> FileWatcher \<Rightarrow> FileWatcher" where
  "watch_path x w = (case watched_script (fst x) of
       None \<Rightarrow> w
     | Some script_id \<Rightarrow>
         (let (should_notify, pending) = debounce_accept script_id (snd x) (fw_debounce w)
          in if should_notify
             then w\<lparr>fw_debounce := pending, fw_channel := fw_channel w @ [\<lparr>rc_script_id = script_id, rc_path = fp_path (fst x)\<rparr>]\<rparr>
             else w\<lparr>fw_debounce := pending\<rparr>))"

definition watch_event :: "unit + (fs_event_kind \<times> (fs_path \<times> instant) list) \<Rightarrow> FileWatcher \<Rightarrow> FileWatcher" where
  "watch_event ev w = (case ev of
       Inl _ \<Rightarrow> w
     | Inr (kind, paths) \<Rightarrow> (case kind of EventOtherKind \<Rightarrow> w | _ \<Rightarrow> fold watch_path paths w))"

fun find_text :: "string \<Rightarrow> string \<Rightarrow> string option" where
  "find_text pat s =
     (if take (length pat) s = pat then Some (drop (length pat) s)
      else case s of [] \<Rightarrow> None | _ # s \<Rightarrow> find_text pat s)"

definition is_digit :: "char \<Rightarrow> bool" where
  "is_digit c \<longleftrightarrow> 48 \<le> (of_char c :: nat) \<and> (of_char c :: nat) \<le> 57"

definition parse_usize :: "string \<Rightarrow> nat option" where
  "parse_usize s =
     (let n = foldl (\<lambda>n c. 10 * n + (of_char c - 48)) 0 s
      in if s = [] \<or> \<not> list_all is_digit s \<or> 2 ^ 64 \<le> n then None else Some n)"

definition extract_line_from_error :: "string \<Rightarrow> nat option" where
  "extract_line_from_error message = (case find_text ''line '' message of
       None \<Rightarrow> None
     | Some rest \<Rightarrow> parse_usize (takeWhile is_digit rest))"

text \<open>Compiling reads the file as it is when the events are polled, and takes some milliseconds.\<close>

definition reload_event :: "(string \<Rightarrow> (string + 'ast) \<times> nat) \<Rightarrow> RawFileChange \<Rightarrow> 'ast ReloadEvent" where
  "reload_event compile_file change = (case compile_file (rc_path change) of
       (Inr ast, ms) \<Rightarrow>
         \<lparr>re_script_id = rc_script_id change, re_result = ReloadSuccess ast, re_compile_ms = Some (of_nat ms)\<rparr>
     | (Inl message, _) \<Rightarrow>
         \<lparr>re_script_id = rc_script_id change,
          re_result = ReloadCompileError message (extract_line_from_error message), re_compile_ms = None\<rparr>)"

definition poll_events :: "(string \<Rightarrow> (string + 'ast) \<times> nat) \<Rightarrow> FileWatcher \<Rightarrow> 'ast ReloadEvent list \<times> FileWatcher" where
  "poll_events compile_file w = (map (reload_event compile_file) (fw_channel w), w\<lparr>fw_channel := []\<rparr>)"

text \<open>What the watcher is meant to report: the changes to scripts that no change to the same script precedes by
  less than half a second. \<open>hs\<close> are the changes before.\<close>

fun reported :: "(string \<times> instant) list \<Rightarrow> (fs_path \<times> instant) list \<Rightarrow> RawFileChange list" where
  "reported hs [] = []"
| "reported hs (x # xs) = (case watched_script (fst x) of
       None \<Rightarrow> reported hs xs
     | Some script_id \<Rightarrow>
         (if \<exists>h \<in> set hs. fst h = script_id \<and> duration_ms (snd x) (snd h) < 500 then []
          else [\<lparr>rc_script_id = script_id, rc_path = fp_path (fst x)\<rparr>])
         @ reported (hs @ [(script_id, snd x)]) xs)"

definition remembers :: "DebounceState \<Rightarrow> (string \<times> instant) list \<Rightarrow> bool" where
  "remembers d hs \<longleftrightarrow> (\<forall>k. case bm_get d k of
       None \<Rightarrow> \<forall>h \<in> set hs. fst h \<noteq> k
     | Some t \<Rightarrow> (k, t) \<in> set hs \<and> (\<forall>h \<in> set hs. fst h = k \<longrightarrow> snd h \<le> t))"

lemma remembers_None: "remembers d hs \<Longrightarrow> bm_get d k = None \<Longrightarrow> h \<in> set hs \<Longrightarrow> fst h \<noteq> k"
  unfolding remembers_def by (drule spec [of _ k]) simp

lemma remembers_Some:
  "remembers d hs \<Longrightarrow> bm_get d k = Some t \<Longrightarrow> (k, t) \<in> set hs \<and> (\<forall>h \<in> set hs. fst h = k \<longrightarrow> snd h \<le> t)"
  unfolding remembers_def by (drule spec [of _ k]) simp

lemma remembers_insert:
  assumes "remembers d hs" "\<forall>h \<in> set hs. snd h \<le> t"
  shows "remembers (bm_insert k t d) (hs @ [(k, t)])"
  unfolding remembers_def bm_get_insert
  using assms(2) remembers_None [OF assms(1)] remembers_Some [OF assms(1)]
  by (fastforce split: option.split)

lemma duration_ms_mono: "s \<le> s' \<Longrightarrow> duration_ms t s' \<le> duration_ms t s"
  by (simp add: duration_ms_def div_le_mono)

lemma accepted_iff:
  assumes "remembers d hs"
  shows "fst (debounce_accept k t d) \<longleftrightarrow> \<not> (\<exists>h \<in> set hs. fst h = k \<and> duration_ms t (snd h) < 500)"
proof (cases "bm_get d k")
  case None
  with remembers_None [OF assms None] show ?thesis by (auto simp: debounce_accept_def)
next
  case (Some p)
  with assms have p: "(k, p) \<in> set hs" "\<forall>h \<in> set hs. fst h = k \<longrightarrow> snd h \<le> p"
    using remembers_Some by blast+
  have "\<not> duration_ms t p < 500" if "\<not> (\<exists>h \<in> set hs. fst h = k \<and> duration_ms t (snd h) < 500)"
    using that p(1) by force
  moreover have "duration_ms t p < 500" if "h \<in> set hs" "fst h = k" "duration_ms t (snd h) < 500" for h
    using that p(2) duration_ms_mono [of "snd h" p t] by fastforce
  ultimately show ?thesis by (auto simp: debounce_accept_def Some)
qed

lemma accept_state: "snd (debounce_accept k t d) = bm_insert k t d"
  by (simp add: debounce_accept_def split: option.split)

lemma watch_paths_report:
  assumes "remembers (fw_debounce w) hs" "sorted (map snd xs)" "\<forall>h \<in> set hs. \<forall>x \<in> set xs. snd h \<le> snd x"
  shows "fw_channel (fold watch_path xs w) = fw_channel w @ reported hs xs"
  using assms
proof (induction xs arbitrary: w hs)
  case (Cons x xs)
  show ?case
  proof (cases "watched_script (fst x)")
    case None
    with Cons.IH [of w hs] Cons.prems show ?thesis by (simp add: watch_path_def)
  next
    case (Some k)
    let ?w = "watch_path x w"
    have w: "fw_debounce ?w = bm_insert k (snd x) (fw_debounce w)"
      "fw_channel ?w = fw_channel w @ (if \<exists>h \<in> set hs. fst h = k \<and> duration_ms (snd x) (snd h) < 500 then []
          else [\<lparr>rc_script_id = k, rc_path = fp_path (fst x)\<rparr>])"
      using accepted_iff [OF Cons.prems(1), of k "snd x"] accept_state [of k "snd x" "fw_debounce w"]
      by (auto simp: watch_path_def Some split: prod.splits)
    have "remembers (fw_debounce ?w) (hs @ [(k, snd x)])"
      unfolding w by (rule remembers_insert [OF Cons.prems(1)]) (use Cons.prems(3) in auto)
    with Cons.IH [of ?w "hs @ [(k, snd x)]"] Cons.prems w(2) Some show ?thesis by auto
  qed
qed simp

text \<open>Over any stream of file changes the watcher reports exactly those of script files that no change to
  the same script precedes by less than 500 milliseconds, under the file's name without its extension and in
  the order they happened.\<close>

lemma watcher_debounces:
  assumes "file_watcher_new W dir = Inr w" "sorted (map snd xs)"
  shows "fw_channel (fold watch_path xs w) = reported [] xs"
proof -
  have "w = \<lparr>fw_debounce = [], fw_channel = []\<rparr>"
    using assms(1) by (auto simp: file_watcher_new_def bind_sum_def map_inl_def split: if_splits sum.splits)
  with watch_paths_report [of w "[]" xs] assms(2) show ?thesis by (simp add: remembers_def)
qed

definition toy_change :: "string \<Rightarrow> nat \<Rightarrow> fs_path \<times> instant" where
  "toy_change name ms = (\<lparr>fp_path = ''scripts/'' @ name, fp_name = Some name\<rparr>, ms * 1000000)"

lemma watcher_debounces_example:
  "\<exists>w. file_watcher_new \<lparr>wx_is_dir = True, wx_init = Inr (), wx_watch = Inr ()\<rparr> ''scripts'' = Inr w
     \<and> map rc_script_id (fw_channel (fold watch_path
          [toy_change ''a.rhai'' 0, toy_change ''b.rhai'' 100, toy_change ''a.rhai'' 400, toy_change ''a.rhai'' 850,
           toy_change ''a.txt'' 900, toy_change ''b.rhai'' 1000] w)) = [''a'', ''b'', ''b'']"
proof -
  let ?xs = "[toy_change ''a.rhai'' 0, toy_change ''b.rhai'' 100, toy_change ''a.rhai'' 400, toy_change ''a.rhai'' 850,
           toy_change ''a.txt'' 900, toy_change ''b.rhai'' 1000]"
  obtain w where w: "file_watcher_new \<lparr>wx_is_dir = True, wx_init = Inr (), wx_watch = Inr ()\<rparr> ''scripts'' = Inr w"
    by (simp add: file_watcher_new_def map_inl_def bind_sum_def)
  have "sorted (map snd ?xs)" by (simp add: toy_change_def)
  from watcher_debounces [OF w this] w show ?thesis
    by (simp add: toy_change_def watched_script_def file_extension_def file_stem_def rsplit_dot_def duration_ms_def Let_def)
qed

text \<open>The rest of a burst is lost, not delayed: while a script keeps being saved within half a second of the save
  before, nothing is reported after the first save, however long it goes on.\<close>

lemma burst_reported_once:
  assumes "\<forall>x \<in> set xs. watched_script (fst x) = Some k" "(k, t) \<in> set hs"
    and "\<forall>(s, s') \<in> set (zip (t # map snd xs) (map snd xs)). duration_ms s' s < 500"
  shows "reported hs xs = []"
  using assms
proof (induction xs arbitrary: hs t)
  case (Cons x xs)
  then have "duration_ms (snd x) t < 500" by simp
  moreover have "reported (hs @ [(k, snd x)]) xs = []"
    by (rule Cons.IH [of "snd x"]) (use Cons.prems in auto)
  ultimately show ?case using Cons.prems(1,2) by force
qed simp

section \<open>The debug console\<close>

text \<open>The references the console is given when the game starts. Its locks are taken to be free.\<close>

record ('ast, 'd) console =
  cn_manager :: "'ast ScriptManager option"
  cn_engine :: "sandbox option"
  cn_metric :: "f64 FrameOpsMetric option"

definition set_script_manager_ref :: "'ast ScriptManager \<Rightarrow> ('ast, 'd) console \<Rightarrow> ('ast, 'd) console" where
  "set_script_manager_ref sm c = c\<lparr>cn_manager := Some sm\<rparr>"

definition set_sandboxed_engine_ref :: "sandbox \<Rightarrow> ('ast, 'd) console \<Rightarrow> ('ast, 'd) console" where
  "set_sandboxed_engine_ref engine c = c\<lparr>cn_engine := Some engine\<rparr>"

definition set_frame_ops_metric_ref :: "f64 FrameOpsMetric \<Rightarrow> ('ast, 'd) console \<Rightarrow> ('ast, 'd) console" where
  "set_frame_ops_metric_ref metric c = c\<lparr>cn_metric := Some metric\<rparr>"

definition get_script_manager :: "('ast, 'd) console \<Rightarrow> string + 'ast ScriptManager" where
  "get_script_manager c = (case cn_manager c of None \<Rightarrow> Inl (''ScriptManager '' @ utf8 [0xE6, 0x9C, 0xAA, 0xE5, 0x88, 0x9D, 0xE5, 0xA7, 0x8B, 0xE5, 0x8C, 0x96]) | Some sm \<Rightarrow> Inr sm)"

definition get_engine :: "('ast, 'd) console \<Rightarrow> string + sandbox" where
  "get_engine c = (case cn_engine c of None \<Rightarrow> Inl (''SandboxedEngine '' @ utf8 [0xE6, 0x9C, 0xAA, 0xE5, 0x88, 0x9D, 0xE5, 0xA7, 0x8B, 0xE5, 0x8C, 0x96]) | Some e \<Rightarrow> Inr e)"

definition get_frame_ops_metric :: "('ast, 'd) console \<Rightarrow> string + f64 FrameOpsMetric" where
  "get_frame_ops_metric c = (case cn_metric c of None \<Rightarrow> Inl (''FrameOpsMetric '' @ utf8 [0xE6, 0x9C, 0xAA, 0xE5, 0x88, 0x9D, 0xE5, 0xA7, 0x8B, 0xE5, 0x8C, 0x96]) | Some m \<Rightarrow> Inr m)"

text \<open>The accessors of the script table the console uses.\<close>

definition script_scope :: "string \<Rightarrow> 'ast ScriptManager \<Rightarrow> Scope option" where
  "script_scope script_id sm =
     map_option (\<lambda>(_, s). in_scope (ms_instance s)) (find (\<lambda>(k, _). snd k = script_id) (sm_scripts sm))"

definition first_active_script :: "'ast ScriptManager \<Rightarrow> ((u8 \<times> ScriptId) \<times> Scope) option" where
  "first_active_script sm =
     map_option (\<lambda>(k, s). (k, in_scope (ms_instance s))) (find (\<lambda>(_, s). ms_state s = Active) (sm_scripts sm))"

definition script_in :: "string \<Rightarrow> 'ast ScriptManager \<Rightarrow> ((u8 \<times> ScriptId) \<times> Scope) option" where
  "script_in script_id sm =
     map_option (\<lambda>(k, s). (k, in_scope (ms_instance s))) (find (\<lambda>(k, _). snd k = script_id) (sm_scripts sm))"

definition script_priority :: "ScriptId \<Rightarrow> 'ast ScriptManager \<Rightarrow> u8 option" where
  "script_priority i sm = map_option fst (find (\<lambda>k. snd k = i) (map fst (sm_scripts sm)))"

definition write_scope :: "u8 \<times> ScriptId \<Rightarrow> Scope \<Rightarrow> 'ast ScriptManager \<Rightarrow> 'ast ScriptManager" where
  "write_scope k scope sm =
     sm\<lparr>sm_scripts := bm_update k (\<lambda>s. s\<lparr>ms_instance := (ms_instance s)\<lparr>in_scope := scope\<rparr>\<rparr>) (sm_scripts sm)\<rparr>"

text \<open>Evaluating a line of code in a scope goes to the interpreter directly, not through the sandbox's own
  operations, so the callback measures from the start of whatever the sandbox ran last.\<close>

record console_env =
  ce_eval :: "engine_limits \<Rightarrow> progress \<Rightarrow> Scope \<Rightarrow> string \<Rightarrow> (EvalError + Dynamic) \<times> Scope \<times> nat"
  ce_show_error :: "EvalError \<Rightarrow> string"
  ce_show_value :: "Dynamic \<Rightarrow> string"

definition eval_with_scope ::
  "console_env \<Rightarrow> clock \<Rightarrow> string \<Rightarrow> Scope \<Rightarrow> sandbox \<Rightarrow> (EvalError + Dynamic) \<times> Scope \<times> sandbox" where
  "eval_with_scope X C code scope s =
     (let (r, scope, n) = ce_eval X sandbox_limits (callback C s) scope code
      in (r, scope, s\<lparr>sx_reads := sx_reads s + n\<rparr>))"

definition eval_at ::
  "console_env \<Rightarrow> clock \<Rightarrow> string \<Rightarrow> ((u8 \<times> ScriptId) \<times> Scope) \<Rightarrow> 'ast ScriptManager \<Rightarrow> sandbox \<Rightarrow> ('ast, 'd) console
     \<Rightarrow> (string + string) \<times> ('ast, 'd) console" where
  "eval_at X C code t sm s c =
     (let (r, scope, s) = eval_with_scope X C code (snd t) s
      in (case r of Inl e \<Rightarrow> Inl (ce_show_error X e) | Inr v \<Rightarrow> Inr (ce_show_value X v),
          c\<lparr>cn_manager := Some (write_scope (fst t) scope sm), cn_engine := Some s\<rparr>))"

definition script_eval ::
  "console_env \<Rightarrow> clock \<Rightarrow> string \<Rightarrow> ('ast, 'd) console \<Rightarrow> (string + string) \<times> ('ast, 'd) console" where
  "script_eval X C code c = (case get_script_manager c of
       Inl e \<Rightarrow> (Inl e, c)
     | Inr sm \<Rightarrow> (case get_engine c of
         Inl e \<Rightarrow> (Inl e, c)
       | Inr s \<Rightarrow> (case first_active_script sm of
           None \<Rightarrow> (Inl (utf8 [0xE7, 0x84, 0xA1] @ '' active '' @ utf8 [0xE8, 0x85, 0xB3, 0xE6, 0x9C, 0xAC]), c)
         | Some t \<Rightarrow> eval_at X C code t sm s c)))"

definition script_eval_in ::
  "console_env \<Rightarrow> clock \<Rightarrow> string \<Rightarrow> string \<Rightarrow> ('ast, 'd) console \<Rightarrow> (string + string) \<times> ('ast, 'd) console" where
  "script_eval_in X C script_id code c = (case get_script_manager c of
       Inl e \<Rightarrow> (Inl e, c)
     | Inr sm \<Rightarrow> (case get_engine c of
         Inl e \<Rightarrow> (Inl e, c)
       | Inr s \<Rightarrow> (case script_in script_id sm of
           None \<Rightarrow> (Inl (utf8 [0xE8, 0x85, 0xB3, 0xE6, 0x9C, 0xAC] @ '' '' @ script_id @ '' '' @ utf8 [0xE4, 0xB8, 0x8D, 0xE5, 0xAD, 0x98, 0xE5, 0x9C, 0xA8, 0xE6, 0x88, 0x96, 0xE5, 0xB7, 0xB2, 0xE5, 0x81, 0x9C, 0xE7, 0x94, 0xA8]), c)
         | Some t \<Rightarrow> eval_at X C code t sm s c)))"

definition quoted :: "string \<Rightarrow> string" where
  "quoted s = CHR 0x22 # s @ [CHR 0x22]"

primrec joined :: "string list \<Rightarrow> string" where
  "joined [] = []"
| "joined (x # xs) = (if xs = [] then x else x @ '','' @ joined xs)"

definition list_entry :: "'ast ScriptManager \<Rightarrow> ScriptId \<times> ScriptState \<Rightarrow> string" where
  "list_entry sm x =
     ''{'' @ quoted ''id'' @ '':'' @ quoted (fst x) @ '','' @ quoted ''status'' @ '':''
       @ quoted (case snd x of Disabled _ \<Rightarrow> ''disabled'' | _ \<Rightarrow> ''active'')
       @ '','' @ quoted ''priority'' @ '':'' @ decimal (unat (case script_priority (fst x) sm of None \<Rightarrow> 0 | Some p \<Rightarrow> p))
       @ '','' @ quoted ''ops_last_frame'' @ '':0}''"

definition script_list :: "('ast, 'd) console \<Rightarrow> string + string" where
  "script_list c = bind_sum (get_script_manager c) (\<lambda>sm.
     Inr (''['' @ joined (map (list_entry sm) (script_states sm)) @ '']''))"

definition script_vars :: "console_env \<Rightarrow> string \<Rightarrow> ('ast, 'd) console \<Rightarrow> string + string" where
  "script_vars X script_id c = bind_sum (get_script_manager c) (\<lambda>sm. case script_scope script_id sm of
       None \<Rightarrow> Inl (utf8 [0xE8, 0x85, 0xB3, 0xE6, 0x9C, 0xAC] @ '' '' @ script_id @ '' '' @ utf8 [0xE4, 0xB8, 0x8D, 0xE5, 0xAD, 0x98, 0xE5, 0x9C, 0xA8])
     | Some scope \<Rightarrow>
         Inr (''{'' @ joined (map (\<lambda>(name, v). quoted name @ '':'' @ quoted (ce_show_value X v)) scope) @ ''}''))"

text \<open>The statistics of the last sixty frames, per script: operations, time, longest time, number of records.\<close>

record perf_env =
  pf_add :: "f64 \<Rightarrow> f64 \<Rightarrow> f64"
  pf_ms_to_us :: "f64 \<Rightarrow> f64" \<comment> \<open>\<open>time_ms * 1000.0\<close>\<close>
  pf_div_count :: "f64 \<Rightarrow> nat \<Rightarrow> f64"
  pf_to_u64 :: "f64 \<Rightarrow> u64"
  pf_show_usage :: "f64 \<Rightarrow> string" \<comment> \<open>\<open>us / 4000.0 * 100.0\<close> with one decimal\<close>

type_synonym perf_stats = "(string, u64 \<times> f64 \<times> f64 \<times> nat) btree"

definition perf_update :: "perf_env \<Rightarrow> u64 \<Rightarrow> f64 \<Rightarrow> u64 \<times> f64 \<times> f64 \<times> nat \<Rightarrow> u64 \<times> f64 \<times> f64 \<times> nat" where
  "perf_update P ops time_ms s =
     (let (t_ops, t_us, max_us, n) = s; time_us = pf_ms_to_us P time_ms
      in (t_ops + ops, pf_add P t_us time_us, (if f64_lt max_us time_us then time_us else max_us), n + 1))"

definition perf_record :: "perf_env \<Rightarrow> string \<times> u64 \<times> u64 \<times> f64 \<Rightarrow> perf_stats \<Rightarrow> perf_stats" where
  "perf_record P x st =
     (let (sid, rhai_ops, bridge_ops, time_ms) = x;
          s = (case bm_get st sid of None \<Rightarrow> (0, f64_zero, f64_zero, 0) | Some s \<Rightarrow> s)
      in bm_insert sid (perf_update P (rhai_ops + bridge_ops) time_ms s) st)"

definition perf_collect :: "perf_env \<Rightarrow> f64 FrameOpsEntry list \<Rightarrow> perf_stats" where
  "perf_collect P history = fold (perf_record P) (concat (map fe_per_script history)) []"

definition avg_us_of :: "perf_env \<Rightarrow> u64 \<times> f64 \<times> f64 \<times> nat \<Rightarrow> f64" where
  "avg_us_of P s = (let (_, t_us, _, n) = s in if n > 0 then pf_div_count P t_us n else f64_zero)"

definition perf_entry :: "perf_env \<Rightarrow> string \<times> u64 \<times> f64 \<times> f64 \<times> nat \<Rightarrow> string" where
  "perf_entry P x =
     (let (i, t_ops, t_us, max_us, n) = x;
          avg_ops = (if n > 0 then t_ops div of_nat n else 0)
      in ''{'' @ quoted ''id'' @ '':'' @ quoted i @ '','' @ quoted ''avg_ops'' @ '':'' @ decimal (unat avg_ops)
           @ '','' @ quoted ''avg_time_us'' @ '':'' @ decimal (unat (pf_to_u64 P (avg_us_of P (snd x))))
           @ '','' @ quoted ''max_time_us'' @ '':'' @ decimal (unat (pf_to_u64 P max_us))
           @ '','' @ quoted ''timeouts'' @ '':0}'')"

definition script_perf :: "perf_env \<Rightarrow> ('ast, 'd) console \<Rightarrow> string + string" where
  "script_perf P c = bind_sum (get_frame_ops_metric c) (\<lambda>metric.
     let history = metric_history 60 metric;
         stats = perf_collect P history;
         total_avg_time_us = foldl (\<lambda>t x. pf_add P t (avg_us_of P (snd x))) f64_zero stats
     in Inr (''{'' @ quoted ''frames_sampled'' @ '':'' @ decimal (length history)
          @ '','' @ quoted ''per_script'' @ '':['' @ joined (map (perf_entry P) stats) @ '']''
          @ '','' @ quoted ''total_avg_time_us'' @ '':'' @ decimal (unat (pf_to_u64 P total_avg_time_us))
          @ '','' @ quoted ''frame_budget_usage'' @ '':'' @ quoted (pf_show_usage P total_avg_time_us @ ''%'') @ ''}''))"

section \<open>What the console does\<close>

lemma find_update_same:
  "find (\<lambda>(k, s). P k s) m = Some (k, s) \<Longrightarrow> distinct (map fst m) \<Longrightarrow> bm_get m k = Some s"
  by (auto simp: find_Some_iff in_set_conv_nth)

lemma eval_at_manager:
  "\<exists>scope. cn_manager (snd (eval_at X C code t sm s c)) = Some (write_scope (fst t) scope sm)"
  by (auto simp: eval_at_def eval_with_scope_def Let_def split: prod.splits)

text \<open>A line of code runs in the first active script of the table, and changes nothing of the game but the variables
  of that script.\<close>

lemma script_eval_touches_one:
  assumes "cn_manager c = Some sm" "cn_engine c = Some s" "first_active_script sm = Some (k, scope)"
    and "script_eval X C code c = (r, c')" "manager_ok sm"
  shows "\<exists>sm' ms. cn_manager c' = Some sm' \<and> sm_tick sm' = sm_tick sm \<and> bm_get (sm_scripts sm) k = Some ms
    \<and> ms_state ms = Active \<and> in_scope (ms_instance ms) = scope
    \<and> (\<exists>scope'. bm_get (sm_scripts sm') k = Some (ms\<lparr>ms_instance := (ms_instance ms)\<lparr>in_scope := scope'\<rparr>\<rparr>))
    \<and> (\<forall>j. j \<noteq> k \<longrightarrow> bm_get (sm_scripts sm') j = bm_get (sm_scripts sm) j)"
proof -
  obtain ms where ms: "find (\<lambda>(_, s). ms_state s = Active) (sm_scripts sm) = Some (k, ms)" "scope = in_scope (ms_instance ms)"
    using assms(3) by (auto simp: first_active_script_def)
  have "bm_get (sm_scripts sm) k = Some ms"
    using find_update_same [OF ms(1)] assms(5) by (simp add: manager_ok_def scripts_ok_def bm_wf_distinct)
  moreover have "ms_state ms = Active" using ms(1) by (auto simp: find_Some_iff)
  moreover have "script_eval X C code c = eval_at X C code (k, scope) sm s c"
    by (simp add: script_eval_def get_script_manager_def get_engine_def assms(1-3))
  then obtain scope' where "cn_manager c' = Some (write_scope k scope' sm)"
    using eval_at_manager [of X C code "(k, scope)" sm s c] assms(4) by (metis fst_conv snd_conv)
  ultimately show ?thesis
    by (auto simp: write_scope_def bm_get_update ms(2))
qed

text \<open>The callback of such an evaluation still measures from the start of the last call of the sandbox. Once the time
  of that call is over, the first report of any line of code ends it.\<close>

lemma console_eval_cut_off:
  assumes "heeds_progress sandbox_limits (callback C s) r n" "eval_with_scope X C code scope s = (r, scope', s')"
    and "sx_timeout_micros s \<le> saturating_sub (C (sx_reads s)) (sx_start_time s)"
    and "ce_eval X sandbox_limits (callback C s) scope code = (r, scope', n)"
  shows "n = 0 \<or> (n = 1 \<and> r = Inl (ErrorTerminated (saturating_sub (C (sx_reads s)) (sx_start_time s))))"
proof -
  have "callback C s 0 = Some (saturating_sub (C (sx_reads s)) (sx_start_time s))"
    using assms(3) by (simp add: callback_Some)
  with assms(1) show ?thesis
    by (cases n) (force simp: heeds_progress_def split: sum.splits EvalError.splits)+
qed

text \<open>A script that is disabled is no different to \<open>script_eval_in\<close>.\<close>

lemma script_in_ignores_state:
  "script_in i (sm\<lparr>sm_scripts := map (\<lambda>(k, s). (k, s\<lparr>ms_state := st k\<rparr>)) (sm_scripts sm)\<rparr>) = script_in i sm"
proof -
  have f: "find (\<lambda>(k, _). snd k = i) (map (\<lambda>(k, s). (k, s\<lparr>ms_state := st k\<rparr>)) m)
      = map_option (\<lambda>(k, s). (k, s\<lparr>ms_state := st k\<rparr>)) (find (\<lambda>(k, _). snd k = i) m)" for m
    by (induction m) auto
  show ?thesis by (cases "find (\<lambda>(k, _). snd k = i) (sm_scripts sm)") (auto simp: script_in_def f)
qed

text \<open>The figures the console prints for a script are those of its records in the window.\<close>

definition records_of :: "string \<Rightarrow> f64 FrameOpsEntry list \<Rightarrow> (u64 \<times> u64 \<times> f64) list" where
  "records_of sid history = map snd (filter (\<lambda>x. fst x = sid) (concat (map fe_per_script history)))"

lemma perf_record_get:
  "bm_get (perf_record P (i, r, b, t) st) j = (if i = j
     then Some (perf_update P (r + b) t (case bm_get st j of None \<Rightarrow> (0, f64_zero, f64_zero, 0) | Some s \<Rightarrow> s))
     else bm_get st j)"
  by (simp add: perf_record_def bm_get_insert)

lemma perf_fold:
  "bm_get (fold (perf_record P) xs st) sid =
     (case filter (\<lambda>x. fst x = sid) xs of [] \<Rightarrow> bm_get st sid
      | _ \<Rightarrow> Some (fold (\<lambda>(_, r, b, t). perf_update P (r + b) t) (filter (\<lambda>x. fst x = sid) xs)
          (case bm_get st sid of None \<Rightarrow> (0, f64_zero, f64_zero, 0) | Some s \<Rightarrow> s)))"
proof (induction xs arbitrary: st)
  case (Cons x xs)
  obtain i r b t where x: "x = (i, r, b, t)" by (cases x)
  show ?case
    using Cons.IH [of "perf_record P x st"]
    by (cases "i = sid"; cases "filter (\<lambda>x. fst x = sid) xs") (simp_all add: x perf_record_get)
qed simp

lemma perf_update_ops: "fst (fold (\<lambda>(_, r, b, t). perf_update P (r + b) t) xs s) = fst s + sum_list (map (\<lambda>(_, r, b, _). r + b) xs)"
  by (induction xs arbitrary: s) (auto simp: perf_update_def split_beta Let_def add.assoc)

lemma perf_update_count: "snd (snd (snd (fold (\<lambda>(_, r, b, t). perf_update P (r + b) t) xs s))) = snd (snd (snd s)) + length xs"
  by (induction xs arbitrary: s) (auto simp: perf_update_def split_beta Let_def)

lemma perf_collect_exact:
  "records_of sid history = [] \<Longrightarrow> bm_get (perf_collect P history) sid = None"
  "records_of sid history \<noteq> [] \<Longrightarrow> \<exists>t_us max_us. bm_get (perf_collect P history) sid =
     Some (sum_list (map (\<lambda>(r, b, _). r + b) (records_of sid history)), t_us, max_us, length (records_of sid history))"
proof -
  let ?f = "filter (\<lambda>x. fst x = sid) (concat (map fe_per_script history))"
  let ?s = "fold (\<lambda>(_, r, b, t). perf_update P (r + b) t) ?f (0, f64_zero, f64_zero, 0)"
  have sum: "sum_list (map (\<lambda>(r, b, _). r + b) (records_of sid history)) = fst ?s"
    "length (records_of sid history) = snd (snd (snd ?s))"
    by (simp_all only: perf_update_ops perf_update_count) (simp_all add: records_of_def comp_def split_def)
  show "records_of sid history = [] \<Longrightarrow> bm_get (perf_collect P history) sid = None"
    by (simp add: perf_collect_def perf_fold records_of_def)
  show "records_of sid history \<noteq> [] \<Longrightarrow> \<exists>t_us max_us. bm_get (perf_collect P history) sid =
     Some (sum_list (map (\<lambda>(r, b, _). r + b) (records_of sid history)), t_us, max_us, length (records_of sid history))"
    unfolding sum by (auto simp: perf_collect_def perf_fold records_of_def split: list.split)
      (metis prod.collapse)
qed

end
