(* ===== verification/Client_Loader.thy ===== *)
theory Client_Loader
  imports Secure_Session Server_Simulation Machines
begin

text \<open>
  The entry points of the client (\<^verbatim>\<open>client/wasm_loader/src\<close>: \<open>lib.rs\<close>, \<open>startup.rs\<close>, \<open>single_player.rs\<close>,
  \<open>crash_dump.rs\<close>) and the version check (\<^verbatim>\<open>engine/bevy_runtime/src/version.rs\<close>). The browser is on the other
  side: what it calls are the events, and the calls the client makes into it are kept in the order they are
  made. Secret keys and nonces are arguments.
\<close>

section \<open>Startup stages\<close>

datatype StartupStage = JsLoader | WasmBootstrap | EcdhHandshake | BevyInit | AssetDecrypt | GameReady

definition progress_range :: "StartupStage \<Rightarrow> u8 \<times> u8" where
  "progress_range s = (case s of
       JsLoader \<Rightarrow> (0, 10)
     | WasmBootstrap \<Rightarrow> (10, 30)
     | EcdhHandshake \<Rightarrow> (30, 45)
     | BevyInit \<Rightarrow> (45, 60)
     | AssetDecrypt \<Rightarrow> (60, 90)
     | GameReady \<Rightarrow> (90, 100))"

definition completion_percent :: "StartupStage \<Rightarrow> u8" where
  "completion_percent s = snd (progress_range s)"

definition stage_name :: "StartupStage \<Rightarrow> string" where
  "stage_name s = (case s of
       JsLoader \<Rightarrow> utf8 [0xE8, 0xBC, 0x89, 0xE5, 0x85, 0xA5, 0xE5, 0x99, 0xA8, 0xE5, 0x88, 0x9D, 0xE5, 0xA7, 0x8B, 0xE5, 0x8C, 0x96]
     | WasmBootstrap \<Rightarrow> ''WASM '' @ utf8 [0xE5, 0x95, 0x9F, 0xE5, 0x8B, 0x95]
     | EcdhHandshake \<Rightarrow> utf8 [0xE9, 0x87, 0x91, 0xE9, 0x91, 0xB0, 0xE4, 0xBA, 0xA4, 0xE6, 0x8F, 0x9B]
     | BevyInit \<Rightarrow> utf8 [0xE5, 0xBC, 0x95, 0xE6, 0x93, 0x8E, 0xE5, 0x88, 0x9D, 0xE5, 0xA7, 0x8B, 0xE5, 0x8C, 0x96]
     | AssetDecrypt \<Rightarrow> utf8 [0xE8, 0xB3, 0x87, 0xE7, 0x94, 0xA2, 0xE8, 0xA7, 0xA3, 0xE5, 0xAF, 0x86]
     | GameReady \<Rightarrow> utf8 [0xE9, 0x81, 0x8A, 0xE6, 0x88, 0xB2, 0xE6, 0xBA, 0x96, 0xE5, 0x82, 0x99, 0xE5, 0xB0, 0xB1, 0xE7, 0xB7, 0x92])"

definition next_stage :: "StartupStage \<Rightarrow> StartupStage option" where
  "next_stage s = (case s of
       JsLoader \<Rightarrow> Some WasmBootstrap
     | WasmBootstrap \<Rightarrow> Some EcdhHandshake
     | EcdhHandshake \<Rightarrow> Some BevyInit
     | BevyInit \<Rightarrow> Some AssetDecrypt
     | AssetDecrypt \<Rightarrow> Some GameReady
     | GameReady \<Rightarrow> None)"

datatype StartupError =
    JsLoaderFailed string
  | WasmBootstrapFailed string
  | EcdhStageFailed string
  | BevyInitFailed string
  | AssetDecryptFailed string
  | AlreadyComplete

datatype StartupFailReason = NetworkError string | DecryptionError string | InitError string

text \<open>The manager, with the reports its callback has been given.\<close>

record StartupProgress =
  su_current_stage :: StartupStage
  su_completed :: bool
  su_reports :: "(u8 \<times> string) list"

definition startup_new :: StartupProgress where
  "startup_new = \<lparr>su_current_stage = JsLoader, su_completed = False, su_reports = []\<rparr>"

definition progress_percent :: "StartupProgress \<Rightarrow> u8" where
  "progress_percent p = (if su_completed p then 100 else fst (progress_range (su_current_stage p)))"

definition on_stage_complete :: "StartupProgress \<Rightarrow> (StartupError + unit) \<times> StartupProgress" where
  "on_stage_complete p =
     (if su_completed p then (Inl AlreadyComplete, p)
      else case next_stage (su_current_stage p) of
             Some next \<Rightarrow>
               (Inr (), p\<lparr>su_current_stage := next,
                  su_reports := su_reports p @ [(fst (progress_range next), stage_name next)]\<rparr>)
           | None \<Rightarrow>
               (Inr (), p\<lparr>su_completed := True, su_reports := su_reports p @ [(100, stage_name (su_current_stage p))]\<rparr>))"

definition on_stage_failed :: "StartupFailReason \<Rightarrow> StartupProgress \<Rightarrow> StartupError" where
  "on_stage_failed reason p =
     (if su_completed p then AlreadyComplete
      else let msg = (case reason of NetworkError s \<Rightarrow> s | DecryptionError s \<Rightarrow> s | InitError s \<Rightarrow> s)
           in case su_current_stage p of
                JsLoader \<Rightarrow> JsLoaderFailed msg
              | WasmBootstrap \<Rightarrow> WasmBootstrapFailed msg
              | EcdhHandshake \<Rightarrow> EcdhStageFailed msg
              | BevyInit \<Rightarrow> BevyInitFailed msg
              | AssetDecrypt \<Rightarrow> AssetDecryptFailed msg
              | GameReady \<Rightarrow> AlreadyComplete)"

section \<open>Calls from and into the browser\<close>

datatype js_call =
    JsSendWebsocket bytes
  | JsRetryHandshake
  | JsShowError string
  | JsStartGameLoop
  | JsCancelHandshakeTimeout
  | StartWelcomeApp string

record loader =
  lo_inner :: InnerState
  lo_game_started :: bool
  lo_calls :: "js_call list"

definition loader_new :: loader where
  "loader_new = \<lparr>lo_inner = client_state, lo_game_started = False, lo_calls = []\<rparr>"

definition js_calls :: "js_call list \<Rightarrow> loader \<Rightarrow> loader" where
  "js_calls cs lo = lo\<lparr>lo_calls := lo_calls lo @ cs\<rparr>"

definition display_handshake_error :: "HandshakeError \<Rightarrow> string" where
  "display_handshake_error e = (case e of
       EcdhFailed s \<Rightarrow> ''ECDH '' @ utf8 [0xE9, 0x87, 0x91, 0xE9, 0x91, 0xB0, 0xE8, 0xA8, 0x88, 0xE7, 0xAE, 0x97, 0xE5, 0xA4, 0xB1, 0xE6, 0x95, 0x97, 0xEF, 0xBC, 0x9A] @ s
     | HandshakeError.DecryptionFailed \<Rightarrow> ''AES-GCM '' @ utf8 [0xE8, 0xA7, 0xA3, 0xE5, 0xAF, 0x86, 0xE5, 0xA4, 0xB1, 0xE6, 0x95, 0x97, 0xEF, 0xBC, 0x88] @ ''Server '' @ utf8 [0xE5, 0x9B, 0x9E, 0xE6, 0x87, 0x89, 0xE8, 0xA2, 0xAB, 0xE7, 0xAB, 0x84, 0xE6, 0x94, 0xB9, 0xEF, 0xBC, 0x89]
     | HandshakeError.DeserializationFailed \<Rightarrow> utf8 [0xE5, 0x8F, 0x8D, 0xE5, 0xBA, 0x8F, 0xE5, 0x88, 0x97, 0xE5, 0x8C, 0x96, 0xE5, 0xA4, 0xB1, 0xE6, 0x95, 0x97]
     | AlreadyCompleted \<Rightarrow> utf8 [0xE6, 0x8F, 0xA1, 0xE6, 0x89, 0x8B, 0xE5, 0xB7, 0xB2, 0xE5, 0xAE, 0x8C, 0xE6, 0x88, 0x90, 0xEF, 0xBC, 0x8C, 0xE4, 0xB8, 0x8D, 0xE5, 0x8F, 0xAF, 0xE9, 0x87, 0x8D, 0xE8, 0xA4, 0x87, 0xE5, 0x9F, 0xB7, 0xE8, 0xA1, 0x8C]
     | InvalidParameterLength field expected got \<Rightarrow>
         field @ '' '' @ utf8 [0xE9, 0x95, 0xB7, 0xE5, 0xBA, 0xA6, 0xE4, 0xB8, 0x8D, 0xE5, 0x90, 0x88, 0xE8, 0xA6, 0x8F, 0xEF, 0xBC, 0x9A, 0xE9, 0xA0, 0x90, 0xE6, 0x9C, 0x9F] @ '' '' @ decimal expected @ '' bytes'' @ utf8 [0xEF, 0xBC, 0x8C, 0xE5, 0xAF, 0xA6, 0xE9, 0x9A, 0x9B] @ '' '' @ decimal got @ '' bytes''
     | InvalidPayloadLength declared available \<Rightarrow>
         ''wire format payload '' @ utf8 [0xE9, 0x95, 0xB7, 0xE5, 0xBA, 0xA6, 0xE4, 0xB8, 0x8D, 0xE5, 0x90, 0x88, 0xE6, 0xB3, 0x95, 0xEF, 0xBC, 0x9A, 0xE5, 0xAE, 0xA3, 0xE5, 0x91, 0x8A] @ '' '' @ decimal declared @ '' bytes'' @ utf8 [0xEF, 0xBC, 0x8C, 0xE5, 0xAF, 0xA6, 0xE9, 0x9A, 0x9B, 0xE5, 0x8F, 0xAF, 0xE7, 0x94, 0xA8] @ '' '' @ decimal available @ '' bytes''
     | NotCompleted \<Rightarrow> utf8 [0xE6, 0x8F, 0xA1, 0xE6, 0x89, 0x8B, 0xE5, 0xB0, 0x9A, 0xE6, 0x9C, 0xAA, 0xE5, 0xAE, 0x8C, 0xE6, 0x88, 0x90, 0xEF, 0xBC, 0x8C, 0xE7, 0x84, 0xA1, 0xE6, 0xB3, 0x95, 0xE5, 0x8A, 0xA0, 0xE8, 0xA7, 0xA3, 0xE5, 0xAF, 0x86])"

definition display_codec_error :: "('e \<Rightarrow> string) \<Rightarrow> 'e CodecError \<Rightarrow> string" where
  "display_codec_error shw e = (case e of
       InsufficientData \<Rightarrow> utf8 [0xE8, 0xB3, 0x87, 0xE6, 0x96, 0x99, 0xE4, 0xB8, 0x8D, 0xE8, 0xB6, 0xB3, 0xEF, 0xBC, 0x8C, 0xE7, 0x84, 0xA1, 0xE6, 0xB3, 0x95, 0xE8, 0xA7, 0xA3, 0xE7, 0xA2, 0xBC]
     | MessageTooLarge sz mx \<Rightarrow>
         utf8 [0xE8, 0xA8, 0x8A, 0xE6, 0x81, 0xAF, 0xE9, 0x81, 0x8E, 0xE5, 0xA4, 0xA7, 0xEF, 0xBC, 0x88] @ decimal (unat sz) @ '' bytes'' @ utf8 [0xEF, 0xBC, 0x8C, 0xE4, 0xB8, 0x8A, 0xE9, 0x99, 0x90] @ '' '' @ decimal (unat mx) @ '' bytes'' @ utf8 [0xEF, 0xBC, 0x89]
     | Serialize e \<Rightarrow> utf8 [0xE5, 0xBA, 0x8F, 0xE5, 0x88, 0x97, 0xE5, 0x8C, 0x96, 0xE9, 0x8C, 0xAF, 0xE8, 0xAA, 0xA4] @ '': '' @ shw e
     | Deserialize e \<Rightarrow> utf8 [0xE5, 0x8F, 0x8D, 0xE5, 0xBA, 0x8F, 0xE5, 0x88, 0x97, 0xE5, 0x8C, 0x96, 0xE9, 0x8C, 0xAF, 0xE8, 0xAA, 0xA4] @ '': '' @ shw e)"

text \<open>The texts of the serialiser's own errors are left out of the messages.\<close>

definition wasm_init :: "session_env \<Rightarrow> bytes \<Rightarrow> loader \<Rightarrow> bytes \<times> loader" where
  "wasm_init E secret lo =
     (let (public_key, st) = handshake_begin E secret (lo_inner lo) in (public_key, lo\<lparr>lo_inner := st\<rparr>))"

definition wasm_on_websocket_message :: "session_env \<Rightarrow> bytes \<Rightarrow> loader \<Rightarrow> loader" where
  "wasm_on_websocket_message E data lo =
     (if \<not> is_completed (lo_inner lo)
      then case handshake_complete E data (lo_inner lo) of
             (Inr _, st) \<Rightarrow> js_calls [JsCancelHandshakeTimeout, JsStartGameLoop] (lo\<lparr>lo_inner := st\<rparr>)
           | (Inl e, st) \<Rightarrow> js_calls [JsShowError (display_handshake_error e)] (lo\<lparr>lo_inner := st\<rparr>)
      else lo\<lparr>lo_inner := snd (decrypt_incoming E data (lo_inner lo))\<rparr>)"

definition wasm_on_handshake_timeout :: "session_env \<Rightarrow> bytes \<Rightarrow> loader \<Rightarrow> loader" where
  "wasm_on_handshake_timeout E secret lo = (case on_timeout E secret (lo_inner lo) of
       (RetryHandshake, st) \<Rightarrow> js_calls [JsRetryHandshake] (lo\<lparr>lo_inner := st\<rparr>)
     | (ShowError, st) \<Rightarrow> js_calls [JsShowError (utf8 [0xE7, 0x84, 0xA1, 0xE6, 0xB3, 0x95, 0xE5, 0xBB, 0xBA, 0xE7, 0xAB, 0x8B, 0xE5, 0xAE, 0x89, 0xE5, 0x85, 0xA8, 0xE9, 0x80, 0xA3, 0xE7, 0xB7, 0x9A, 0xEF, 0xBC, 0x8C, 0xE8, 0xAB, 0x8B, 0xE9, 0x87, 0x8D, 0xE6, 0x96, 0xB0, 0xE6, 0x95, 0xB4, 0xE7, 0x90, 0x86, 0xE9, 0xA0, 0x81, 0xE9, 0x9D, 0xA2])] (lo\<lparr>lo_inner := st\<rparr>))"

definition wasm_start_game :: "loader \<Rightarrow> loader" where
  "wasm_start_game lo =
     (if lo_game_started lo then lo
      else js_calls [StartWelcomeApp ''#game-canvas''] (lo\<lparr>lo_game_started := True\<rparr>))"

definition encode_client_hello_inner :: "session_env \<Rightarrow> bytes \<Rightarrow> string + bytes" where
  "encode_client_hello_inner E public_key =
     (if length public_key \<noteq> 32
      then Inl (''ClientHello '' @ utf8 [0xE5, 0x85, 0xAC, 0xE9, 0x91, 0xB0, 0xE9, 0x95, 0xB7, 0xE5, 0xBA, 0xA6, 0xE9, 0x8C, 0xAF, 0xE8, 0xAA, 0xA4, 0xEF, 0xBC, 0x9A, 0xE9, 0xA0, 0x90, 0xE6, 0x9C, 0x9F] @ '' 32 bytes'' @ utf8 [0xEF, 0xBC, 0x8C, 0xE5, 0xAF, 0xA6, 0xE9, 0x9A, 0x9B] @ '' '' @ decimal (length public_key) @ '' bytes'')
      else map_inl (\<lambda>e. ''ClientHello '' @ utf8 [0xE7, 0xB7, 0xA8, 0xE7, 0xA2, 0xBC, 0xE5, 0xA4, 0xB1, 0xE6, 0x95, 0x97, 0xEF, 0xBC, 0x9A] @ display_codec_error (\<lambda>_. []) e)
             (encode (ser_result E) (ClientHello public_key)))"

definition wasm_send_message :: "session_env \<Rightarrow> bytes \<Rightarrow> bytes \<Rightarrow> loader \<Rightarrow> panic + ((string + unit) \<times> loader)" where
  "wasm_send_message E nonce msg_bytes lo = (case sn_de E msg_bytes of
       None \<Rightarrow> Inr (Inl (utf8 [0xE8, 0xA8, 0x8A, 0xE6, 0x81, 0xAF, 0xE5, 0x8F, 0x8D, 0xE5, 0xBA, 0x8F, 0xE5, 0x88, 0x97, 0xE5, 0x8C, 0x96, 0xE5, 0xA4, 0xB1, 0xE6, 0x95, 0x97, 0xEF, 0xBC, 0x9A]), lo)
     | Some msg \<Rightarrow> (case encrypt_outgoing E nonce msg (lo_inner lo) of
         Inl p \<Rightarrow> Inl p
       | Inr (Inl e, st) \<Rightarrow> Inr (Inl (utf8 [0xE8, 0xA8, 0x8A, 0xE6, 0x81, 0xAF, 0xE5, 0x8A, 0xA0, 0xE5, 0xAF, 0x86, 0xE5, 0xA4, 0xB1, 0xE6, 0x95, 0x97, 0xEF, 0xBC, 0x9A] @ display_handshake_error e), lo\<lparr>lo_inner := st\<rparr>)
       | Inr (Inr frame, st) \<Rightarrow> Inr (Inr (), js_calls [JsSendWebsocket frame] (lo\<lparr>lo_inner := st\<rparr>))))"

section \<open>Single player, crash snapshots, versions\<close>

datatype SinglePlayerInitError = AlreadyInitialized

record SinglePlayerState =
  sp_sim :: AuthoritativeSimulation
  sp_local_player_id :: EntityId

definition single_player_snapshot :: GameSnapshot where
  "single_player_snapshot =
     \<lparr>gs_tick = 0,
      gs_ecs_mirror = \<lparr>em_entities = [], em_local_player_id = EntityId 0, em_frame_number = 0,
        em_delta_time = SoftF32 0x3C888F86\<rparr>, \<comment> \<open>\<open>0.01667f32\<close>\<close>
      gs_rng_state = replicate 16 0\<rparr>"

definition init_single_player ::
  "SinglePlayerState option \<Rightarrow> (SinglePlayerInitError + unit) \<times> SinglePlayerState option" where
  "init_single_player s = (case s of
       Some sp \<Rightarrow> (Inl AlreadyInitialized, s)
     | None \<Rightarrow> (Inr (), Some \<lparr>sp_sim = auth_new 0 single_player_snapshot 0, sp_local_player_id = EntityId 1\<rparr>))"

definition single_player_tick ::
  "(bytes \<Rightarrow> Blake3Hash) \<Rightarrow> SinglePlayerState option \<Rightarrow> SinglePlayerState option" where
  "single_player_tick blake3 s = map_option (\<lambda>sp. sp\<lparr>sp_sim := snd (step_full blake3 [] (sp_sim sp))\<rparr>) s"

text \<open>The snapshot kept for a crash report: empty until a dump could be serialised.\<close>

definition crash_update :: "('dump \<Rightarrow> bytes option) \<Rightarrow> 'dump \<Rightarrow> bytes \<Rightarrow> bytes" where
  "crash_update ser dump snapshot = (case ser dump of Some b \<Rightarrow> b | None \<Rightarrow> snapshot)"

definition crash_get :: "bytes \<Rightarrow> bytes option" where
  "crash_get snapshot = (if snapshot = [] then None else Some snapshot)"

record MinimalCrashReport =
  mc_tick :: u64
  mc_error_message :: string

definition panic_hook :: "(MinimalCrashReport \<Rightarrow> bytes option) \<Rightarrow> string \<Rightarrow> bytes \<Rightarrow> js_call list" where
  "panic_hook json error_message snapshot =
     (case crash_get snapshot of Some s \<Rightarrow> [JsSendWebsocket s] | None \<Rightarrow> [])
     @ (case json \<lparr>mc_tick = 0, mc_error_message = error_message\<rparr> of Some j \<Rightarrow> [JsSendWebsocket j] | None \<Rightarrow> [])"

record ClientVersion =
  cv_pkg_version :: string
  cv_build_hash :: string

datatype VersionResult = Compatible | IncompatibleReload
datatype VersionError = VersionNetworkError string | VersionProtocolError string

definition check_compatibility :: "ClientVersion \<Rightarrow> string \<Rightarrow> string \<Rightarrow> VersionError + VersionResult" where
  "check_compatibility local server_version server_build_hash =
     (if server_version = [] \<or> server_build_hash = []
      then Inl (VersionProtocolError (''Server '' @ utf8 [0xE7, 0x89, 0x88, 0xE6, 0x9C, 0xAC, 0xE8, 0xB3, 0x87, 0xE8, 0xA8, 0x8A, 0xE7, 0x82, 0xBA, 0xE7, 0xA9, 0xBA]))
      else if cv_pkg_version local = server_version \<and> cv_build_hash local = server_build_hash
      then Inr Compatible else Inr IncompatibleReload)"

section \<open>The order of startup\<close>

definition startup_step :: "StartupFailReason option \<Rightarrow> StartupProgress \<Rightarrow> StartupProgress" where
  "startup_step e p = (case e of None \<Rightarrow> snd (on_stage_complete p) | Some reason \<Rightarrow> p)"

definition stages :: "StartupStage list" where
  "stages = [JsLoader, WasmBootstrap, EcdhHandshake, BevyInit, AssetDecrypt, GameReady]"

definition stage_reports :: "(u8 \<times> string) list" where
  "stage_reports = map (\<lambda>s. (fst (progress_range s), stage_name s)) (tl stages) @ [(100, stage_name GameReady)]"

definition startup_at :: "nat \<Rightarrow> StartupProgress \<Rightarrow> bool" where
  "startup_at n p \<longleftrightarrow> su_current_stage p = stages ! min n 5 \<and> su_completed p = (6 \<le> n) \<and> su_reports p = take n stage_reports"

lemma startup_at_complete:
  assumes "startup_at n p"
  shows "startup_at (Suc n) (snd (on_stage_complete p))"
proof (cases "n \<ge> 6")
  case True
  with assms show ?thesis by (simp add: startup_at_def on_stage_complete_def stage_reports_def stages_def)
next
  case False
  then have "n = 0 \<or> n = 1 \<or> n = 2 \<or> n = 3 \<or> n = 4 \<or> n = 5" by auto
  with assms show ?thesis
    by (elim disjE)
      (simp_all add: startup_at_def on_stage_complete_def stage_reports_def stages_def next_stage_def progress_range_def
        numeral_eq_Suc)
qed

text \<open>Startup advances by completions alone. After any sequence of completed and failed stages of which n
  completed, the client is in stage n, has finished exactly when n is at least six, and has reported exactly
  the first n of the six percentages 10, 30, 45, 60, 90 and 100, in this order.\<close>

lemma startup_exact:
  "let n = length (filter (\<lambda>e. e = None) es); p = fold startup_step es startup_new in
    su_current_stage p = stages ! min n 5 \<and> su_completed p = (6 \<le> n) \<and> su_reports p = take n stage_reports
    \<and> map (unat \<circ> fst) stage_reports = [10, 30, 45, 60, 90, 100]"
proof -
  have "startup_at (m + length (filter (\<lambda>e. e = None) es)) (fold startup_step es p)" if "startup_at m p" for m p
    using that
  proof (induction es arbitrary: m p)
    case (Cons e es)
    show ?case
    proof (cases e)
      case None
      with Cons.IH [OF startup_at_complete [OF Cons.prems]] show ?thesis by (simp add: startup_step_def)
    next
      case (Some r)
      with Cons.IH [OF Cons.prems] show ?thesis by (simp add: startup_step_def)
    qed
  qed simp
  from this [of 0 startup_new] show ?thesis
    by (simp add: startup_at_def startup_new_def Let_def) (simp add: stage_reports_def stages_def progress_range_def)
qed

section \<open>What the loader does with a session\<close>

datatype loader_event =
    EvInit bytes
  | EvMessage bytes
  | EvTimeout bytes
  | EvStartGame
  | EvSend bytes bytes

definition loader_step :: "session_env \<Rightarrow> loader_event \<Rightarrow> loader \<Rightarrow> panic + loader" where
  "loader_step E ev lo = (case ev of
       EvInit secret \<Rightarrow> Inr (snd (wasm_init E secret lo))
     | EvMessage data \<Rightarrow> Inr (wasm_on_websocket_message E data lo)
     | EvTimeout secret \<Rightarrow> Inr (wasm_on_handshake_timeout E secret lo)
     | EvStartGame \<Rightarrow> Inr (wasm_start_game lo)
     | EvSend nonce msg \<Rightarrow> map_sum id snd (wasm_send_message E nonce msg lo))"

primrec loader_run :: "session_env \<Rightarrow> loader_event list \<Rightarrow> loader \<Rightarrow> panic + loader" where
  "loader_run E [] lo = Inr lo"
| "loader_run E (e # es) lo = bind_sum (loader_step E e lo) (loader_run E es)"

fun is_frame :: "js_call \<Rightarrow> bool" where
  "is_frame (JsSendWebsocket _) = True"
| "is_frame _ = False"

fun starts_app :: "js_call \<Rightarrow> bool" where
  "starts_app (StartWelcomeApp _) = True"
| "starts_app _ = False"

definition frames_after_start :: "js_call list \<Rightarrow> bool" where
  "frames_after_start cs \<longleftrightarrow> (\<forall>i < length cs. is_frame (cs ! i) \<longrightarrow> JsStartGameLoop \<in> set (take i cs))"

definition loader_ok :: "loader \<Rightarrow> bool" where
  "loader_ok lo \<longleftrightarrow> (is_completed (lo_inner lo) \<longleftrightarrow> is_session_key (lo_inner lo) \<noteq> None)
     \<and> (is_completed (lo_inner lo) \<longrightarrow> JsStartGameLoop \<in> set (lo_calls lo))
     \<and> length (filter starts_app (lo_calls lo)) = (if lo_game_started lo then 1 else 0)
     \<and> frames_after_start (lo_calls lo)"

lemma frames_after_start_append:
  "frames_after_start (cs @ [c]) \<longleftrightarrow> frames_after_start cs \<and> (is_frame c \<longrightarrow> JsStartGameLoop \<in> set cs)"
  unfolding frames_after_start_def by (fastforce simp: nth_append less_Suc_eq)

lemma begin_session: "is_completed (snd (handshake_begin E a st)) = False" "is_session_key (snd (handshake_begin E a st)) = None"
  by (simp_all add: handshake_begin_def Let_def)

lemma timeout_session:
  assumes "on_timeout E secret st = (a, st')"
  shows "case a of RetryHandshake \<Rightarrow> \<not> is_completed st' \<and> is_session_key st' = None
    | ShowError \<Rightarrow> is_completed st' = is_completed st \<and> is_session_key st' = is_session_key st"
proof (cases "is_retry_count st < 1")
  case True
  with assms have "a = RetryHandshake" "st' = snd (handshake_begin E secret (st\<lparr>is_retry_count := is_retry_count st + 1\<rparr>))"
    by (simp_all add: on_timeout_def Let_def)
  then show ?thesis by (simp add: begin_session)
next
  case False
  with assms have "a = ShowError" "st' = st\<lparr>is_retry_count := is_retry_count st + 1\<rparr>"
    by (simp_all add: on_timeout_def Let_def)
  then show ?thesis by simp
qed

lemma complete_session:
  assumes "handshake_complete E data st = (r, st')" "\<not> is_completed st" "is_session_key st = None"
  shows "case r of Inr key \<Rightarrow> is_completed st' \<and> is_session_key st' = Some key
    | Inl _ \<Rightarrow> \<not> is_completed st' \<and> is_session_key st' = None"
  using assms by (auto simp: handshake_complete_def Let_def split: sum.splits option.splits if_splits prod.splits)

lemma decrypt_session:
  "is_completed (snd (decrypt_incoming E data st)) = is_completed st" "is_session_key (snd (decrypt_incoming E data st)) = is_session_key st"
  by (auto simp: decrypt_incoming_def Let_def split: option.splits sum.splits FrameError.splits)

lemma encrypt_session:
  assumes "encrypt_outgoing E nonce m st = Inr (r, st')"
  shows "is_completed st' = is_completed st" "is_session_key st' = is_session_key st" "r = Inr f \<Longrightarrow> is_session_key st \<noteq> None"
  using assms by (auto simp: encrypt_outgoing_def split: option.splits sum.splits)

lemma loader_ok_step:
  assumes "loader_ok lo" "loader_step E ev lo = Inr lo'"
  shows "loader_ok lo'"
proof (cases ev)
  case (EvInit secret)
  with assms show ?thesis by (auto simp: loader_ok_def loader_step_def wasm_init_def begin_session split_beta)
next
  case (EvMessage data)
  show ?thesis
  proof (cases "is_completed (lo_inner lo)")
    case True
    with EvMessage assms show ?thesis by (auto simp: loader_ok_def loader_step_def wasm_on_websocket_message_def decrypt_session)
  next
    case False
    obtain r st where hc: "handshake_complete E data (lo_inner lo) = (r, st)" by force
    from complete_session [OF hc False] False assms(1)
    have s: "case r of Inr key \<Rightarrow> is_completed st \<and> is_session_key st = Some key | Inl _ \<Rightarrow> \<not> is_completed st \<and> is_session_key st = None"
      by (simp add: loader_ok_def)
    have lo': "lo' = js_calls (case r of Inr _ \<Rightarrow> [JsCancelHandshakeTimeout, JsStartGameLoop]
        | Inl e \<Rightarrow> [JsShowError (display_handshake_error e)]) (lo\<lparr>lo_inner := st\<rparr>)"
      using assms(2) EvMessage False hc by (auto simp: loader_step_def wasm_on_websocket_message_def split: sum.splits)
    have "frames_after_start (cs @ [JsCancelHandshakeTimeout, JsStartGameLoop]) \<longleftrightarrow> frames_after_start cs" for cs
      using frames_after_start_append [of "cs @ [JsCancelHandshakeTimeout]" JsStartGameLoop]
        frames_after_start_append [of cs JsCancelHandshakeTimeout] by simp
    with s assms(1) show ?thesis
      by (cases r) (auto simp: lo' loader_ok_def js_calls_def frames_after_start_append)
  qed
next
  case (EvTimeout secret)
  obtain a st where t: "on_timeout E secret (lo_inner lo) = (a, st)" by force
  from timeout_session [OF t] EvTimeout assms t show ?thesis
    by (cases a) (auto simp: loader_ok_def loader_step_def wasm_on_handshake_timeout_def js_calls_def frames_after_start_append)
next
  case EvStartGame
  with assms show ?thesis
    by (auto simp: loader_ok_def loader_step_def wasm_start_game_def js_calls_def frames_after_start_append split: if_splits)
next
  case (EvSend nonce msg)
  show ?thesis
  proof (cases "sn_de E msg")
    case None
    with EvSend assms show ?thesis by (auto simp: loader_step_def wasm_send_message_def)
  next
    case (Some m)
    obtain r st where en: "encrypt_outgoing E nonce m (lo_inner lo) = Inr (r, st)"
      using assms(2) EvSend Some by (auto simp: loader_step_def wasm_send_message_def split: sum.splits prod.splits)
    from encrypt_session [OF en] assms EvSend Some en show ?thesis
      by (auto simp: loader_ok_def loader_step_def wasm_send_message_def js_calls_def frames_after_start_append split: sum.splits)
  qed
qed

lemma loader_ok_run: "loader_ok lo \<Longrightarrow> loader_run E es lo = Inr lo' \<Longrightarrow> loader_ok lo'"
  by (induction es arbitrary: lo) (auto simp: bind_sum_def dest: loader_ok_step split: sum.splits)

interpretation loader: event_machine "\<lambda>(E, ev) s. bind_sum s (loader_step E ev)" "\<lambda>s. case s of Inl _ \<Rightarrow> True | Inr lo \<Rightarrow> loader_ok lo"
  by unfold_locales (auto simp: bind_sum_def dest: loader_ok_step split: sum.splits)

text \<open>C38: Whatever the browser calls, and whatever it hands over as messages of the server, the client has a
  session key exactly while its handshake is completed, starts the game at most once, and sends no frame
  before a completed handshake has started the game loop.\<close>

theorem loader_safe:
  assumes "loader_run E es loader_new = Inr lo"
  shows "(is_completed (lo_inner lo) \<longleftrightarrow> is_session_key (lo_inner lo) \<noteq> None)
    \<and> length (filter starts_app (lo_calls lo)) \<le> 1
    \<and> (\<forall>cs f ds. lo_calls lo = cs @ JsSendWebsocket f # ds \<longrightarrow> JsStartGameLoop \<in> set cs)"
proof -
  have "loader_ok loader_new"
    by (simp add: loader_ok_def loader_new_def client_state_def frames_after_start_def)
  then have ok: "loader_ok lo" using loader_ok_run assms by blast
  then have after: "\<forall>i < length (lo_calls lo). is_frame (lo_calls lo ! i) \<longrightarrow> JsStartGameLoop \<in> set (take i (lo_calls lo))"
    by (simp add: loader_ok_def frames_after_start_def)
  have "JsStartGameLoop \<in> set cs" if "lo_calls lo = cs @ JsSendWebsocket f # ds" for cs f ds
    using after [rule_format, of "length cs"] by (simp add: that)
  with ok show ?thesis by (auto simp: loader_ok_def)
qed

theorem loader_safe_witness:
  "\<exists>lo. loader_run toy_session [EvInit [1], EvSend [] [2], EvTimeout [3], EvTimeout [4], EvStartGame, EvStartGame] loader_new = Inr lo
     \<and> \<not> is_completed (lo_inner lo) \<and> is_session_key (lo_inner lo) = None \<and> length (filter starts_app (lo_calls lo)) \<le> 1"
proof -
  let ?es = "[EvInit [1], EvSend [] [2], EvTimeout [3], EvTimeout [4], EvStartGame, EvStartGame]"
  obtain lo where lo: "loader_run toy_session ?es loader_new = Inr lo" "\<not> is_completed (lo_inner lo)"
    by (simp add: loader_new_def client_state_def loader_step_def wasm_init_def handshake_begin_def wasm_send_message_def
        wasm_on_handshake_timeout_def on_timeout_def wasm_start_game_def encrypt_outgoing_def js_calls_def toy_session_def
        toy_de_def bind_sum_def Let_def)
  with loader_safe [OF lo(1)] show ?thesis by (intro exI [of _ lo]) simp
qed

text \<open>Between handshakes, what is sent are the frames of the messages, under one key and with consecutive numbers.\<close>

primrec sent_messages :: "session_env \<Rightarrow> loader_event list \<Rightarrow> (bytes \<times> NetMessage) list" where
  "sent_messages E [] = []"
| "sent_messages E (e # es) = (case e of
       EvSend nonce b \<Rightarrow> (case sn_de E b of Some m \<Rightarrow> [(nonce, m)] | None \<Rightarrow> [])
     | _ \<Rightarrow> []) @ sent_messages E es"

fun frames_of :: "js_call list \<Rightarrow> bytes list" where
  "frames_of [] = []"
| "frames_of (JsSendWebsocket f # cs) = f # frames_of cs"
| "frames_of (_ # cs) = frames_of cs"

definition is_restart :: "loader_event \<Rightarrow> bool" where
  "is_restart e = (case e of EvInit _ \<Rightarrow> True | EvTimeout _ \<Rightarrow> True | _ \<Rightarrow> False)"

lemma frames_of_append [simp]: "frames_of (cs @ ds) = frames_of cs @ frames_of ds"
  by (induction cs rule: frames_of.induct) simp_all

lemma decrypt_keeps_send: "is_send_seq (snd (decrypt_incoming E data st)) = is_send_seq st"
  by (auto simp: decrypt_incoming_def Let_def split: option.splits sum.splits FrameError.splits)

lemma session_step:
  assumes "loader_step E e lo = Inr lo'" "is_session_key (lo_inner lo) = Some k" "is_completed (lo_inner lo)" "\<not> is_restart e"
  shows "is_session_key (lo_inner lo') = Some k \<and> is_completed (lo_inner lo') \<and> (case sent_messages E [e] of
      [] \<Rightarrow> is_send_seq (lo_inner lo') = is_send_seq (lo_inner lo) \<and> frames_of (lo_calls lo') = frames_of (lo_calls lo)
    | (n, m) # _ \<Rightarrow> is_send_seq (lo_inner lo') = is_send_seq (lo_inner lo) + 1
        \<and> (\<exists>f. frames_of (lo_calls lo') = frames_of (lo_calls lo) @ [f]
             \<and> encrypt_frame_aad (kx_aead (sn_kx E)) n (sn_ser E m) k (is_send_seq (lo_inner lo)) = Inr f))"
  using assms
  by (cases e) (auto simp: loader_step_def is_restart_def wasm_on_websocket_message_def decrypt_session decrypt_keeps_send
      wasm_start_game_def js_calls_def wasm_send_message_def encrypt_outgoing_def
      split: option.splits sum.splits if_splits)

lemma session_frames_sealed:
  assumes "loader_run E es lo = Inr lo'" "is_session_key (lo_inner lo) = Some k" "is_completed (lo_inner lo)"
    and "\<forall>e \<in> set es. \<not> is_restart e"
  shows "\<exists>fs. frames_of (lo_calls lo') = frames_of (lo_calls lo) @ fs
    \<and> sealed_from E k (is_send_seq (lo_inner lo)) (sent_messages E es) fs"
  using assms
proof (induction es arbitrary: lo)
  case (Cons e es)
  obtain l1 where l1: "loader_step E e lo = Inr l1" "loader_run E es l1 = Inr lo'"
    using Cons.prems(1) by (auto simp: bind_sum_def split: sum.splits)
  note st = session_step [OF l1(1) Cons.prems(2,3)]
  from Cons.prems(4) st have key: "is_session_key (lo_inner l1) = Some k" "is_completed (lo_inner l1)" by auto
  obtain fs where fs: "frames_of (lo_calls lo') = frames_of (lo_calls l1) @ fs"
    "sealed_from E k (is_send_seq (lo_inner l1)) (sent_messages E es) fs"
    using Cons.IH [OF l1(2) key] Cons.prems(4) by auto
  have parts: "sent_messages E (e # es) = sent_messages E [e] @ sent_messages E es" by simp
  show ?case
  proof (cases "sent_messages E [e]")
    case Nil
    with st fs Cons.prems(4) show ?thesis unfolding parts by auto
  next
    case (Cons x xs)
    then have "xs = []" by (auto split: loader_event.splits option.splits)
    obtain n m where "x = (n, m)" by force
    with st \<open>sent_messages E [e] = x # xs\<close> Cons.prems(4) obtain f where
      "is_send_seq (lo_inner l1) = is_send_seq (lo_inner lo) + 1" "frames_of (lo_calls l1) = frames_of (lo_calls lo) @ [f]"
      "encrypt_frame_aad (kx_aead (sn_kx E)) n (sn_ser E m) k (is_send_seq (lo_inner lo)) = Inr f" by auto
    with fs show ?thesis
      unfolding parts Cons \<open>xs = []\<close> \<open>x = (n, m)\<close> by (intro exI [of _ "f # fs"]) simp
  qed
qed simp

text \<open>A retried handshake on the connection of the first: if the gateway had answered the first hello, the second
  is read as a frame of the session it established, fails to open, and ends the connection.\<close>

lemma retry_ends_connection:
  assumes "ws_phase c = Established key g" "decrypt_frame_aad (kx_aead (sn_kx E)) hello key (gc_recv_seq g) = Inl e"
    and "ws_step E W n (WsBinary hello) c r = (c', r')"
  shows "ws_phase c' = Finished" "ws_sent c' = ws_sent c" "r' = client_unregister CONN_SESSION_ID r"
  using assms by (auto simp: ws_step_def ws_established_def gateway_message_def)

text \<open>A single player game never rejects a tick: the tick counter counts them.\<close>

lemma single_player_counts:
  "single_player_tick h s = Some sp' \<Longrightarrow> \<exists>sp. s = Some sp \<and> au_current_tick (sp_sim sp') = au_current_tick (sp_sim sp) + 1"
  by (auto simp: single_player_tick_def step_full_def Let_def)

end
