(* ===== verification/Soft_Vec.thy ===== *)
theory Soft_Vec
  imports Bridge_Types
begin

text \<open>
  Vectors of software floats (\<^verbatim>\<open>engine/deterministic/src/soft_vec.rs\<close>). The operators of the source are named
  functions here; the arithmetic of a component is that of \<open>Deterministic\<close>.
\<close>

record SoftVec2 =
  v2_x :: SoftF32
  v2_y :: SoftF32

definition v2_new :: "SoftF32 \<Rightarrow> SoftF32 \<Rightarrow> SoftVec2" where
  "v2_new x y = \<lparr>v2_x = x, v2_y = y\<rparr>"

definition v2_zero :: SoftVec2 where
  "v2_zero = \<lparr>v2_x = sf_zero, v2_y = sf_zero\<rparr>"

definition v2_dot :: "softfloat_ops \<Rightarrow> SoftVec2 \<Rightarrow> SoftVec2 \<Rightarrow> SoftF32" where
  "v2_dot F a b = sf_add F (sf_mul F (v2_x a) (v2_x b)) (sf_mul F (v2_y a) (v2_y b))"

definition v2_length_squared :: "softfloat_ops \<Rightarrow> SoftVec2 \<Rightarrow> SoftF32" where
  "v2_length_squared F a = v2_dot F a a"

definition v2_length :: "softfloat_ops \<Rightarrow> SoftVec2 \<Rightarrow> SoftF32" where
  "v2_length F a = sf_sqrt F (v2_length_squared F a)"

definition v2_scale :: "softfloat_ops \<Rightarrow> SoftVec2 \<Rightarrow> SoftF32 \<Rightarrow> SoftVec2" where
  "v2_scale F a s = \<lparr>v2_x = sf_mul F (v2_x a) s, v2_y = sf_mul F (v2_y a) s\<rparr>"

definition v2_normalize :: "softfloat_ops \<Rightarrow> SoftVec2 \<Rightarrow> SoftVec2" where
  "v2_normalize F a =
     (let len = v2_length F a in if len = sf_zero then v2_zero else v2_scale F a (sf_div F sf_one len))"

definition v2_add :: "softfloat_ops \<Rightarrow> SoftVec2 \<Rightarrow> SoftVec2 \<Rightarrow> SoftVec2" where
  "v2_add F a b = \<lparr>v2_x = sf_add F (v2_x a) (v2_x b), v2_y = sf_add F (v2_y a) (v2_y b)\<rparr>"

definition v2_sub :: "softfloat_ops \<Rightarrow> SoftVec2 \<Rightarrow> SoftVec2 \<Rightarrow> SoftVec2" where
  "v2_sub F a b = \<lparr>v2_x = sf_sub F (v2_x a) (v2_x b), v2_y = sf_sub F (v2_y a) (v2_y b)\<rparr>"

definition v2_neg :: "SoftVec2 \<Rightarrow> SoftVec2" where
  "v2_neg a = \<lparr>v2_x = sf_neg (v2_x a), v2_y = sf_neg (v2_y a)\<rparr>"

definition v2_mul :: "softfloat_ops \<Rightarrow> SoftVec2 \<Rightarrow> SoftVec2 \<Rightarrow> SoftVec2" where
  "v2_mul F a b = \<lparr>v2_x = sf_mul F (v2_x a) (v2_x b), v2_y = sf_mul F (v2_y a) (v2_y b)\<rparr>"

definition v2_mul_scalar :: "softfloat_ops \<Rightarrow> SoftVec2 \<Rightarrow> SoftF32 \<Rightarrow> SoftVec2" where
  "v2_mul_scalar F a s = \<lparr>v2_x = sf_mul F (v2_x a) s, v2_y = sf_mul F (v2_y a) s\<rparr>"

definition v2_div :: "softfloat_ops \<Rightarrow> SoftVec2 \<Rightarrow> SoftVec2 \<Rightarrow> SoftVec2" where
  "v2_div F a b = \<lparr>v2_x = sf_div F (v2_x a) (v2_x b), v2_y = sf_div F (v2_y a) (v2_y b)\<rparr>"

definition v3_new :: "SoftF32 \<Rightarrow> SoftF32 \<Rightarrow> SoftF32 \<Rightarrow> SoftVec3" where
  "v3_new x y z = \<lparr>v3_x = x, v3_y = y, v3_z = z\<rparr>"

definition v3_dot :: "softfloat_ops \<Rightarrow> SoftVec3 \<Rightarrow> SoftVec3 \<Rightarrow> SoftF32" where
  "v3_dot F a b =
     sf_add F (sf_add F (sf_mul F (v3_x a) (v3_x b)) (sf_mul F (v3_y a) (v3_y b))) (sf_mul F (v3_z a) (v3_z b))"

definition v3_length_squared :: "softfloat_ops \<Rightarrow> SoftVec3 \<Rightarrow> SoftF32" where
  "v3_length_squared F a = v3_dot F a a"

definition v3_length :: "softfloat_ops \<Rightarrow> SoftVec3 \<Rightarrow> SoftF32" where
  "v3_length F a = sf_sqrt F (v3_length_squared F a)"

definition v3_map2 :: "(SoftF32 \<Rightarrow> SoftF32 \<Rightarrow> SoftF32) \<Rightarrow> SoftVec3 \<Rightarrow> SoftVec3 \<Rightarrow> SoftVec3" where
  "v3_map2 f a b = \<lparr>v3_x = f (v3_x a) (v3_x b), v3_y = f (v3_y a) (v3_y b), v3_z = f (v3_z a) (v3_z b)\<rparr>"

definition v3_scale :: "softfloat_ops \<Rightarrow> SoftVec3 \<Rightarrow> SoftF32 \<Rightarrow> SoftVec3" where
  "v3_scale F a s = \<lparr>v3_x = sf_mul F (v3_x a) s, v3_y = sf_mul F (v3_y a) s, v3_z = sf_mul F (v3_z a) s\<rparr>"

definition v3_normalize :: "softfloat_ops \<Rightarrow> SoftVec3 \<Rightarrow> SoftVec3" where
  "v3_normalize F a =
     (let len = v3_length F a in if len = sf_zero then vec3_zero else v3_scale F a (sf_div F sf_one len))"

definition v3_cross :: "softfloat_ops \<Rightarrow> SoftVec3 \<Rightarrow> SoftVec3 \<Rightarrow> SoftVec3" where
  "v3_cross F a b =
     \<lparr>v3_x = sf_sub F (sf_mul F (v3_y a) (v3_z b)) (sf_mul F (v3_z a) (v3_y b)),
      v3_y = sf_sub F (sf_mul F (v3_z a) (v3_x b)) (sf_mul F (v3_x a) (v3_z b)),
      v3_z = sf_sub F (sf_mul F (v3_x a) (v3_y b)) (sf_mul F (v3_y a) (v3_x b))\<rparr>"

definition v3_add :: "softfloat_ops \<Rightarrow> SoftVec3 \<Rightarrow> SoftVec3 \<Rightarrow> SoftVec3" where "v3_add F = v3_map2 (sf_add F)"
definition v3_sub :: "softfloat_ops \<Rightarrow> SoftVec3 \<Rightarrow> SoftVec3 \<Rightarrow> SoftVec3" where "v3_sub F = v3_map2 (sf_sub F)"
definition v3_mul :: "softfloat_ops \<Rightarrow> SoftVec3 \<Rightarrow> SoftVec3 \<Rightarrow> SoftVec3" where "v3_mul F = v3_map2 (sf_mul F)"
definition v3_div :: "softfloat_ops \<Rightarrow> SoftVec3 \<Rightarrow> SoftVec3 \<Rightarrow> SoftVec3" where "v3_div F = v3_map2 (sf_div F)"

definition v3_neg :: "SoftVec3 \<Rightarrow> SoftVec3" where
  "v3_neg a = \<lparr>v3_x = sf_neg (v3_x a), v3_y = sf_neg (v3_y a), v3_z = sf_neg (v3_z a)\<rparr>"

definition v3_mul_scalar :: "softfloat_ops \<Rightarrow> SoftVec3 \<Rightarrow> SoftF32 \<Rightarrow> SoftVec3" where
  "v3_mul_scalar F a s = \<lparr>v3_x = sf_mul F (v3_x a) s, v3_y = sf_mul F (v3_y a) s, v3_z = sf_mul F (v3_z a) s\<rparr>"

section \<open>What the operations keep of the laws of vectors\<close>

text \<open>Rounding leaves commutativity, the signs, and that a difference changes its sign with its operands, up to the
  sign of a zero.\<close>

lemma neg_neg [simp]: "v2_neg (v2_neg a) = a" "v3_neg (v3_neg b) = b"
  by (simp_all add: v2_neg_def v3_neg_def)

lemma scale_is_mul: "v2_mul_scalar F a s = v2_scale F a s" "v3_mul_scalar F b s = v3_scale F b s"
  by (simp_all add: v2_mul_scalar_def v2_scale_def v3_mul_scalar_def v3_scale_def)

lemma dot_commute:
  assumes "\<And>x y. f32_mul F x y = f32_mul F y x"
  shows "v2_dot F a b = v2_dot F b a" "v3_dot F c d = v3_dot F d c"
  by (simp_all add: v2_dot_def v3_dot_def sf_mul_def assms)

lemma cross_anticommutes:
  assumes "\<And>x y. f32_mul F x y = f32_mul F y x" "\<And>x y. sf_sub F x y \<noteq> sf_zero \<Longrightarrow> sf_sub F y x = sf_neg (sf_sub F x y)"
    and "v3_x (v3_cross F a b) \<noteq> sf_zero" "v3_y (v3_cross F a b) \<noteq> sf_zero" "v3_z (v3_cross F a b) \<noteq> sf_zero"
  shows "v3_cross F b a = v3_neg (v3_cross F a b)"
proof -
  have m: "sf_mul F x y = sf_mul F y x" for x y by (simp add: sf_mul_def assms(1))
  have s: "sf_sub F y x = sf_neg (sf_sub F x y)" if "sf_sub F x y \<noteq> sf_zero" for x y
    by (rule assms(2) [OF that])
  show ?thesis
    using s [OF assms(3) [unfolded v3_cross_def SoftVec3.select_convs]]
      s [OF assms(4) [unfolded v3_cross_def SoftVec3.select_convs]]
      s [OF assms(5) [unfolded v3_cross_def SoftVec3.select_convs]]
    by (simp add: v3_cross_def v3_neg_def m [of "v3_x b"] m [of "v3_y b"] m [of "v3_z b"])
qed

lemma normalize_zero_length:
  "v2_length F a = sf_zero \<Longrightarrow> v2_normalize F a = v2_zero" "v3_length F b = sf_zero \<Longrightarrow> v3_normalize F b = vec3_zero"
  by (simp_all add: v2_normalize_def v3_normalize_def)

end
