(* ===== verification/Interpolation.thy ===== *)
theory Interpolation
  imports Bridge_Flush
begin

text \<open>
  Interpolation between fixed ticks (\<^verbatim>\<open>engine/bevy_runtime/src/interpolation.rs\<close>) and the local event queue of
  \<^verbatim>\<open>frame_orchestrator.rs\<close>. Fixed ticks and rendered frames alternate freely; the interpolation of vectors and
  rotations is a parameter.
\<close>

section \<open>Rendering between ticks\<close>

record 'q lerp_ops =
  lp_lerp :: "vec3 \<Rightarrow> vec3 \<Rightarrow> f32 \<Rightarrow> vec3"
  lp_slerp :: "'q \<Rightarrow> 'q \<Rightarrow> f32 \<Rightarrow> 'q"

text \<open>An entity with its \<open>PreviousTransform\<close>, which has the fields of a transform.\<close>

record 'q moving =
  mv_transform :: "'q Transform"
  mv_previous :: "'q Transform"

definition save_previous_transform :: "'q moving \<Rightarrow> 'q moving" where
  "save_previous_transform e = e\<lparr>mv_previous :=
     \<lparr>tf_translation = tf_translation (mv_transform e), tf_rotation = tf_rotation (mv_transform e),
      tf_scale = tf_scale (mv_transform e)\<rparr>\<rparr>"

definition interpolate_rendering :: "'q lerp_ops \<Rightarrow> f32 \<Rightarrow> 'q moving \<Rightarrow> 'q moving" where
  "interpolate_rendering L alpha e =
     (let p = mv_previous e; t = mv_transform e
      in e\<lparr>mv_transform :=
        \<lparr>tf_translation = lp_lerp L (tf_translation p) (tf_translation t) alpha,
         tf_rotation = lp_slerp L (tf_rotation p) (tf_rotation t) alpha,
         tf_scale = lp_lerp L (tf_scale p) (tf_scale t) alpha\<rparr>\<rparr>)"

text \<open>A fixed tick saves the transform and then lets the game change it; a rendered frame interpolates.\<close>

datatype 'q loop_event = FixedTick "'q Transform \<Rightarrow> 'q Transform" | RenderFrame f32

definition fixed_tick :: "('q Transform \<Rightarrow> 'q Transform) \<Rightarrow> 'q moving \<Rightarrow> 'q moving" where
  "fixed_tick f e = (let e = save_previous_transform e in e\<lparr>mv_transform := f (mv_transform e)\<rparr>)"

definition loop_step :: "'q lerp_ops \<Rightarrow> 'q loop_event \<Rightarrow> 'q moving \<Rightarrow> 'q moving" where
  "loop_step L ev e = (case ev of FixedTick f \<Rightarrow> fixed_tick f e | RenderFrame alpha \<Rightarrow> interpolate_rendering L alpha e)"

definition simulated :: "'q loop_event list \<Rightarrow> 'q Transform \<Rightarrow> 'q Transform" where
  "simulated evs t = fold (\<lambda>ev t. case ev of FixedTick f \<Rightarrow> f t | RenderFrame _ \<Rightarrow> t) evs t"

text \<open>Without rendered frames the transforms are those of the simulation.\<close>

lemma ticks_simulate:
  "\<forall>ev \<in> set evs. \<exists>f. ev = FixedTick f \<Longrightarrow> mv_transform (fold (loop_step L) evs e) = simulated evs (mv_transform e)"
  by (induction evs arbitrary: e) (auto simp: simulated_def loop_step_def fixed_tick_def save_previous_transform_def Let_def)

text \<open>A rendered frame overwrites the transform the next tick starts from. An entity that a tick moves from 0 to 10 and
  that half a frame later is rendered at 5 stays at 5 when the next tick does not move it.\<close>

definition bits_lerp :: "unit lerp_ops" where
  "bits_lerp = \<lparr>lp_lerp = \<lambda>(a, b, c) (x, y, z) alpha. (drop_bit 1 (a + x), drop_bit 1 (b + y), drop_bit 1 (c + z)), lp_slerp = \<lambda>_ _ _. ()\<rparr>"

definition at_x :: "f32 \<Rightarrow> unit Transform" where
  "at_x x = \<lparr>tf_translation = (x, 0, 0), tf_rotation = (), tf_scale = (2, 2, 2)\<rparr>"

lemma rendering_changes_simulation:
  "tf_translation (mv_transform (fold (loop_step bits_lerp) [FixedTick (\<lambda>_. at_x 10), RenderFrame 1, FixedTick (\<lambda>t. t)]
      \<lparr>mv_transform = at_x 0, mv_previous = at_x 0\<rparr>)) = (5, 0, 0)"
  "tf_translation (simulated [FixedTick (\<lambda>_. at_x 10), RenderFrame 1, FixedTick (\<lambda>t. t)] (at_x 0)) = (10, 0, 0)"
  by (simp_all add: loop_step_def fixed_tick_def save_previous_transform_def interpolate_rendering_def bits_lerp_def at_x_def
      simulated_def Let_def drop_bit_eq_div)

text \<open>Even between two ticks the interpolation is applied to its own result: two frames in a row are drawn at the
  second interpolation of the first, not at the second fraction of the way.\<close>

lemma frames_compound:
  "mv_transform (fold (loop_step L) [RenderFrame a, RenderFrame b] e) =
     mv_transform (interpolate_rendering L b (e\<lparr>mv_transform := mv_transform (interpolate_rendering L a e)\<rparr>))"
  by (simp add: loop_step_def interpolate_rendering_def Let_def)

section \<open>The local event queue\<close>

definition LOCAL_QUEUE_CAPACITY :: nat where "LOCAL_QUEUE_CAPACITY = 4096"

record LocalBridgeEventQueue =
  lq_events :: "string list"
  lq_dropped :: nat

definition local_queue_new :: LocalBridgeEventQueue where
  "local_queue_new = \<lparr>lq_events = [], lq_dropped = 0\<rparr>"

definition local_queue_push :: "string \<Rightarrow> LocalBridgeEventQueue \<Rightarrow> LocalBridgeEventQueue" where
  "local_queue_push event q =
     (if length (lq_events q) \<ge> LOCAL_QUEUE_CAPACITY then q\<lparr>lq_dropped := lq_dropped q + 1\<rparr>
      else q\<lparr>lq_events := lq_events q @ [event]\<rparr>)"

definition local_queue_drain :: "LocalBridgeEventQueue \<Rightarrow> string list \<times> LocalBridgeEventQueue" where
  "local_queue_drain q = (lq_events q, \<lparr>lq_events = [], lq_dropped = 0\<rparr>)"

text \<open>The flush reads the number of lost events before it drains the queue.\<close>

definition bridge_event_flush_system :: "LocalBridgeEventQueue \<Rightarrow> nat \<times> string list \<times> LocalBridgeEventQueue" where
  "bridge_event_flush_system q = (let dropped = lq_dropped q; (events, q) = local_queue_drain q in (dropped, events, q))"

interpretation local_queue: refusing_queue lq_events lq_dropped LOCAL_QUEUE_CAPACITY local_queue_push
  by unfold_locales (simp_all add: local_queue_push_def)

lemma flushed_exactly:
  "bridge_event_flush_system (fold local_queue_push xs local_queue_new) =
     (length xs - LOCAL_QUEUE_CAPACITY, take LOCAL_QUEUE_CAPACITY xs, local_queue_new)"
  using local_queue.items_fold [of local_queue_new xs]
  by (simp add: bridge_event_flush_system_def local_queue_drain_def local_queue_new_def Let_def)

end
