(* ===== verification/Debug_Hash.thy ===== *)
theory Debug_Hash
  imports State_Hash
begin

text \<open>
  The debug form of the state hash (\<^verbatim>\<open>engine/netcode/src/debug_hash.rs\<close>): beside the total, a hash of
  the transforms, one of the entity states, one of the generator, one of the tick and one for each entity,
  and the comparison of two such reports that tells where two peers diverged. \<open>blake3\<close> is a parameter.
  The lemmas show that the stream of each part determines that part, so that the comparison is exact.
\<close>

record DebugStateHash =
  dh_total :: Blake3Hash
  dh_positions_hash :: Blake3Hash
  dh_states_hash :: Blake3Hash
  dh_rng_hash :: Blake3Hash
  dh_tick_hash :: Blake3Hash
  dh_per_entity_hash :: "(EntityId, Blake3Hash) btree"

record DebugHashDiff =
  dd_positions_mismatch :: bool
  dd_states_mismatch :: bool
  dd_rng_mismatch :: bool
  dd_tick_mismatch :: bool
  dd_mismatched_entities :: "EntityId list"

fun hash_deterministic_value_into :: "Hasher \<Rightarrow> DeterministicValue \<Rightarrow> Hasher" where
  "hash_deterministic_value_into h (DInt v) = (h @ [0]) @ le_bytes 8 v"
| "hash_deterministic_value_into h (DFloat v) = (h @ [1]) @ le_bytes 4 (to_bits v)"
| "hash_deterministic_value_into h (DBool v) = (h @ [2]) @ [if v then 1 else 0]"
| "hash_deterministic_value_into h DUnit = h @ [3]"
| "hash_deterministic_value_into h (DStr v) =
     ((h @ [4]) @ le_bytes 4 (of_nat (length v) :: u32)) @ as_bytes v"

text \<open>The streams of the three loops over the entities.\<close>

definition hash_position :: "Hasher \<Rightarrow> EntityId \<times> MirroredEntity \<Rightarrow> Hasher" where
  "hash_position h p = (case p of (eid, entity) \<Rightarrow>
     let h = h @ le_bytes 8 (eid_raw eid);
         h = hash_vec3 h (me_position entity);
         h = hash_vec3 h (me_rotation entity)
     in hash_vec3 h (me_scale entity))"

definition hash_animation_id :: "Hasher \<Rightarrow> u32 option \<Rightarrow> Hasher" where
  "hash_animation_id h a = (case a of None \<Rightarrow> h @ [0] | Some i \<Rightarrow> (h @ [1]) @ le_bytes 4 i)"

definition hash_custom :: "Hasher \<Rightarrow> (string, DeterministicValue) btree \<Rightarrow> Hasher" where
  "hash_custom h custom = foldl (\<lambda>h (key, v). hash_deterministic_value_into (h @ as_bytes key) v) h custom"

definition hash_state :: "Hasher \<Rightarrow> EntityId \<times> MirroredEntity \<Rightarrow> Hasher" where
  "hash_state h p = (case p of (eid, entity) \<Rightarrow>
     let h = h @ le_bytes 8 (eid_raw eid);
         h = h @ le_bytes 4 (es_raw (me_state entity));
         h = h @ le_bytes 8 (me_hp entity);
         h = h @ le_bytes 8 (me_max_hp entity);
         h = hash_animation_id h (me_animation_id entity)
     in hash_custom h (me_custom entity))"

definition hash_one_entity :: "EntityId \<Rightarrow> MirroredEntity \<Rightarrow> Hasher" where
  "hash_one_entity eid entity =
     (let h = le_bytes 8 (eid_raw eid);
          h = hash_vec3 h (me_position entity);
          h = hash_vec3 h (me_rotation entity);
          h = hash_vec3 h (me_scale entity);
          h = h @ le_bytes 8 (me_hp entity);
          h = h @ le_bytes 8 (me_max_hp entity);
          h = h @ le_bytes 4 (es_raw (me_state entity));
          h = hash_animation_id h (me_animation_id entity)
      in hash_custom h (me_custom entity))"

definition compute_debug_hash ::
  "(bytes \<Rightarrow> Blake3Hash) \<Rightarrow> (EntityId, MirroredEntity) btree \<Rightarrow> bytes \<Rightarrow> u64 \<Rightarrow> DebugStateHash" where
  "compute_debug_hash blake3 entities rng_state_bytes tick =
     \<lparr>dh_total = compute_state_hash blake3 entities rng_state_bytes tick,
      dh_positions_hash = blake3 (foldl hash_position [] entities),
      dh_states_hash = blake3 (foldl hash_state [] entities),
      dh_rng_hash = blake3 rng_state_bytes,
      dh_tick_hash = blake3 (le_bytes 8 tick),
      dh_per_entity_hash =
        foldl (\<lambda>m (eid, entity). bm_insert eid (blake3 (hash_one_entity eid entity)) m) [] entities\<rparr>"

definition local_mismatches ::
  "(EntityId, Blake3Hash) btree \<Rightarrow> (EntityId, Blake3Hash) btree \<Rightarrow> EntityId list" where
  "local_mismatches local remote =
     map fst (filter (\<lambda>(eid, local_hash). case bm_get remote eid of
         Some remote_hash \<Rightarrow> local_hash \<noteq> remote_hash
       | None \<Rightarrow> True) local)"

definition remote_only ::
  "(EntityId, Blake3Hash) btree \<Rightarrow> (EntityId, Blake3Hash) btree \<Rightarrow> EntityId list" where
  "remote_only local remote = filter (\<lambda>eid. bm_get local eid = None) (map fst remote)"

definition diff_debug_hashes :: "DebugStateHash \<Rightarrow> DebugStateHash \<Rightarrow> DebugHashDiff option" where
  "diff_debug_hashes local remote =
     (if dh_total local = dh_total remote then None
      else Some \<lparr>
        dd_positions_mismatch = (dh_positions_hash local \<noteq> dh_positions_hash remote),
        dd_states_mismatch = (dh_states_hash local \<noteq> dh_states_hash remote),
        dd_rng_mismatch = (dh_rng_hash local \<noteq> dh_rng_hash remote),
        dd_tick_mismatch = (dh_tick_hash local \<noteq> dh_tick_hash remote),
        dd_mismatched_entities =
          local_mismatches (dh_per_entity_hash local) (dh_per_entity_hash remote)
          @ remote_only (dh_per_entity_hash local) (dh_per_entity_hash remote)\<rparr>)"

section \<open>What each stream holds\<close>

text \<open>The copy of the value encoder in this file writes what the one of the state hash writes.\<close>

lemma hash_value_into_eq [simp]: "hash_deterministic_value_into = hash_deterministic_value"
proof (intro ext)
  show "hash_deterministic_value_into h v = hash_deterministic_value h v" for h v
    by (cases v) simp_all
qed

lemma hash_custom_append: "hash_custom h c = h @ custom_bytes c"
  unfolding hash_custom_def custom_bytes_def
  by (rule foldl_append_concat) (auto simp: hash_value_append)

lemma hash_animation_append: "hash_animation_id h a = h @ anim_bytes a"
  by (simp add: hash_animation_id_def anim_bytes_def split: option.split)

text \<open>Entity by entity, the debug hash covers the very bytes the state hash covers.\<close>

lemma hash_one_entity_eq: "hash_one_entity eid e = entities_bytes [(eid, e)]"
  by (simp add: hash_one_entity_def entities_bytes_def Let_def hash_vec3_append hash_custom_append
      hash_animation_append head_bytes_def)

definition position_bytes :: "EntityId \<times> MirroredEntity \<Rightarrow> bytes" where
  "position_bytes p = le_bytes 8 (eid_raw (fst p)) @ vec3_bytes (me_position (snd p))
     @ vec3_bytes (me_rotation (snd p)) @ vec3_bytes (me_scale (snd p))"

definition status_bytes :: "EntityId \<times> MirroredEntity \<Rightarrow> bytes" where
  "status_bytes p = le_bytes 8 (eid_raw (fst p)) @ le_bytes 4 (es_raw (me_state (snd p)))
     @ le_bytes 8 (me_hp (snd p)) @ le_bytes 8 (me_max_hp (snd p))
     @ anim_bytes (me_animation_id (snd p)) @ custom_bytes (me_custom (snd p))"

lemma positions_stream: "foldl hash_position [] es = concat (map position_bytes es)"
proof -
  have "hash_position h p = h @ position_bytes p" for h p
    by (cases p) (simp add: hash_position_def position_bytes_def Let_def hash_vec3_append)
  then show ?thesis by (simp add: foldl_append_concat [of hash_position position_bytes])
qed

lemma states_stream: "foldl hash_state [] es = concat (map status_bytes es)"
proof -
  have "hash_state h p = h @ status_bytes p" for h p
    by (cases p) (simp add: hash_state_def status_bytes_def Let_def hash_custom_append hash_animation_append)
  then show ?thesis by (simp add: foldl_append_concat [of hash_state status_bytes])
qed

text \<open>A list of self-delimiting encodings determines what each encoding determines.\<close>

lemma concat_enc_inj:
  assumes enc: "\<And>x y u v. P x \<Longrightarrow> P y \<Longrightarrow> enc x @ u = enc y @ v \<Longrightarrow> proj x = proj y \<and> u = v"
    and ne: "\<And>x. enc x \<noteq> []"
  shows "\<forall>x \<in> set xs. P x \<Longrightarrow> \<forall>y \<in> set ys. P y \<Longrightarrow> concat (map enc xs) = concat (map enc ys)
    \<Longrightarrow> map proj xs = map proj ys"
proof (induction xs arbitrary: ys)
  case Nil
  then show ?case using ne by (cases ys) auto
next
  case (Cons x xs)
  then obtain y zs where ys: "ys = y # zs" using ne by (cases ys) auto
  then have "proj x = proj y \<and> concat (map enc xs) = concat (map enc zs)"
    using Cons.prems by (intro enc) auto
  then show ?case using Cons ys by auto
qed

definition transform_of :: "EntityId \<times> MirroredEntity \<Rightarrow> EntityId \<times> SoftVec3 \<times> SoftVec3 \<times> SoftVec3" where
  "transform_of p = (fst p, me_position (snd p), me_rotation (snd p), me_scale (snd p))"

definition status_of ::
  "EntityId \<times> MirroredEntity \<Rightarrow> EntityId \<times> EntityState \<times> u64 \<times> u64 \<times> u32 option \<times> (string, DeterministicValue) btree" where
  "status_of p = (fst p, me_state (snd p), me_hp (snd p), me_max_hp (snd p), me_animation_id (snd p), me_custom (snd p))"

lemma positions_inj:
  assumes "foldl hash_position [] es = foldl hash_position [] fs"
  shows "map transform_of es = map transform_of fs"
  using assms unfolding positions_stream
  by (intro concat_enc_inj [where P = "\<lambda>_. True" and enc = position_bytes])
    (auto simp: position_bytes_def transform_of_def le_bytes_append_eq vec3_bytes_prefix EntityId.expand)

lemma states_inj:
  assumes "follows keys es" "follows keys fs" "foldl hash_state [] es = foldl hash_state [] fs"
  shows "map status_of es = map status_of fs"
proof -
  let ?P = "\<lambda>p. map fst (me_custom (snd p)) = keys (fst p) \<and> (\<forall>q \<in> set (me_custom (snd p)). value_ok (snd q))"
  have enc: "status_of x = status_of y \<and> u = v"
    if "?P x" "?P y" "status_bytes x @ u = status_bytes y @ v" for x y u v
  proof -
    have *: "fst x = fst y" "me_state (snd x) = me_state (snd y)" "me_hp (snd x) = me_hp (snd y)"
      "me_max_hp (snd x) = me_max_hp (snd y)" "me_animation_id (snd x) = me_animation_id (snd y)"
      "custom_bytes (me_custom (snd x)) @ u = custom_bytes (me_custom (snd y)) @ v"
      using that(3)
      by (auto simp: status_bytes_def le_bytes_append_eq anim_bytes_prefix EntityId.expand EntityState.expand)
    with that(1,2) have "me_custom (snd x) = me_custom (snd y) \<and> u = v"
      by (intro custom_bytes_prefix) auto
    with * show ?thesis by (simp add: status_of_def)
  qed
  have ne: "status_bytes x \<noteq> []" for x by (simp add: status_bytes_def)
  have "\<forall>x \<in> set es. ?P x" "\<forall>x \<in> set fs. ?P x"
    using assms(1,2) unfolding follows_def split_beta by blast+
  then show ?thesis
    using concat_enc_inj [where P = ?P and enc = status_bytes and proj = status_of, OF enc ne, of es fs] assms(3)
    unfolding states_stream by blast
qed

lemma one_entity_inj:
  assumes "follows keys es" "follows keys fs" "bm_get es i = Some e" "bm_get fs i = Some f"
    and "hash_one_entity i e = hash_one_entity i f"
  shows "e = f"
proof -
  have "follows keys [(i, e)]" "follows keys [(i, f)]"
    using assms(1-4) by (auto simp: follows_def dest!: map_of_SomeD)
  then have "[(i, e)] = [(i, f)]"
    using assms(5) unfolding hash_one_entity_eq by (rule entities_bytes_inj)
  then show ?thesis by simp
qed

text \<open>The streams write nothing beside these projections.\<close>

lemma position_bytes_same: "transform_of p = transform_of q \<Longrightarrow> position_bytes p = position_bytes q"
  by (simp add: transform_of_def position_bytes_def)

lemma status_bytes_same: "status_of p = status_of q \<Longrightarrow> status_bytes p = status_bytes q"
  by (simp add: status_of_def status_bytes_def)

lemma map_factors: "(\<And>x y. proj x = proj y \<Longrightarrow> enc x = enc y) \<Longrightarrow> map proj xs = map proj ys \<Longrightarrow> map enc xs = map enc ys"
proof (induction xs arbitrary: ys)
  case (Cons x xs)
  from Cons.prems(2) obtain y zs where "ys = y # zs" "proj x = proj y" "map proj xs = map proj zs"
    by (cases ys) auto
  with Cons.IH [OF Cons.prems(1), of zs] Cons.prems(1) [of x y] show ?case by simp
qed simp

lemma positions_stream_iff:
  "foldl hash_position [] es = foldl hash_position [] fs \<longleftrightarrow> map transform_of es = map transform_of fs"
  using positions_inj [of es fs] map_factors [of transform_of position_bytes es fs, OF position_bytes_same]
  by (auto simp: positions_stream)

lemma states_stream_iff:
  assumes "follows keys es" "follows keys fs"
  shows "foldl hash_state [] es = foldl hash_state [] fs \<longleftrightarrow> map status_of es = map status_of fs"
  using states_inj [OF assms] map_factors [of status_of status_bytes es fs, OF status_bytes_same]
  by (auto simp: states_stream)

section \<open>The table of entity hashes\<close>

lemma per_entity_get:
  assumes "distinct (map fst es)"
  shows "bm_get (foldl (\<lambda>m (eid, e). bm_insert eid (hash (hash_one_entity eid e)) m) [] es) i
    = map_option (\<lambda>e. hash (hash_one_entity i e)) (bm_get es i)"
proof -
  have "bm_get (foldl (\<lambda>m (eid, e). bm_insert eid (hash (hash_one_entity eid e)) m) m es) i
    = (case bm_get es i of None \<Rightarrow> bm_get m i | Some e \<Rightarrow> Some (hash (hash_one_entity i e)))" for m
    using assms
  proof (induction es arbitrary: m)
    case (Cons p es)
    obtain j f where p: "p = (j, f)" by force
    have j: "bm_get es j = None" using Cons.prems by (auto simp: p map_of_eq_None_iff)
    show ?case
      using Cons.prems Cons.IH [of "bm_insert j (hash (hash_one_entity j f)) m"] j
      by (cases "i = j") (simp_all add: p bm_get_insert split: option.split)
  qed simp
  from this [of "[]"] show ?thesis by (cases "bm_get es i") simp_all
qed

lemma per_entity_wf: "bm_wf (foldl (\<lambda>m (eid, e). bm_insert eid (g eid e) m) [] es)"
proof -
  have "bm_wf m \<Longrightarrow> bm_wf (foldl (\<lambda>m (eid, e). bm_insert eid (g eid e) m) m es)" for m
    by (induction es arbitrary: m) (auto intro: bm_wf_insert)
  then show ?thesis by simp
qed

text \<open>The list of the diff: every entity once, and exactly those whose hashes differ or that one side lacks.\<close>

lemma mismatches_set:
  assumes "bm_wf l" "bm_wf r"
  shows "set (local_mismatches l r @ remote_only l r) = {k. bm_get l k \<noteq> bm_get r k}"
    and "distinct (local_mismatches l r @ remote_only l r)"
proof -
  have mem: "k \<in> fst ` set m \<longleftrightarrow> bm_get m k \<noteq> None" for k and m :: "(EntityId, Blake3Hash) btree"
    by (auto simp: map_of_eq_None_iff)
  have loc: "k \<in> set (local_mismatches l r) \<longleftrightarrow> bm_get l k \<noteq> None \<and> bm_get l k \<noteq> bm_get r k" for k
    using bm_get_iff [OF assms(1), of k] by (auto simp: local_mismatches_def split: option.splits) force+
  show "set (local_mismatches l r @ remote_only l r) = {k. bm_get l k \<noteq> bm_get r k}"
    using loc by (auto simp: remote_only_def mem set_map) (metis option.exhaust)
  have "distinct (local_mismatches l r)" "distinct (remote_only l r)"
    using assms by (auto simp: local_mismatches_def remote_only_def intro: distinct_map_filter dest: bm_wf_distinct)
  then show "distinct (local_mismatches l r @ remote_only l r)"
    using loc by (auto simp: remote_only_def)
qed

section \<open>The comparison is exact\<close>

text \<open>Every stream that two reports hash.\<close>

definition debug_streams :: "(EntityId, MirroredEntity) btree \<Rightarrow> bytes \<Rightarrow> u64 \<Rightarrow> bytes set" where
  "debug_streams es r t =
     {state_stream es r t, foldl hash_position [] es, foldl hash_state [] es, r, le_bytes 8 t}
     \<union> (\<lambda>(eid, e). hash_one_entity eid e) ` set es"

lemma debug_entities_differ:
  assumes "bm_wf es" "bm_wf fs" "follows keys es" "follows keys fs"
    and inj: "inj_on hash (debug_streams es r t \<union> debug_streams fs s u)"
    and "diff_debug_hashes (compute_debug_hash hash es r t) (compute_debug_hash hash fs s u) = Some d"
  shows "distinct (dd_mismatched_entities d)
    \<and> set (dd_mismatched_entities d) = {k. bm_get es k \<noteq> bm_get fs k}"
proof -
  let ?l = "dh_per_entity_hash (compute_debug_hash hash es r t)"
    and ?r = "dh_per_entity_hash (compute_debug_hash hash fs s u)"
  have d: "dd_mismatched_entities d = local_mismatches ?l ?r @ remote_only ?l ?r"
    using assms(6) by (auto simp: diff_debug_hashes_def split: if_splits)
  have wf: "bm_wf ?l" "bm_wf ?r" by (simp_all add: compute_debug_hash_def per_entity_wf)
  have get: "bm_get ?l k = map_option (\<lambda>e. hash (hash_one_entity k e)) (bm_get es k)"
    "bm_get ?r k = map_option (\<lambda>e. hash (hash_one_entity k e)) (bm_get fs k)" for k
    using assms(1,2) by (simp_all add: compute_debug_hash_def per_entity_get bm_wf_distinct)
  have "bm_get ?l k = bm_get ?r k \<longleftrightarrow> bm_get es k = bm_get fs k" for k
  proof (cases "bm_get es k"; cases "bm_get fs k")
    fix e f assume ef: "bm_get es k = Some e" "bm_get fs k = Some f"
    then have "hash_one_entity k e \<in> debug_streams es r t" "hash_one_entity k f \<in> debug_streams fs s u"
      by (auto simp: debug_streams_def dest!: map_of_SomeD)
    then have "hash (hash_one_entity k e) = hash (hash_one_entity k f) \<longleftrightarrow> hash_one_entity k e = hash_one_entity k f"
      using inj by (auto simp: inj_on_eq_iff)
    with ef one_entity_inj [OF assms(3,4) ef] show ?thesis by (auto simp: get)
  qed (simp_all add: get)
  with mismatches_set [OF wf] show ?thesis unfolding d by auto
qed

text \<open>two debug reports of states that follow the same schema are compared exactly, when blake3 is
  injective on what the two hash: there is no difference exactly when the states are equal, and otherwise
  the report lists, once each, precisely the entities that one side lacks or has with another content, and
  its flags say precisely whether the transforms, the entity states, the generators and the ticks
  differ.\<close>
lemma debug_diff_exact:
  assumes "bm_wf es" "bm_wf fs" "follows keys es" "follows keys fs" "length r = 16" "length s = 16"
    and "inj_on hash (debug_streams es r t \<union> debug_streams fs s u)"
  shows "case diff_debug_hashes (compute_debug_hash hash es r t) (compute_debug_hash hash fs s u) of
      None \<Rightarrow> es = fs \<and> r = s \<and> t = u
    | Some d \<Rightarrow> \<not> (es = fs \<and> r = s \<and> t = u)
        \<and> dd_rng_mismatch d = (r \<noteq> s) \<and> dd_tick_mismatch d = (t \<noteq> u)
        \<and> dd_positions_mismatch d = (map transform_of es \<noteq> map transform_of fs)
        \<and> dd_states_mismatch d = (map status_of es \<noteq> map status_of fs)
        \<and> distinct (dd_mismatched_entities d)
        \<and> set (dd_mismatched_entities d) = {k. bm_get es k \<noteq> bm_get fs k}"
proof -
  have inj: "hash x = hash y \<longleftrightarrow> x = y" if "x \<in> debug_streams es r t" "y \<in> debug_streams fs s u" for x y
    using assms(7) that by (auto simp: inj_on_eq_iff)
  have total: "dh_total (compute_debug_hash hash es r t) = dh_total (compute_debug_hash hash fs s u)
      \<longleftrightarrow> es = fs \<and> r = s \<and> t = u"
    using inj [of "state_stream es r t" "state_stream fs s u"] state_stream_inj [OF assms(3-6), of t u]
    by (auto simp: compute_debug_hash_def compute_state_hash_def debug_streams_def)
  show ?thesis
  proof (cases "diff_debug_hashes (compute_debug_hash hash es r t) (compute_debug_hash hash fs s u)")
    case None
    with total show ?thesis by (simp add: diff_debug_hashes_def split: if_splits)
  next
    case (Some d)
    then have ne: "\<not> (es = fs \<and> r = s \<and> t = u)" using total by (auto simp: diff_debug_hashes_def)
    have flags: "dd_rng_mismatch d = (r \<noteq> s)" "dd_tick_mismatch d = (t \<noteq> u)"
      "dd_positions_mismatch d = (foldl hash_position [] es \<noteq> foldl hash_position [] fs)"
      "dd_states_mismatch d = (foldl hash_state [] es \<noteq> foldl hash_state [] fs)"
      using Some by (auto simp: diff_debug_hashes_def compute_debug_hash_def inj debug_streams_def split: if_splits)
    show ?thesis
      using Some ne flags positions_stream_iff states_stream_iff [OF assms(3,4)] debug_entities_differ [OF assms(1-4,7) Some] by simp
  qed
qed

lemma debug_diff_exact_example:
  "case diff_debug_hashes (compute_debug_hash (\<lambda>x. x) [(EntityId 1, blank_entity []), (EntityId 2, blank_entity [])] (replicate 16 0) 7)
      (compute_debug_hash (\<lambda>x. x) [(EntityId 1, (blank_entity [])\<lparr>me_hp := 50\<rparr>), (EntityId 3, blank_entity [])] (replicate 16 0) 7) of
      None \<Rightarrow> False
    | Some d \<Rightarrow> \<not> dd_rng_mismatch d \<and> \<not> dd_tick_mismatch d \<and> EntityId 1 \<in> set (dd_mismatched_entities d)"
  using debug_diff_exact [where keys = "\<lambda>_. []" and hash = "\<lambda>x. x" and r = "replicate 16 0" and s = "replicate 16 0"
      and t = 7 and u = 7 and es = "[(EntityId 1, blank_entity []), (EntityId 2, blank_entity [])]"
      and fs = "[(EntityId 1, (blank_entity [])\<lparr>me_hp := 50\<rparr>), (EntityId 3, blank_entity [])]"]
  by (auto simp: follows_def blank_entity_def bm_wf_def inj_on_def split: option.splits)

end
