(* ===== verification/Input.thy ===== *)
theory Input
  imports Native_Float Netcode_Rollback
begin

text \<open>
  Player input from the hardware to scripts and network (\<^verbatim>\<open>engine/bevy_runtime/src\<close>:
  \<open>input/raw_input.rs\<close>, \<open>input/mapping.rs\<close>, \<open>input/capture.rs\<close>, \<open>input/distribute.rs\<close>, the queues of
  \<open>frame_orchestrator.rs\<close> and the tick counter of \<open>fixed_update.rs\<close>). Once per rendered frame the state of
  keyboard and mouse is captured; once per fixed tick the last capture is handed to the scripts and put into
  the input buffer of the prediction, unless it has been handed out already. Bevy's input resources are
  given by what they answer: which keys are pressed, and where the cursor is. The printing of JSON objects
  (the crate serde\_json) is a parameter.
\<close>

section \<open>Queues of the frame loop\<close>

record ScriptEvent =
  se_event_type :: string
  se_payload :: string

record ScriptInput =
  si_input_type :: string
  si_data :: string

type_synonym PendingScriptEvents = "ScriptEvent list"
type_synonym PendingInputs = "ScriptInput list"

definition pending_push :: "'a \<Rightarrow> 'a list \<Rightarrow> 'a list" where
  "pending_push x q = q @ [x]"

definition pending_drain :: "'a list \<Rightarrow> 'a list \<times> 'a list" where
  "pending_drain q = (q, [])"

record FixedTickCounter =
  ft_count :: u64

definition increment_tick_counter :: "FixedTickCounter \<Rightarrow> FixedTickCounter" where
  "increment_tick_counter c = c\<lparr>ft_count := ft_count c + 1\<rparr>"

section \<open>Raw input and key bindings\<close>

type_synonym i16 = u16
type_synonym pos2 = "i16 \<times> i16"

record RawPlayerInput =
  ri_frame_number :: u64
  ri_keys_pressed :: u32
  ri_mouse_pos :: pos2
  ri_mouse_buttons :: u8

definition raw_default :: RawPlayerInput where
  "raw_default = \<lparr>ri_frame_number = 0, ri_keys_pressed = 0, ri_mouse_pos = (0, 0), ri_mouse_buttons = 0\<rparr>"

datatype InputAction = MoveUp | MoveDown | MoveLeft | MoveRight | Attack | Skill1 | Skill2 | Skill3 | Interact | Dodge

primrec action_bit :: "InputAction \<Rightarrow> nat" where
  "action_bit MoveUp = 0"
| "action_bit MoveDown = 1"
| "action_bit MoveLeft = 2"
| "action_bit MoveRight = 3"
| "action_bit Attack = 4"
| "action_bit Skill1 = 5"
| "action_bit Skill2 = 6"
| "action_bit Skill3 = 7"
| "action_bit Interact = 8"
| "action_bit Dodge = 9"

lemma action_bit_inj [simp]: "action_bit a = action_bit b \<longleftrightarrow> a = b"
  by (cases a; cases b) simp_all

lemma action_bit_less: "action_bit a < 10"
  by (cases a) simp_all

instantiation InputAction :: linorder
begin

definition less_eq_InputAction :: "InputAction \<Rightarrow> InputAction \<Rightarrow> bool" where
  "less_eq_InputAction a b \<longleftrightarrow> action_bit a \<le> action_bit b"

definition less_InputAction :: "InputAction \<Rightarrow> InputAction \<Rightarrow> bool" where
  "less_InputAction a b \<longleftrightarrow> action_bit a < action_bit b"

instance
  by intro_classes (auto simp: less_eq_InputAction_def less_InputAction_def)

end

text \<open>The key codes of Bevy that the default bindings name.\<close>

datatype KeyCode = KeyW | KeyA | KeyS | KeyD | KeyE | ArrowUp | ArrowDown | ArrowLeft | ArrowRight
  | Space | Digit1 | Digit2 | Digit3 | ShiftLeft | OtherKey nat

datatype MouseButton = LeftButton | RightButton | MiddleButton

type_synonym InputMapping = "(InputAction, KeyCode list) btree"

definition mapping_default :: InputMapping where
  "mapping_default =
     (let b = [];
          b = bm_insert MoveUp [KeyW, ArrowUp] b;
          b = bm_insert MoveDown [KeyS, ArrowDown] b;
          b = bm_insert MoveLeft [KeyA, ArrowLeft] b;
          b = bm_insert MoveRight [KeyD, ArrowRight] b;
          b = bm_insert Attack [Space] b;
          b = bm_insert Skill1 [Digit1] b;
          b = bm_insert Skill2 [Digit2] b;
          b = bm_insert Skill3 [Digit3] b;
          b = bm_insert Interact [KeyE] b
      in bm_insert Dodge [ShiftLeft] b)"

section \<open>Capture\<close>

definition compute_keys_pressed :: "(KeyCode \<Rightarrow> bool) \<Rightarrow> InputMapping \<Rightarrow> u32" where
  "compute_keys_pressed pressed bindings =
     foldl (\<lambda>keys (action, key_codes).
       if list_ex pressed key_codes then keys OR push_bit (action_bit action) 1 else keys) 0 bindings"

text \<open>The cast \<open>as i16\<close> truncates towards zero, saturates, and maps a NaN to zero.\<close>

definition f32_magnitude :: "f32 \<Rightarrow> nat" where
  "f32_magnitude w =
     (let e = f32_exponent w; m = unat w mod 2 ^ 23; m = (if e = 0 then m else m + 2 ^ 23); e = max e 1
      in if e \<ge> 150 then m * 2 ^ (e - 150) else m div 2 ^ (150 - e))"

definition f32_trunc :: "f32 \<Rightarrow> int" where
  "f32_trunc w = (if 2 ^ 31 \<le> unat w then - int (f32_magnitude w) else int (f32_magnitude w))"

definition f32_as_i16 :: "f32 \<Rightarrow> i16" where
  "f32_as_i16 w = (if f32_is_nan w then 0 else word_of_int (max (- 32768) (min 32767 (f32_trunc w))))"

definition I16_MIN_F32 :: f32 where "I16_MIN_F32 = 0xC7000000"
definition I16_MAX_F32 :: f32 where "I16_MAX_F32 = 0x46FFFE00"

definition compute_mouse_pos :: "(f32 \<times> f32) option \<Rightarrow> pos2 \<Rightarrow> pos2" where
  "compute_mouse_pos cursor_pos prev = (case cursor_pos of
       Some (x, y) \<Rightarrow> (f32_as_i16 (f32_clamp I16_MIN_F32 I16_MAX_F32 x), f32_as_i16 (f32_clamp I16_MIN_F32 I16_MAX_F32 y))
     | None \<Rightarrow> prev)"

definition compute_mouse_buttons :: "(MouseButton \<Rightarrow> bool) \<Rightarrow> u8" where
  "compute_mouse_buttons pressed =
     (let mb = 0;
          mb = (if pressed LeftButton then mb OR 1 else mb);
          mb = (if pressed RightButton then mb OR 2 else mb)
      in if pressed MiddleButton then mb OR 4 else mb)"

text \<open>What the capture system sees of the world: the input resources, absent in a headless application, and
  the cursor of each window.\<close>

record hardware =
  hw_keyboard :: "(KeyCode \<Rightarrow> bool) option"
  hw_mouse :: "(MouseButton \<Rightarrow> bool) option"
  hw_windows :: "(f32 \<times> f32) option list"

definition input_capture_system :: "InputMapping \<Rightarrow> hardware \<Rightarrow> RawPlayerInput \<Rightarrow> RawPlayerInput" where
  "input_capture_system bindings hw raw = (case hw_keyboard hw of
       None \<Rightarrow> raw\<lparr>ri_frame_number := ri_frame_number raw + 1\<rparr>
     | Some keyboard \<Rightarrow> (case hw_mouse hw of
         None \<Rightarrow> raw\<lparr>ri_frame_number := ri_frame_number raw + 1\<rparr>
       | Some mouse \<Rightarrow>
           (let raw = raw\<lparr>ri_keys_pressed := compute_keys_pressed keyboard bindings\<rparr>;
                raw = raw\<lparr>ri_mouse_buttons := compute_mouse_buttons mouse\<rparr>;
                raw = (case hw_windows hw of
                    [cursor] \<Rightarrow> raw\<lparr>ri_mouse_pos := compute_mouse_pos cursor (ri_mouse_pos raw)\<rparr>
                  | _ \<Rightarrow> raw)
            in raw\<lparr>ri_frame_number := ri_frame_number raw + 1\<rparr>)))"

section \<open>Distribution\<close>

datatype json = JStr string | JInt int

definition should_distribute :: "u64 \<Rightarrow> u64 \<Rightarrow> bool" where
  "should_distribute current_frame last_frame \<longleftrightarrow> current_frame \<noteq> last_frame"

definition build_script_input :: "((string \<times> json) list \<Rightarrow> string) \<Rightarrow> RawPlayerInput \<Rightarrow> ScriptInput" where
  "build_script_input show_json raw =
     \<lparr>si_input_type = ''player_input'',
      si_data = show_json
        [(''keys'', JInt (uint (ri_keys_pressed raw))),
         (''mx'', JInt (sint (fst (ri_mouse_pos raw)))),
         (''my'', JInt (sint (snd (ri_mouse_pos raw)))),
         (''mb'', JInt (uint (ri_mouse_buttons raw)))]\<rparr>"

definition build_netcode_inputs :: "RawPlayerInput \<Rightarrow> EntityId \<Rightarrow> u64 \<Rightarrow> PlayerInput list" where
  "build_netcode_inputs raw player_id tick =
     (let keys_data = push_bit 8 (ucast (ri_keys_pressed raw)) OR ucast (ri_mouse_buttons raw);
          mouse_data = push_bit 16 (ucast (fst (ri_mouse_pos raw))) OR ucast (snd (ri_mouse_pos raw))
      in [\<lparr>pi_player_id = player_id, pi_input_type = 0, pi_data = DInt keys_data, pi_tick = tick\<rparr>,
          \<lparr>pi_player_id = player_id, pi_input_type = 1, pi_data = DInt mouse_data, pi_tick = tick\<rparr>])"

text \<open>The resources the distribution system writes: its own memory of the last frame, the queue of the
  scripts, and the input buffer, when there is one.\<close>

record distribution =
  di_last_frame :: u64
  di_pending :: PendingInputs
  di_buffer :: "InputBuffer option"

definition input_distribution_system ::
  "((string \<times> json) list \<Rightarrow> string) \<Rightarrow> RawPlayerInput \<Rightarrow> FixedTickCounter \<Rightarrow> EntityId option \<Rightarrow> distribution \<Rightarrow> distribution" where
  "input_distribution_system show_json raw tick local_player d =
     (if \<not> should_distribute (ri_frame_number raw) (di_last_frame d) then d
      else let d = d\<lparr>di_last_frame := ri_frame_number raw\<rparr>;
               current_tick = ft_count tick;
               d = d\<lparr>di_pending := pending_push (build_script_input show_json raw) (di_pending d)\<rparr>
           in case local_player of
                None \<Rightarrow> d
              | Some player \<Rightarrow>
                  d\<lparr>di_buffer := map_option (input_insert current_tick (build_netcode_inputs raw player current_tick)) (di_buffer d)\<rparr>)"

section \<open>The schedule\<close>

text \<open>
  Frames are rendered and the fixed tick runs at independent rates, so the two systems interleave freely.
  Within a tick the counter and the distribution run in the same set without an order between them;
  \<open>counter_first\<close> says which one comes first.
\<close>

datatype input_event = RenderFrame hardware | FixedTick

record input_world =
  iw_raw :: RawPlayerInput
  iw_tick :: FixedTickCounter
  iw_dist :: distribution

record input_setup =
  is_show_json :: "(string \<times> json) list \<Rightarrow> string"
  is_bindings :: InputMapping
  is_player :: "EntityId option"
  is_counter_first :: bool

definition process_inputs :: "input_setup \<Rightarrow> input_world \<Rightarrow> input_world" where
  "process_inputs S w =
     (let after = increment_tick_counter (iw_tick w);
          seen = (if is_counter_first S then after else iw_tick w)
      in w\<lparr>iw_tick := after,
           iw_dist := input_distribution_system (is_show_json S) (iw_raw w) seen (is_player S) (iw_dist w)\<rparr>)"

primrec input_step :: "input_setup \<Rightarrow> input_event \<Rightarrow> input_world \<Rightarrow> input_world" where
  "input_step S (RenderFrame hw) w = w\<lparr>iw_raw := input_capture_system (is_bindings S) hw (iw_raw w)\<rparr>"
| "input_step S FixedTick w = process_inputs S w"

section \<open>What is captured\<close>

lemma keys_fold_bit:
  "bit (foldl (\<lambda>keys (action, key_codes).
       if list_ex pressed key_codes then keys OR push_bit (action_bit action) 1 else keys) (k0 :: u32) bindings) i
     \<longleftrightarrow> bit k0 i \<or> (\<exists>(a, codes) \<in> set bindings. action_bit a = i \<and> list_ex pressed codes)"
proof (induction bindings arbitrary: k0)
  case (Cons p bindings)
  obtain a codes where p: "p = (a, codes)" by force
  have "action_bit a < 32" using action_bit_less [of a] by simp
  then have "bit (push_bit (action_bit a) 1 :: u32) i \<longleftrightarrow> action_bit a = i"
    by (auto simp: bit_simps)
  then show ?case
    by (cases "list_ex pressed codes") (auto simp: p Cons.IH bit_or_iff)
qed simp

lemma keys_pressed_bit:
  "bit (compute_keys_pressed pressed bindings) i
     \<longleftrightarrow> (\<exists>(a, codes) \<in> set bindings. action_bit a = i \<and> (\<exists>k \<in> set codes. pressed k))"
  unfolding compute_keys_pressed_def keys_fold_bit by (simp add: list_ex_iff)

lemma mouse_buttons_bits:
  "bit (compute_mouse_buttons pressed) i
     \<longleftrightarrow> (i = 0 \<and> pressed LeftButton) \<or> (i = 1 \<and> pressed RightButton) \<or> (i = 2 \<and> pressed MiddleButton)"
proof -
  have "bit (1 :: u8) i \<longleftrightarrow> i = 0" "bit (2 :: u8) i \<longleftrightarrow> i = 1" "bit (4 :: u8) i \<longleftrightarrow> i = 2"
    using bit_exp_iff [of 0 i, where 'a = u8] bit_exp_iff [of 1 i, where 'a = u8] bit_exp_iff [of 2 i, where 'a = u8]
    by (auto simp: possible_bit_word)
  then show ?thesis by (simp add: compute_mouse_buttons_def Let_def bit_or_iff)
qed

lemma capture_frame_number:
  "ri_frame_number (input_capture_system bindings hw raw) = ri_frame_number raw + 1"
  by (simp add: input_capture_system_def Let_def split: option.split list.split)

lemma captures_frame_number:
  "ri_frame_number (fold (input_capture_system bindings) hws raw) = ri_frame_number raw + of_nat (length hws)"
  by (induction hws arbitrary: raw) (simp_all add: capture_frame_number add.assoc)

lemmas float_eval = f32_lt_def f32_key_def f32_is_nan_def f32_exponent_def drop_bit_eq_div unat_div

lemma clamp_examples:
  "f32_clamp I16_MIN_F32 I16_MAX_F32 0x7F800000 = 0x46FFFE00" "f32_clamp I16_MIN_F32 I16_MAX_F32 0xFF800000 = 0xC7000000"
  "f32_clamp I16_MIN_F32 I16_MAX_F32 0x42F7E666 = 0x42F7E666" "f32_clamp I16_MIN_F32 I16_MAX_F32 0x7FC00000 = 0x7FC00000"
  by (simp_all add: f32_clamp_def float_eval I16_MIN_F32_def I16_MAX_F32_def)

lemma cast_examples:
  "f32_as_i16 0x46FFFE00 = 32767" "f32_as_i16 0xC7000000 = - 32768" "f32_as_i16 0x42F7E666 = 123" "f32_as_i16 0x7FC00000 = 0"
  by (simp_all add: f32_as_i16_def f32_trunc_def f32_magnitude_def float_eval Let_def)

lemma cursor_examples:
  "compute_mouse_pos (Some (0x42F7E666, 0x7FC00000)) p = (123, 0)"
  "compute_mouse_pos (Some (0x7F800000, 0xFF800000)) p = (32767, - 32768)"
  by (simp_all only: compute_mouse_pos_def clamp_examples cast_examples option.case prod.case)

section \<open>The packed form determines the input\<close>

lemma high_bit_8: "\<not> bit (m :: u8) (8 + n)"
  using bit_imp_le_length [of m "8 + n"] by auto

lemma high_bit_16: "\<not> bit (m :: u16) (16 + n)"
  using bit_imp_le_length [of m "16 + n"] by auto

lemma pack_keys: "push_bit 8 (ucast (k :: u32)) OR ucast (m :: u8) = (push_bit 8 (ucast k') OR ucast m' :: u64)
    \<longleftrightarrow> k = k' \<and> m = m'"
proof -
  have "ucast (drop_bit 8 (push_bit 8 (ucast k) OR ucast m :: u64)) = k"
    "ucast (push_bit 8 (ucast k) OR ucast m :: u64) = m" for k :: u32 and m :: u8
    by (auto intro!: bit_word_eqI simp: bit_simps bit_or_iff high_bit_8)
  then show ?thesis by metis
qed

lemma pack_pos: "push_bit 16 (ucast (x :: u16)) OR ucast (y :: u16) = (push_bit 16 (ucast x') OR ucast y' :: u64)
    \<longleftrightarrow> x = x' \<and> y = y'"
proof -
  have "ucast (drop_bit 16 (push_bit 16 (ucast x) OR ucast y :: u64)) = x"
    "ucast (push_bit 16 (ucast x) OR ucast y :: u64) = y" for x y :: u16
    by (auto intro!: bit_word_eqI simp: bit_simps bit_or_iff high_bit_16)
  then show ?thesis by metis
qed

lemma netcode_inputs_inj:
  "build_netcode_inputs raw p t = build_netcode_inputs raw' p' t' \<longleftrightarrow>
     ri_keys_pressed raw = ri_keys_pressed raw' \<and> ri_mouse_buttons raw = ri_mouse_buttons raw'
     \<and> ri_mouse_pos raw = ri_mouse_pos raw' \<and> p = p' \<and> t = t'"
  by (auto simp: build_netcode_inputs_def Let_def pack_keys pack_pos prod_eq_iff)

section \<open>One hand-out for each tick with a new frame\<close>

text \<open>The frames rendered before each tick, and the input as it stands at each tick.\<close>

definition batch_events :: "hardware list \<Rightarrow> input_event list" where
  "batch_events hws = map RenderFrame hws @ [FixedTick]"

text \<open>The hand-outs: for each tick with a new frame, its number in the counter and the input as it stands.\<close>

primrec handed_out :: "input_setup \<Rightarrow> u64 \<Rightarrow> RawPlayerInput \<Rightarrow> hardware list list \<Rightarrow> (u64 \<times> RawPlayerInput) list" where
  "handed_out S t raw [] = []"
| "handed_out S t raw (hws # bs) =
     (let now = fold (input_capture_system (is_bindings S)) hws raw
      in (if hws = [] then [] else [(t + (if is_counter_first S then 1 else 0), now)]) @ handed_out S (t + 1) now bs)"

definition settled_input :: "input_world \<Rightarrow> bool" where
  "settled_input w \<longleftrightarrow> di_last_frame (iw_dist w) = ri_frame_number (iw_raw w)"

lemma render_frames:
  "fold (input_step S) (map RenderFrame hws) w = w\<lparr>iw_raw := fold (input_capture_system (is_bindings S)) hws (iw_raw w)\<rparr>"
  by (induction hws arbitrary: w) simp_all

text \<open>What a hand-out does to the queue and the buffer.\<close>

definition hand_out :: "input_setup \<Rightarrow> u64 \<times> RawPlayerInput \<Rightarrow> distribution \<Rightarrow> distribution" where
  "hand_out S h d =
     d\<lparr>di_last_frame := ri_frame_number (snd h),
       di_pending := di_pending d @ [build_script_input (is_show_json S) (snd h)],
       di_buffer := (case is_player S of None \<Rightarrow> di_buffer d
         | Some p \<Rightarrow> map_option (input_insert (fst h) (build_netcode_inputs (snd h) p (fst h))) (di_buffer d))\<rparr>"

lemma batch_step:
  assumes "settled_input w" "length hws < 2 ^ 64"
  shows "fold (input_step S) (batch_events hws) w =
      w\<lparr>iw_raw := fold (input_capture_system (is_bindings S)) hws (iw_raw w),
        iw_tick := increment_tick_counter (iw_tick w),
        iw_dist := (if hws = [] then iw_dist w
          else hand_out S (ft_count (iw_tick w) + (if is_counter_first S then 1 else 0),
                 fold (input_capture_system (is_bindings S)) hws (iw_raw w)) (iw_dist w))\<rparr>"
    and "settled_input (fold (input_step S) (batch_events hws) w)"
proof -
  let ?raw = "fold (input_capture_system (is_bindings S)) hws (iw_raw w)"
  have "should_distribute (ri_frame_number ?raw) (di_last_frame (iw_dist w)) \<longleftrightarrow> hws \<noteq> []"
    using assms
    by (cases "hws = []") (auto simp: word_of_nat_eq_0_iff nat_dvd_not_less should_distribute_def settled_input_def captures_frame_number)
  then show eq: "fold (input_step S) (batch_events hws) w =
      w\<lparr>iw_raw := ?raw, iw_tick := increment_tick_counter (iw_tick w),
        iw_dist := (if hws = [] then iw_dist w
          else hand_out S (ft_count (iw_tick w) + (if is_counter_first S then 1 else 0), ?raw) (iw_dist w))\<rparr>"
    by (simp add: batch_events_def render_frames process_inputs_def input_distribution_system_def hand_out_def
        pending_push_def increment_tick_counter_def Let_def split: option.split)
  show "settled_input (fold (input_step S) (batch_events hws) w)"
    unfolding eq using assms(1) by (simp add: settled_input_def hand_out_def)
qed

lemma batches_run:
  assumes "settled_input w" "\<forall>hws \<in> set bs. length hws < 2 ^ 64"
  shows "iw_dist (fold (input_step S) (concat (map batch_events bs)) w) = fold (hand_out S) (handed_out S (ft_count (iw_tick w)) (iw_raw w) bs) (iw_dist w)"
  using assms
proof (induction bs arbitrary: w)
  case (Cons hws bs)
  let ?w = "fold (input_step S) (batch_events hws) w"
  have len: "length hws < 2 ^ 64" using Cons.prems(2) by simp
  note step = batch_step [OF Cons.prems(1) len, of S]
  have "iw_dist (fold (input_step S) (concat (map batch_events (hws # bs))) w)
      = fold (hand_out S) (handed_out S (ft_count (iw_tick ?w)) (iw_raw ?w) bs) (iw_dist ?w)"
    using Cons.IH [OF step(2)] Cons.prems(2) by simp
  then show ?case unfolding step(1) by (simp add: increment_tick_counter_def Let_def)
qed simp

section \<open>Properties\<close>

text \<open>however many frames are rendered between the fixed ticks, each tick with a new frame hands the input
  as it then stands to the scripts and to the buffer, once and under the number of that tick, and a tick
  without a new frame hands out nothing; what the buffer holds for a tick determines the keys, the buttons
  and the cursor that were handed out.\<close>
lemma input_handed_out_once:
  assumes "settled_input w" "\<forall>hws \<in> set bs. length hws < 2 ^ 64"
  shows "iw_dist (fold (input_step S) (concat (map batch_events bs)) w)
      = fold (hand_out S) (handed_out S (ft_count (iw_tick w)) (iw_raw w) bs) (iw_dist w)
    \<and> length (handed_out S (ft_count (iw_tick w)) (iw_raw w) bs) = length (filter (\<lambda>hws. hws \<noteq> []) bs)
    \<and> (build_netcode_inputs raw p t = build_netcode_inputs raw' p' t' \<longleftrightarrow>
         raw\<lparr>ri_frame_number := 0\<rparr> = raw'\<lparr>ri_frame_number := 0\<rparr> \<and> p = p' \<and> t = t')"
proof -
  have len: "length (handed_out S c r bs) = length (filter (\<lambda>hws. hws \<noteq> []) bs)" for c r
    by (induction bs arbitrary: c r) (simp_all add: Let_def)
  have "raw\<lparr>ri_frame_number := 0\<rparr> = raw'\<lparr>ri_frame_number := 0\<rparr> \<longleftrightarrow>
      ri_keys_pressed raw = ri_keys_pressed raw' \<and> ri_mouse_buttons raw = ri_mouse_buttons raw'
      \<and> ri_mouse_pos raw = ri_mouse_pos raw'"
    by (cases raw; cases raw') auto
  then show ?thesis using batches_run [OF assms] by (simp add: len netcode_inputs_inj)
qed

definition toy_setup :: input_setup where
  "toy_setup = \<lparr>is_show_json = (\<lambda>_. ''{}''), is_bindings = mapping_default, is_player = Some (EntityId 7), is_counter_first = True\<rparr>"

definition toy_world :: input_world where
  "toy_world = \<lparr>iw_raw = raw_default, iw_tick = \<lparr>ft_count = 0\<rparr>,
     iw_dist = \<lparr>di_last_frame = 0, di_pending = [], di_buffer = Some input_new\<rparr>\<rparr>"

definition toy_hardware :: hardware where
  "toy_hardware = \<lparr>hw_keyboard = Some (\<lambda>k. k = KeyW), hw_mouse = Some (\<lambda>b. b = LeftButton), hw_windows = [None]\<rparr>"

lemma input_handed_out_once_example:
  "di_pending (iw_dist (fold (input_step toy_setup)
      [RenderFrame toy_hardware, RenderFrame toy_hardware, FixedTick, FixedTick, RenderFrame toy_hardware, FixedTick] toy_world))
   = [\<lparr>si_input_type = ''player_input'', si_data = ''{}''\<rparr>, \<lparr>si_input_type = ''player_input'', si_data = ''{}''\<rparr>]"
  using input_handed_out_once [of toy_world "[[toy_hardware, toy_hardware], [], [toy_hardware]]" toy_setup]
  by (simp add: settled_input_def toy_world_def raw_default_def batch_events_def Let_def hand_out_def toy_setup_def
      build_script_input_def)

text \<open>With the default bindings a key sets exactly the bits of the actions bound to it.\<close>

lemma default_bindings_bits:
  "bit (compute_keys_pressed pressed mapping_default) (action_bit a) \<longleftrightarrow>
     (\<exists>k. bm_get mapping_default a = Some k \<and> list_ex pressed k)"
proof -
  have wf: "bm_wf mapping_default"
    unfolding mapping_default_def Let_def by (intro bm_wf_insert bm_wf_Nil)
  show ?thesis
    unfolding keys_pressed_bit using bm_get_iff [OF wf] by (force simp: list_ex_iff)
qed

end
