(* ===== verification/Gesture.thy ===== *)
theory Gesture
  imports Input
begin

text \<open>
  Gesture recognition (\<^verbatim>\<open>engine/bevy_runtime/src/input/gesture.rs\<close>): a state machine for each watched
  mouse button that turns the button and the cursor of each fixed tick into clicks, double clicks, long
  presses and drags, and the system that runs the machines and hands their events to the game and the
  scripts. The lemmas compare a whole press with a description of what it should be recognised as, and show
  that drags are bracketed.
\<close>

section \<open>Thresholds and distance\<close>

type_synonym i32 = u32

definition CLICK_MAX_TICKS :: u64 where "CLICK_MAX_TICKS = 18"
definition CLICK_MAX_DISTANCE :: i32 where "CLICK_MAX_DISTANCE = 5"
definition DOUBLE_CLICK_MAX_TICKS :: u64 where "DOUBLE_CLICK_MAX_TICKS = 24"
definition DOUBLE_CLICK_MAX_DISTANCE :: i32 where "DOUBLE_CLICK_MAX_DISTANCE = 10"
definition LONG_PRESS_MIN_TICKS :: u64 where "LONG_PRESS_MIN_TICKS = 30"
definition DRAG_MIN_TICKS :: u64 where "DRAG_MIN_TICKS = 9"
definition DRAG_MIN_DISTANCE :: i32 where "DRAG_MIN_DISTANCE = 5"

definition i32_abs :: "i32 \<Rightarrow> i32" where
  "i32_abs w = (if sint w < 0 then - w else w)"

definition manhattan_distance :: "pos2 \<Rightarrow> pos2 \<Rightarrow> i32" where
  "manhattan_distance a b =
     (let dx = i32_abs (scast (fst a) - scast (fst b));
          dy = i32_abs (scast (snd a) - scast (snd b))
      in dx + dy)"

section \<open>Events and states\<close>

datatype GestureEvent =
    Click pos2 u8
  | DoubleClick pos2 u8
  | LongPress pos2 u8
  | DragStart pos2 u8
  | Dragging pos2 pos2 u8
  | DragEnd pos2 pos2 u8

datatype GestureState = Idle | Pressed | DraggingState | WaitForRelease

record GestureRecognizer =
  gr_button_mask :: u8
  gr_state :: GestureState
  gr_press_tick :: u64
  gr_press_pos :: pos2
  gr_last_pos :: pos2
  gr_last_click :: "(u64 \<times> pos2) option"

definition recognizer_new :: "u8 \<Rightarrow> GestureRecognizer" where
  "recognizer_new button_mask =
     \<lparr>gr_button_mask = button_mask, gr_state = Idle, gr_press_tick = 0, gr_press_pos = (0, 0),
      gr_last_pos = (0, 0), gr_last_click = None\<rparr>"

definition recognizer_reset :: "GestureRecognizer \<Rightarrow> GestureRecognizer" where
  "recognizer_reset r =
     r\<lparr>gr_state := Idle, gr_press_tick := 0, gr_press_pos := (0, 0), gr_last_pos := (0, 0), gr_last_click := None\<rparr>"

definition is_double :: "u64 \<Rightarrow> pos2 \<Rightarrow> (u64 \<times> pos2) option \<Rightarrow> bool" where
  "is_double current_tick mouse_pos last_click = (case last_click of
       None \<Rightarrow> False
     | Some (last_tick, last_pos) \<Rightarrow>
         saturating_sub current_tick last_tick < DOUBLE_CLICK_MAX_TICKS
         \<and> sint (manhattan_distance mouse_pos last_pos) < sint DOUBLE_CLICK_MAX_DISTANCE)"

definition release_pressed ::
  "u64 \<Rightarrow> pos2 \<Rightarrow> GestureRecognizer \<Rightarrow> GestureEvent list \<times> GestureRecognizer" where
  "release_pressed current_tick mouse_pos r =
     (let elapsed = saturating_sub current_tick (gr_press_tick r);
          distance = manhattan_distance mouse_pos (gr_press_pos r);
          (events, r) =
            (if elapsed < CLICK_MAX_TICKS \<and> sint distance < sint CLICK_MAX_DISTANCE
             then if is_double current_tick mouse_pos (gr_last_click r)
                  then ([DoubleClick mouse_pos (gr_button_mask r)], r\<lparr>gr_last_click := None\<rparr>)
                  else ([Click mouse_pos (gr_button_mask r)], r\<lparr>gr_last_click := Some (current_tick, mouse_pos)\<rparr>)
             else ([], r))
      in (events, r\<lparr>gr_state := Idle\<rparr>))"

definition hold_pressed ::
  "u64 \<Rightarrow> pos2 \<Rightarrow> GestureRecognizer \<Rightarrow> GestureEvent list \<times> GestureRecognizer" where
  "hold_pressed current_tick mouse_pos r =
     (let elapsed = saturating_sub current_tick (gr_press_tick r);
          distance = manhattan_distance mouse_pos (gr_press_pos r)
      in if LONG_PRESS_MIN_TICKS \<le> elapsed \<and> sint distance < sint DRAG_MIN_DISTANCE
         then ([LongPress (gr_press_pos r) (gr_button_mask r)], r\<lparr>gr_state := WaitForRelease\<rparr>)
         else if DRAG_MIN_TICKS \<le> elapsed \<and> sint DRAG_MIN_DISTANCE \<le> sint distance
         then ([DragStart (gr_press_pos r) (gr_button_mask r)],
               r\<lparr>gr_last_pos := mouse_pos, gr_state := DraggingState\<rparr>)
         else ([], r))"

definition gesture_update ::
  "u64 \<Rightarrow> u8 \<Rightarrow> pos2 \<Rightarrow> GestureRecognizer \<Rightarrow> GestureEvent list \<times> GestureRecognizer" where
  "gesture_update current_tick mouse_buttons mouse_pos r =
     (let pressed = mouse_buttons AND gr_button_mask r \<noteq> 0
      in case gr_state r of
           Idle \<Rightarrow>
             if pressed
             then ([], r\<lparr>gr_state := Pressed, gr_press_tick := current_tick, gr_press_pos := mouse_pos, gr_last_pos := mouse_pos\<rparr>)
             else ([], r)
         | Pressed \<Rightarrow>
             if \<not> pressed then release_pressed current_tick mouse_pos r else hold_pressed current_tick mouse_pos r
         | DraggingState \<Rightarrow>
             if \<not> pressed
             then ([DragEnd (gr_press_pos r) mouse_pos (gr_button_mask r)], r\<lparr>gr_state := Idle\<rparr>)
             else if mouse_pos \<noteq> gr_last_pos r
             then ([Dragging (gr_press_pos r) mouse_pos (gr_button_mask r)], r\<lparr>gr_last_pos := mouse_pos\<rparr>)
             else ([], r)
         | WaitForRelease \<Rightarrow> if \<not> pressed then ([], r\<lparr>gr_state := Idle\<rparr>) else ([], r))"

section \<open>The system\<close>

definition recognizers_default :: "GestureRecognizer list" where
  "recognizers_default = [recognizer_new 1]"

fun gesture_event_to_json :: "((string \<times> json) list \<Rightarrow> string) \<Rightarrow> GestureEvent \<Rightarrow> string" where
  "gesture_event_to_json J (Click p b) = J
     [(''type'', JStr ''click''), (''x'', JInt (sint (fst p))), (''y'', JInt (sint (snd p))), (''button'', JInt (uint b))]"
| "gesture_event_to_json J (DoubleClick p b) = J
     [(''type'', JStr ''double_click''), (''x'', JInt (sint (fst p))), (''y'', JInt (sint (snd p))), (''button'', JInt (uint b))]"
| "gesture_event_to_json J (LongPress p b) = J
     [(''type'', JStr ''long_press''), (''x'', JInt (sint (fst p))), (''y'', JInt (sint (snd p))), (''button'', JInt (uint b))]"
| "gesture_event_to_json J (DragStart s b) = J
     [(''type'', JStr ''drag_start''), (''x'', JInt (sint (fst s))), (''y'', JInt (sint (snd s))),
      (''start_x'', JInt (sint (fst s))), (''start_y'', JInt (sint (snd s))), (''button'', JInt (uint b))]"
| "gesture_event_to_json J (Dragging s c b) = J
     [(''type'', JStr ''dragging''), (''x'', JInt (sint (fst c))), (''y'', JInt (sint (snd c))),
      (''start_x'', JInt (sint (fst s))), (''start_y'', JInt (sint (snd s))), (''button'', JInt (uint b))]"
| "gesture_event_to_json J (DragEnd s e b) = J
     [(''type'', JStr ''drag_end''), (''x'', JInt (sint (fst e))), (''y'', JInt (sint (snd e))),
      (''start_x'', JInt (sint (fst s))), (''start_y'', JInt (sint (snd s))), (''button'', JInt (uint b))]"

definition publish_gesture ::
  "((string \<times> json) list \<Rightarrow> string) \<Rightarrow> GestureEvent \<Rightarrow> GestureEvent list \<times> PendingInputs \<Rightarrow> GestureEvent list \<times> PendingInputs" where
  "publish_gesture J event st =
     (fst st @ [event],
      pending_push \<lparr>si_input_type = ''gesture'', si_data = gesture_event_to_json J event\<rparr> (snd st))"

primrec gesture_recognition_system ::
  "((string \<times> json) list \<Rightarrow> string) \<Rightarrow> RawPlayerInput \<Rightarrow> FixedTickCounter \<Rightarrow> GestureRecognizer list
     \<Rightarrow> GestureEvent list \<times> PendingInputs \<Rightarrow> GestureRecognizer list \<times> (GestureEvent list \<times> PendingInputs)" where
  "gesture_recognition_system J raw tick [] st = ([], st)"
| "gesture_recognition_system J raw tick (r # rs) st =
     (let (events, r') = gesture_update (ft_count tick) (ri_mouse_buttons raw) (ri_mouse_pos raw) r;
          (rs', st') = gesture_recognition_system J raw tick rs (fold (publish_gesture J) events st)
      in (r' # rs', st'))"

definition reset_gesture_recognizers :: "GestureRecognizer list \<Rightarrow> GestureRecognizer list" where
  "reset_gesture_recognizers rs = map recognizer_reset rs"

section \<open>Distances do not overflow\<close>

definition pos_dist :: "pos2 \<Rightarrow> pos2 \<Rightarrow> int" where
  "pos_dist a b = \<bar>sint (fst a) - sint (fst b)\<bar> + \<bar>sint (snd a) - sint (snd b)\<bar>"

lemma i16_range: "- 32768 \<le> sint (x :: i16)" "sint (x :: i16) < 32768"
  using sint_range_size [of x] by (simp_all add: word_size)

lemma sint_i32_diff: "sint (scast (x :: i16) - scast (y :: i16) :: i32) = sint x - sint y"
  using i16_range [of x] i16_range [of y]
  by (simp add: sint_word_ariths signed_scast_eq signed_take_bit_int_eq_self)

lemma sint_i32_abs: "- (2 ^ 31) < sint w \<Longrightarrow> sint (i32_abs w) = \<bar>sint w\<bar>"
  using sint_range_size [of w]
  by (auto simp: i32_abs_def word_size sint_word_ariths signed_take_bit_int_eq_self)

lemma sint_manhattan: "sint (manhattan_distance a b) = pos_dist a b"
proof -
  have "sint (i32_abs (scast x - scast y)) = \<bar>sint x - sint y\<bar>" for x y :: i16
    using i16_range [of x] i16_range [of y] by (simp add: sint_i32_abs sint_i32_diff)
  then show ?thesis
    using i16_range [of "fst a"] i16_range [of "fst b"] i16_range [of "snd a"] i16_range [of "snd b"]
    by (simp add: manhattan_distance_def pos_dist_def Let_def sint_word_ariths signed_take_bit_int_eq_self)
qed

section \<open>Runs\<close>

primrec gesture_run ::
  "(u64 \<times> u8 \<times> pos2) list \<Rightarrow> GestureRecognizer \<Rightarrow> GestureEvent list \<times> GestureRecognizer" where
  "gesture_run [] r = ([], r)"
| "gesture_run (s # ss) r =
     (let (es, r) = gesture_update (fst s) (fst (snd s)) (snd (snd s)) r;
          (es', r) = gesture_run ss r
      in (es @ es', r))"

lemma gesture_run_Cons:
  "fst (gesture_run (s # ss) r) = fst (gesture_update (fst s) (fst (snd s)) (snd (snd s)) r)
     @ fst (gesture_run ss (snd (gesture_update (fst s) (fst (snd s)) (snd (snd s)) r)))"
  "snd (gesture_run (s # ss) r) = snd (gesture_run ss (snd (gesture_update (fst s) (fst (snd s)) (snd (snd s)) r)))"
  by (simp_all add: Let_def split_beta)

lemma gesture_run_append:
  "gesture_run (ss @ ts) r =
     (fst (gesture_run ss r) @ fst (gesture_run ts (snd (gesture_run ss r))), snd (gesture_run ts (snd (gesture_run ss r))))"
  by (induction ss arbitrary: r) (auto simp: Let_def split_beta)

text \<open>At most one event per tick and machine.\<close>

lemma one_event_per_tick: "length (fst (gesture_update t b p r)) \<le> 1"
  by (auto simp: gesture_update_def release_pressed_def hold_pressed_def Let_def split: GestureState.split)

lemma update_keeps_mask: "gr_button_mask (snd (gesture_update t b p r)) = gr_button_mask r"
  by (auto simp: gesture_update_def release_pressed_def hold_pressed_def Let_def split: GestureState.split)

lemma run_keeps_mask: "gr_button_mask (snd (gesture_run ss r)) = gr_button_mask r"
  by (induction ss arbitrary: r) (simp_all add: gesture_run_Cons update_keeps_mask del: gesture_run.simps(2))

section \<open>Drags are bracketed\<close>

text \<open>The events a listener can rely on: inside a drag only moves and the end of this drag, outside none of
  these.\<close>

fun drag_trace :: "pos2 option \<Rightarrow> GestureEvent list \<Rightarrow> bool" where
  "drag_trace d [] = True"
| "drag_trace None (DragStart s m # es) = drag_trace (Some s) es"
| "drag_trace None (Click p m # es) = drag_trace None es"
| "drag_trace None (DoubleClick p m # es) = drag_trace None es"
| "drag_trace None (LongPress p m # es) = drag_trace None es"
| "drag_trace (Some s) (Dragging s' c m # es) = (s = s' \<and> drag_trace (Some s) es)"
| "drag_trace (Some s) (DragEnd s' e m # es) = (s = s' \<and> drag_trace None es)"
| "drag_trace d es = False"

definition drag_of :: "GestureRecognizer \<Rightarrow> pos2 option" where
  "drag_of r = (if gr_state r = DraggingState then Some (gr_press_pos r) else None)"

lemma drag_trace_update:
  "drag_trace (drag_of r) (fst (gesture_update t b p r) @ es) \<longleftrightarrow> drag_trace (drag_of (snd (gesture_update t b p r))) es"
  by (cases "gr_state r")
    (simp_all add: gesture_update_def release_pressed_def hold_pressed_def Let_def drag_of_def)

lemma drag_trace_run:
  "drag_trace (drag_of r) (fst (gesture_run ss r) @ es) \<longleftrightarrow> drag_trace (drag_of (snd (gesture_run ss r))) es"
  by (induction ss arbitrary: r) (simp_all add: gesture_run_Cons drag_trace_update del: gesture_run.simps(2))

section \<open>What a press is recognised as\<close>

text \<open>After \<open>i\<close> ticks a held button has become a long press or a drag.\<close>

definition decided :: "pos2 \<Rightarrow> nat \<Rightarrow> pos2 \<Rightarrow> bool" where
  "decided p0 i p \<longleftrightarrow> (30 \<le> i \<and> pos_dist p p0 < 5) \<or> (9 \<le> i \<and> 5 \<le> pos_dist p p0)"

definition undecided_for :: "pos2 \<Rightarrow> nat \<Rightarrow> pos2 list \<Rightarrow> nat" where
  "undecided_for p0 i ps = length (takeWhile (\<lambda>(j, p). \<not> decided p0 j p) (enumerate i ps))"

lemma undecided_simps [simp]:
  "undecided_for p0 i [] = 0"
  "undecided_for p0 i (p # ps) = (if decided p0 i p then 0 else Suc (undecided_for p0 (Suc i) ps))"
  by (simp_all add: undecided_for_def)

definition near_last_click :: "u64 \<Rightarrow> pos2 \<Rightarrow> (u64 \<times> pos2) option \<Rightarrow> bool" where
  "near_last_click t q lc = (case lc of None \<Rightarrow> False
     | Some (lt, lp) \<Rightarrow> unat t - unat lt < 24 \<and> pos_dist q lp < 10)"

text \<open>A press at \<open>p0\<close>, held over the positions \<open>ps\<close> of the following ticks (the first of them after \<open>i\<close> ticks)
  and released at \<open>q\<close> in tick \<open>t\<close>: the events and the click to remember.\<close>

definition press_outcome ::
  "u8 \<Rightarrow> u64 \<Rightarrow> (u64 \<times> pos2) option \<Rightarrow> pos2 \<Rightarrow> nat \<Rightarrow> pos2 list \<Rightarrow> pos2 \<Rightarrow> GestureEvent list \<times> (u64 \<times> pos2) option" where
  "press_outcome m t lc p0 i ps q =
     (let k = undecided_for p0 i ps
      in if k = length ps
         then if length ps + i < 18 \<and> pos_dist q p0 < 5
              then if near_last_click t q lc then ([DoubleClick q m], None) else ([Click q m], Some (t, q))
              else ([], lc)
         else if pos_dist (ps ! k) p0 < 5 then ([LongPress p0 m], lc)
         else (DragStart p0 m # map (\<lambda>c. Dragging p0 c m) (tl (remdups_adj (drop k ps))) @ [DragEnd p0 q m], lc))"

primrec held_samples :: "u8 \<Rightarrow> u64 \<Rightarrow> pos2 list \<Rightarrow> (u64 \<times> u8 \<times> pos2) list" where
  "held_samples b t [] = []"
| "held_samples b t (p # ps) = (t, b, p) # held_samples b (t + 1) ps"

definition press_samples :: "u64 \<Rightarrow> u8 \<Rightarrow> u8 \<Rightarrow> pos2 list \<Rightarrow> pos2 \<Rightarrow> (u64 \<times> u8 \<times> pos2) list" where
  "press_samples t b b' ps q = held_samples b t ps @ [(t + of_nat (length ps), b', q)]"

lemma press_samples_simps [simp]:
  "press_samples t b b' [] q = [(t, b', q)]"
  "press_samples t b b' (p # ps) q = (t, b, p) # press_samples (t + 1) b b' ps q"
  by (simp_all add: press_samples_def)

lemma remdups_adj_moved:
  "tl (remdups_adj (l # p # ps)) = (if l = p then [] else [p]) @ tl (remdups_adj (p # ps))"
  by (cases "remdups_adj (p # ps)") (simp_all, metis list.sel(1) list.sel(3) remdups_adj_Cons_alt hd_remdups_adj list.exhaust_sel)

lemma run_dragging:
  assumes "gr_state r = DraggingState" "b AND gr_button_mask r \<noteq> 0" "b' AND gr_button_mask r = 0"
  shows "fst (gesture_run (press_samples t b b' ps q) r)
      = map (\<lambda>c. Dragging (gr_press_pos r) c (gr_button_mask r)) (tl (remdups_adj (gr_last_pos r # ps)))
        @ [DragEnd (gr_press_pos r) q (gr_button_mask r)]
    \<and> gr_state (snd (gesture_run (press_samples t b b' ps q) r)) = Idle
    \<and> gr_last_click (snd (gesture_run (press_samples t b b' ps q) r)) = gr_last_click r"
  using assms
proof (induction ps arbitrary: t r)
  case (Cons p ps)
  let ?r = "r\<lparr>gr_last_pos := p\<rparr>"
  have "gesture_update t b p r
      = (if p \<noteq> gr_last_pos r then [Dragging (gr_press_pos r) p (gr_button_mask r)] else [], ?r)"
    using Cons.prems by (simp add: gesture_update_def)
  then show ?case
    using Cons.IH [of ?r "t + 1"] Cons.prems
    by (auto simp: Let_def remdups_adj_moved split: prod.split simp del: remdups_adj.simps)
qed (simp add: gesture_update_def)

lemma run_waiting:
  assumes "gr_state r = WaitForRelease" "b AND gr_button_mask r \<noteq> 0" "b' AND gr_button_mask r = 0"
  shows "gesture_run (press_samples t b b' ps q) r = ([], r\<lparr>gr_state := Idle\<rparr>)"
  using assms by (induction ps arbitrary: t) (simp_all add: gesture_update_def)

lemma elapsed_word:
  assumes "unat (t0 :: u64) + i < 2 ^ 64"
  shows "saturating_sub (t0 + of_nat i) t0 = of_nat i" "unat (of_nat i :: u64) = i"
proof -
  show u: "unat (of_nat i :: u64) = i" using assms by (simp add: unat_of_nat)
  have "unat (t0 + of_nat i) = unat t0 + i" using assms u by (simp add: unat_word_ariths)
  then show "saturating_sub (t0 + of_nat i) t0 = of_nat i"
    by (simp add: saturating_sub_def word_le_nat_alt)
qed

lemmas gesture_limits = CLICK_MAX_TICKS_def CLICK_MAX_DISTANCE_def DOUBLE_CLICK_MAX_TICKS_def
  DOUBLE_CLICK_MAX_DISTANCE_def LONG_PRESS_MIN_TICKS_def DRAG_MIN_TICKS_def DRAG_MIN_DISTANCE_def

lemma is_double_near: "is_double t q lc = near_last_click t q lc"
  by (simp add: is_double_def near_last_click_def sint_manhattan gesture_limits word_less_nat_alt split: option.split)

lemma run_pressed:
  assumes "gr_state r = Pressed" "gr_press_tick r = t0" "b AND gr_button_mask r \<noteq> 0" "b' AND gr_button_mask r = 0"
    and "unat t0 + i + length ps < 2 ^ 64"
  shows "fst (gesture_run (press_samples (t0 + of_nat i) b b' ps q) r)
      = fst (press_outcome (gr_button_mask r) (t0 + of_nat (i + length ps)) (gr_last_click r) (gr_press_pos r) i ps q)
    \<and> gr_state (snd (gesture_run (press_samples (t0 + of_nat i) b b' ps q) r)) = Idle
    \<and> gr_last_click (snd (gesture_run (press_samples (t0 + of_nat i) b b' ps q) r))
      = snd (press_outcome (gr_button_mask r) (t0 + of_nat (i + length ps)) (gr_last_click r) (gr_press_pos r) i ps q)"
  using assms
proof (induction ps arbitrary: i r)
  case Nil
  then show ?case
    using elapsed_word [of t0 i]
    by (auto simp: gesture_update_def release_pressed_def press_outcome_def sint_manhattan gesture_limits
        is_double_near word_less_nat_alt Let_def)
next
  case (Cons p ps)
  let ?p0 = "gr_press_pos r" and ?m = "gr_button_mask r"
  have len: "unat t0 + i < 2 ^ 64" using Cons.prems(5) by simp
  have next_tick: "t0 + of_nat i + 1 = t0 + of_nat (Suc i)" by simp
  have upd: "gesture_update (t0 + of_nat i) b p r = hold_pressed (t0 + of_nat i) p r"
    using Cons.prems by (simp add: gesture_update_def)
  have hold: "hold_pressed (t0 + of_nat i) p r =
      (if 30 \<le> i \<and> pos_dist p ?p0 < 5 then ([LongPress ?p0 ?m], r\<lparr>gr_state := WaitForRelease\<rparr>)
       else if 9 \<le> i \<and> 5 \<le> pos_dist p ?p0 then ([DragStart ?p0 ?m], r\<lparr>gr_last_pos := p, gr_state := DraggingState\<rparr>)
       else ([], r))"
    using Cons.prems(2) elapsed_word [OF len]
    by (simp add: hold_pressed_def sint_manhattan gesture_limits word_le_nat_alt Let_def)
  consider (long) "30 \<le> i" "pos_dist p ?p0 < 5" | (drag) "9 \<le> i" "5 \<le> pos_dist p ?p0" | (undecided) "\<not> decided ?p0 i p"
    by (auto simp: decided_def)
  then show ?case
  proof cases
    case long
    then show ?thesis
      using run_waiting [of "r\<lparr>gr_state := WaitForRelease\<rparr>" b b'] Cons.prems
      by (simp add: upd hold press_outcome_def decided_def)
  next
    case drag
    then show ?thesis
      using run_dragging [of "r\<lparr>gr_last_pos := p, gr_state := DraggingState\<rparr>" b b' "t0 + of_nat i + 1" ps q] Cons.prems
      by (auto simp: upd hold press_outcome_def decided_def Let_def split: prod.split)
  next
    case undecided
    then have "hold_pressed (t0 + of_nat i) p r = ([], r)" unfolding hold by (auto simp: decided_def)
    with undecided show ?thesis
      using Cons.IH [of r "Suc i"] Cons.prems
      by (simp add: upd next_tick press_outcome_def Let_def split: prod.split)
  qed
qed

section \<open>Sessions\<close>

text \<open>A press with the samples of the idle ticks that follow it.\<close>

record press =
  pr_tick :: u64
  pr_down :: u8
  pr_up :: u8
  pr_at :: pos2
  pr_held :: "pos2 list"
  pr_release :: pos2
  pr_pause :: "(u64 \<times> u8 \<times> pos2) list"

definition press_ok :: "u8 \<Rightarrow> press \<Rightarrow> bool" where
  "press_ok m p \<longleftrightarrow> pr_down p AND m \<noteq> 0 \<and> pr_up p AND m = 0 \<and> unat (pr_tick p) + length (pr_held p) + 1 < 2 ^ 64
     \<and> list_all (\<lambda>s. fst (snd s) AND m = 0) (pr_pause p)"

definition samples_of :: "press \<Rightarrow> (u64 \<times> u8 \<times> pos2) list" where
  "samples_of p = press_samples (pr_tick p) (pr_down p) (pr_up p) (pr_at p # pr_held p) (pr_release p) @ pr_pause p"

definition outcome_of :: "u8 \<Rightarrow> (u64 \<times> pos2) option \<Rightarrow> press \<Rightarrow> GestureEvent list \<times> (u64 \<times> pos2) option" where
  "outcome_of m lc p =
     press_outcome m (pr_tick p + of_nat (Suc (length (pr_held p)))) lc (pr_at p) 1 (pr_held p) (pr_release p)"

primrec session_outcome :: "u8 \<Rightarrow> (u64 \<times> pos2) option \<Rightarrow> press list \<Rightarrow> GestureEvent list" where
  "session_outcome m lc [] = []"
| "session_outcome m lc (p # ps) = fst (outcome_of m lc p) @ session_outcome m (snd (outcome_of m lc p)) ps"

lemma run_idle:
  assumes "gr_state r = Idle" "list_all (\<lambda>s. fst (snd s) AND gr_button_mask r = 0) ss"
  shows "gesture_run ss r = ([], r)"
  using assms by (induction ss) (simp_all add: gesture_update_def)

lemma run_press:
  assumes "gr_state r = Idle" "press_ok (gr_button_mask r) p"
  shows "fst (gesture_run (samples_of p) r) = fst (outcome_of (gr_button_mask r) (gr_last_click r) p)"
    and "gr_state (snd (gesture_run (samples_of p) r)) = Idle"
    and "gr_last_click (snd (gesture_run (samples_of p) r)) = snd (outcome_of (gr_button_mask r) (gr_last_click r) p)"
proof -
  let ?ps = "pr_held p" and ?t = "pr_tick p" and ?b = "pr_down p" and ?b' = "pr_up p" and ?q = "pr_release p"
  let ?r = "r\<lparr>gr_state := Pressed, gr_press_tick := ?t, gr_press_pos := pr_at p, gr_last_pos := pr_at p\<rparr>"
  let ?run = "gesture_run (press_samples ?t ?b ?b' (pr_at p # ?ps) ?q) r"
  have ok: "?b AND gr_button_mask r \<noteq> 0" "?b' AND gr_button_mask r = 0" "unat ?t + 1 + length ?ps < 2 ^ 64"
    "list_all (\<lambda>s. fst (snd s) AND gr_button_mask r = 0) (pr_pause p)"
    using assms(2) by (auto simp: press_ok_def)
  have "gesture_update ?t ?b (pr_at p) r = ([], ?r)" using assms(1) ok by (simp add: gesture_update_def)
  then have run: "?run = gesture_run (press_samples (?t + 1) ?b ?b' ?ps ?q) ?r" by simp
  have out: "fst ?run = fst (outcome_of (gr_button_mask r) (gr_last_click r) p) \<and> gr_state (snd ?run) = Idle
      \<and> gr_last_click (snd ?run) = snd (outcome_of (gr_button_mask r) (gr_last_click r) p)"
    unfolding run using run_pressed [of ?r ?t ?b ?b' 1 ?ps ?q] ok by (simp add: outcome_of_def add.assoc)
  have "gesture_run (pr_pause p) (snd ?run) = ([], snd ?run)"
    using out ok(4) run_keeps_mask [of "press_samples ?t ?b ?b' (pr_at p # ?ps) ?q" r] by (intro run_idle) (simp_all only:)
  then have "gesture_run (samples_of p) r = ?run"
    unfolding samples_of_def gesture_run_append by (simp only: append_Nil2 fst_conv snd_conv prod.collapse)
  with out show "fst (gesture_run (samples_of p) r) = fst (outcome_of (gr_button_mask r) (gr_last_click r) p)"
    "gr_state (snd (gesture_run (samples_of p) r)) = Idle"
    "gr_last_click (snd (gesture_run (samples_of p) r)) = snd (outcome_of (gr_button_mask r) (gr_last_click r) p)"
    by simp_all
qed

lemma run_session:
  assumes "gr_state r = Idle" "list_all (press_ok (gr_button_mask r)) ps"
  shows "fst (gesture_run (concat (map samples_of ps)) r) = session_outcome (gr_button_mask r) (gr_last_click r) ps"
  using assms
proof (induction ps arbitrary: r)
  case (Cons p ps)
  then have p: "press_ok (gr_button_mask r) p" by simp
  note step = run_press [OF Cons.prems(1) p]
  show ?case
    using Cons.IH [of "snd (gesture_run (samples_of p) r)"] Cons.prems(2) step
    by (simp add: gesture_run_append run_keeps_mask)
qed simp

section \<open>Properties\<close>

text \<open>C35: over any sequence of presses the state machine recognises exactly what the thresholds describe: a
  press shorter than 18 ticks that ends within 5 pixels of its start is a click, or a double click when the
  last click was less than 24 ticks and 10 pixels away; a press that is within 5 pixels at its 30th tick or
  later, before it moved, is one long press; one that is 5 pixels away at its 9th tick or later is a drag,
  with one event for each move and its end; anything else is nothing.\<close>
theorem presses_recognised:
  assumes "gr_state r = Idle" "list_all (press_ok (gr_button_mask r)) ps"
  shows "fst (gesture_run (concat (map samples_of ps)) r) = session_outcome (gr_button_mask r) (gr_last_click r) ps"
  using assms by (rule run_session)

definition toy_press :: "u64 \<Rightarrow> pos2 list \<Rightarrow> pos2 \<Rightarrow> press" where
  "toy_press t ps q = \<lparr>pr_tick = t, pr_down = 3, pr_up = 2, pr_at = (40, 40), pr_held = ps, pr_release = q, pr_pause = []\<rparr>"

definition toy_path :: "pos2 list" where
  "toy_path = [(50, 40), (50, 40), (50, 40), (50, 40), (50, 40), (50, 40), (50, 40), (50, 40), (50, 40)]"

definition toy_session :: "press list" where
  "toy_session = [toy_press 5 [] (42, 41), toy_press 10 [(40, 40)] (40, 40), toy_press 20 (toy_path @ [(60, 40)]) (61, 40)]"

theorem presses_recognised_witness:
  "fst (gesture_run (concat (map samples_of toy_session)) (recognizer_new 1))
   = [Click (42, 41) 1, DoubleClick (40, 40) 1, DragStart (40, 40) 1, Dragging (40, 40) (60, 40) 1, DragEnd (40, 40) (61, 40) 1]"
proof -
  have ok: "list_all (press_ok 1) toy_session"
    by (simp add: toy_session_def toy_press_def press_ok_def toy_path_def)
  have "fst (gesture_run (concat (map samples_of toy_session)) (recognizer_new 1)) = session_outcome 1 None toy_session"
    using presses_recognised [of "recognizer_new 1" toy_session] ok by (simp add: recognizer_new_def)
  then show ?thesis
    by (simp add: toy_session_def toy_press_def outcome_of_def press_outcome_def decided_def pos_dist_def
        near_last_click_def toy_path_def)
qed

text \<open>whatever the buttons, positions and ticks, the events of a recogniser form bracketed drags: moves and
  ends occur only between a start and its end, they carry the position where the drag started, and no click,
  long press or other start comes in between.\<close>
lemma drags_bracketed:
  "drag_trace None (fst (gesture_run ss (recognizer_new m)))"
  using drag_trace_run [of "recognizer_new m" ss "[]"]
  by (cases "drag_of (snd (gesture_run ss (recognizer_new m)))") (simp_all add: drag_of_def recognizer_new_def)

text \<open>The two clicks of a double click need not follow each other: a drag in between is not seen.\<close>

lemma double_click_across_drag:
  "session_outcome 1 None [toy_press 0 [] (40, 40), toy_press 2 toy_path (50, 40), toy_press 13 [] (40, 40)]
   = [Click (40, 40) 1, DragStart (40, 40) 1, DragEnd (40, 40) (50, 40) 1, DoubleClick (40, 40) 1]"
  by (simp add: toy_press_def outcome_of_def press_outcome_def decided_def pos_dist_def near_last_click_def toy_path_def)

text \<open>What the scripts receive mirrors what the game receives, one input for each event, in order.\<close>

lemma publish_all:
  "fold (publish_gesture J) es st
     = (fst st @ es, snd st @ map (\<lambda>e. \<lparr>si_input_type = ''gesture'', si_data = gesture_event_to_json J e\<rparr>) es)"
  by (induction es arbitrary: st) (simp_all add: publish_gesture_def pending_push_def)

lemma system_events:
  "gesture_recognition_system J raw tick rs st =
     (let steps = map (gesture_update (ft_count tick) (ri_mouse_buttons raw) (ri_mouse_pos raw)) rs;
          events = concat (map fst steps)
      in (map snd steps, fst st @ events,
          snd st @ map (\<lambda>e. \<lparr>si_input_type = ''gesture'', si_data = gesture_event_to_json J e\<rparr>) events))"
  by (induction rs arbitrary: st) (simp_all add: Let_def split_beta publish_all)

end
