(* ===== verification/Camera_Overrides.thy ===== *)
theory Camera_Overrides
  imports Script_Bridge Id_Allocator
begin

text \<open>
  Camera overrides (\<^verbatim>\<open>engine/bevy_runtime/src/camera\<close>: \<open>override_stack.rs\<close>, \<open>camera_registry.rs\<close>,
  \<open>cinematic.rs\<close>, \<open>events.rs\<close>, and the flush of camera operations in \<open>camera_flush.rs\<close>): the stack of
  overrides of a camera ordered by priority, the table of handles under which scripts address cameras, and
  the way of an operation from the queue of the bridge to the cameras it names. Native float arithmetic and
  the vector functions of glam are parameters; comparisons are those of \<open>Native_Float\<close>. A query of Bevy is
  the list of its results.
\<close>

section \<open>Floats and vectors\<close>

type_synonym vec2 = "f32 \<times> f32"
type_synonym vec3 = "f32 \<times> f32 \<times> f32"

record float_env =
  fe_add :: "f32 \<Rightarrow> f32 \<Rightarrow> f32"
  fe_sub :: "f32 \<Rightarrow> f32 \<Rightarrow> f32"
  fe_mul :: "f32 \<Rightarrow> f32 \<Rightarrow> f32"
  fe_div :: "f32 \<Rightarrow> f32 \<Rightarrow> f32"
  fe_exp :: "f32 \<Rightarrow> f32"
  fe_lerp2 :: "vec2 \<Rightarrow> vec2 \<Rightarrow> f32 \<Rightarrow> vec2"

definition f32_neg :: "f32 \<Rightarrow> f32" where "f32_neg w = w XOR 0x80000000"

definition f32_min :: "f32 \<Rightarrow> f32 \<Rightarrow> f32" where
  "f32_min x y = (if f32_is_nan x then y else if f32_is_nan y then x else if f32_lt y x then y else x)"

text \<open>Every system caps the frame time at 0.1 seconds.\<close>

definition capped_dt :: "f32 \<Rightarrow> f32" where
  "capped_dt delta_secs = f32_min delta_secs 0x3DCCCCCD"

definition decay_factor :: "float_env \<Rightarrow> f32 \<Rightarrow> f32 \<Rightarrow> f32" where
  "decay_factor F speed dt =
     (let speed = f32_max speed f32_zero; dt = f32_max dt f32_zero
      in fe_sub F f32_one (fe_exp F (fe_mul F (f32_neg speed) dt)))"

record CameraZoom =
  cz_current :: f32
  cz_min :: f32
  cz_max :: f32
  cz_scroll_speed :: f32
  cz_speed :: f32
  cz_target :: f32

section \<open>The override stack\<close>

record Override =
  ov_id :: u64
  ov_target_position :: vec2
  ov_target_zoom :: "f32 option"
  ov_speed :: f32
  ov_priority :: u32
  ov_remaining :: "f32 option"

record PushOverrideParams =
  po_target_position :: vec2
  po_target_zoom :: "f32 option"
  po_speed :: f32
  po_priority :: u32
  po_duration :: "f32 option"

record CameraOverrideStack =
  os_entries :: "Override list"
  os_next_id :: u64

definition override_stack_default :: CameraOverrideStack where
  "override_stack_default = \<lparr>os_entries = [], os_next_id = 0\<rparr>"

text \<open>\<open>Iterator::position\<close>, \<open>rposition\<close> and \<open>Vec::insert\<close>, \<open>Vec::remove\<close>.\<close>

primrec first_index :: "('a \<Rightarrow> bool) \<Rightarrow> 'a list \<Rightarrow> nat option" where
  "first_index P [] = None"
| "first_index P (x # xs) = (if P x then Some 0 else map_option Suc (first_index P xs))"

primrec last_index :: "('a \<Rightarrow> bool) \<Rightarrow> 'a list \<Rightarrow> nat option" where
  "last_index P [] = None"
| "last_index P (x # xs) = (case last_index P xs of
       Some i \<Rightarrow> Some (Suc i)
     | None \<Rightarrow> if P x then Some 0 else None)"

definition vec_insert :: "nat \<Rightarrow> 'a \<Rightarrow> 'a list \<Rightarrow> 'a list" where
  "vec_insert i x xs = take i xs @ x # drop i xs"

definition vec_remove :: "nat \<Rightarrow> 'a list \<Rightarrow> 'a list" where
  "vec_remove i xs = take i xs @ drop (Suc i) xs"

definition override_entry :: "u64 \<Rightarrow> PushOverrideParams \<Rightarrow> Override" where
  "override_entry i params =
     \<lparr>ov_id = i, ov_target_position = po_target_position params, ov_target_zoom = po_target_zoom params,
      ov_speed = po_speed params, ov_priority = po_priority params,
      ov_remaining = map_option (\<lambda>d. if f32_lt d f32_zero then f32_zero else d) (po_duration params)\<rparr>"

definition override_push :: "PushOverrideParams \<Rightarrow> CameraOverrideStack \<Rightarrow> u64 \<times> CameraOverrideStack" where
  "override_push params s =
     (let i = os_next_id s;
          s = s\<lparr>os_next_id := os_next_id s + 1\<rparr>;
          entry = override_entry i params;
          insert_at = (case last_index (\<lambda>e. sint (ov_priority e) \<le> sint (ov_priority entry)) (os_entries s) of
              None \<Rightarrow> 0
            | Some j \<Rightarrow> j + 1)
      in (i, s\<lparr>os_entries := vec_insert insert_at entry (os_entries s)\<rparr>))"

definition override_remove_by_id :: "u64 \<Rightarrow> CameraOverrideStack \<Rightarrow> Override option \<times> CameraOverrideStack" where
  "override_remove_by_id i s = (case first_index (\<lambda>e. ov_id e = i) (os_entries s) of
       Some idx \<Rightarrow> (Some (os_entries s ! idx), s\<lparr>os_entries := vec_remove idx (os_entries s)\<rparr>)
     | None \<Rightarrow> (None, s))"

definition override_pop_top :: "CameraOverrideStack \<Rightarrow> Override option \<times> CameraOverrideStack" where
  "override_pop_top s =
     (if os_entries s = [] then (None, s)
      else (Some (last (os_entries s)), s\<lparr>os_entries := butlast (os_entries s)\<rparr>))"

definition override_top :: "CameraOverrideStack \<Rightarrow> Override option" where
  "override_top s = (if os_entries s = [] then None else Some (last (os_entries s)))"

definition override_clear :: "CameraOverrideStack \<Rightarrow> CameraOverrideStack" where
  "override_clear s = s\<lparr>os_entries := []\<rparr>"

text \<open>The loop of the tick system: from the last index down to the first.\<close>

primrec override_tick_loop :: "float_env \<Rightarrow> f32 \<Rightarrow> nat \<Rightarrow> Override list \<Rightarrow> Override list" where
  "override_tick_loop F dt 0 entries = entries"
| "override_tick_loop F dt (Suc i) entries =
     override_tick_loop F dt i
       (case ov_remaining (entries ! i) of
          None \<Rightarrow> entries
        | Some remaining \<Rightarrow>
            (let new_remaining = fe_sub F remaining dt
             in if f32_le new_remaining f32_zero then vec_remove i entries
                else entries[i := (entries ! i)\<lparr>ov_remaining := Some new_remaining\<rparr>]))"

definition override_tick :: "float_env \<Rightarrow> f32 \<Rightarrow> CameraOverrideStack \<Rightarrow> CameraOverrideStack" where
  "override_tick F dt s = s\<lparr>os_entries := override_tick_loop F dt (length (os_entries s)) (os_entries s)\<rparr>"

definition override_stack_tick_system :: "float_env \<Rightarrow> f32 \<Rightarrow> CameraOverrideStack list \<Rightarrow> CameraOverrideStack list" where
  "override_stack_tick_system F delta_secs query = map (override_tick F (capped_dt delta_secs)) query"

definition override_apply_one ::
  "float_env \<Rightarrow> f32 \<Rightarrow> CameraOverrideStack \<times> vec3 \<times> CameraZoom option \<Rightarrow> CameraOverrideStack \<times> vec3 \<times> CameraZoom option" where
  "override_apply_one F dt c = (case c of (stack, (x, y, z), zoom_opt) \<Rightarrow>
     case override_top stack of
       None \<Rightarrow> c
     | Some entry \<Rightarrow>
         (let factor = decay_factor F (ov_speed entry) dt;
              new_pos = fe_lerp2 F (x, y) (ov_target_position entry) factor;
              zoom = (case (ov_target_zoom entry, zoom_opt) of
                  (Some target_zoom, Some zoom) \<Rightarrow> Some (zoom\<lparr>cz_target := target_zoom\<rparr>)
                | _ \<Rightarrow> zoom_opt)
          in (stack, (fst new_pos, snd new_pos, z), zoom)))"

definition override_apply_system ::
  "float_env \<Rightarrow> f32 \<Rightarrow> (CameraOverrideStack \<times> vec3 \<times> CameraZoom option) list \<Rightarrow> (CameraOverrideStack \<times> vec3 \<times> CameraZoom option) list" where
  "override_apply_system F delta_secs query = map (override_apply_one F (capped_dt delta_secs)) query"

section \<open>Requests\<close>

datatype CameraOverrideOp = OpPush PushOverrideParams | OpRemoveById u64 | OpPopTop | OpClear

record 'e CameraOverrideRequest =
  or_camera :: "'e option"
  or_op :: CameraOverrideOp

primrec apply_override_op :: "CameraOverrideOp \<Rightarrow> CameraOverrideStack \<Rightarrow> CameraOverrideStack" where
  "apply_override_op (OpPush params) stack = snd (override_push params stack)"
| "apply_override_op (OpRemoveById i) stack = snd (override_remove_by_id i stack)"
| "apply_override_op OpPopTop stack = snd (override_pop_top stack)"
| "apply_override_op OpClear stack = override_clear stack"

definition override_event_handler_system ::
  "'e CameraOverrideRequest list \<Rightarrow> ('e \<times> CameraOverrideStack) list \<Rightarrow> ('e \<times> CameraOverrideStack) list" where
  "override_event_handler_system events query =
     fold (\<lambda>ev query. map (\<lambda>(entity, stack).
         (case or_camera ev of
            Some target \<Rightarrow> if target \<noteq> entity then (entity, stack) else (entity, apply_override_op (or_op ev) stack)
          | None \<Rightarrow> (entity, apply_override_op (or_op ev) stack))) query) events query"

section \<open>Cinematic cameras\<close>

record CameraCinematic =
  cc_target_position :: vec2
  cc_target_zoom :: f32
  cc_speed :: f32
  cc_priority :: u32

record cinematic_camera =
  cm_stack :: "CameraOverrideStack option"
  cm_shadow :: "u64 option" \<comment> \<open>\<open>CameraCinematicShadow\<close>\<close>

definition on_cinematic_added :: "CameraCinematic \<Rightarrow> cinematic_camera \<Rightarrow> cinematic_camera" where
  "on_cinematic_added cin c = (case cm_stack c of
       Some stack \<Rightarrow>
         (let (i, stack) = override_push
              \<lparr>po_target_position = cc_target_position cin, po_target_zoom = Some (cc_target_zoom cin),
               po_speed = cc_speed cin, po_priority = cc_priority cin, po_duration = None\<rparr> stack
          in c\<lparr>cm_stack := Some stack, cm_shadow := Some i\<rparr>)
     | None \<Rightarrow> c)"

definition on_cinematic_removed :: "cinematic_camera \<Rightarrow> cinematic_camera" where
  "on_cinematic_removed c = (case (cm_shadow c, cm_stack c) of
       (Some i, Some stack) \<Rightarrow> c\<lparr>cm_stack := Some (snd (override_remove_by_id i stack)), cm_shadow := None\<rparr>
     | _ \<Rightarrow> c)"

section \<open>The registry of camera handles\<close>

record 'e CameraRegistry =
  cr_handle_to_entity :: "(u32, 'e) btree"
  cr_entity_to_handle :: "('e, u32) btree"
  cr_next_id :: u32

definition camera_registry_default :: "'e CameraRegistry" where
  "camera_registry_default = \<lparr>cr_handle_to_entity = [], cr_entity_to_handle = [], cr_next_id = 1\<rparr>"

datatype RegisterError = HandleAlreadyTaken u32

definition camera_resolve :: "'e CameraRegistry \<Rightarrow> u32 \<Rightarrow> 'e option" where
  "camera_resolve r handle = (if handle = 0 then None else bm_get (cr_handle_to_entity r) handle)"

definition camera_register ::
  "'e::linorder \<Rightarrow> u32 option \<Rightarrow> 'e CameraRegistry \<Rightarrow> (RegisterError + u32) \<times> 'e CameraRegistry" where
  "camera_register entity requested r = (case bm_get (cr_entity_to_handle r) entity of
       Some existing \<Rightarrow> (Inr existing, r)
     | None \<Rightarrow>
         (let record_handle = (\<lambda>handle r. (Inr handle,
                r\<lparr>cr_handle_to_entity := bm_insert handle entity (cr_handle_to_entity r),
                  cr_entity_to_handle := bm_insert entity handle (cr_entity_to_handle r)\<rparr>))
          in if requested = None \<or> requested = Some 0
             then record_handle (cr_next_id r) (r\<lparr>cr_next_id := cr_next_id r + 1\<rparr>)
             else let n = the requested
                  in if bm_get (cr_handle_to_entity r) n \<noteq> None then (Inl (HandleAlreadyTaken n), r)
                     else record_handle n (if cr_next_id r \<le> n then r\<lparr>cr_next_id := n + 1\<rparr> else r)))"

definition camera_unregister :: "'e \<Rightarrow> 'e CameraRegistry \<Rightarrow> u32 option \<times> 'e CameraRegistry" where
  "camera_unregister entity r = (case bm_get (cr_entity_to_handle r) entity of
       None \<Rightarrow> (None, r)
     | Some handle \<Rightarrow>
         (Some handle,
          r\<lparr>cr_entity_to_handle := bm_remove entity (cr_entity_to_handle r),
            cr_handle_to_entity := bm_remove handle (cr_handle_to_entity r)\<rparr>))"

definition bridge_camera_register_system ::
  "('e::linorder \<times> u32 option) list \<Rightarrow> 'e CameraRegistry \<Rightarrow> 'e CameraRegistry" where
  "bridge_camera_register_system added r = fold (\<lambda>(entity, handle) r. snd (camera_register entity handle r)) added r"

definition bridge_camera_unregister_system :: "'e list \<Rightarrow> 'e CameraRegistry \<Rightarrow> 'e CameraRegistry" where
  "bridge_camera_unregister_system removed r = fold (\<lambda>entity r. snd (camera_unregister entity r)) removed r"

section \<open>The loops in closed form\<close>

lemma last_index_split:
  assumes "sorted_wrt (\<lambda>a b. P b \<longrightarrow> P a) xs"
  shows "take (case last_index P xs of None \<Rightarrow> 0 | Some j \<Rightarrow> j + 1) xs = filter P xs"
    and "drop (case last_index P xs of None \<Rightarrow> 0 | Some j \<Rightarrow> j + 1) xs = filter (\<lambda>x. \<not> P x) xs"
proof -
  have none: "last_index P ys = None \<longleftrightarrow> (\<forall>y \<in> set ys. \<not> P y)" for ys
    by (induction ys) (auto split: option.split)
  have "take (case last_index P xs of None \<Rightarrow> 0 | Some j \<Rightarrow> j + 1) xs = filter P xs
      \<and> drop (case last_index P xs of None \<Rightarrow> 0 | Some j \<Rightarrow> j + 1) xs = filter (\<lambda>x. \<not> P x) xs"
    using assms
  proof (induction xs)
    case (Cons x xs)
    then show ?case
    proof (cases "last_index P xs")
      case None
      then have "\<forall>y \<in> set xs. \<not> P y" by (simp add: none)
      with None show ?thesis by (auto simp: filter_empty_conv filter_True)
    next
      case (Some j)
      then have "P x" using Cons.prems none [of xs] by (auto simp: sorted_wrt.simps)
      with Some Cons show ?thesis by simp
    qed
  qed simp
  then show "take (case last_index P xs of None \<Rightarrow> 0 | Some j \<Rightarrow> j + 1) xs = filter P xs"
    "drop (case last_index P xs of None \<Rightarrow> 0 | Some j \<Rightarrow> j + 1) xs = filter (\<lambda>x. \<not> P x) xs"
    by blast+
qed

lemma first_index_None: "first_index P xs = None \<longleftrightarrow> (\<forall>x \<in> set xs. \<not> P x)"
  by (induction xs) auto

lemma vec_remove_eq_filter:
  assumes "first_index (\<lambda>x. f x = k) xs = Some i" "distinct (map f xs)"
  shows "vec_remove i xs = filter (\<lambda>x. f x \<noteq> k) xs"
  using assms
proof (induction xs arbitrary: i)
  case (Cons x xs)
  show ?case
  proof (cases "f x = k")
    case True
    then have "\<forall>y \<in> set xs. f y \<noteq> k" using Cons.prems(2) by (auto simp: image_iff)
    with True Cons.prems(1) show ?thesis by (simp add: vec_remove_def filter_True)
  next
    case False
    then obtain j where "first_index (\<lambda>x. f x = k) xs = Some j" "i = Suc j" using Cons.prems(1) by auto
    with False Cons.IH [of j] Cons.prems(2) show ?thesis by (simp add: vec_remove_def)
  qed
qed simp

text \<open>What the tick does to one entry.\<close>

definition tick_entry :: "float_env \<Rightarrow> f32 \<Rightarrow> Override \<Rightarrow> Override option" where
  "tick_entry F dt e = (case ov_remaining e of
       None \<Rightarrow> Some e
     | Some remaining \<Rightarrow>
         if f32_le (fe_sub F remaining dt) f32_zero then None
         else Some (e\<lparr>ov_remaining := Some (fe_sub F remaining dt)\<rparr>))"

lemma tick_loop_eq:
  "n \<le> length es \<Longrightarrow> override_tick_loop F dt n es = List.map_filter (tick_entry F dt) (take n es) @ drop n es"
proof (induction n arbitrary: es)
  case (Suc n)
  let ?es = "case ov_remaining (es ! n) of
          None \<Rightarrow> es
        | Some remaining \<Rightarrow>
            (let new_remaining = fe_sub F remaining dt
             in if f32_le new_remaining f32_zero then vec_remove n es
                else es[n := (es ! n)\<lparr>ov_remaining := Some new_remaining\<rparr>])"
  have n: "n < length es" using Suc.prems by simp
  have upd: "take n ?es = take n es" "n \<le> length ?es"
    "drop n ?es = (case tick_entry F dt (es ! n) of None \<Rightarrow> [] | Some e \<Rightarrow> [e]) @ drop (Suc n) es"
    using n Cons_nth_drop_Suc [OF n]
    by (auto simp: vec_remove_def tick_entry_def drop_update_cancel upd_conv_take_nth_drop Let_def split: option.split)
  have "List.map_filter (tick_entry F dt) (take (Suc n) es)
      = List.map_filter (tick_entry F dt) (take n es) @ (case tick_entry F dt (es ! n) of None \<Rightarrow> [] | Some e \<Rightarrow> [e])"
    using n by (simp add: take_Suc_conv_app_nth map_filter_def split: option.split)
  with Suc.IH [OF upd(2)] upd show ?case by simp
qed (simp add: map_filter_def)

lemma tick_entries:
  "os_entries (override_tick F dt s) = List.map_filter (tick_entry F dt) (os_entries s)"
  by (simp add: override_tick_def tick_loop_eq)

lemma tick_entry_same: "tick_entry F dt e = Some e' \<Longrightarrow> ov_id e' = ov_id e \<and> ov_priority e' = ov_priority e"
  by (auto simp: tick_entry_def split: option.splits if_splits)

section \<open>The order of the stack\<close>

definition outranked :: "Override \<Rightarrow> Override \<Rightarrow> bool" where
  "outranked a b \<longleftrightarrow> sint (ov_priority a) < sint (ov_priority b)
     \<or> (sint (ov_priority a) = sint (ov_priority b) \<and> ov_id a < ov_id b)"

definition stack_ok :: "CameraOverrideStack \<Rightarrow> bool" where
  "stack_ok s \<longleftrightarrow> sorted_wrt outranked (os_entries s) \<and> (\<forall>e \<in> set (os_entries s). ov_id e < os_next_id s)
     \<and> distinct (map ov_id (os_entries s))"

lemma stack_ok_default [simp]: "stack_ok override_stack_default"
  by (simp add: stack_ok_def override_stack_default_def)

lemma push_entries:
  assumes "stack_ok s"
  shows "os_entries (snd (override_push params s)) =
     filter (\<lambda>e. sint (ov_priority e) \<le> sint (po_priority params)) (os_entries s)
     @ override_entry (os_next_id s) params
     # filter (\<lambda>e. \<not> sint (ov_priority e) \<le> sint (po_priority params)) (os_entries s)"
proof -
  let ?P = "\<lambda>e. sint (ov_priority e) \<le> sint (po_priority params)"
  have "sorted_wrt (\<lambda>a b. ?P b \<longrightarrow> ?P a) (os_entries s)"
    using assms by (auto simp: stack_ok_def outranked_def elim!: sorted_wrt_mono_rel [rotated])
  note parts = last_index_split [of ?P, OF this]
  have "ov_priority (override_entry i params) = po_priority params" for i by (simp add: override_entry_def)
  then show ?thesis
    by (simp add: override_push_def vec_insert_def Let_def parts [simplified])
qed

lemma remove_entries:
  assumes "distinct (map ov_id (os_entries s))"
  shows "os_entries (snd (override_remove_by_id i s)) = filter (\<lambda>e. ov_id e \<noteq> i) (os_entries s)"
proof (cases "first_index (\<lambda>e. ov_id e = i) (os_entries s)")
  case None
  then have "filter (\<lambda>e. ov_id e \<noteq> i) (os_entries s) = os_entries s"
    by (intro filter_True) (simp add: first_index_None)
  with None show ?thesis by (simp add: override_remove_by_id_def)
next
  case (Some j)
  then show ?thesis using vec_remove_eq_filter [OF Some assms] by (simp add: override_remove_by_id_def)
qed

lemma pop_entries: "os_entries (snd (override_pop_top s)) = butlast (os_entries s)"
  by (simp add: override_pop_top_def)

lemmas override_entries = push_entries remove_entries pop_entries tick_entries

lemma next_id_kept [simp]:
  "os_next_id (snd (override_push params s)) = os_next_id s + 1"
  "os_next_id (snd (override_remove_by_id i s)) = os_next_id s"
  "os_next_id (snd (override_pop_top s)) = os_next_id s"
  "os_next_id (override_clear s) = os_next_id s"
  "os_next_id (override_tick F dt s) = os_next_id s"
  by (simp_all add: override_push_def override_remove_by_id_def override_pop_top_def override_clear_def
      override_tick_def Let_def split: option.split)

datatype override_step =
    StepPush PushOverrideParams
  | StepRemove u64
  | StepPop
  | StepClear
  | StepTick f32

primrec run_override :: "float_env \<Rightarrow> override_step \<Rightarrow> CameraOverrideStack \<Rightarrow> CameraOverrideStack" where
  "run_override F (StepPush params) s = snd (override_push params s)"
| "run_override F (StepRemove i) s = snd (override_remove_by_id i s)"
| "run_override F StepPop s = snd (override_pop_top s)"
| "run_override F StepClear s = override_clear s"
| "run_override F (StepTick delta) s = override_tick F (capped_dt delta) s"

text \<open>The contract: a set of overrides and the next identifier. Popping takes away the one that no other
  outranks; ticking replaces or drops each one on its own.\<close>

primrec abs_override :: "float_env \<Rightarrow> override_step \<Rightarrow> u64 \<times> Override set \<Rightarrow> u64 \<times> Override set" where
  "abs_override F (StepPush params) a = (fst a + 1, insert (override_entry (fst a) params) (snd a))"
| "abs_override F (StepRemove i) a = (fst a, {e \<in> snd a. ov_id e \<noteq> i})"
| "abs_override F StepPop a = (fst a, {e \<in> snd a. \<exists>e' \<in> snd a. outranked e e'})"
| "abs_override F StepClear a = (fst a, {})"
| "abs_override F (StepTick delta) a = (fst a, \<Union>e \<in> snd a. set_option (tick_entry F (capped_dt delta) e))"

definition stack_abs :: "CameraOverrideStack \<Rightarrow> u64 \<times> Override set" where
  "stack_abs s = (os_next_id s, set (os_entries s))"

lemma set_map_filter: "set (List.map_filter f xs) = (\<Union>x \<in> set xs. set_option (f x))"
  by (induction xs) (auto simp: map_filter_simps split: option.split)

lemma sorted_map_filter:
  assumes "sorted_wrt R xs" "\<And>x y x' y'. R x y \<Longrightarrow> f x = Some x' \<Longrightarrow> f y = Some y' \<Longrightarrow> R x' y'"
  shows "sorted_wrt R (List.map_filter f xs)"
  using assms(1)
  by (induction xs) (auto simp: map_filter_simps set_map_filter intro: assms(2) split: option.split)

lemma ids_map_filter:
  assumes "distinct (map g xs)" "\<And>x x'. f x = Some x' \<Longrightarrow> g x' = g x"
  shows "distinct (map g (List.map_filter f xs))"
  using assms(1)
proof (induction xs)
  case (Cons x xs)
  have "g ` set (List.map_filter f xs) \<subseteq> g ` set xs"
    using assms(2) by (fastforce simp: set_map_filter)
  with Cons assms(2) [of x] show ?case by (auto simp: map_filter_simps split: option.split)
qed (simp add: map_filter_simps)

lemma outranked_trans: "outranked a b \<Longrightarrow> outranked b c \<Longrightarrow> outranked a c"
  by (auto simp: outranked_def)

lemma butlast_outranked:
  assumes "sorted_wrt outranked xs"
  shows "set (butlast xs) = {e \<in> set xs. \<exists>e' \<in> set xs. outranked e e'}"
proof (cases xs rule: rev_cases)
  case (snoc ys y)
  have "\<not> outranked y e" if "e \<in> set xs" for e
  proof -
    have "e = y \<or> outranked e y" using assms that snoc by (auto simp: sorted_wrt_append)
    then show ?thesis by (auto simp: outranked_def)
  qed
  with assms snoc show ?thesis by (auto simp: sorted_wrt_append)
qed simp

lemma stack_ok_remove: "stack_ok s \<Longrightarrow> stack_ok (snd (override_remove_by_id i s))"
  by (auto simp: stack_ok_def remove_entries sorted_wrt_filter distinct_map_filter)

lemma stack_ok_pop: "stack_ok s \<Longrightarrow> stack_ok (snd (override_pop_top s))"
  by (auto simp: stack_ok_def pop_entries butlast_conv_take sorted_wrt_take distinct_take simp flip: take_map
      dest: in_set_takeD)

lemma stack_ok_clear: "stack_ok (override_clear s)"
  by (simp add: stack_ok_def override_clear_def)

lemma stack_ok_tick:
  assumes "stack_ok s"
  shows "stack_ok (override_tick F dt s)"
proof -
  have "sorted_wrt outranked (List.map_filter (tick_entry F dt) (os_entries s))"
    using assms by (intro sorted_map_filter) (auto simp: stack_ok_def outranked_def dest!: tick_entry_same)
  moreover have "distinct (map ov_id (List.map_filter (tick_entry F dt) (os_entries s)))"
    using assms by (intro ids_map_filter) (auto simp: stack_ok_def dest!: tick_entry_same)
  ultimately show ?thesis
    using assms by (fastforce simp: stack_ok_def tick_entries set_map_filter dest!: tick_entry_same)
qed

lemma stack_ok_push:
  assumes "stack_ok s" "os_next_id s \<noteq> - 1"
  shows "stack_ok (snd (override_push params s))"
proof -
  let ?k = "sint (po_priority params)" and ?n = "os_next_id s"
  have e: "sint (ov_priority (override_entry ?n params)) = ?k" "ov_id (override_entry ?n params) = ?n"
    by (simp_all add: override_entry_def)
  have lt: "ov_id x < ?n" if "x \<in> set (os_entries s)" for x using assms(1) that by (simp add: stack_ok_def)
  have "ov_id x < ?n + 1" if "x \<in> set (os_entries s)" for x
    using lt [OF that] word_inc_less [OF assms(2)] by (rule order.strict_trans)
  moreover have "distinct (map ov_id (filter P (os_entries s)))" for P
    using assms(1) by (simp add: stack_ok_def distinct_map_filter)
  moreover have "sorted_wrt outranked (filter P (os_entries s))" for P
    using assms(1) by (simp add: stack_ok_def sorted_wrt_filter)
  moreover have "ov_id ` set (filter P (os_entries s)) \<inter> ov_id ` set (filter (\<lambda>x. \<not> P x) (os_entries s)) = {}" for P
    using assms(1) by (auto simp: stack_ok_def distinct_map dest: inj_onD)
  moreover have "?n \<notin> ov_id ` set (os_entries s)" using lt by force
  ultimately show ?thesis
    using lt word_inc_less [OF assms(2)]
    by (auto simp: stack_ok_def push_entries [OF assms(1)] sorted_wrt_append e outranked_def)
qed

lemma override_step_refines:
  assumes "stack_ok s"
  shows "stack_abs (run_override F step s) = abs_override F step (stack_abs s)"
proof (cases step)
  case (StepPush params)
  then show ?thesis using push_entries [OF assms, of params] by (auto simp: stack_abs_def)
next
  case StepPop
  then show ?thesis
    using assms butlast_outranked [of "os_entries s"] by (simp add: stack_abs_def pop_entries stack_ok_def)
qed (use assms in \<open>auto simp: stack_abs_def remove_entries stack_ok_def tick_entries set_map_filter override_clear_def\<close>)

lemma stack_ok_step:
  assumes "stack_ok s" "os_next_id s \<noteq> - 1"
  shows "stack_ok (run_override F step s)"
  using assms by (cases step) (simp_all add: stack_ok_push stack_ok_remove stack_ok_pop stack_ok_clear stack_ok_tick)

lemma unat_less_not_max: "unat (w :: u64) + Suc n < 2 ^ 64 \<Longrightarrow> w \<noteq> - 1"
  by (auto simp: unsigned_minus_1_eq_mask mask_eq_exp_minus_1)

lemma overrides_run:
  assumes "stack_ok s" "unat (os_next_id s) + length steps < 2 ^ 64"
  shows "stack_ok (fold (run_override F) steps s)
    \<and> stack_abs (fold (run_override F) steps s) = fold (abs_override F) steps (stack_abs s)"
  using assms
proof (induction steps arbitrary: s)
  case (Cons step steps)
  have ne: "os_next_id s \<noteq> - 1" using Cons.prems(2) unat_less_not_max [of "os_next_id s" "length steps"] by simp
  have "unat (os_next_id (run_override F step s)) \<le> Suc (unat (os_next_id s))"
    by (cases step) (simp_all add: unat_plus_1 [OF ne])
  then show ?case
    using Cons.IH [OF stack_ok_step [OF Cons.prems(1) ne]] Cons.prems override_step_refines [OF Cons.prems(1)] by simp
qed simp

lemma stack_top:
  assumes "stack_ok s"
  shows "override_top s = Some e \<longleftrightarrow> e \<in> set (os_entries s) \<and> (\<forall>e' \<in> set (os_entries s). e' = e \<or> outranked e' e)"
proof (cases "os_entries s" rule: rev_cases)
  case (snoc es x)
  have sorted: "sorted_wrt outranked (es @ [x])" using assms snoc by (simp add: stack_ok_def)
  have below: "\<forall>e' \<in> set es. outranked e' x" using sorted by (simp add: sorted_wrt_append)
  have entries: "override_top s = Some x" "set (os_entries s) = insert x (set es)"
    by (simp_all add: override_top_def snoc)
  have "e = x" if "e \<in> insert x (set es)" "\<forall>e' \<in> insert x (set es). e' = e \<or> outranked e' e"
  proof (rule ccontr)
    assume "e \<noteq> x"
    then have "outranked e x" "outranked x e" using that below by auto
    then show False by (auto simp: outranked_def)
  qed
  moreover have "\<forall>e' \<in> insert x (set es). e' = x \<or> outranked e' x" using below by simp
  ultimately show ?thesis unfolding entries option.inject by (metis insertI1)
qed (simp add: override_top_def)

text \<open>The identifiers of a stack are handed out like those of rooms and sessions: never twice.\<close>

primrec other_override :: "float_env \<Rightarrow> u64 + f32 + unit + unit \<Rightarrow> CameraOverrideStack \<Rightarrow> CameraOverrideStack" where
  "other_override F (Inl i) s = snd (override_remove_by_id i s)"
| "other_override F (Inr r) s = (case r of
       Inl delta \<Rightarrow> override_tick F (capped_dt delta) s
     | Inr (Inl _) \<Rightarrow> snd (override_pop_top s)
     | Inr (Inr _) \<Rightarrow> override_clear s)"

definition live_overrides :: "CameraOverrideStack \<Rightarrow> u64 set" where
  "live_overrides s = ov_id ` set (os_entries s)"

lemma push_live: "live_overrides (snd (override_push params s)) = insert (os_next_id s) (live_overrides s)"
proof -
  have "set (vec_insert i x xs) = insert x (set xs)" for i x and xs :: "Override list"
    using set_append [of "take i xs" "drop i xs"] by (simp add: vec_insert_def)
  then show ?thesis by (simp add: live_overrides_def override_push_def override_entry_def Let_def)
qed

lemma other_override_live: "live_overrides (other_override F x s) \<subseteq> live_overrides s"
proof -
  have "set (vec_remove i xs) \<subseteq> set xs" for i and xs :: "Override list"
    by (auto simp: vec_remove_def dest: in_set_takeD in_set_dropD)
  then have "live_overrides (snd (override_remove_by_id i s)) \<subseteq> live_overrides s" for i
    by (auto simp: live_overrides_def override_remove_by_id_def split: option.split)
  moreover have "live_overrides (override_tick F dt s) \<subseteq> live_overrides s" for dt
    by (force simp: live_overrides_def tick_entries set_map_filter dest!: tick_entry_same)
  moreover have "live_overrides (snd (override_pop_top s)) \<subseteq> live_overrides s"
    by (auto simp: live_overrides_def pop_entries dest: in_set_butlastD)
  moreover have "live_overrides (override_clear s) \<subseteq> live_overrides s"
    by (simp add: live_overrides_def override_clear_def)
  ultimately show ?thesis by (cases x) (simp_all split: sum.split)
qed

interpretation override_ids: id_allocator live_overrides os_next_id override_push "other_override F" for F
proof
  show "live_overrides (other_override F x s) \<subseteq> live_overrides s" for x s by (rule other_override_live)
  show "os_next_id (other_override F x s) = os_next_id s" for x s
    by (cases x) (simp_all split: sum.split)
qed (simp_all add: push_live, simp add: override_push_def Let_def)

text \<open>Removing a cinematic takes exactly the override of its addition away, whatever was pushed meanwhile is kept.\<close>

lemma cinematic_added_removed:
  assumes "stack_ok s" "os_next_id s \<noteq> - 1" "cm_stack c = Some s"
  obtains s' where "cm_stack (on_cinematic_removed (on_cinematic_added cin c)) = Some s'"
    and "set (os_entries s') = set (os_entries s)" "cm_shadow (on_cinematic_removed (on_cinematic_added cin c)) = None"
proof -
  let ?params = "\<lparr>po_target_position = cc_target_position cin, po_target_zoom = Some (cc_target_zoom cin),
      po_speed = cc_speed cin, po_priority = cc_priority cin, po_duration = None\<rparr>"
  let ?s = "snd (override_push ?params s)"
  have added: "on_cinematic_added cin c = c\<lparr>cm_stack := Some ?s, cm_shadow := Some (os_next_id s)\<rparr>"
    using assms(3) by (simp add: on_cinematic_added_def override_push_def Let_def)
  have ok: "distinct (map ov_id (os_entries ?s))" using stack_ok_push [OF assms(1,2)] by (simp add: stack_ok_def)
  have "set (os_entries (snd (override_remove_by_id (os_next_id s) ?s))) = set (os_entries s)"
    using assms(1) by (auto simp: remove_entries [OF ok] push_entries override_entry_def stack_ok_def)
  then show thesis using that by (simp add: added on_cinematic_removed_def)
qed

section \<open>The registry stays one-to-one\<close>

definition registry_ok :: "'e::linorder CameraRegistry \<Rightarrow> bool" where
  "registry_ok r \<longleftrightarrow>
     (\<forall>h e. bm_get (cr_handle_to_entity r) h = Some e \<longleftrightarrow> bm_get (cr_entity_to_handle r) e = Some h)
     \<and> (\<forall>h e. bm_get (cr_entity_to_handle r) e = Some h \<longrightarrow> h \<noteq> 0 \<and> h < cr_next_id r)
     \<and> cr_next_id r \<noteq> 0"

lemma registry_ok_default [simp]: "registry_ok camera_registry_default"
  by (simp add: registry_ok_def camera_registry_default_def)

datatype 'e registry_step = Register 'e "u32 option" | Unregister 'e

primrec run_registry :: "'e::linorder registry_step \<Rightarrow> 'e CameraRegistry \<Rightarrow> 'e CameraRegistry" where
  "run_registry (Register entity requested) r = snd (camera_register entity requested r)"
| "run_registry (Unregister entity) r = snd (camera_unregister entity r)"

definition link :: "u32 \<Rightarrow> 'e::linorder \<Rightarrow> 'e CameraRegistry \<Rightarrow> 'e CameraRegistry" where
  "link h e r = r\<lparr>cr_handle_to_entity := bm_insert h e (cr_handle_to_entity r),
     cr_entity_to_handle := bm_insert e h (cr_entity_to_handle r)\<rparr>"

lemma register_cases:
  obtains (known) h where "bm_get (cr_entity_to_handle r) entity = Some h" "camera_register entity requested r = (Inr h, r)"
  | (auto) "bm_get (cr_entity_to_handle r) entity = None" "requested \<in> {None, Some 0}"
      "camera_register entity requested r = (Inr (cr_next_id r), link (cr_next_id r) entity (r\<lparr>cr_next_id := cr_next_id r + 1\<rparr>))"
  | (taken) n where "bm_get (cr_entity_to_handle r) entity = None" "requested = Some n" "n \<noteq> 0"
      "bm_get (cr_handle_to_entity r) n \<noteq> None" "camera_register entity requested r = (Inl (HandleAlreadyTaken n), r)"
  | (free) n where "bm_get (cr_entity_to_handle r) entity = None" "requested = Some n" "n \<noteq> 0"
      "bm_get (cr_handle_to_entity r) n = None"
      "camera_register entity requested r = (Inr n, link n entity (if cr_next_id r \<le> n then r\<lparr>cr_next_id := n + 1\<rparr> else r))"
  by (cases "bm_get (cr_entity_to_handle r) entity"; cases requested)
    (auto simp: camera_register_def link_def Let_def split: if_splits)

lemma registry_okD:
  assumes "registry_ok r"
  shows "bm_get (cr_handle_to_entity r) h = Some e \<longleftrightarrow> bm_get (cr_entity_to_handle r) e = Some h"
    and "bm_get (cr_entity_to_handle r) e = Some h \<Longrightarrow> h \<noteq> 0 \<and> h < cr_next_id r"
    and "cr_next_id r \<noteq> 0"
  using assms unfolding registry_ok_def by blast+

lemma registry_okI:
  assumes "\<And>h e. bm_get (cr_handle_to_entity r) h = Some e \<longleftrightarrow> bm_get (cr_entity_to_handle r) e = Some h"
    and "\<And>h e. bm_get (cr_entity_to_handle r) e = Some h \<Longrightarrow> h \<noteq> 0 \<and> h < cr_next_id r"
    and "cr_next_id r \<noteq> 0"
  shows "registry_ok r"
  using assms unfolding registry_ok_def by blast

lemma registry_ok_link:
  assumes "registry_ok r" "bm_get (cr_entity_to_handle r) e = None" "bm_get (cr_handle_to_entity r) h = None"
    and "h \<noteq> 0" "h < n" "cr_next_id r \<le> n"
  shows "registry_ok (link h e (r\<lparr>cr_next_id := n\<rparr>))"
proof -
  have fresh: "bm_get (cr_handle_to_entity r) h' \<noteq> Some e" "bm_get (cr_entity_to_handle r) e' \<noteq> Some h" for h' e'
    using registry_okD(1) [OF assms(1), of h' e] registry_okD(1) [OF assms(1), of h e'] assms(2,3) by simp_all
  have below: "h' \<noteq> 0 \<and> h' < n" if "bm_get (cr_entity_to_handle r) e' = Some h'" for h' e'
    using registry_okD(2) [OF assms(1) that] assms(6) by (auto intro: order.strict_trans2)
  show ?thesis
  proof (rule registry_okI)
    fix h' e'
    show "bm_get (cr_handle_to_entity (link h e (r\<lparr>cr_next_id := n\<rparr>))) h' = Some e'
        \<longleftrightarrow> bm_get (cr_entity_to_handle (link h e (r\<lparr>cr_next_id := n\<rparr>))) e' = Some h'"
      using fresh(1) [of h'] fresh(2) [of e'] registry_okD(1) [OF assms(1), of h' e']
      by (simp add: link_def bm_get_insert)
    show "h' \<noteq> 0 \<and> h' < cr_next_id (link h e (r\<lparr>cr_next_id := n\<rparr>))"
      if "bm_get (cr_entity_to_handle (link h e (r\<lparr>cr_next_id := n\<rparr>))) e' = Some h'"
      using that below assms(4,5) by (auto simp: link_def bm_get_insert split: if_splits)
  qed (use assms(5) in \<open>auto simp: link_def\<close>)
qed

lemma registry_ok_register:
  assumes "registry_ok r" "cr_next_id r \<noteq> - 1" "requested \<noteq> Some (- 1)"
  shows "registry_ok (snd (camera_register entity requested r))"
proof (cases entity requested r rule: register_cases)
  case auto
  have "bm_get (cr_handle_to_entity r) (cr_next_id r) = None"
    using assms(1) by (cases "bm_get (cr_handle_to_entity r) (cr_next_id r)") (auto simp: registry_ok_def)
  moreover have "cr_next_id r \<noteq> 0" "cr_next_id r < cr_next_id r + 1"
    using assms(1,2) word_inc_less by (auto simp: registry_ok_def)
  ultimately show ?thesis
    using registry_ok_link [OF assms(1), of entity "cr_next_id r" "cr_next_id r + 1"] auto by simp
next
  case (free n)
  have n: "n < n + 1" using assms(3) free(2) by (intro word_inc_less) auto
  show ?thesis
  proof (cases "cr_next_id r \<le> n")
    case True
    then show ?thesis using registry_ok_link [OF assms(1), of entity n "n + 1"] free n by simp
  next
    case False
    then show ?thesis using registry_ok_link [OF assms(1), of entity n "cr_next_id r"] free by simp
  qed
qed (use assms in simp_all)

lemma registry_ok_unregister:
  assumes "registry_ok r"
  shows "registry_ok (snd (camera_unregister entity r))"
proof (cases "bm_get (cr_entity_to_handle r) entity")
  case (Some h)
  then have h: "bm_get (cr_handle_to_entity r) h = Some entity" using registry_okD(1) [OF assms] by simp
  let ?r = "snd (camera_unregister entity r)"
  have get: "bm_get (cr_entity_to_handle ?r) = (bm_get (cr_entity_to_handle r))(entity := None)"
    "bm_get (cr_handle_to_entity ?r) = (bm_get (cr_handle_to_entity r))(h := None)" "cr_next_id ?r = cr_next_id r"
    using Some by (simp_all add: camera_unregister_def bm_get_remove)
  show ?thesis
  proof (rule registry_okI)
    fix h' e'
    show "bm_get (cr_handle_to_entity ?r) h' = Some e' \<longleftrightarrow> bm_get (cr_entity_to_handle ?r) e' = Some h'"
    proof (cases "h' = h"; cases "e' = entity")
      assume "h' = h" "e' \<noteq> entity"
      then show ?thesis using h registry_okD(1) [OF assms, of h e'] by (simp add: get)
    next
      assume "h' \<noteq> h" "e' = entity"
      then show ?thesis using Some registry_okD(1) [OF assms, of h' entity] by (simp add: get)
    next
      assume "h' \<noteq> h" "e' \<noteq> entity"
      then show ?thesis using registry_okD(1) [OF assms, of h' e'] by (simp add: get)
    qed (simp add: get)
    show "h' \<noteq> 0 \<and> h' < cr_next_id ?r" if "bm_get (cr_entity_to_handle ?r) e' = Some h'"
      using that registry_okD(2) [OF assms, of e' h'] by (simp add: get split: if_splits)
    show "cr_next_id ?r \<noteq> 0" using registry_okD(3) [OF assms] by (simp add: get)
  qed
qed (use assms in \<open>simp add: camera_unregister_def\<close>)

lemma registry_run:
  assumes "registry_ok r" "unat (cr_next_id r) \<le> k" "k + length steps < 2 ^ 32"
    and "\<forall>e n. Register e (Some n) \<in> set steps \<longrightarrow> unat n < k"
  shows "registry_ok (fold run_registry steps r)"
  using assms
proof (induction steps arbitrary: r k)
  case (Cons step steps)
  have ne: "cr_next_id r \<noteq> - 1"
    using Cons.prems(2,3) by (auto simp: unsigned_minus_1_eq_mask mask_eq_exp_minus_1)
  have req: "unat n < k" "n \<noteq> - 1" if "step = Register e (Some n)" for e n
    using Cons.prems(3,4) that by (auto simp: unsigned_minus_1_eq_mask mask_eq_exp_minus_1)
  have "registry_ok (run_registry step r) \<and> unat (cr_next_id (run_registry step r)) \<le> Suc k"
  proof (cases step)
    case (Register e q)
    have "registry_ok (run_registry step r)"
      using registry_ok_register [OF Cons.prems(1) ne, of q e] req(2) Register by auto
    moreover have "unat (cr_next_id (run_registry step r)) \<le> Suc k"
    proof (cases e q r rule: register_cases)
      case (free n)
      have "n \<noteq> - 1" "unat n < k" using req [of e n] Register free(2) by auto
      then show ?thesis using Register free Cons.prems(2) unat_plus_1 [of n] by (simp add: link_def)
    qed (use Register Cons.prems(2) unat_plus_1 [OF ne] in \<open>simp_all add: link_def\<close>)
    ultimately show ?thesis ..
  next
    case (Unregister e)
    have "cr_next_id (run_registry step r) = cr_next_id r"
      by (simp add: Unregister camera_unregister_def split: option.split)
    then show ?thesis using registry_ok_unregister [OF Cons.prems(1), of e] Unregister Cons.prems(2) by simp
  qed
  moreover have "\<forall>e n. Register e (Some n) \<in> set steps \<longrightarrow> unat n < Suc k"
    using Cons.prems(4) by (auto simp: less_Suc_eq)
  ultimately show ?case using Cons.IH [of "run_registry step r" "Suc k"] Cons.prems(3) by simp
qed simp

text \<open>The last handle breaks this: asking for it takes the counter around to zero, so the next cameras get the
  handle zero, which reaches no camera, and then handles that are in use.\<close>

lemma last_handle_wraps_counter:
  "fold run_registry [Register (10 :: nat) None, Register 11 (Some 0xFFFFFFFF), Register 12 None, Register 13 None] camera_registry_default
   = \<lparr>cr_handle_to_entity = [(0, 12), (1, 13), (0xFFFFFFFF, 11)],
      cr_entity_to_handle = [(10, 1), (11, 0xFFFFFFFF), (12, 0), (13, 1)], cr_next_id = 2\<rparr>"
  by (simp add: camera_register_def camera_registry_default_def Let_def)

text \<open>New cameras are registered before removed ones are taken out, so a camera that replaces another in the
  same frame under its handle is refused, and never tried again.\<close>

lemma replacement_in_a_frame_refused:
  assumes "registry_ok r" "bm_get (cr_entity_to_handle r) old = Some h" "bm_get (cr_entity_to_handle r) new = None" "new \<noteq> old"
  defines "r' \<equiv> bridge_camera_unregister_system [old] (bridge_camera_register_system [(new, Some h)] r)"
  shows "camera_resolve r' h = None" "bm_get (cr_entity_to_handle r') new = None"
proof -
  have h: "bm_get (cr_handle_to_entity r) h = Some old" "h \<noteq> 0" using assms(1,2) by (auto simp: registry_ok_def)
  then have "bridge_camera_register_system [(new, Some h)] r = r"
    using assms(3) by (simp add: bridge_camera_register_system_def camera_register_def)
  then show "camera_resolve r' h = None" "bm_get (cr_entity_to_handle r') new = None"
    using assms(2,3) by (simp_all add: r'_def bridge_camera_unregister_system_def camera_unregister_def
        camera_resolve_def bm_get_remove)
qed

section \<open>Properties\<close>

text \<open>C36: after any sequence of fewer than 2^64 pushes, removals, pops, clears and ticks the stack holds exactly
  the overrides its contract leaves in the set, strictly ordered by priority and then by identifier, and the
  override on top is the one of highest priority, the latest among equals.\<close>
theorem override_stack_refines:
  assumes "length steps < 2 ^ 64"
  shows "stack_abs (fold (run_override F) steps override_stack_default) = fold (abs_override F) steps (0, {})
    \<and> sorted_wrt outranked (os_entries (fold (run_override F) steps override_stack_default))
    \<and> (override_top (fold (run_override F) steps override_stack_default) = Some e
        \<longleftrightarrow> e \<in> snd (fold (abs_override F) steps (0, {}))
          \<and> (\<forall>e' \<in> snd (fold (abs_override F) steps (0, {})). e' = e \<or> outranked e' e))"
proof -
  let ?s = "fold (run_override F) steps override_stack_default"
  have init: "stack_abs override_stack_default = (0, {})" "os_next_id override_stack_default = 0"
    by (simp_all add: stack_abs_def override_stack_default_def)
  have run: "stack_ok ?s" "stack_abs ?s = fold (abs_override F) steps (0, {})"
    using overrides_run [OF stack_ok_default, of steps F] assms by (simp_all add: init)
  then have "snd (fold (abs_override F) steps (0, {})) = set (os_entries ?s)"
    by (simp add: stack_abs_def flip: run(2))
  with run stack_top [OF run(1), of e] show ?thesis by (simp add: stack_ok_def)
qed

definition toy_push :: "u32 \<Rightarrow> PushOverrideParams" where
  "toy_push p = \<lparr>po_target_position = (0, 0), po_target_zoom = None, po_speed = 0, po_priority = p, po_duration = None\<rparr>"

theorem override_stack_refines_witness:
  "\<forall>F. override_top (fold (run_override F) [StepPush (toy_push 5), StepPush (toy_push 5), StepPush (toy_push (- 1))] override_stack_default)
     = Some (override_entry 1 (toy_push 5))"
proof
  fix F
  show "override_top (fold (run_override F) [StepPush (toy_push 5), StepPush (toy_push 5), StepPush (toy_push (- 1))] override_stack_default)
     = Some (override_entry 1 (toy_push 5))"
    using override_stack_refines [of "[StepPush (toy_push 5), StepPush (toy_push 5), StepPush (toy_push (- 1))]" F
        "override_entry 1 (toy_push 5)"]
    by (simp add: toy_push_def override_entry_def outranked_def)
qed

text \<open>as long as no handle of the last ones is asked for (requested handles stay below a \<open>k\<close> that leaves room
  for the number of registrations), no history of registering and unregistering cameras makes two cameras
  share a handle, leaves a handle to a camera that no longer has it, or hands out the handle zero, which stands
  for all cameras: each handle resolves to exactly the camera registered under it.\<close>
lemma camera_registry_one_to_one:
  assumes "0 < k" "k + length steps < 2 ^ 32" "\<forall>e n. Register e (Some n) \<in> set steps \<longrightarrow> unat n < k"
  shows "camera_resolve (fold run_registry steps camera_registry_default) h = Some e
    \<longleftrightarrow> bm_get (cr_entity_to_handle (fold run_registry steps camera_registry_default)) e = Some h"
proof -
  let ?r = "fold run_registry steps camera_registry_default"
  have ok: "registry_ok ?r"
    using assms by (intro registry_run [OF registry_ok_default, where k = k]) (auto simp: camera_registry_default_def)
  show ?thesis
    using registry_okD(1) [OF ok, of h e] registry_okD(2) [OF ok, of e h] by (auto simp: camera_resolve_def)
qed

lemma camera_registry_one_to_one_example:
  "camera_resolve (fold run_registry [Register (10 :: nat) (Some 7), Register 11 None, Register 12 (Some 7), Unregister 11] camera_registry_default) 7 = Some 10"
  using camera_registry_one_to_one [of 8 "[Register (10 :: nat) (Some 7), Register 11 None, Register 12 (Some 7), Unregister 11]" 7 10]
  by (auto simp: camera_register_def camera_unregister_def camera_registry_default_def Let_def bm_remove_def)

end
