(* ===== verification/Camera_Motion.thy ===== *)
theory Camera_Motion
  imports Camera_Overrides
begin

text \<open>
  The rest of the camera (\<^verbatim>\<open>engine/bevy_runtime/src/camera\<close>: \<open>shake.rs\<close>, \<open>camera_flush.rs\<close>, \<open>follow.rs\<close>,
  \<open>zoom.rs\<close>, \<open>bounds.rs\<close>): shakes, the flush that turns the operations of the scripts into requests, and the
  systems that move a camera each frame. Float arithmetic, the Perlin noise and the vector functions of glam
  are parameters. The lemmas follow an operation from the queue of the bridge to the cameras it names, and
  show what the bounds and the zoom limits promise for whatever the arithmetic yields.
\<close>

section \<open>Shakes\<close>

record ShakeEntry =
  se_id :: u64
  se_trauma :: f32
  se_decay_rate :: f32
  se_direction :: "vec2 option"
  se_max_strength :: f32
  se_direction_bias :: f32
  se_perpendicular_damping :: f32
  se_seed :: u64
  se_elapsed :: f32

record ShakeParams =
  sp_trauma :: f32
  sp_decay_rate :: f32
  sp_direction :: "vec2 option"
  sp_max_strength :: f32
  sp_direction_bias :: f32
  sp_perpendicular_damping :: f32
  sp_seed :: "u64 option"

definition shake_params_default :: ShakeParams where
  "shake_params_default =
     \<lparr>sp_trauma = 0x3F000000, sp_decay_rate = 0x40000000, sp_direction = None, sp_max_strength = f32_zero,
      sp_direction_bias = 0x3FC00000, sp_perpendicular_damping = 0x3E99999A, sp_seed = None\<rparr>"

record CameraShake =
  cs_entries :: "ShakeEntry list"
  cs_next_id :: u64
  cs_last_applied_offset :: vec2

definition camera_shake_default :: CameraShake where
  "camera_shake_default = \<lparr>cs_entries = [], cs_next_id = 0, cs_last_applied_offset = (0, 0)\<rparr>"

text \<open>The vector functions: squared length, and the offset of one shake from its noise, amount and direction.\<close>

record shake_env =
  sk_float :: float_env
  sk_square :: "f32 \<Rightarrow> f32" \<comment> \<open>\<open>powi(2)\<close>\<close>
  sk_length_squared :: "vec2 \<Rightarrow> f32"
  sk_noise :: "f32 \<Rightarrow> u64 \<Rightarrow> vec2" \<comment> \<open>the two samples at a time and a seed\<close>
  sk_scale :: "vec2 \<Rightarrow> f32 \<Rightarrow> vec2"
  sk_bias :: "vec2 \<Rightarrow> vec2 \<Rightarrow> f32 \<Rightarrow> f32 \<Rightarrow> vec2" \<comment> \<open>offset, direction, bias, damping\<close>
  sk_add2 :: "vec2 \<Rightarrow> vec2 \<Rightarrow> vec2"

definition F32_EPSILON :: f32 where "F32_EPSILON = 0x34000000"

definition shake_entry :: "shake_env \<Rightarrow> u64 \<Rightarrow> u64 \<Rightarrow> ShakeParams \<Rightarrow> ShakeEntry" where
  "shake_entry K i seed params =
     \<lparr>se_id = i,
      se_trauma = f32_clamp f32_zero f32_one (sp_trauma params),
      se_decay_rate = f32_max (sp_decay_rate params) f32_zero,
      se_direction = (case sp_direction params of
          Some d \<Rightarrow> if f32_lt (sk_length_squared K d) F32_EPSILON then None else Some d
        | None \<Rightarrow> None),
      se_max_strength = f32_max (sp_max_strength params) f32_zero,
      se_direction_bias = f32_max (sp_direction_bias params) f32_zero,
      se_perpendicular_damping = f32_max (sp_perpendicular_damping params) f32_zero,
      se_seed = seed,
      se_elapsed = f32_zero\<rparr>"

definition shake_add :: "shake_env \<Rightarrow> ShakeParams \<Rightarrow> u64 \<Rightarrow> CameraShake \<Rightarrow> u64 \<times> CameraShake" where
  "shake_add K params seed s =
     (cs_next_id s,
      s\<lparr>cs_next_id := cs_next_id s + 1, cs_entries := cs_entries s @ [shake_entry K (cs_next_id s) seed params]\<rparr>)"

definition shake_remove_by_id :: "u64 \<Rightarrow> CameraShake \<Rightarrow> ShakeEntry option \<times> CameraShake" where
  "shake_remove_by_id i s = (case first_index (\<lambda>e. se_id e = i) (cs_entries s) of
       Some idx \<Rightarrow> (Some (cs_entries s ! idx), s\<lparr>cs_entries := vec_remove idx (cs_entries s)\<rparr>)
     | None \<Rightarrow> (None, s))"

definition shake_clear :: "CameraShake \<Rightarrow> CameraShake" where
  "shake_clear s = s\<lparr>cs_entries := [], cs_last_applied_offset := (0, 0)\<rparr>"

definition next_seed :: "u64 \<Rightarrow> u64 \<times> u64" where
  "next_seed counter = (counter, counter + 1)"

datatype CameraShakeOp = ShakeAdd ShakeParams | ShakeRemoveById u64 | ShakeClear

record 'e CameraShakeRequest =
  sr_camera :: "'e option"
  sr_op :: CameraShakeOp

primrec apply_shake_op :: "shake_env \<Rightarrow> CameraShakeOp \<Rightarrow> u64 \<times> CameraShake \<Rightarrow> u64 \<times> CameraShake" where
  "apply_shake_op K (ShakeAdd params) c =
     (let (seed, counter) = (case sp_seed params of Some s \<Rightarrow> (s, fst c) | None \<Rightarrow> next_seed (fst c))
      in (counter, snd (shake_add K params seed (snd c))))"
| "apply_shake_op K (ShakeRemoveById i) c = (fst c, snd (shake_remove_by_id i (snd c)))"
| "apply_shake_op K ShakeClear c = (fst c, shake_clear (snd c))"

primrec shake_event :: "shake_env \<Rightarrow> 'e CameraShakeRequest \<Rightarrow> u64 \<Rightarrow> ('e \<times> CameraShake) list \<Rightarrow> u64 \<times> ('e \<times> CameraShake) list" where
  "shake_event K ev counter [] = (counter, [])"
| "shake_event K ev counter (c # query) =
     (let (counter, shake) =
            (case sr_camera ev of
               Some target \<Rightarrow> if target \<noteq> fst c then (counter, snd c) else apply_shake_op K (sr_op ev) (counter, snd c)
             | None \<Rightarrow> apply_shake_op K (sr_op ev) (counter, snd c));
          (counter, rest) = shake_event K ev counter query
      in (counter, (fst c, shake) # rest))"

definition shake_event_handler_system ::
  "shake_env \<Rightarrow> 'e CameraShakeRequest list \<Rightarrow> u64 \<times> ('e \<times> CameraShake) list \<Rightarrow> u64 \<times> ('e \<times> CameraShake) list" where
  "shake_event_handler_system K events st = fold (\<lambda>ev (counter, query). shake_event K ev counter query) events st"

section \<open>Zoom, bounds and following\<close>

definition f32_abs :: "f32 \<Rightarrow> f32" where "f32_abs w = w AND 0x7FFFFFFF"

text \<open>\<open>f32::clamp\<close> panics when its limits are not in order, as those of a NaN.\<close>

definition f32_clamp_checked :: "f32 \<Rightarrow> f32 \<Rightarrow> f32 \<Rightarrow> f32 option" where
  "f32_clamp_checked lo hi x = (if f32_le lo hi then Some (f32_clamp lo hi x) else None)"

definition zoom_step :: "float_env \<Rightarrow> f32 \<Rightarrow> f32 \<Rightarrow> CameraZoom \<Rightarrow> CameraZoom option" where
  "zoom_step F dt scroll_delta zoom =
     (let zoom = (if f32_lt F32_EPSILON (f32_abs scroll_delta)
            then zoom\<lparr>cz_target := fe_sub F (cz_target zoom) (fe_mul F scroll_delta (cz_scroll_speed zoom))\<rparr> else zoom);
          clamp_min = f32_min (cz_min zoom) (cz_max zoom);
          clamp_max = f32_max (cz_min zoom) (cz_max zoom)
      in case f32_clamp_checked clamp_min clamp_max (cz_target zoom) of
           None \<Rightarrow> None
         | Some target \<Rightarrow>
             (let zoom = zoom\<lparr>cz_target := target\<rparr>;
                  factor = decay_factor F (cz_speed zoom) dt
              in Some (zoom\<lparr>cz_current := fe_add F (cz_current zoom) (fe_mul F (fe_sub F (cz_target zoom) (cz_current zoom)) factor)\<rparr>)))"

datatype ScalingMode = FixedVertical f32 | OtherScaling
datatype Projection = Orthographic ScalingMode f32 \<comment> \<open>with the height of its area\<close> | Perspective

definition camera_zoom_one :: "float_env \<Rightarrow> f32 \<Rightarrow> f32 \<Rightarrow> CameraZoom \<times> Projection \<Rightarrow> (CameraZoom \<times> Projection) option" where
  "camera_zoom_one F dt scroll_delta c =
     map_option (\<lambda>zoom. (zoom, case snd c of
           Orthographic _ area_height \<Rightarrow> Orthographic (FixedVertical (cz_current zoom)) area_height
         | Perspective \<Rightarrow> Perspective)) (zoom_step F dt scroll_delta (fst c))"

primrec zoom_all ::
  "float_env \<Rightarrow> f32 \<Rightarrow> f32 \<Rightarrow> (CameraZoom \<times> Projection) list \<Rightarrow> (CameraZoom \<times> Projection) list option" where
  "zoom_all F dt d [] = Some []"
| "zoom_all F dt d (c # query) = (case camera_zoom_one F dt d c of
       None \<Rightarrow> None
     | Some c' \<Rightarrow> map_option ((#) c') (zoom_all F dt d query))"

definition camera_zoom_system ::
  "float_env \<Rightarrow> f32 \<Rightarrow> f32 list \<Rightarrow> (CameraZoom \<times> Projection) list \<Rightarrow> (CameraZoom \<times> Projection) list option" where
  "camera_zoom_system F delta_secs wheel query =
     zoom_all F (capped_dt delta_secs) (foldl (fe_add F) f32_zero wheel) query"

record CameraBounds =
  cb_min :: vec2
  cb_max :: vec2
  cb_clamp_shake :: bool

text \<open>\<open>16.0 / 9.0\<close> rounded.\<close>

definition ASPECT_RATIO :: f32 where "ASPECT_RATIO = 0x3FE38E39"
definition F32_TWO :: f32 where "F32_TWO = 0x40000000"

definition viewport_half_size :: "float_env \<Rightarrow> Projection \<Rightarrow> f32 \<times> f32" where
  "viewport_half_size F projection = (case projection of
       Orthographic mode area_height \<Rightarrow>
         (let half_h = (case mode of
                FixedVertical viewport_height \<Rightarrow> fe_div F viewport_height F32_TWO
              | OtherScaling \<Rightarrow> fe_div F area_height F32_TWO)
          in (fe_mul F half_h ASPECT_RATIO, half_h))
     | Perspective \<Rightarrow> (f32_zero, f32_zero))"

text \<open>One axis of \<open>clamp_to_bounds\<close>.\<close>

definition clamp_axis :: "float_env \<Rightarrow> f32 \<Rightarrow> f32 \<Rightarrow> f32 \<Rightarrow> f32 \<Rightarrow> f32 option" where
  "clamp_axis F lo hi half v =
     (if f32_le (fe_sub F hi lo) (fe_mul F half F32_TWO) then Some (fe_div F (fe_add F lo hi) F32_TWO)
      else f32_clamp_checked (fe_add F lo half) (fe_sub F hi half) v)"

definition clamp_to_bounds :: "float_env \<Rightarrow> CameraBounds \<Rightarrow> f32 \<times> f32 \<Rightarrow> vec3 \<Rightarrow> vec3 option" where
  "clamp_to_bounds F bounds half t = (case t of (x, y, z) \<Rightarrow>
     case clamp_axis F (fst (cb_min bounds)) (fst (cb_max bounds)) (fst half) x of
       None \<Rightarrow> None
     | Some x \<Rightarrow>
         (case clamp_axis F (snd (cb_min bounds)) (snd (cb_max bounds)) (snd half) y of
            None \<Rightarrow> None
          | Some y \<Rightarrow> Some (x, y, z)))"

definition camera_bounds_one :: "float_env \<Rightarrow> CameraBounds \<times> vec3 \<times> Projection \<Rightarrow> vec3 option" where
  "camera_bounds_one F c = (case c of (bounds, translation, projection) \<Rightarrow>
     if f32_lt (fst (cb_max bounds)) (fst (cb_min bounds)) \<or> f32_lt (snd (cb_max bounds)) (snd (cb_min bounds))
     then Some translation
     else clamp_to_bounds F bounds (viewport_half_size F projection) translation)"

definition camera_follow_one ::
  "float_env \<Rightarrow> f32 \<Rightarrow> vec2 \<Rightarrow> f32 \<times> vec3 \<times> CameraOverrideStack option \<Rightarrow> vec3" where
  "camera_follow_one F dt target_pos c = (case c of (speed, (x, y, z), override_stack) \<Rightarrow>
     if (case override_stack of Some s \<Rightarrow> os_entries s \<noteq> [] | None \<Rightarrow> False) then (x, y, z)
     else let factor = decay_factor F speed dt;
              new_pos = fe_lerp2 F (x, y) target_pos factor
          in (fst new_pos, snd new_pos, z))"

definition camera_follow_system ::
  "float_env \<Rightarrow> f32 \<Rightarrow> vec2 list \<Rightarrow> (f32 \<times> vec3 \<times> CameraOverrideStack option) list \<Rightarrow> vec3 list" where
  "camera_follow_system F delta_secs targets query = (case targets of
       [] \<Rightarrow> map (\<lambda>(_, t, _). t) query
     | target_pos # _ \<Rightarrow> map (camera_follow_one F (capped_dt delta_secs) target_pos) query)"

section \<open>Applying shakes\<close>

definition DEFAULT_SHAKE_MAX_STRENGTH_RATIO :: f32 where "DEFAULT_SHAKE_MAX_STRENGTH_RATIO = 0x3D0F5C29"
definition DEFAULT_VIEWPORT_HEIGHT :: f32 where "DEFAULT_VIEWPORT_HEIGHT = 0x44340000"

text \<open>One shake of the loop: its new state and its offset, or no offset when it has died down.\<close>

definition shake_apply_entry :: "shake_env \<Rightarrow> f32 \<Rightarrow> f32 \<Rightarrow> ShakeEntry \<Rightarrow> ShakeEntry \<times> vec2 option" where
  "shake_apply_entry K dt viewport_h entry =
     (let F = sk_float K;
          entry = entry\<lparr>se_trauma := f32_max (fe_sub F (se_trauma entry) (fe_mul F (se_decay_rate entry) dt)) f32_zero\<rparr>
      in if f32_le (se_trauma entry) f32_zero then (entry, None)
         else let entry = entry\<lparr>se_elapsed := fe_add F (se_elapsed entry) dt\<rparr>;
                  effective_strength = (if f32_lt f32_zero (se_max_strength entry) then se_max_strength entry
                    else fe_mul F viewport_h DEFAULT_SHAKE_MAX_STRENGTH_RATIO);
                  shake_amount = fe_mul F (sk_square K (se_trauma entry)) effective_strength;
                  offset = sk_scale K (sk_noise K (se_elapsed entry) (se_seed entry)) shake_amount;
                  offset = (case se_direction entry of
                      None \<Rightarrow> offset
                    | Some dir \<Rightarrow> sk_bias K offset dir (se_direction_bias entry) (se_perpendicular_damping entry))
              in (entry, Some offset))"

definition shake_apply_loop ::
  "shake_env \<Rightarrow> f32 \<Rightarrow> f32 \<Rightarrow> ShakeEntry list \<Rightarrow> ShakeEntry list \<times> vec2 \<times> u64 list" where
  "shake_apply_loop K dt viewport_h entries =
     foldl (\<lambda>(done, total_offset, to_remove) entry.
         (case shake_apply_entry K dt viewport_h entry of
            (entry, None) \<Rightarrow> (done @ [entry], total_offset, to_remove @ [se_id entry])
          | (entry, Some offset) \<Rightarrow> (done @ [entry], sk_add2 K total_offset offset, to_remove)))
       ([], (0, 0), []) entries"

record shake_camera =
  sc_shake :: CameraShake
  sc_translation :: vec3
  sc_zoom :: "CameraZoom option"
  sc_bounds :: "CameraBounds option"
  sc_projection :: "Projection option"

definition shake_apply_one :: "shake_env \<Rightarrow> f32 \<Rightarrow> shake_camera \<Rightarrow> shake_camera option" where
  "shake_apply_one K dt c =
     (let viewport_h = (case sc_zoom c of Some z \<Rightarrow> cz_current z | None \<Rightarrow> DEFAULT_VIEWPORT_HEIGHT);
          (entries, total_offset, to_remove) = shake_apply_loop K dt viewport_h (cs_entries (sc_shake c));
          entries = foldl (\<lambda>es i. case first_index (\<lambda>e. se_id e = i) es of
              Some idx \<Rightarrow> vec_remove idx es
            | None \<Rightarrow> es) entries to_remove;
          shake = (sc_shake c)\<lparr>cs_entries := entries, cs_last_applied_offset := total_offset\<rparr>;
          (x, y, z) = sc_translation c;
          translation = (fe_add (sk_float K) x (fst total_offset), fe_add (sk_float K) y (snd total_offset), z);
          clamped = (case (sc_bounds c, sc_projection c) of
              (Some bounds, Some projection) \<Rightarrow>
                if cb_clamp_shake bounds \<and> f32_le (fst (cb_min bounds)) (fst (cb_max bounds))
                   \<and> f32_le (snd (cb_min bounds)) (snd (cb_max bounds))
                then clamp_to_bounds (sk_float K) bounds (viewport_half_size (sk_float K) projection) translation
                else Some translation
            | _ \<Rightarrow> Some translation)
      in map_option (\<lambda>t. c\<lparr>sc_shake := shake, sc_translation := t\<rparr>) clamped)"

section \<open>The flush of camera operations\<close>

definition resolve_zoom :: "f32 \<Rightarrow> f32 option" where
  "resolve_zoom zoom = (if f32_le zoom f32_zero then None else Some zoom)"

definition resolve_duration :: "f32 \<Rightarrow> f32 option" where
  "resolve_duration duration = (if f32_lt duration f32_zero then None else Some duration)"

definition f32_eq_zero :: "f32 \<Rightarrow> bool" where
  "f32_eq_zero w \<longleftrightarrow> f32_le w f32_zero \<and> f32_le f32_zero w"

definition resolve_direction :: "f32 \<Rightarrow> f32 \<Rightarrow> vec2 option" where
  "resolve_direction dir_x dir_y = (if f32_eq_zero dir_x \<and> f32_eq_zero dir_y then None else Some (dir_x, dir_y))"

primrec op_handle :: "CameraBridgeOp \<Rightarrow> u32" where
  "op_handle (Shake h _ _ _ _ _ _ _) = h"
| "op_handle (PushOverride h _ _ _ _ _ _) = h"
| "op_handle (PopOverride h) = h"
| "op_handle (ClearOverrides h) = h"
| "op_handle (ClearShakes h) = h"

text \<open>The requests of one operation: for the override stacks or for the shakes.\<close>

primrec op_request :: "CameraBridgeOp \<Rightarrow> CameraOverrideOp + CameraShakeOp" where
  "op_request (Shake h trauma dir_x dir_y max_strength decay_rate direction_bias perpendicular_damping) =
     Inr (ShakeAdd \<lparr>sp_trauma = trauma, sp_decay_rate = decay_rate, sp_direction = resolve_direction dir_x dir_y,
       sp_max_strength = max_strength, sp_direction_bias = direction_bias,
       sp_perpendicular_damping = perpendicular_damping, sp_seed = None\<rparr>)"
| "op_request (PushOverride h x y zoom speed priority duration) =
     Inl (OpPush \<lparr>po_target_position = (x, y), po_target_zoom = resolve_zoom zoom, po_speed = speed,
       po_priority = priority, po_duration = resolve_duration duration\<rparr>)"
| "op_request (PopOverride h) = Inl OpPopTop"
| "op_request (ClearOverrides h) = Inl OpClear"
| "op_request (ClearShakes h) = Inr ShakeClear"

type_synonym 'e camera_requests = "'e CameraOverrideRequest list \<times> 'e CameraShakeRequest list"

definition flush_op :: "'e CameraRegistry \<Rightarrow> CameraBridgeOp \<Rightarrow> 'e camera_requests \<Rightarrow> 'e camera_requests" where
  "flush_op registry op out =
     (let handle = op_handle op;
          send = (\<lambda>target. (case op_request op of
              Inl o_op \<Rightarrow> (fst out @ [\<lparr>or_camera = target, or_op = o_op\<rparr>], snd out)
            | Inr s_op \<Rightarrow> (fst out, snd out @ [\<lparr>sr_camera = target, sr_op = s_op\<rparr>])))
      in if handle = 0 then send None
         else case camera_resolve registry handle of
                Some e \<Rightarrow> send (Some e)
              | None \<Rightarrow> out)"

definition flush_camera_ops ::
  "'e CameraRegistry \<Rightarrow> CameraOpQueue \<Rightarrow> 'e camera_requests \<Rightarrow> 'e camera_requests \<times> CameraOpQueue" where
  "flush_camera_ops registry q out =
     (let (ops, q) = camera_op_queue_drain q in (fold (flush_op registry) ops out, q))"

section \<open>From the queue to the cameras\<close>

definition addressed :: "'e CameraRegistry \<Rightarrow> CameraBridgeOp \<Rightarrow> 'e \<Rightarrow> bool" where
  "addressed registry op e \<longleftrightarrow> op_handle op = 0 \<or> camera_resolve registry (op_handle op) = Some e"

definition override_ops_for :: "'e CameraRegistry \<Rightarrow> 'e \<Rightarrow> CameraBridgeOp list \<Rightarrow> CameraOverrideOp list" where
  "override_ops_for registry e ops =
     List.map_filter (\<lambda>op. case op_request op of Inl o_op \<Rightarrow> if addressed registry op e then Some o_op else None | Inr _ \<Rightarrow> None) ops"

definition override_requests :: "'e CameraRegistry \<Rightarrow> CameraBridgeOp list \<Rightarrow> 'e CameraOverrideRequest list" where
  "override_requests registry ops = fst (fold (flush_op registry) ops ([], []))"

lemma flush_op_out: "flush_op registry op (a @ b, c @ d) = (a @ fst (flush_op registry op (b, d)), c @ snd (flush_op registry op (b, d)))"
  by (simp add: flush_op_def Let_def split: option.split sum.split)

lemma flush_out:
  "fold (flush_op registry) ops (a, c)
     = (a @ fst (fold (flush_op registry) ops ([], [])), c @ snd (fold (flush_op registry) ops ([], [])))"
proof (induction ops arbitrary: a c)
  case (Cons op ops)
  have "flush_op registry op (a, c) = (a @ fst (flush_op registry op ([], [])), c @ snd (flush_op registry op ([], [])))"
    using flush_op_out [of registry op a "[]" c "[]"] by simp
  then show ?case
    using Cons.IH [of "fst (flush_op registry op (a, c))" "snd (flush_op registry op (a, c))"]
      Cons.IH [of "fst (flush_op registry op ([], []))" "snd (flush_op registry op ([], []))"]
    by simp
qed simp

text \<open>One request changes each camera it is for, and no other.\<close>

definition request_on :: "'e CameraOverrideRequest \<Rightarrow> 'e \<Rightarrow> CameraOverrideStack \<Rightarrow> CameraOverrideStack" where
  "request_on ev e s = (if or_camera ev = None \<or> or_camera ev = Some e then apply_override_op (or_op ev) s else s)"

lemma handler_eq:
  "override_event_handler_system events query = map (\<lambda>(e, s). (e, fold (\<lambda>ev. request_on ev e) events s)) query"
proof (induction events arbitrary: query)
  case (Cons ev events)
  have "(\<lambda>(entity, stack).
         (case or_camera ev of
            Some target \<Rightarrow> if target \<noteq> entity then (entity, stack) else (entity, apply_override_op (or_op ev) stack)
          | None \<Rightarrow> (entity, apply_override_op (or_op ev) stack))) = (\<lambda>(e, s). (e, request_on ev e s))"
    by (auto simp: request_on_def fun_eq_iff split: option.split)
  then have "override_event_handler_system (ev # events) query
      = override_event_handler_system events (map (\<lambda>(e, s). (e, request_on ev e s)) query)"
    by (simp add: override_event_handler_system_def)
  then show ?case by (simp add: Cons.IH case_prod_unfold comp_def)
qed (simp add: override_event_handler_system_def)

lemma requests_on:
  "fold (\<lambda>ev. request_on ev e) (override_requests registry ops) s = fold apply_override_op (override_ops_for registry e ops) s"
proof (induction ops arbitrary: s)
  case (Cons op ops)
  have "override_requests registry (op # ops) = fst (flush_op registry op ([], [])) @ override_requests registry ops"
    using flush_out [of registry ops "fst (flush_op registry op ([], []))" "snd (flush_op registry op ([], []))"]
    by (simp add: override_requests_def)
  moreover have "fold (\<lambda>ev. request_on ev e) (fst (flush_op registry op ([], []))) s
      = fold apply_override_op (override_ops_for registry e [op]) s"
    by (auto simp: flush_op_def Let_def request_on_def override_ops_for_def addressed_def map_filter_simps camera_resolve_def
        split: sum.split option.split)
  moreover have "override_ops_for registry e (op # ops) = override_ops_for registry e [op] @ override_ops_for registry e ops"
    by (simp add: override_ops_for_def map_filter_simps split: option.split)
  ultimately show ?case using Cons.IH by simp
qed (simp add: override_requests_def override_ops_for_def map_filter_simps)

section \<open>Shakes\<close>

definition live_shakes :: "CameraShake \<Rightarrow> u64 set" where
  "live_shakes s = se_id ` set (cs_entries s)"

primrec other_shake :: "u64 + unit \<Rightarrow> CameraShake \<Rightarrow> CameraShake" where
  "other_shake (Inl i) s = snd (shake_remove_by_id i s)"
| "other_shake (Inr _) s = shake_clear s"

interpretation shake_ids: id_allocator live_shakes cs_next_id "\<lambda>(params, seed). shake_add K params seed" other_shake for K
proof
  have "set (vec_remove i xs) \<subseteq> set xs" for i and xs :: "ShakeEntry list"
    by (auto simp: vec_remove_def dest: in_set_takeD in_set_dropD)
  then have "live_shakes (snd (shake_remove_by_id i s)) \<subseteq> live_shakes s" for i s
    by (auto simp: live_shakes_def shake_remove_by_id_def split: option.split)
  then show "live_shakes (other_shake x s) \<subseteq> live_shakes s" for x s
    by (cases x) (simp_all add: live_shakes_def shake_clear_def)
  show "cs_next_id (other_shake x s) = cs_next_id s" for x s
    by (cases x) (simp_all add: shake_remove_by_id_def shake_clear_def split: option.split)
qed (auto simp: shake_add_def live_shakes_def shake_entry_def)

text \<open>A broadcast without a seed gives every camera a seed of its own.\<close>

lemma broadcast_seeds:
  "shake_event K \<lparr>sr_camera = None, sr_op = ShakeAdd (p\<lparr>sp_seed := None\<rparr>)\<rparr> counter query =
     (counter + of_nat (length query),
      map (\<lambda>(i, (e, s)). (e, snd (shake_add K (p\<lparr>sp_seed := None\<rparr>) (counter + of_nat i) s))) (enumerate 0 query))"
proof (induction query arbitrary: counter)
  case (Cons c query)
  then show ?case
    by (simp add: next_seed_def enumerate_Suc_eq case_prod_unfold comp_def add.assoc)
qed simp

text \<open>The loop of a frame keeps exactly the shakes that have not died down, each with its new state.\<close>

lemma shake_loop_eq:
  "fst (shake_apply_loop K dt h es) = map (fst \<circ> shake_apply_entry K dt h) es"
  "snd (snd (shake_apply_loop K dt h es)) = map se_id (filter (\<lambda>e. snd (shake_apply_entry K dt h e) = None) es)"
proof -
  have ident: "se_id (fst (shake_apply_entry K dt h e)) = se_id e" for e
    by (simp add: shake_apply_entry_def Let_def)
  have "fst (foldl (\<lambda>(done, total_offset, to_remove) entry.
         (case shake_apply_entry K dt h entry of
            (entry, None) \<Rightarrow> (done @ [entry], total_offset, to_remove @ [se_id entry])
          | (entry, Some offset) \<Rightarrow> (done @ [entry], sk_add2 K total_offset offset, to_remove))) (d, t, r) es)
      = d @ map (fst \<circ> shake_apply_entry K dt h) es
    \<and> snd (snd (foldl (\<lambda>(done, total_offset, to_remove) entry.
         (case shake_apply_entry K dt h entry of
            (entry, None) \<Rightarrow> (done @ [entry], total_offset, to_remove @ [se_id entry])
          | (entry, Some offset) \<Rightarrow> (done @ [entry], sk_add2 K total_offset offset, to_remove))) (d, t, r) es))
      = r @ map se_id (filter (\<lambda>e. snd (shake_apply_entry K dt h e) = None) es)" for d t r
  proof (induction es arbitrary: d t r)
    case (Cons e es)
    obtain e' v where e': "shake_apply_entry K dt h e = (e', v)" by fastforce
    with Cons ident [of e] show ?case by (cases v) simp_all
  qed simp
  then show "fst (shake_apply_loop K dt h es) = map (fst \<circ> shake_apply_entry K dt h) es"
    "snd (snd (shake_apply_loop K dt h es)) = map se_id (filter (\<lambda>e. snd (shake_apply_entry K dt h e) = None) es)"
    by (simp_all add: shake_apply_loop_def)
qed

lemma remove_all_ids:
  assumes "distinct (map se_id es)"
  shows "foldl (\<lambda>es i. case first_index (\<lambda>e. se_id e = i) es of Some idx \<Rightarrow> vec_remove idx es | None \<Rightarrow> es) es ids
    = filter (\<lambda>e. se_id e \<notin> set ids) es"
  using assms
proof (induction ids arbitrary: es)
  case (Cons i ids)
  have "(case first_index (\<lambda>e. se_id e = i) es of Some idx \<Rightarrow> vec_remove idx es | None \<Rightarrow> es)
      = filter (\<lambda>e. se_id e \<noteq> i) es"
  proof (cases "first_index (\<lambda>e. se_id e = i) es")
    case None
    then have "filter (\<lambda>e. se_id e \<noteq> i) es = es" by (intro filter_True) (simp add: first_index_None)
    with None show ?thesis by simp
  next
    case (Some idx)
    then show ?thesis using vec_remove_eq_filter [OF Some Cons.prems] by simp
  qed
  then show ?case
    using Cons.IH [of "filter (\<lambda>e. se_id e \<noteq> i) es"] Cons.prems
    by (simp add: distinct_map_filter conj_commute)
qed simp

lemma shake_survivors:
  assumes "distinct (map se_id (cs_entries (sc_shake c)))" "shake_apply_one K dt c = Some c'"
  shows "cs_entries (sc_shake c') = List.map_filter
     (\<lambda>e. case shake_apply_entry K dt (case sc_zoom c of Some z \<Rightarrow> cz_current z | None \<Rightarrow> DEFAULT_VIEWPORT_HEIGHT) e of
        (e', Some _) \<Rightarrow> Some e' | _ \<Rightarrow> None) (cs_entries (sc_shake c))"
proof -
  let ?h = "case sc_zoom c of Some z \<Rightarrow> cz_current z | None \<Rightarrow> DEFAULT_VIEWPORT_HEIGHT" and ?es = "cs_entries (sc_shake c)"
  let ?step = "shake_apply_entry K dt ?h"
  have ident: "se_id (fst (shake_apply_entry K dt h e)) = se_id e" for h e
    by (simp add: shake_apply_entry_def Let_def)
  have "cs_entries (sc_shake c') = foldl (\<lambda>es i. case first_index (\<lambda>e. se_id e = i) es of Some idx \<Rightarrow> vec_remove idx es | None \<Rightarrow> es)
      (fst (shake_apply_loop K dt ?h ?es)) (snd (snd (shake_apply_loop K dt ?h ?es)))"
    using assms(2) by (auto simp: shake_apply_one_def Let_def split_beta)
  also have "\<dots> = filter (\<lambda>e. se_id e \<notin> se_id ` {e \<in> set ?es. snd (?step e) = None}) (map (fst \<circ> ?step) ?es)"
    using assms(1) by (subst remove_all_ids) (simp_all add: shake_loop_eq ident comp_def)
  also have "\<dots> = map (fst \<circ> ?step) (filter (\<lambda>e. snd (?step e) \<noteq> None) ?es)"
  proof -
    have "se_id e \<in> se_id ` {e \<in> set ?es. snd (?step e) = None} \<longleftrightarrow> snd (?step e) = None" if "e \<in> set ?es" for e
      using that assms(1) by (auto simp: distinct_map dest: inj_onD)
    then show ?thesis by (simp add: filter_map comp_def ident cong: filter_cong)
  qed
  also have "\<dots> = List.map_filter (\<lambda>e. case ?step e of (e', Some _) \<Rightarrow> Some e' | _ \<Rightarrow> None) ?es"
  proof -
    have "(case ?step e of (e', Some _) \<Rightarrow> Some e' | _ \<Rightarrow> None) = (if snd (?step e) \<noteq> None then Some (fst (?step e)) else None)" for e
      by (cases "?step e") (simp split: option.split)
    then show ?thesis by (simp add: map_filter_def comp_def cong: filter_cong)
  qed
  finally show ?thesis .
qed

section \<open>Bounds and zoom limits\<close>

text \<open>Whatever the arithmetic yields, a coordinate that is clamped ends within the limits computed, and the
  clamping fails exactly when these limits are not in order.\<close>

lemma clamp_axis_range:
  assumes "clamp_axis F lo hi half v = Some v'" "\<not> f32_is_nan v" "\<not> f32_le (fe_sub F hi lo) (fe_mul F half F32_TWO)"
  shows "f32_le (fe_add F lo half) v' \<and> f32_le v' (fe_sub F hi half)"
  using assms f32_clamp_range [of v "fe_add F lo half" "fe_sub F hi half"]
  by (auto simp: clamp_axis_def f32_clamp_checked_def split: if_splits)

lemma clamp_axis_panics:
  "clamp_axis F lo hi half v = None \<longleftrightarrow>
     \<not> f32_le (fe_sub F hi lo) (fe_mul F half F32_TWO) \<and> \<not> f32_le (fe_add F lo half) (fe_sub F hi half)"
  by (simp add: clamp_axis_def f32_clamp_checked_def)

lemma f32_min_max_le: "\<not> f32_is_nan a \<or> \<not> f32_is_nan b \<Longrightarrow> f32_le (f32_min a b) (f32_max a b)"
  by (auto simp: f32_min_def f32_max_def f32_le_def f32_lt_def)

text \<open>The zoom never panics unless both limits are NaN, and its target ends between the limits in whatever order
  they are given.\<close>

lemma zoom_target_range:
  assumes "\<not> f32_is_nan (cz_min zoom) \<or> \<not> f32_is_nan (cz_max zoom)"
  shows "case zoom_step F dt d zoom of None \<Rightarrow> False
    | Some zoom' \<Rightarrow> f32_is_nan (cz_target zoom') \<or> (f32_le (f32_min (cz_min zoom) (cz_max zoom)) (cz_target zoom')
        \<and> f32_le (cz_target zoom') (f32_max (cz_min zoom) (cz_max zoom)))"
proof -
  have le: "f32_le (f32_min (cz_min zoom) (cz_max zoom)) (f32_max (cz_min zoom) (cz_max zoom))"
    using assms by (rule f32_min_max_le)
  have "f32_is_nan (f32_clamp lo hi t) \<or> (f32_le lo (f32_clamp lo hi t) \<and> f32_le (f32_clamp lo hi t) hi)"
    if "f32_le lo hi" for lo hi t
    using f32_clamp_range [of t lo hi] that by (cases "f32_is_nan t") (auto simp: f32_clamp_def f32_lt_def)
  from this [OF le] show ?thesis
    by (auto simp: zoom_step_def f32_clamp_checked_def Let_def le)
qed

section \<open>Properties\<close>

text \<open>one flush empties the queue of camera operations and, with the event handler of the cameras, applies to
  each camera exactly the override operations addressed to it, in the order in which the scripts made them: those
  with handle zero and those whose handle resolves to it; operations for a handle nobody has are dropped.\<close>
lemma camera_ops_routed:
  "case flush_camera_ops registry q ([], []) of ((overrides, shakes), q') \<Rightarrow>
     q' = [] \<and> override_event_handler_system overrides cameras
       = map (\<lambda>(e, s). (e, fold apply_override_op (override_ops_for registry e q) s)) cameras"
proof -
  have "fst (fold (flush_op registry) q ([], [])) = override_requests registry q" by (simp add: override_requests_def)
  then show ?thesis
    by (simp add: flush_camera_ops_def camera_op_queue_drain_def handler_eq requests_on split_beta)
qed

end
