(* ===== verification/Calendar.thy ===== *)
theory Calendar
  imports Prelude
begin

text \<open>
  The date arithmetic of the manifest generator (\<^verbatim>\<open>tools/manifest-gen/src/main.rs\<close>: \<open>days_to_ymd\<close>,
  \<open>utc_now_iso8601\<close>), and the Gregorian calendar it computes without a loop.
\<close>

definition days_to_ymd :: "u64 \<Rightarrow> u64 \<times> u64 \<times> u64" where
  "days_to_ymd days =
     (let z = days + 719468;
          era = z div 146097;
          doe = z - era * 146097;
          yoe = (doe - doe div 1460 + doe div 36524 - doe div 146096) div 365;
          y = yoe + era * 400;
          doy = doe - (365 * yoe + yoe div 4 - yoe div 100);
          mp = (5 * doy + 2) div 153;
          d = doy - (153 * mp + 2) div 5 + 1;
          m = (if mp < 10 then mp + 3 else mp - 9);
          y = (if m \<le> 2 then y + 1 else y)
      in (y, m, d))"

definition pad :: "nat \<Rightarrow> nat \<Rightarrow> string" where
  "pad w n = replicate (w - length (decimal n)) CHR ''0'' @ decimal n"

definition iso8601 :: "u64 \<Rightarrow> string" where
  "iso8601 secs =
     (let days = secs div 86400;
          time_secs = secs mod 86400;
          hours = time_secs div 3600;
          minutes = time_secs mod 3600 div 60;
          seconds = time_secs mod 60;
          (year, month, day) = days_to_ymd days
      in pad 4 (unat year) @ ''-'' @ pad 2 (unat month) @ ''-'' @ pad 2 (unat day) @ ''T''
         @ pad 2 (unat hours) @ '':'' @ pad 2 (unat minutes) @ '':'' @ pad 2 (unat seconds) @ ''Z'')"

section \<open>The calendar, day by day\<close>

type_synonym date = "int \<times> int \<times> int"

definition leap_year :: "int \<Rightarrow> bool" where
  "leap_year y \<longleftrightarrow> (4 dvd y \<and> \<not> 100 dvd y) \<or> 400 dvd y"

definition month_length :: "int \<Rightarrow> int \<Rightarrow> int" where
  "month_length y m = (if m = 2 then (if leap_year y then 29 else 28) else if m \<in> {4, 6, 9, 11} then 30 else 31)"

fun next_day :: "date \<Rightarrow> date" where
  "next_day (y, m, d) =
     (if d < month_length y m then (y, m, d + 1) else if m < 12 then (y, m + 1, 1) else (y + 1, 1, 1))"

definition date_of_day :: "nat \<Rightarrow> date" where
  "date_of_day n = (next_day ^^ n) (1970, 1, 1)"

section \<open>Years\<close>

text \<open>The computation on integers, in the parts the proof follows: the year of a day in an era of 400 years that begin
  in March, and month and day of a day in such a year.\<close>

definition year_sum :: "int \<Rightarrow> int" where
  "year_sum doe = doe - doe div 1460 + doe div 36524 - doe div 146096"

definition year_start :: "int \<Rightarrow> int" where
  "year_start y = 365 * y + y div 4 - y div 100 + y div 400"

definition month_day :: "int \<Rightarrow> int \<times> int" where
  "month_day doy =
     (let mp = (5 * doy + 2) div 153
      in (if mp < 10 then mp + 3 else mp - 9, doy - (153 * mp + 2) div 5 + 1))"

lemma year_sum_mono:
  assumes "0 \<le> a" "a \<le> b" "b < 146097"
  shows "year_sum a \<le> year_sum b"
proof -
  have "a - a div 1460 \<le> b - b div 1460"
  proof (cases "a = b")
    case False
    have "1460 * (a div 1460) \<le> a" "a < 1460 * (a div 1460) + 1460" "1460 * (b div 1460) \<le> b" by linarith+
    then show ?thesis using False assms(2) by linarith
  qed simp
  moreover have "a div 36524 - a div 146096 \<le> b div 36524 - b div 146096"
  proof (cases "b = 146096")
    case True
    have "a div 146096 = (if a = 146096 then 1 else 0)" using assms True by (auto simp: div_pos_pos_trivial)
    moreover have "a div 36524 \<le> 3" if "a \<noteq> 146096" using that assms True by linarith
    ultimately show ?thesis using True by auto
  next
    case False
    then have "a div 146096 = 0" "b div 146096 = 0" using assms by (simp_all add: div_pos_pos_trivial)
    then show ?thesis using zdiv_mono1 [OF assms(2), of 36524] by simp
  qed
  ultimately show ?thesis by (simp add: year_sum_def)
qed

lemma year_check:
  "list_all (\<lambda>y. year_sum (year_start y) div 365 = y \<and> year_sum (year_start (y + 1) - 1) div 365 = y) [0..399]"
  by code_simp

lemma year_start_le:
  assumes "0 \<le> y" "y < 400"
  shows "year_start (y + 1) \<le> 146097"
proof (cases "y = 399")
  case False
  with assms(1,2) have "(y + 1) div 400 = 0" "(y + 1) div 4 \<le> 100" "0 \<le> (y + 1) div 100"
    using zdiv_mono1 [of "y + 1" 400 4] by (simp_all add: div_pos_pos_trivial pos_imp_zdiv_nonneg_iff)
  moreover have "y \<le> 398" using False assms(2) by simp
  moreover have "365 * (y + 1) + a - b + c \<le> 146097" if "c = 0" "a \<le> 100" "0 \<le> b" "y \<le> 398" for a b c
    using that by simp
  ultimately show ?thesis unfolding year_start_def by blast
qed (simp add: year_start_def)

lemma year_of_day:
  assumes "0 \<le> y" "y < 400" "year_start y \<le> doe" "doe < year_start (y + 1)"
  shows "year_sum doe div 365 = y"
proof -
  have c: "year_sum (year_start y) div 365 = y" "year_sum (year_start (y + 1) - 1) div 365 = y"
    using year_check assms(1,2) by (auto simp: list_all_iff)
  have "0 \<le> y div 4" "y div 100 \<le> y" "0 \<le> y div 400"
    using assms(1) zdiv_mono2 [of y 1 100] by (simp_all add: pos_imp_zdiv_nonneg_iff)
  then have s1: "0 \<le> year_start y" using assms(1) unfolding year_start_def by linarith
  have s2: "year_start (y + 1) \<le> 146097" by (rule year_start_le [OF assms(1,2)])
  note s = s1 s2
  have "year_sum (year_start y) \<le> year_sum doe" "year_sum doe \<le> year_sum (year_start (y + 1) - 1)"
    using year_sum_mono [OF s(1) assms(3)] year_sum_mono [of doe "year_start (y + 1) - 1"] assms s by linarith+
  then have "year_sum (year_start y) div 365 \<le> year_sum doe div 365" "year_sum doe div 365 \<le> year_sum (year_start (y + 1) - 1) div 365"
    by (simp_all add: zdiv_mono1)
  with c show ?thesis by simp
qed

lemma div_Suc_dvd:
  fixes y n :: int
  assumes "0 < n"
  shows "(y + 1) div n = y div n + (if n dvd y + 1 then 1 else 0)"
proof -
  define q r where "q = y div n" and "r = y mod n"
  have y: "y = q * n + r" "0 \<le> r" "r < n" using assms by (simp_all add: q_def r_def)
  show ?thesis
  proof (cases "r + 1 = n")
    case True
    then have y1: "y + 1 = (q + 1) * n" using y by (simp add: algebra_simps)
    have "n dvd y + 1" "(y + 1) div n = q + 1" unfolding y1 using assms by simp_all
    then show ?thesis by (simp add: q_def)
  next
    case False
    then have "y + 1 = n * q + (r + 1)" "0 \<le> r + 1" "r + 1 < n" using y by simp_all
    then have "(y + 1) div n = q" "(y + 1) mod n = r + 1" using int_div_pos_eq int_mod_pos_eq by blast+
    moreover have "\<not> n dvd y + 1" using \<open>(y + 1) mod n = r + 1\<close> y(2) by (simp add: dvd_eq_mod_eq_0)
    ultimately show ?thesis unfolding q_def [symmetric] by simp
  qed
qed

lemma year_length: "year_start (y + 1) = year_start y + (if leap_year (y + 1) then 366 else 365)"
proof -
  have n: "(0::int) < 4" "(0::int) < 100" "(0::int) < 400" by simp_all
  have m: "(100::int) dvd 400" "(4::int) dvd 100" by (rule dvdI [of _ _ 4], simp, rule dvdI [of _ _ 25], simp)
  note d = dvd_trans [OF m(1)] dvd_trans [OF m(2)]
  define a b c where abc: "a = (4 dvd y + 1)" "b = (100 dvd y + 1)" "c = (400 dvd y + 1)"
  have "year_start (y + 1) = 365 * (y + 1) + (y div 4 + (if a then 1 else 0)) - (y div 100 + (if b then 1 else 0))
      + (y div 400 + (if c then 1 else 0))"
    unfolding year_start_def div_Suc_dvd [OF n(1)] div_Suc_dvd [OF n(2)] div_Suc_dvd [OF n(3)] abc ..
  then have "year_start (y + 1) = year_start y + 365 + (if a then 1 else 0) - (if b then 1 else 0) + (if c then 1 else 0)"
    by (simp add: year_start_def)
  moreover have "leap_year (y + 1) \<longleftrightarrow> (a \<and> \<not> b) \<or> c" by (simp add: leap_year_def abc)
  moreover have "c \<Longrightarrow> b" "b \<Longrightarrow> a" unfolding abc by (rule d(1), assumption) (rule d(2), assumption)
  ultimately show ?thesis by (cases a; cases b; cases c) simp_all
qed

section \<open>Days\<close>

lemma day_in_year:
  assumes "n < 146097"
  shows "\<exists>y. 0 \<le> y \<and> y < 400 \<and> year_start y \<le> int n \<and> int n < year_start (y + 1)"
  using assms
proof (induction n)
  case 0
  show ?case by (intro exI [of _ 0]) (simp add: year_start_def)
next
  case (Suc n)
  then obtain y where y: "0 \<le> y" "y < 400" "year_start y \<le> int n" "int n < year_start (y + 1)" by auto
  show ?case
  proof (cases "int (Suc n) < year_start (y + 1)")
    case True
    with y show ?thesis by (intro exI [of _ y]) simp
  next
    case False
    with y(4) have n: "int (Suc n) = year_start (y + 1)" by simp
    have "y \<noteq> 399" using n Suc.prems by (auto simp: year_start_def)
    then have "y + 1 < 400" using y(2) by simp
    moreover have "year_start (y + 1) < year_start (y + 1 + 1)" using year_length [of "y + 1"] by (simp split: if_splits)
    ultimately show ?thesis using y(1) n by (intro exI [of _ "y + 1"]) simp
  qed
qed

definition civil :: "int \<Rightarrow> date" where
  "civil z =
     (let doe = z mod 146097; yoe = year_sum doe div 365; doy = doe - year_start yoe; (m, d) = month_day doy
      in (yoe + z div 146097 * 400 + (if m \<le> 2 then 1 else 0), m, d))"

lemma civil_at:
  assumes "0 \<le> y" "y < 400" "year_start y \<le> doe" "doe < year_start (y + 1)" "0 \<le> doe" "doe < 146097"
  shows "civil (era * 146097 + doe) =
    (y + era * 400 + (if fst (month_day (doe - year_start y)) \<le> 2 then 1 else 0), month_day (doe - year_start y))"
proof -
  have "(era * 146097 + doe) mod 146097 = doe" "(era * 146097 + doe) div 146097 = era" using assms(5,6) by simp_all
  then show ?thesis
    by (simp add: civil_def Let_def year_of_day [OF assms(1-4)] split_beta)
qed

text \<open>Month and day run through the months from March on; 28 February is day 364.\<close>

definition month_step :: "int \<Rightarrow> bool" where
  "month_step doy \<longleftrightarrow> (let (m, d) = month_day doy in
     (if d < (if m = 2 then 29 else if m \<in> {4, 6, 9, 11} then 30 else 31) then month_day (doy + 1) = (m, d + 1)
      else if m < 12 then month_day (doy + 1) = (m + 1, 1) \<and> m \<noteq> 2 else month_day (doy + 1) = (1, 1))
     \<and> (m \<le> 2 \<longleftrightarrow> 306 \<le> doy) \<and> (m = 2 \<and> 28 \<le> d \<longleftrightarrow> doy = 364) \<and> 1 \<le> m \<and> m \<le> 12)"

lemma month_check: "list_all month_step [0..364]"
  by code_simp

lemma month_ends: "month_day 0 = (3, 1)" "month_day 364 = (2, 28)" "month_day 365 = (2, 29)"
  by (simp_all add: month_day_def Let_def)

lemma leap_year_era: "leap_year (y + era * 400) = leap_year y"
proof -
  have "era * 400 = (era * 4) * 100" "era * 400 = (era * 100) * 4" by simp_all
  then have "4 dvd y + era * 400 \<longleftrightarrow> 4 dvd y" "100 dvd y + era * 400 \<longleftrightarrow> 100 dvd y" "400 dvd y + era * 400 \<longleftrightarrow> 400 dvd y"
    by (metis dvd_add_times_triv_right_iff)+
  then show ?thesis by (simp add: leap_year_def)
qed

lemma date_steps_in_year:
  assumes "0 \<le> doy" "doy < 364 \<or> (doy = 364 \<and> leap_year (Y + 1))"
  shows "next_day (Y + (if fst (month_day doy) \<le> 2 then 1 else 0), month_day doy) =
    (Y + (if fst (month_day (doy + 1)) \<le> 2 then 1 else 0), month_day (doy + 1))"
proof -
  have "month_step doy" using month_check assms by (auto simp: list_all_iff)
  moreover have "306 \<le> doy + 1 \<longleftrightarrow> 306 \<le> doy \<or> doy = 305" by auto
  ultimately show ?thesis
    using assms month_ends by (auto simp: month_step_def month_length_def Let_def split: if_splits prod.splits)
qed

lemma date_steps_over_year:
  assumes "doy = (if leap_year (Y + 1) then 365 else 364)"
  shows "next_day (Y + (if fst (month_day doy) \<le> 2 then 1 else 0), month_day doy) = (Y + 1, 3, 1)"
  using assms by (simp add: month_ends month_length_def split: if_splits)

lemma civil_step: "civil (z + 1) = next_day (civil z)"
proof -
  define era doe where "era = z div 146097" and "doe = z mod 146097"
  have z: "z = era * 146097 + doe" "0 \<le> doe" "doe < 146097" by (simp_all add: era_def doe_def)
  obtain y where y: "0 \<le> y" "y < 400" "year_start y \<le> doe" "doe < year_start (y + 1)"
    using day_in_year [of "nat doe"] z by (auto simp: nat_less_iff)
  define doy where "doy = doe - year_start y"
  have now: "civil z = (y + era * 400 + (if fst (month_day doy) \<le> 2 then 1 else 0), month_day doy)"
    unfolding doy_def using civil_at [OF y z(2,3), of era] z(1) by simp
  have leap: "leap_year (y + era * 400 + 1) = leap_year (y + 1)"
    using leap_year_era [of "y + 1" era] by (simp add: algebra_simps)
  have len: "year_start (y + 1) = year_start y + (if leap_year (y + 1) then 366 else 365)" by (rule year_length)
  have new_year: "next_day (civil z) = (y + era * 400 + 1, 3, 1)" if "doe + 1 = year_start (y + 1)"
    unfolding now by (rule date_steps_over_year) (use that len leap in \<open>auto simp: doy_def split: if_splits\<close>)
  consider "doe + 1 < year_start (y + 1)" | "doe + 1 = year_start (y + 1)" "y < 399" | "doe + 1 = year_start (y + 1)" "y = 399"
    using y by linarith
  then show ?thesis
  proof cases
    case 1
    then have "doe + 1 < 146097" using year_start_le [OF y(1,2)] by simp
    then have "civil (z + 1) = (y + era * 400 + (if fst (month_day (doy + 1)) \<le> 2 then 1 else 0), month_day (doy + 1))"
      using civil_at [OF y(1,2) _ 1, of era] y(3) z(1,2) by (simp add: doy_def algebra_simps)
    moreover have "0 \<le> doy" "doy < 364 \<or> doy = 364 \<and> leap_year (y + era * 400 + 1)"
      using 1 y(3) len leap by (auto simp: doy_def split: if_splits)
    ultimately show ?thesis unfolding now using date_steps_in_year [of doy "y + era * 400"] by simp
  next
    case 2
    have lt: "year_start (y + 1) < year_start (y + 1 + 1)" using year_length [of "y + 1"] by (simp split: if_splits)
    have "year_start (y + 1 + 1) \<le> 146097" by (rule year_start_le) (use 2 y(1) in simp_all)
    then have "civil (era * 146097 + (doe + 1)) = (y + 1 + era * 400, 3, 1)"
      using civil_at [of "y + 1" "doe + 1" era] 2 y(1) z(2) lt by (simp add: month_ends)
    then show ?thesis using new_year [OF 2(1)] z(1) by (simp add: algebra_simps)
  next
    case 3
    then have "doe = 146096" by (simp add: year_start_def)
    moreover have "civil ((era + 1) * 146097 + 0) = (era * 400 + 400, 3, 1)"
      using civil_at [of 0 0 "era + 1"] by (simp add: year_start_def month_ends)
    ultimately show ?thesis using new_year 3 z(1) by (simp add: algebra_simps)
  qed
qed

section \<open>The generator's dates\<close>

definition in_range64 :: "int \<Rightarrow> bool" where
  "in_range64 a \<longleftrightarrow> 0 \<le> a \<and> a < 2 ^ 64"

lemma uint_fits: "in_range64 a \<Longrightarrow> uint (word_of_int a :: u64) = a"
  by (simp add: in_range64_def unsigned_of_int take_bit_int_eq_self)

lemma word_div_fits:
  "in_range64 a \<Longrightarrow> in_range64 (numeral n) \<Longrightarrow> (word_of_int a :: u64) div numeral n = word_of_int (a div numeral n)"
  by (simp add: word_div_def uint_fits [of a] uint_fits [of "numeral n", simplified])

lemma word_le_fits:
  "in_range64 a \<Longrightarrow> in_range64 (numeral n) \<Longrightarrow> (word_of_int a :: u64) \<le> numeral n \<longleftrightarrow> a \<le> numeral n"
  "in_range64 a \<Longrightarrow> in_range64 (numeral n) \<Longrightarrow> (word_of_int a :: u64) < numeral n \<longleftrightarrow> a < numeral n"
  by (simp_all add: word_le_def word_less_def uint_fits [of a] uint_fits [of "numeral n", simplified])

lemma days_to_ymd_civil:
  assumes "uint days + 719468 < 2 ^ 64"
  shows "map_prod uint (map_prod uint uint) (days_to_ymd days) = civil (uint days + 719468)"
proof -
  define Z D Y where "Z = uint days + 719468" and "D = Z mod 146097" and "Y = year_sum D div 365"
  define N MP where "N = D - year_start Y" and "MP = (5 * N + 2) div 153"
  have ft: "in_range64 (numeral n)" if "numeral n < (2::int) ^ 64" for n using that by (simp add: in_range64_def)
  have Z: "days + 719468 = word_of_int Z" "in_range64 Z"
    using assms by (simp_all add: Z_def in_range64_def wi_hom_syms)
  have D: "0 \<le> D" "D < 146097" by (simp_all add: D_def)
  obtain y where y: "0 \<le> y" "y < 400" "year_start y \<le> D" "D < year_start (y + 1)"
    using day_in_year [of "nat D"] D by (auto simp: nat_less_iff)
  then have yY: "y = Y" using year_of_day [OF y] by (simp add: Y_def)
  have Y: "0 \<le> Y" "Y < 400" "0 \<le> N" "N \<le> 365"
    using y year_length [of Y] by (auto simp: yY N_def split: if_splits)
  have f1: "word_of_int Z div 146097 = (word_of_int (Z div 146097) :: u64)" using Z(2) by (simp add: word_div_fits ft)
  have f2: "word_of_int Z - word_of_int (Z div 146097) * 146097 = (word_of_int D :: u64)"
    by (simp add: D_def minus_div_mult_eq_mod [symmetric])
  have f3: "(word_of_int D - word_of_int D div 1460 + word_of_int D div 36524 - word_of_int D div 146096) div 365
      = (word_of_int Y :: u64)"
  proof -
    have fD: "in_range64 D" using D by (simp add: in_range64_def)
    have "word_of_int D - word_of_int D div 1460 + word_of_int D div 36524 - word_of_int D div 146096
        = (word_of_int (year_sum D) :: u64)" by (simp add: word_div_fits fD ft year_sum_def)
    moreover have "in_range64 (year_sum D)"
      using year_sum_mono [of 0 D] year_sum_mono [of D 146096] D by (simp add: year_sum_def in_range64_def)
    ultimately show ?thesis by (simp add: word_div_fits ft Y_def)
  qed
  have f4: "word_of_int D - (365 * word_of_int Y + word_of_int Y div 4 - word_of_int Y div 100) = (word_of_int N :: u64)"
  proof -
    have "in_range64 Y" "Y div 400 = 0" using Y by (simp_all add: in_range64_def div_pos_pos_trivial)
    then show ?thesis by (simp add: word_div_fits ft N_def year_start_def)
  qed
  have MP: "0 \<le> MP" "MP < 12" using Y(3,4) unfolding MP_def by linarith+
  have f5: "(5 * word_of_int N + 2) div 153 = (word_of_int MP :: u64)"
    using word_div_fits [of "5 * N + 2" "num.Bit1 (num.Bit0 (num.Bit0 (num.Bit1 (num.Bit1 (num.Bit0 (num.Bit0 num.One))))))"] Y
    by (simp add: MP_def in_range64_def)
  have f6: "(153 * word_of_int MP + 2) div 5 = (word_of_int ((153 * MP + 2) div 5) :: u64)"
    using word_div_fits [of "153 * MP + 2" "num.Bit1 (num.Bit0 num.One)"] MP by (simp add: in_range64_def)
  have f7: "((word_of_int MP :: u64) < 10) = (MP < 10)" using MP by (simp add: word_le_fits ft in_range64_def)
  define d m where "d = N - (153 * MP + 2) div 5 + 1" and "m = (if MP < 10 then MP + 3 else MP - 9)"
  have md: "month_day N = (m, d)" by (simp add: month_day_def MP_def d_def m_def Let_def)
  have "153 * MP \<le> 5 * N + 2" unfolding MP_def by linarith
  then have b: "0 \<le> m" "m \<le> 12" "0 \<le> d" "d \<le> 366"
    using MP Y(3,4) unfolding d_def by (simp_all add: m_def)
  have f8: "(if MP < 10 then word_of_int MP + 3 else word_of_int MP - 9) = (word_of_int m :: u64)"
    "word_of_int N - word_of_int ((153 * MP + 2) div 5) + 1 = (word_of_int d :: u64)" by (simp_all add: m_def d_def)
  have f9: "((word_of_int m :: u64) \<le> 2) = (m \<le> 2)" using b by (simp add: word_le_fits ft in_range64_def)
  define yr where "yr = Y + Z div 146097 * 400"
  have era: "0 \<le> Z div 146097" "Z div 146097 * 146097 \<le> Z" "Z < 2 ^ 64" using Z(2) by (simp_all add: in_range64_def, linarith)
  have yr: "0 \<le> yr" "yr + 1 < 2 ^ 64" using Y era by (simp_all add: yr_def)
  have f10: "word_of_int Y + word_of_int (Z div 146097) * 400 = (word_of_int yr :: u64)" by (simp add: yr_def)
  have "days_to_ymd days = (if m \<le> 2 then word_of_int yr + 1 else word_of_int yr, word_of_int m, word_of_int d)"
    by (simp only: days_to_ymd_def Let_def Z(1) f1 f2 f3 f4 f5 f6 f7 f8 f9 f10)
  moreover have "(if m \<le> 2 then word_of_int yr + 1 else word_of_int yr) = (word_of_int (yr + (if m \<le> 2 then 1 else 0)) :: u64)" by simp
  ultimately have "map_prod uint (map_prod uint uint) (days_to_ymd days) = (yr + (if m \<le> 2 then 1 else 0), m, d)"
    using b yr by (simp only: map_prod_simp) (simp add: uint_fits in_range64_def del: of_int_add)
  moreover have "civil Z = (yr + (if m \<le> 2 then 1 else 0), m, d)"
    by (simp add: civil_def Let_def D_def [symmetric] Y_def [symmetric] N_def [symmetric] md yr_def)
  ultimately show ?thesis by (simp add: Z_def)
qed

lemma date_of_day_civil: "date_of_day n = civil (int n + 719468)"
proof (induction n)
  case 0
  show ?case by (simp add: date_of_day_def civil_def year_sum_def year_start_def month_day_def Let_def)
next
  case (Suc n)
  have "civil (int (Suc n) + 719468) = next_day (civil (int n + 719468))"
    using civil_step [of "int n + 719468"] by (simp add: algebra_simps)
  with Suc show ?case by (simp add: date_of_day_def)
qed

section \<open>The timestamp\<close>

definition date_text :: "date \<Rightarrow> string" where
  "date_text = (\<lambda>(y, m, d). pad 4 (nat y) @ ''-'' @ pad 2 (nat m) @ ''-'' @ pad 2 (nat d))"

definition clock_text :: "nat \<Rightarrow> string" where
  "clock_text s = pad 2 (s div 3600) @ '':'' @ pad 2 (s div 60 mod 60) @ '':'' @ pad 2 (s mod 60)"

lemma date_of_day_exact:
  assumes "uint days + 719468 < 2 ^ 64"
  shows "map_prod uint (map_prod uint uint) (days_to_ymd days) = date_of_day (unat days)"
  using days_to_ymd_civil [OF assms] by (simp add: date_of_day_civil)

text \<open>C11: The timestamp of a manifest is the Gregorian date and time of day of the system clock, for every reading of the
  clock: the division cascade that computes year, month and day without a loop agrees with counting days one by one from
  1 January 1970 through the months and leap years, and no step of it overflows.\<close>
theorem timestamp_correct:
  "iso8601 secs = date_text (date_of_day (unat secs div 86400)) @ ''T'' @ clock_text (unat secs mod 86400) @ ''Z''"
proof -
  obtain y m d where ymd: "days_to_ymd (secs div 86400) = (y, m, d)" by (metis prod_cases3)
  have n: "unat (secs div 86400) = unat secs div 86400" "unat (secs mod 86400) = unat secs mod 86400"
    by (simp_all add: unat_div unat_mod)
  have "uint (secs div 86400) = uint secs div 86400" by (simp add: uint_div)
  moreover have "uint secs < 18446744073709551616" using uint_lt2p [of secs] by simp
  ultimately have "uint (secs div 86400) + 719468 < 2 ^ 64" by simp
  then have "date_of_day (unat secs div 86400) = (uint y, uint m, uint d)"
    using date_of_day_exact [of "secs div 86400"] by (simp add: ymd n)
  moreover have "unat secs mod 86400 mod 3600 div 60 = unat secs mod 86400 div 60 mod 60"
    using mod_mult2_eq [of "unat secs mod 86400" 60 60] by simp
  ultimately show ?thesis
    by (simp add: iso8601_def Let_def ymd date_text_def clock_text_def unat_div unat_mod n del: mod_mod_cancel)
qed

end
