(* ===== verification/Manifest_Gen.thy ===== *)
theory Manifest_Gen
  imports Assets Calendar Paths
begin

text \<open>
  The manifest generator (\<^verbatim>\<open>tools/manifest-gen/src/main.rs\<close>): grouping the files of the asset directory by
  asset, choosing the primary file of each, writing the manifest, and verifying a directory against one. The walk over
  the directory, the hash function, the RON format and the check that a file exists are parameters.
\<close>

section \<open>Scanning\<close>

text \<open>A file as the walk finds it: its path below the asset directory, the length its metadata report and what reading it
  gives.\<close>

record WalkedFile =
  wf_path :: string
  wf_len :: "string + u64"
  wf_content :: "string + bytes"

type_synonym ScannedFile = "string \<times> AssetFormat \<times> u64 \<times> string"

record ScannedAsset =
  sa_primary_path :: string
  sa_format :: AssetFormat
  sa_size_bytes :: u64
  sa_blake3_hex :: string
  sa_sidecars :: "string list"

definition rel_path :: "WalkedFile \<Rightarrow> string" where
  "rel_path f = map (\<lambda>c. if c = CHR 0x5C then CHR ''/'' else c) (wf_path f)"

definition asset_stem :: "string \<Rightarrow> string" where
  "asset_stem rel = (case rsplit_dot rel of (Some s, _) \<Rightarrow> s | (None, _) \<Rightarrow> rel)"

definition scan_file :: "(string \<Rightarrow> string) \<Rightarrow> (bytes \<Rightarrow> bytes) \<Rightarrow> WalkedFile \<Rightarrow> string + ScannedFile" where
  "scan_file to_lowercase blake3 f =
     (let ext = (case file_extension (file_name (wf_path f)) of Some e \<Rightarrow> e | None \<Rightarrow> '''');
          format = from_extension to_lowercase ext
      in case wf_len f of
           Inl e \<Rightarrow> Inl e
         | Inr len \<Rightarrow>
             (case wf_content f of
                Inl e \<Rightarrow> Inl e
              | Inr content \<Rightarrow> Inr (rel_path f, format, len, hex_of (blake3 content))))"

definition push_group :: "string \<Rightarrow> 'a \<Rightarrow> (string, 'a list) btree \<Rightarrow> (string, 'a list) btree" where
  "push_group stem x groups =
     (case bm_get groups stem of
        None \<Rightarrow> bm_insert stem [x] groups
      | Some xs \<Rightarrow> bm_insert stem (xs @ [x]) groups)"

fun scan_files :: "(string \<Rightarrow> string) \<Rightarrow> (bytes \<Rightarrow> bytes) \<Rightarrow> WalkedFile list \<Rightarrow> (string, ScannedFile list) btree \<Rightarrow>
    string + (string, ScannedFile list) btree" where
  "scan_files to_lowercase blake3 [] groups = Inr groups"
| "scan_files to_lowercase blake3 (f # fs) groups =
     (if file_name (wf_path f) = ''manifest.ron'' then scan_files to_lowercase blake3 fs groups
      else case scan_file to_lowercase blake3 f of
             Inl e \<Rightarrow> Inl e
           | Inr x \<Rightarrow> scan_files to_lowercase blake3 fs (push_group (asset_stem (rel_path f)) x groups))"

text \<open>\<open>sort_by_key\<close> is stable and \<open>False < True\<close>; \<open>remove(0)\<close> panics on an empty vector.\<close>

definition choose_primary :: "ScannedFile list \<Rightarrow> ScannedAsset option" where
  "choose_primary files =
     (case sort_key (\<lambda>(_, fmt, _, _). \<not> is_primary fmt) files of
        [] \<Rightarrow> None
      | (primary_path, format, size_bytes, hex) # rest \<Rightarrow>
          Some \<lparr>sa_primary_path = primary_path, sa_format = format, sa_size_bytes = size_bytes, sa_blake3_hex = hex,
                sa_sidecars = map fst rest\<rparr>)"

fun choose_all :: "(string, ScannedFile list) btree \<Rightarrow> (string, ScannedAsset) btree \<Rightarrow> (string, ScannedAsset) btree option" where
  "choose_all [] result = Some result"
| "choose_all ((asset, files) # rest) result =
     (case choose_primary files of
        None \<Rightarrow> None
      | Some a \<Rightarrow> choose_all rest (bm_insert asset a result))"

text \<open>\<open>None\<close> is a panic.\<close>

definition scan_directory :: "(string \<Rightarrow> string) \<Rightarrow> (bytes \<Rightarrow> bytes) \<Rightarrow> WalkedFile list \<Rightarrow>
    (string + (string, ScannedAsset) btree) option" where
  "scan_directory to_lowercase blake3 walk =
     (case scan_files to_lowercase blake3 walk [] of
        Inl e \<Rightarrow> Some (Inl e)
      | Inr groups \<Rightarrow> map_option Inr (choose_all groups []))"

section \<open>Generating\<close>

definition manifest_entry :: "ScannedAsset \<Rightarrow> AssetEntry" where
  "manifest_entry a =
     \<lparr>ae_path = sa_primary_path a, ae_format = sa_format a, ae_size_bytes = sa_size_bytes a,
      ae_blake3 = sa_blake3_hex a, ae_blake3_bytes = replicate 32 0, ae_encrypted = False,
      ae_sidecars = sa_sidecars a, ae_tags = []\<rparr>"

definition build_manifest :: "u64 \<Rightarrow> (string, ScannedAsset) btree \<Rightarrow> AssetManifest" where
  "build_manifest secs assets =
     \<lparr>am_version = ''1.0.0'', am_generated_at = iso8601 secs,
      am_assets = fold (\<lambda>(asset, a). bm_insert asset (manifest_entry a)) assets []\<rparr>"

section \<open>Verifying\<close>

datatype 'e VerifyError =
    VerifyIo string
  | VerifyManifest "'e ManifestError"
  | VerifyScan string
  | VerifyFailed string

definition missing_files :: "(string \<Rightarrow> bool) \<Rightarrow> AssetManifest \<Rightarrow> string list" where
  "missing_files file_exists m =
     concat (map (\<lambda>(asset, entry).
       if \<not> file_exists (ae_path entry)
       then [''Manifest '' @ utf8 [0xE6, 0x9C, 0x89] @ '' '' @ asset @ '' '' @ utf8 [0xE4, 0xBD, 0x86, 0xE6, 0xAA, 0x94, 0xE6, 0xA1, 0x88, 0xE4, 0xB8, 0x8D, 0xE5, 0xAD, 0x98, 0xE5, 0x9C, 0xA8, 0xEF, 0xBC, 0x9A] @ ae_path entry] else []) (am_assets m))"

definition missing_entries :: "AssetManifest \<Rightarrow> (string, ScannedAsset) btree \<Rightarrow> string list" where
  "missing_entries m scanned =
     concat (map (\<lambda>(asset, _).
       if manifest_get m asset = None then [utf8 [0xE6, 0xAA, 0x94, 0xE6, 0xA1, 0x88] @ '' '' @ asset @ '' '' @ utf8 [0xE4, 0xB8, 0x8D, 0xE5, 0x9C, 0xA8] @ '' manifest '' @ utf8 [0xE4, 0xB8, 0xAD]] else []) scanned)"

fun changed_hashes :: "AssetManifest \<Rightarrow> (string, ScannedAsset) btree \<Rightarrow> string list option" where
  "changed_hashes m [] = Some []"
| "changed_hashes m ((asset, a) # rest) =
     (case manifest_get m asset of
        None \<Rightarrow> changed_hashes m rest
      | Some entry \<Rightarrow>
          if ae_blake3 entry \<noteq> sa_blake3_hex a
          then (case (str_slice (ae_blake3 entry) 0 8, str_slice (sa_blake3_hex a) 0 8) of
                  (Some old, Some new) \<Rightarrow>
                    map_option ((#) (asset @ '' blake3 '' @ utf8 [0xE4, 0xB8, 0x8D, 0xE4, 0xB8, 0x80, 0xE8, 0x87, 0xB4, 0xEF, 0xBC, 0x9A] @ ''manifest='' @ old @ '', '' @ utf8 [0xE5, 0xAF, 0xA6, 0xE9, 0x9A, 0x9B] @ ''='' @ new))
                      (changed_hashes m rest)
                | _ \<Rightarrow> None)
          else changed_hashes m rest)"

definition verify_manifest :: "(string \<Rightarrow> 'e + AssetManifest) \<Rightarrow> (string \<Rightarrow> string) \<Rightarrow> (bytes \<Rightarrow> bytes) \<Rightarrow>
    (string \<Rightarrow> bool) \<Rightarrow> string + string \<Rightarrow> WalkedFile list \<Rightarrow> ('e VerifyError + unit) option" where
  "verify_manifest from_ron to_lowercase blake3 file_exists manifest_text walk =
     (case manifest_text of
        Inl e \<Rightarrow> Some (Inl (VerifyIo e))
      | Inr text \<Rightarrow>
          (case parse_manifest from_ron text of
             None \<Rightarrow> None
           | Some (Inl e) \<Rightarrow> Some (Inl (VerifyManifest e))
           | Some (Inr m) \<Rightarrow>
               (case scan_directory to_lowercase blake3 walk of
                  None \<Rightarrow> None
                | Some (Inl e) \<Rightarrow> Some (Inl (VerifyScan e))
                | Some (Inr scanned) \<Rightarrow>
                    (case changed_hashes m scanned of
                       None \<Rightarrow> None
                     | Some changed \<Rightarrow>
                         let errors = missing_files file_exists m @ missing_entries m scanned @ changed
                         in if errors = [] then Some (Inr ())
                            else Some (Inl (VerifyFailed (decimal (length errors) @ '' '' @ utf8 [0xE9, 0xA0, 0x85, 0xE9, 0xA9, 0x97, 0xE8, 0xAD, 0x89, 0xE5, 0xA4, 0xB1, 0xE6, 0x95, 0x97])))))))"

section \<open>Maps built in order\<close>

lemma bm_insert_last: "bm_wf (r @ [(k, v)]) \<Longrightarrow> bm_insert k v r = r @ [(k, v)]"
  by (induction r) (auto simp: bm_wf_def)

lemma bm_wf_appendD: "bm_wf (xs @ ys) \<Longrightarrow> bm_wf xs"
  by (simp add: bm_wf_def sorted_wrt_append)

lemma bm_wf_keys: "map fst ys = map fst xs \<Longrightarrow> bm_wf ys = bm_wf xs"
  by (simp add: bm_wf_def)

lemma fold_insert_in_order:
  "bm_wf (r @ map (\<lambda>(k, v). (k, f v)) xs) \<Longrightarrow>
     fold (\<lambda>(k, v). bm_insert k (f v)) xs r = r @ map (\<lambda>(k, v). (k, f v)) xs"
proof (induction xs arbitrary: r)
  case (Cons p xs)
  obtain k v where p: "p = (k, v)" by fastforce
  from Cons.prems have "bm_wf ((r @ [(k, f v)]) @ map (\<lambda>(k, v). (k, f v)) xs)" by (simp add: p)
  with Cons.IH [OF this] show ?case
    by (simp add: p bm_insert_last [OF bm_wf_appendD])
qed simp

lemma am_assets_build: "bm_wf assets \<Longrightarrow>
    am_assets (build_manifest secs assets) = map (\<lambda>(k, a). (k, manifest_entry a)) assets"
  using fold_insert_in_order [of "[]" manifest_entry assets] bm_wf_keys [of "map (\<lambda>(k, a). (k, manifest_entry a)) assets" assets]
  by (simp add: build_manifest_def comp_def case_prod_beta)

lemma choose_all_in_order:
  "bm_wf (r @ map (\<lambda>(k, fs). (k, the (choose_primary fs))) xs) \<Longrightarrow> list_all (\<lambda>(_, fs). choose_primary fs \<noteq> None) xs \<Longrightarrow>
     choose_all xs r = Some (r @ map (\<lambda>(k, fs). (k, the (choose_primary fs))) xs)"
proof (induction xs r rule: choose_all.induct)
  case (2 asset files rest r)
  obtain a where a: "choose_primary files = Some a" using "2.prems"(2) by auto
  have "bm_wf ((r @ [(asset, a)]) @ map (\<lambda>(k, fs). (k, the (choose_primary fs))) rest)" using "2.prems"(1) a by simp
  with "2.IH" [OF a] "2.prems"(2) a show ?case by (simp add: bm_insert_last [OF bm_wf_appendD])
qed simp

section \<open>The primary file\<close>

lemma insort_key_append:
  "k x \<Longrightarrow> list_all (\<lambda>y. \<not> k y) ys \<Longrightarrow> insort_key k x (ys @ zs) = ys @ insort_key k x zs" for k :: "'a \<Rightarrow> bool"
  by (induction ys) auto

lemma sort_key_bool: "sort_key k xs = filter (\<lambda>x. \<not> k x) xs @ filter k xs" for k :: "'a \<Rightarrow> bool"
proof (induction xs)
  case (Cons x xs)
  show ?case
  proof (cases "k x")
    case True
    then show ?thesis
      by (simp add: Cons.IH insort_key_append list_all_iff insort_is_Cons)
  qed (simp add: Cons.IH insort_is_Cons)
qed simp

definition listed :: "WalkedFile list \<Rightarrow> WalkedFile list" where
  "listed walk = filter (\<lambda>f. file_name (wf_path f) \<noteq> ''manifest.ron'') walk"

definition primary_first :: "ScannedFile list \<Rightarrow> ScannedFile list" where
  "primary_first files = filter (\<lambda>(_, fmt, _, _). is_primary fmt) files @ filter (\<lambda>(_, fmt, _, _). \<not> is_primary fmt) files"

definition asset_paths :: "ScannedAsset \<Rightarrow> string list" where
  "asset_paths a = sa_primary_path a # sa_sidecars a"

lemma choose_primary_eq:
  "choose_primary files = (case primary_first files of [] \<Rightarrow> None
     | (p, fmt, n, h) # rest \<Rightarrow> Some \<lparr>sa_primary_path = p, sa_format = fmt, sa_size_bytes = n, sa_blake3_hex = h, sa_sidecars = map fst rest\<rparr>)"
  by (simp add: choose_primary_def primary_first_def sort_key_bool case_prod_unfold)

lemma mset_primary_first: "mset (primary_first files) = mset files"
  by (simp add: primary_first_def case_prod_unfold multiset_partition [symmetric])

lemma primary_first_Nil [simp]: "primary_first files = [] \<longleftrightarrow> files = []"
  by (metis mset_primary_first mset_zero_iff)

lemma choose_primary_None [simp]: "choose_primary files = None \<longleftrightarrow> files = []"
  by (simp add: choose_primary_eq split: list.split) (metis list.distinct(1) primary_first_Nil)

lemma choose_primary_SomeD:
  assumes "choose_primary files = Some a"
  shows "mset (asset_paths a) = mset (map fst files)"
    and "(sa_primary_path a, sa_format a, sa_size_bytes a, sa_blake3_hex a) \<in> set files"
    and "\<And>x. x \<in> set files \<Longrightarrow> is_primary (fst (snd x)) \<Longrightarrow> is_primary (sa_format a)"
proof -
  obtain p fmt n h rest where first: "primary_first files = (p, fmt, n, h) # rest"
    using assms by (auto simp: choose_primary_eq split: list.splits)
  with assms have a: "a = \<lparr>sa_primary_path = p, sa_format = fmt, sa_size_bytes = n, sa_blake3_hex = h, sa_sidecars = map fst rest\<rparr>"
    by (simp add: choose_primary_eq)
  have "mset (map fst ((p, fmt, n, h) # rest)) = mset (map fst files)"
    by (metis first mset_map mset_primary_first)
  then show "mset (asset_paths a) = mset (map fst files)" by (simp add: a asset_paths_def)
  have "set files = set ((p, fmt, n, h) # rest)" by (metis first mset_primary_first set_mset_mset)
  then show "(sa_primary_path a, sa_format a, sa_size_bytes a, sa_blake3_hex a) \<in> set files" by (simp add: a)
  show "is_primary (sa_format a)" if "x \<in> set files" "is_primary (fst (snd x))" for x
  proof -
    have "filter (\<lambda>(_, fmt, _, _). is_primary fmt) files \<noteq> []" using that by (auto simp: filter_empty_conv case_prod_unfold)
    then have "(p, fmt, n, h) \<in> set (filter (\<lambda>(_, fmt, _, _). is_primary fmt) files)"
      using first unfolding primary_first_def
      by (metis append_Cons hd_append2 hd_in_set list.sel(1))
    then show ?thesis by (simp add: a)
  qed
qed

section \<open>What a scan finds\<close>

lemma bm_wf_push: "bm_wf g \<Longrightarrow> bm_wf (push_group s x g)"
  by (auto simp: push_group_def bm_wf_insert split: option.splits)

lemma get_push: "bm_get (push_group s x g) k =
    (if k = s then Some ((case bm_get g s of None \<Rightarrow> [] | Some xs \<Rightarrow> xs) @ [x]) else bm_get g k)"
  by (auto simp: push_group_def bm_simps split: option.splits)

lemma mset_push: "bm_wf g \<Longrightarrow> mset (concat (map snd (push_group s x g))) = mset (concat (map snd g)) + {#x#}"
  using mset_queued_insert [of g s "[x]"] mset_queued_insert [of g s "the (bm_get g s) @ [x]"]
  by (auto simp: push_group_def split: option.splits)

definition group_ok :: "(bytes \<Rightarrow> bytes) \<Rightarrow> string \<Rightarrow> ScannedFile list \<Rightarrow> bool" where
  "group_ok blake3 stem files \<longleftrightarrow>
     files \<noteq> [] \<and> list_all (\<lambda>(path, _, _, h). asset_stem path = stem \<and> (\<exists>content. h = hex_of (blake3 content))) files"

lemma group_ok_push:
  assumes "bm_wf g" "\<forall>(s, fs) \<in> set g. group_ok blake3 s fs" "scan_file l blake3 f = Inr x"
  shows "\<forall>(s, fs) \<in> set (push_group (asset_stem (rel_path f)) x g). group_ok blake3 s fs"
proof -
  have x: "group_ok blake3 (asset_stem (rel_path f)) [x]"
    using assms(3) by (auto simp: scan_file_def Let_def group_ok_def split: sum.splits)
  have wf: "bm_wf (push_group (asset_stem (rel_path f)) x g)" using assms(1) by (rule bm_wf_push)
  show ?thesis
    using assms(2) x unfolding Ball_def split_paired_All bm_get_iff [OF wf, symmetric] bm_get_iff [OF assms(1), symmetric]
    by (auto simp: get_push group_ok_def split: option.splits if_splits)
qed

lemma scan_files_groups:
  assumes "scan_files l blake3 walk g = Inr g'" "bm_wf g" "\<forall>(s, fs) \<in> set g. group_ok blake3 s fs"
  shows "bm_wf g' \<and> (\<forall>(s, fs) \<in> set g'. group_ok blake3 s fs) \<and>
    image_mset fst (mset (concat (map snd g'))) = image_mset fst (mset (concat (map snd g))) + mset (map rel_path (listed walk))"
  using assms
proof (induction l blake3 walk g rule: scan_files.induct)
  case (2 l blake3 f fs groups)
  show ?case
  proof (cases "file_name (wf_path f) = ''manifest.ron''")
    case False
    with "2.prems"(1) obtain x where x: "scan_file l blake3 f = Inr x"
      "scan_files l blake3 fs (push_group (asset_stem (rel_path f)) x groups) = Inr g'"
      by (auto split: sum.splits)
    have "fst x = rel_path f" using x(1) by (auto simp: scan_file_def Let_def split: sum.splits)
    with "2.IH"(2) [OF False x(1) x(2) bm_wf_push group_ok_push] "2.prems"(2,3) x(1) False show ?thesis
      by (simp add: mset_push listed_def)
  qed (use 2 in \<open>simp add: listed_def\<close>)
qed (simp add: listed_def)

lemma scan_directory_groups:
  "scan_directory l blake3 walk = (case scan_files l blake3 walk [] of Inl e \<Rightarrow> Some (Inl e)
     | Inr g \<Rightarrow> Some (Inr (map (\<lambda>(s, fs). (s, the (choose_primary fs))) g)))"
proof (cases "scan_files l blake3 walk []")
  case (Inr g)
  have g: "bm_wf g" "\<forall>(s, fs) \<in> set g. group_ok blake3 s fs" using scan_files_groups [OF Inr] by simp_all
  have "bm_wf (map (\<lambda>(s, fs). (s, the (choose_primary fs))) g)"
    using bm_wf_keys [of "map (\<lambda>(s, fs). (s, the (choose_primary fs))) g" g] g(1) by (simp add: comp_def case_prod_beta)
  moreover have "list_all (\<lambda>(_, fs). choose_primary fs \<noteq> None) g" using g(2) by (auto simp: list_all_iff group_ok_def)
  ultimately show ?thesis using choose_all_in_order [of "[]" g] by (simp add: scan_directory_def Inr)
qed (simp add: scan_directory_def)

lemma scan_directory_sound:
  assumes "scan_directory l blake3 walk = Some (Inr assets)"
  shows "bm_wf assets"
    and "(s, a) \<in> set assets \<Longrightarrow> \<exists>content. sa_blake3_hex a = hex_of (blake3 content)"
    and "(s, a) \<in> set assets \<Longrightarrow> p \<in> set (asset_paths a) \<Longrightarrow> asset_stem p = s"
    and "mset (concat (map (asset_paths \<circ> snd) assets)) = mset (map rel_path (listed walk))"
proof -
  obtain g where scan: "scan_files l blake3 walk [] = Inr g" and assets: "assets = map (\<lambda>(s, fs). (s, the (choose_primary fs))) g"
    using assms by (auto simp: scan_directory_groups split: sum.splits)
  have g: "bm_wf g" "\<forall>(s, fs) \<in> set g. group_ok blake3 s fs" using scan_files_groups [OF scan] by simp_all
  show "bm_wf assets"
    using bm_wf_keys [of assets g] g(1) by (simp add: assets comp_def case_prod_beta)
  have group: "\<exists>fs. choose_primary fs = Some a \<and> group_ok blake3 s fs" if sa: "(s, a) \<in> set assets"
    using that g(2) by (fastforce simp: assets group_ok_def)
  show "\<exists>content. sa_blake3_hex a = hex_of (blake3 content)" if "(s, a) \<in> set assets"
    using group [OF that] choose_primary_SomeD(2) by (fastforce simp: group_ok_def list_all_iff)
  show "asset_stem p = s" if sa: "(s, a) \<in> set assets" and p: "p \<in> set (asset_paths a)"
  proof -
    obtain fs where fs: "choose_primary fs = Some a" "group_ok blake3 s fs" using group [OF sa] by blast
    then have "p \<in> set (map fst fs)"
      using choose_primary_SomeD(1) [OF fs(1)] p by (metis set_mset_mset)
    then show ?thesis using fs(2) by (auto simp: group_ok_def list_all_iff)
  qed
  have "mset (concat (map (asset_paths \<circ> snd) (map (\<lambda>(s, fs). (s, the (choose_primary fs))) h))) =
      image_mset fst (mset (concat (map snd h)))" if "\<forall>(s, fs) \<in> set h. group_ok blake3 s fs" for h
    using that
  proof (induction h)
    case (Cons q h)
    obtain s fs where q: "q = (s, fs)" by fastforce
    with Cons.prems obtain a where "choose_primary fs = Some a" by (cases "choose_primary fs") (auto simp: group_ok_def)
    then show ?case using Cons by (simp add: q choose_primary_SomeD(1))
  qed simp
  then show "mset (concat (map (asset_paths \<circ> snd) assets)) = mset (map rel_path (listed walk))"
    using scan_files_groups [OF scan] g(2) by (simp add: assets)
qed

section \<open>Verifying a generated manifest\<close>

lemma map_of_map_key: "map_of (map (\<lambda>(k, v). (k, f k v)) xs) k = map_option (f k) (map_of xs k)"
  by (induction xs) auto

lemma parse_generated:
  assumes "\<forall>content. length (blake3 content) = 32" "scan_directory l blake3 walk = Some (Inr assets)"
    and "from_ron text = Inr (build_manifest secs assets)" "count_matches '': AssetEntry('' text = length assets"
  obtains m where "parse_manifest from_ron text = Some (Inr m)"
    and "\<And>s. map_option (\<lambda>e. (ae_path e, ae_blake3 e)) (manifest_get m s)
          = map_option (\<lambda>a. (sa_primary_path a, sa_blake3_hex a)) (bm_get assets s)"
    and "map (\<lambda>(s, e). ae_path e) (am_assets m) = map (\<lambda>(s, a). sa_primary_path a) assets"
proof -
  note wf = scan_directory_sound(1) [OF assms(2)]
  have "\<forall>s. \<exists>bs. \<forall>a. bm_get assets s = Some a \<longrightarrow> length bs = 32 \<and> sa_blake3_hex a = hex_of bs"
    using scan_directory_sound(2) [OF assms(2)] assms(1) by (metis map_of_SomeD not_Some_eq option.inject)
  then obtain h where h: "bm_get assets s = Some a \<Longrightarrow> length (h s) = 32 \<and> sa_blake3_hex a = hex_of (h s)" for s a
    by metis
  let ?m = "build_manifest secs assets"
  let ?n = "?m\<lparr>am_assets := map (\<lambda>(s, e). (s, e\<lparr>ae_blake3_bytes := h s\<rparr>)) (am_assets ?m)\<rparr>"
  have "list_all (\<lambda>(s, e). length (h s) = 32 \<and> ae_blake3 e = hex_of (h s)) (am_assets ?m)"
    using h by (auto simp: am_assets_build wf list_all_iff manifest_entry_def bm_get_iff [OF wf, symmetric])
  then have "parse_manifest from_ron text = Some (Inr ?n)"
    using assms(3,4) am_assets_build [OF wf, of secs]
    by (intro parse_manifest_roundtrip) (simp_all add: build_manifest_def SUPPORTED_VERSION_def)
  moreover have "map_option (\<lambda>e. (ae_path e, ae_blake3 e)) (manifest_get ?n s)
      = map_option (\<lambda>a. (sa_primary_path a, sa_blake3_hex a)) (bm_get assets s)" for s
    by (simp add: manifest_get_def am_assets_build [OF wf] map_of_map_key map_of_map option.map_comp comp_def manifest_entry_def
        del: map_map)
  ultimately show ?thesis
    using that am_assets_build [OF wf, of secs] by (simp add: comp_def case_prod_unfold manifest_entry_def)
qed

lemma changed_hashes_exact:
  assumes "list_all (\<lambda>(s, a'). (\<exists>bs. sa_blake3_hex a' = hex_of bs \<and> length bs = 32)
      \<and> (\<forall>e. manifest_get m s = Some e \<longrightarrow> (\<exists>bs. ae_blake3 e = hex_of bs \<and> length bs = 32))) scanned"
  shows "\<exists>changed. changed_hashes m scanned = Some changed \<and>
    (changed = [] \<longleftrightarrow> list_all (\<lambda>(s, a'). \<forall>e. manifest_get m s = Some e \<longrightarrow> ae_blake3 e = sa_blake3_hex a') scanned)"
proof -
  have "str_slice (hex_of bs) 0 8 \<noteq> None" if "length bs = 32" for bs
    using that boundary_hex_of [of _ bs] by (simp add: str_slice_def)
  then show ?thesis
    using assms by (induction scanned) (fastforce split: option.splits prod.splits)+
qed

lemma missing_files_Nil:
  "missing_files file_exists m = [] \<longleftrightarrow> (\<forall>p \<in> set (map (\<lambda>(s, e). ae_path e) (am_assets m)). file_exists p)"
  by (simp only: missing_files_def case_prod_unfold concat_messages_Nil) simp

lemma missing_entries_Nil: "missing_entries m found = [] \<longleftrightarrow> (\<forall>(s, b) \<in> set found. manifest_get m s \<noteq> None)"
  by (simp only: missing_entries_def case_prod_unfold concat_messages_Nil)

text \<open>C10: Verifying a directory against a manifest the tool generated is exact. Whatever the tool scans, the manifest it
  writes is accepted again, without a panic, exactly when every asset's primary file is still there, every asset the
  directory now has was there when the manifest was generated, and the primary file of each hashes to what was recorded.\<close>
theorem generated_manifest_verifies:
  assumes "\<forall>content. length (blake3 content) = 32" "scan_directory l blake3 walk = Some (Inr assets)"
    and "from_ron text = Inr (build_manifest secs assets)" "count_matches '': AssetEntry('' text = length assets"
    and "scan_directory l blake3 now = Some (Inr found)"
  shows "verify_manifest from_ron l blake3 file_exists (Inr text) now \<noteq> None \<and>
    (verify_manifest from_ron l blake3 file_exists (Inr text) now = Some (Inr ()) \<longleftrightarrow>
      (\<forall>(s, a) \<in> set assets. file_exists (sa_primary_path a)) \<and>
      (\<forall>(s, b) \<in> set found. map_option sa_blake3_hex (bm_get assets s) = Some (sa_blake3_hex b)))"
proof -
  obtain m where m: "parse_manifest from_ron text = Some (Inr m)"
    and get: "\<And>s. map_option (\<lambda>e. (ae_path e, ae_blake3 e)) (manifest_get m s)
          = map_option (\<lambda>a. (sa_primary_path a, sa_blake3_hex a)) (bm_get assets s)"
    and paths: "map (\<lambda>(s, e). ae_path e) (am_assets m) = map (\<lambda>(s, a). sa_primary_path a) assets"
    by (rule parse_generated [of blake3 l walk assets from_ron "text" secs]) (use assms in simp_all)
  have hash: "map_option sa_blake3_hex (bm_get assets s) = map_option ae_blake3 (manifest_get m s)" for s
    using get [of s] by (cases "manifest_get m s"; cases "bm_get assets s") simp_all
  have hex: "\<exists>bs. sa_blake3_hex a = hex_of bs \<and> length bs = 32" if "(s, a) \<in> set assets \<or> (s, a) \<in> set found" for s a
    using that scan_directory_sound(2) [OF assms(2)] scan_directory_sound(2) [OF assms(5)] assms(1) by metis
  have "\<exists>bs. ae_blake3 e = hex_of bs \<and> length bs = 32" if e: "manifest_get m s = Some e" for s e
  proof -
    obtain a where a: "bm_get assets s = Some a" "sa_blake3_hex a = ae_blake3 e"
      using hash [of s] e by (cases "bm_get assets s") auto
    with hex [of s a] map_of_SomeD [OF a(1)] show ?thesis by simp
  qed
  then have "list_all (\<lambda>(s, b). (\<exists>bs. sa_blake3_hex b = hex_of bs \<and> length bs = 32)
      \<and> (\<forall>e. manifest_get m s = Some e \<longrightarrow> (\<exists>bs. ae_blake3 e = hex_of bs \<and> length bs = 32))) found"
    unfolding list_all_iff using hex by blast
  from changed_hashes_exact [OF this] obtain changed where changed: "changed_hashes m found = Some changed"
    "changed = [] \<longleftrightarrow> list_all (\<lambda>(s, b). \<forall>e. manifest_get m s = Some e \<longrightarrow> ae_blake3 e = sa_blake3_hex b) found" by blast
  have "missing_files file_exists m = [] \<longleftrightarrow> (\<forall>(s, a) \<in> set assets. file_exists (sa_primary_path a))"
    unfolding missing_files_Nil paths by (auto simp: image_iff)
  moreover have "missing_entries m found = [] \<and> changed = [] \<longleftrightarrow>
      (\<forall>(s, b) \<in> set found. map_option sa_blake3_hex (bm_get assets s) = Some (sa_blake3_hex b))"
    unfolding missing_entries_Nil changed(2) hash by (fastforce simp: list_all_iff)
  ultimately show ?thesis
    by (simp add: verify_manifest_def m assms(5) changed(1) Let_def)
qed

definition sample_walk :: "bytes \<Rightarrow> WalkedFile list" where
  "sample_walk sidecar =
     [\<lparr>wf_path = ''a.json'', wf_len = Inr 1, wf_content = Inr sidecar\<rparr>,
      \<lparr>wf_path = ''manifest.ron'', wf_len = Inr 0, wf_content = Inr []\<rparr>,
      \<lparr>wf_path = ''a.png'', wf_len = Inr 3, wf_content = Inr [1, 2, 3]\<rparr>]"

definition toy_hash :: "bytes \<Rightarrow> bytes" where
  "toy_hash content = replicate 32 (hd (content @ [0]))"

definition sample_scan :: "(string, ScannedAsset) btree" where
  "sample_scan = [(''a'', \<lparr>sa_primary_path = ''a.png'', sa_format = Png, sa_size_bytes = 3,
     sa_blake3_hex = hex_of (replicate 32 1), sa_sidecars = [''a.json'']\<rparr>)]"

lemma sample_walk_scanned: "scan_directory (\<lambda>s. s) toy_hash (sample_walk b) = Some (Inr sample_scan)"
  by (simp add: sample_walk_def sample_scan_def scan_directory_def scan_file_def toy_hash_def file_name_def file_extension_def
      rsplit_dot_def rel_path_def asset_stem_def push_group_def choose_primary_def from_extension_def is_primary_def Let_def)

text \<open>The witness also shows what the verification does not cover: a sidecar file whose content changed.\<close>
theorem generated_manifest_verifies_witness:
  "verify_manifest (\<lambda>_. Inr (build_manifest 0 sample_scan) :: unit + AssetManifest) (\<lambda>s. s) toy_hash (\<lambda>p. p = ''a.png'')
     (Inr '' x: AssetEntry('') (sample_walk [9]) = Some (Inr ())"
  using generated_manifest_verifies [of toy_hash "\<lambda>s. s" "sample_walk [5]" sample_scan
      "\<lambda>_. Inr (build_manifest 0 sample_scan) :: unit + AssetManifest" "'' x: AssetEntry(''" 0 "sample_walk [9]" sample_scan
      "\<lambda>p. p = ''a.png''"]
  by (simp add: sample_walk_scanned toy_hash_def) (simp add: sample_scan_def)

end
