(* ===== verification/Asset_Serving.thy ===== *)
theory Asset_Serving
  imports Assets Manifest_Gen
begin

text \<open>
  Serving assets at run time: the reader behind \<^verbatim>\<open>managed://\<close> and the two watchers that report changed assets
  (\<^verbatim>\<open>engine/bevy_runtime/src/asset_source\<close>), and the tokens scripts hold for loaded assets
  (\<^verbatim>\<open>asset_bridge.rs\<close>). The file system, the notifications of its changes, the parser of messages of the
  development server, the clocks and Bevy's asset server are parameters.
\<close>

section \<open>The reader\<close>

definition resolve :: "AssetManifest \<Rightarrow> string \<Rightarrow> AssetEntry option" where
  "resolve manifest asset_path = manifest_get manifest asset_path"

datatype AssetReaderError = AssetNotFound string | AssetIo string

text \<open>The file system below the reader: the canonical path of a path, as its components, when it exists, and what reading
  it gives.\<close>

record asset_files =
  af_canonical :: "string \<Rightarrow> string list option"
  af_components :: "string \<Rightarrow> string list"
  af_read :: "string \<Rightarrow> string + bytes"

definition path_join :: "string \<Rightarrow> string \<Rightarrow> string" where
  "path_join root p =
     (if p \<noteq> [] \<and> hd p = CHR ''/'' then p
      else if root = [] \<or> last root = CHR ''/'' then root @ p
      else root @ ''/'' @ p)"

definition starts_with :: "string list \<Rightarrow> string list \<Rightarrow> bool" where
  "starts_with root p \<longleftrightarrow> take (length root) p = root"

definition managed_read :: "asset_files \<Rightarrow> AssetManifest \<Rightarrow> string \<Rightarrow> string \<Rightarrow> AssetReaderError + bytes" where
  "managed_read fs manifest assets_root path =
     (case resolve manifest path of
        None \<Rightarrow> Inl (AssetNotFound path)
      | Some entry \<Rightarrow>
          if ae_encrypted entry then Inl (AssetNotFound path)
          else let full_path = path_join assets_root (ae_path entry);
                   root = (case af_canonical fs assets_root of Some r \<Rightarrow> r | None \<Rightarrow> af_components fs assets_root);
                   outside = (case af_canonical fs full_path of Some c \<Rightarrow> \<not> starts_with root c | None \<Rightarrow> False)
            in if outside then Inl (AssetNotFound path)
               else (case af_read fs full_path of
                       Inl e \<Rightarrow> Inl (AssetIo (utf8 [0xE8, 0xAE, 0x80, 0xE5, 0x8F, 0x96, 0xE7, 0xB4, 0xA0, 0xE6, 0x9D, 0x90, 0xE5, 0xA4, 0xB1, 0xE6, 0x95, 0x97] @ '' '' @ full_path @ '': '' @ e))
                     | Inr data \<Rightarrow> Inr data))"

text \<open>In the browser there is no reader yet.\<close>

definition managed_read_wasm :: "string \<Rightarrow> AssetReaderError + bytes" where
  "managed_read_wasm path = Inl (AssetNotFound path)"

section \<open>The watcher of the file system\<close>

text \<open>Paths are lists of components; instants are nanoseconds. \<open>BTreeSet\<close> is a map to \<open>unit\<close>.\<close>

definition DEBOUNCE :: nat where "DEBOUNCE = 500 * 1000000"

record NativeWatcher =
  nw_pending :: "(string, unit) btree"
  nw_last_event :: "nat option"

definition native_watcher_new :: NativeWatcher where
  "native_watcher_new = \<lparr>nw_pending = [], nw_last_event = None\<rparr>"

fun join_path :: "string list \<Rightarrow> string" where
  "join_path [] = ''''"
| "join_path [c] = c"
| "join_path (c # cs) = c @ ''/'' @ join_path cs"

definition path_to_asset_id :: "string list \<Rightarrow> string list \<Rightarrow> string option" where
  "path_to_asset_id path assets_root =
     (if starts_with assets_root path
      then let rel = drop (length assets_root) path;
               without_ext = (if rel = [] then [] else butlast rel @ [file_stem (last rel)]);
               asset = join_path without_ext
           in if asset = [] then None else Some asset
      else None)"

datatype EventKind = CreateEvent | ModifyEvent | RemoveEvent | OtherEvent

definition watched_ids :: "string list \<Rightarrow> EventKind \<times> string list list \<Rightarrow> string list" where
  "watched_ids assets_root ev =
     (case ev of (kind, paths) \<Rightarrow>
        if kind = OtherEvent then []
        else concat (map (\<lambda>path. case path_to_asset_id path assets_root of
                                    None \<Rightarrow> []
                                  | Some asset \<Rightarrow> if asset = ''manifest'' then [] else [asset]) paths))"

definition native_event :: "string list \<Rightarrow> nat \<Rightarrow> string + EventKind \<times> string list list \<Rightarrow> NativeWatcher \<Rightarrow> NativeWatcher" where
  "native_event assets_root now result w =
     (case result of
        Inl _ \<Rightarrow> w
      | Inr ev \<Rightarrow>
          let ids = watched_ids assets_root ev
          in w\<lparr>nw_pending := fold (\<lambda>asset. bm_insert asset ()) ids (nw_pending w),
               nw_last_event := (if ids \<noteq> [] then Some now else nw_last_event w)\<rparr>)"

definition native_poll :: "nat \<Rightarrow> NativeWatcher \<Rightarrow> AssetId list \<times> NativeWatcher" where
  "native_poll now w =
     (case nw_last_event w of
        None \<Rightarrow> ([], w)
      | Some t \<Rightarrow>
          if now - t < DEBOUNCE then ([], w)
          else if nw_pending w = [] then ([], w\<lparr>nw_last_event := None\<rparr>)
          else (map fst (nw_pending w), w\<lparr>nw_pending := [], nw_last_event := None\<rparr>))"

definition native_stop :: "NativeWatcher \<Rightarrow> NativeWatcher" where
  "native_stop w = w\<lparr>nw_pending := [], nw_last_event := None\<rparr>"

section \<open>The watcher in the browser\<close>

text \<open>The texts under the key \<open>changed\<close> of a message are what the JSON parser, a parameter, finds there: \<open>None\<close> when the
  message does not parse or has no such array. \<open>recent now t\<close> stands for \<open>now - t < 500.0\<close> on the browser's clock, which may
  be missing.\<close>

record 't WasmWatcher =
  ww_pending :: "string list"
  ww_last_event_time :: "'t option"

definition wasm_message :: "(string \<Rightarrow> string option list option) \<Rightarrow> 't option \<Rightarrow> string \<Rightarrow> 't WasmWatcher \<Rightarrow> 't WasmWatcher" where
  "wasm_message changed_in now message w =
     (case changed_in message of
        None \<Rightarrow> w
      | Some items \<Rightarrow>
          w\<lparr>ww_pending := ww_pending w @ concat (map (\<lambda>item. case item of Some s \<Rightarrow> if s = [] then [] else [s] | None \<Rightarrow> []) items),
            ww_last_event_time := (case now of Some t \<Rightarrow> Some t | None \<Rightarrow> ww_last_event_time w)\<rparr>)"

definition wasm_poll :: "('t \<Rightarrow> 't \<Rightarrow> bool) \<Rightarrow> 't option \<Rightarrow> 't WasmWatcher \<Rightarrow> AssetId list \<times> 't WasmWatcher" where
  "wasm_poll recent now w =
     (if ww_pending w = [] then ([], w)
      else if (case (ww_last_event_time w, now) of (Some t, Some n) \<Rightarrow> recent n t | _ \<Rightarrow> False) then ([], w)
      else (ww_pending w, w\<lparr>ww_pending := [], ww_last_event_time := None\<rparr>))"

section \<open>Tokens\<close>

record 'h AssetHandleMap =
  ah_token_to_handle :: "(u64, 'h) btree"
  ah_id_to_token :: "(AssetId, u64) btree"
  ah_next_token :: u64

definition handle_map_new :: "'h AssetHandleMap" where
  "handle_map_new = \<lparr>ah_token_to_handle = [], ah_id_to_token = [], ah_next_token = 1\<rparr>"

definition load_or_get :: "(string \<Rightarrow> 'h) \<Rightarrow> AssetId \<Rightarrow> 'h AssetHandleMap \<Rightarrow> u64 \<times> 'h AssetHandleMap" where
  "load_or_get load_untyped asset h =
     (case bm_get (ah_id_to_token h) asset of
        Some token \<Rightarrow> (token, h)
      | None \<Rightarrow>
          let path = ''managed://'' @ asset;
              handle = load_untyped path;
              token = ah_next_token h
          in (token, h\<lparr>ah_next_token := ah_next_token h + 1,
                 ah_token_to_handle := bm_insert token handle (ah_token_to_handle h),
                 ah_id_to_token := bm_insert asset token (ah_id_to_token h)\<rparr>))"

definition get_handle :: "'h AssetHandleMap \<Rightarrow> u64 \<Rightarrow> 'h option" where
  "get_handle h token = bm_get (ah_token_to_handle h) token"

definition handle_map_reset :: "'h AssetHandleMap \<Rightarrow> 'h AssetHandleMap" where
  "handle_map_reset h = h\<lparr>ah_token_to_handle := [], ah_id_to_token := [], ah_next_token := 1\<rparr>"

definition rhai_asset_load :: "(string \<Rightarrow> 'h) \<Rightarrow> AssetManifest \<Rightarrow> string \<Rightarrow> 'h AssetHandleMap \<Rightarrow> u64 \<times> 'h AssetHandleMap" where
  "rhai_asset_load load_untyped manifest asset h =
     (if manifest_get manifest asset = None then (0, h) else load_or_get load_untyped asset h)"

definition rhai_asset_ready :: "('h \<Rightarrow> bool) \<Rightarrow> u64 \<Rightarrow> 'h AssetHandleMap \<Rightarrow> bool" where
  "rhai_asset_ready is_loaded token h =
     (if token = 0 then False
      else case get_handle h token of Some handle \<Rightarrow> is_loaded handle | None \<Rightarrow> False)"

datatype AssetInfoValue = InfoText string | InfoInt "64 word" | InfoBool bool | InfoTexts "string list"

definition rhai_asset_info :: "(AssetFormat \<Rightarrow> string) \<Rightarrow> string \<Rightarrow> AssetManifest \<Rightarrow> (string, AssetInfoValue) btree" where
  "rhai_asset_info debug_format asset manifest =
     (case manifest_get manifest asset of
        Some entry \<Rightarrow>
          bm_insert ''tags'' (InfoTexts (ae_tags entry))
            (bm_insert ''encrypted'' (InfoBool (ae_encrypted entry))
              (bm_insert ''size_bytes'' (InfoInt (ae_size_bytes entry))
                (bm_insert ''format'' (InfoText (debug_format (ae_format entry))) [])))
      | None \<Rightarrow> [])"

fun load_all :: "(string \<Rightarrow> 'h) \<Rightarrow> AssetId list \<Rightarrow> 'h AssetHandleMap \<Rightarrow> u64 list \<times> 'h AssetHandleMap" where
  "load_all load_untyped [] h = ([], h)"
| "load_all load_untyped (asset # rest) h =
     (case load_or_get load_untyped asset h of (token, h1) \<Rightarrow>
        (case load_all load_untyped rest h1 of (tokens, h2) \<Rightarrow> (token # tokens, h2)))"

definition rhai_asset_load_tag :: "(string \<Rightarrow> 'h) \<Rightarrow> AssetManifest \<Rightarrow> string \<Rightarrow> 'h AssetHandleMap \<Rightarrow> u64 list \<times> 'h AssetHandleMap" where
  "rhai_asset_load_tag load_untyped manifest tag h = load_all load_untyped (query_by_tag manifest tag) h"

section \<open>No asset is read from outside its directory\<close>

lemma managed_read_confined:
  assumes "managed_read fs manifest assets_root path = Inr data"
    and "\<forall>p d. af_read fs p = Inr d \<longrightarrow> af_canonical fs p \<noteq> None" and "af_canonical fs assets_root = Some root"
  shows "\<exists>entry c. manifest_get manifest path = Some entry \<and> \<not> ae_encrypted entry
    \<and> af_canonical fs (path_join assets_root (ae_path entry)) = Some c \<and> starts_with root c
    \<and> af_read fs (path_join assets_root (ae_path entry)) = Inr data"
  using assms by (auto simp: managed_read_def resolve_def Let_def split: option.splits if_splits sum.splits)

section \<open>Collecting changes\<close>

text \<open>What the two watchers share: an event adds the assets it names, a poll reports everything pending or nothing.\<close>

fun watch_run :: "('e \<Rightarrow> 's \<Rightarrow> 's) \<Rightarrow> ('p \<Rightarrow> 's \<Rightarrow> 'a list \<times> 's) \<Rightarrow> ('e + 'p) list \<Rightarrow> 's \<Rightarrow> 'a list list \<times> 's" where
  "watch_run note_change poll [] s = ([], s)"
| "watch_run note_change poll (Inl e # xs) s = watch_run note_change poll xs (note_change e s)"
| "watch_run note_change poll (Inr p # xs) s =
     (case poll p s of (report, s1) \<Rightarrow>
        (case watch_run note_change poll xs s1 of (reports, s2) \<Rightarrow> (report # reports, s2)))"

definition changes_in :: "('e \<Rightarrow> 'a set) \<Rightarrow> ('e + 'p) list \<Rightarrow> 'a set" where
  "changes_in named xs = (\<Union>x \<in> set xs. case x of Inl e \<Rightarrow> named e | Inr _ \<Rightarrow> {})"

locale change_watcher =
  fixes pending :: "'s \<Rightarrow> 'a set"
    and note_change :: "'e \<Rightarrow> 's \<Rightarrow> 's"
    and named :: "'e \<Rightarrow> 'a set"
    and poll :: "'p \<Rightarrow> 's \<Rightarrow> 'a list \<times> 's"
  assumes pending_note: "pending (note_change e s) = pending s \<union> named e"
    and poll_all: "fst (poll p s) \<noteq> [] \<Longrightarrow> set (fst (poll p s)) = pending s \<and> pending (snd (poll p s)) = {}"
    and poll_none: "fst (poll p s) = [] \<Longrightarrow> pending (snd (poll p s)) = pending s"
begin

lemma watch_loses_nothing:
  "watch_run note_change poll xs s = (reports, s') \<Longrightarrow>
     set (concat reports) \<union> pending s' = pending s \<union> changes_in named xs"
proof (induction xs arbitrary: s reports)
  case (Cons x xs)
  show ?case
  proof (cases x)
    case (Inl e)
    with Cons show ?thesis by (auto simp: pending_note changes_in_def)
  next
    case (Inr p)
    with Cons.prems obtain rest where rest: "watch_run note_change poll xs (snd (poll p s)) = (rest, s')"
      "reports = fst (poll p s) # rest" by (auto split: prod.splits)
    then show ?thesis
      using Cons.IH [OF rest(1)] poll_all [of p s] poll_none [of p s] Inr
      by (cases "fst (poll p s) = []") (auto simp: changes_in_def)
  qed
qed (simp add: changes_in_def)

end

definition native_ids :: "NativeWatcher \<Rightarrow> string set" where
  "native_ids w = fst ` set (nw_pending w)"

definition event_ids :: "string list \<Rightarrow> string + EventKind \<times> string list list \<Rightarrow> string set" where
  "event_ids assets_root result = (case result of Inl _ \<Rightarrow> {} | Inr ev \<Rightarrow> set (watched_ids assets_root ev))"

lemma keys_fold_insert: "fst ` set (fold (\<lambda>k. bm_insert k v) ks m) = set ks \<union> fst ` set m"
  by (induction ks arbitrary: m) (auto simp: keys_insert)

interpretation native: change_watcher native_ids "\<lambda>(now, result). native_event assets_root now result"
    "\<lambda>(now, result). event_ids assets_root result" native_poll for assets_root
  by unfold_locales
    (auto simp: native_ids_def event_ids_def native_event_def native_poll_def Let_def keys_fold_insert split: sum.splits option.splits if_splits prod.splits)

definition message_ids :: "(string \<Rightarrow> string option list option) \<Rightarrow> string \<Rightarrow> string set" where
  "message_ids changed_in message =
     (case changed_in message of None \<Rightarrow> {} | Some items \<Rightarrow> {s. Some s \<in> set items \<and> s \<noteq> []})"

interpretation wasm: change_watcher "\<lambda>w. set (ww_pending w)" "\<lambda>(now, message). wasm_message changed_in now message"
    "\<lambda>(now, message). message_ids changed_in message" "wasm_poll recent" for changed_in recent
  by unfold_locales
    (force simp: message_ids_def wasm_message_def wasm_poll_def split: option.splits if_splits prod.splits)+

definition event_times :: "((nat \<times> 'e) + nat) list \<Rightarrow> nat set" where
  "event_times xs = {t. \<exists>e. Inl (t, e) \<in> set xs}"

lemma native_last_event:
  assumes "watch_run (\<lambda>(now, result). native_event assets_root now result) native_poll xs w = (reports, w')"
    and "nw_pending w \<noteq> [] \<Longrightarrow> \<exists>t \<in> T. nw_last_event w = Some t"
  shows "nw_pending w' \<noteq> [] \<Longrightarrow> \<exists>t \<in> T \<union> event_times xs. nw_last_event w' = Some t"
  using assms
proof (induction xs arbitrary: w reports T)
  case (Cons x xs)
  show ?case
  proof (cases x)
    case (Inl e)
    obtain t result where e: "e = (t, result)" by fastforce
    let ?w = "native_event assets_root t result w"
    have "nw_pending ?w \<noteq> [] \<Longrightarrow> \<exists>t' \<in> insert t T. nw_last_event ?w = Some t'"
      using Cons.prems(3) by (auto simp: native_event_def Let_def split: sum.splits if_splits)
    from Cons.IH [OF Cons.prems(1) _ this] show ?thesis
      using Cons.prems(2) Inl e by (auto simp: event_times_def)
  next
    case (Inr p)
    let ?w = "snd (native_poll p w)"
    have "nw_pending ?w \<noteq> [] \<Longrightarrow> \<exists>t \<in> T. nw_last_event ?w = Some t"
      using Cons.prems(3) by (auto simp: native_poll_def split: option.splits if_splits)
    from Cons.IH [OF Cons.prems(1) _ this] show ?thesis
      using Cons.prems(2) Inr by (fastforce simp: event_times_def split: prod.splits)
  qed
qed auto

text \<open>The asset a file belongs to, read off its path: below the directory of the assets, the directories and the name of the
  file up to its extension (a name without a dot, or with its only dot in front, has none).\<close>

definition file_of_asset :: "string list \<Rightarrow> string list \<Rightarrow> string \<Rightarrow> bool" where
  "file_of_asset assets_root path asset \<longleftrightarrow>
     (\<exists>dirs name stem. path = assets_root @ dirs @ [name] \<and> asset = concat (map (\<lambda>d. d @ ''/'') dirs) @ stem \<and> stem \<noteq> []
        \<and> ((\<exists>ext. name = stem @ ''.'' @ ext \<and> CHR ''.'' \<notin> set ext) \<or> name = stem \<and> CHR ''.'' \<notin> set (tl name)))"

lemma join_path_append: "join_path (dirs @ [name]) = concat (map (\<lambda>d. d @ ''/'') dirs) @ name"
proof (induction dirs)
  case (Cons d dirs)
  then show ?case by (cases "dirs @ [name]") auto
qed simp

lemma rsplit_dot_iff: "fst (rsplit_dot name) = Some a \<longleftrightarrow> (\<exists>ext. name = a @ ''.'' @ ext \<and> CHR ''.'' \<notin> set ext)"
proof
  assume a: "fst (rsplit_dot name) = Some a"
  then have "CHR ''.'' \<in> set name" using rsplit_dot_plain by fastforce
  then obtain b ext where n: "name = b @ CHR ''.'' # ext" "CHR ''.'' \<notin> set ext" by (meson split_list_last)
  from rsplit_dot_ext [OF n(2), of b] a n(1) have "b = a" by simp
  with n show "\<exists>ext. name = a @ ''.'' @ ext \<and> CHR ''.'' \<notin> set ext" by auto
qed (auto simp: rsplit_dot_ext)

lemma file_stem_iff:
  assumes "name \<noteq> []"
  shows "file_stem name = stem \<longleftrightarrow> stem \<noteq> []
    \<and> ((\<exists>ext. name = stem @ ''.'' @ ext \<and> CHR ''.'' \<notin> set ext) \<or> name = stem \<and> CHR ''.'' \<notin> set (tl name))"
proof (cases "CHR ''.'' \<in> set name")
  case False
  then have "CHR ''.'' \<notin> set (tl name)" by (cases name) auto
  with False assms show ?thesis by (auto simp: file_stem_def rsplit_dot_plain)
next
  case True
  then obtain b ext where n: "name = b @ CHR ''.'' # ext" "CHR ''.'' \<notin> set ext" by (meson split_list_last)
  have r: "rsplit_dot name = (Some b, ext)" using rsplit_dot_ext [OF n(2), of b] n(1) by simp
  then have e: "(\<exists>ext. name = stem @ ''.'' @ ext \<and> CHR ''.'' \<notin> set ext) \<longleftrightarrow> stem = b"
    using rsplit_dot_iff [of name stem] by auto
  have "CHR ''.'' \<notin> set (tl name) \<longleftrightarrow> b = []" using n by (cases b) simp_all
  then show ?thesis unfolding e using r assms by (auto simp: file_stem_def)
qed

lemma path_to_asset_id_iff:
  assumes "[] \<notin> set path"
  shows "path_to_asset_id path assets_root = Some asset \<longleftrightarrow> file_of_asset assets_root path asset"
proof (cases "\<exists>dirs name. path = assets_root @ dirs @ [name]")
  case True
  then obtain dirs name where p: "path = assets_root @ dirs @ [name]" by blast
  then have "name \<noteq> []" using assms by auto
  note stem = file_stem_iff [OF this]
  have ne: "file_stem name \<noteq> []" using stem by blast
  then have "path_to_asset_id path assets_root = Some (concat (map (\<lambda>d. d @ ''/'') dirs) @ file_stem name)"
    by (simp add: p path_to_asset_id_def starts_with_def butlast_append join_path_append Let_def)
  moreover have "file_of_asset assets_root path asset \<longleftrightarrow>
      (\<exists>stem. asset = concat (map (\<lambda>d. d @ ''/'') dirs) @ stem \<and> stem \<noteq> []
         \<and> ((\<exists>ext. name = stem @ ''.'' @ ext \<and> CHR ''.'' \<notin> set ext) \<or> name = stem \<and> CHR ''.'' \<notin> set (tl name)))"
    by (simp add: p file_of_asset_def)
  then have "file_of_asset assets_root path asset \<longleftrightarrow>
      (\<exists>stem. asset = concat (map (\<lambda>d. d @ ''/'') dirs) @ stem \<and> file_stem name = stem)"
    by (simp only: stem)
  ultimately show ?thesis by auto
next
  case False
  then have "path = assets_root \<or> \<not> starts_with assets_root path"
    by (metis append.right_neutral append_take_drop_id rev_exhaust starts_with_def)
  then have "path_to_asset_id path assets_root = None" by (auto simp: path_to_asset_id_def Let_def)
  with False show ?thesis by (auto simp: file_of_asset_def)
qed

lemma in_concat_map: "a \<in> set (concat (map f xs)) \<longleftrightarrow> (\<exists>x \<in> set xs. a \<in> set (f x))"
  by auto

lemma in_case_option:
  "a \<in> set (case x of None \<Rightarrow> [] | Some b \<Rightarrow> if b = c then [] else [b]) \<longleftrightarrow> x = Some a \<and> a \<noteq> c"
  by (cases x) auto

lemma event_ids_iff:
  assumes "\<And>p. p \<in> set paths \<Longrightarrow> [] \<notin> set p"
  shows "a \<in> event_ids assets_root (Inr (kind, paths)) \<longleftrightarrow>
    kind \<in> {CreateEvent, ModifyEvent, RemoveEvent} \<and> a \<noteq> ''manifest'' \<and> (\<exists>p \<in> set paths. file_of_asset assets_root p a)"
proof -
  have "a \<in> event_ids assets_root (Inr (kind, paths)) \<longleftrightarrow>
      kind \<noteq> OtherEvent \<and> a \<noteq> ''manifest'' \<and> (\<exists>p \<in> set paths. path_to_asset_id p assets_root = Some a)"
    unfolding event_ids_def watched_ids_def sum.case prod.case
    by (cases "kind = OtherEvent") (simp_all only: if_True if_False in_concat_map in_case_option, simp, blast)
  moreover have "path_to_asset_id p assets_root = Some a \<longleftrightarrow> file_of_asset assets_root p a" if "p \<in> set paths" for p
    using assms [OF that] by (rule path_to_asset_id_iff)
  ultimately show ?thesis by (cases kind) auto
qed

text \<open>C13: The watcher of asset files loses no change. Over every history of notifications and polls, what has been reported
  together with what is pending is exactly the set of the assets with a file, below the directory of the assets, that a
  notification says was created, modified or removed, named by the path of the file without its extension; only an asset
  of the name \<open>manifest\<close> is left out. A poll made when half a second has passed since the last of the notifications reports
  everything that is pending and leaves nothing. (The components of a path are never empty.)\<close>
theorem asset_watcher_complete:
  assumes "watch_run (\<lambda>(now, result). native_event assets_root now result) native_poll xs native_watcher_new = (reports, w)"
    and "\<And>t kind paths p. Inl (t, Inr (kind, paths)) \<in> set xs \<Longrightarrow> p \<in> set paths \<Longrightarrow> [] \<notin> set p"
  shows "set (concat reports) \<union> native_ids w =
      {a. a \<noteq> ''manifest'' \<and> (\<exists>t kind paths p. Inl (t, Inr (kind, paths)) \<in> set xs
         \<and> kind \<in> {CreateEvent, ModifyEvent, RemoveEvent} \<and> p \<in> set paths \<and> file_of_asset assets_root p a)} \<and>
    (\<forall>now. (\<forall>t \<in> event_times xs. t + DEBOUNCE \<le> now) \<longrightarrow>
       set (fst (native_poll now w)) = native_ids w \<and> native_ids (snd (native_poll now w)) = {})"
proof (intro conjI allI impI)
  have "set (concat reports) \<union> native_ids w = changes_in (\<lambda>(now, result). event_ids assets_root result) xs"
    using native.watch_loses_nothing [OF assms(1)] by (simp add: native_ids_def native_watcher_new_def)
  also have "\<dots> = {a. \<exists>t kind paths. Inl (t, Inr (kind, paths)) \<in> set xs \<and> a \<in> event_ids assets_root (Inr (kind, paths))}"
    by (auto simp: changes_in_def event_ids_def split: sum.splits prod.splits) force+
  also have "\<dots> = {a. a \<noteq> ''manifest'' \<and> (\<exists>t kind paths p. Inl (t, Inr (kind, paths)) \<in> set xs
         \<and> kind \<in> {CreateEvent, ModifyEvent, RemoveEvent} \<and> p \<in> set paths \<and> file_of_asset assets_root p a)}"
  proof (intro Collect_cong)
    fix a
    have "a \<in> event_ids assets_root (Inr (kind, paths)) \<longleftrightarrow> kind \<in> {CreateEvent, ModifyEvent, RemoveEvent} \<and> a \<noteq> ''manifest''
        \<and> (\<exists>p \<in> set paths. file_of_asset assets_root p a)" if "Inl (t, Inr (kind, paths)) \<in> set xs" for t kind paths
      using assms(2) [OF that] by (rule event_ids_iff)
    then show "(\<exists>t kind paths. Inl (t, Inr (kind, paths)) \<in> set xs \<and> a \<in> event_ids assets_root (Inr (kind, paths))) \<longleftrightarrow>
      a \<noteq> ''manifest'' \<and> (\<exists>t kind paths p. Inl (t, Inr (kind, paths)) \<in> set xs
         \<and> kind \<in> {CreateEvent, ModifyEvent, RemoveEvent} \<and> p \<in> set paths \<and> file_of_asset assets_root p a)"
      by metis
  qed
  finally show "set (concat reports) \<union> native_ids w = \<dots>" .
next
  fix now assume quiet: "\<forall>t \<in> event_times xs. t + DEBOUNCE \<le> now"
  have "nw_pending w \<noteq> [] \<Longrightarrow> \<exists>t \<in> {} \<union> event_times xs. nw_last_event w = Some t"
    by (rule native_last_event [OF assms(1)]) (simp_all add: native_watcher_new_def)
  then have "nw_pending w \<noteq> [] \<Longrightarrow> native_poll now w = (map fst (nw_pending w), w\<lparr>nw_pending := [], nw_last_event := None\<rparr>)"
    using quiet by (fastforce simp: native_poll_def)
  then show "set (fst (native_poll now w)) = native_ids w" "native_ids (snd (native_poll now w)) = {}"
    by (cases "nw_pending w = []"; simp add: native_ids_def native_poll_def split: option.split)+
qed

text \<open>A picture of the interface, the manifest and a piece of music change; the pictures and the music are reported.\<close>

theorem asset_watcher_complete_witness:
  "''ui/icon'' \<in> set (fst (native_poll 700000000 (snd (watch_run (\<lambda>(now, result). native_event [''srv''] now result) native_poll
     [Inl (100, Inr (ModifyEvent, [[''srv'', ''ui'', ''icon.png'']])),
      Inl (300, Inr (ModifyEvent, [[''srv'', ''manifest.ron''], [''srv'', ''bgm.ogg'']]))] native_watcher_new))))"
proof -
  let ?xs = "[Inl (100, Inr (ModifyEvent, [[''srv'', ''ui'', ''icon.png'']])),
      Inl (300, Inr (ModifyEvent, [[''srv'', ''manifest.ron''], [''srv'', ''bgm.ogg'']]))]
      :: (nat \<times> (string + EventKind \<times> string list list) + nat) list"
  let ?run = "watch_run (\<lambda>(now, result). native_event [''srv''] now result) native_poll ?xs native_watcher_new"
  have run: "?run = ([], snd ?run)" by simp
  have c: "set (concat []) \<union> native_ids (snd ?run) =
      {a. a \<noteq> ''manifest'' \<and> (\<exists>t kind paths p. Inl (t, Inr (kind, paths)) \<in> set ?xs
         \<and> kind \<in> {CreateEvent, ModifyEvent, RemoveEvent} \<and> p \<in> set paths \<and> file_of_asset [''srv''] p a)} \<and>
    (\<forall>now. (\<forall>t \<in> event_times ?xs. t + DEBOUNCE \<le> now) \<longrightarrow>
       set (fst (native_poll now (snd ?run))) = native_ids (snd ?run) \<and> native_ids (snd (native_poll now (snd ?run))) = {})"
    by (rule asset_watcher_complete [OF run]) auto
  have "file_of_asset [''srv''] [''srv'', ''ui'', ''icon.png''] ''ui/icon''"
    unfolding file_of_asset_def by (rule exI [of _ "[''ui'']"], rule exI [of _ "''icon.png''"], rule exI [of _ "''icon''"]) simp
  then have "''ui/icon'' \<in> {a. a \<noteq> ''manifest'' \<and> (\<exists>t kind paths p. Inl (t, Inr (kind, paths)) \<in> set ?xs
         \<and> kind \<in> {CreateEvent, ModifyEvent, RemoveEvent} \<and> p \<in> set paths \<and> file_of_asset [''srv''] p a)}"
    by (intro CollectI conjI exI [of _ 100] exI [of _ ModifyEvent] exI [of _ "[[''srv'', ''ui'', ''icon.png'']]"]
        exI [of _ "[''srv'', ''ui'', ''icon.png'']"]) simp_all
  then have "''ui/icon'' \<in> native_ids (snd ?run)" using conjunct1 [OF c] by simp
  moreover have "\<forall>t \<in> event_times ?xs. t + DEBOUNCE \<le> 700000000"
    by (auto simp: event_times_def DEBOUNCE_def)
  ultimately show ?thesis using c by blast
qed

text \<open>The browser's watcher loses no change either; it may report one more than once.\<close>

lemma wasm_watcher_complete:
  assumes "watch_run (\<lambda>(now, message). wasm_message changed_in now message) (wasm_poll recent) xs
      \<lparr>ww_pending = [], ww_last_event_time = None\<rparr> = (reports, w)"
  shows "set (concat reports) \<union> set (ww_pending w) = changes_in (\<lambda>(now, message). message_ids changed_in message) xs"
  using wasm.watch_loses_nothing [OF assms] by simp

section \<open>The same name for a file at build time and at run time\<close>

lemma join_path_snoc: "join_path (cs @ [c]) = (if cs = [] then c else join_path cs @ ''/'' @ c)"
  by (induction cs rule: join_path.induct) auto

lemma asset_names_agree:
  assumes "stem \<noteq> []" "CHR ''.'' \<notin> set ext"
  shows "path_to_asset_id (root @ dirs @ [stem @ ''.'' @ ext]) root = Some (asset_stem (join_path (dirs @ [stem @ ''.'' @ ext])))"
proof -
  have "file_stem (stem @ ''.'' @ ext) = stem"
    using assms rsplit_dot_ext [of ext stem] by (simp add: file_stem_def)
  moreover have "asset_stem (join_path (dirs @ [stem @ ''.'' @ ext])) = join_path (dirs @ [stem])"
    using rsplit_dot_ext [OF assms(2), of stem] rsplit_dot_ext [OF assms(2), of "join_path dirs @ ''/'' @ stem"]
    by (simp add: asset_stem_def join_path_snoc)
  ultimately show ?thesis
    using assms(1) by (simp add: path_to_asset_id_def starts_with_def Let_def butlast_append join_path_snoc)
qed

text \<open>Without an extension the names differ as soon as a directory has a dot in its name: the generator cuts the name of
  the directory, so all such files of the directory become one asset.\<close>

lemma dotted_directory_names:
  "asset_stem ''v1.0/readme'' = ''v1'' \<and> asset_stem ''v1.0/notes'' = ''v1''
   \<and> path_to_asset_id [''srv'', ''v1.0'', ''readme''] [''srv''] = Some ''v1.0/readme''"
  by (simp add: asset_stem_def rsplit_dot_def path_to_asset_id_def starts_with_def file_stem_def Let_def)

lemma manifest_picture_never_reported:
  "watched_ids [''srv''] (ModifyEvent, [[''srv'', ''manifest.png'']]) = [] \<and> asset_stem ''manifest.png'' = ''manifest''"
  by (simp add: watched_ids_def path_to_asset_id_def starts_with_def asset_stem_def file_stem_def rsplit_dot_def Let_def)

section \<open>Tokens\<close>

definition tokens_ok :: "(string \<Rightarrow> 'h) \<Rightarrow> 'h AssetHandleMap \<Rightarrow> bool" where
  "tokens_ok load h \<longleftrightarrow>
     inj_on (bm_get (ah_id_to_token h)) (dom (bm_get (ah_id_to_token h))) \<and> finite (dom (bm_get (ah_id_to_token h))) \<and>
     unat (ah_next_token h) = card (dom (bm_get (ah_id_to_token h))) + 1 \<and>
     (\<forall>asset t. bm_get (ah_id_to_token h) asset = Some t \<longrightarrow>
        0 < t \<and> t < ah_next_token h \<and> get_handle h t = Some (load (''managed://'' @ asset)))"

lemma tokens_ok_new: "tokens_ok load handle_map_new"
  by (simp add: tokens_ok_def handle_map_new_def)

lemma load_or_get_ok:
  assumes ok: "tokens_ok load h" and room: "card (dom (bm_get (ah_id_to_token h))) + 2 < 2 ^ 64"
    and step: "load_or_get load asset h = (t, h')"
  shows "tokens_ok load h' \<and> bm_get (ah_id_to_token h') asset = Some t \<and>
    bm_get (ah_id_to_token h) \<subseteq>\<^sub>m bm_get (ah_id_to_token h') \<and>
    card (dom (bm_get (ah_id_to_token h'))) \<le> Suc (card (dom (bm_get (ah_id_to_token h))))"
proof (cases "bm_get (ah_id_to_token h) asset")
  case (Some t')
  then show ?thesis using ok step by (simp add: load_or_get_def)
next
  case None
  let ?n = "ah_next_token h"
  have h': "t = ?n" "ah_next_token h' = ?n + 1" "bm_get (ah_id_to_token h') = (bm_get (ah_id_to_token h))(asset \<mapsto> ?n)"
    "get_handle h' = (get_handle h)(?n \<mapsto> load (''managed://'' @ asset))"
    using step None by (auto simp: load_or_get_def Let_def bm_simps get_handle_def fun_eq_iff)
  have n: "unat ?n = card (dom (bm_get (ah_id_to_token h))) + 1" "finite (dom (bm_get (ah_id_to_token h)))"
    using ok by (simp_all add: tokens_ok_def)
  then have "unat ?n + 1 < 2 ^ 64" "0 < unat ?n" using room by simp_all
  then have edge: "?n \<noteq> - 1" "0 < ?n" by (auto simp: unsigned_minus_1_eq_mask mask_eq_exp_minus_1 word_gt_0)
  have new: "bm_get (ah_id_to_token h) x \<noteq> Some ?n" for x using ok by (auto simp: tokens_ok_def)
  have old: "0 < u \<and> u < ?n + 1 \<and> get_handle h' u = Some (load (''managed://'' @ x))"
    if "bm_get (ah_id_to_token h) x = Some u" for x u
    using ok that word_inc_less [OF edge(1)] by (fastforce simp: tokens_ok_def h'(4) intro: less_trans)
  have "inj_on (bm_get (ah_id_to_token h')) (dom (bm_get (ah_id_to_token h')))"
    using ok new None unfolding h'(3) tokens_ok_def inj_on_def by (auto simp: dom_def split: if_splits)
  moreover have "card (dom (bm_get (ah_id_to_token h'))) = card (dom (bm_get (ah_id_to_token h))) + 1"
    using n(2) None by (simp add: h'(3) domIff)
  moreover have "get_handle h' ?n = Some (load (''managed://'' @ asset))" by (simp add: h'(4))
  ultimately show ?thesis
    unfolding tokens_ok_def h'(1,2)
    using n edge old word_inc_less [OF edge(1)] None by (auto simp: h'(3) unat_plus_1 map_le_def)
qed

lemma load_all_ok:
  assumes "tokens_ok load h" "card (dom (bm_get (ah_id_to_token h))) + length xs + 1 < 2 ^ 64"
    and "load_all load xs h = (ts, h')"
  shows "tokens_ok load h' \<and> bm_get (ah_id_to_token h) \<subseteq>\<^sub>m bm_get (ah_id_to_token h') \<and>
    list_all2 (\<lambda>asset t. bm_get (ah_id_to_token h') asset = Some t) xs ts"
  using assms
proof (induction xs arbitrary: h ts)
  case (Cons x xs)
  obtain t h1 where one: "load_or_get load x h = (t, h1)" by fastforce
  with Cons.prems(3) obtain us where rest: "load_all load xs h1 = (us, h')" "ts = t # us" by (auto split: prod.splits)
  have step: "tokens_ok load h1" "bm_get (ah_id_to_token h1) x = Some t" "bm_get (ah_id_to_token h) \<subseteq>\<^sub>m bm_get (ah_id_to_token h1)"
    "card (dom (bm_get (ah_id_to_token h1))) \<le> Suc (card (dom (bm_get (ah_id_to_token h))))"
    using load_or_get_ok [OF Cons.prems(1) _ one] Cons.prems(2) by simp_all
  have "card (dom (bm_get (ah_id_to_token h1))) + length xs + 1 < 2 ^ 64" using step(4) Cons.prems(2) by simp
  from Cons.IH [OF step(1) this rest(1)] show ?case
    using step(2,3) rest(2) by (auto simp: map_le_def dom_def)
qed simp

text \<open>A token names one asset. However many assets a script loads, in any order and repeatedly, equal assets get equal
  tokens and different assets different ones, no token is 0, the value that reports an error, and each token yields the
  handle of its asset to the end.\<close>
lemma tokens_name_assets:
  assumes "load_all load xs handle_map_new = (ts, h)" "length xs + 1 < 2 ^ 64"
  shows "length ts = length xs \<and>
    (\<forall>i < length xs. ts ! i \<noteq> 0 \<and> get_handle h (ts ! i) = Some (load (''managed://'' @ xs ! i)) \<and>
       (\<forall>j < length xs. ts ! i = ts ! j \<longleftrightarrow> xs ! i = xs ! j))"
proof -
  have all: "tokens_ok load h" "list_all2 (\<lambda>asset t. bm_get (ah_id_to_token h) asset = Some t) xs ts"
    using load_all_ok [OF tokens_ok_new _ assms(1)] assms(2) by (simp_all add: handle_map_new_def)
  then have get: "bm_get (ah_id_to_token h) (xs ! i) = Some (ts ! i)" if "i < length xs" for i
    using that by (simp add: list_all2_conv_all_nth)
  have "ts ! i = ts ! j \<longleftrightarrow> xs ! i = xs ! j" if "i < length xs" "j < length xs" for i j
    using all(1) get [OF that(1)] get [OF that(2)] unfolding tokens_ok_def inj_on_def
    by (metis domI option.inject)
  moreover have "ts ! i \<noteq> 0 \<and> get_handle h (ts ! i) = Some (load (''managed://'' @ xs ! i))" if "i < length xs" for i
    using all(1) get [OF that] unfolding tokens_ok_def by (metis word_gt_0)
  ultimately show ?thesis using list_all2_lengthD [OF all(2)] by simp
qed

lemma tokens_name_assets_example:
  "case load_all (\<lambda>p. p) [''a'', ''b'', ''a''] handle_map_new of (ts, h) \<Rightarrow>
     length ts = 3 \<and> ts ! 0 = ts ! 2 \<and> ts ! 0 \<noteq> ts ! 1 \<and> get_handle h (ts ! 1) = Some ''managed://b''"
proof -
  obtain ts h where run: "load_all (\<lambda>p. p) [''a'', ''b'', ''a''] handle_map_new = (ts, h)" by fastforce
  from tokens_name_assets [OF run] have "length ts = 3"
    and get: "i < 3 \<Longrightarrow> get_handle h (ts ! i) = Some (''managed://'' @ [''a'', ''b'', ''a''] ! i)"
    and eq: "i < 3 \<Longrightarrow> j < 3 \<Longrightarrow> ts ! i = ts ! j \<longleftrightarrow> [''a'', ''b'', ''a''] ! i = [''a'', ''b'', ''a''] ! j" for i j
    by simp_all
  then show ?thesis using get [of 1] eq [of 0 2] eq [of 0 1] by (simp add: run del: load_all.simps)
qed

text \<open>Resetting the map starts the tokens again, so that a replay of the scene hands out the same ones; a token kept
  from before the reset then names whatever asset got its number.\<close>

lemma reset_replays: "load_all load xs (handle_map_reset h) = load_all load xs handle_map_new"
  by (cases h) (simp add: handle_map_reset_def handle_map_new_def)

lemma reset_renames:
  "let (t, h) = load_or_get (\<lambda>p. p) ''a'' handle_map_new; (u, h') = load_or_get (\<lambda>p. p) ''b'' (handle_map_reset h)
   in t = u \<and> get_handle h t = Some ''managed://a'' \<and> get_handle h' t = Some ''managed://b''"
  by (simp add: load_or_get_def handle_map_new_def handle_map_reset_def get_handle_def Let_def)

section \<open>The development server\<close>

text \<open>\<^verbatim>\<open>tools/dev-asset-server/src/main.rs\<close>, \<open>watch_assets\<close>: one round of its loop receives a change or times out, then
  broadcasts what is pending once the changes have stopped for half a second. A broadcast is the list under \<open>changed\<close>, with
  the command to generate the manifest again before it. Only events of the three kinds reach the loop.\<close>

record AssetServer =
  dv_pending :: "(string, unit) btree"
  dv_last_event :: nat

definition changed_stems :: "string list \<Rightarrow> string list list \<Rightarrow> string list" where
  "changed_stems assets_dir paths =
     concat (map (\<lambda>path.
       if starts_with assets_dir path
       then let rel_str = join_path (drop (length assets_dir) path)
            in if rel_str = ''manifest.ron'' then []
               else (case rsplit_dot rel_str of (Some stem, _) \<Rightarrow> [stem] | (None, _) \<Rightarrow> [])
       else []) paths)"

definition server_event :: "string list \<Rightarrow> nat \<Rightarrow> string list list \<Rightarrow> AssetServer \<Rightarrow> AssetServer" where
  "server_event assets_dir now paths s =
     s\<lparr>dv_pending := fold (\<lambda>stem. bm_insert stem ()) (changed_stems assets_dir paths) (dv_pending s), dv_last_event := now\<rparr>"

definition server_flush :: "nat \<Rightarrow> AssetServer \<Rightarrow> string list \<times> AssetServer" where
  "server_flush now s =
     (if dv_pending s \<noteq> [] \<and> DEBOUNCE \<le> now - dv_last_event s
      then (map fst (dv_pending s), s\<lparr>dv_pending := []\<rparr>)
      else ([], s))"

datatype ServerAction = GenerateManifest | BroadcastChanged "string list"

definition server_round ::
  "bool \<Rightarrow> string list \<Rightarrow> (nat \<times> string list list) option \<Rightarrow> nat \<Rightarrow> AssetServer \<Rightarrow> ServerAction list \<times> AssetServer" where
  "server_round auto_manifest assets_dir received now s =
     (let s1 = (case received of Some (t, paths) \<Rightarrow> server_event assets_dir t paths s | None \<Rightarrow> s)
      in case server_flush now s1 of (changed, s2) \<Rightarrow>
           (if changed = [] then []
            else (if auto_manifest then [GenerateManifest] else []) @ [BroadcastChanged changed], s2))"

definition server_ids :: "AssetServer \<Rightarrow> string set" where
  "server_ids s = fst ` set (dv_pending s)"

interpretation asset_server: change_watcher server_ids "\<lambda>(now, paths). server_event assets_dir now paths"
    "\<lambda>(now, paths). set (changed_stems assets_dir paths)" server_flush for assets_dir
  by unfold_locales
    (simp_all add: case_prod_unfold server_ids_def server_event_def server_flush_def keys_fold_insert Un_commute split: if_splits)

text \<open>The rounds of the loop are the events and polls of the interpretation.\<close>

definition round_steps :: "(nat \<times> string list list) option \<times> nat \<Rightarrow> ((nat \<times> string list list) + nat) list" where
  "round_steps r = (case fst r of Some e \<Rightarrow> [Inl e] | None \<Rightarrow> []) @ [Inr (snd r)]"

fun server_rounds ::
  "bool \<Rightarrow> string list \<Rightarrow> ((nat \<times> string list list) option \<times> nat) list \<Rightarrow> AssetServer \<Rightarrow> string list list \<times> AssetServer" where
  "server_rounds auto_manifest assets_dir [] s = ([], s)"
| "server_rounds auto_manifest assets_dir (r # rs) s =
     (case server_round auto_manifest assets_dir (fst r) (snd r) s of (actions, s1) \<Rightarrow>
        (case server_rounds auto_manifest assets_dir rs s1 of (reports, s2) \<Rightarrow>
           (concat (map (\<lambda>a. case a of BroadcastChanged c \<Rightarrow> [c] | GenerateManifest \<Rightarrow> []) actions) @ reports, s2)))"

lemma server_rounds_watch:
  "server_rounds auto_manifest assets_dir rs s = (reports, s') \<Longrightarrow>
     \<exists>all. watch_run (\<lambda>(now, paths). server_event assets_dir now paths) server_flush (concat (map round_steps rs)) s = (all, s')
       \<and> reports = filter (\<lambda>r. r \<noteq> []) all"
proof (induction rs arbitrary: s reports)
  case (Cons r rs)
  obtain received now where r: "r = (received, now)" by fastforce
  let ?s = "case received of Some (t, paths) \<Rightarrow> server_event assets_dir t paths s | None \<Rightarrow> s"
  obtain changed s1 where one: "server_flush now ?s = (changed, s1)" by fastforce
  with Cons.prems obtain rest where rest: "server_rounds auto_manifest assets_dir rs s1 = (rest, s')"
    "reports = (if changed = [] then [] else [changed]) @ rest"
    by (auto simp: r server_round_def Let_def split: prod.splits if_splits)
  from Cons.IH [OF rest(1)] one rest(2) show ?case
    by (cases received) (auto simp: r round_steps_def split: prod.splits)
qed simp

definition messages_of :: "((('t option) \<times> string) + 't option) list \<Rightarrow> string list" where
  "messages_of ys = concat (map (\<lambda>y. case y of Inl (_, m) \<Rightarrow> [m] | Inr _ \<Rightarrow> []) ys)"

lemma changes_in_messages:
  "changes_in (\<lambda>(now, m). message_ids changed_in m) ys = (\<Union>m \<in> set (messages_of ys). message_ids changed_in m)"
  by (force simp: changes_in_def messages_of_def split: sum.splits)

lemma changes_in_rounds:
  "changes_in named (concat (map round_steps rs)) = (\<Union>r \<in> set rs. case fst r of Some e \<Rightarrow> named e | None \<Rightarrow> {})"
  by (induction rs) (auto simp: changes_in_def round_steps_def split: option.split)

lemma changed_stems_iff:
  "a \<in> set (changed_stems assets_dir paths) \<longleftrightarrow>
     (\<exists>rel ext. assets_dir @ rel \<in> set paths \<and> join_path rel \<noteq> ''manifest.ron''
        \<and> join_path rel = a @ ''.'' @ ext \<and> CHR ''.'' \<notin> set ext)"
proof -
  have in_case: "x \<in> set (case r of (Some stem, _) \<Rightarrow> [stem] | (None, _) \<Rightarrow> []) \<longleftrightarrow> fst r = Some x"
    for x :: string and r :: "string option \<times> string" by (cases r; cases "fst r") auto
  have "a \<in> set (changed_stems assets_dir paths) \<longleftrightarrow> (\<exists>path \<in> set paths. starts_with assets_dir path
      \<and> join_path (drop (length assets_dir) path) \<noteq> ''manifest.ron''
      \<and> fst (rsplit_dot (join_path (drop (length assets_dir) path))) = Some a)"
  proof -
    have "a \<in> set (if P then if Q then [] else xs else []) \<longleftrightarrow> P \<and> \<not> Q \<and> a \<in> set xs" for P Q xs by simp
    then show ?thesis unfolding changed_stems_def Let_def in_concat_map by (simp only: in_case)
  qed
  also have "\<dots> \<longleftrightarrow> (\<exists>rel. assets_dir @ rel \<in> set paths \<and> join_path rel \<noteq> ''manifest.ron''
      \<and> fst (rsplit_dot (join_path rel)) = Some a)"
    by (auto simp: starts_with_def) (metis append_eq_conv_conj append_take_drop_id)+
  finally show ?thesis by (simp only: rsplit_dot_iff) blast
qed

text \<open>C12: A change of an asset reaches the browser. Let the development server run any number of rounds and a browser
  receive every message it broadcast (so that it never falls behind the broadcast channel), polling in between as it likes.
  The names the browser has been told of, those it will be told of at its next polls and those the server still has pending
  are together exactly the relative paths, up to their last dot, of the changed files below the directory of the assets other
  than the manifest: for a file with an extension, the asset the manifest lists it under (lemma \<open>server_names_agree\<close>). A
  file without any dot in its path is not reported, and the empty name of a hidden file such as \<open>.env\<close> is dropped by the
  browser.\<close>
theorem hot_reload_reaches_browser:
  assumes "server_rounds auto_manifest assets_dir rs \<lparr>dv_pending = [], dv_last_event = start\<rparr> = (reports, s)"
    and "messages_of ys = map to_json reports" "\<forall>ids \<in> set reports. changed_in (to_json ids) = Some (map Some ids)"
    and "watch_run (\<lambda>(now, message). wasm_message changed_in now message) (wasm_poll recent) ys
      \<lparr>ww_pending = [], ww_last_event_time = None\<rparr> = (seen, w)"
  shows "set (concat seen) \<union> set (ww_pending w) \<union> (server_ids s - {''''}) =
    {a. a \<noteq> '''' \<and> (\<exists>t paths now rel ext. (Some (t, paths), now) \<in> set rs \<and> assets_dir @ rel \<in> set paths
       \<and> join_path rel \<noteq> ''manifest.ron'' \<and> join_path rel = a @ ''.'' @ ext \<and> CHR ''.'' \<notin> set ext)}"
proof -
  obtain all where all: "watch_run (\<lambda>(now, paths). server_event assets_dir now paths) server_flush (concat (map round_steps rs))
      \<lparr>dv_pending = [], dv_last_event = start\<rparr> = (all, s)" and reports: "reports = filter (\<lambda>r. r \<noteq> []) all"
    using server_rounds_watch [OF assms(1)] by blast
  have "set (concat reports) = set (concat all)" by (auto simp: reports)
  then have "set (concat reports) \<union> server_ids s =
      (\<Union>r \<in> set rs. case fst r of Some (now, paths) \<Rightarrow> set (changed_stems assets_dir paths) | None \<Rightarrow> {})"
    using asset_server.watch_loses_nothing [OF all] unfolding changes_in_rounds by (simp add: server_ids_def)
  also have "\<dots> = {a. \<exists>t paths now. (Some (t, paths), now) \<in> set rs \<and> a \<in> set (changed_stems assets_dir paths)}"
    by (auto split: option.splits) force+
  finally have sent: "set (concat reports) \<union> server_ids s = \<dots>" .
  have "message_ids changed_in (to_json ids) = set ids - {''''}" if "ids \<in> set reports" for ids
    using assms(3) that by (auto simp: message_ids_def)
  then have "set (concat seen) \<union> set (ww_pending w) = set (concat reports) - {''''}"
    using wasm_watcher_complete [OF assms(4)] unfolding changes_in_messages assms(2) by auto
  then have "set (concat seen) \<union> set (ww_pending w) \<union> (server_ids s - {''''}) = (set (concat reports) \<union> server_ids s) - {''''}"
    by auto
  then show ?thesis unfolding sent changed_stems_iff
    by - (rule set_eqI, simp only: Diff_iff mem_Collect_eq singleton_iff, blast)
qed

theorem hot_reload_reaches_browser_witness:
  "case watch_run (\<lambda>(now, message). wasm_message (\<lambda>_. Some [Some ''ui/icon'']) now message) (wasm_poll (\<lambda>a b. a < b + (500::nat)))
      [Inl (Some 1000, ''{..}''), Inr (Some 1100)] \<lparr>ww_pending = [], ww_last_event_time = None\<rparr>
   of (seen, w) \<Rightarrow> ''ui/icon'' \<in> set (concat seen) \<union> set (ww_pending w)"
proof -
  let ?rs = "[(Some (5, [[''srv'', ''ui'', ''icon.png'']]), 6), (None, 600000000)] :: ((nat \<times> string list list) option \<times> nat) list"
  let ?s = "\<lparr>dv_pending = [], dv_last_event = 5\<rparr>"
  have rounds: "server_rounds True [''srv''] ?rs \<lparr>dv_pending = [], dv_last_event = 0\<rparr> = ([[''ui/icon'']], ?s)"
    by (simp add: server_round_def server_event_def server_flush_def changed_stems_def starts_with_def rsplit_dot_def DEBOUNCE_def Let_def)
  obtain seen w where run: "watch_run (\<lambda>(now, message). wasm_message (\<lambda>_. Some [Some ''ui/icon'']) now message)
      (wasm_poll (\<lambda>a b. a < b + (500::nat))) [Inl (Some 1000, ''{..}''), Inr (Some 1100)]
      \<lparr>ww_pending = [], ww_last_event_time = None\<rparr> = (seen, w)" by fastforce
  have "set (concat seen) \<union> set (ww_pending w) \<union> (server_ids ?s - {''''}) =
      {a. a \<noteq> '''' \<and> (\<exists>t paths now rel ext. (Some (t, paths), now) \<in> set ?rs \<and> [''srv''] @ rel \<in> set paths
       \<and> join_path rel \<noteq> ''manifest.ron'' \<and> join_path rel = a @ ''.'' @ ext \<and> CHR ''.'' \<notin> set ext)}"
    by (rule hot_reload_reaches_browser [OF rounds _ _ run, of "\<lambda>_. ''{..}''"]) (simp_all add: messages_of_def)
  moreover have "join_path [''ui'', ''icon.png''] = ''ui/icon'' @ ''.'' @ ''png''" by simp
  ultimately have "''ui/icon'' \<in> set (concat seen) \<union> set (ww_pending w) \<union> (server_ids ?s - {''''})"
    by (auto intro!: exI [of _ "[''ui'', ''icon.png'']"] exI [of _ "''png''"])
  then have "''ui/icon'' \<in> set (concat seen) \<union> set (ww_pending w)" by (simp add: server_ids_def)
  then show ?thesis by (simp only: run prod.case)
qed

text \<open>What the server calls a changed file is the asset the manifest lists it under.\<close>

lemma server_names_agree:
  assumes "stem \<noteq> []" "CHR ''.'' \<notin> set ext" "join_path (dirs @ [stem @ ''.'' @ ext]) \<noteq> ''manifest.ron''"
  shows "changed_stems root [root @ dirs @ [stem @ ''.'' @ ext]] = [asset_stem (join_path (dirs @ [stem @ ''.'' @ ext]))]"
proof -
  have "\<exists>b. rsplit_dot (join_path (dirs @ [stem @ ''.'' @ ext])) = (Some b, ext)"
    using rsplit_dot_ext [OF assms(2), of stem] rsplit_dot_ext [OF assms(2), of "join_path dirs @ ''/'' @ stem"]
    by (simp add: join_path_snoc)
  then show ?thesis using assms(3) by (auto simp: changed_stems_def starts_with_def asset_stem_def)
qed

lemma file_without_extension_unreported: "changed_stems [''srv''] [[''srv'', ''readme'']] = []"
  by (simp add: changed_stems_def starts_with_def rsplit_dot_def)

end
