(* ===== verification/Build_Tools.thy ===== *)
theory Build_Tools
  imports Bytecode_Format Asset_Decryption Assets
begin

text \<open>
  The build tools on the command line: the script compiler (\<^verbatim>\<open>build/bytecode_compiler/src/main.rs\<close>), the key generation and
  the subcommands of the asset tool (\<^verbatim>\<open>build/asset_encryptor/src\<close>), the seed of the obfuscator
  (\<^verbatim>\<open>build/cfg_mutator/src\<close>) and the development key (\<^verbatim>\<open>build/build_utils/src/env.rs\<close>). A run takes the parsed command, the
  files and the environment, and gives the lines printed, how the process ended and the files afterwards. Parsing the
  command line is left out; the texts of I/O errors are a parameter.
\<close>

datatype exit_status = ExitOk | ExitFailure string

type_synonym tool_run = "string list \<times> exit_status \<times> file_system"

section \<open>The script compiler\<close>

definition read_key_file :: "(string \<Rightarrow> string) \<Rightarrow> file_system \<Rightarrow> string \<Rightarrow> string + bytes" where
  "read_key_file io_error fs path =
     (case fs_read fs path of
        None \<Rightarrow> Inl (utf8 [0xE7, 0x84, 0xA1, 0xE6, 0xB3, 0x95, 0xE8, 0xAE, 0x80, 0xE5, 0x8F, 0x96] @ '' key '' @ utf8 [0xE6, 0xAA, 0x94, 0xE6, 0xA1, 0x88] @ '' '' @ path @ '': '' @ io_error path)
      | Some data \<Rightarrow>
          if length data \<noteq> 32
          then Inl (''Key '' @ utf8 [0xE6, 0xAA, 0x94, 0xE6, 0xA1, 0x88] @ '' '' @ path @ '' '' @ utf8 [0xE9, 0x95, 0xB7, 0xE5, 0xBA, 0xA6, 0xE9, 0x8C, 0xAF, 0xE8, 0xAA, 0xA4, 0xEF, 0xBC, 0x9A, 0xE9, 0xA0, 0x90, 0xE6, 0x9C, 0x9F] @ '' 32 bytes'' @ utf8 [0xEF, 0xBC, 0x8C, 0xE5, 0xBE, 0x97, 0xE5, 0x88, 0xB0] @ '' '' @ decimal (length data) @ '' bytes'')
          else Inr data)"

definition read_to_string :: "file_system \<Rightarrow> string \<Rightarrow> string option" where
  "read_to_string fs path = (case fs_read fs path of None \<Rightarrow> None | Some data \<Rightarrow> from_utf8 data)"

datatype CompilerCommand =
    CompileCommand (cc_input: string) (cc_output: string) (cc_signing_key: string) (cc_encryption_key: string)
      (cc_script_id: string) (cc_priority: u8)
  | CompileDebugCommand (cc_input: string) (cc_output: string) (cc_script_id: string) (cc_priority: u8)
  | VerifyCommand (cc_input: string) (cc_public_key: string) (cc_decryption_key: string)

fun compile_error_text :: "CompileError \<Rightarrow> string" where
  "compile_error_text EmptySource = utf8 [0xE7, 0xB7, 0xA8, 0xE8, 0xAD, 0xAF, 0xE5, 0xA4, 0xB1, 0xE6, 0x95, 0x97, 0xEF, 0xBC, 0x9A, 0xE5, 0x8E, 0x9F, 0xE5, 0xA7, 0x8B, 0xE7, 0xA2, 0xBC, 0xE7, 0x82, 0xBA, 0xE7, 0xA9, 0xBA]"
| "compile_error_text (RhaiParseFailed e) = ''Rhai '' @ utf8 [0xE7, 0xB7, 0xA8, 0xE8, 0xAD, 0xAF, 0xE5, 0xA4, 0xB1, 0xE6, 0x95, 0x97, 0xEF, 0xBC, 0x9A] @ e"
| "compile_error_text (CompileError.EncryptionFailed e) = utf8 [0xE5, 0x8A, 0xA0, 0xE5, 0xAF, 0x86, 0xE5, 0xA4, 0xB1, 0xE6, 0x95, 0x97, 0xEF, 0xBC, 0x9A] @ display_crypto_error e"

fun load_error_text :: "LoadError \<Rightarrow> string" where
  "load_error_text (Format (InvalidMagic _)) = utf8 [0xE9, 0xA9, 0x97, 0xE8, 0xAD, 0x89, 0xE5, 0xA4, 0xB1, 0xE6, 0x95, 0x97, 0xEF, 0xBC, 0x9A, 0xE9, 0x9D, 0x9E, 0xE5, 0x90, 0x88, 0xE6, 0xB3, 0x95] @ '' bytecode '' @ utf8 [0xE6, 0xA0, 0xBC, 0xE5, 0xBC, 0x8F]"
| "load_error_text (Format (TruncatedData _ _)) = utf8 [0xE9, 0xA9, 0x97, 0xE8, 0xAD, 0x89, 0xE5, 0xA4, 0xB1, 0xE6, 0x95, 0x97, 0xEF, 0xBC, 0x9A, 0xE6, 0xAA, 0x94, 0xE6, 0xA1, 0x88, 0xE6, 0x88, 0xAA, 0xE6, 0x96, 0xB7, 0xE6, 0x88, 0x96, 0xE6, 0x90, 0x8D, 0xE5, 0xA3, 0x9E]"
| "load_error_text (Format (MetadataDeserializationFailed _)) = utf8 [0xE9, 0xA9, 0x97, 0xE8, 0xAD, 0x89, 0xE5, 0xA4, 0xB1, 0xE6, 0x95, 0x97, 0xEF, 0xBC, 0x9A] @ ''metadata '' @ utf8 [0xE8, 0xA7, 0xA3, 0xE7, 0xA2, 0xBC, 0xE5, 0xA4, 0xB1, 0xE6, 0x95, 0x97]"
| "load_error_text (Format MetadataLengthOutOfRange) = utf8 [0xE9, 0xA9, 0x97, 0xE8, 0xAD, 0x89, 0xE5, 0xA4, 0xB1, 0xE6, 0x95, 0x97, 0xEF, 0xBC, 0x9A] @ ''metadata '' @ utf8 [0xE9, 0x95, 0xB7, 0xE5, 0xBA, 0xA6, 0xE8, 0xB6, 0x8A, 0xE7, 0x95, 0x8C]"
| "load_error_text (IncompatibleVersion expected got) =
     utf8 [0xE9, 0xA9, 0x97, 0xE8, 0xAD, 0x89, 0xE5, 0xA4, 0xB1, 0xE6, 0x95, 0x97, 0xEF, 0xBC, 0x9A, 0xE7, 0x89, 0x88, 0xE6, 0x9C, 0xAC, 0xE4, 0xB8, 0x8D, 0xE7, 0x9B, 0xB8, 0xE5, 0xAE, 0xB9, 0xEF, 0xBC, 0x88, 0xE9, 0xA0, 0x90, 0xE6, 0x9C, 0x9F] @ '' major='' @ decimal (unat expected) @ utf8 [0xEF, 0xBC, 0x8C, 0xE5, 0xBE, 0x97, 0xE5, 0x88, 0xB0] @ '' major='' @ decimal (unat got) @ utf8 [0xEF, 0xBC, 0x89]"
| "load_error_text (LoadError.DecryptionFailed _) = utf8 [0xE9, 0xA9, 0x97, 0xE8, 0xAD, 0x89, 0xE5, 0xA4, 0xB1, 0xE6, 0x95, 0x97, 0xEF, 0xBC, 0x9A, 0xE8, 0xA7, 0xA3, 0xE5, 0xAF, 0x86, 0xE5, 0xA4, 0xB1, 0xE6, 0x95, 0x97, 0xEF, 0xBC, 0x88, 0xE5, 0xAF, 0x86, 0xE9, 0x91, 0xB0, 0xE9, 0x8C, 0xAF, 0xE8, 0xAA, 0xA4, 0xE6, 0x88, 0x96, 0xE5, 0xAF, 0x86, 0xE6, 0x96, 0x87, 0xE8, 0xA2, 0xAB, 0xE7, 0xAF, 0xA1, 0xE6, 0x94, 0xB9, 0xEF, 0xBC, 0x89]"
| "load_error_text SignatureVerificationFailedLoad = utf8 [0xE9, 0xA9, 0x97, 0xE8, 0xAD, 0x89, 0xE5, 0xA4, 0xB1, 0xE6, 0x95, 0x97, 0xEF, 0xBC, 0x9A, 0xE7, 0xB0, 0xBD, 0xE7, 0xAB, 0xA0, 0xE9, 0xA9, 0x97, 0xE8, 0xAD, 0x89, 0xE5, 0xA4, 0xB1, 0xE6, 0x95, 0x97]"
| "load_error_text SourceDecodeFailed = utf8 [0xE9, 0xA9, 0x97, 0xE8, 0xAD, 0x89, 0xE5, 0xA4, 0xB1, 0xE6, 0x95, 0x97, 0xEF, 0xBC, 0x9A, 0xE5, 0x8E, 0x9F, 0xE5, 0xA7, 0x8B, 0xE7, 0xA2, 0xBC] @ '' UTF-8 '' @ utf8 [0xE8, 0xA7, 0xA3, 0xE7, 0xA2, 0xBC, 0xE5, 0xA4, 0xB1, 0xE6, 0x95, 0x97]"
| "load_error_text (RhaiCompileFailed e) = utf8 [0xE9, 0xA9, 0x97, 0xE8, 0xAD, 0x89, 0xE5, 0xA4, 0xB1, 0xE6, 0x95, 0x97, 0xEF, 0xBC, 0x9A] @ ''Rhai '' @ utf8 [0xE7, 0xB7, 0xA8, 0xE8, 0xAD, 0xAF, 0xE5, 0xA4, 0xB1, 0xE6, 0x95, 0x97, 0xEF, 0xBC, 0x9A] @ e"
| "load_error_text DebugBuildBytecode = utf8 [0xE9, 0xA9, 0x97, 0xE8, 0xAD, 0x89, 0xE5, 0xA4, 0xB1, 0xE6, 0x95, 0x97, 0xEF, 0xBC, 0x9A] @ ''debug bytecode '' @ utf8 [0xE4, 0xB8, 0x8D, 0xE5, 0x8F, 0xAF, 0xE5, 0x9C, 0xA8] @ '' release '' @ utf8 [0xE9, 0xA9, 0x97, 0xE8, 0xAD, 0x89]"

definition write_output :: "(string \<Rightarrow> string) \<Rightarrow> string \<Rightarrow> string \<Rightarrow> string \<Rightarrow> bytes \<Rightarrow> file_system \<Rightarrow> tool_run" where
  "write_output io_error done input output bytecode fs =
     (case fs_write output bytecode fs of
        None \<Rightarrow> ([], ExitFailure (utf8 [0xE7, 0x84, 0xA1, 0xE6, 0xB3, 0x95, 0xE5, 0xAF, 0xAB, 0xE5, 0x85, 0xA5, 0xE8, 0xBC, 0xB8, 0xE5, 0x87, 0xBA, 0xE6, 0xAA, 0x94, 0xE6, 0xA1, 0x88] @ '' '' @ output @ '': '' @ io_error output), fs)
      | Some fs' \<Rightarrow>
          ([done @ utf8 [0xEF, 0xBC, 0x9A] @ input @ '' '' @ utf8 [0xE2, 0x86, 0x92] @ '' '' @ output @ utf8 [0xEF, 0xBC, 0x88] @ decimal (length bytecode) @ '' bytes'' @ utf8 [0xEF, 0xBC, 0x89]], ExitOk, fs'))"

text \<open>\<open>compiler_main\<close>: the environment of the container format, the signature made from a seed, the nonce and the build
  time of a compilation.\<close>

definition compiler_main ::
  "'ast bytecode_env \<Rightarrow> (bytes \<Rightarrow> bytes \<Rightarrow> bytes) \<Rightarrow> bytes \<Rightarrow> u64 \<Rightarrow> (string \<Rightarrow> string) \<Rightarrow> CompilerCommand \<Rightarrow> file_system \<Rightarrow>
     panic + tool_run" where
  "compiler_main E sign_with nonce now io_error cmd fs =
     (case cmd of
        CompileCommand input output signing_key encryption_key script_id priority \<Rightarrow>
          (case read_to_string fs input of
             None \<Rightarrow> Inr ([], ExitFailure (utf8 [0xE7, 0x84, 0xA1, 0xE6, 0xB3, 0x95, 0xE8, 0xAE, 0x80, 0xE5, 0x8F, 0x96, 0xE4, 0xBE, 0x86, 0xE6, 0xBA, 0x90, 0xE6, 0xAA, 0x94, 0xE6, 0xA1, 0x88] @ '' '' @ input @ '': '' @ io_error input), fs)
           | Some source \<Rightarrow>
               (case read_key_file io_error fs signing_key of
                  Inl e \<Rightarrow> Inr ([], ExitFailure e, fs)
                | Inr sign_seed \<Rightarrow>
                    (case read_key_file io_error fs encryption_key of
                       Inl e \<Rightarrow> Inr ([], ExitFailure e, fs)
                     | Inr enc_key \<Rightarrow>
                         (case compile E (sign_with sign_seed) nonce now source script_id priority enc_key of
                            Inl p \<Rightarrow> Inl p
                          | Inr (Inl e) \<Rightarrow> Inr ([], ExitFailure (compile_error_text e), fs)
                          | Inr (Inr bytecode) \<Rightarrow> Inr (write_output io_error (utf8 [0xE7, 0xB7, 0xA8, 0xE8, 0xAD, 0xAF, 0xE6, 0x88, 0x90, 0xE5, 0x8A, 0x9F]) input output bytecode fs)))))
      | CompileDebugCommand input output script_id priority \<Rightarrow>
          (case read_to_string fs input of
             None \<Rightarrow> Inr ([], ExitFailure (utf8 [0xE7, 0x84, 0xA1, 0xE6, 0xB3, 0x95, 0xE8, 0xAE, 0x80, 0xE5, 0x8F, 0x96, 0xE4, 0xBE, 0x86, 0xE6, 0xBA, 0x90, 0xE6, 0xAA, 0x94, 0xE6, 0xA1, 0x88] @ '' '' @ input @ '': '' @ io_error input), fs)
           | Some source \<Rightarrow>
               (case compile_debug E now source script_id priority of
                  Inl p \<Rightarrow> Inl p
                | Inr (Inl e) \<Rightarrow> Inr ([], ExitFailure (compile_error_text e), fs)
                | Inr (Inr bytecode) \<Rightarrow> Inr (write_output io_error (''Debug '' @ utf8 [0xE7, 0xB7, 0xA8, 0xE8, 0xAD, 0xAF, 0xE6, 0x88, 0x90, 0xE5, 0x8A, 0x9F]) input output bytecode fs)))
      | VerifyCommand input public_key decryption_key \<Rightarrow>
          (case fs_read fs input of
             None \<Rightarrow> Inr ([], ExitFailure (utf8 [0xE7, 0x84, 0xA1, 0xE6, 0xB3, 0x95, 0xE8, 0xAE, 0x80, 0xE5, 0x8F, 0x96] @ '' bytecode '' @ utf8 [0xE6, 0xAA, 0x94, 0xE6, 0xA1, 0x88] @ '' '' @ input @ '': '' @ io_error input), fs)
           | Some data \<Rightarrow>
               (case read_key_file io_error fs public_key of
                  Inl e \<Rightarrow> Inr ([], ExitFailure e, fs)
                | Inr pub_key \<Rightarrow>
                    (case read_key_file io_error fs decryption_key of
                       Inl e \<Rightarrow> Inr ([], ExitFailure e, fs)
                     | Inr dec_key \<Rightarrow>
                         (case load E data pub_key dec_key of
                            Inl e \<Rightarrow> Inr ([], ExitFailure (load_error_text e), fs)
                          | Inr (metadata, _) \<Rightarrow>
                              Inr ([utf8 [0xE9, 0xA9, 0x97, 0xE8, 0xAD, 0x89, 0xE6, 0x88, 0x90, 0xE5, 0x8A, 0x9F, 0xEF, 0xBC, 0x9A] @ input,
                                    ''  script_id:       '' @ md_script_id metadata,
                                    ''  priority:        '' @ decimal (unat (md_priority metadata)),
                                    ''  build_timestamp: '' @ decimal (unat (md_build_timestamp metadata)),
                                    ''  source_hash:     '' @ hex_of (take 8 (md_source_hash metadata)) @ ''...''],
                                   ExitOk, fs))))))"

section \<open>Compiling, then verifying\<close>

lemma fs_read_other: "fs_write p d fs = Some fs' \<Longrightarrow> q \<noteq> p \<Longrightarrow> fs_read fs' q = fs_read fs q"
  by (auto simp: fs_write_def fs_read_def split: if_splits)

lemma read_key_file_Inr:
  "read_key_file io_error fs path = Inr key \<longleftrightarrow> fs_read fs path = Some key \<and> length key = 32"
  by (auto simp: read_key_file_def split: option.splits)

lemma byte_of_char: "of_char (char_of (unat b)) = b" for b :: u8
proof -
  have "(of_char (char_of (unat b) :: char) :: u8) = of_nat (of_char (char_of (unat b) :: char))"
    by (simp only: of_nat_of_char)
  also have "\<dots> = of_nat (unat b)" using unsigned_less [of b, where ?'a = nat] by (simp only: of_char_of) simp
  finally show ?thesis by simp
qed

lemma read_to_string_utf8: "read_to_string fs path = Some source \<Longrightarrow> utf8_valid (as_bytes source)"
  by (auto simp: read_to_string_def from_utf8_def as_bytes_def comp_def byte_of_char split: option.splits if_splits)

lemma compile_command_exact:
  assumes "compiler_main E sign_with nonce now io_error
    (CompileCommand input output signing_key encryption_key script_id priority) fs = Inr (out, ExitOk, fs')"
  obtains source seed key bytecode where "read_to_string fs input = Some source" "fs_read fs signing_key = Some seed"
    "fs_read fs encryption_key = Some key" "length key = 32"
    "compile E (sign_with seed) nonce now source script_id priority key = Inr (Inr bytecode)"
    "fs_write output bytecode fs = Some fs'"
  using assms
  by (auto simp: compiler_main_def write_output_def read_key_file_Inr split: option.splits sum.splits)

text \<open>C14: A script the build compiled passes the check. When the compile command succeeds, the verify command on the file
  it wrote, with the public half of the signing key and the same encryption key, succeeds, changes nothing and prints the
  script's identifier and priority; the file it wrote is the only one that changed.\<close>
theorem compiled_file_verifies:
  assumes "compiler_main E sign_with nonce now io_error
      (CompileCommand input output signing_key encryption_key script_id priority) fs = Inr (out, ExitOk, fs')"
    and "aead_correct (be_aead E)" "length nonce = 12" "\<forall>seed m. length (sign_with seed m) = 64"
    and "\<forall>md b. be_ser E md = Inr b \<longrightarrow> be_de E b = Inr md"
    and "fs_read fs signing_key = Some seed" "fs_read fs public_key = Some pub" "length pub = 32"
    and "\<forall>m. be_verify E pub m (sign_with seed m)"
    and "output \<noteq> encryption_key" "output \<noteq> public_key"
  shows "(\<forall>path. path \<noteq> output \<longrightarrow> fs_read fs' path = fs_read fs path) \<and>
    (\<exists>rest. compiler_main E sign_with nonce' now' io_error (VerifyCommand output public_key encryption_key) fs' =
       Inr ((utf8 [0xE9, 0xA9, 0x97, 0xE8, 0xAD, 0x89, 0xE6, 0x88, 0x90, 0xE5, 0x8A, 0x9F, 0xEF, 0xBC, 0x9A] @ output) # (''  script_id:       '' @ script_id) # (''  priority:        '' @ decimal (unat priority)) # rest,
            ExitOk, fs'))"
proof -
  obtain source seed' key bytecode where c: "read_to_string fs input = Some source" "fs_read fs signing_key = Some seed'"
    "fs_read fs encryption_key = Some key" "length key = 32"
    "compile E (sign_with seed') nonce now source script_id priority key = Inr (Inr bytecode)"
    "fs_write output bytecode fs = Some fs'"
    using compile_command_exact [OF assms(1)] .
  have "utf8_valid (as_bytes source)"
    using c(1) by (rule read_to_string_utf8)
  then have "\<exists>ast. load E bytecode pub key =
      Inr (\<lparr>md_script_id = script_id, md_priority = priority,
            md_source_hash = be_blake3 E (as_bytes source), md_build_timestamp = now\<rparr>, ast)"
    using compile_then_load [OF c(5) assms(2,3)] assms(4,5,6,9) c(2) by fastforce
  moreover have "fs_read fs' output = Some bytecode" using fs_read_write [OF c(6)] by simp
  ultimately show ?thesis
    using fs_read_other [OF c(6)] c(3,4) assms(7,8,10,11)
    by (auto simp: compiler_main_def read_key_file_def)
qed

theorem compiled_file_verifies_witness:
  "\<exists>fs' out rest. compiler_main toy_env (\<lambda>_ _. replicate 64 7) (replicate 12 0) 9 (\<lambda>_. '''') (CompileCommand ''a.rhai'' ''a.bc'' ''k'' ''e'' ''s'' 1)
     \<lparr>fs_files = [''a.rhai'' \<mapsto> RegularFile [97], ''k'' \<mapsto> RegularFile (replicate 32 1), ''e'' \<mapsto> RegularFile (replicate 32 2),
        ''p'' \<mapsto> RegularFile (replicate 32 3)], fs_writable = \<lambda>_. True\<rparr> = Inr (out, ExitOk, fs')
   \<and> compiler_main toy_env (\<lambda>_ _. replicate 64 7) [] 0 (\<lambda>_. '''') (VerifyCommand ''a.bc'' ''p'' ''e'') fs' =
       Inr ((utf8 [0xE9, 0xA9, 0x97, 0xE8, 0xAD, 0x89, 0xE6, 0x88, 0x90, 0xE5, 0x8A, 0x9F, 0xEF, 0xBC, 0x9A] @ ''a.bc'') # (''  script_id:       '' @ ''s'') # (''  priority:        '' @ decimal 1) # rest, ExitOk, fs')"
proof -
  let ?fs = "\<lparr>fs_files = [''a.rhai'' \<mapsto> RegularFile [97], ''k'' \<mapsto> RegularFile (replicate 32 1), ''e'' \<mapsto> RegularFile (replicate 32 2),
        ''p'' \<mapsto> RegularFile (replicate 32 3)], fs_writable = \<lambda>_. True\<rparr>"
  let ?sign = "\<lambda>_ _ :: bytes. replicate 64 7 :: bytes"
  let ?cmd = "CompileCommand ''a.rhai'' ''a.bc'' ''k'' ''e'' ''s'' 1"
  obtain enc where "aes_encrypt_parts toy_aead (replicate 12 0) (replicate 32 2) (as_bytes ''a'') = Inr enc"
    by (simp add: aes_encrypt_parts_def toy_aead_def Let_def)
  then obtain code where "compile toy_env (?sign (replicate 32 1)) (replicate 12 0) 9 ''a'' ''s'' 1 (replicate 32 2) = Inr (Inr code)"
    by (simp add: compile_def toy_env_def toy_metadata_def Let_def)
  moreover have "read_to_string ?fs ''a.rhai'' = Some ''a''"
    by (simp add: read_to_string_def fs_read_def from_utf8_def) code_simp
  ultimately obtain out fs' where run: "compiler_main toy_env ?sign (replicate 12 0) 9 (\<lambda>_. '''') ?cmd ?fs = Inr (out, ExitOk, fs')"
    by (simp add: compiler_main_def read_key_file_def fs_read_def write_output_def fs_write_def)
  have "(\<forall>path. path \<noteq> ''a.bc'' \<longrightarrow> fs_read fs' path = fs_read ?fs path) \<and>
    (\<exists>rest. compiler_main toy_env ?sign [] 0 (\<lambda>_. '''') (VerifyCommand ''a.bc'' ''p'' ''e'') fs' =
       Inr ((utf8 [0xE9, 0xA9, 0x97, 0xE8, 0xAD, 0x89, 0xE6, 0x88, 0x90, 0xE5, 0x8A, 0x9F, 0xEF, 0xBC, 0x9A] @ ''a.bc'') # (''  script_id:       '' @ ''s'') # (''  priority:        '' @ decimal (unat (1::u8))) # rest,
            ExitOk, fs'))"
    by (rule compiled_file_verifies [OF run, where seed = "replicate 32 1" and pub = "replicate 32 3"])
      (simp_all add: toy_env_def toy_aead_correct fs_read_def)
  with run show ?thesis by auto
qed

section \<open>Keys\<close>

text \<open>\<open>gen_key\<close> with the two draws of the system's random generator; the directory of the prefix is made by
  \<open>create_dir_all\<close>, which may fail. A file is named by the prefix and a suffix.\<close>

definition gen_key_write :: "string \<Rightarrow> bytes \<Rightarrow> file_system \<Rightarrow> (tool_error + unit) \<times> file_system" where
  "gen_key_write path data fs = (case fs_write path data fs of None \<Rightarrow> (Inl (CannotWrite path), fs) | Some fs' \<Rightarrow> (Inr (), fs'))"

definition gen_key ::
  "(bytes \<Rightarrow> bytes) \<Rightarrow> (string \<Rightarrow> file_system \<Rightarrow> (tool_error + unit) \<times> file_system) \<Rightarrow> bytes \<Rightarrow> bytes \<Rightarrow> string \<Rightarrow> file_system \<Rightarrow>
     (tool_error + unit) \<times> file_system" where
  "gen_key verifying_key create_parent aes_key seed prefix fs =
     (case create_parent prefix fs of
        (Inl e, fs0) \<Rightarrow> (Inl e, fs0)
      | (Inr _, fs0) \<Rightarrow>
          (case gen_key_write (prefix @ ''.aes.key'') aes_key fs0 of
             (Inl e, fs1) \<Rightarrow> (Inl e, fs1)
           | (Inr _, fs1) \<Rightarrow>
               (case gen_key_write (prefix @ ''.ed25519.key'') seed fs1 of
                  (Inl e, fs2) \<Rightarrow> (Inl e, fs2)
                | (Inr _, fs2) \<Rightarrow> gen_key_write (prefix @ ''.ed25519.pub'') (verifying_key seed) fs2)))"

datatype AssetCommand =
    EncryptCommand string string string
  | DecryptCommand string string string
  | EncryptDirCommand string string
  | SignCommand string string
  | VerifySignatureCommand string string string
  | GenKeyCommand string

text \<open>What the commands draw from outside: cipher, signatures with their public keys, random bytes, the entries of a
  directory, the creation of a directory. \<open>encrypt_dir\<close> fails when the directory cannot be listed.\<close>

record asset_tool_env =
  at_cipher :: aead
  at_signatures :: signature_scheme
  at_verifying_key :: "bytes \<Rightarrow> bytes"
  at_nonce :: bytes
  at_random_key :: bytes
  at_random_seed :: bytes
  at_entries :: "string \<Rightarrow> (dir_entry \<times> bytes) list option"
  at_create_parent :: "string \<Rightarrow> file_system \<Rightarrow> (tool_error + unit) \<times> file_system"

definition keep_files :: "file_system \<Rightarrow> tool_error + file_system \<Rightarrow> (tool_error + unit) \<times> file_system" where
  "keep_files fs r = (case r of Inl e \<Rightarrow> (Inl e, fs) | Inr fs' \<Rightarrow> (Inr (), fs'))"

definition asset_tool_main :: "asset_tool_env \<Rightarrow> AssetCommand \<Rightarrow> file_system \<Rightarrow> (tool_error + unit) \<times> file_system" where
  "asset_tool_main X cmd fs =
     (case cmd of
        EncryptCommand input output key_file \<Rightarrow>
          keep_files fs (bind_sum (load_key_file fs key_file) (\<lambda>key. encrypt_file (at_cipher X) (at_nonce X) input output key fs))
      | DecryptCommand input output key_file \<Rightarrow>
          keep_files fs (bind_sum (load_key_file fs key_file) (\<lambda>key. decrypt_file (at_cipher X) input output key fs))
      | EncryptDirCommand dir key_file \<Rightarrow>
          (case load_key_file fs key_file of
             Inl e \<Rightarrow> (Inl e, fs)
           | Inr key \<Rightarrow>
               (case at_entries X dir of
                  None \<Rightarrow> (Inl (CannotRead dir), fs)
                | Some entries \<Rightarrow>
                    (case encrypt_entries (at_cipher X) key entries 0 fs of (r, fs') \<Rightarrow> (map_sum (\<lambda>e. e) (\<lambda>_. ()) r, fs'))))
      | SignCommand file key_file \<Rightarrow> keep_files fs (sign_file (at_signatures X) file (file @ ''.sig'') key_file fs)
      | VerifySignatureCommand file key_file sig_file \<Rightarrow> (verify_file (at_signatures X) file key_file sig_file fs, fs)
      | GenKeyCommand out \<Rightarrow> gen_key (at_verifying_key X) (at_create_parent X) (at_random_key X) (at_random_seed X) out fs)"

lemma gen_key_write_Inr:
  "gen_key_write p d fs = (Inr (), fs') \<longleftrightarrow> fs_write p d fs = Some fs'"
  by (auto simp: gen_key_write_def split: option.splits)

lemma gen_key_files:
  assumes "gen_key vk create aes_key seed prefix fs = (Inr (), fs')"
    and "\<forall>p f g. create p f = (Inr (), g) \<longrightarrow> (\<forall>q. fs_read g q = fs_read f q)"
  shows "fs_read fs' (prefix @ ''.aes.key'') = Some aes_key" "fs_read fs' (prefix @ ''.ed25519.key'') = Some seed"
    "fs_read fs' (prefix @ ''.ed25519.pub'') = Some (vk seed)"
    "q \<notin> {prefix @ ''.aes.key'', prefix @ ''.ed25519.key'', prefix @ ''.ed25519.pub''} \<Longrightarrow> fs_read fs' q = fs_read fs q"
proof -
  obtain f0 f1 f2 where w: "create prefix fs = (Inr (), f0)" "fs_write (prefix @ ''.aes.key'') aes_key f0 = Some f1"
    "fs_write (prefix @ ''.ed25519.key'') seed f1 = Some f2" "fs_write (prefix @ ''.ed25519.pub'') (vk seed) f2 = Some fs'"
    using assms(1) by (auto simp: gen_key_def gen_key_write_Inr split: prod.splits sum.splits)
  note r = fs_read_write [OF w(2)] fs_read_write [OF w(3)] fs_read_write [OF w(4)]
    fs_read_other [OF w(2)] fs_read_other [OF w(3)] fs_read_other [OF w(4)]
  show "fs_read fs' (prefix @ ''.aes.key'') = Some aes_key" "fs_read fs' (prefix @ ''.ed25519.key'') = Some seed"
    "fs_read fs' (prefix @ ''.ed25519.pub'') = Some (vk seed)"
    "q \<notin> {prefix @ ''.aes.key'', prefix @ ''.ed25519.key'', prefix @ ''.ed25519.pub''} \<Longrightarrow> fs_read fs' q = fs_read fs q"
    using r assms(2) w(1) by simp_all
qed

text \<open>Keys the tool generated fit together: what is signed with the private one verifies with the public one.\<close>

lemma generated_keys_work:
  assumes "gen_key vk create aes_key seed prefix fs = (Inr (), fs1)"
    and "\<forall>p f g. create p f = (Inr (), g) \<longrightarrow> (\<forall>q. fs_read g q = fs_read f q)"
    and "length seed = 32" "length (vk seed) = 32" "\<forall>m. ss_verify S (vk seed) m (ss_sign S seed m) = Inr ()"
    and "\<forall>m. length (ss_sign S seed m) = 64"
    and "sign_file S file sig (prefix @ ''.ed25519.key'') fs1 = Inr fs2" "sig \<notin> {file, prefix @ ''.ed25519.pub''}"
  shows "verify_file S file (prefix @ ''.ed25519.pub'') sig fs2 = Inr ()"
proof -
  note keys = gen_key_files(2,3) [OF assms(1,2)]
  have present: "fs_files f p \<noteq> None" if "fs_read f p = Some d" for f p d
    using that by (auto simp: fs_read_def split: option.splits)
  obtain content where body: "fs_read fs1 file = Some content" and w: "fs_write sig (ss_sign S seed content) fs1 = Some fs2"
    using assms(3,7) keys(1) present [OF keys(1)]
    by (auto simp: sign_file_def load_key_file_def split: option.splits)
  have "fs_read fs2 (prefix @ ''.ed25519.pub'') = Some (vk seed)" "fs_read fs2 file = Some content"
    "fs_read fs2 sig = Some (ss_sign S seed content)"
    using fs_read_other [OF w] fs_read_write [OF w] keys(2) body assms(8) by auto
  then show ?thesis using present [of fs2] assms(4,5,6) by (simp add: verify_file_def load_key_file_def)
qed

section \<open>The seed of the obfuscator\<close>

definition generate_seed :: "(bytes \<Rightarrow> bytes) \<Rightarrow> u64 \<Rightarrow> string \<Rightarrow> u64" where
  "generate_seed blake3 timestamp commit_hash = from_le_bytes (take 8 (blake3 (le_bytes 8 timestamp @ as_bytes commit_hash)))"

text \<open>\<open>str::trim\<close>: the characters with the property White_Space, by their bytes.\<close>

definition white_space :: "string list" where
  "white_space =
     map (\<lambda>n. [char_of n]) ([9..<14] @ [32 :: nat]) @ [utf8 [0xC2, 0x85], utf8 [0xC2, 0xA0], utf8 [0xE1, 0x9A, 0x80]]
     @ map (\<lambda>n. utf8 [0xE2, 0x80, n]) ([0x80..<0x8B] @ [0xA8, 0xA9, 0xAF]) @ [utf8 [0xE2, 0x81, 0x9F], utf8 [0xE3, 0x80, 0x80]]"

fun strip :: "nat \<Rightarrow> string list \<Rightarrow> string \<Rightarrow> string" where
  "strip 0 ws s = s"
| "strip (Suc n) ws s =
     (case List.find (\<lambda>w. take (length w) s = w) ws of None \<Rightarrow> s | Some w \<Rightarrow> strip n ws (drop (length w) s))"

definition trim :: "string \<Rightarrow> string" where
  "trim s = (let t = strip (length s) white_space s in rev (strip (length t) (map rev white_space) (rev t)))"

text \<open>\<open>parse::<u64>\<close>: a plus sign is accepted before the digits.\<close>

fun parse_digits :: "nat \<Rightarrow> string \<Rightarrow> nat option" where
  "parse_digits acc [] = Some acc"
| "parse_digits acc (c # cs) =
     (let d = (of_char c :: nat)
      in if 48 \<le> d \<and> d \<le> 57 \<and> acc * 10 + (d - 48) < 2 ^ 64 then parse_digits (acc * 10 + (d - 48)) cs else None)"

definition parse_u64 :: "string \<Rightarrow> u64 option" where
  "parse_u64 s =
     (let digits = (if s \<noteq> [] \<and> hd s = CHR ''+'' then tl s else s)
      in if digits = [] then None else map_option of_nat (parse_digits 0 digits))"

definition resolve_seed :: "(bytes \<Rightarrow> bytes) \<Rightarrow> string option \<Rightarrow> string \<Rightarrow> u64 \<Rightarrow> u64" where
  "resolve_seed blake3 build_seed_var commit_hash timestamp_secs =
     (case build_seed_var of
        None \<Rightarrow> generate_seed blake3 timestamp_secs commit_hash
      | Some seed_str \<Rightarrow>
          (case parse_u64 (trim seed_str) of
             Some seed \<Rightarrow> seed
           | None \<Rightarrow> generate_seed blake3 timestamp_secs commit_hash))"

definition handle_gen_seed :: "(bytes \<Rightarrow> bytes) \<Rightarrow> string option \<Rightarrow> string \<Rightarrow> u64 \<Rightarrow> string" where
  "handle_gen_seed blake3 build_seed_var commit_hash timestamp =
     decimal (unat (resolve_seed blake3 build_seed_var commit_hash timestamp))"

definition digit :: "char \<Rightarrow> bool" where
  "digit c \<longleftrightarrow> 48 \<le> (of_char c :: nat) \<and> (of_char c :: nat) \<le> 57"

lemma decimal_digits: "c \<in> set (decimal n) \<Longrightarrow> digit c"
proof (induction n rule: decimal.induct)
  case (1 n)
  then show ?case by (subst (asm) decimal.simps) (auto simp: digit_def split: if_splits)
qed

lemma decimal_not_Nil [simp]: "decimal n \<noteq> []"
  by (subst decimal.simps) simp

lemma white_space_no_digit: "list_all (\<lambda>w. w \<noteq> [] \<and> \<not> digit (hd w) \<and> \<not> digit (last w)) white_space"
  unfolding white_space_def utf8_def digit_def by code_simp

lemma line_feed: "[CHR 0x0A] \<in> set (map rev white_space)" "list_all (\<lambda>w. hd w = CHR 0x0A \<longrightarrow> w = [CHR 0x0A]) (map rev white_space)"
  unfolding white_space_def utf8_def by code_simp+

lemma strip_stop:
  assumes "s \<noteq> []" "digit (hd s)" "list_all (\<lambda>w. w \<noteq> [] \<and> \<not> digit (hd w)) ws"
  shows "strip n ws s = s"
proof (cases n)
  case (Suc m)
  have "take (length w) s \<noteq> w" if "w \<in> set ws" for w
  proof
    assume "take (length w) s = w"
    moreover have "w \<noteq> []" "\<not> digit (hd w)" using assms(3) that by (auto simp: list_all_iff)
    ultimately show False using assms(1,2) by (metis hd_take length_greater_0_conv)
  qed
  then have "List.find (\<lambda>w. take (length w) s = w) ws = None" by (simp add: find_None_all)
  then show ?thesis by (simp add: Suc)
qed simp

lemma trim_line:
  assumes "s \<noteq> []" "\<forall>c \<in> set s. digit c"
  shows "trim (s @ [CHR 0x0A]) = s" "trim s = s"
proof -
  have front: "list_all (\<lambda>w. w \<noteq> [] \<and> \<not> digit (hd w)) white_space"
    and rear: "list_all (\<lambda>w. w \<noteq> [] \<and> \<not> digit (hd w)) (map rev white_space)"
    using white_space_no_digit by (auto simp: list_all_iff hd_rev)
  have "rev s \<noteq> []" "digit (hd (rev s))" using assms by (auto simp: hd_rev)
  note stop = strip_stop [OF this rear]
  have hd_s: "digit (hd s)" using assms by simp
  then show "trim s = s" using strip_stop [OF assms(1) hd_s front] stop by (simp add: trim_def)
  have "strip (length (s @ [CHR 0x0A])) white_space (s @ [CHR 0x0A]) = s @ [CHR 0x0A]"
    by (rule strip_stop) (use assms(1) hd_s front in simp_all)
  moreover have "List.find (\<lambda>w. take (length w) (CHR 0x0A # rev s) = w) (map rev white_space) = Some [CHR 0x0A]"
    (is "?found = _")
  proof (cases ?found)
    case None
    then have "take (length [CHR 0x0A]) (CHR 0x0A # rev s) \<noteq> [CHR 0x0A]"
      using line_feed(1) unfolding find_None_all by blast
    then show ?thesis by simp
  next
    case (Some w)
    then have w: "w \<in> set (map rev white_space)" "take (length w) (CHR 0x0A # rev s) = w" by (auto dest: find_SomeD)
    moreover from this have "w \<noteq> []" using rear by (auto simp: list_all_iff)
    ultimately have "hd w = CHR 0x0A" by (metis hd_take length_greater_0_conv list.sel(1))
    then have "w = [CHR 0x0A]" using line_feed(2) w(1) unfolding list_all_iff by blast
    with Some show ?thesis by (simp only:)
  qed
  ultimately show "trim (s @ [CHR 0x0A]) = s" by (simp add: trim_def stop del: set_map)
qed

lemma parse_digits_decimal:
  "acc * 10 ^ length (decimal n) + n < 2 ^ 64 \<Longrightarrow> parse_digits acc (decimal n @ cs) = parse_digits (acc * 10 ^ length (decimal n) + n) cs"
proof (induction n arbitrary: cs rule: decimal.induct)
  case (1 n)
  show ?case
  proof (cases "n < 10")
    case True
    then have "decimal n = [char_of (48 + n)]" by (subst decimal.simps) simp
    with True "1.prems" show ?thesis by (simp add: Let_def)
  next
    case False
    then have n: "decimal n = decimal (n div 10) @ [char_of (48 + n mod 10)]" by (subst decimal.simps) simp
    let ?a = "acc * 10 ^ length (decimal (n div 10)) + n div 10"
    have eq: "acc * 10 ^ length (decimal n) + n = ?a * 10 + n mod 10" by (simp add: n algebra_simps)
    with "1.prems" have "?a * 10 + n mod 10 < 2 ^ 64" by simp
    moreover from this have "?a < 2 ^ 64" by (rule le_less_trans [rotated]) simp
    moreover have "n mod 10 \<le> 9" by simp
    ultimately show ?thesis using "1.IH" [OF False, of "char_of (48 + n mod 10) # cs"] unfolding eq by (simp add: n Let_def)
  qed
qed

lemma parse_u64_decimal: "parse_u64 (decimal (unat w)) = Some w"
proof -
  have "unat w < 2 ^ 64" using unsigned_less [of w, where ?'a = nat] by simp
  then have "parse_digits 0 (decimal (unat w)) = Some (unat w)" using parse_digits_decimal [of 0 "unat w" "[]"] by simp
  moreover have "hd (decimal (unat w)) \<noteq> CHR ''+''"
    using decimal_digits [of "hd (decimal (unat w))" "unat w"] by (auto simp: digit_def)
  ultimately show ?thesis by (simp add: parse_u64_def)
qed

text \<open>A build can be repeated. The seed the tool prints, given back through the environment variable with the end of line
  it was printed with, is the seed again, whatever commit and time the second build has.\<close>
lemma printed_seed_reproduces:
  "resolve_seed blake3 (Some (handle_gen_seed blake3 var commit_hash timestamp @ [CHR 0x0A])) commit_hash' timestamp' =
     resolve_seed blake3 var commit_hash timestamp"
proof -
  have "trim (decimal n @ [CHR 0x0A]) = decimal n" for n by (rule trim_line) (simp_all add: decimal_digits)
  then show ?thesis unfolding handle_gen_seed_def by (subst resolve_seed_def) (simp add: parse_u64_decimal)
qed

text \<open>What the external program \<open>wasm-mutate\<close> reports; it may have written the output file.\<close>

datatype process_result = ProcessExit bool "int option" string | ProcessNotFound string | ProcessStartFailed string

definition signed_decimal :: "int \<Rightarrow> string" where
  "signed_decimal i = (if i < 0 then ''-'' @ decimal (nat (- i)) else decimal (nat i))"

definition run_wasm_mutate :: "process_result \<Rightarrow> string + unit" where
  "run_wasm_mutate result =
     (case result of
        ProcessExit success code stderr \<Rightarrow>
          if success then Inr ()
          else Inl (''wasm-mutate '' @ utf8 [0xE9, 0x9D, 0x9E, 0xE9, 0x9B, 0xB6, 0xE9, 0x80, 0x80, 0xE5, 0x87, 0xBA] @ '' code='' @ signed_decimal (case code of Some c \<Rightarrow> c | None \<Rightarrow> - 1) @ '', stderr='' @ stderr)
      | ProcessNotFound e \<Rightarrow> Inl (''wasm-mutate '' @ utf8 [0xE5, 0xB7, 0xA5, 0xE5, 0x85, 0xB7, 0xE4, 0xB8, 0x8D, 0xE5, 0x9C, 0xA8] @ '' PATH'' @ utf8 [0xEF, 0xBC, 0x9A] @ e)
      | ProcessStartFailed e \<Rightarrow> Inl (''wasm-mutate '' @ utf8 [0xE8, 0xA1, 0x8C, 0xE7, 0xA8, 0x8B, 0xE5, 0x95, 0x9F, 0xE5, 0x8B, 0x95, 0xE5, 0xA4, 0xB1, 0xE6, 0x95, 0x97, 0xEF, 0xBC, 0x9A] @ e))"

definition handle_mutate ::
  "(bytes \<Rightarrow> bytes) \<Rightarrow> string option \<Rightarrow> (string list \<Rightarrow> file_system \<Rightarrow> process_result \<times> file_system) \<Rightarrow> (string \<Rightarrow> string) \<Rightarrow>
     string \<Rightarrow> string \<Rightarrow> u64 \<Rightarrow> string \<Rightarrow> file_system \<Rightarrow> (string + unit) \<times> file_system" where
  "handle_mutate blake3 build_seed_var wasm_mutate io_error input output timestamp commit fs =
     (if fs_files fs input = None then (Inl (utf8 [0xE8, 0xBC, 0xB8, 0xE5, 0x85, 0xA5, 0xE6, 0xAA, 0x94, 0xE6, 0xA1, 0x88, 0xE4, 0xB8, 0x8D, 0xE5, 0xAD, 0x98, 0xE5, 0x9C, 0xA8, 0xEF, 0xBC, 0x9A] @ input), fs)
      else
        let seed = resolve_seed blake3 build_seed_var commit timestamp;
            args = [''--seed'', decimal (unat seed), ''--fuel'', ''1000'', ''--preserve-semantics'', ''-o'', output, input]
        in case wasm_mutate args fs of
             (result, fs1) \<Rightarrow>
               (case run_wasm_mutate result of
                  Inr _ \<Rightarrow> (Inr (), fs1)
                | Inl _ \<Rightarrow>
                    (case fs_read fs1 input of
                       None \<Rightarrow> (Inl (io_error input), fs1)
                     | Some data \<Rightarrow>
                         (case fs_write output data fs1 of None \<Rightarrow> (Inl (io_error output), fs1) | Some fs2 \<Rightarrow> (Inr (), fs2)))))"

text \<open>A successful run leaves the obfuscated file or, when obfuscation failed, an unchanged copy.\<close>

lemma mutate_output:
  assumes "handle_mutate blake3 var wasm_mutate io_error input output timestamp commit fs = (Inr (), fs')"
  obtains args result fs1 where "wasm_mutate args fs = (result, fs1)"
    and "run_wasm_mutate result = Inr () \<and> fs' = fs1 \<or>
      (\<exists>e data. run_wasm_mutate result = Inl e \<and> fs_read fs1 input = Some data \<and> fs_read fs' output = Some data)"
  using assms
  by (auto simp: handle_mutate_def Let_def split: if_splits prod.splits sum.splits option.splits dest: fs_read_write)

section \<open>The development key\<close>

text \<open>Decoding hexadecimal text is the \<^verbatim>\<open>hex\<close> crate's; \<open>copy_from_slice\<close> panics (\<open>None\<close>) unless it gives 32 bytes.\<close>

definition get_debug_encryption_key :: "(string \<Rightarrow> bytes option) \<Rightarrow> string option \<Rightarrow> bytes option" where
  "get_debug_encryption_key hex_decode dev_key =
     (case dev_key of
        Some hex_key \<Rightarrow>
          if length hex_key = 64
          then (case hex_decode hex_key of
                  Some bytes \<Rightarrow> if length bytes = 32 then Some bytes else None
                | None \<Rightarrow> Some (replicate 32 0))
          else Some (replicate 32 0)
      | None \<Rightarrow> Some (replicate 32 0))"

lemma debug_key_length:
  assumes "\<And>s bs. hex_decode s = Some bs \<Longrightarrow> 2 * length bs = length s"
  shows "\<exists>key. get_debug_encryption_key hex_decode dev_key = Some key \<and> length key = 32"
  using assms by (fastforce simp: get_debug_encryption_key_def split: option.split)

end
