(* ===== verification/Inspect_Tools.thy ===== *)
theory Inspect_Tools
  imports Build_Tools Replay
begin

text \<open>
  The tools that show what the system produced: the disassembler of script containers
  (\<^verbatim>\<open>tools/vm_disassembler/src/main.rs\<close>), the replay debugger (\<^verbatim>\<open>tools/replay_debugger/src/main.rs\<close>) and the state inspector
  (\<^verbatim>\<open>tools/state_inspector/src/main.rs\<close>). A run gives the lines printed and how it ended. The debug printer of the syntax tree,
  gzip, bincode and JSON are parameters.
\<close>

section \<open>The disassembler\<close>

record Disassembler =
  da_input :: string
  da_key_file :: "string option"
  da_signing_key :: "string option"
  da_metadata_only :: bool
  da_max_ast_lines :: nat

definition disasm_load_key :: "(string \<Rightarrow> string) \<Rightarrow> file_system \<Rightarrow> string \<Rightarrow> string + bytes" where
  "disasm_load_key io_error fs path =
     (case fs_read fs path of
        None \<Rightarrow> Inl (utf8 [0xE7, 0x84, 0xA1, 0xE6, 0xB3, 0x95, 0xE8, 0xAE, 0x80, 0xE5, 0x8F, 0x96, 0xE9, 0x87, 0x91, 0xE9, 0x91, 0xB0, 0xE6, 0xAA, 0x94, 0xE6, 0xA1, 0x88] @ '' '' @ path @ '': '' @ io_error path)
      | Some bs \<Rightarrow>
          if length bs = 32 then Inr bs
          else Inl (utf8 [0xE9, 0x87, 0x91, 0xE9, 0x91, 0xB0, 0xE6, 0xAA, 0x94, 0xE6, 0xA1, 0x88] @ '' '' @ path @ '' '' @ utf8 [0xE5, 0xBF, 0x85, 0xE9, 0xA0, 0x88, 0xE6, 0x81, 0xB0, 0xE5, 0xA5, 0xBD] @ '' 32 bytes'' @ utf8 [0xEF, 0xBC, 0x8C, 0xE5, 0xAF, 0xA6, 0xE9, 0x9A, 0x9B] @ '' '' @ decimal (length bs) @ '' bytes''))"

text \<open>\<open>str::lines\<close>: the parts before a line feed, without a carriage return at their end, and a last part that is not
  empty.\<close>

definition strip_cr :: "string \<Rightarrow> string" where
  "strip_cr s = (if s \<noteq> [] \<and> last s = CHR 0x0D then butlast s else s)"

fun str_lines :: "string \<Rightarrow> string \<Rightarrow> string list" where
  "str_lines acc [] = (if acc = [] then [] else [acc])"
| "str_lines acc (c # cs) = (if c = CHR 0x0A then strip_cr acc # str_lines [] cs else str_lines (acc @ [c]) cs)"

definition print_ast :: "string \<Rightarrow> nat \<Rightarrow> string \<Rightarrow> string list" where
  "print_ast ast_str max_ast_lines hint =
     (let lines = str_lines [] ast_str;
          display_count = min (length lines) max_ast_lines
      in take display_count lines
         @ (if length lines > max_ast_lines
            then [''... ('' @ decimal (length lines - max_ast_lines) @ '' '' @ utf8 [0xE8, 0xA1, 0x8C, 0xE5, 0xB7, 0xB2, 0xE6, 0x88, 0xAA, 0xE6, 0x96, 0xB7, 0xEF, 0xBC, 0x8C, 0xE5, 0x85, 0xB1] @ '' '' @ decimal (length lines) @ '' '' @ utf8 [0xE8, 0xA1, 0x8C] @ hint @ '')'']
            else []))"

definition AST_HINT :: string where "AST_HINT = utf8 [0xE3, 0x80, 0x82, 0xE4, 0xBD, 0xBF, 0xE7, 0x94, 0xA8] @ '' --max-ast-lines '' @ utf8 [0xE8, 0xAA, 0xBF, 0xE6, 0x95, 0xB4]"

definition show_bytes :: "bytes \<Rightarrow> string" where
  "show_bytes bs =
     (case map (\<lambda>b. decimal (unat b)) bs of
        [] \<Rightarrow> ''[]''
      | x # xs \<Rightarrow> ''['' @ x @ concat (map (\<lambda>y. '', '' @ y) xs) @ '']'')"

fun display_format_error :: "FormatError \<Rightarrow> string" where
  "display_format_error (InvalidMagic m) = utf8 [0xE7, 0x84, 0xA1, 0xE6, 0x95, 0x88, 0xE7, 0x9A, 0x84] @ '' Magic Number'' @ utf8 [0xEF, 0xBC, 0x9A, 0xE9, 0xA0, 0x90, 0xE6, 0x9C, 0x9F] @ '' RHBC'' @ utf8 [0xEF, 0xBC, 0x8C, 0xE5, 0xBE, 0x97, 0xE5, 0x88, 0xB0] @ '' '' @ show_bytes m"
| "display_format_error (TruncatedData expected got) =
     utf8 [0xE8, 0xB3, 0x87, 0xE6, 0x96, 0x99, 0xE6, 0x88, 0xAA, 0xE6, 0x96, 0xB7, 0xEF, 0xBC, 0x9A, 0xE8, 0x87, 0xB3, 0xE5, 0xB0, 0x91, 0xE9, 0x9C, 0x80, 0xE8, 0xA6, 0x81] @ '' '' @ decimal expected @ '' bytes'' @ utf8 [0xEF, 0xBC, 0x8C, 0xE5, 0x83, 0x85, 0xE6, 0x9C, 0x89] @ '' '' @ decimal got"
| "display_format_error (MetadataDeserializationFailed e) = ''Metadata '' @ utf8 [0xE5, 0x8F, 0x8D, 0xE5, 0xBA, 0x8F, 0xE5, 0x88, 0x97, 0xE5, 0x8C, 0x96, 0xE5, 0xA4, 0xB1, 0xE6, 0x95, 0x97, 0xEF, 0xBC, 0x9A] @ e"
| "display_format_error MetadataLengthOutOfRange = ''Metadata Length '' @ utf8 [0xE8, 0xB6, 0x85, 0xE5, 0x87, 0xBA, 0xE8, 0xB3, 0x87, 0xE6, 0x96, 0x99, 0xE7, 0xAF, 0x84, 0xE5, 0x9C, 0x8D]"

fun display_load_error :: "LoadError \<Rightarrow> string" where
  "display_load_error (Format e) = utf8 [0xE6, 0xA0, 0xBC, 0xE5, 0xBC, 0x8F, 0xE8, 0xA7, 0xA3, 0xE6, 0x9E, 0x90, 0xE5, 0xA4, 0xB1, 0xE6, 0x95, 0x97, 0xEF, 0xBC, 0x9A] @ display_format_error e"
| "display_load_error (IncompatibleVersion expected got) =
     utf8 [0xE7, 0x89, 0x88, 0xE6, 0x9C, 0xAC, 0xE4, 0xB8, 0x8D, 0xE7, 0x9B, 0xB8, 0xE5, 0xAE, 0xB9, 0xEF, 0xBC, 0x9A, 0xE5, 0x9F, 0xB7, 0xE8, 0xA1, 0x8C, 0xE6, 0x9C, 0x9F] @ '' major='' @ decimal (unat expected) @ utf8 [0xEF, 0xBC, 0x8C] @ ''bytecode major='' @ decimal (unat got)"
| "display_load_error (LoadError.DecryptionFailed _) = ''AES-GCM '' @ utf8 [0xE8, 0xA7, 0xA3, 0xE5, 0xAF, 0x86, 0xE5, 0xA4, 0xB1, 0xE6, 0x95, 0x97]"
| "display_load_error SignatureVerificationFailedLoad = ''Ed25519 '' @ utf8 [0xE7, 0xB0, 0xBD, 0xE7, 0xAB, 0xA0, 0xE9, 0xA9, 0x97, 0xE8, 0xAD, 0x89, 0xE5, 0xA4, 0xB1, 0xE6, 0x95, 0x97, 0xEF, 0xBC, 0x9A] @ ''bytecode '' @ utf8 [0xE5, 0x8F, 0xAF, 0xE8, 0x83, 0xBD, 0xE8, 0xA2, 0xAB, 0xE7, 0xAF, 0xA1, 0xE6, 0x94, 0xB9]"
| "display_load_error SourceDecodeFailed = utf8 [0xE5, 0x8E, 0x9F, 0xE5, 0xA7, 0x8B, 0xE7, 0xA2, 0xBC] @ '' UTF-8 '' @ utf8 [0xE8, 0xA7, 0xA3, 0xE7, 0xA2, 0xBC, 0xE5, 0xA4, 0xB1, 0xE6, 0x95, 0x97]"
| "display_load_error (RhaiCompileFailed e) = ''Rhai '' @ utf8 [0xE7, 0xB7, 0xA8, 0xE8, 0xAD, 0xAF, 0xE5, 0xA4, 0xB1, 0xE6, 0x95, 0x97, 0xEF, 0xBC, 0x9A] @ e"
| "display_load_error DebugBuildBytecode = ''Debug format bytecode '' @ utf8 [0xE4, 0xB8, 0x8D, 0xE5, 0x85, 0x81, 0xE8, 0xA8, 0xB1, 0xE5, 0x9C, 0xA8] @ '' release build '' @ utf8 [0xE8, 0xBC, 0x89, 0xE5, 0x85, 0xA5]"

definition disassemble ::
  "'ast bytecode_env \<Rightarrow> ('ast \<Rightarrow> string) \<Rightarrow> (string \<Rightarrow> string) \<Rightarrow> Disassembler \<Rightarrow> file_system \<Rightarrow> string list \<times> exit_status" where
  "disassemble E show_ast io_error cli fs =
     (case fs_read fs (da_input cli) of
        None \<Rightarrow> ([], ExitFailure (utf8 [0xE9, 0x8C, 0xAF, 0xE8, 0xAA, 0xA4, 0xEF, 0xBC, 0x9A, 0xE7, 0x84, 0xA1, 0xE6, 0xB3, 0x95, 0xE8, 0xAE, 0x80, 0xE5, 0x8F, 0x96] @ '' '' @ da_input cli @ utf8 [0xEF, 0xBC, 0x9A] @ io_error (da_input cli)))
      | Some data \<Rightarrow>
          (case read_metadata E data of
             Inl e \<Rightarrow> ([], ExitFailure (utf8 [0xE9, 0x8C, 0xAF, 0xE8, 0xAA, 0xA4, 0xEF, 0xBC, 0x9A] @ ''metadata '' @ utf8 [0xE8, 0xA7, 0xA3, 0xE6, 0x9E, 0x90, 0xE5, 0xA4, 0xB1, 0xE6, 0x95, 0x97, 0xEF, 0xBC, 0x9A] @ display_format_error e))
           | Inr meta \<Rightarrow>
               let head = [''=== Metadata ==='',
                           ''  script_id:       '' @ md_script_id meta,
                           ''  priority:        '' @ decimal (unat (md_priority meta)),
                           ''  source_hash:     '' @ hex_of (md_source_hash meta),
                           ''  build_timestamp: '' @ decimal (unat (md_build_timestamp meta))]
               in if da_metadata_only cli then (head, ExitOk)
                  else
                    let head = head @ ['''', ''=== AST ==='']
                    in (case load_debug E data of
                          Inr (_, ast) \<Rightarrow> (head @ print_ast (show_ast ast) (da_max_ast_lines cli) AST_HINT, ExitOk)
                        | Inl _ \<Rightarrow>
                            (case (da_key_file cli, da_signing_key cli) of
                               (Some key_file, Some signing_key_file) \<Rightarrow>
                                 (case disasm_load_key io_error fs key_file of
                                    Inl e \<Rightarrow> (head, ExitFailure (utf8 [0xE9, 0x8C, 0xAF, 0xE8, 0xAA, 0xA4, 0xEF, 0xBC, 0x9A] @ e))
                                  | Inr decryption_key \<Rightarrow>
                                      (case disasm_load_key io_error fs signing_key_file of
                                         Inl e \<Rightarrow> (head, ExitFailure (utf8 [0xE9, 0x8C, 0xAF, 0xE8, 0xAA, 0xA4, 0xEF, 0xBC, 0x9A] @ e))
                                       | Inr verifying_key \<Rightarrow>
                                           (case load E data verifying_key decryption_key of
                                              Inr (_, ast) \<Rightarrow> (head @ print_ast (show_ast ast) (da_max_ast_lines cli) '''', ExitOk)
                                            | Inl e \<Rightarrow> (head, ExitFailure (utf8 [0xE9, 0x8C, 0xAF, 0xE8, 0xAA, 0xA4, 0xEF, 0xBC, 0x9A] @ ''bytecode '' @ utf8 [0xE8, 0xBC, 0x89, 0xE5, 0x85, 0xA5, 0xE5, 0xA4, 0xB1, 0xE6, 0x95, 0x97, 0xEF, 0xBC, 0x9A] @ display_load_error e)))))
                             | _ \<Rightarrow> (head, ExitFailure (utf8 [0xE9, 0x8C, 0xAF, 0xE8, 0xAA, 0xA4, 0xEF, 0xBC, 0x9A, 0xE9, 0x9D, 0x9E] @ '' debug bytecode'' @ utf8 [0xEF, 0xBC, 0x8C, 0xE9, 0x9C, 0x80, 0xE6, 0x8F, 0x90, 0xE4, 0xBE, 0x9B] @ '' --key-file '' @ utf8 [0xE5, 0x92, 0x8C] @ '' --signing-key''))))))"

text \<open>The listing is bounded by the option, plus the line that says so; without cutting it is the whole text.\<close>

lemma print_ast_bounded: "length (print_ast s n hint) \<le> n + 1"
  by (simp add: print_ast_def Let_def)

lemma print_ast_all: "length (str_lines [] s) \<le> n \<Longrightarrow> print_ast s n hint = str_lines [] s"
  by (simp add: print_ast_def Let_def)

text \<open>Only the listing needs the keys: the metadata is printed as it stands in the file, without its signature being
  checked, also when the run then fails.\<close>

lemma disassembled_tree_genuine:
  assumes "disassemble E show_ast io_error cli fs = (out, ExitOk)" "\<not> da_metadata_only cli"
  shows "\<exists>data md ast. fs_read fs (da_input cli) = Some data \<and>
    (load_debug E data = Inr (md, ast) \<or> (\<exists>pub key. load E data pub key = Inr (md, ast)))"
  using assms by (auto simp: disassemble_def Let_def split: option.splits sum.splits prod.splits if_splits)

lemma metadata_printed_first:
  assumes "fs_read fs (da_input cli) = Some data" "read_metadata E data = Inr md"
  shows "\<exists>rest. fst (disassemble E show_ast io_error cli fs) =
    ''=== Metadata ==='' # (''  script_id:       '' @ md_script_id md) # rest"
  using assms by (auto simp: disassemble_def Let_def split: option.splits sum.splits prod.splits)

section \<open>The replay debugger\<close>

datatype console_line = Out string | Err string

record ReplayDebugger =
  dbg_input :: string
  dbg_golden :: "string option"
  dbg_head :: nat

type_synonym TickHash = "u64 \<times> Blake3Hash"

definition debugger_load_replay ::
  "(string \<Rightarrow> string) \<Rightarrow> (bytes \<Rightarrow> string + bytes) \<Rightarrow> (bytes \<Rightarrow> string + ReplayFile) \<Rightarrow> file_system \<Rightarrow> string \<Rightarrow> string + ReplayFile" where
  "debugger_load_replay io_error gunz de fs path =
     (case fs_read fs path of
        None \<Rightarrow> Inl (utf8 [0xE8, 0xAE, 0x80, 0xE5, 0x8F, 0x96, 0xE6, 0xAA, 0x94, 0xE6, 0xA1, 0x88, 0xE5, 0xA4, 0xB1, 0xE6, 0x95, 0x97, 0xEF, 0xBC, 0x9A] @ io_error path)
      | Some data \<Rightarrow>
          bind_sum (map_inl (\<lambda>e. ''gzip '' @ utf8 [0xE8, 0xA7, 0xA3, 0xE5, 0xA3, 0x93, 0xE5, 0xA4, 0xB1, 0xE6, 0x95, 0x97, 0xEF, 0xBC, 0x9A] @ e) (gunz data)) (\<lambda>decompressed.
            bind_sum (map_inl (\<lambda>e. ''bincode '' @ utf8 [0xE8, 0xA7, 0xA3, 0xE7, 0xA2, 0xBC, 0xE5, 0xA4, 0xB1, 0xE6, 0x95, 0x97, 0xEF, 0xBC, 0x9A] @ e) (de decompressed)) (\<lambda>file.
              if rp_version file \<noteq> REPLAY_FORMAT_VERSION
              then Inl (utf8 [0xE7, 0x89, 0x88, 0xE6, 0x9C, 0xAC, 0xE4, 0xB8, 0x8D, 0xE7, 0xAC, 0xA6, 0xEF, 0xBC, 0x9A, 0xE6, 0x9C, 0x9F, 0xE6, 0x9C, 0x9B] @ '' '' @ decimal (unat REPLAY_FORMAT_VERSION) @ utf8 [0xEF, 0xBC, 0x8C, 0xE5, 0xAF, 0xA6, 0xE9, 0x9A, 0x9B] @ '' '' @ decimal (unat (rp_version file)))
              else Inr file)))"

definition load_golden ::
  "(string \<Rightarrow> string) \<Rightarrow> (bytes \<Rightarrow> string + TickHash list) \<Rightarrow> file_system \<Rightarrow> string \<Rightarrow> string + TickHash list" where
  "load_golden io_error de_golden fs path =
     (case fs_read fs path of
        None \<Rightarrow> Inl (utf8 [0xE8, 0xAE, 0x80, 0xE5, 0x8F, 0x96] @ '' golden '' @ utf8 [0xE5, 0xA4, 0xB1, 0xE6, 0x95, 0x97, 0xEF, 0xBC, 0x9A] @ io_error path)
      | Some data \<Rightarrow> map_inl (\<lambda>e. ''bincode '' @ utf8 [0xE8, 0xA7, 0xA3, 0xE7, 0xA2, 0xBC] @ '' golden '' @ utf8 [0xE5, 0xA4, 0xB1, 0xE6, 0x95, 0x97, 0xEF, 0xBC, 0x9A] @ e) (de_golden data))"

definition golden_mismatches :: "ReplayFrame list \<Rightarrow> TickHash list \<Rightarrow> (u64 \<times> Blake3Hash \<times> Blake3Hash) list" where
  "golden_mismatches frames golden =
     concat (map (\<lambda>(i, tick, expected).
       let frame_idx = i * 4
       in if frame_idx < length frames \<and> rf_state_hash (frames ! frame_idx) \<noteq> expected
          then [(tick, expected, rf_state_hash (frames ! frame_idx))] else []) (enumerate 0 golden))"

definition pad_left :: "nat \<Rightarrow> string \<Rightarrow> string" where
  "pad_left w s = replicate (w - length s) CHR '' '' @ s"

definition frame_line :: "ReplayFrame \<Rightarrow> string" where
  "frame_line f = ''tick='' @ pad_left 6 (decimal (unat (rf_tick f))) @ '' | inputs='' @ decimal (length (rf_inputs f))
     @ '' | hash='' @ take 16 (hex_of (rf_state_hash f))"

definition golden_report :: "ReplayFrame list \<Rightarrow> TickHash list \<Rightarrow> string list" where
  "golden_report frames golden =
     (let bad = golden_mismatches frames golden
      in map (\<lambda>(tick, expected, actual). ''DESYNC tick='' @ decimal (unat tick) @ '': expected='' @ take 16 (hex_of expected)
           @ '' actual='' @ take 16 (hex_of actual)) bad
         @ [if bad = [] then utf8 [0xE5, 0x85, 0xA8, 0xE9, 0x83, 0xA8, 0xE4, 0xB8, 0x80, 0xE8, 0x87, 0xB4, 0xEF, 0xBC, 0x88] @ decimal (length golden) @ '' '' @ utf8 [0xE7, 0xAD, 0x86] @ '' golden hash'' @ utf8 [0xEF, 0xBC, 0x89]
            else utf8 [0xE7, 0x99, 0xBC, 0xE7, 0x8F, 0xBE] @ '' '' @ decimal (length bad) @ '' '' @ utf8 [0xE7, 0xAD, 0x86] @ '' desync''])"

definition replay_debugger ::
  "(string \<Rightarrow> string) \<Rightarrow> (bytes \<Rightarrow> string + bytes) \<Rightarrow> (bytes \<Rightarrow> string + ReplayFile) \<Rightarrow> (bytes \<Rightarrow> string + TickHash list) \<Rightarrow>
     ReplayDebugger \<Rightarrow> file_system \<Rightarrow> console_line list \<times> exit_status" where
  "replay_debugger io_error gunz de de_golden cli fs =
     (case debugger_load_replay io_error gunz de fs (dbg_input cli) of
        Inl e \<Rightarrow> ([], ExitFailure (utf8 [0xE8, 0xBC, 0x89, 0xE5, 0x85, 0xA5] @ '' replay '' @ utf8 [0xE5, 0xA4, 0xB1, 0xE6, 0x95, 0x97, 0xEF, 0xBC, 0x9A] @ e))
      | Inr replay \<Rightarrow>
          let show_count = min (dbg_head cli) (length (rp_frames replay));
              info = [''=== Replay '' @ utf8 [0xE8, 0xB3, 0x87, 0xE8, 0xA8, 0x8A] @ '' ==='',
                      utf8 [0xE7, 0x89, 0x88, 0xE6, 0x9C, 0xAC, 0xEF, 0xBC, 0x9A] @ decimal (unat (rp_version replay)),
                      ''Session ID'' @ utf8 [0xEF, 0xBC, 0x9A] @ decimal (unat (rp_session_id replay)),
                      ''Seed'' @ utf8 [0xEF, 0xBC, 0x9A] @ decimal (unat (rp_seed replay)),
                      utf8 [0xE7, 0x8E, 0xA9, 0xE5, 0xAE, 0xB6, 0xE6, 0x95, 0xB8, 0xEF, 0xBC, 0x9A] @ decimal (unat (rp_player_count replay)),
                      utf8 [0xE7, 0xB8, 0xBD, 0xE5, 0xB9, 0x80, 0xE6, 0x95, 0xB8, 0xEF, 0xBC, 0x9A] @ decimal (length (rp_frames replay)),
                      '''',
                      ''=== '' @ utf8 [0xE5, 0x89, 0x8D] @ '' '' @ decimal show_count @ '' '' @ utf8 [0xE5, 0xB9, 0x80] @ '' ===''];
              shown = map frame_line (take show_count (rp_frames replay));
              check = (case dbg_golden cli of
                         None \<Rightarrow> []
                       | Some golden_path \<Rightarrow>
                           map Out ['''', ''=== Golden Hash '' @ utf8 [0xE6, 0xAF, 0x94, 0xE5, 0xB0, 0x8D] @ '' ==='']
                           @ (case load_golden io_error de_golden fs golden_path of
                                Inr golden \<Rightarrow> map Out (golden_report (rp_frames replay) golden)
                              | Inl e \<Rightarrow> [Err (utf8 [0xE8, 0xBC, 0x89, 0xE5, 0x85, 0xA5] @ '' golden hash '' @ utf8 [0xE5, 0xA4, 0xB1, 0xE6, 0x95, 0x97, 0xEF, 0xBC, 0x9A] @ e)]))
          in (map Out (info @ shown) @ check, ExitOk))"

lemma ball_enumerate: "(\<forall>p \<in> set (enumerate 0 xs). Q p) \<longleftrightarrow> (\<forall>i < length xs. Q (i, xs ! i))"
proof -
  have "p \<in> set (enumerate 0 xs) \<longleftrightarrow> fst p < length xs \<and> xs ! fst p = snd p" for p by (simp add: in_set_enumerate_eq)
  then show ?thesis by (metis fst_conv snd_conv prod.collapse)
qed

lemma golden_mismatches_exact:
  "golden_mismatches frames golden = [] \<longleftrightarrow>
     (\<forall>i < length golden. i * 4 < length frames \<longrightarrow> rf_state_hash (frames ! (i * 4)) = snd (golden ! i))"
  unfolding golden_mismatches_def Let_def case_prod_unfold concat_messages_Nil ball_enumerate by auto

text \<open>A replay cut short passes the comparison, and the report counts the hashes that were never compared.\<close>

lemma truncated_replay_passes:
  "golden_report [] golden = [utf8 [0xE5, 0x85, 0xA8, 0xE9, 0x83, 0xA8, 0xE4, 0xB8, 0x80, 0xE8, 0x87, 0xB4, 0xEF, 0xBC, 0x88] @ decimal (length golden) @ '' '' @ utf8 [0xE7, 0xAD, 0x86] @ '' golden hash'' @ utf8 [0xEF, 0xBC, 0x89]]"
  using golden_mismatches_exact [of "[]" golden] by (simp add: golden_report_def)

section \<open>The state inspector\<close>

text \<open>A request as the JSON parser gives it: the method if it is a text, and the identifier. The state it reports is a
  constant.\<close>

datatype 'j InspectorResponse =
    StateResponse "'j option"
  | PongResponse "'j option"
  | MethodNotFound "'j option"
  | ParseErrorResponse

definition handle_request :: "(string \<Rightarrow> (string option \<times> 'j option) option) \<Rightarrow> string \<Rightarrow> 'j InspectorResponse" where
  "handle_request from_json request =
     (case from_json request of
        Some (m, request_id) \<Rightarrow>
          let method = (case m of Some t \<Rightarrow> t | None \<Rightarrow> '''')
          in if method = ''get_state'' then StateResponse request_id
             else if method = ''ping'' then PongResponse request_id
             else MethodNotFound request_id
      | None \<Rightarrow> ParseErrorResponse)"

end
