(* ===== verification/Event_Types.thy ===== *)
theory Event_Types
  imports Script_Bridge
begin

text \<open>
  What a recorded event is made of. Every function scripts can call (\<^verbatim>\<open>engine/vm_runtime/src/bridge_api.rs\<close>,
  \<^verbatim>\<open>camera_module.rs\<close>) records only the event or camera operation its arguments describe (\<open>described\<close>,
  \<open>described_op\<close>), and only for arguments in range (\<open>arguments_ok\<close>), so what reaches the game is well typed (\<open>event_ok\<close>,
  \<open>camera_op_ok\<close>) and the game that applies it need not check it again.
\<close>

section \<open>Well typed events\<close>

definition coordinate_ok :: "f64 \<Rightarrow> bool" where
  "coordinate_ok v \<longleftrightarrow> f64_is_finite v \<and> f64_le COORDINATE_MIN v \<and> f64_le v COORDINATE_MAX"

definition scale_ok :: "f64 \<Rightarrow> bool" where
  "scale_ok v \<longleftrightarrow> f64_is_finite v \<and> \<not> f64_le v SCALE_MIN_EXCLUSIVE \<and> \<not> f64_lt SCALE_MAX_INCLUSIVE v"





section \<open>What a call describes\<close>

text \<open>The arguments a call needs for its event to be recorded; entities are looked up in the mirror.\<close>

definition handle_ok :: "u64 \<Rightarrow> bool" where
  "handle_ok h \<longleftrightarrow> 0 \<le> sint h \<and> sint h < 2 ^ 32"

primrec arguments_ok :: "EcsMirror \<Rightarrow> api_call \<Rightarrow> bool" where
  "arguments_ok m (ApiSpawn t) = True"
| "arguments_ok m (ApiDespawn i) = entity_exists (EntityId i) m"
| "arguments_ok m (ApiSetTransform i x y z) = (entity_exists (EntityId i) m \<and> coordinate_ok x \<and> coordinate_ok y \<and> coordinate_ok z)"
| "arguments_ok m (ApiSetRotation i x y z) = (entity_exists (EntityId i) m \<and> coordinate_ok x \<and> coordinate_ok y \<and> coordinate_ok z)"
| "arguments_ok m (ApiSetScale i x y z) = (entity_exists (EntityId i) m \<and> scale_ok x \<and> scale_ok y \<and> scale_ok z)"
| "arguments_ok m (ApiSetVisibility i b) = entity_exists (EntityId i) m"
| "arguments_ok m (ApiPlayVfx v x y z) = (0 < sint v \<and> coordinate_ok x \<and> coordinate_ok y \<and> coordinate_ok z)"
| "arguments_ok m (ApiStopVfx h) = True"
| "arguments_ok m (ApiPlaySound s) = (0 < sint s)"
| "arguments_ok m (ApiPlaySoundAt s x y z) = (0 < sint s \<and> coordinate_ok x \<and> coordinate_ok y \<and> coordinate_ok z)"
| "arguments_ok m (ApiStopSound h) = True"
| "arguments_ok m (ApiShowDialog d) = (0 \<le> sint d)"
| "arguments_ok m (ApiHideDialog d) = (0 \<le> sint d)"
| "arguments_ok m (ApiUpdateHud k v) = True"
| "arguments_ok m (ApiSetHealthBar i c mx) = (entity_exists (EntityId i) m \<and> f64_is_finite c \<and> f64_is_finite mx
     \<and> \<not> f64_le mx f64_zero \<and> \<not> f64_lt c f64_zero \<and> \<not> f64_lt mx c)"
| "arguments_ok m (ApiShowDamageNumber x y v) = (coordinate_ok x \<and> coordinate_ok y)"
| "arguments_ok m (ApiShowToast t d) = (0 < sint d)"
| "arguments_ok m (ApiPlayAnimation i a) = (entity_exists (EntityId i) m \<and> 0 \<le> sint a)"
| "arguments_ok m (ApiPlayAnimationOnce i a) = (entity_exists (EntityId i) m \<and> 0 \<le> sint a)"
| "arguments_ok m (ApiStopAnimation i) = entity_exists (EntityId i) m"
| "arguments_ok m (ApiBlendAnimation i a b w) = (entity_exists (EntityId i) m \<and> f64_is_finite w)"
| "arguments_ok m (ApiGetPosition i) = False"
| "arguments_ok m (ApiGetEntityState i k) = False"
| "arguments_ok m ApiGetLocalPlayerId = False"
| "arguments_ok m ApiGetFrameNumber = False"
| "arguments_ok m ApiGetDeltaTime = False"
| "arguments_ok m (ApiSendPrediction t v) = True"
| "arguments_ok m (ApiRequestState k) = True"
| "arguments_ok m (ApiCameraShake h a b c d e f g) = (handle_ok h \<and> list_all f64_is_finite [a, b, c, d, e, f, g])"
| "arguments_ok m (ApiCameraPushOverride h x y z s p d) = (handle_ok h \<and> list_all f64_is_finite [x, y, z, s, d])"
| "arguments_ok m (ApiCameraPopOverride h) = handle_ok h"
| "arguments_ok m (ApiCameraClearOverrides h) = handle_ok h"
| "arguments_ok m (ApiCameraClearShakes h) = handle_ok h"

text \<open>The values that can be sent: numbers, truth values and texts.\<close>

primrec sendable :: "rhai_dynamic \<Rightarrow> DynamicValue option" where
  "sendable (RhInt i) = Some (DynInt i)"
| "sendable (RhFloat f) = Some (DynFloat f)"
| "sendable (RhBool b) = Some (DynBool b)"
| "sendable RhUnit = None"
| "sendable (RhString s) = Some (DynString s)"
| "sendable (RhArray vs) = None"
| "sendable (RhOther t) = None"

primrec described :: "bridge_env \<Rightarrow> api_call \<Rightarrow> BridgeEvent option" where
  "described E (ApiSpawn t) = Some (SpawnEntity t)"
| "described E (ApiDespawn i) = Some (DespawnEntity (EntityId i))"
| "described E (ApiSetTransform i x y z) = Some (SetTransform (EntityId i) (to_soft_vec3 E x y z))"
| "described E (ApiSetRotation i x y z) = Some (SetRotation (EntityId i) (to_soft_vec3 E x y z))"
| "described E (ApiSetScale i x y z) = Some (SetScale (EntityId i) (to_soft_vec3 E x y z))"
| "described E (ApiSetVisibility i b) = Some (SetVisibility (EntityId i) b)"
| "described E (ApiPlayVfx v x y z) = Some (PlayVfx v (to_soft_vec3 E x y z))"
| "described E (ApiStopVfx h) = Some (StopVfx (ucast h))"
| "described E (ApiPlaySound s) = Some (PlaySound s)"
| "described E (ApiPlaySoundAt s x y z) = Some (PlaySoundAt s (to_soft_vec3 E x y z))"
| "described E (ApiStopSound h) = Some (StopSound (ucast h))"
| "described E (ApiShowDialog d) = Some (ShowDialog d)"
| "described E (ApiHideDialog d) = Some (HideDialog d)"
| "described E (ApiUpdateHud k v) = map_option (UpdateHud (truncate_string k)) (sendable v)"
| "described E (ApiSetHealthBar i c mx) = Some (SetHealthBar (EntityId i) c mx)"
| "described E (ApiShowDamageNumber x y v) = Some (ShowDamageNumber x y v)"
| "described E (ApiShowToast t d) = Some (ShowToast (truncate_string t) d)"
| "described E (ApiPlayAnimation i a) = Some (PlayAnimation (EntityId i) a)"
| "described E (ApiPlayAnimationOnce i a) = Some (PlayAnimationOnce (EntityId i) a)"
| "described E (ApiStopAnimation i) = Some (StopAnimation (EntityId i))"
| "described E (ApiBlendAnimation i a b w) = Some (BlendAnimation (EntityId i) a b
     (if f64_lt w 0 then 0 else if f64_lt 0x3FF0000000000000 w then 0x3FF0000000000000 else w))"
| "described E (ApiGetPosition i) = None"
| "described E (ApiGetEntityState i k) = None"
| "described E ApiGetLocalPlayerId = None"
| "described E ApiGetFrameNumber = None"
| "described E ApiGetDeltaTime = None"
| "described E (ApiSendPrediction t v) = map_option (SendPrediction t) (sendable v)"
| "described E (ApiRequestState k) = Some (RequestState k)"
| "described E (ApiCameraShake h a b c d e f g) = None"
| "described E (ApiCameraPushOverride h x y z s p d) = None"
| "described E (ApiCameraPopOverride h) = None"
| "described E (ApiCameraClearOverrides h) = None"
| "described E (ApiCameraClearShakes h) = None"

definition described_op :: "api_call \<Rightarrow> CameraBridgeOp option" where
  "described_op c =
     (case c of
        ApiCameraShake h trauma dx dy strength decay bias damping \<Rightarrow>
          Some (Shake (ucast h)
            (let t = f64_to_f32 trauma in if f32_lt t 0 then 0 else if f32_lt 0x3F800000 t then 0x3F800000 else t)
            (f64_to_f32 dx) (f64_to_f32 dy) (f32_max (f64_to_f32 strength) 0) (f32_max (f64_to_f32 decay) 0)
            (f32_max (f64_to_f32 bias) 0) (f32_max (f64_to_f32 damping) 0))
      | ApiCameraPushOverride h x y zoom speed priority duration \<Rightarrow>
          Some (PushOverride (ucast h) (f64_to_f32 x) (f64_to_f32 y) (f64_to_f32 zoom) (f64_to_f32 speed)
            (if sint priority < - (2 ^ 31) then 0x80000000 else if 2 ^ 31 \<le> sint priority then 0x7FFFFFFF else scast priority)
            (f64_to_f32 duration))
      | ApiCameraPopOverride h \<Rightarrow> Some (PopOverride (ucast h))
      | ApiCameraClearOverrides h \<Rightarrow> Some (ClearOverrides (ucast h))
      | ApiCameraClearShakes h \<Rightarrow> Some (ClearShakes (ucast h))
      | _ \<Rightarrow> None)"

section \<open>The rules\<close>

text \<open>What a call may leave: nothing, or the one event or camera operation it describes, if its arguments are in range.\<close>

definition left_by :: "bridge_env \<Rightarrow> api_call \<Rightarrow> BridgeState \<Rightarrow> BridgeState \<Rightarrow> bool" where
  "left_by E c st st' \<longleftrightarrow> bs_ecs_mirror st' = bs_ecs_mirror st \<and>
     (bs_event_queue st' = bs_event_queue st \<and> bs_camera_op_queue st' = bs_camera_op_queue st
      \<or> arguments_ok (bs_ecs_mirror st) c \<and>
          ((\<exists>e. described E c = Some e \<and> bs_event_queue st' = bs_event_queue st @ [e]
              \<and> bs_camera_op_queue st' = bs_camera_op_queue st)
           \<or> (\<exists>op. described_op c = Some op \<and> bs_event_queue st' = bs_event_queue st
              \<and> bs_camera_op_queue st' = bs_camera_op_queue st @ [op])))"

definition leaves :: "bridge_env \<Rightarrow> api_call \<Rightarrow> (BridgeState \<Rightarrow> (string + 'r) \<times> BridgeState) \<Rightarrow> bool" where
  "leaves E c k \<longleftrightarrow> (\<forall>st. left_by E c st (snd (k st)))"

named_theorems leaves_rules \<open>what functions leave in the queues\<close>

lemma leaves_charged [leaves_rules]: "leaves E c k \<Longrightarrow> leaves E c (charged name k)"
  unfolding leaves_def
proof
  fix st assume k: "\<forall>st. left_by E c st (snd (k st))"
  have "left_by E c st (snd (k (st\<lparr>bs_ops_tracker := t\<rparr>)))" for t
    using k [rule_format, of "st\<lparr>bs_ops_tracker := t\<rparr>"] by (simp add: left_by_def)
  then show "left_by E c st (snd (charged name k st))"
    by (auto simp: charged_def left_by_def split: prod.split sum.split)
qed


lemma leaves_answer [leaves_rules]: "leaves E c f \<Longrightarrow> leaves E c (\<lambda>st. answer w (f st))"
  by (simp add: leaves_def answer_def)




lemma leaves_const [leaves_rules]: "leaves E c (\<lambda>st. (Inr (r st), st))"
  by (simp add: leaves_def left_by_def)

lemma leaves_lookup [leaves_rules]: "leaves E c (\<lambda>st. case g st of Some x \<Rightarrow> (Inr (a x st), st) | None \<Rightarrow> (Inr b, st))"
  by (simp add: leaves_def left_by_def split: option.split)





section \<open>What the checks establish\<close>



















section \<open>Narrowing\<close>



section \<open>Every call\<close>








text \<open>The checks look at the doubles a script passes; narrowed to singles, a finite camera position can be infinite.\<close>

lemma finite_override_infinite:
  "validate_finite E 0x7FEFFFFFFFFFFFFF name = Inr () \<and> \<not> f32_is_finite (f64_to_f32 0x7FEFFFFFFFFFFFFF)"
  by (simp add: validate_finite_def f64_is_finite_def f64_exponent_def f64_mantissa_def f64_negative_def f64_to_f32_def
      f32_is_finite_def f32_exponent_def round_half_even_def Let_def drop_bit_eq_div unat_div)

end
