(* ===== verification/Camera_Frame.thy ===== *)
theory Camera_Frame
  imports Camera_Motion
begin

text \<open>
  One frame of the cameras (\<^verbatim>\<open>engine/bevy_runtime/src/camera/mod.rs\<close>, with \<open>follow.rs\<close> and \<open>cursor.rs\<close>): the
  eleven systems of the plugin one after the other on a world of entities. A query of Bevy is a projection of the
  entities that have the components it asks for, in the order of the world; what a system computes is written
  back to the entities it came from. The lemmas turn every system into a function of one entity, and follow a
  camera through the frame: that what is rendered lies inside the bounds, that an overridden camera does
  not look at its target, and where offsets stay behind.
\<close>

section \<open>Looking ahead\<close>

record CameraLookAhead =
  la_mouse_weight :: f32
  la_velocity_weight :: f32
  la_max_offset :: f32

definition camera_look_ahead_default :: CameraLookAhead where
  "camera_look_ahead_default = \<lparr>la_mouse_weight = 0x3E99999A, la_velocity_weight = 0x3F000000, la_max_offset = 0x42F00000\<rparr>"

definition DEFAULT_FOLLOW_SPEED :: f32 where "DEFAULT_FOLLOW_SPEED = 0x41000000"

definition camera_zoom_default :: CameraZoom where
  "camera_zoom_default =
     \<lparr>cz_current = DEFAULT_VIEWPORT_HEIGHT, cz_min = 0x43B40000, cz_max = 0x44B40000, cz_scroll_speed = 0x42700000,
      cz_speed = 0x41000000, cz_target = DEFAULT_VIEWPORT_HEIGHT\<rparr>"

definition camera_bounds_default :: CameraBounds where
  "camera_bounds_default = \<lparr>cb_min = (f32_zero, f32_zero), cb_max = (f32_zero, f32_zero), cb_clamp_shake = False\<rparr>"

text \<open>The operators of \<open>Vec2\<close> work on each coordinate; \<open>normalize_or_zero\<close> is a parameter, as \<open>length_squared\<close>.\<close>

definition vec2_add :: "float_env \<Rightarrow> vec2 \<Rightarrow> vec2 \<Rightarrow> vec2" where
  "vec2_add F a b = (fe_add F (fst a) (fst b), fe_add F (snd a) (snd b))"

definition vec2_sub :: "float_env \<Rightarrow> vec2 \<Rightarrow> vec2 \<Rightarrow> vec2" where
  "vec2_sub F a b = (fe_sub F (fst a) (fst b), fe_sub F (snd a) (snd b))"

definition vec2_scale :: "float_env \<Rightarrow> vec2 \<Rightarrow> f32 \<Rightarrow> vec2" where
  "vec2_scale F a k = (fe_mul F (fst a) k, fe_mul F (snd a) k)"

record frame_env =
  fr_shake :: shake_env
  fr_normalize_or_zero :: "vec2 \<Rightarrow> vec2"

abbreviation fr_float :: "frame_env \<Rightarrow> float_env" where
  "fr_float K \<equiv> sk_float (fr_shake K)"

text \<open>The camera, the position the target had in the last frame, and whether an override is in force.\<close>

definition stack_active :: "CameraOverrideStack option \<Rightarrow> bool" where
  "stack_active s = (case s of Some s \<Rightarrow> os_entries s \<noteq> [] | None \<Rightarrow> False)"

definition look_ahead_offset :: "frame_env \<Rightarrow> vec2 option \<Rightarrow> vec2 \<Rightarrow> CameraLookAhead \<Rightarrow> vec2 option \<Rightarrow> vec2" where
  "look_ahead_offset K cursor_world target_pos look_ahead prev =
     (let F = fr_float K;
          velocity = vec2_sub F target_pos (case prev of Some p \<Rightarrow> p | None \<Rightarrow> target_pos);
          mouse = vec2_sub F (case cursor_world of Some p \<Rightarrow> p | None \<Rightarrow> target_pos) target_pos;
          offset = vec2_add F (vec2_scale F velocity (la_velocity_weight look_ahead)) (vec2_scale F mouse (la_mouse_weight look_ahead))
      in if f32_lt (fe_mul F (la_max_offset look_ahead) (la_max_offset look_ahead)) (sk_length_squared (fr_shake K) offset)
         then vec2_scale F (fr_normalize_or_zero K offset) (la_max_offset look_ahead)
         else offset)"

definition camera_look_ahead_one ::
  "frame_env \<Rightarrow> vec2 option \<Rightarrow> vec2 \<Rightarrow> CameraLookAhead \<times> vec2 option \<times> vec3 \<times> CameraOverrideStack option \<Rightarrow> vec3" where
  "camera_look_ahead_one K cursor_world target_pos c = (case c of (look_ahead, prev, (x, y, z), override_stack) \<Rightarrow>
     if stack_active override_stack then (x, y, z)
     else (let offset = look_ahead_offset K cursor_world target_pos look_ahead prev
           in (fe_add (fr_float K) x (fst offset), fe_add (fr_float K) y (snd offset), z)))"

definition camera_look_ahead_system ::
  "frame_env \<Rightarrow> vec2 option \<Rightarrow> vec2 list \<Rightarrow> (CameraLookAhead \<times> vec2 option \<times> vec3 \<times> CameraOverrideStack option) list \<Rightarrow> vec3 list" where
  "camera_look_ahead_system K cursor_world targets query = (case targets of
       [] \<Rightarrow> map (\<lambda>(_, _, t, _). t) query
     | target_pos # _ \<Rightarrow> map (camera_look_ahead_one K cursor_world target_pos) query)"

definition update_previous_target_system :: "vec2 list \<Rightarrow> vec2 option list \<Rightarrow> vec2 option list" where
  "update_previous_target_system targets query = (case targets of
       [] \<Rightarrow> query
     | target_pos # _ \<Rightarrow> map (\<lambda>_. Some target_pos) query)"

section \<open>The cursor\<close>

text \<open>The window (\<open>None\<close> unless there is exactly one primary window) with its cursor, and the cameras with what
  \<open>viewport_to_world_2d\<close> answers for each.\<close>

definition viewport_to_world :: "('v \<Rightarrow> vec2 \<Rightarrow> 'e + vec2) \<Rightarrow> 'v \<Rightarrow> vec2 \<Rightarrow> vec2 option" where
  "viewport_to_world to_2d view viewport_pos = (case to_2d view viewport_pos of Inr p \<Rightarrow> Some p | Inl _ \<Rightarrow> None)"

definition cursor_position_system :: "('v \<Rightarrow> vec2 \<Rightarrow> 'e + vec2) \<Rightarrow> vec2 option option \<Rightarrow> 'v list \<Rightarrow> vec2 option" where
  "cursor_position_system to_2d window cameras = (case window of
       None \<Rightarrow> None
     | Some None \<Rightarrow> None
     | Some (Some cursor_pos) \<Rightarrow> (case cameras of
           [] \<Rightarrow> None
         | view # _ \<Rightarrow> viewport_to_world to_2d view cursor_pos))"

section \<open>The world and its queries\<close>

record ('e, 'v) entity =
  en_id :: 'e
  en_is_target :: bool
  en_translation :: vec3
  en_follow :: "f32 option"
  en_look_ahead :: "CameraLookAhead option"
  en_previous :: "vec2 option option"
  en_overrides :: "CameraOverrideStack option"
  en_zoom :: "CameraZoom option"
  en_projection :: "Projection option"
  en_bounds :: "CameraBounds option"
  en_shake :: "CameraShake option"
  en_view :: "'v option" \<comment> \<open>\<open>Camera\<close> with \<open>GlobalTransform\<close>\<close>

text \<open>Running a query: the answers of the entities that match it, and the results written back in the same order.\<close>

definition query :: "('c \<Rightarrow> 'a option) \<Rightarrow> 'c list \<Rightarrow> 'a list" where
  "query get world = List.map_filter get world"

primrec write_back :: "('c \<Rightarrow> 'a option) \<Rightarrow> ('b \<Rightarrow> 'c \<Rightarrow> 'c) \<Rightarrow> 'c list \<Rightarrow> 'b list \<Rightarrow> 'c list" where
  "write_back get put [] results = []"
| "write_back get put (c # world) results = (case get c of
       None \<Rightarrow> c # write_back get put world results
     | Some _ \<Rightarrow> put (hd results) c # write_back get put world (tl results))"

definition target_query :: "('e, 'v) entity list \<Rightarrow> vec2 list" where
  "target_query world = map (\<lambda>c. case en_translation c of (x, y, z) \<Rightarrow> (x, y)) (filter en_is_target world)"

definition override_query :: "('e, 'v) entity \<Rightarrow> ('e \<times> CameraOverrideStack) option" where
  "override_query c = map_option (Pair (en_id c)) (en_overrides c)"

definition shake_query :: "('e, 'v) entity \<Rightarrow> ('e \<times> CameraShake) option" where
  "shake_query c = map_option (Pair (en_id c)) (en_shake c)"

definition follow_query :: "('e, 'v) entity \<Rightarrow> (f32 \<times> vec3 \<times> CameraOverrideStack option) option" where
  "follow_query c = (if en_is_target c then None else map_option (\<lambda>speed. (speed, en_translation c, en_overrides c)) (en_follow c))"

definition look_ahead_query ::
  "('e, 'v) entity \<Rightarrow> (CameraLookAhead \<times> vec2 option \<times> vec3 \<times> CameraOverrideStack option) option" where
  "look_ahead_query c = (case (en_look_ahead c, en_previous c) of
       (Some l, Some p) \<Rightarrow> if en_follow c \<noteq> None \<and> \<not> en_is_target c then Some (l, p, en_translation c, en_overrides c) else None
     | _ \<Rightarrow> None)"

definition override_apply_query :: "('e, 'v) entity \<Rightarrow> (CameraOverrideStack \<times> vec3 \<times> CameraZoom option) option" where
  "override_apply_query c = map_option (\<lambda>s. (s, en_translation c, en_zoom c)) (en_overrides c)"

definition zoom_query :: "('e, 'v) entity \<Rightarrow> (CameraZoom \<times> Projection) option" where
  "zoom_query c = (case (en_zoom c, en_projection c) of (Some z, Some p) \<Rightarrow> Some (z, p) | _ \<Rightarrow> None)"

definition bounds_query :: "('e, 'v) entity \<Rightarrow> (CameraBounds \<times> vec3 \<times> Projection) option" where
  "bounds_query c = (case (en_bounds c, en_projection c) of (Some b, Some p) \<Rightarrow> Some (b, en_translation c, p) | _ \<Rightarrow> None)"

definition shake_apply_query :: "('e, 'v) entity \<Rightarrow> shake_camera option" where
  "shake_apply_query c = map_option (\<lambda>s. \<lparr>sc_shake = s, sc_translation = en_translation c, sc_zoom = en_zoom c,
     sc_bounds = en_bounds c, sc_projection = en_projection c\<rparr>) (en_shake c)"

definition cursor_query :: "('e, 'v) entity \<Rightarrow> 'v option" where
  "cursor_query c = (if en_follow c \<noteq> None then en_view c else None)"

section \<open>The frame\<close>

definition camera_bounds_system :: "float_env \<Rightarrow> (CameraBounds \<times> vec3 \<times> Projection) list \<Rightarrow> vec3 list option" where
  "camera_bounds_system F q = those (map (camera_bounds_one F) q)"

definition shake_apply_system :: "shake_env \<Rightarrow> f32 \<Rightarrow> shake_camera list \<Rightarrow> shake_camera list option" where
  "shake_apply_system K delta_secs q = those (map (shake_apply_one K (capped_dt delta_secs)) q)"

record ('e, 'v) camera_world =
  cw_entities :: "('e, 'v) entity list"
  cw_seeds :: u64
  cw_cursor :: "vec2 option"

record 'e frame_input =
  fi_delta_secs :: f32
  fi_overrides :: "'e CameraOverrideRequest list"
  fi_shakes :: "'e CameraShakeRequest list"
  fi_wheel :: "f32 list"
  fi_window :: "vec2 option option"

text \<open>The systems up to and including the override, which cannot panic.\<close>

definition handle_events ::
  "frame_env \<Rightarrow> 'e frame_input \<Rightarrow> ('e, 'v) camera_world \<Rightarrow> ('e, 'v) camera_world" where
  "handle_events K inp w =
     (let world = cw_entities w;
          world = write_back override_query (\<lambda>r. en_overrides_update (\<lambda>_. Some (snd r))) world
            (override_event_handler_system (fi_overrides inp) (query override_query world));
          (counter, shakes) = shake_event_handler_system (fr_shake K) (fi_shakes inp) (cw_seeds w, query shake_query world);
          world = write_back shake_query (\<lambda>r. en_shake_update (\<lambda>_. Some (snd r))) world shakes;
          world = write_back en_overrides (\<lambda>s. en_overrides_update (\<lambda>_. Some s)) world
            (override_stack_tick_system (fr_float K) (fi_delta_secs inp) (query en_overrides world))
      in w\<lparr>cw_entities := world, cw_seeds := counter\<rparr>)"

definition move_cameras :: "frame_env \<Rightarrow> 'e frame_input \<Rightarrow> vec2 option \<Rightarrow> ('e, 'v) entity list \<Rightarrow> ('e, 'v) entity list" where
  "move_cameras K inp cursor world =
     (let dt = fi_delta_secs inp;
          world = write_back follow_query (\<lambda>t. en_translation_update (\<lambda>_. t)) world
            (camera_follow_system (fr_float K) dt (target_query world) (query follow_query world));
          world = write_back look_ahead_query (\<lambda>t. en_translation_update (\<lambda>_. t)) world
            (camera_look_ahead_system K cursor (target_query world) (query look_ahead_query world));
          world = write_back en_previous (\<lambda>p. en_previous_update (\<lambda>_. Some p)) world
            (update_previous_target_system (target_query world) (query en_previous world))
      in write_back override_apply_query (\<lambda>(_, t, z). en_translation_update (\<lambda>_. t) \<circ> en_zoom_update (\<lambda>_. z)) world
           (override_apply_system (fr_float K) dt (query override_apply_query world)))"

definition finish_cameras :: "frame_env \<Rightarrow> 'e frame_input \<Rightarrow> ('e, 'v) entity list \<Rightarrow> ('e, 'v) entity list option" where
  "finish_cameras K inp world =
     (let dt = fi_delta_secs inp in
      case camera_zoom_system (fr_float K) dt (fi_wheel inp) (query zoom_query world) of
        None \<Rightarrow> None
      | Some zooms \<Rightarrow>
          (let world = write_back zoom_query (\<lambda>(z, p). en_zoom_update (\<lambda>_. Some z) \<circ> en_projection_update (\<lambda>_. Some p)) world zooms
           in case camera_bounds_system (fr_float K) (query bounds_query world) of
                None \<Rightarrow> None
              | Some ts \<Rightarrow>
                  (let world = write_back bounds_query (\<lambda>t. en_translation_update (\<lambda>_. t)) world ts
                   in map_option (write_back shake_apply_query
                        (\<lambda>c. en_shake_update (\<lambda>_. Some (sc_shake c)) \<circ> en_translation_update (\<lambda>_. sc_translation c)) world)
                      (shake_apply_system (fr_shake K) dt (query shake_apply_query world)))))"

definition camera_frame ::
  "frame_env \<Rightarrow> ('v \<Rightarrow> vec2 \<Rightarrow> 'x + vec2) \<Rightarrow> 'e frame_input \<Rightarrow> ('e, 'v) camera_world \<Rightarrow> ('e, 'v) camera_world option" where
  "camera_frame K to_2d inp w =
     (let w = handle_events K inp w
      in map_option (\<lambda>world. w\<lparr>cw_entities := world,
             cw_cursor := cursor_position_system to_2d (fi_window inp) (query cursor_query world)\<rparr>)
           (finish_cameras K inp (move_cameras K inp (cw_cursor w) (cw_entities w))))"

section \<open>A frame as a function of each entity\<close>

lemma write_back_map:
  "write_back get st world (map g (query get world)) = map (\<lambda>c. case get c of None \<Rightarrow> c | Some a \<Rightarrow> st (g a) c) world"
  by (induction world) (simp_all add: query_def map_filter_simps split: option.split)

lemma those_Some: "those xs = Some ys \<longleftrightarrow> xs = map Some ys"
  by (induction xs arbitrary: ys) (auto split: option.split)

lemma write_back_those:
  "map_option (write_back get st world) (those (map g (query get world)))
     = those (map (\<lambda>c. case get c of None \<Rightarrow> Some c | Some a \<Rightarrow> map_option (\<lambda>r. st r c) (g a)) world)"
proof (induction world)
  case (Cons c world)
  show ?case
  proof (cases "get c")
    case None
    then have "query get (c # world) = query get world" by (simp add: query_def map_filter_simps)
    with None show ?thesis by (simp add: Cons.IH [symmetric] option.map_comp comp_def)
  next
    case (Some a)
    then have "query get (c # world) = a # query get world" by (simp add: query_def map_filter_simps)
    with Some show ?thesis by (cases "g a") (simp_all add: Cons.IH [symmetric] option.map_comp comp_def)
  qed
qed (simp add: query_def)

lemma those_bind:
  "(case those (map f xs) of None \<Rightarrow> None | Some ys \<Rightarrow> those (map g ys))
     = those (map (\<lambda>x. case f x of None \<Rightarrow> None | Some y \<Rightarrow> g y) xs)"
proof (induction xs)
  case (Cons x xs)
  show ?case
  proof (cases "f x")
    case (Some y)
    then show ?thesis
      using Cons.IH by (cases "those (map f xs)"; cases "g y") auto
  qed simp
qed simp

lemma those_member: "those (map f xs) = Some ys \<Longrightarrow> y \<in> set ys \<Longrightarrow> \<exists>x \<in> set xs. f x = Some y"
  by (force simp: those_Some list_eq_iff_nth_eq in_set_conv_nth)

lemma zoom_all_those: "zoom_all F dt d q = those (map (camera_zoom_one F dt d) q)"
  by (induction q) (simp_all split: option.split)

definition zoom_entity :: "frame_env \<Rightarrow> 'e frame_input \<Rightarrow> ('e, 'v) entity \<Rightarrow> ('e, 'v) entity option" where
  "zoom_entity K inp c = (case zoom_query c of
       None \<Rightarrow> Some c
     | Some a \<Rightarrow> map_option (\<lambda>(z, p). c\<lparr>en_projection := Some p, en_zoom := Some z\<rparr>)
         (camera_zoom_one (fr_float K) (capped_dt (fi_delta_secs inp)) (foldl (fe_add (fr_float K)) f32_zero (fi_wheel inp)) a))"

definition bound_entity :: "frame_env \<Rightarrow> ('e, 'v) entity \<Rightarrow> ('e, 'v) entity option" where
  "bound_entity K c = (case bounds_query c of
       None \<Rightarrow> Some c
     | Some a \<Rightarrow> map_option (\<lambda>t. c\<lparr>en_translation := t\<rparr>) (camera_bounds_one (fr_float K) a))"

definition shake_entity :: "frame_env \<Rightarrow> 'e frame_input \<Rightarrow> ('e, 'v) entity \<Rightarrow> ('e, 'v) entity option" where
  "shake_entity K inp c = (case shake_apply_query c of
       None \<Rightarrow> Some c
     | Some a \<Rightarrow> map_option (\<lambda>r. c\<lparr>en_translation := sc_translation r, en_shake := Some (sc_shake r)\<rparr>)
         (shake_apply_one (fr_shake K) (capped_dt (fi_delta_secs inp)) a))"

definition finish_entity :: "frame_env \<Rightarrow> 'e frame_input \<Rightarrow> ('e, 'v) entity \<Rightarrow> ('e, 'v) entity option" where
  "finish_entity K inp c = (case zoom_entity K inp c of
       None \<Rightarrow> None
     | Some c \<Rightarrow> (case bound_entity K c of None \<Rightarrow> None | Some c \<Rightarrow> shake_entity K inp c))"

lemma finish_pointwise:
  fixes world :: "('e, 'v) entity list"
  shows "finish_cameras K inp world = those (map (finish_entity K inp) world)"
proof -
  let ?F = "fr_float K" and ?dt = "fi_delta_secs inp"
  let ?zset = "\<lambda>(z, p). en_zoom_update (\<lambda>_. Some z) \<circ> en_projection_update (\<lambda>_. Some p)"
  let ?bset = "\<lambda>t. en_translation_update (\<lambda>_. t)"
  let ?sset = "\<lambda>c. en_shake_update (\<lambda>_. Some (sc_shake c)) \<circ> en_translation_update (\<lambda>_. sc_translation c)"
  have zoom: "map_option (write_back zoom_query ?zset w) (camera_zoom_system ?F ?dt (fi_wheel inp) (query zoom_query w))
      = those (map (zoom_entity K inp) w)" for w :: "('e, 'v) entity list"
    unfolding camera_zoom_system_def zoom_all_those write_back_those
    by (intro arg_cong [where f = those] map_cong refl) (simp add: zoom_entity_def case_prod_unfold comp_def split: option.split)
  have bounds: "map_option (write_back bounds_query ?bset w) (camera_bounds_system ?F (query bounds_query w))
      = those (map (bound_entity K) w)" for w :: "('e, 'v) entity list"
    by (simp add: camera_bounds_system_def write_back_those bound_entity_def [abs_def] comp_def)
  have shake: "map_option (write_back shake_apply_query ?sset w) (shake_apply_system (fr_shake K) ?dt (query shake_apply_query w))
      = those (map (shake_entity K inp) w)" for w :: "('e, 'v) entity list"
    by (simp add: shake_apply_system_def write_back_those shake_entity_def [abs_def] comp_def)
  have "finish_cameras K inp world
      = (case those (map (zoom_entity K inp) world) of None \<Rightarrow> None
         | Some w \<Rightarrow> (case those (map (bound_entity K) w) of None \<Rightarrow> None | Some w \<Rightarrow> those (map (shake_entity K inp) w)))"
    unfolding finish_cameras_def Let_def shake
    by (simp only: zoom [symmetric] bounds [symmetric] case_map_option comp_def)
  also have "\<dots> = those (map (finish_entity K inp) world)"
    unfolding those_bind finish_entity_def by (rule refl)
  finally show ?thesis .
qed

definition follow_entity :: "frame_env \<Rightarrow> 'e frame_input \<Rightarrow> vec2 \<Rightarrow> ('e, 'v) entity \<Rightarrow> ('e, 'v) entity" where
  "follow_entity K inp p c = (case follow_query c of
       None \<Rightarrow> c
     | Some a \<Rightarrow> c\<lparr>en_translation := camera_follow_one (fr_float K) (capped_dt (fi_delta_secs inp)) p a\<rparr>)"

definition look_entity :: "frame_env \<Rightarrow> vec2 option \<Rightarrow> vec2 \<Rightarrow> ('e, 'v) entity \<Rightarrow> ('e, 'v) entity" where
  "look_entity K cursor p c = (case look_ahead_query c of
       None \<Rightarrow> c
     | Some a \<Rightarrow> c\<lparr>en_translation := camera_look_ahead_one K cursor p a\<rparr>)"

definition previous_entity :: "vec2 \<Rightarrow> ('e, 'v) entity \<Rightarrow> ('e, 'v) entity" where
  "previous_entity p c = (case en_previous c of None \<Rightarrow> c | Some _ \<Rightarrow> c\<lparr>en_previous := Some (Some p)\<rparr>)"

definition override_entity :: "frame_env \<Rightarrow> 'e frame_input \<Rightarrow> ('e, 'v) entity \<Rightarrow> ('e, 'v) entity" where
  "override_entity K inp c = (case override_apply_query c of
       None \<Rightarrow> c
     | Some a \<Rightarrow> (case override_apply_one (fr_float K) (capped_dt (fi_delta_secs inp)) a of
         (_, t, z) \<Rightarrow> c\<lparr>en_translation := t, en_zoom := z\<rparr>))"

definition move_entity :: "frame_env \<Rightarrow> 'e frame_input \<Rightarrow> vec2 option \<Rightarrow> vec2 list \<Rightarrow> ('e, 'v) entity \<Rightarrow> ('e, 'v) entity" where
  "move_entity K inp cursor targets c = (case targets of
       [] \<Rightarrow> override_entity K inp c
     | p # _ \<Rightarrow> override_entity K inp (previous_entity p (look_entity K cursor p (follow_entity K inp p c))))"

lemma write_back_same:
  assumes "\<And>c a. get c = Some a \<Longrightarrow> put (g a) c = c"
  shows "write_back get put world (map g (query get world)) = world"
  using assms by (induction world) (simp_all add: query_def map_filter_simps split: option.split)

text \<open>Following and looking ahead leave the targets where they are, so all systems see the same ones.\<close>

lemma target_query_map:
  assumes "\<And>c. en_is_target (f c) = en_is_target c" "\<And>c. en_is_target c \<Longrightarrow> en_translation (f c) = en_translation c"
  shows "target_query (map f world) = target_query world"
  using assms by (induction world) (simp_all add: target_query_def)

lemma follow_target [simp]: "target_query (map (follow_entity K inp p) world) = target_query world"
  by (rule target_query_map) (simp_all add: follow_entity_def follow_query_def split: option.split)

lemma look_target [simp]: "target_query (map (look_entity K cursor p) world) = target_query world"
  by (rule target_query_map) (simp_all add: look_entity_def look_ahead_query_def split: option.split)

lemma override_pointwise:
  "write_back override_apply_query (\<lambda>(_, t, z). en_translation_update (\<lambda>_. t) \<circ> en_zoom_update (\<lambda>_. z)) world
     (override_apply_system (fr_float K) (fi_delta_secs inp) (query override_apply_query world)) = map (override_entity K inp) world"
  unfolding override_apply_system_def write_back_map
  by (intro map_cong refl) (simp add: override_entity_def case_prod_unfold split: option.split)

lemma move_pointwise:
  fixes world :: "('e, 'v) entity list"
  shows "move_cameras K inp cursor world = map (move_entity K inp cursor (target_query world)) world"
proof (cases "target_query world")
  case Nil
  have "write_back follow_query (\<lambda>t. en_translation_update (\<lambda>_. t)) world (map (\<lambda>(_, t, _). t) (query follow_query world)) = world"
    by (rule write_back_same) (auto simp: follow_query_def split: if_splits)
  moreover have "write_back look_ahead_query (\<lambda>t. en_translation_update (\<lambda>_. t)) world
      (map (\<lambda>(_, _, t, _). t) (query look_ahead_query world)) = world"
    by (rule write_back_same) (auto simp: look_ahead_query_def split: if_splits option.splits)
  moreover have "write_back en_previous (\<lambda>p. en_previous_update (\<lambda>_. Some p)) world (map (\<lambda>p. p) (query en_previous world)) = world"
    by (rule write_back_same) simp
  ultimately show ?thesis
    using Nil override_pointwise [of world K inp]
    by (simp add: move_cameras_def Let_def camera_follow_system_def camera_look_ahead_system_def
        update_previous_target_system_def move_entity_def)
next
  case (Cons p ps)
  have f: "write_back follow_query (\<lambda>t. en_translation_update (\<lambda>_. t)) w
      (map (camera_follow_one (fr_float K) (capped_dt (fi_delta_secs inp)) p) (query follow_query w)) = map (follow_entity K inp p) w"
    for w :: "('e, 'v) entity list"
    unfolding write_back_map by (intro map_cong refl) (simp add: follow_entity_def)
  have l: "write_back look_ahead_query (\<lambda>t. en_translation_update (\<lambda>_. t)) w
      (map (camera_look_ahead_one K cursor p) (query look_ahead_query w)) = map (look_entity K cursor p) w"
    for w :: "('e, 'v) entity list"
    unfolding write_back_map by (intro map_cong refl) (simp add: look_entity_def)
  have q: "write_back en_previous (\<lambda>p. en_previous_update (\<lambda>_. Some p)) w (map (\<lambda>_. Some p) (query en_previous w))
      = map (previous_entity p) w" for w :: "('e, 'v) entity list"
    unfolding write_back_map by (intro map_cong refl) (simp add: previous_entity_def)
  show ?thesis
    by (simp only: move_cameras_def Let_def camera_follow_system_def camera_look_ahead_system_def
        update_previous_target_system_def Cons list.case f follow_target l look_target q override_pointwise)
      (simp add: move_entity_def)
qed

lemma frame_pointwise:
  "camera_frame K to_2d inp w =
     (let w = handle_events K inp w
      in map_option (\<lambda>world. w\<lparr>cw_entities := world,
             cw_cursor := cursor_position_system to_2d (fi_window inp) (query cursor_query world)\<rparr>)
           (those (map (finish_entity K inp \<circ> move_entity K inp (cw_cursor w) (target_query (cw_entities w))) (cw_entities w))))"
  by (simp add: camera_frame_def Let_def finish_pointwise move_pointwise)

section \<open>Bounds\<close>

definition axis_within :: "float_env \<Rightarrow> f32 \<Rightarrow> f32 \<Rightarrow> f32 \<Rightarrow> f32 \<Rightarrow> bool" where
  "axis_within F lo hi half v \<longleftrightarrow>
     (if f32_le (fe_sub F hi lo) (fe_mul F half F32_TWO) then v = fe_div F (fe_add F lo hi) F32_TWO
      else f32_le (fe_add F lo half) v \<and> f32_le v (fe_sub F hi half))"

text \<open>Both coordinates are numbers.\<close>

definition number_xy :: "vec3 \<Rightarrow> bool" where
  "number_xy t \<longleftrightarrow> \<not> f32_is_nan (fst t) \<and> \<not> f32_is_nan (fst (snd t))"

definition within_bounds :: "float_env \<Rightarrow> CameraBounds \<Rightarrow> Projection \<Rightarrow> vec3 \<Rightarrow> bool" where
  "within_bounds F b p t \<longleftrightarrow>
     (let (half_w, half_h) = viewport_half_size F p
      in axis_within F (fst (cb_min b)) (fst (cb_max b)) half_w (fst t)
         \<and> axis_within F (snd (cb_min b)) (snd (cb_max b)) half_h (fst (snd t)))"

definition bounds_ordered :: "CameraBounds \<Rightarrow> bool" where
  "bounds_ordered b \<longleftrightarrow> f32_le (fst (cb_min b)) (fst (cb_max b)) \<and> f32_le (snd (cb_min b)) (snd (cb_max b))"

lemma clamp_axis_within:
  assumes "clamp_axis F lo hi half v = Some v'" "\<not> f32_is_nan v'"
  shows "axis_within F lo hi half v'"
proof (cases "f32_le (fe_sub F hi lo) (fe_mul F half F32_TWO)")
  case False
  then show ?thesis
    using assms clamp_axis_range [OF assms(1)]
    by (cases "f32_is_nan v") (auto simp: axis_within_def clamp_axis_def f32_clamp_checked_def f32_clamp_def f32_lt_def split: if_splits)
qed (use assms in \<open>simp add: axis_within_def clamp_axis_def\<close>)

lemma clamp_within:
  "clamp_to_bounds F b (viewport_half_size F p) t = Some t' \<Longrightarrow> number_xy t' \<Longrightarrow> within_bounds F b p t'"
  by (auto simp: clamp_to_bounds_def within_bounds_def number_xy_def split_beta dest: clamp_axis_within split: option.splits)

lemma zoom_entity_keeps:
  "zoom_entity K inp c = Some c' \<Longrightarrow> en_bounds c' = en_bounds c \<and> en_shake c' = en_shake c"
  by (auto simp: zoom_entity_def split: option.splits)

lemma bound_entity_within:
  assumes "bound_entity K c = Some c'"
  shows "en_bounds c' = en_bounds c \<and> en_shake c' = en_shake c \<and> en_projection c' = en_projection c \<and> en_zoom c' = en_zoom c"
    "en_bounds c = Some b \<Longrightarrow> en_projection c = Some p \<Longrightarrow> bounds_ordered b \<Longrightarrow> number_xy (en_translation c')
      \<Longrightarrow> within_bounds (fr_float K) b p (en_translation c')"
proof -
  show "en_bounds c' = en_bounds c \<and> en_shake c' = en_shake c \<and> en_projection c' = en_projection c \<and> en_zoom c' = en_zoom c"
    using assms by (auto simp: bound_entity_def split: option.splits)
  assume *: "en_bounds c = Some b" "en_projection c = Some p" "bounds_ordered b" "number_xy (en_translation c')"
  then have "clamp_to_bounds (fr_float K) b (viewport_half_size (fr_float K) p) (en_translation c) = Some (en_translation c')"
    using assms by (auto simp: bound_entity_def bounds_query_def camera_bounds_one_def bounds_ordered_def f32_lt_def f32_le_def)
  then show "within_bounds (fr_float K) b p (en_translation c')" using *(4) by (rule clamp_within)
qed

lemma shake_entity_within:
  assumes "shake_entity K inp c = Some c'"
  shows "en_bounds c' = en_bounds c \<and> en_projection c' = en_projection c \<and> en_zoom c' = en_zoom c
      \<and> (en_shake c' = None \<longleftrightarrow> en_shake c = None) \<and> (en_shake c = None \<longrightarrow> c' = c)"
    "en_shake c \<noteq> None \<Longrightarrow> en_bounds c = Some b \<Longrightarrow> en_projection c = Some p \<Longrightarrow> bounds_ordered b \<Longrightarrow> cb_clamp_shake b \<Longrightarrow> number_xy (en_translation c')
      \<Longrightarrow> within_bounds (fr_float K) b p (en_translation c')"
  using assms
  by (auto simp: shake_entity_def shake_apply_query_def shake_apply_one_def Let_def split_beta bounds_ordered_def
      dest: clamp_within split: option.splits)

lemma finish_entity_within:
  assumes "finish_entity K inp c = Some c'" "en_bounds c' = Some b" "en_projection c' = Some p"
    "bounds_ordered b" "en_shake c' = None \<or> cb_clamp_shake b" "number_xy (en_translation c')"
  shows "within_bounds (fr_float K) b p (en_translation c')"
proof -
  obtain c1 c2 where c1: "zoom_entity K inp c = Some c1" and c2: "bound_entity K c1 = Some c2"
    and c': "shake_entity K inp c2 = Some c'"
    using assms(1) by (auto simp: finish_entity_def split: option.splits)
  note shaken = shake_entity_within(1) [OF c'] and bounded = bound_entity_within(1) [OF c2]
  show ?thesis
  proof (cases "en_shake c2 = None")
    case True
    then show ?thesis
      using shaken bounded bound_entity_within(2) [OF c2, of b p] assms(2-4,6) by auto
  next
    case False
    then show ?thesis
      using shaken bounded shake_entity_within(2) [OF c', of b p] assms(2-6) by auto
  qed
qed

section \<open>Who moves a camera\<close>

lemma active_follow: "stack_active (en_overrides c) \<Longrightarrow> follow_entity K inp p c = c"
  by (auto simp: follow_entity_def follow_query_def camera_follow_one_def stack_active_def split: option.splits)

lemma active_look: "stack_active (en_overrides c) \<Longrightarrow> look_entity K cursor p c = c"
  by (auto simp: look_entity_def look_ahead_query_def camera_look_ahead_one_def split: option.splits if_splits)

text \<open>While an override is in force, neither the target nor the cursor has a say in where the camera is.\<close>

lemma overridden_camera_ignores_target:
  assumes "en_overrides c = Some s" "override_top s = Some entry" "en_translation c = (x, y, z)"
  shows "en_translation (move_entity K inp cursor targets c) =
     (case fe_lerp2 (fr_float K) (x, y) (ov_target_position entry)
         (decay_factor (fr_float K) (ov_speed entry) (capped_dt (fi_delta_secs inp))) of (x', y') \<Rightarrow> (x', y', z))"
proof -
  have active: "stack_active (en_overrides c)"
    using assms(1,2) by (auto simp: stack_active_def override_top_def)
  have moved: "en_translation (override_entity K inp d) =
     (case fe_lerp2 (fr_float K) (x, y) (ov_target_position entry)
         (decay_factor (fr_float K) (ov_speed entry) (capped_dt (fi_delta_secs inp))) of (x', y') \<Rightarrow> (x', y', z))"
    if "en_overrides d = Some s" "en_translation d = (x, y, z)" for d :: "('a, 'b) entity"
    using that assms(2)
    by (simp add: override_entity_def override_apply_query_def override_apply_one_def Let_def split_beta)
  show ?thesis
  proof (cases targets)
    case (Cons p ps)
    have "en_overrides (previous_entity p c) = Some s" "en_translation (previous_entity p c) = (x, y, z)"
      using assms by (simp_all add: previous_entity_def split: option.split)
    with moved Cons active show ?thesis by (simp add: move_entity_def active_follow active_look)
  qed (simp add: move_entity_def moved assms)
qed

text \<open>The offset of a shake stays in the translation: a camera that nothing else moves starts the next frame from the
  place the shake left it.\<close>

lemma shake_offset_stays:
  assumes "en_shake c = Some s" "en_zoom c = None" "en_bounds c = None" "en_translation c = (x, y, z)"
  shows "\<exists>c' s'. finish_entity K inp c = Some c' \<and> en_shake c' = Some s' \<and>
     en_translation c' = (fe_add (fr_float K) x (fst (cs_last_applied_offset s')),
       fe_add (fr_float K) y (snd (cs_last_applied_offset s')), z)"
  using assms
  by (simp add: finish_entity_def zoom_entity_def zoom_query_def bound_entity_def bounds_query_def shake_entity_def
      shake_apply_query_def shake_apply_one_def Let_def split_beta)

text \<open>Looking ahead adds its offset to wherever the camera is. In a frame in which following moves nothing, such as one of a
  paused game, whose time step is zero, the camera drifts by the whole offset, frame after frame.\<close>

lemma look_ahead_drifts:
  assumes still: "\<And>a. fe_lerp2 (fr_float K) a p (decay_factor (fr_float K) speed (capped_dt (fi_delta_secs inp))) = a"
    and c: "\<not> en_is_target c" "en_follow c = Some speed" "en_look_ahead c = Some l" "en_previous c = Some prev" "en_overrides c = None"
      "en_translation c = (x, y, z)"
  shows "en_translation (move_entity K inp cursor (p # ps) c) =
     (fe_add (fr_float K) x (fst (look_ahead_offset K cursor p l prev)), fe_add (fr_float K) y (snd (look_ahead_offset K cursor p l prev)), z)"
  using c
  by (simp add: move_entity_def follow_entity_def follow_query_def camera_follow_one_def still look_entity_def
      look_ahead_query_def camera_look_ahead_one_def stack_active_def previous_entity_def override_entity_def
      override_apply_query_def Let_def split: option.split)

section \<open>Properties\<close>

text \<open>C26: After a frame that does not panic, every camera with ordered bounds whose coordinates are numbers (not NaN) is inside
  its bounds for the projection the frame ends with, whatever events, wheel, target, cursor, zoom and overrides did to it,
  provided it has no shake or its bounds clamp its shakes (which they do not by default): each coordinate is in the middle
  where the view is wider than the bounds, and at least half a view away from both edges otherwise. The arithmetic is
  arbitrary.\<close>
theorem camera_frame_in_bounds:
  assumes "camera_frame K to_2d inp w = Some w'" "c \<in> set (cw_entities w')"
    and "en_bounds c = Some b" "en_projection c = Some p" "bounds_ordered b" "en_shake c = None \<or> cb_clamp_shake b"
    and "number_xy (en_translation c)"
  shows "within_bounds (sk_float (fr_shake K)) b p (en_translation c)"
proof -
  obtain d where "finish_entity K inp d = Some c"
    using assms(1,2) by (auto simp: frame_pointwise Let_def dest: those_member)
  then show ?thesis using finish_entity_within assms(3-7) by blast
qed

definition toy_frame_env :: frame_env where
  "toy_frame_env = \<lparr>fr_shake = \<lparr>sk_float = \<lparr>fe_add = (+), fe_sub = (-), fe_mul = (*), fe_div = (div), fe_exp = id,
       fe_lerp2 = (\<lambda>a b t. b)\<rparr>, sk_square = id, sk_length_squared = (\<lambda>_. 0), sk_noise = (\<lambda>_ _. (0, 0)),
       sk_scale = (\<lambda>a _. a), sk_bias = (\<lambda>a _ _ _. a), sk_add2 = (\<lambda>a _. a)\<rparr>, fr_normalize_or_zero = id\<rparr>"

definition toy_bounds :: CameraBounds where
  "toy_bounds = \<lparr>cb_min = (0, 0), cb_max = (0x40000000, 0x40000000), cb_clamp_shake = False\<rparr>"

definition toy_camera :: "(nat, unit) entity" where
  "toy_camera = \<lparr>en_id = 1, en_is_target = False, en_translation = (0, 0, 0), en_follow = Some 0x3F800000,
     en_look_ahead = None, en_previous = Some None, en_overrides = None, en_zoom = None, en_projection = Some Perspective,
     en_bounds = Some toy_bounds, en_shake = None, en_view = None\<rparr>"

definition toy_target :: "(nat, unit) entity" where
  "toy_target = \<lparr>en_id = 2, en_is_target = True, en_translation = (0x40800000, 0x3F800000, 0), en_follow = None,
     en_look_ahead = None, en_previous = None, en_overrides = None, en_zoom = None, en_projection = None,
     en_bounds = None, en_shake = None, en_view = None\<rparr>"

definition toy_world :: "(nat, unit) camera_world" where
  "toy_world = \<lparr>cw_entities = [toy_camera, toy_target], cw_seeds = 0, cw_cursor = None\<rparr>"

definition toy_input :: "nat frame_input" where
  "toy_input = \<lparr>fi_delta_secs = 0, fi_overrides = [], fi_shakes = [], fi_wheel = [], fi_window = None\<rparr>"

text \<open>The camera follows its target out of the bounds and is brought back to their edge.\<close>

lemmas f32_eval = f32_lt_def f32_le_def f32_key_def f32_is_nan_def f32_exponent_def drop_bit_eq_div unat_div

lemma toy_events: "handle_events toy_frame_env toy_input toy_world = toy_world"
  by (simp add: handle_events_def toy_world_def toy_input_def toy_camera_def toy_target_def query_def map_filter_simps
      override_query_def shake_query_def shake_event_handler_system_def override_event_handler_system_def
      override_stack_tick_system_def)

lemma toy_moved: "move_entity toy_frame_env toy_input None (target_query (cw_entities toy_world)) toy_camera
    = toy_camera\<lparr>en_translation := (0x40800000, 0x3F800000, 0), en_previous := Some (Some (0x40800000, 0x3F800000))\<rparr>"
  "move_entity toy_frame_env toy_input None (target_query (cw_entities toy_world)) toy_target = toy_target"
  by (simp_all add: move_entity_def target_query_def toy_world_def toy_camera_def toy_target_def follow_entity_def follow_query_def
      camera_follow_one_def look_entity_def look_ahead_query_def previous_entity_def override_entity_def
      override_apply_query_def toy_frame_env_def Let_def)

lemma toy_finished: "finish_entity toy_frame_env toy_input
     (toy_camera\<lparr>en_translation := (0x40800000, 0x3F800000, 0), en_previous := Some (Some (0x40800000, 0x3F800000))\<rparr>)
    = Some (toy_camera\<lparr>en_translation := (0x40000000, 0x3F800000, 0), en_previous := Some (Some (0x40800000, 0x3F800000))\<rparr>)"
  "finish_entity toy_frame_env toy_input toy_target = Some toy_target"
  by (simp_all add: finish_entity_def zoom_entity_def zoom_query_def bound_entity_def bounds_query_def shake_entity_def
      shake_apply_query_def toy_camera_def toy_target_def toy_bounds_def toy_frame_env_def camera_bounds_one_def
      clamp_to_bounds_def clamp_axis_def f32_clamp_checked_def f32_clamp_def viewport_half_size_def f32_zero_def F32_TWO_def
      f32_eval)

lemma toy_frame:
  "map_option cw_entities (camera_frame toy_frame_env (\<lambda>_ p. (Inr p :: unit + vec2)) toy_input toy_world)
     = Some [toy_camera\<lparr>en_translation := (0x40000000, 0x3F800000, 0), en_previous := Some (Some (0x40800000, 0x3F800000))\<rparr>, toy_target]"
proof -
  have "cw_entities toy_world = [toy_camera, toy_target]" "cw_cursor toy_world = None" by (simp_all add: toy_world_def)
  then show ?thesis
    using toy_moved toy_finished by (simp add: frame_pointwise toy_events Let_def)
qed

theorem camera_frame_in_bounds_witness:
  "within_bounds (sk_float (fr_shake toy_frame_env)) toy_bounds Perspective (0x40000000, 0x3F800000, 0)"
proof -
  obtain w' where w': "camera_frame toy_frame_env (\<lambda>_ p. (Inr p :: unit + vec2)) toy_input toy_world = Some w'"
    and cs: "cw_entities w' = [toy_camera\<lparr>en_translation := (0x40000000, 0x3F800000, 0),
      en_previous := Some (Some (0x40800000, 0x3F800000))\<rparr>, toy_target]"
    using toy_frame by (auto simp: map_option_eq_Some)
  have "bounds_ordered toy_bounds" by (simp add: bounds_ordered_def toy_bounds_def f32_eval)
  then show ?thesis
    using camera_frame_in_bounds [OF w', of "toy_camera\<lparr>en_translation := (0x40000000, 0x3F800000, 0),
      en_previous := Some (Some (0x40800000, 0x3F800000))\<rparr>" toy_bounds Perspective] cs
    by (simp add: toy_camera_def number_xy_def f32_eval)
qed

end
