(* ===== verification/Shadow_Channel.thy ===== *)
theory Shadow_Channel
  imports Shadow_VM
begin

text \<open>
  The two ends of the shadow VM: the client on the main thread (\<^verbatim>\<open>engine/shadow_vm/src/client.rs\<close>), the worker script
  that queues messages until its module is loaded and then hands them to the handlers (\<^verbatim>\<open>client/js/shadow_worker.js\<close>),
  and the synchronous stand-in without a worker (\<^verbatim>\<open>in_process.rs\<close>). The browser and the serialiser are parameters. The
  property is the claim of \<^verbatim>\<open>in_process.rs\<close>, that the stand-in answers as the worker does.
\<close>

section \<open>The client\<close>

record ('w, 'j) browser =
  br_new_worker :: "string \<Rightarrow> 'j + 'w"
  br_post_message :: "'w \<Rightarrow> bytes \<Rightarrow> 'j + 'w"
  br_debug :: "'j \<Rightarrow> string"

record 'e client_codec =
  cc_ser_init :: "ShadowInit \<Rightarrow> 'e + bytes"
  cc_ser_request :: "ShadowRequest \<Rightarrow> 'e + bytes"
  cc_de_response :: "bytes \<Rightarrow> 'e + ShadowResponse"
  cc_display :: "'e \<Rightarrow> string"

definition shadow_client_new ::
  "(bytes \<Rightarrow> Blake3Hash) \<Rightarrow> ('w, 'j) browser \<Rightarrow> 'e client_codec \<Rightarrow> string \<Rightarrow> bytes \<Rightarrow> ShadowVmError + 'w" where
  "shadow_client_new blake3 B c worker_url bytecode =
     (case br_new_worker B worker_url of
        Inl e \<Rightarrow> Inl (EngineInitFailed (''Worker '' @ utf8 [0xE5, 0xBB, 0xBA, 0xE7, 0xAB, 0x8B, 0xE5, 0xA4, 0xB1, 0xE6, 0x95, 0x97, 0xEF, 0xBC, 0x9A] @ br_debug B e))
      | Inr worker \<Rightarrow>
          (case cc_ser_init c \<lparr>si_bytecode = bytecode, si_bytecode_hash = blake3 bytecode\<rparr> of
             Inl e \<Rightarrow> Inl (ShadowSerializationFailed (cc_display c e))
           | Inr bytes \<Rightarrow>
               (case br_post_message B worker bytes of
                  Inl e \<Rightarrow> Inl (EngineInitFailed (''ShadowInit postMessage '' @ utf8 [0xE5, 0xA4, 0xB1, 0xE6, 0x95, 0x97, 0xEF, 0xBC, 0x9A] @ br_debug B e))
                | Inr worker \<Rightarrow> Inr worker)))"

definition send_request ::
  "('w, 'j) browser \<Rightarrow> 'e client_codec \<Rightarrow> ShadowRequest \<Rightarrow> 'w \<Rightarrow> ShadowVmError + 'w" where
  "send_request B c request worker =
     (case cc_ser_request c request of
        Inl e \<Rightarrow> Inl (ShadowSerializationFailed (cc_display c e))
      | Inr bytes \<Rightarrow>
          (case br_post_message B worker bytes of
             Inl e \<Rightarrow> Inl (CommunicationFailed (''ShadowRequest postMessage '' @ utf8 [0xE5, 0xA4, 0xB1, 0xE6, 0x95, 0x97, 0xEF, 0xBC, 0x9A] @ br_debug B e))
           | Inr worker \<Rightarrow> Inr worker))"

definition on_shadow_message :: "'e client_codec \<Rightarrow> bytes \<Rightarrow> ShadowVmError + ShadowResponse option" where
  "on_shadow_message c data =
     (case cc_de_response c data of
        Inl e \<Rightarrow> Inl (ShadowDeserializationFailed (cc_display c e))
      | Inr response \<Rightarrow> Inr (Some response))"

primrec send_requests ::
  "('w, 'j) browser \<Rightarrow> 'e client_codec \<Rightarrow> ShadowRequest list \<Rightarrow> 'w \<Rightarrow> ShadowVmError + 'w" where
  "send_requests B c [] worker = Inr worker"
| "send_requests B c (r # rs) worker = (case send_request B c r worker of
       Inl e \<Rightarrow> Inl e
     | Inr worker \<Rightarrow> send_requests B c rs worker)"

section \<open>The worker script\<close>

record 'ast js_worker =
  jw_ready :: bool
  jw_first :: bool
  jw_pending :: "bytes list"
  jw_slot :: "'ast WorkerSlot"

definition js_worker_start :: "'ast js_worker" where
  "js_worker_start = \<lparr>jw_ready = False, jw_first = True, jw_pending = [], jw_slot = Uninitialized\<rparr>"

definition js_dispatch ::
  "(bytes \<Rightarrow> Blake3Hash) \<Rightarrow> 'ast script_engine \<Rightarrow> 'e worker_codec \<Rightarrow> bytes \<Rightarrow> 'ast js_worker \<Rightarrow> (panic + bytes) \<times> 'ast js_worker" where
  "js_dispatch blake3 engine c data w =
     (if jw_first w
      then let (out, slot) = handle_init blake3 engine c data (jw_slot w) in (out, w\<lparr>jw_first := False, jw_slot := slot\<rparr>)
      else (handle_message blake3 c data (jw_slot w), w))"

definition js_on_message ::
  "(bytes \<Rightarrow> Blake3Hash) \<Rightarrow> 'ast script_engine \<Rightarrow> 'e worker_codec \<Rightarrow> bytes \<Rightarrow> 'ast js_worker
     \<Rightarrow> (panic + bytes) list \<times> 'ast js_worker" where
  "js_on_message blake3 engine c data w =
     (if \<not> jw_ready w then ([], w\<lparr>jw_pending := jw_pending w @ [data]\<rparr>)
      else let (out, w) = js_dispatch blake3 engine c data w in ([out], w))"

text \<open>The module is loaded: the messages that waited are handled; a panic ends the loop before the queue is emptied.\<close>

primrec js_drain ::
  "(bytes \<Rightarrow> Blake3Hash) \<Rightarrow> 'ast script_engine \<Rightarrow> 'e worker_codec \<Rightarrow> bytes list \<Rightarrow> 'ast js_worker
     \<Rightarrow> (panic + bytes) list \<times> 'ast js_worker" where
  "js_drain blake3 engine c [] w = ([], w\<lparr>jw_pending := []\<rparr>)"
| "js_drain blake3 engine c (data # rest) w =
     (let (out, w) = js_dispatch blake3 engine c data w
      in case out of
           Inl p \<Rightarrow> ([Inl p], w)
         | Inr b \<Rightarrow> (let (outs, w) = js_drain blake3 engine c rest w in (Inr b # outs, w)))"

definition js_on_ready ::
  "(bytes \<Rightarrow> Blake3Hash) \<Rightarrow> 'ast script_engine \<Rightarrow> 'e worker_codec \<Rightarrow> 'ast js_worker \<Rightarrow> (panic + bytes) list \<times> 'ast js_worker" where
  "js_on_ready blake3 engine c w = js_drain blake3 engine c (jw_pending w) (w\<lparr>jw_ready := True\<rparr>)"

datatype worker_event = Arrives bytes | ModuleLoaded

primrec run_worker ::
  "(bytes \<Rightarrow> Blake3Hash) \<Rightarrow> 'ast script_engine \<Rightarrow> 'e worker_codec \<Rightarrow> worker_event list \<Rightarrow> 'ast js_worker
     \<Rightarrow> (panic + bytes) list \<times> 'ast js_worker" where
  "run_worker blake3 engine c [] w = ([], w)"
| "run_worker blake3 engine c (ev # evs) w =
     (let (outs, w) = (case ev of Arrives data \<Rightarrow> js_on_message blake3 engine c data w | ModuleLoaded \<Rightarrow> js_on_ready blake3 engine c w);
          (rest, w) = run_worker blake3 engine c evs w
      in (outs @ rest, w))"

section \<open>The stand-in\<close>

definition in_process_new :: "'ast script_engine \<Rightarrow> string \<Rightarrow> ShadowVmError + 'ast ShadowExecutor" where
  "in_process_new engine script = executor_new engine script"

definition in_process_validate ::
  "(bytes \<Rightarrow> Blake3Hash) \<Rightarrow> 'ast ShadowExecutor \<Rightarrow> ShadowRequest \<Rightarrow> ShadowVmError + ShadowResponse" where
  "in_process_validate blake3 vm request = validate_sync blake3 vm request"

text \<open>A worker has no way to answer an error but as a response that says so.\<close>

definition as_response :: "ShadowVmError + ShadowResponse \<Rightarrow> ShadowResponse" where
  "as_response r = (case r of Inr r \<Rightarrow> r | Inl e \<Rightarrow> \<lparr>sr_status = Error (display_shadow_error e), sr_checked_ticks = []\<rparr>)"

section \<open>Lemmas\<close>

text \<open>However long the module takes to load, the messages are handled as if it had been there from the start.\<close>

primrec dispatch_all ::
  "(bytes \<Rightarrow> Blake3Hash) \<Rightarrow> 'ast script_engine \<Rightarrow> 'e worker_codec \<Rightarrow> bytes list \<Rightarrow> 'ast js_worker \<Rightarrow> (panic + bytes) list" where
  "dispatch_all blake3 engine c [] w = []"
| "dispatch_all blake3 engine c (data # rest) w =
     (let (out, w) = js_dispatch blake3 engine c data w in out # dispatch_all blake3 engine c rest w)"

lemma waiting_messages:
  "\<not> jw_ready w \<Longrightarrow> run_worker blake3 engine c (map Arrives xs @ evs) w
     = run_worker blake3 engine c evs (w\<lparr>jw_pending := jw_pending w @ xs\<rparr>)"
  by (induction xs arbitrary: w) (simp_all add: js_on_message_def)

lemma dispatch_ready [simp]: "jw_ready (snd (js_dispatch blake3 engine c data w)) = jw_ready w"
  by (simp add: js_dispatch_def split_beta)

lemma ready_messages:
  "jw_ready w \<Longrightarrow> fst (run_worker blake3 engine c (map Arrives ys) w) = dispatch_all blake3 engine c ys w"
  by (induction ys arbitrary: w) (simp_all add: js_on_message_def split_beta)

lemma dispatch_all_pending: "dispatch_all blake3 engine c xs (w\<lparr>jw_pending := ps\<rparr>) = dispatch_all blake3 engine c xs w"
proof (induction xs arbitrary: w)
  case (Cons x xs)
  have "js_dispatch blake3 engine c x (w\<lparr>jw_pending := ps\<rparr>)
      = (fst (js_dispatch blake3 engine c x w), (snd (js_dispatch blake3 engine c x w))\<lparr>jw_pending := ps\<rparr>)"
    by (simp add: js_dispatch_def split_beta)
  with Cons show ?case by (simp add: split_beta)
qed simp

lemma dispatch_all_ready: "dispatch_all blake3 engine c xs (w\<lparr>jw_ready := r\<rparr>) = dispatch_all blake3 engine c xs w"
proof (induction xs arbitrary: w)
  case (Cons x xs)
  have "js_dispatch blake3 engine c x (w\<lparr>jw_ready := r\<rparr>)
      = (fst (js_dispatch blake3 engine c x w), (snd (js_dispatch blake3 engine c x w))\<lparr>jw_ready := r\<rparr>)"
    by (simp add: js_dispatch_def split_beta)
  with Cons show ?case by (simp add: split_beta)
qed simp

lemma dispatch_all_append:
  assumes "\<forall>out \<in> set (dispatch_all blake3 engine c xs w). \<not> isl out"
  shows "dispatch_all blake3 engine c (xs @ ys) w
    = fst (js_drain blake3 engine c xs w) @ dispatch_all blake3 engine c ys (snd (js_drain blake3 engine c xs w))
    \<and> jw_ready (snd (js_drain blake3 engine c xs w)) = jw_ready w"
  using assms
proof (induction xs arbitrary: w)
  case (Cons x xs)
  obtain out w' where out: "js_dispatch blake3 engine c x w = (out, w')" by fastforce
  then obtain b where "out = Inr b" using Cons.prems by (cases out) auto
  then show ?case using out Cons.IH [of w'] Cons.prems dispatch_ready [of blake3 engine c x w] by (simp add: split_beta)
qed (simp add: dispatch_all_pending)

lemma load_time_irrelevant:
  assumes "\<forall>out \<in> set (dispatch_all blake3 engine c xs js_worker_start). \<not> isl out"
  shows "fst (run_worker blake3 engine c (map Arrives xs @ ModuleLoaded # map Arrives ys) js_worker_start)
    = dispatch_all blake3 engine c (xs @ ys) js_worker_start"
proof -
  let ?w = "js_worker_start\<lparr>jw_pending := xs, jw_ready := True\<rparr>"
  have same: "dispatch_all blake3 engine c zs ?w = dispatch_all blake3 engine c zs js_worker_start" for zs
    by (simp only: dispatch_all_ready dispatch_all_pending)
  have "fst (run_worker blake3 engine c (map Arrives xs @ ModuleLoaded # map Arrives ys) js_worker_start)
      = fst (js_drain blake3 engine c xs ?w) @ fst (run_worker blake3 engine c (map Arrives ys) (snd (js_drain blake3 engine c xs ?w)))"
    by (simp add: waiting_messages js_worker_start_def js_on_ready_def split_beta)
  also have "\<dots> = dispatch_all blake3 engine c (xs @ ys) ?w"
    using dispatch_all_append [of blake3 engine c xs ?w ys] assms same by (simp add: ready_messages)
  finally show ?thesis using same by simp
qed

text \<open>What the serialiser and the browser are relied on for: what is serialised is read back, the acknowledgement can be
  serialised, and a message that is posted arrives after those before it.\<close>

definition codecs_agree :: "'e client_codec \<Rightarrow> 'e worker_codec \<Rightarrow> bool" where
  "codecs_agree cc c \<longleftrightarrow>
     (\<forall>i b. cc_ser_init cc i = Inr b \<longrightarrow> wc_de_init c b = Inr i) \<and>
     (\<forall>r b. cc_ser_request cc r = Inr b \<longrightarrow> wc_de_request c b = Inr r) \<and>
     (\<forall>r b. wc_ser_response c r = Inr b \<longrightarrow> cc_de_response cc b = Inr r) \<and>
     (\<exists>ack. wc_ser_ack c = Inr ack)"

definition delivers_in_order :: "('w, 'j) browser \<Rightarrow> ('w \<Rightarrow> bytes list) \<Rightarrow> bool" where
  "delivers_in_order B inbox \<longleftrightarrow>
     (\<forall>url w. br_new_worker B url = Inr w \<longrightarrow> inbox w = []) \<and>
     (\<forall>w b w'. br_post_message B w b = Inr w' \<longrightarrow> inbox w' = inbox w @ [b])"

lemma client_new_inbox:
  assumes "delivers_in_order B inbox" "shadow_client_new blake3 B cc url bytecode = Inr w"
  shows "\<exists>b. inbox w = [b] \<and> cc_ser_init cc \<lparr>si_bytecode = bytecode, si_bytecode_hash = blake3 bytecode\<rparr> = Inr b"
  using assms by (auto simp: delivers_in_order_def shadow_client_new_def split: sum.splits)

lemma send_requests_inbox:
  assumes "delivers_in_order B inbox" "send_requests B cc rs w = Inr w'"
  shows "\<exists>bs. inbox w' = inbox w @ bs \<and> map (cc_ser_request cc) rs = map Inr bs"
  using assms(2)
proof (induction rs arbitrary: w)
  case (Cons r rs)
  then obtain w1 where w1: "send_request B cc r w = Inr w1" "send_requests B cc rs w1 = Inr w'"
    by (auto split: sum.splits)
  then obtain b where "cc_ser_request cc r = Inr b" "inbox w1 = inbox w @ [b]"
    using assms(1) by (auto simp: send_request_def delivers_in_order_def split: sum.splits)
  moreover obtain bs where "inbox w' = inbox w1 @ bs" "map (cc_ser_request cc) rs = map Inr bs"
    using Cons.IH [OF w1(2)] by blast
  ultimately show ?case by (intro exI [of _ "b # bs"]) simp
qed simp

lemma init_dispatch:
  assumes "wc_de_init c b = Inr \<lparr>si_bytecode = bytecode, si_bytecode_hash = blake3 bytecode\<rparr>"
    and "from_utf8 bytecode = Some script" "in_process_new engine script = Inr vm" "wc_ser_ack c = Inr ack"
  shows "js_dispatch blake3 engine c b js_worker_start = (Inr ack, js_worker_start\<lparr>jw_first := False, jw_slot := ReadyWorker vm\<rparr>)"
  using assms by (simp add: js_dispatch_def js_worker_start_def handle_init_def in_process_new_def post_init_ack_def)

lemma request_dispatch:
  assumes "wc_de_request c b = Inr r" "wc_ser_response c (as_response (in_process_validate blake3 vm r)) = Inr out"
    and "\<not> jw_first w" "jw_slot w = ReadyWorker vm"
  shows "js_dispatch blake3 engine c b w = (Inr out, w)"
  using assms by (auto simp: js_dispatch_def handle_message_def in_process_validate_def as_response_def Let_def split: sum.splits)

lemma requests_dispatched:
  assumes "codecs_agree cc c" "map (cc_ser_request cc) rs = map Inr bs"
    and "\<forall>r \<in> set rs. \<exists>out. wc_ser_response c (as_response (in_process_validate blake3 vm r)) = Inr out"
    and "\<not> jw_first w" "jw_slot w = ReadyWorker vm"
  shows "\<exists>outs. dispatch_all blake3 engine c bs w = map Inr outs \<and>
    map (on_shadow_message cc) outs = map (\<lambda>r. Inr (Some (as_response (in_process_validate blake3 vm r)))) rs"
  using assms(2,3)
proof (induction rs arbitrary: bs)
  case (Cons r rs)
  then obtain b bs' where bs: "bs = b # bs'" "cc_ser_request cc r = Inr b" "map (cc_ser_request cc) rs = map Inr bs'"
    by (cases bs) auto
  obtain out where out: "wc_ser_response c (as_response (in_process_validate blake3 vm r)) = Inr out"
    using Cons.prems(2) by auto
  have step: "js_dispatch blake3 engine c b w = (Inr out, w)"
    using assms(1) bs(2) out assms(4,5) by (intro request_dispatch) (auto simp: codecs_agree_def)
  have "on_shadow_message cc out = Inr (Some (as_response (in_process_validate blake3 vm r)))"
    using assms(1) out by (auto simp: on_shadow_message_def codecs_agree_def split: sum.splits)
  moreover obtain outs where "dispatch_all blake3 engine c bs' w = map Inr outs"
    "map (on_shadow_message cc) outs = map (\<lambda>r. Inr (Some (as_response (in_process_validate blake3 vm r)))) rs"
    using Cons.IH [OF bs(3)] Cons.prems(2) by auto
  ultimately show ?case using step bs(1) by (intro exI [of _ "out # outs"]) simp
qed simp

lemma dispatch_all_prefix:
  "set (dispatch_all blake3 engine c xs w) \<subseteq> set (dispatch_all blake3 engine c (xs @ ys) w)"
proof (induction xs arbitrary: w)
  case (Cons x xs)
  then show ?case by (auto simp: split_beta)
qed simp

text \<open>C24: the stand-in is equivalent to the worker: if a client is created on a script the stand-in accepts, and sends requests,
  then, whenever during the arrival of the messages the worker's module finishes loading, the worker acknowledges and its
  replies, as the client reads them, are one for each request and in order what the stand-in answers to it, an error being a
  response with its text.\<close>
theorem shadow_session_exact:
  assumes "codecs_agree cc c" "delivers_in_order B inbox"
    and "shadow_client_new blake3 B cc url bytecode = Inr w" "send_requests B cc rs w = Inr w'" "inbox w' = xs @ ys"
    and "from_utf8 bytecode = Some script" "in_process_new engine script = Inr vm"
    and "\<forall>r \<in> set rs. \<exists>out. wc_ser_response c (as_response (in_process_validate blake3 vm r)) = Inr out"
  shows "\<exists>ack outs. fst (run_worker blake3 engine c (map Arrives xs @ ModuleLoaded # map Arrives ys) js_worker_start) = Inr ack # map Inr outs \<and>
    map (on_shadow_message cc) outs = map (\<lambda>r. Inr (Some (as_response (in_process_validate blake3 vm r)))) rs"
proof -
  obtain b where b: "inbox w = [b]" "cc_ser_init cc \<lparr>si_bytecode = bytecode, si_bytecode_hash = blake3 bytecode\<rparr> = Inr b"
    using client_new_inbox [OF assms(2,3)] by blast
  obtain bs where bs: "xs @ ys = b # bs" "map (cc_ser_request cc) rs = map Inr bs"
    using send_requests_inbox [OF assms(2,4)] assms(5) b(1) by auto
  obtain ack where "wc_ser_ack c = Inr ack" using assms(1) by (auto simp: codecs_agree_def)
  then have init: "js_dispatch blake3 engine c b js_worker_start
      = (Inr ack, js_worker_start\<lparr>jw_first := False, jw_slot := ReadyWorker vm\<rparr>)"
    using assms(1,6,7) b(2) by (intro init_dispatch) (auto simp: codecs_agree_def)
  obtain outs where outs: "dispatch_all blake3 engine c (xs @ ys) js_worker_start = Inr ack # map Inr outs"
    "map (on_shadow_message cc) outs = map (\<lambda>r. Inr (Some (as_response (in_process_validate blake3 vm r)))) rs"
    using requests_dispatched [OF assms(1) bs(2) assms(8), of "js_worker_start\<lparr>jw_first := False, jw_slot := ReadyWorker vm\<rparr>" engine]
      init bs(1) by auto
  have "set (dispatch_all blake3 engine c xs js_worker_start) \<subseteq> set (dispatch_all blake3 engine c (xs @ ys) js_worker_start)"
    by (rule dispatch_all_prefix)
  then have "\<forall>out \<in> set (dispatch_all blake3 engine c xs js_worker_start). \<not> isl out" using outs(1) by auto
  then show ?thesis using outs load_time_irrelevant by metis
qed

definition toy_client_codec :: "unit client_codec" where
  "toy_client_codec = \<lparr>cc_ser_init = (\<lambda>i. if i = \<lparr>si_bytecode = [], si_bytecode_hash = []\<rparr> then Inr [7] else Inl ()),
     cc_ser_request = (\<lambda>r. if sq_frames r = [] then Inr [8] else Inl ()),
     cc_de_response = (\<lambda>b. if b = [9] then Inr \<lparr>sr_status = AllMatch, sr_checked_ticks = []\<rparr> else Inl ()),
     cc_display = (\<lambda>_. '''')\<rparr>"

definition toy_worker_codec :: "unit worker_codec" where
  "toy_worker_codec = \<lparr>wc_de_init = (\<lambda>b. Inr \<lparr>si_bytecode = [], si_bytecode_hash = []\<rparr>),
     wc_de_request = (\<lambda>b. Inr \<lparr>sq_frames = []\<rparr>), wc_ser_ack = Inr [],
     wc_ser_response = (\<lambda>r. if r = \<lparr>sr_status = AllMatch, sr_checked_ticks = []\<rparr> then Inr [9] else Inl ())\<rparr>"

definition toy_browser :: "(bytes list, unit) browser" where
  "toy_browser = \<lparr>br_new_worker = (\<lambda>_. Inr []), br_post_message = (\<lambda>w b. Inr (w @ [b])), br_debug = (\<lambda>_. '''')\<rparr>"

definition toy_shadow_engine :: "unit script_engine" where
  "toy_shadow_engine = \<lparr>eng_execute = (\<lambda>_. Inr ()), eng_compile = (\<lambda>_. Inr ()), eng_on_tick = (\<lambda>_ s. Inr s)\<rparr>"

text \<open>Two requests, the module loaded between their arrivals.\<close>

theorem shadow_session_exact_witness:
  "\<exists>ack outs. fst (run_worker (\<lambda>_. []) toy_shadow_engine toy_worker_codec
      (map Arrives [[7], [8]] @ ModuleLoaded # map Arrives [[8]]) js_worker_start) = Inr ack # map Inr outs \<and>
    map (on_shadow_message toy_client_codec) outs
      = [Inr (Some \<lparr>sr_status = AllMatch, sr_checked_ticks = []\<rparr>), Inr (Some \<lparr>sr_status = AllMatch, sr_checked_ticks = []\<rparr>)]"
proof -
  let ?vm = "\<lparr>ex_engine = toy_shadow_engine, ex_ast = ()\<rparr>"
  have answer: "as_response (in_process_validate (\<lambda>_. []) ?vm \<lparr>sq_frames = []\<rparr>) = \<lparr>sr_status = AllMatch, sr_checked_ticks = []\<rparr>"
    by (simp add: as_response_def in_process_validate_def validate_sync_def)
  have "codecs_agree toy_client_codec toy_worker_codec"
    by (auto simp: codecs_agree_def toy_client_codec_def toy_worker_codec_def split: if_splits)
  moreover have "delivers_in_order toy_browser id" by (simp add: delivers_in_order_def toy_browser_def)
  moreover have "shadow_client_new (\<lambda>_. []) toy_browser toy_client_codec ''w'' [] = Inr [[7]]"
    by (simp add: shadow_client_new_def toy_browser_def toy_client_codec_def)
  moreover have "send_requests toy_browser toy_client_codec [\<lparr>sq_frames = []\<rparr>, \<lparr>sq_frames = []\<rparr>] [[7]] = Inr [[7], [8], [8]]"
    by (simp add: send_request_def toy_browser_def toy_client_codec_def)
  moreover have "from_utf8 [] = Some ''''" by (simp add: from_utf8_def)
  moreover have "in_process_new toy_shadow_engine '''' = Inr ?vm"
    by (simp add: in_process_new_def executor_new_def toy_shadow_engine_def)
  moreover have "\<forall>r \<in> set [\<lparr>sq_frames = []\<rparr>, \<lparr>sq_frames = []\<rparr>].
      \<exists>out. wc_ser_response toy_worker_codec (as_response (in_process_validate (\<lambda>_. []) ?vm r)) = Inr out"
    by (simp add: answer toy_worker_codec_def)
  ultimately show ?thesis
    using shadow_session_exact [of toy_client_codec toy_worker_codec toy_browser id "\<lambda>_. []" "''w''" "[]" "[[7]]"
        "[\<lparr>sq_frames = []\<rparr>, \<lparr>sq_frames = []\<rparr>]" "[[7], [8], [8]]" "[[7], [8]]" "[[8]]" "''''" toy_shadow_engine ?vm]
    by (simp add: answer)
qed

end
