(* ===== verification/Frame_Loop.thy ===== *)
theory Frame_Loop
  imports Interpolation Gesture
begin

text \<open>
  The frame of the game as \<open>GamePlugin\<close> schedules it (\<^verbatim>\<open>engine/bevy_runtime/src\<close>: \<open>lib.rs\<close>, \<open>fixed_update.rs\<close>,
  \<open>input/mod.rs\<close>, the systems of \<open>frame_orchestrator.rs\<close>): input is captured, the fixed tick runs as often as the
  elapsed time asks for, transforms are interpolated. The fixed clock is Bevy's and a parameter; what is relied on is
  that accumulated time is spent one time step at a time. The property counts the ticks.
\<close>

section \<open>One fixed tick\<close>

record 'q game_world =
  gw_input :: input_world
  gw_recognizers :: "GestureRecognizer list"
  gw_gestures :: "GestureEvent list"
  gw_moving :: "'q moving list"
  gw_in_game :: bool

text \<open>
  The six sets in their order: \<open>ProcessInputs\<close>, where transforms are saved before the counter is incremented and input is
  distributed during the game; \<open>RecognizeGestures\<close>; and the others, whose systems are placeholders here (what the
  bridge runs in them is modelled apart).
\<close>

definition tick_process_inputs :: "input_setup \<Rightarrow> bool \<Rightarrow> 'q game_world \<Rightarrow> 'q game_world" where
  "tick_process_inputs G in_game w =
     (let w = w\<lparr>gw_moving := map save_previous_transform (gw_moving w)\<rparr>
      in if in_game then w\<lparr>gw_input := process_inputs G (gw_input w)\<rparr>
         else w\<lparr>gw_input := (gw_input w)\<lparr>iw_tick := increment_tick_counter (iw_tick (gw_input w))\<rparr>\<rparr>)"

definition tick_recognize_gestures :: "input_setup \<Rightarrow> bool \<Rightarrow> 'q game_world \<Rightarrow> 'q game_world" where
  "tick_recognize_gestures G in_game w =
     (if \<not> in_game then w
      else let inp = gw_input w;
               (rs, gestures, pending) = gesture_recognition_system (is_show_json G) (iw_raw inp) (iw_tick inp)
                 (gw_recognizers w) (gw_gestures w, di_pending (iw_dist inp))
           in w\<lparr>gw_recognizers := rs, gw_gestures := gestures,
                gw_input := inp\<lparr>iw_dist := (iw_dist inp)\<lparr>di_pending := pending\<rparr>\<rparr>\<rparr>)"

definition game_tick :: "input_setup \<Rightarrow> bool \<Rightarrow> 'q game_world \<Rightarrow> 'q game_world" where
  "game_tick G in_game w = tick_recognize_gestures G in_game (tick_process_inputs G in_game w)"

text \<open>The system that would empty the queues of the scripts; no plugin schedules it.\<close>

definition script_frame_orchestration :: "PendingScriptEvents \<Rightarrow> PendingInputs \<Rightarrow> PendingScriptEvents \<times> PendingInputs" where
  "script_frame_orchestration pending_events pending_inputs =
     (let (events, pending_events) = pending_drain pending_events;
          (inputs, pending_inputs) = pending_drain pending_inputs
      in (pending_events, pending_inputs))"

section \<open>The frame\<close>

text \<open>Leaving the game resets the gestures, before the ticks of the frame.\<close>

definition change_state :: "bool \<Rightarrow> 'q game_world \<Rightarrow> 'q game_world" where
  "change_state in_game w =
     (let w = (if gw_in_game w \<and> \<not> in_game then w\<lparr>gw_recognizers := reset_gesture_recognizers (gw_recognizers w)\<rparr> else w)
      in w\<lparr>gw_in_game := in_game\<rparr>)"

text \<open>\<open>Time<Fixed>\<close>: adding time, spending a step if there is enough, and the time not yet spent, in nanoseconds.\<close>

record 'c fixed_clock =
  fc_accumulate :: "nat \<Rightarrow> 'c \<Rightarrow> 'c"
  fc_expend :: "'c \<Rightarrow> 'c option"
  fc_overstep :: "'c \<Rightarrow> nat"
  fc_fraction :: "'c \<Rightarrow> f32"

text \<open>\<open>Duration::from_millis(50)\<close>, and the duration of \<open>1.0 / 60.0\<close> seconds in whole nanoseconds.\<close>

definition MAX_DELTA :: nat where "MAX_DELTA = 50000000"
definition TIMESTEP :: nat where "TIMESTEP = 16666667"

partial_function (option) catch_up ::
  "('c \<Rightarrow> 'c option) \<Rightarrow> ('s \<Rightarrow> 's) \<Rightarrow> 'c \<Rightarrow> 's \<Rightarrow> nat \<Rightarrow> ('c \<times> 's \<times> nat) option" where
  "catch_up expend tick c s n = (case expend c of
       None \<Rightarrow> Some (c, s, n)
     | Some c' \<Rightarrow> catch_up expend tick c' (tick s) (n + 1))"

record frame_inputs =
  fi_hardware :: hardware
  fi_in_game :: bool
  fi_elapsed :: nat

text \<open>A frame, with the number of ticks it ran.\<close>

definition game_frame ::
  "'c fixed_clock \<Rightarrow> 'q lerp_ops \<Rightarrow> input_setup \<Rightarrow> frame_inputs \<Rightarrow> 'c \<times> 'q game_world \<Rightarrow> ('c \<times> 'q game_world \<times> nat) option" where
  "game_frame C L G f st =
     (let (c, w) = st;
          inp = gw_input w;
          w = w\<lparr>gw_input := inp\<lparr>iw_raw := input_capture_system (is_bindings G) (fi_hardware f) (iw_raw inp)\<rparr>\<rparr>;
          w = change_state (fi_in_game f) w;
          c = fc_accumulate C (min (fi_elapsed f) MAX_DELTA) c
      in case catch_up (fc_expend C) (game_tick G (fi_in_game f)) c w 0 of
           None \<Rightarrow> None
         | Some (c, w, n) \<Rightarrow> Some (c, w\<lparr>gw_moving := map (interpolate_rendering L (fc_fraction C c)) (gw_moving w)\<rparr>, n))"

primrec game_frames ::
  "'c fixed_clock \<Rightarrow> 'q lerp_ops \<Rightarrow> input_setup \<Rightarrow> frame_inputs list \<Rightarrow> 'c \<times> 'q game_world
     \<Rightarrow> ('c \<times> 'q game_world \<times> nat list) option" where
  "game_frames C L G [] st = Some (fst st, snd st, [])"
| "game_frames C L G (f # fs) st = (case game_frame C L G f st of
       None \<Rightarrow> None
     | Some (c, w, n) \<Rightarrow> map_option (\<lambda>(c, w, ns). (c, w, n # ns)) (game_frames C L G fs (c, w)))"

section \<open>Lemmas\<close>

definition clock_ok :: "'c fixed_clock \<Rightarrow> bool" where
  "clock_ok C \<longleftrightarrow>
     (\<forall>d c. fc_overstep C (fc_accumulate C d c) = fc_overstep C c + d) \<and>
     (\<forall>c. case fc_expend C c of
        None \<Rightarrow> fc_overstep C c < TIMESTEP
      | Some c' \<Rightarrow> fc_overstep C c = fc_overstep C c' + TIMESTEP)"

lemma clock_okD:
  assumes "clock_ok C"
  shows "fc_overstep C (fc_accumulate C d c) = fc_overstep C c + d"
    "fc_expend C c = None \<Longrightarrow> fc_overstep C c < TIMESTEP"
    "fc_expend C c = Some c' \<Longrightarrow> fc_overstep C c = fc_overstep C c' + TIMESTEP"
  using assms by (auto simp: clock_ok_def dest: spec [of _ c] split: option.splits)

lemma catch_up_total:
  assumes "clock_ok C"
  shows "\<exists>c'. catch_up (fc_expend C) tick c s n =
      Some (c', (tick ^^ (fc_overstep C c div TIMESTEP)) s, n + fc_overstep C c div TIMESTEP)
    \<and> fc_overstep C c' = fc_overstep C c mod TIMESTEP"
proof (induction "fc_overstep C c" arbitrary: c s n rule: less_induct)
  case less
  show ?case
  proof (cases "fc_expend C c")
    case None
    with clock_okD(2) [OF assms None] show ?thesis by (subst catch_up.simps) simp
  next
    case (Some c1)
    have over: "fc_overstep C c = fc_overstep C c1 + TIMESTEP" by (rule clock_okD(3) [OF assms Some])
    then have "fc_overstep C c1 < fc_overstep C c" by (simp add: TIMESTEP_def)
    from less [OF this, of "tick s" "n + 1"] obtain c' where
      c': "catch_up (fc_expend C) tick c1 (tick s) (n + 1) =
        Some (c', (tick ^^ (fc_overstep C c1 div TIMESTEP)) (tick s), n + 1 + fc_overstep C c1 div TIMESTEP)"
      "fc_overstep C c' = fc_overstep C c1 mod TIMESTEP" by blast
    have "fc_overstep C c div TIMESTEP = Suc (fc_overstep C c1 div TIMESTEP)"
      "fc_overstep C c mod TIMESTEP = fc_overstep C c1 mod TIMESTEP"
      using over by (simp_all add: TIMESTEP_def)
    with c' Some show ?thesis by (subst catch_up.simps) (simp add: funpow_swap1)
  qed
qed

lemma process_inputs_tick: "iw_tick (process_inputs S w) = increment_tick_counter (iw_tick w)"
  by (simp add: process_inputs_def Let_def)

lemma game_tick_counts: "ft_count (iw_tick (gw_input (game_tick G in_game w))) = ft_count (iw_tick (gw_input w)) + 1"
  by (simp add: game_tick_def tick_recognize_gestures_def tick_process_inputs_def process_inputs_tick
      increment_tick_counter_def Let_def split_beta)

lemma game_ticks_count:
  "ft_count (iw_tick (gw_input ((game_tick G in_game ^^ n) w))) = ft_count (iw_tick (gw_input w)) + of_nat n"
  by (induction n) (simp_all add: game_tick_counts add.assoc add.commute)

lemma game_frame_ticks:
  assumes "clock_ok C"
  shows "\<exists>c' w'. game_frame C L G f (c, w) = Some (c', w', (fc_overstep C c + min (fi_elapsed f) MAX_DELTA) div TIMESTEP)
    \<and> fc_overstep C c' = (fc_overstep C c + min (fi_elapsed f) MAX_DELTA) mod TIMESTEP
    \<and> ft_count (iw_tick (gw_input w')) = ft_count (iw_tick (gw_input w)) + of_nat ((fc_overstep C c + min (fi_elapsed f) MAX_DELTA) div TIMESTEP)"
proof -
  let ?c = "fc_accumulate C (min (fi_elapsed f) MAX_DELTA) c"
  let ?w = "change_state (fi_in_game f)
    (w\<lparr>gw_input := (gw_input w)\<lparr>iw_raw := input_capture_system (is_bindings G) (fi_hardware f) (iw_raw (gw_input w))\<rparr>\<rparr>)"
  have over: "fc_overstep C ?c = fc_overstep C c + min (fi_elapsed f) MAX_DELTA" by (rule clock_okD(1) [OF assms])
  obtain c' where "catch_up (fc_expend C) (game_tick G (fi_in_game f)) ?c ?w 0 =
      Some (c', (game_tick G (fi_in_game f) ^^ (fc_overstep C ?c div TIMESTEP)) ?w, fc_overstep C ?c div TIMESTEP)"
    "fc_overstep C c' = fc_overstep C ?c mod TIMESTEP"
    using catch_up_total [OF assms, of "game_tick G (fi_in_game f)" ?c ?w 0] by auto
  then show ?thesis
    by (simp add: game_frame_def Let_def over game_ticks_count) (simp add: change_state_def Let_def)
qed

section \<open>The queue of the scripts\<close>

text \<open>Nothing a tick runs takes inputs out of the queue, and every captured frame adds one.\<close>

lemma gestures_keep_pending:
  "\<exists>xs. snd (snd (gesture_recognition_system J raw tick rs (es, pending))) = pending @ xs"
proof (induction rs arbitrary: es pending)
  case (Cons r rs)
  have published: "\<exists>ys. snd (fold (publish_gesture J) events (es, pending)) = pending @ ys" for events es pending
  proof (induction events arbitrary: es pending)
    case (Cons e events)
    then show ?case by (simp add: publish_gesture_def pending_push_def) (metis append.assoc)
  qed simp
  obtain events r' where upd: "gesture_update (ft_count tick) (ri_mouse_buttons raw) (ri_mouse_pos raw) r = (events, r')"
    by fastforce
  obtain es' pending' where pub: "fold (publish_gesture J) events (es, pending) = (es', pending')" by fastforce
  then obtain ys where "pending' = pending @ ys" using published [where events = events and es = es and pending = pending] by auto
  moreover obtain xs where "snd (snd (gesture_recognition_system J raw tick rs (es', pending'))) = pending' @ xs"
    using Cons.IH by blast
  ultimately show ?case using upd pub by (simp add: split_beta)
qed simp

lemma pending_inputs_grow:
  shows "\<exists>xs. di_pending (iw_dist (gw_input (game_tick G in_game w))) = di_pending (iw_dist (gw_input w)) @ xs"
    and "in_game \<Longrightarrow> ri_frame_number (iw_raw (gw_input w)) \<noteq> di_last_frame (iw_dist (gw_input w)) \<Longrightarrow>
      length (di_pending (iw_dist (gw_input w))) < length (di_pending (iw_dist (gw_input (game_tick G in_game w))))"
proof -
  let ?w = "tick_process_inputs G in_game w"
  have first: "\<exists>xs. di_pending (iw_dist (gw_input ?w)) = di_pending (iw_dist (gw_input w)) @ xs"
    by (auto simp: tick_process_inputs_def process_inputs_def input_distribution_system_def pending_push_def Let_def split: option.split)
  have second: "\<exists>xs. di_pending (iw_dist (gw_input (game_tick G in_game w))) = di_pending (iw_dist (gw_input ?w)) @ xs"
    using gestures_keep_pending [of "is_show_json G" "iw_raw (gw_input ?w)" "iw_tick (gw_input ?w)" "gw_recognizers ?w"
        "gw_gestures ?w" "di_pending (iw_dist (gw_input ?w))"]
    by (auto simp: game_tick_def tick_recognize_gestures_def Let_def split_beta)
  show "\<exists>xs. di_pending (iw_dist (gw_input (game_tick G in_game w))) = di_pending (iw_dist (gw_input w)) @ xs"
    using first second by auto
  assume "in_game" "ri_frame_number (iw_raw (gw_input w)) \<noteq> di_last_frame (iw_dist (gw_input w))"
  then have "length (di_pending (iw_dist (gw_input w))) < length (di_pending (iw_dist (gw_input ?w)))"
    by (auto simp: tick_process_inputs_def process_inputs_def input_distribution_system_def should_distribute_def
        pending_push_def Let_def split: option.split)
  then show "length (di_pending (iw_dist (gw_input w))) < length (di_pending (iw_dist (gw_input (game_tick G in_game w))))"
    using second by auto
qed

section \<open>Properties\<close>

text \<open>C25: whatever the frame times, the loop that catches up ends in every frame, after at most three ticks; over any number of frames
  the ticks are those that fit into the elapsed time, each frame counted with at most 50 ms, none lost and none run twice, and the
  counter shows them; the time that is left is less than a step.\<close>
theorem frames_tick_exactly:
  assumes "clock_ok C" "fc_overstep C c < TIMESTEP"
  shows "\<exists>c' w' ns. game_frames C L G fs (c, w) = Some (c', w', ns) \<and> (\<forall>n \<in> set ns. n \<le> 3)
    \<and> sum_list ns * TIMESTEP + fc_overstep C c' = fc_overstep C c + (\<Sum>f \<leftarrow> fs. min (fi_elapsed f) MAX_DELTA)
    \<and> fc_overstep C c' < TIMESTEP
    \<and> ft_count (iw_tick (gw_input w')) = ft_count (iw_tick (gw_input w)) + of_nat (sum_list ns)"
  using assms(2)
proof (induction fs arbitrary: c w)
  case (Cons f fs)
  let ?t = "fc_overstep C c + min (fi_elapsed f) MAX_DELTA"
  obtain c1 w1 where f: "game_frame C L G f (c, w) = Some (c1, w1, ?t div TIMESTEP)" "fc_overstep C c1 = ?t mod TIMESTEP"
    "ft_count (iw_tick (gw_input w1)) = ft_count (iw_tick (gw_input w)) + of_nat (?t div TIMESTEP)"
    using game_frame_ticks [OF assms(1)] by blast
  have "fc_overstep C c1 < TIMESTEP" using f(2) by (simp add: TIMESTEP_def)
  from Cons.IH [OF this, of w1] obtain c' w' ns where
    rest: "game_frames C L G fs (c1, w1) = Some (c', w', ns)" "\<forall>n \<in> set ns. n \<le> 3"
      "sum_list ns * TIMESTEP + fc_overstep C c' = fc_overstep C c1 + (\<Sum>f \<leftarrow> fs. min (fi_elapsed f) MAX_DELTA)"
      "fc_overstep C c' < TIMESTEP" "ft_count (iw_tick (gw_input w')) = ft_count (iw_tick (gw_input w1)) + of_nat (sum_list ns)"
    by blast
  have "?t < 4 * TIMESTEP" using Cons.prems by (simp add: TIMESTEP_def MAX_DELTA_def)
  then have bound: "?t div TIMESTEP \<le> 3" by (simp add: TIMESTEP_def)
  have spent: "?t div TIMESTEP * TIMESTEP + fc_overstep C c1 = ?t" using f(2) by simp
  then have "(?t div TIMESTEP + sum_list ns) * TIMESTEP + fc_overstep C c' = ?t + (\<Sum>f \<leftarrow> fs. min (fi_elapsed f) MAX_DELTA)"
    using rest(3) by (simp only: add_mult_distrib)
  then show ?case
    using f(1,3) rest(1,2,4,5) bound
    by (intro exI [of _ c'] exI [of _ w'] exI [of _ "?t div TIMESTEP # ns"]) (simp add: add.assoc)
qed simp

definition toy_clock :: "nat fixed_clock" where
  "toy_clock = \<lparr>fc_accumulate = (+), fc_expend = (\<lambda>c. if TIMESTEP \<le> c then Some (c - TIMESTEP) else None),
     fc_overstep = id, fc_fraction = (\<lambda>_. 0)\<rparr>"

definition toy_frame_inputs :: "nat \<Rightarrow> frame_inputs" where
  "toy_frame_inputs ns = \<lparr>fi_hardware = \<lparr>hw_keyboard = None, hw_mouse = None, hw_windows = []\<rparr>, fi_in_game = False, fi_elapsed = ns\<rparr>"

text \<open>Frames of 20 ms, 20 ms and 10 s: the last is cut to 50 ms, and five steps fit into the 90 ms.\<close>

theorem frames_tick_exactly_witness:
  "\<forall>(L :: unit lerp_ops) G w. \<exists>c' w' ns. game_frames toy_clock L G (map toy_frame_inputs [20000000, 20000000, 10000000000]) (0, w) = Some (c', w', ns)
    \<and> sum_list ns = 5 \<and> ft_count (iw_tick (gw_input w')) = ft_count (iw_tick (gw_input w)) + 5"
proof (intro allI)
  fix L :: "unit lerp_ops" and G w
  have "clock_ok toy_clock" by (simp add: clock_ok_def toy_clock_def)
  moreover have "fc_overstep toy_clock 0 < TIMESTEP" by (simp add: toy_clock_def TIMESTEP_def)
  ultimately obtain c' w' ns where
    r: "game_frames toy_clock L G (map toy_frame_inputs [20000000, 20000000, 10000000000]) (0, w) = Some (c', w', ns)"
      "sum_list ns * TIMESTEP + fc_overstep toy_clock c' = 90000000" "fc_overstep toy_clock c' < TIMESTEP"
      "ft_count (iw_tick (gw_input w')) = ft_count (iw_tick (gw_input w)) + of_nat (sum_list ns)"
    using frames_tick_exactly [of toy_clock 0 L G "map toy_frame_inputs [20000000, 20000000, 10000000000]" w]
    by (auto simp: toy_frame_inputs_def MAX_DELTA_def toy_clock_def)
  then have "sum_list ns = 5" by (simp add: TIMESTEP_def)
  with r show "\<exists>c' w' ns. game_frames toy_clock L G (map toy_frame_inputs [20000000, 20000000, 10000000000]) (0, w) = Some (c', w', ns)
    \<and> sum_list ns = 5 \<and> ft_count (iw_tick (gw_input w')) = ft_count (iw_tick (gw_input w)) + 5"
    by auto
qed

end
