(* ===== verification/Key_Agreement.thy ===== *)
theory Key_Agreement
  imports Secure_Session
begin

text \<open>
  Key pairs (\<^verbatim>\<open>engine/crypto/src\<close>: \<open>ecdh.rs\<close>, \<open>signing.rs\<close>): what the program adds to the primitives of X25519 and
  Ed25519, which are parameters. The lemmas show that these pairs provide what the handshake, the update chunks and the
  bytecode container rely on, and what the check of the peer's key does not catch.
\<close>

section \<open>X25519\<close>

record 's x25519 =
  x_public :: "'s \<Rightarrow> bytes"
  x_diffie_hellman :: "'s \<Rightarrow> bytes \<Rightarrow> bytes"

record 's EcdhKeyPair =
  kp_secret :: 's
  kp_public :: bytes

text \<open>The random secret is an argument.\<close>

definition ecdh_generate :: "'s x25519 \<Rightarrow> 's \<Rightarrow> 's EcdhKeyPair" where
  "ecdh_generate X secret = \<lparr>kp_secret = secret, kp_public = x_public X secret\<rparr>"

definition ecdh_public_key :: "'s EcdhKeyPair \<Rightarrow> bytes" where
  "ecdh_public_key pair = kp_public pair"

definition derive_shared_secret :: "'s x25519 \<Rightarrow> 's EcdhKeyPair \<Rightarrow> bytes \<Rightarrow> CryptoError + bytes" where
  "derive_shared_secret X pair peer_public =
     (if \<forall>b \<in> set peer_public. b = 0 then Inl InvalidPublicKey
      else Inr (x_diffie_hellman X (kp_secret pair) peer_public))"

section \<open>Ed25519\<close>

record 'k ed25519 =
  ed_signing_key :: "bytes \<Rightarrow> 'k"
  ed_verifying_key :: "'k \<Rightarrow> bytes"
  ed_sign :: "'k \<Rightarrow> bytes \<Rightarrow> bytes"
  ed_valid_key :: "bytes \<Rightarrow> bool"
  ed_verify :: "bytes \<Rightarrow> bytes \<Rightarrow> bytes \<Rightarrow> bool"

record 'k SigningKeyPair =
  sk_signing_key :: 'k

definition signing_generate :: "'k \<Rightarrow> 'k SigningKeyPair" where
  "signing_generate random_key = \<lparr>sk_signing_key = random_key\<rparr>"

definition signing_from_bytes :: "'k ed25519 \<Rightarrow> bytes \<Rightarrow> 'k SigningKeyPair" where
  "signing_from_bytes D secret_key = \<lparr>sk_signing_key = ed_signing_key D secret_key\<rparr>"

definition signing_from_seed :: "'k ed25519 \<Rightarrow> bytes \<Rightarrow> 'k SigningKeyPair" where
  "signing_from_seed D seed = signing_from_bytes D seed"

definition signing_public_key :: "'k ed25519 \<Rightarrow> 'k SigningKeyPair \<Rightarrow> bytes" where
  "signing_public_key D pair = ed_verifying_key D (sk_signing_key pair)"

definition signing_sign :: "'k ed25519 \<Rightarrow> 'k SigningKeyPair \<Rightarrow> bytes \<Rightarrow> bytes" where
  "signing_sign D pair data = ed_sign D (sk_signing_key pair) data"

definition verify_signature :: "'k ed25519 \<Rightarrow> bytes \<Rightarrow> bytes \<Rightarrow> bytes \<Rightarrow> CryptoError + unit" where
  "verify_signature D public_key data signature =
     (if \<not> ed_valid_key D public_key then Inl InvalidPublicKey
      else if ed_verify D public_key data signature then Inr ()
      else Inl CryptoSignatureVerificationFailed)"

section \<open>What the pairs provide\<close>

definition x25519_ok :: "'s x25519 \<Rightarrow> bool" where
  "x25519_ok X \<longleftrightarrow>
     (\<forall>a b. x_diffie_hellman X a (x_public X b) = x_diffie_hellman X b (x_public X a)) \<and>
     (\<forall>a. \<exists>b \<in> set (x_public X a). b \<noteq> 0)"

definition ed25519_ok :: "'k ed25519 \<Rightarrow> bool" where
  "ed25519_ok D \<longleftrightarrow>
     (\<forall>k. ed_valid_key D (ed_verifying_key D k)) \<and>
     (\<forall>k m. length (ed_sign D k m) = 64 \<and> ed_verify D (ed_verifying_key D k) m (ed_sign D k m))"

text \<open>The key exchange of the handshakes, over these pairs.\<close>

definition pair_kx ::
  "bytes x25519 \<Rightarrow> (bytes \<Rightarrow> bytes \<Rightarrow> bytes \<Rightarrow> string + bytes) \<Rightarrow> (SessionInfo \<Rightarrow> string + bytes) \<Rightarrow> aead \<Rightarrow> kx_env" where
  "pair_kx X hkdf ser C =
     \<lparr>kx_public = (\<lambda>s. ecdh_public_key (ecdh_generate X s)),
      kx_shared = (\<lambda>s. derive_shared_secret X (ecdh_generate X s)),
      kx_hkdf = hkdf, kx_ser = ser, kx_aead = C\<rparr>"

lemma pair_kx_simps [simp]:
  "kx_public (pair_kx X hkdf ser C) a = ecdh_public_key (ecdh_generate X a)"
  "kx_shared (pair_kx X hkdf ser C) a = derive_shared_secret X (ecdh_generate X a)"
  "kx_hkdf (pair_kx X hkdf ser C) = hkdf"
  by (simp_all add: pair_kx_def)

lemma derived_secret: "\<not> (\<forall>b \<in> set p. b = 0) \<Longrightarrow> derive_shared_secret X (ecdh_generate X a) p = Inr (x_diffie_hellman X a p)"
  by (auto simp: derive_shared_secret_def ecdh_generate_def)

lemma pairs_agree: "x25519_ok X \<Longrightarrow> dh_agrees (pair_kx X hkdf ser C)"
  by (auto simp: dh_agrees_def derive_shared_secret_def ecdh_generate_def ecdh_public_key_def x25519_ok_def)

text \<open>The key of a generated pair is never the one both ends refuse, so the two checks of a handshake catch nothing an honest
  peer sends.\<close>

lemma honest_key_accepted:
  assumes "x25519_ok X"
  shows "derive_shared_secret X (ecdh_generate X a) (ecdh_public_key (ecdh_generate X b))
     = Inr (x_diffie_hellman X a (x_public X b))"
    "begin_handshake (pair_kx X hkdf ser C) s nonce (ecdh_public_key (ecdh_generate X b)) info \<noteq> Inl InvalidClientKey"
proof -
  have "\<exists>x \<in> set (x_public X b). x \<noteq> 0" for b using assms by (simp add: x25519_ok_def)
  then have zero: "\<not> (\<forall>x \<in> set (x_public X b). x = 0)" for b by blast
  then show "derive_shared_secret X (ecdh_generate X a) (ecdh_public_key (ecdh_generate X b))
     = Inr (x_diffie_hellman X a (x_public X b))"
    by (simp add: derive_shared_secret_def ecdh_generate_def ecdh_public_key_def)
  show "begin_handshake (pair_kx X hkdf ser C) s nonce (ecdh_public_key (ecdh_generate X b)) info \<noteq> Inl InvalidClientKey"
    using zero [of b]
    unfolding begin_handshake_def ecdh_public_key_def ecdh_generate_def EcdhKeyPair.select_convs if_not_P [OF zero]
    by (simp add: Let_def bind_sum_def map_inl_def split: sum.split)
qed

text \<open>The check knows one point of low order, the zero key. A peer that sends another one, for which every secret yields
  the same shared secret, is accepted, and the session key is a function of what went over the wire.\<close>

lemma low_order_key_accepted:
  assumes "\<And>s. x_diffie_hellman X s p = z" "\<exists>b \<in> set p. b \<noteq> 0"
    and "begin_handshake (pair_kx X hkdf ser C) s nonce p info = Inr (hello, key)"
  shows "hkdf z (build_hkdf_salt p (sh_server_public_key hello)) HKDF_INFO = Inr key"
proof -
  have zero: "\<not> (\<forall>b \<in> set p. b = 0)" using assms(2) by blast
  show ?thesis
    using assms(3) unfolding begin_handshake_def if_not_P [OF zero]
    by (auto simp: derived_secret [OF zero] assms(1) derive_session_key_def Let_def bind_sum_def map_inl_def split: sum.splits)
qed

lemma own_signature_verifies:
  "ed25519_ok D \<Longrightarrow> verify_signature D (signing_public_key D pair) m (signing_sign D pair m) = Inr ()"
  by (simp add: ed25519_ok_def verify_signature_def signing_public_key_def signing_sign_def)

text \<open>A pair is determined by its seed.\<close>

lemma seed_determines: "signing_from_seed D s = signing_from_bytes D s" "signing_sign D (signing_from_seed D s) = ed_sign D (ed_signing_key D s)"
  by (simp_all add: signing_from_seed_def signing_from_bytes_def signing_sign_def fun_eq_iff)

end
