(* ===== verification/Spec2Isabelle.thy ===== *)
theory Spec2Isabelle
  imports Netcode_Rollback Netcode_Connection Server_Simulation Anti_Cheat Shadow_VM Update_Pipeline
    Rooms Script_Limits Assets Asset_Decryption Memory_Regions Bridge_Flush Secure_Session Dev_Tools Client_Loader Soft_Vec Interpolation Debug_Hash Gesture Camera_Motion
    Asset_Serving Inspect_Tools Event_Types Camera_Frame Shadow_Channel Frame_Loop Key_Agreement
begin

text \<open>
  Verification of a deterministic multiplayer game framework in Rust.

  The program. A game runs as scripts in a sandboxed interpreter on top of a fixed-rate simulation. A client
  predicts its own input and rolls back when the server disagrees; the server runs the authoritative
  simulation; states are compared by a hash of a canonical byte stream. A second interpreter, the shadow VM,
  re-executes what the client claims, and the server's anti-cheat rules judge the differences. Scripts are
  compiled to signed and encrypted containers, delivered over the air in chunks, and replaced while the game
  runs. Scripts act on the game only through bridge functions, which record events in a bounded queue that is
  flushed into the engine once a frame. Client and gateway exchange frames encrypted under a key agreed in a
  handshake. Assets are described by a manifest, delivered incrementally and stored encrypted.

  Theories and the code they model (all paths below \<^verbatim>\<open>src/\<close>), from the bottom up.

  Vocabulary and interfaces:
    \<^item> \<open>Prelude\<close>: integer types, saturating and checked operations, byte encodings, lists.
    \<^item> \<open>Native_Float\<close>: Rust's native floats as bit patterns; comparisons are computed, arithmetic is a parameter.
    \<^item> \<open>Ordered_Map\<close>: \<open>BTreeMap\<close> (and \<open>HashMap\<close> where only its contents matter) as sorted association lists; the
      locale \<open>keyed_store\<close>.
    \<^item> \<open>Fifo_Window\<close>, \<open>Id_Allocator\<close>, \<open>Machines\<close>: the locales of the bounded queues, of the components that
      hand out identifiers, and of the state machines (with and without absorbing states). Every one is
      interpreted on the model of each component that provides it, in that component's theory.
    \<^item> \<open>Bridge_Types\<close>: \<^verbatim>\<open>engine/bridge_types\<close>, the data that crosses component boundaries.

  Determinism and hashing:
    \<^item> \<open>Deterministic\<close>: \<^verbatim>\<open>engine/deterministic\<close>: the PCG generator, software floats, the simulation clock.
    \<^item> \<open>State_Hash\<close>, \<open>Debug_Hash\<close>: \<^verbatim>\<open>engine/state_hash\<close>, \<^verbatim>\<open>engine/netcode/src/debug_hash.rs\<close>: the hashed
      bytes and the report that locates a difference.

  Simulation and network:
    \<^item> \<open>Netcode_Rollback\<close>, \<open>Netcode_Connection\<close>: \<^verbatim>\<open>engine/netcode\<close>: prediction, rollback, reconnection.
    \<^item> \<open>Protocol\<close>: \<^verbatim>\<open>engine/protocol\<close>: messages, frames, the state of a connection.
    \<^item> \<open>Crypto_Frames\<close>, \<open>Secure_Session\<close>: \<^verbatim>\<open>engine/crypto\<close>, \<^verbatim>\<open>server/key_exchange\<close>,
      \<^verbatim>\<open>client/wasm_loader/src/handshake.rs\<close>, \<^verbatim>\<open>server/gateway/src/listener.rs\<close>: encrypted frames, the
      handshake, and the session the client and the gateway then have.
    \<^item> \<open>Replay\<close>, \<open>Server_Simulation\<close>: \<^verbatim>\<open>server/replay_engine\<close>, \<^verbatim>\<open>server/simulation\<close>.
    \<^item> \<open>Rooms\<close>: the room and session managers of \<^verbatim>\<open>server/gateway\<close> and \<^verbatim>\<open>server/hot_update_cdn\<close>.
    \<^item> \<open>Anti_Cheat\<close>: \<^verbatim>\<open>server/validator\<close>, \<^verbatim>\<open>server/anti_cheat\<close>.
    \<^item> \<open>Shadow_VM\<close>: \<^verbatim>\<open>engine/shadow_vm\<close>: scheduler, trace window, executor, validator, worker life cycle.

  Scripts and their updates:
    \<^item> \<open>Bytecode_Format\<close>: \<^verbatim>\<open>build/bytecode_compiler\<close>.
    \<^item> \<open>Script_Runtime\<close>, \<open>Script_Manager\<close>, \<open>Script_Limits\<close>: \<^verbatim>\<open>engine/vm_runtime\<close>: one script, the table of
      scripts, budgets and diagnostics. What scripts share (clock, budget, bridge state) is passed from call to call.
    \<^item> \<open>Hot_Update\<close>, \<open>Hot_Update_Cdn\<close>, \<open>Update_Pipeline\<close>: chunking and broadcast on the server, collection and
      atomic replacement on the client, and the whole way from source to running script.
    \<^item> \<open>Script_Bridge\<close>, \<open>Bridge_Flush\<close>: the functions scripts call (\<^verbatim>\<open>engine/vm_runtime/src/bridge_api.rs\<close>) and the
      flush into the game (\<^verbatim>\<open>engine/vm_bevy_bridge\<close>).

  The game client:
    \<^item> \<open>Assets\<close>, \<open>Asset_Decryption\<close>, \<open>Memory_Regions\<close>: manifest, incremental downloads, encryption, memory budget.
    \<^item> \<open>Input\<close>, \<open>Gesture\<close>: capture, distribution, gestures.
    \<^item> \<open>Camera_Overrides\<close>, \<open>Camera_Motion\<close>: the override stack, the registry, shakes, bounds, following.
    \<^item> \<open>Sandbox\<close>, \<open>Dev_Tools\<close>: \<^verbatim>\<open>engine/vm_runtime/src/sandbox.rs\<close>, \<^verbatim>\<open>dev_tools.rs\<close>: running a script under limits, the
      file watcher and the debug console.
    \<^item> \<open>Client_Loader\<close>: \<^verbatim>\<open>client/wasm_loader/src\<close>, \<^verbatim>\<open>engine/bevy_runtime/src/version.rs\<close>: what the browser calls.
    \<^item> \<open>Soft_Vec\<close>, \<open>Interpolation\<close>: \<^verbatim>\<open>engine/deterministic/src/soft_vec.rs\<close>, \<^verbatim>\<open>engine/bevy_runtime/src/interpolation.rs\<close>.
    \<^item> \<open>Paths\<close>, \<open>Calendar\<close>, \<open>Manifest_Gen\<close>: \<^verbatim>\<open>tools/manifest-gen/src/main.rs\<close>: file names, the timestamp and its
      calendar, scanning, generating and verifying a manifest.
    \<^item> \<open>Asset_Serving\<close>: \<^verbatim>\<open>engine/bevy_runtime/src/asset_source\<close>, \<^verbatim>\<open>asset_bridge.rs\<close>, \<^verbatim>\<open>tools/dev-asset-server\<close>: the reader of
      assets, the tokens of scripts, and the way of a changed file from the watcher to the browser.
    \<^item> \<open>Build_Tools\<close>, \<open>Inspect_Tools\<close>: \<^verbatim>\<open>build/*/src/main.rs\<close>, \<^verbatim>\<open>tools/vm_disassembler\<close>, \<^verbatim>\<open>tools/replay_debugger\<close>,
      \<^verbatim>\<open>tools/state_inspector\<close>: what the command-line tools do with files and print.
    \<^item> \<open>Frame_Loop\<close>: \<^verbatim>\<open>engine/bevy_runtime/src/lib.rs\<close>, \<^verbatim>\<open>fixed_update.rs\<close>: the frame of the game, its fixed ticks and their number.
    \<^item> \<open>Shadow_Channel\<close>: \<^verbatim>\<open>engine/shadow_vm/src/client.rs\<close>, \<^verbatim>\<open>in_process.rs\<close>, \<^verbatim>\<open>client/js/shadow_worker.js\<close>: the two ends
      of the shadow VM and the stand-in that answers as the worker does.
    \<^item> \<open>Key_Agreement\<close>: \<^verbatim>\<open>engine/crypto/src/ecdh.rs\<close>, \<^verbatim>\<open>signing.rs\<close>: key pairs and what they provide.
    \<^item> \<open>Camera_Frame\<close>: \<^verbatim>\<open>engine/bevy_runtime/src/camera/mod.rs\<close>, \<open>follow.rs\<close>, \<open>cursor.rs\<close>: the eleven camera systems of a
      frame on a world of entities, each system as a function of one entity, and the bounds at the end of it.
    \<^item> \<open>Event_Types\<close>: \<^verbatim>\<open>engine/vm_runtime/src/bridge_api.rs\<close>, \<^verbatim>\<open>camera_module.rs\<close>: what the events and camera
      operations recorded by scripts may carry, as a type that every function scripts can call respects.
  How it is modelled. A Rust struct is a record whose fields carry a short prefix of its name, an enum a
  datatype with the source's constructors, and a function or handler one definition of the same name. State
  behind \<open>&mut\<close>, locks or thread-local cells is passed in and returned. An error is the left of a sum, a panic
  the value \<open>Panic\<close> or \<open>None\<close>. Integers keep their width and wrap as in a release build, except for \<open>usize\<close> counts of
  elements held in memory, which are naturals. Text is the list of its UTF-8 bytes. What another crate computes
  is an argument: blake3, bincode and RON, AES-GCM, X25519, HKDF and Ed25519, softfloat, rhai, glam and the
  noise generator, JSON printing, Bevy's resources, clocks and random bytes. What a theorem needs of them is a named
  hypothesis (decryption undoes encryption, equal digests mean equal bytes), and its witness instantiates it.

  What is proved. Each component has its invariant kept by every operation (rooms, script table, camera registry,
  entity map, memory regions, caches), the outcome of each operation on every branch (step, replace, commit, flush,
  server state handler), and where it has a contract a refinement of it (override stack, incremental assets,
  recorded sessions, the update path, a secure session). A watcher's reports, a script's recorded events and its
  disabling are compared with descriptions read off the paths, the calls and their results. Pairs of routines meant to agree are shown equivalent (automatic
  disabling, memory guards, gestures against their thresholds). Codecs round-trip, budgets and
  restart counts are bounded, hash equality means state equality up to collisions of the digest.

  Bounds and fuel. Two loops are not structural. The rejection sampling of \<open>gen_range_i32\<close>, which may in principle
  run for ever, is a partial function in the option monad; its termination is a theorem, from the full
  period of the generator. The fixed ticks of a frame are another, shown to end after at most three
  (\<open>Frame_Loop\<close>). Everything else terminates by its definition, so no fuel is used.

  Not modelled. Bevy itself, rendering, physics, the browser side of loaders, sockets and HTTP servers,
  argument parsing and logging: they only call other code. Arithmetic of floats is not interpreted, so nothing is claimed
  about numerical accuracy. Locks are taken to be uncontended and never poisoned unless a handler checks them.
\<close>

end
